(* ===== verification/Prelude.thy ===== *)
theory Prelude
  imports Main "HOL-Library.Word" "HOL-Library.Char_ord" "HOL-Library.List_Lexorder"
    "HOL-Library.Sublist" "HOL-Library.Signed_Division" "HOL-Library.Multiset"
begin

section \<open>What the Go modules share: machine integers, strings, generic list lemmas\<close>

text \<open>
  The prelude of the development. It models the pieces of the Go language and of its standard
  library that more than one module uses:

  \<^item> 64-bit integers and \<open>time.Duration\<close>: an \<open>int\<close> in the range of an \<open>int64\<close>, with the
    wrap-around of Go's arithmetic written out by \<open>wrap64\<close>; Go's \<open>/\<close> is \<open>sdiv\<close> (it truncates);
  \<^item> strings: Go strings are byte sequences, HOL's \<open>char\<close> is a byte, so a Go string is a
    \<open>string\<close>. \<open>strings.Contains\<close>, \<open>HasPrefix\<close>, \<open>HasSuffix\<close>, \<open>Split\<close>, \<open>Join\<close>, \<open>Cut\<close>,
    \<open>TrimSpace\<close> and \<open>Fields\<close> are the functions below (white space is the ASCII white space);
  \<^item> \<open>strconv\<close>: decimal printing and the decimal parsers \<open>ParseUint\<close>, \<open>ParseInt\<close> and
    \<open>Atoi\<close> with their range checks.

  The collection \<open>go_defs\<close> gathers the definitions that component proofs unfold together.
\<close>

named_theorems go_defs \<open>definitions of operations that component proofs unfold\<close>

subsection \<open>64-bit integers\<close>

definition wrap64 :: "int \<Rightarrow> int" where
  "wrap64 x = (x + 2 ^ 63) mod 2 ^ 64 - 2 ^ 63"

definition in_int64 :: "int \<Rightarrow> bool" where
  "in_int64 x \<longleftrightarrow> - (2 ^ 63) \<le> x \<and> x < 2 ^ 63"

lemma wrap64_id [simp]: "in_int64 x \<Longrightarrow> wrap64 x = x"
  by (simp add: wrap64_def in_int64_def)

lemma in_int64_wrap64 [simp]: "in_int64 (wrap64 x)"
proof -
  have "0 \<le> (x + 2 ^ 63) mod 2 ^ 64" and "(x + 2 ^ 63) mod 2 ^ 64 < 2 ^ 64"
    by simp_all
  then show ?thesis by (simp add: in_int64_def wrap64_def)
qed

lemma wrap64_as_word: "wrap64 x = sint (word_of_int x :: 64 word)"
  by (simp add: wrap64_def sint_uint signed_take_bit_eq_take_bit_shift uint_word_of_int
      take_bit_eq_mod mod_simps)

text \<open>\<open>time.Time.Sub\<close> (and so \<open>time.Since\<close>): the difference, saturated to a \<open>Duration\<close>.\<close>

definition time_sub :: "int \<Rightarrow> int \<Rightarrow> int" where
  "time_sub t u = max (- (2 ^ 63)) (min (2 ^ 63 - 1) (t - u))"

lemma in_int64_bounded:
  assumes "0 \<le> x" and "x \<le> y" and "in_int64 y" shows "in_int64 x"
  using assms by (simp add: in_int64_def)

subsection \<open>Strings\<close>

text \<open>\<open>strings.Contains s sub\<close>.\<close>

definition str_contains :: "string \<Rightarrow> string \<Rightarrow> bool" where
  "str_contains s sub = sublist sub s"

definition has_prefix :: "string \<Rightarrow> string \<Rightarrow> bool" where
  "has_prefix s p = prefix p s"

definition has_suffix :: "string \<Rightarrow> string \<Rightarrow> bool" where
  "has_suffix s p = suffix p s"

text \<open>\<open>strings.Split\<close> on a one-byte separator, and \<open>strings.Join\<close>.\<close>

fun split_on :: "'a \<Rightarrow> 'a list \<Rightarrow> 'a list list" where
  "split_on sep [] = [[]]"
| "split_on sep (x # xs) =
     (if x = sep then [] # split_on sep xs
      else (case split_on sep xs of [] \<Rightarrow> [[x]] | w # ws \<Rightarrow> (x # w) # ws))"

fun join_with :: "'a list \<Rightarrow> 'a list list \<Rightarrow> 'a list" where
  "join_with sep [] = []"
| "join_with sep [w] = w"
| "join_with sep (w # ws) = w @ sep @ join_with sep ws"

text \<open>\<open>strings.Cut\<close> on a one-byte separator: before, after, found.\<close>

fun str_cut :: "'a \<Rightarrow> 'a list \<Rightarrow> 'a list \<times> 'a list \<times> bool" where
  "str_cut sep [] = ([], [], False)"
| "str_cut sep (x # xs) =
     (if x = sep then ([], xs, True)
      else (case str_cut sep xs of (b, a, f) \<Rightarrow> (x # b, a, f)))"

lemma split_on_not_Nil [simp]: "split_on sep xs \<noteq> []"
  by (induction xs) (auto split: list.splits)

lemma join_with_split_on: "join_with [sep] (split_on sep xs) = xs"
proof (induction xs)
  case Nil
  then show ?case by simp
next
  case (Cons x xs)
  obtain w ws where sp: "split_on sep xs = w # ws"
    by (cases "split_on sep xs") auto
  with Cons.IH show ?case by (cases ws) auto
qed

lemma split_on_no_sep: "sep \<notin> set xs \<Longrightarrow> split_on sep xs = [xs]"
  by (induction xs) auto

lemma split_on_append_sep:
  "sep \<notin> set w \<Longrightarrow> split_on sep (w @ sep # xs) = w # split_on sep xs"
  by (induction w) auto

lemma split_on_sep_append: "split_on sep (xs @ sep # ys) = split_on sep xs @ split_on sep ys"
  by (induction xs) (auto split: list.splits)

lemma split_on_join_with:
  "ws \<noteq> [] \<Longrightarrow> \<forall>w \<in> set ws. sep \<notin> set w \<Longrightarrow> split_on sep (join_with [sep] ws) = ws"
  by (induction "[sep]" ws rule: join_with.induct) (auto simp: split_on_no_sep split_on_append_sep)

lemma split_on_no_sep_in: "w \<in> set (split_on sep xs) \<Longrightarrow> sep \<notin> set w"
proof (induction xs arbitrary: w)
  case Nil
  then show ?case by simp
next
  case (Cons x xs)
  obtain v ws where "split_on sep xs = v # ws"
    by (cases "split_on sep xs") auto
  with Cons show ?case by (auto split: if_splits)
qed

lemma length_split_on: "length (split_on sep xs) = Suc (count_list xs sep)"
proof (induction xs)
  case Nil
  then show ?case by simp
next
  case (Cons x xs)
  obtain v ws where "split_on sep xs = v # ws"
    by (cases "split_on sep xs") auto
  with Cons show ?case by auto
qed

text \<open>ASCII white space, \<open>strings.TrimSpace\<close> and \<open>strings.Fields\<close>.\<close>

definition is_space :: "char \<Rightarrow> bool" where
  "is_space c \<longleftrightarrow> c \<in> {CHR 0x09, CHR 0x0A, CHR 0x0B, CHR 0x0C, CHR 0x0D, CHR 0x20}"

definition trim_space :: "string \<Rightarrow> string" where
  "trim_space s = rev (dropWhile is_space (rev (dropWhile is_space s)))"

lemma dropWhile_hd_not: "xs = [] \<or> \<not> P (hd xs) \<Longrightarrow> dropWhile P xs = xs"
  by (cases xs) auto

lemma trim_space_id:
  assumes "s = [] \<or> \<not> is_space (hd s) \<and> \<not> is_space (last s)"
  shows "trim_space s = s"
  using assms by (auto simp: trim_space_def dropWhile_hd_not hd_rev)

subsection \<open>Decimal numbers\<close>

definition digit_char :: "nat \<Rightarrow> char" where
  "digit_char d = char_of (48 + d)"

fun show_nat :: "nat \<Rightarrow> string" where
  "show_nat n = (if n < 10 then [digit_char n] else show_nat (n div 10) @ [digit_char (n mod 10)])"

declare show_nat.simps [simp del]

definition show_int :: "int \<Rightarrow> string" where
  "show_int i = (if i < 0 then CHR ''-'' # show_nat (nat (- i)) else show_nat (nat i))"

definition is_digit :: "char \<Rightarrow> bool" where
  "is_digit c \<longleftrightarrow> 48 \<le> (of_char c :: nat) \<and> (of_char c :: nat) \<le> 57"

definition digit_val :: "char \<Rightarrow> nat" where
  "digit_val c = of_char c - 48"

definition parse_digits :: "string \<Rightarrow> nat option" where
  "parse_digits s = (if s \<noteq> [] \<and> list_all is_digit s
     then Some (foldl (\<lambda>n c. 10 * n + digit_val c) 0 s) else None)"

text \<open>\<open>strconv.ParseUint(s, 10, 64)\<close>: digits only, and the value fits 64 bits.\<close>

definition parse_uint64 :: "string \<Rightarrow> nat option" where
  "parse_uint64 s = (case parse_digits s of None \<Rightarrow> None
     | Some n \<Rightarrow> if n < 2 ^ 64 then Some n else None)"

text \<open>\<open>strconv.Atoi\<close> and \<open>strconv.ParseInt(s, 10, 64)\<close> on a 64-bit platform: an optional sign,
  digits, and the value fits an \<open>int64\<close>.\<close>

definition parse_int64 :: "string \<Rightarrow> int option" where
  "parse_int64 s =
     (let (neg, ds) = (case s of [] \<Rightarrow> (False, [])
         | c # cs \<Rightarrow> if c = CHR ''-'' then (True, cs) else if c = CHR ''+'' then (False, cs) else (False, s))
      in case parse_digits ds of None \<Rightarrow> None
         | Some n \<Rightarrow> (let v = (if neg then - int n else int n) in if in_int64 v then Some v else None))"

lemma of_char_digit: "d < 10 \<Longrightarrow> (of_char (digit_char d) :: nat) = 48 + d"
  by (simp add: digit_char_def)

lemma is_digit_digit_char [simp]: "d < 10 \<Longrightarrow> is_digit (digit_char d)"
  by (simp add: is_digit_def of_char_digit)

lemma digit_val_digit_char [simp]: "d < 10 \<Longrightarrow> digit_val (digit_char d) = d"
  by (simp add: digit_val_def of_char_digit)

lemma show_nat_digits: "list_all is_digit (show_nat n) \<and> show_nat n \<noteq> []"
proof (induction n rule: show_nat.induct)
  case (1 n)
  then show ?case by (cases "n < 10") (auto simp: show_nat.simps [of n])
qed

lemma show_nat_not_Nil [simp]: "show_nat n \<noteq> []"
  using show_nat_digits [of n] by simp

lemma foldl_show_nat: "foldl (\<lambda>n c. 10 * n + digit_val c) 0 (show_nat n) = n"
proof (induction n rule: show_nat.induct)
  case (1 n)
  then show ?case by (cases "n < 10") (auto simp: show_nat.simps [of n])
qed

lemma parse_digits_show_nat [simp]: "parse_digits (show_nat n) = Some n"
  using show_nat_digits [of n] by (simp add: parse_digits_def foldl_show_nat)

lemma parse_uint64_show_nat: "n < 2 ^ 64 \<Longrightarrow> parse_uint64 (show_nat n) = Some n"
  by (simp add: parse_uint64_def)

lemma show_nat_inj: "show_nat m = show_nat n \<Longrightarrow> m = n"
  by (metis option.inject parse_digits_show_nat)

lemma digit_not_space: "is_digit c \<Longrightarrow> \<not> is_space c"
  by (auto simp: is_digit_def is_space_def)

lemma trim_space_show_nat_newline: "trim_space (show_nat n @ [CHR 0x0A]) = show_nat n"
proof -
  have dig: "list_all is_digit (show_nat n)" and ne: "show_nat n \<noteq> []"
    using show_nat_digits [of n] by auto
  then have h: "\<not> is_space (hd (show_nat n))" and l: "\<not> is_space (last (show_nat n))"
    by (auto simp: list_all_iff intro!: digit_not_space)
  have "dropWhile is_space (show_nat n @ [CHR 0x0A]) = show_nat n @ [CHR 0x0A]"
    using h ne by (intro dropWhile_hd_not) simp
  moreover have "dropWhile is_space (rev (show_nat n @ [CHR 0x0A])) = rev (show_nat n)"
    using l ne by (simp add: is_space_def dropWhile_hd_not hd_rev)
  ultimately show ?thesis by (simp add: trim_space_def)
qed

subsection \<open>Quoting\<close>

text \<open>The verb \<open>%q\<close> (\<open>strconv.Quote\<close>) on a byte string: quotes, backslashes and the control
  characters are escaped, other bytes are copied.\<close>

definition hex_char :: "nat \<Rightarrow> char" where
  "hex_char d = (if d < 10 then char_of (48 + d) else char_of (87 + d))"

definition quote_char :: "char \<Rightarrow> string" where
  "quote_char c = (let n = (of_char c :: nat) in
     if n = 34 then [CHR 0x5C, CHR 0x22]
     else if n = 92 then [CHR 0x5C, CHR 0x5C]
     else if n = 7 then [CHR 0x5C, CHR ''a'']
     else if n = 8 then [CHR 0x5C, CHR ''b'']
     else if n = 9 then [CHR 0x5C, CHR ''t'']
     else if n = 10 then [CHR 0x5C, CHR ''n'']
     else if n = 11 then [CHR 0x5C, CHR ''v'']
     else if n = 12 then [CHR 0x5C, CHR ''f'']
     else if n = 13 then [CHR 0x5C, CHR ''r'']
     else if n < 32 \<or> n = 127 then [CHR 0x5C, CHR ''x'', hex_char (n div 16), hex_char (n mod 16)]
     else [c])"

definition go_quote :: "string \<Rightarrow> string" where
  "go_quote s = [CHR 0x22] @ concat (map quote_char s) @ [CHR 0x22]"

subsection \<open>Lists and maps\<close>

text \<open>The first-seen order of the distinct elements of a list, the reference for every loop that
  deduplicates with a \<open>seen\<close> map.\<close>

fun first_seen :: "'a set \<Rightarrow> 'a list \<Rightarrow> 'a list" where
  "first_seen S [] = []"
| "first_seen S (x # xs) = (if x \<in> S then first_seen S xs else x # first_seen (insert x S) xs)"

lemma set_first_seen [simp]: "set (first_seen S xs) = set xs - S"
  by (induction xs arbitrary: S) auto

lemma distinct_first_seen [simp]: "distinct (first_seen S xs)"
  by (induction xs arbitrary: S) auto

lemma first_seen_Un: "first_seen (A \<union> S) xs = filter (\<lambda>x. x \<notin> A) (first_seen S xs)"
proof (induction xs arbitrary: S)
  case (Cons x xs)
  have "insert x (A \<union> S) = A \<union> insert x S" by auto
  moreover have "A \<union> S = A \<union> insert x S" if "x \<in> A" using that by auto
  ultimately show ?case using Cons.IH [of S] Cons.IH [of "insert x S"] by auto
qed simp

lemma first_seen_cong: "S \<inter> set xs = T \<inter> set xs \<Longrightarrow> first_seen S xs = first_seen T xs"
proof (induction xs arbitrary: S T)
  case (Cons x xs)
  then have "x \<in> S \<longleftrightarrow> x \<in> T" by auto
  moreover have "first_seen S xs = first_seen T xs" by (rule Cons.IH) (use Cons.prems in auto)
  moreover have "first_seen (insert x S) xs = first_seen (insert x T) xs" by (rule Cons.IH) (use Cons.prems in auto)
  ultimately show ?case by (simp only: first_seen.simps)
qed simp

lemma first_seen_filter_distinct: "distinct xs \<Longrightarrow> first_seen S xs = filter (\<lambda>x. x \<notin> S) xs"
  by (induction xs arbitrary: S) (auto intro!: filter_cong)

lemma in_image_iff: "y \<in> f ` A \<longleftrightarrow> (\<exists>x \<in> A. f x = y)"
  by auto

lemma sort_key_Nil_iff [simp]: "sort_key f xs = [] \<longleftrightarrow> xs = []"
  using length_sort [of f xs] by (cases xs; cases "sort_key f xs") auto

lemma length_filter_partition:
  "length (filter P xs) + length (filter (\<lambda>x. \<not> P x) xs) = length xs"
  by (induction xs) auto

end
