(* ===== verification/Go_Errors.thy ===== *)
theory Go_Errors
  imports Prelude
begin

section \<open>Go's error values\<close>

text \<open>
  A Go \<open>error\<close> is a tree: a value with a message that may wrap other errors (\<open>Unwrap\<close>). The
  standard functions \<open>errors.Is\<close> and \<open>errors.As\<close> walk that tree in pre-order, depth first.
  The kinds of node are those the modules of the repository construct or test for:
  a sentinel made by \<open>errors.New\<close> (known by its identity, here its qualified name), a
  \<open>fmt.Errorf\<close> wrapper, \<open>retry.permanentError\<close>, \<open>apierr.StatusError\<close>, and an error of a type
  that is not part of the repository, about which the model knows only what the type variable
  carries.
\<close>

datatype 'x kind =
    Sentinel string
  | Wrapf
  | PermanentK
  | StatusK int string
  | Foreign 'x

datatype 'x err = GoErr (err_kind: "'x kind") (err_text: string) (err_wrapped: "'x err list")

definition sentinel :: "string \<Rightarrow> string \<Rightarrow> 'x err" where
  "sentinel nm msg = GoErr (Sentinel nm) msg []"

text \<open>\<open>fmt.Errorf\<close> with one \<open>%w\<close> verb at the end of the format.\<close>

definition wrapf :: "string \<Rightarrow> 'x err \<Rightarrow> 'x err" where
  "wrapf msg e = GoErr Wrapf (msg @ err_text e) [e]"

text \<open>\<open>fmt.Errorf\<close> in general: the formatted message and the errors of its \<open>%w\<close> verbs.\<close>

definition errorf :: "string \<Rightarrow> 'x err list \<Rightarrow> 'x err" where
  "errorf msg es = GoErr Wrapf msg es"

fun err_nodes :: "'x err \<Rightarrow> 'x err list" where
  "err_nodes (GoErr k m es) = GoErr k m es # concat (map err_nodes es)"

text \<open>\<open>errors.Is\<close> against a sentinel, and \<open>errors.As\<close> against the nodes accepted by a test.\<close>

definition errors_Is :: "'x err \<Rightarrow> string \<Rightarrow> bool" where
  "errors_Is e nm = list_ex (\<lambda>n. case err_kind n of Sentinel nm' \<Rightarrow> nm' = nm | _ \<Rightarrow> False) (err_nodes e)"

definition errors_As :: "('x err \<Rightarrow> 'b option) \<Rightarrow> 'x err \<Rightarrow> 'b option" where
  "errors_As view e = (case List.find (\<lambda>n. view n \<noteq> None) (err_nodes e) of
      None \<Rightarrow> None | Some n \<Rightarrow> view n)"

text \<open>The two errors a \<open>context.Context\<close> reports when it is done.\<close>

datatype ctx_error = Canceled | DeadlineExceeded

fun ctx_err :: "ctx_error \<Rightarrow> 'x err" where
  "ctx_err Canceled = sentinel ''context.Canceled'' ''context canceled''"
| "ctx_err DeadlineExceeded = sentinel ''context.DeadlineExceeded'' ''context deadline exceeded''"

text \<open>
  What a function reads from outside: whether its context is done, and the clock. Each read
  threads the state \<open>'w\<close> of the outside world, so that two reads may differ and any schedule of
  cancellations and any advance of the clock is an instance. Callbacks are functions
  \<open>'w \<Rightarrow> 'a \<times> 'w\<close> in the same way.
\<close>

record 'w env =
  poll_ctx :: "'w \<Rightarrow> ctx_error option \<times> 'w"
  time_now :: "'w \<Rightarrow> int \<times> 'w"

lemma err_nodes_not_Nil [simp]: "err_nodes e \<noteq> []"
  by (cases e) simp

lemma err_nodes_wrapf [simp]: "err_nodes (wrapf m e) = wrapf m e # err_nodes e"
  by (simp add: wrapf_def)

lemma err_nodes_sentinel [simp]: "err_nodes (sentinel n m) = [sentinel n m]"
  by (simp add: sentinel_def)

lemma err_kind_simps [simp]:
  "err_kind (sentinel n m) = Sentinel n" "err_kind (wrapf m e) = Wrapf"
  by (simp_all add: sentinel_def wrapf_def)

lemma err_kind_errorf [simp]: "err_kind (errorf m es) = Wrapf"
  by (simp add: errorf_def)

lemma err_nodes_errorf [simp]: "err_nodes (errorf m es) = errorf m es # concat (map err_nodes es)"
  by (simp add: errorf_def)

lemma errors_Is_errorf [simp]: "errors_Is (errorf m es) nm = list_ex (\<lambda>e. errors_Is e nm) es"
  by (induction es) (auto simp: errors_Is_def)

lemma errors_Is_wrapf [simp]: "errors_Is (wrapf m e) nm = errors_Is e nm"
  by (simp add: errors_Is_def)

lemma errors_Is_sentinel [simp]: "errors_Is (sentinel n m) nm \<longleftrightarrow> n = nm"
  by (simp add: errors_Is_def)

lemma errors_As_sentinel [simp]:
  "errors_As view (sentinel n m) = view (sentinel n m)"
  by (auto simp: errors_As_def)

lemma errors_As_wrapf [simp]:
  "view (wrapf m e) = None \<Longrightarrow> errors_As view (wrapf m e) = errors_As view e"
  by (simp add: errors_As_def)

lemma errors_As_hit:
  "view e = Some b \<Longrightarrow> errors_As view e = Some b"
  by (cases e) (simp add: errors_As_def)

lemma errors_As_SomeD:
  "errors_As view e = Some b \<Longrightarrow> \<exists>n \<in> set (err_nodes e). view n = Some b"
  by (auto simp: errors_As_def find_Some_iff split: option.splits dest: nth_mem)

lemma errors_As_NoneD:
  "errors_As view e = None \<Longrightarrow> n \<in> set (err_nodes e) \<Longrightarrow> view n = None"
  by (auto simp: errors_As_def find_None_iff find_Some_iff split: option.splits)

end
