(* ===== verification/Apierr.thy ===== *)
theory Apierr
  imports Go_Errors
begin

section \<open>platform/apierr: the classification tables of the ecosystem\<close>

text \<open>
  \<open>src/go/platform/apierr/apierr.go\<close>: sentinel errors, the maps from HTTP and gRPC status codes
  to sentinels, and the two retryability tables. HTTP codes are Go \<open>int\<close>s; gRPC codes are
  \<open>uint32\<close>s, modelled as 32-bit words.
\<close>

definition ErrInvalidInput :: "'x err" where
  "ErrInvalidInput = sentinel ''apierr.ErrInvalidInput'' ''invalid input''"
definition ErrUnauthorized :: "'x err" where
  "ErrUnauthorized = sentinel ''apierr.ErrUnauthorized'' ''unauthorized''"
definition ErrForbidden :: "'x err" where
  "ErrForbidden = sentinel ''apierr.ErrForbidden'' ''forbidden''"
definition ErrNotFound :: "'x err" where
  "ErrNotFound = sentinel ''apierr.ErrNotFound'' ''not found''"
definition ErrTimeout :: "'x err" where
  "ErrTimeout = sentinel ''apierr.ErrTimeout'' ''timeout''"
definition ErrConflict :: "'x err" where
  "ErrConflict = sentinel ''apierr.ErrConflict'' ''conflict''"
definition ErrRateLimited :: "'x err" where
  "ErrRateLimited = sentinel ''apierr.ErrRateLimited'' ''rate limited''"
definition ErrServerError :: "'x err" where
  "ErrServerError = sentinel ''apierr.ErrServerError'' ''server error''"
definition ErrUnexpectedStatus :: "'x err" where
  "ErrUnexpectedStatus = sentinel ''apierr.ErrUnexpectedStatus'' ''unexpected status''"
definition ErrAPIError :: "'x err" where
  "ErrAPIError = sentinel ''apierr.ErrAPIError'' ''API error''"

lemmas apierr_sentinels [go_defs] =
  ErrInvalidInput_def ErrUnauthorized_def ErrForbidden_def ErrNotFound_def ErrTimeout_def
  ErrConflict_def ErrRateLimited_def ErrServerError_def ErrUnexpectedStatus_def ErrAPIError_def

definition IsRetryable :: "'x err \<Rightarrow> bool" where
  "IsRetryable e \<longleftrightarrow> errors_Is e ''apierr.ErrRateLimited'' \<or> errors_Is e ''apierr.ErrServerError''
     \<or> errors_Is e ''apierr.ErrTimeout''"

definition RetryableStatus :: "int \<Rightarrow> bool" where
  "RetryableStatus code \<longleftrightarrow> code = 408 \<or> code = 429 \<or> code \<ge> 500"

definition RetryableGRPCCode :: "32 word \<Rightarrow> bool" where
  "RetryableGRPCCode code \<longleftrightarrow> code \<in> {4, 8, 10, 13, 14}"

text \<open>\<open>StatusError\<close>: a status, a body excerpt and the wrapped sentinel.\<close>

definition status_error_text :: "int \<Rightarrow> string \<Rightarrow> 'x err \<Rightarrow> string" where
  "status_error_text status body e =
     (if body \<noteq> [] then err_text e @ '': '' @ show_int status @ '' '' @ body
      else err_text e @ '': '' @ show_int status)"

definition NewStatusError :: "int \<Rightarrow> string \<Rightarrow> 'x err \<Rightarrow> 'x err" where
  "NewStatusError status body e = GoErr (StatusK status body) (status_error_text status body e) [e]"

definition FromStatus :: "int \<Rightarrow> 'x err option" where
  "FromStatus code =
     (if code \<ge> 200 \<and> code < 300 then None
      else if code = 400 then Some ErrInvalidInput
      else if code = 401 then Some ErrUnauthorized
      else if code = 403 then Some ErrForbidden
      else if code = 404 then Some ErrNotFound
      else if code = 408 then Some ErrTimeout
      else if code = 409 then Some ErrConflict
      else if code = 429 then Some ErrRateLimited
      else if code = 422 then Some ErrAPIError
      else if code \<ge> 500 then Some ErrServerError
      else Some ErrUnexpectedStatus)"

definition FromGRPCCode :: "32 word \<Rightarrow> 'x err option" where
  "FromGRPCCode code =
     (if code = 0 then None
      else if code = 3 then Some ErrInvalidInput
      else if code = 5 then Some ErrNotFound
      else if code = 6 \<or> code = 10 then Some ErrConflict
      else if code = 7 then Some ErrForbidden
      else if code = 8 then Some ErrRateLimited
      else if code = 16 then Some ErrUnauthorized
      else if code = 14 then Some ErrServerError
      else if code = 4 then Some ErrTimeout
      else if code = 13 then Some ErrServerError
      else Some ErrUnexpectedStatus)"

text \<open>\<open>IsRetryable\<close> of an optional error: \<open>errors.Is(nil, _)\<close> is false.\<close>

definition retryable_opt :: "'x err option \<Rightarrow> bool" where
  "retryable_opt oe = (case oe of None \<Rightarrow> False | Some e \<Rightarrow> IsRetryable e)"

lemma IsRetryable_sentinel [simp]:
  "IsRetryable (sentinel n m) \<longleftrightarrow>
     n \<in> {''apierr.ErrRateLimited'', ''apierr.ErrServerError'', ''apierr.ErrTimeout''}"
  by (auto simp: IsRetryable_def)

lemma err_nodes_NewStatusError [simp]:
  "err_nodes (NewStatusError s b e) = NewStatusError s b e # err_nodes e"
  by (simp add: NewStatusError_def)

lemma IsRetryable_NewStatusError [simp]: "IsRetryable (NewStatusError s b e) = IsRetryable e"
  by (simp add: IsRetryable_def errors_Is_def) (simp add: NewStatusError_def)

text \<open>The two HTTP tables of \<open>apierr\<close> agree, as the comment of \<open>RetryableStatus\<close> promises:
  for every status code, \<open>RetryableStatus code\<close> is \<open>IsRetryable(FromStatus(code))\<close>, and it still
  is after the sentinel is wrapped into a \<open>StatusError\<close>.\<close>

theorem retryable_status_tables_agree:
  "RetryableStatus code = retryable_opt (FromStatus code :: 'x err option)
   \<and> RetryableStatus code = (case FromStatus code of None \<Rightarrow> False
        | Some (e :: 'x err) \<Rightarrow> IsRetryable (NewStatusError code body e))"
  by (auto simp: RetryableStatus_def retryable_opt_def FromStatus_def go_defs)

text \<open>The gRPC tables agree on every 32-bit code except \<open>ABORTED\<close> (10), the one divergence
  the code comment declares: there the retry table says yes and the sentinel says no.\<close>

theorem retryable_grpc_tables_diverge_only_at_aborted:
  "RetryableGRPCCode code \<noteq> retryable_opt (FromGRPCCode code :: 'x err option) \<longleftrightarrow> code = 10"
  by (auto simp: RetryableGRPCCode_def retryable_opt_def FromGRPCCode_def go_defs)

end
