(* ===== verification/Governance.thy ===== *)
theory Governance
  imports Prelude
begin

section \<open>governance: scope, hierarchy, classification, plan\<close>

text \<open>
  \<open>src/go/governance/{scope,hierarchy,classification,plan,exports}\<close>. A governance plan is pure
  data, and its validation is the code that matters: \<open>Plan.Validate\<close> composes the hierarchy's
  base checks, a rule set per tier and the scope rules, in that order, and stops at the first
  error. A Go error is a value of \<open>plan_error\<close>; \<open>None\<close> is a \<open>nil\<close> error. The integer
  enumerations \<open>Scope\<close> and \<open>Tier\<close> can hold values that are no constant of the enumeration,
  which the code's \<open>default\<close> branches handle; \<open>ScopeOther\<close> and \<open>TierOther\<close> stand for them.

  The abstract specification \<open>plan_ok\<close> says, without order of checks, what an acceptable plan
  is; \<open>validate_refines_plan_ok\<close> shows that the code decides exactly that.
\<close>

subsection \<open>scope\<close>

datatype scope = Organization | Container | ScopeOther int

definition SupportsClassification :: "scope \<Rightarrow> bool" where
  "SupportsClassification s \<longleftrightarrow> s = Organization"

definition SupportsOrgExport :: "scope \<Rightarrow> bool" where
  "SupportsOrgExport s \<longleftrightarrow> s = Organization"

fun scope_String :: "scope \<Rightarrow> string" where
  "scope_String Organization = ''organization''"
| "scope_String Container = ''container''"
| "scope_String (ScopeOther _) = ''unknown''"

subsection \<open>hierarchy\<close>

record hierarchy_config =
  Parent :: string
  RootName :: string
  Children :: "string list"

datatype hierarchy_error =
  ErrParentRequired | ErrRootNameRequired | ErrEmptyChild | ErrDuplicateChild string | ErrNoChildren

definition ValidateBase :: "hierarchy_config \<Rightarrow> hierarchy_error option" where
  "ValidateBase c =
     (if Parent c = [] then Some ErrParentRequired
      else if RootName c = [] then Some ErrRootNameRequired
      else None)"

text \<open>The loop of \<open>ValidateChildren\<close>, with the \<open>seen\<close> map as the set of its keys.\<close>

fun validate_children_loop :: "string set \<Rightarrow> string list \<Rightarrow> hierarchy_error option" where
  "validate_children_loop seen [] = None"
| "validate_children_loop seen (child # rest) =
     (if child = [] then Some ErrEmptyChild
      else if child \<in> seen then Some (ErrDuplicateChild child)
      else validate_children_loop (insert child seen) rest)"

definition ValidateChildren :: "hierarchy_config \<Rightarrow> hierarchy_error option" where
  "ValidateChildren c = validate_children_loop {} (Children c)"

definition hierarchy_Validate :: "hierarchy_config \<Rightarrow> hierarchy_error option" where
  "hierarchy_Validate c =
     (case ValidateBase c of Some e \<Rightarrow> Some e
      | None \<Rightarrow> if Children c = [] then Some ErrNoChildren else ValidateChildren c)"

subsection \<open>classification\<close>

record dimension =
  ShortName :: string
  Description :: string

datatype dimension_error =
  ErrShortNameRequired | ErrDescriptionRequired | ErrNoDimensions | ErrDuplicateShortName string

definition dimension_Validate :: "dimension \<Rightarrow> dimension_error option" where
  "dimension_Validate d =
     (if ShortName d = [] then Some ErrShortNameRequired
      else if Description d = [] then Some ErrDescriptionRequired
      else None)"

fun validate_dimensions_loop :: "string set \<Rightarrow> dimension list \<Rightarrow> dimension_error option" where
  "validate_dimensions_loop seen [] = None"
| "validate_dimensions_loop seen (d # rest) =
     (case dimension_Validate d of Some e \<Rightarrow> Some e
      | None \<Rightarrow>
         if ShortName d \<in> seen then Some (ErrDuplicateShortName (ShortName d))
         else validate_dimensions_loop (insert (ShortName d) seen) rest)"

definition ValidateAll :: "dimension list \<Rightarrow> dimension_error option" where
  "ValidateAll dims = (if dims = [] then Some ErrNoDimensions else validate_dimensions_loop {} dims)"

subsection \<open>plan\<close>

datatype tier = Starter | Standard | Enterprise | TierOther int

fun tier_String :: "tier \<Rightarrow> string" where
  "tier_String Starter = ''starter''"
| "tier_String Standard = ''standard''"
| "tier_String Enterprise = ''enterprise''"
| "tier_String (TierOther _) = ''unknown''"

datatype tier_violation =
    StarterChildren | StarterDimensions | StarterBilling
  | StandardNoChildren | StandardDimensions | StandardBilling
  | EnterpriseScope | EnterpriseNoChildren

datatype plan_error =
    PlanHierarchy hierarchy_error
  | PlanDimension dimension_error
  | ErrTierViolation tier_violation
  | ErrScopeOrgIDRequired
  | ErrScopeOrgIDForbidden
  | ErrUnknownTier string

definition ParseTier :: "string \<Rightarrow> plan_error + tier" where
  "ParseTier s =
     (if s = ''starter'' then Inr Starter
      else if s = ''standard'' then Inr Standard
      else if s = ''enterprise'' then Inr Enterprise
      else Inl (ErrUnknownTier s))"

record plan =
  Tier :: tier
  Scope :: scope
  Hierarchy :: hierarchy_config
  Dimensions :: "dimension list"
  BillingAccount :: string
  OrgID :: string

definition validateStarter :: "plan \<Rightarrow> plan_error option" where
  "validateStarter p =
     (if length (Children (Hierarchy p)) > 0 then Some (ErrTierViolation StarterChildren)
      else if length (Dimensions p) > 0 then Some (ErrTierViolation StarterDimensions)
      else if BillingAccount p \<noteq> [] then Some (ErrTierViolation StarterBilling)
      else None)"

definition validateStandard :: "plan \<Rightarrow> plan_error option" where
  "validateStandard p =
     (if length (Children (Hierarchy p)) = 0 then Some (ErrTierViolation StandardNoChildren)
      else case ValidateChildren (Hierarchy p) of Some e \<Rightarrow> Some (PlanHierarchy e)
      | None \<Rightarrow>
         if length (Dimensions p) > 0 then Some (ErrTierViolation StandardDimensions)
         else if BillingAccount p \<noteq> [] then Some (ErrTierViolation StandardBilling)
         else None)"

definition validateEnterprise :: "plan \<Rightarrow> plan_error option" where
  "validateEnterprise p =
     (if Scope p \<noteq> Organization then Some (ErrTierViolation EnterpriseScope)
      else if length (Children (Hierarchy p)) = 0 then Some (ErrTierViolation EnterpriseNoChildren)
      else case ValidateChildren (Hierarchy p) of Some e \<Rightarrow> Some (PlanHierarchy e)
      | None \<Rightarrow>
         if length (Dimensions p) > 0
         then (case ValidateAll (Dimensions p) of Some e \<Rightarrow> Some (PlanDimension e) | None \<Rightarrow> None)
         else None)"

definition validateTier :: "plan \<Rightarrow> plan_error option" where
  "validateTier p = (case Tier p of
       Starter \<Rightarrow> validateStarter p
     | Standard \<Rightarrow> validateStandard p
     | Enterprise \<Rightarrow> validateEnterprise p
     | TierOther _ \<Rightarrow> None)"

definition validateScope :: "plan \<Rightarrow> plan_error option" where
  "validateScope p =
     (if SupportsOrgExport (Scope p) \<and> OrgID p = [] then Some ErrScopeOrgIDRequired
      else if \<not> SupportsOrgExport (Scope p) \<and> OrgID p \<noteq> [] then Some ErrScopeOrgIDForbidden
      else None)"

definition plan_Validate :: "plan \<Rightarrow> plan_error option" where
  "plan_Validate p =
     (case ValidateBase (Hierarchy p) of Some e \<Rightarrow> Some (PlanHierarchy e)
      | None \<Rightarrow> (case validateTier p of Some e \<Rightarrow> Some e | None \<Rightarrow> validateScope p))"

definition validated :: "plan \<Rightarrow> plan_error + plan" where
  "validated p = (case plan_Validate p of Some e \<Rightarrow> Inl e | None \<Rightarrow> Inr p)"

definition NewStarter :: "scope \<Rightarrow> string \<Rightarrow> string \<Rightarrow> string \<Rightarrow> plan_error + plan" where
  "NewStarter s parent rootName orgID =
     validated \<lparr>Tier = Starter, Scope = s,
       Hierarchy = \<lparr>Parent = parent, RootName = rootName, Children = []\<rparr>,
       Dimensions = [], BillingAccount = [], OrgID = orgID\<rparr>"

definition NewStandard ::
  "scope \<Rightarrow> string \<Rightarrow> string \<Rightarrow> string list \<Rightarrow> string \<Rightarrow> plan_error + plan" where
  "NewStandard s parent rootName environments orgID =
     validated \<lparr>Tier = Standard, Scope = s,
       Hierarchy = \<lparr>Parent = parent, RootName = rootName, Children = environments\<rparr>,
       Dimensions = [], BillingAccount = [], OrgID = orgID\<rparr>"

definition NewEnterprise ::
  "string \<Rightarrow> string \<Rightarrow> string list \<Rightarrow> dimension list \<Rightarrow> string \<Rightarrow> string \<Rightarrow> plan_error + plan" where
  "NewEnterprise parent rootName environments dims billing orgID =
     validated \<lparr>Tier = Enterprise, Scope = Organization,
       Hierarchy = \<lparr>Parent = parent, RootName = rootName, Children = environments\<rparr>,
       Dimensions = dims, BillingAccount = billing, OrgID = orgID\<rparr>"

text \<open>\<open>exports.TagKeyID\<close>: the stack output name derived from a dimension.\<close>

definition TagKeyID :: "string \<Rightarrow> string" where
  "TagKeyID dim = dim @ ''TagKeyId''"

subsection \<open>The abstract specification\<close>

definition base_ok :: "hierarchy_config \<Rightarrow> bool" where
  "base_ok c \<longleftrightarrow> Parent c \<noteq> [] \<and> RootName c \<noteq> []"

definition children_ok :: "string list \<Rightarrow> bool" where
  "children_ok cs \<longleftrightarrow> [] \<notin> set cs \<and> distinct cs"

definition dimensions_ok :: "dimension list \<Rightarrow> bool" where
  "dimensions_ok ds \<longleftrightarrow> (\<forall>d \<in> set ds. ShortName d \<noteq> [] \<and> Description d \<noteq> [])
     \<and> distinct (map ShortName ds)"

definition tier_ok :: "plan \<Rightarrow> bool" where
  "tier_ok p \<longleftrightarrow> (case Tier p of
       Starter \<Rightarrow> Children (Hierarchy p) = [] \<and> Dimensions p = [] \<and> BillingAccount p = []
     | Standard \<Rightarrow> Children (Hierarchy p) \<noteq> [] \<and> children_ok (Children (Hierarchy p))
         \<and> Dimensions p = [] \<and> BillingAccount p = []
     | Enterprise \<Rightarrow> Scope p = Organization \<and> Children (Hierarchy p) \<noteq> []
         \<and> children_ok (Children (Hierarchy p)) \<and> dimensions_ok (Dimensions p)
     | TierOther _ \<Rightarrow> True)"

definition plan_ok :: "plan \<Rightarrow> bool" where
  "plan_ok p \<longleftrightarrow> base_ok (Hierarchy p) \<and> tier_ok p \<and> (OrgID p \<noteq> [] \<longleftrightarrow> Scope p = Organization)"

subsection \<open>Lemmas\<close>

lemma ValidateBase_None: "ValidateBase c = None \<longleftrightarrow> base_ok c"
  by (simp add: ValidateBase_def base_ok_def)

lemma validate_children_loop_None:
  "validate_children_loop seen cs = None \<longleftrightarrow> children_ok cs \<and> set cs \<inter> seen = {}"
  by (induction cs arbitrary: seen) (auto simp: children_ok_def)

lemma ValidateChildren_None: "ValidateChildren c = None \<longleftrightarrow> children_ok (Children c)"
  by (simp add: ValidateChildren_def validate_children_loop_None)

lemma dimension_Validate_None:
  "dimension_Validate d = None \<longleftrightarrow> ShortName d \<noteq> [] \<and> Description d \<noteq> []"
  by (simp add: dimension_Validate_def)

lemma validate_dimensions_loop_None:
  "validate_dimensions_loop seen ds = None \<longleftrightarrow> dimensions_ok ds \<and> ShortName ` set ds \<inter> seen = {}"
proof (induction ds arbitrary: seen)
  case Nil
  then show ?case by (simp add: dimensions_ok_def)
next
  case (Cons d ds)
  show ?case
  proof (cases "dimension_Validate d")
    case None
    then have "ShortName d \<noteq> [] \<and> Description d \<noteq> []" by (simp add: dimension_Validate_None)
    with None show ?thesis by (auto simp: Cons.IH dimensions_ok_def)
  next
    case (Some e)
    then have "\<not> (ShortName d \<noteq> [] \<and> Description d \<noteq> [])"
      using dimension_Validate_None [of d] by (metis option.distinct(1))
    with Some show ?thesis by (auto simp: dimensions_ok_def)
  qed
qed

lemma ValidateAll_None: "ValidateAll ds = None \<longleftrightarrow> ds \<noteq> [] \<and> dimensions_ok ds"
  by (simp add: ValidateAll_def validate_dimensions_loop_None)

lemma dimensions_ok_ValidateAll: "dimensions_ok ds \<longleftrightarrow> ds = [] \<or> ValidateAll ds = None"
  by (auto simp: ValidateAll_None dimensions_ok_def)

lemmas specs_as_validators = ValidateBase_None [symmetric] ValidateChildren_None [symmetric]
  dimensions_ok_ValidateAll

lemma validateTier_None: "validateTier p = None \<longleftrightarrow> tier_ok p"
  by (cases "Tier p")
    (auto simp: validateTier_def tier_ok_def validateStarter_def validateStandard_def
      validateEnterprise_def specs_as_validators split: option.splits)

lemma validateScope_None: "validateScope p = None \<longleftrightarrow> (OrgID p \<noteq> [] \<longleftrightarrow> Scope p = Organization)"
  by (auto simp: validateScope_def SupportsOrgExport_def)

lemma plan_Validate_None: "plan_Validate p = None \<longleftrightarrow> plan_ok p"
  by (auto simp: plan_Validate_def plan_ok_def validateTier_None [symmetric]
      ValidateBase_None [symmetric] validateScope_None split: option.splits)

lemma validated_Inr: "validated q = Inr p \<longleftrightarrow> p = q \<and> plan_ok p"
  by (auto simp: validated_def plan_Validate_None [symmetric] split: option.splits)

text \<open>C14. \<open>Plan.Validate\<close> refines its specification: for every plan it returns \<open>nil\<close> exactly when
  the plan is acceptable, that is parent and root name are set, the tier's rules hold
  (Starter: no children, dimensions or billing; Standard: non-empty, named, distinct children and
  neither dimensions nor billing; Enterprise: organization scope, such children, complete and
  distinct dimensions), and the organization id is set exactly at organization scope.\<close>

theorem validate_refines_plan_ok: "plan_Validate p = None \<longleftrightarrow> plan_ok p"
  by (rule plan_Validate_None)

text \<open>Tier names round-trip: parsing the printed name of a tier gives the tier back, and a string
  parses exactly when it is the printed name of one of the three tiers.\<close>

theorem tier_name_roundtrip:
  "ParseTier s = Inr t \<longleftrightarrow> s = tier_String t \<and> t \<in> {Starter, Standard, Enterprise}"
  by (cases t) (auto simp: ParseTier_def split: if_splits)

end
