(* ===== verification/Invariant_Checks.thy ===== *)
theory Invariant_Checks
  imports Prelude
begin

section \<open>governance/invariant: checks, builders and the suite verdict\<close>

text \<open>
  \<open>src/go/governance/invariant/invariant.go\<close>. A \<open>Builder\<close> accumulates the outcome of one rule; a
  suite's \<open>Verdict\<close> is the worst status of its checks. \<open>Status\<close> is a Go string type, so a status
  is a string here and may be none of the three constants.
\<close>

type_synonym inv_status = string

definition Pass :: inv_status where [go_defs]: "Pass = ''PASS''"
definition Fail :: inv_status where [go_defs]: "Fail = ''FAIL''"
definition Anomaly :: inv_status where [go_defs]: "Anomaly = ''ANOMALY''"

record check =
  ck_Name :: string
  ck_Invariant :: int
  ck_Status :: inv_status
  ck_Evidence :: "string list"

record labels =
  lb_Fail :: string
  lb_Anomaly :: string

definition DefaultLabels :: labels where
  "DefaultLabels = \<lparr>lb_Fail = ''FAIL: '', lb_Anomaly = ''ANOMALY: ''\<rparr>"

record builder =
  bd_check :: check
  bd_labels :: labels

definition WithLabels :: "labels \<Rightarrow> builder \<Rightarrow> builder" where
  "WithLabels l b = b\<lparr>bd_labels := l\<rparr>"

definition builder_New :: "string \<Rightarrow> int \<Rightarrow> (builder \<Rightarrow> builder) list \<Rightarrow> builder" where
  "builder_New nm num opts =
     fold (\<lambda>opt b. opt b) opts
       \<lparr>bd_check = \<lparr>ck_Name = nm, ck_Invariant = num, ck_Status = Pass, ck_Evidence = []\<rparr>,
        bd_labels = DefaultLabels\<rparr>"

text \<open>The three recording methods; \<open>line\<close> is the already formatted message.\<close>

definition Failf :: "string \<Rightarrow> builder \<Rightarrow> builder" where
  "Failf line b = b\<lparr>bd_check := (bd_check b)\<lparr>ck_Status := Fail,
      ck_Evidence := ck_Evidence (bd_check b) @ [lb_Fail (bd_labels b) @ line]\<rparr>\<rparr>"

definition Anomalyf :: "string \<Rightarrow> builder \<Rightarrow> builder" where
  "Anomalyf line b = b\<lparr>bd_check := (bd_check b)\<lparr>
      ck_Status := (if ck_Status (bd_check b) \<noteq> Fail then Anomaly else ck_Status (bd_check b)),
      ck_Evidence := ck_Evidence (bd_check b) @ [lb_Anomaly (bd_labels b) @ line]\<rparr>\<rparr>"

definition Notef :: "string \<Rightarrow> builder \<Rightarrow> builder" where
  "Notef line b = b\<lparr>bd_check := (bd_check b)\<lparr>ck_Evidence := ck_Evidence (bd_check b) @ [line]\<rparr>\<rparr>"

definition builder_Status :: "builder \<Rightarrow> inv_status" where
  "builder_Status b = ck_Status (bd_check b)"

definition Done :: "builder \<Rightarrow> check" where
  "Done b = bd_check b"

record 't inv_rule =
  ir_Name :: string
  ir_Invariant :: int
  ir_Eval :: "'t \<Rightarrow> check"

fun evaluate_rules :: "'t \<Rightarrow> 't inv_rule list \<Rightarrow> check list \<Rightarrow> check list" where
  "evaluate_rules subject [] checks = checks"
| "evaluate_rules subject (r # rs) checks = evaluate_rules subject rs (checks @ [ir_Eval r subject])"

definition inv_Evaluate :: "'t \<Rightarrow> 't inv_rule list \<Rightarrow> check list" where
  "inv_Evaluate subject rules = evaluate_rules subject rules []"

definition severity :: "inv_status \<Rightarrow> nat" where
  "severity s = (if s = Fail then 2 else if s = Anomaly then 1 else if s = Pass then 0 else 0)"

definition worse :: "check \<Rightarrow> inv_status \<Rightarrow> inv_status" where
  "worse c worst = (if severity (ck_Status c) > severity worst then ck_Status c else worst)"

definition Verdict :: "check list \<Rightarrow> inv_status" where
  "Verdict checks = fold worse checks Pass"

definition namesWithStatus :: "check list \<Rightarrow> inv_status \<Rightarrow> string list" where
  "namesWithStatus checks want = sort (map ck_Name (filter (\<lambda>c. ck_Status c = want) checks))"

definition Failed :: "check list \<Rightarrow> string list" where
  "Failed checks = namesWithStatus checks Fail"

definition Anomalous :: "check list \<Rightarrow> string list" where
  "Anomalous checks = namesWithStatus checks Anomaly"

lemma statuses_distinct [simp]:
  "Pass \<noteq> Fail" "Fail \<noteq> Pass" "Pass \<noteq> Anomaly" "Anomaly \<noteq> Pass" "Fail \<noteq> Anomaly" "Anomaly \<noteq> Fail"
  by (simp_all add: go_defs)

lemma severity_simps [simp]: "severity Pass = 0" "severity Anomaly = 1" "severity Fail = 2"
  by (simp_all add: severity_def)

lemma severity_ge:
  "severity s \<ge> 2 \<longleftrightarrow> s = Fail" "severity s \<ge> 1 \<longleftrightarrow> s = Fail \<or> s = Anomaly"
  by (simp_all add: severity_def)

lemma severity_le: "severity s \<le> 2"
  by (simp add: severity_def)

lemma severity_inject:
  "severity s > 0 \<Longrightarrow> severity s = severity t \<Longrightarrow> s = t"
  by (auto simp: severity_def split: if_splits)

subsection \<open>Accumulators that only degrade\<close>

text \<open>
  Both the builder's status and the suite verdict are folds in which each event can only raise
  the severity, and raises it to at least its own. The locale states that contract once; its
  lemmas give the final severity as the maximum over the events.
\<close>

locale degrading =
  fixes step :: "'e \<Rightarrow> 's \<Rightarrow> 's"
    and sev :: "'s \<Rightarrow> nat"
    and weight :: "'e \<Rightarrow> nat"
  assumes sev_step: "sev (step e s) = max (sev s) (weight e)"
begin

lemma sev_fold: "sev (fold step es s) = fold max (map weight es) (sev s)"
  by (induction es arbitrary: s) (simp_all add: sev_step max.commute)

lemma fold_max_ge: "fold max ws (m :: nat) \<ge> n \<longleftrightarrow> m \<ge> n \<or> (\<exists>w \<in> set ws. w \<ge> n)"
  by (induction ws arbitrary: m) (auto simp: le_max_iff_disj)

lemma sev_fold_ge: "sev (fold step es s) \<ge> n \<longleftrightarrow> sev s \<ge> n \<or> (\<exists>e \<in> set es. weight e \<ge> n)"
  by (simp add: sev_fold fold_max_ge)

lemma sev_fold_mono: "sev s \<le> sev (fold step es s)"
  using sev_fold_ge by blast

end

text \<open>The events of a builder, as the sequence of recording calls a rule makes.\<close>

datatype builder_op = OpFail string | OpAnomaly string | OpNote string

fun apply_op :: "builder_op \<Rightarrow> builder \<Rightarrow> builder" where
  "apply_op (OpFail l) b = Failf l b"
| "apply_op (OpAnomaly l) b = Anomalyf l b"
| "apply_op (OpNote l) b = Notef l b"

fun op_weight :: "builder_op \<Rightarrow> nat" where
  "op_weight (OpFail _) = 2"
| "op_weight (OpAnomaly _) = 1"
| "op_weight (OpNote _) = 0"

fun op_line :: "labels \<Rightarrow> builder_op \<Rightarrow> string" where
  "op_line lb (OpFail l) = lb_Fail lb @ l"
| "op_line lb (OpAnomaly l) = lb_Anomaly lb @ l"
| "op_line lb (OpNote l) = l"

interpretation bld: degrading apply_op "\<lambda>b. severity (builder_Status b)" op_weight
proof unfold_locales
  fix e and s :: builder
  show "severity (builder_Status (apply_op e s)) = max (severity (builder_Status s)) (op_weight e)"
    using severity_le [of "ck_Status (bd_check s)"]
    by (cases e) (auto simp: builder_Status_def Failf_def Anomalyf_def Notef_def severity_def max_def)
qed

interpretation ver: degrading worse severity "\<lambda>c. severity (ck_Status c)"
  by unfold_locales (auto simp: worse_def max_def)

lemma builder_frame:
  "ck_Name (bd_check (fold apply_op ops b)) = ck_Name (bd_check b)
   \<and> ck_Invariant (bd_check (fold apply_op ops b)) = ck_Invariant (bd_check b)
   \<and> bd_labels (fold apply_op ops b) = bd_labels b
   \<and> ck_Evidence (bd_check (fold apply_op ops b)) =
       ck_Evidence (bd_check b) @ map (op_line (bd_labels b)) ops"
proof (induction ops arbitrary: b)
  case Nil
  then show ?case by simp
next
  case (Cons e ops)
  show ?case by (cases e) (auto simp: Cons.IH Failf_def Anomalyf_def Notef_def)
qed

lemma status_known:
  "builder_Status b \<in> {Pass, Fail, Anomaly} \<Longrightarrow>
   builder_Status (fold apply_op ops b) \<in> {Pass, Fail, Anomaly}"
proof (induction ops arbitrary: b)
  case Nil
  then show ?case by simp
next
  case (Cons e ops)
  have "builder_Status (apply_op e b) \<in> {Pass, Fail, Anomaly}"
    using Cons.prems by (cases e) (auto simp: builder_Status_def Failf_def Anomalyf_def Notef_def)
  then show ?case using Cons.IH [of "apply_op e b"] by simp
qed

lemma known_by_severity:
  assumes "s \<in> {Pass, Fail, Anomaly}"
  shows "s = Fail \<longleftrightarrow> severity s \<ge> 2" and "s = Pass \<longleftrightarrow> \<not> severity s \<ge> 1"
  using assms by auto

lemma Verdict_known: "Verdict checks \<in> {Pass, Fail, Anomaly}"
proof -
  have "w \<in> {Pass, Fail, Anomaly} \<Longrightarrow> fold worse cs w \<in> {Pass, Fail, Anomaly}" for cs w
  proof (induction cs arbitrary: w)
    case (Cons c cs)
    have "worse c w \<in> {Pass, Fail, Anomaly}"
      using Cons.prems by (auto simp: worse_def severity_def split: if_splits)
    then show ?case using Cons.IH by simp
  qed simp
  then show ?thesis by (simp add: Verdict_def)
qed

lemma Verdict_Fail: "Verdict cs = Fail \<longleftrightarrow> (\<exists>c \<in> set cs. ck_Status c = Fail)"
proof -
  have "Verdict cs = Fail \<longleftrightarrow> severity (Verdict cs) \<ge> 2"
    using known_by_severity(1) [OF Verdict_known] .
  also have "\<dots> \<longleftrightarrow> (\<exists>c \<in> set cs. severity (ck_Status c) \<ge> 2)"
    by (simp add: Verdict_def ver.sev_fold_ge)
  also have "\<dots> \<longleftrightarrow> (\<exists>c \<in> set cs. ck_Status c = Fail)"
    by (simp only: severity_ge)
  finally show ?thesis .
qed

lemma Verdict_Pass:
  "Verdict cs = Pass \<longleftrightarrow> (\<forall>c \<in> set cs. ck_Status c \<noteq> Fail \<and> ck_Status c \<noteq> Anomaly)"
proof -
  have "Verdict cs = Pass \<longleftrightarrow> \<not> severity (Verdict cs) \<ge> 1"
    using known_by_severity(2) [OF Verdict_known] .
  also have "\<dots> \<longleftrightarrow> \<not> (\<exists>c \<in> set cs. severity (ck_Status c) \<ge> 1)"
    by (simp add: Verdict_def ver.sev_fold_ge)
  also have "\<dots> \<longleftrightarrow> (\<forall>c \<in> set cs. ck_Status c \<noteq> Fail \<and> ck_Status c \<noteq> Anomaly)"
    by (simp only: severity_ge) blast
  finally show ?thesis .
qed

lemma evaluate_rules_eq:
  "evaluate_rules subject rs acc = acc @ map (\<lambda>r. ir_Eval r subject) rs"
  by (induction rs arbitrary: acc) simp_all

text \<open>A builder only degrades: whatever sequence of \<open>Failf\<close>, \<open>Anomalyf\<close> and \<open>Notef\<close> calls a rule
  makes on a new builder (with any labels), the finished check is \<open>FAIL\<close> exactly when some call
  was \<open>Failf\<close>, otherwise \<open>ANOMALY\<close> exactly when some call was \<open>Anomalyf\<close>, otherwise \<open>PASS\<close>; the
  name and number are the ones given, and the evidence holds one prefixed line per call, in call
  order.\<close>

theorem builder_only_degrades:
  "let c = Done (fold apply_op ops (builder_New nm num [WithLabels lb])) in
     ck_Status c = (if (\<exists>l. OpFail l \<in> set ops) then Fail
            else if (\<exists>l. OpAnomaly l \<in> set ops) then Anomaly else Pass)
     \<and> ck_Name c = nm \<and> ck_Invariant c = num \<and> ck_Evidence c = map (op_line lb) ops"
proof -
  define c where "c = Done (fold apply_op ops (builder_New nm num [WithLabels lb]))"
  let ?b = "builder_New nm num [WithLabels lb]"
  have b: "builder_Status ?b = Pass" "ck_Name (bd_check ?b) = nm" "ck_Invariant (bd_check ?b) = num"
    "bd_labels ?b = lb" "ck_Evidence (bd_check ?b) = []"
    by (simp_all add: builder_New_def WithLabels_def builder_Status_def)
  have known: "ck_Status c \<in> {Pass, Fail, Anomaly}"
    using status_known [of ?b ops] b(1) by (simp add: c_def Done_def builder_Status_def)
  have ge: "severity (ck_Status c) \<ge> n \<longleftrightarrow> (\<exists>e \<in> set ops. op_weight e \<ge> n)" if "n > 0" for n
    using bld.sev_fold_ge [of n ops ?b] b(1) that by (simp add: c_def Done_def builder_Status_def)
  have w: "op_weight e \<ge> 2 \<longleftrightarrow> (\<exists>l. e = OpFail l)"
    "op_weight e \<ge> 1 \<longleftrightarrow> (\<exists>l. e = OpFail l) \<or> (\<exists>l. e = OpAnomaly l)" for e
    by (cases e; simp)+
  have f: "ck_Status c = Fail \<longleftrightarrow> (\<exists>l. OpFail l \<in> set ops)"
    using known_by_severity(1) [OF known] ge [of 2] by (simp only: w) blast
  have p: "ck_Status c = Pass \<longleftrightarrow> \<not> (\<exists>l. OpFail l \<in> set ops) \<and> \<not> (\<exists>l. OpAnomaly l \<in> set ops)"
    using known_by_severity(2) [OF known] ge [of 1] by (simp only: w) blast
  show ?thesis unfolding c_def [symmetric] Let_def
    using f p known builder_frame [of ops ?b] b by (auto simp: c_def Done_def)
qed

text \<open>The verdict of a suite is the worst status of its checks, in the order of the rules:
  \<open>FAIL\<close> exactly when some rule's check failed, \<open>PASS\<close> exactly when no check failed or was
  anomalous, \<open>ANOMALY\<close> otherwise; and \<open>Failed\<close> lists exactly the names of the failed checks,
  sorted, with multiplicities.\<close>

theorem verdict_is_worst_status:
  "let cs = inv_Evaluate subject rules in
     cs = map (\<lambda>r. ir_Eval r subject) rules
     \<and> (Verdict cs = Fail \<longleftrightarrow> (\<exists>c \<in> set cs. ck_Status c = Fail))
     \<and> (Verdict cs = Pass \<longleftrightarrow> \<not> (\<exists>c \<in> set cs. ck_Status c = Fail \<or> ck_Status c = Anomaly))
     \<and> (Verdict cs = Anomaly \<longleftrightarrow> \<not> (\<exists>c \<in> set cs. ck_Status c = Fail) \<and> (\<exists>c \<in> set cs. ck_Status c = Anomaly))
     \<and> sorted (Failed cs) \<and> mset (Failed cs) = mset (map ck_Name (filter (\<lambda>c. ck_Status c = Fail) cs))
     \<and> (Failed cs = [] \<longleftrightarrow> Verdict cs \<noteq> Fail)"
proof -
  define cs where "cs = inv_Evaluate subject rules"
  have cs: "cs = map (\<lambda>r. ir_Eval r subject) rules"
    by (simp add: cs_def inv_Evaluate_def evaluate_rules_eq)
  have p: "Verdict cs = Pass \<longleftrightarrow> \<not> (\<exists>c \<in> set cs. ck_Status c = Fail \<or> ck_Status c = Anomaly)"
    using Verdict_Pass [of cs] by blast
  have a: "Verdict cs = Anomaly \<longleftrightarrow>
      \<not> (\<exists>c \<in> set cs. ck_Status c = Fail) \<and> (\<exists>c \<in> set cs. ck_Status c = Anomaly)"
  proof -
    have "Verdict cs = Anomaly \<longleftrightarrow> Verdict cs \<noteq> Fail \<and> Verdict cs \<noteq> Pass"
      using Verdict_known [of cs] by auto
    then show ?thesis unfolding p Verdict_Fail by blast
  qed
  have "Failed cs = [] \<longleftrightarrow> filter (\<lambda>c. ck_Status c = Fail) cs = []"
    by (simp add: Failed_def namesWithStatus_def del: filter_empty_conv)
  also have "\<dots> \<longleftrightarrow> Verdict cs \<noteq> Fail"
    unfolding Verdict_Fail filter_empty_conv by blast
  finally have e: "Failed cs = [] \<longleftrightarrow> Verdict cs \<noteq> Fail" .
  have "sorted (Failed cs)" and
    "mset (Failed cs) = mset (map ck_Name (filter (\<lambda>c. ck_Status c = Fail) cs))"
    by (simp_all add: Failed_def namesWithStatus_def)
  then show ?thesis unfolding cs_def [symmetric] Let_def
    using cs Verdict_Fail [of cs] p a e by (intro conjI) assumption+
qed

end
