(* ===== verification/Gate.thy ===== *)
theory Gate
  imports Go_Errors Invariant_Checks
begin

section \<open>governance/gate: policy gates over rules\<close>

text \<open>
  \<open>src/go/governance/gate/gate.go\<close>. A \<open>Gate\<close> runs its rules in order under a context and turns the
  counts of their outcomes into a verdict under a policy. \<open>Status\<close>, \<open>Verdict\<close> and \<open>Policy\<close> are Go
  string types. Rules are callbacks: they thread the outside world \<open>'w\<close>, as do the reads of the
  context and of the clock. A nil rule makes the interface call panic, which is the value \<open>Inl\<close>.
\<close>

type_synonym gate_status = string

definition StatusPass :: gate_status where [go_defs]: "StatusPass = ''PASS''"
definition StatusFail :: gate_status where [go_defs]: "StatusFail = ''FAIL''"
definition StatusAnomaly :: gate_status where [go_defs]: "StatusAnomaly = ''ANOMALY''"
definition StatusSkipped :: gate_status where [go_defs]: "StatusSkipped = ''SKIPPED''"

type_synonym gate_verdict = string

definition VerdictPass :: gate_verdict where [go_defs]: "VerdictPass = ''PASS''"
definition VerdictBlocked :: gate_verdict where [go_defs]: "VerdictBlocked = ''BLOCKED''"

type_synonym policy = string

definition PolicyStrict :: policy where [go_defs]: "PolicyStrict = ''STRICT''"
definition PolicyStandard :: policy where [go_defs]: "PolicyStandard = ''STANDARD''"
definition PolicyPermissive :: policy where [go_defs]: "PolicyPermissive = ''PERMISSIVE''"

definition ErrGateBlocked :: "'x err" where
  "ErrGateBlocked = sentinel ''gate.ErrGateBlocked'' ''governance: gate verification failed''"

definition ErrUnknownPolicy :: "'x err" where
  "ErrUnknownPolicy = sentinel ''gate.ErrUnknownPolicy'' ''governance: unknown gate policy''"

definition policy_Validate :: "policy \<Rightarrow> 'x err option" where
  "policy_Validate p =
     (if p = PolicyStrict \<or> p = PolicyStandard \<or> p = PolicyPermissive then None
      else Some (errorf (err_text (ErrUnknownPolicy :: 'x err) @ '': '' @ go_quote p @ '' (expected one of ''
             @ PolicyStrict @ '', '' @ PolicyStandard @ '', '' @ PolicyPermissive @ '')'')
             [ErrUnknownPolicy]))"

record gate_result =
  gr_RuleName :: string
  gr_Status :: gate_status
  gr_Reason :: string
  gr_Evidence :: "string list"
  gr_Duration :: int

text \<open>The rules a gate may hold: the nil interface, a nil \<open>*RuleFunc\<close> stored in the interface, a
  \<open>RuleFunc\<close> with its possibly nil function, or another implementation of \<open>Rule\<close>.\<close>

datatype 'w rule =
    NilRule
  | NilRuleFunc
  | RuleFunc string "('w \<Rightarrow> gate_result \<times> 'w) option"
  | RuleImpl string "'w \<Rightarrow> gate_result \<times> 'w"

definition NewRule :: "string \<Rightarrow> ('w \<Rightarrow> gate_result \<times> 'w) option \<Rightarrow> 'w rule" where
  "NewRule nm fn = RuleFunc nm fn"

text \<open>Method calls on a rule; \<open>None\<close> is the nil dereference panic.\<close>

fun rule_Name :: "'w rule \<Rightarrow> string option" where
  "rule_Name NilRule = None"
| "rule_Name NilRuleFunc = None"
| "rule_Name (RuleFunc nm _) = Some nm"
| "rule_Name (RuleImpl nm _) = Some nm"

definition empty_result :: gate_result where
  "empty_result = \<lparr>gr_RuleName = '''', gr_Status = '''', gr_Reason = '''', gr_Evidence = [], gr_Duration = 0\<rparr>"

fun rule_Evaluate :: "'w rule \<Rightarrow> 'w \<Rightarrow> (gate_result \<times> 'w) option" where
  "rule_Evaluate NilRule w = None"
| "rule_Evaluate NilRuleFunc w = None"
| "rule_Evaluate (RuleFunc nm None) w =
     Some (empty_result\<lparr>gr_RuleName := nm, gr_Status := StatusPass\<rparr>, w)"
| "rule_Evaluate (RuleFunc nm (Some fn)) w = Some (fn w)"
| "rule_Evaluate (RuleImpl nm fn) w = Some (fn w)"

definition FromCheck :: "check \<Rightarrow> 'w rule" where
  "FromCheck c = NewRule (ck_Name c) (Some (\<lambda>w.
     (let status =
        (if ck_Status c = Pass then StatusPass
         else if ck_Status c = Fail then StatusFail
         else if ck_Status c = Anomaly then StatusAnomaly
         else StatusFail)
      in (empty_result\<lparr>gr_RuleName := ck_Name c, gr_Status := status, gr_Evidence := ck_Evidence c\<rparr>, w))))"

definition FromBuilder :: "builder option \<Rightarrow> 'w rule" where
  "FromBuilder ob = (case ob of
      None \<Rightarrow> NewRule ''nil_invariant'' (Some (\<lambda>w.
        (empty_result\<lparr>gr_RuleName := ''nil_invariant'', gr_Status := StatusPass\<rparr>, w)))
    | Some b \<Rightarrow> FromCheck (Done b))"

record report =
  rp_GateName :: string
  rp_EvaluatedAt :: int
  rp_Policy :: policy
  rp_Verdict :: gate_verdict
  rp_TotalRules :: nat
  rp_PassedRules :: nat
  rp_FailedRules :: nat
  rp_AnomalyRules :: nat
  rp_SkippedRules :: nat
  rp_Results :: "gate_result list"
  rp_Duration :: int

record 'w gate =
  g_name :: string
  g_policy :: policy
  g_rules :: "'w rule list"

type_synonym 'w gate_option = "'w gate \<Rightarrow> 'w gate"

definition WithPolicy :: "policy \<Rightarrow> 'w gate_option" where
  "WithPolicy p g = g\<lparr>g_policy := p\<rparr>"

definition WithRules :: "'w rule list \<Rightarrow> 'w gate_option" where
  "WithRules rules g = g\<lparr>g_rules := g_rules g @ rules\<rparr>"

definition gate_New :: "string \<Rightarrow> 'w gate_option list \<Rightarrow> 'w gate" where
  "gate_New nm opts = fold (\<lambda>opt g. opt g) opts \<lparr>g_name = nm, g_policy = PolicyStandard, g_rules = []\<rparr>"

definition gate_Validate :: "'w gate \<Rightarrow> 'x err option" where
  "gate_Validate g = policy_Validate (g_policy g)"

definition AddRule :: "'w rule \<Rightarrow> 'w gate \<Rightarrow> 'w gate" where
  "AddRule r g = (case r of NilRule \<Rightarrow> g | _ \<Rightarrow> g\<lparr>g_rules := g_rules g @ [r]\<rparr>)"

fun AddRules :: "'w rule list \<Rightarrow> 'w gate \<Rightarrow> 'w gate" where
  "AddRules [] g = g"
| "AddRules (r # rs) g =
     AddRules rs (case r of NilRule \<Rightarrow> g | _ \<Rightarrow> g\<lparr>g_rules := g_rules g @ [r]\<rparr>)"

datatype gate_panic = NilDereference

text \<open>The \<open>switch res.Status\<close> of \<open>Evaluate\<close> with the append after it.\<close>

definition record_result :: "gate_result \<Rightarrow> report \<Rightarrow> report" where
  "record_result res rep =
     (let (res', rep') =
        (if gr_Status res = StatusPass then (res, rep\<lparr>rp_PassedRules := rp_PassedRules rep + 1\<rparr>)
         else if gr_Status res = StatusFail then (res, rep\<lparr>rp_FailedRules := rp_FailedRules rep + 1\<rparr>)
         else if gr_Status res = StatusAnomaly then (res, rep\<lparr>rp_AnomalyRules := rp_AnomalyRules rep + 1\<rparr>)
         else if gr_Status res = StatusSkipped then (res, rep\<lparr>rp_SkippedRules := rp_SkippedRules rep + 1\<rparr>)
         else (res\<lparr>gr_Status := StatusFail\<rparr>, rep\<lparr>rp_FailedRules := rp_FailedRules rep + 1\<rparr>))
      in rep'\<lparr>rp_Results := rp_Results rep' @ [res']\<rparr>)"

definition abort_result :: "string \<Rightarrow> ctx_error \<Rightarrow> gate_result" where
  "abort_result nm e = empty_result\<lparr>gr_RuleName := nm, gr_Status := StatusFail,
     gr_Reason := ''evaluation aborted: '' @ err_text (ctx_err e :: unit err)\<rparr>"

text \<open>One iteration of the loop of \<open>Evaluate\<close>, and the loop.\<close>

definition eval_rule :: "'w env \<Rightarrow> 'w rule \<Rightarrow> report \<Rightarrow> 'w \<Rightarrow> gate_panic + (report \<times> 'w)" where
  "eval_rule env r rep w =
     (case poll_ctx env w of
        (Some e, w1) \<Rightarrow>
          (case rule_Name r of None \<Rightarrow> Inl NilDereference
           | Some nm \<Rightarrow>
              Inr (rep\<lparr>rp_Results := rp_Results rep @ [abort_result nm e],
                     rp_FailedRules := rp_FailedRules rep + 1\<rparr>, w1))
      | (None, w1) \<Rightarrow>
          (case time_now env w1 of (rStart, w2) \<Rightarrow>
           case rule_Evaluate r w2 of None \<Rightarrow> Inl NilDereference
           | Some (res, w3) \<Rightarrow>
             (case time_now env w3 of (t, w4) \<Rightarrow>
              case rule_Name r of None \<Rightarrow> Inl NilDereference
              | Some nm \<Rightarrow>
                 Inr (record_result (res\<lparr>gr_Duration := time_sub t rStart,
                      gr_RuleName := (if gr_RuleName res = '''' then nm else gr_RuleName res)\<rparr>) rep, w4))))"

fun eval_rules :: "'w env \<Rightarrow> 'w rule list \<Rightarrow> report \<Rightarrow> 'w \<Rightarrow> gate_panic + (report \<times> 'w)" where
  "eval_rules env [] rep w = Inr (rep, w)"
| "eval_rules env (r # rs) rep w =
     (case eval_rule env r rep w of Inl p \<Rightarrow> Inl p | Inr (rep', w') \<Rightarrow> eval_rules env rs rep' w')"

definition applyVerdict :: "'w gate \<Rightarrow> report \<Rightarrow> report" where
  "applyVerdict g rep =
     (if g_policy g = PolicyStrict then
        (if rp_FailedRules rep > 0 \<or> rp_AnomalyRules rep > 0 then rep\<lparr>rp_Verdict := VerdictBlocked\<rparr> else rep)
      else if g_policy g = PolicyStandard then
        (if rp_FailedRules rep > 0 then rep\<lparr>rp_Verdict := VerdictBlocked\<rparr> else rep)
      else if g_policy g = PolicyPermissive then rep\<lparr>rp_Verdict := VerdictPass\<rparr>
      else rep\<lparr>rp_Results := rp_Results rep @ [empty_result\<lparr>gr_RuleName := ''gate-policy'',
                   gr_Status := StatusFail,
                   gr_Reason := (case policy_Validate (g_policy g) of None \<Rightarrow> ''''
                                 | Some (e :: unit err) \<Rightarrow> err_text e)\<rparr>],
               rp_TotalRules := rp_TotalRules rep + 1,
               rp_FailedRules := rp_FailedRules rep + 1,
               rp_Verdict := VerdictBlocked\<rparr>)"

definition start_report :: "'w gate \<Rightarrow> int \<Rightarrow> report" where
  "start_report g start =
     \<lparr>rp_GateName = g_name g, rp_EvaluatedAt = start, rp_Policy = g_policy g,
      rp_Verdict = VerdictPass, rp_TotalRules = length (g_rules g), rp_PassedRules = 0,
      rp_FailedRules = 0, rp_AnomalyRules = 0, rp_SkippedRules = 0, rp_Results = [], rp_Duration = 0\<rparr>"

definition gate_Evaluate :: "'w env \<Rightarrow> 'w gate \<Rightarrow> 'w \<Rightarrow> gate_panic + (report \<times> 'w)" where
  "gate_Evaluate env g w =
     (case time_now env w of (start, w1) \<Rightarrow>
      case eval_rules env (g_rules g) (start_report g start) w1 of
        Inl p \<Rightarrow> Inl p
      | Inr (rep, w2) \<Rightarrow>
          (case time_now env w2 of (t, w3) \<Rightarrow>
             Inr (applyVerdict g (rep\<lparr>rp_Duration := time_sub t start\<rparr>), w3)))"

definition Enforce :: "'w env \<Rightarrow> 'w gate \<Rightarrow> 'w \<Rightarrow> gate_panic + ((report \<times> 'x err option) \<times> 'w)" where
  "Enforce env g w =
     (case gate_Evaluate env g w of
        Inl p \<Rightarrow> Inl p
      | Inr (rep, w') \<Rightarrow>
          Inr ((rep,
            (if rp_Verdict rep = VerdictBlocked then
               Some (errorf (err_text (ErrGateBlocked :: 'x err) @ '': gate '' @ go_quote (g_name g)
                  @ '' failed policy '' @ g_policy g @ '' ('' @ show_nat (rp_FailedRules rep)
                  @ '' failed, '' @ show_nat (rp_AnomalyRules rep) @ '' anomalies)'') [ErrGateBlocked])
             else None)), w'))"

subsection \<open>The counts of a report\<close>

lemma gate_statuses_distinct [simp]:
  "StatusPass \<noteq> StatusFail" "StatusPass \<noteq> StatusAnomaly" "StatusPass \<noteq> StatusSkipped"
  "StatusFail \<noteq> StatusPass" "StatusFail \<noteq> StatusAnomaly" "StatusFail \<noteq> StatusSkipped"
  "StatusAnomaly \<noteq> StatusPass" "StatusAnomaly \<noteq> StatusFail" "StatusAnomaly \<noteq> StatusSkipped"
  "StatusSkipped \<noteq> StatusPass" "StatusSkipped \<noteq> StatusFail" "StatusSkipped \<noteq> StatusAnomaly"
  "VerdictPass \<noteq> VerdictBlocked" "VerdictBlocked \<noteq> VerdictPass"
  by (simp_all add: go_defs)

lemma policies_distinct [simp]:
  "PolicyStrict \<noteq> PolicyStandard" "PolicyStandard \<noteq> PolicyStrict" "PolicyStrict \<noteq> PolicyPermissive"
  "PolicyPermissive \<noteq> PolicyStrict" "PolicyStandard \<noteq> PolicyPermissive" "PolicyPermissive \<noteq> PolicyStandard"
  by (simp_all add: go_defs)

definition count_status :: "gate_status \<Rightarrow> gate_result list \<Rightarrow> nat" where
  "count_status s rs = length (filter (\<lambda>r. gr_Status r = s) rs)"

lemma count_status_append [simp]:
  "count_status s (xs @ [r]) = count_status s xs + (if gr_Status r = s then 1 else 0)"
  by (simp add: count_status_def)

lemma count_status_Nil [simp]: "count_status s [] = 0"
  by (simp add: count_status_def)

lemma count_status_pos: "0 < count_status s rs \<longleftrightarrow> s \<in> gr_Status ` set rs"
  by (auto simp: count_status_def filter_empty_conv)

text \<open>The accounting invariant of a report: every count is the number of recorded results with that
  status, and every recorded status is one of the four constants.\<close>

definition report_inv :: "report \<Rightarrow> bool" where
  "report_inv rep \<longleftrightarrow>
     rp_PassedRules rep = count_status StatusPass (rp_Results rep)
   \<and> rp_FailedRules rep = count_status StatusFail (rp_Results rep)
   \<and> rp_AnomalyRules rep = count_status StatusAnomaly (rp_Results rep)
   \<and> rp_SkippedRules rep = count_status StatusSkipped (rp_Results rep)
   \<and> list_all (\<lambda>r. gr_Status r \<in> {StatusPass, StatusFail, StatusAnomaly, StatusSkipped}) (rp_Results rep)"

lemma report_inv_start [simp]: "report_inv (start_report g t)"
  by (simp add: report_inv_def start_report_def)

lemma report_inv_record: "report_inv rep \<Longrightarrow> report_inv (record_result res rep)"
  by (auto simp: report_inv_def record_result_def Let_def)

lemma report_inv_abort:
  "report_inv rep \<Longrightarrow> gr_Status res = StatusFail \<Longrightarrow>
   report_inv (rep\<lparr>rp_Results := rp_Results rep @ [res], rp_FailedRules := rp_FailedRules rep + 1\<rparr>)"
  by (simp add: report_inv_def)

lemma abort_result_Status [simp]: "gr_Status (abort_result nm e) = StatusFail"
  by (simp add: abort_result_def)

lemma report_inv_total:
  assumes "report_inv rep"
  shows "rp_PassedRules rep + rp_FailedRules rep + rp_AnomalyRules rep + rp_SkippedRules rep
     = length (rp_Results rep)"
proof -
  have "list_all (\<lambda>r. gr_Status r \<in> {StatusPass, StatusFail, StatusAnomaly, StatusSkipped}) rs \<Longrightarrow>
     count_status StatusPass rs + count_status StatusFail rs + count_status StatusAnomaly rs
       + count_status StatusSkipped rs = length rs" for rs
    by (induction rs) (auto simp: count_status_def)
  then show ?thesis using assms by (simp add: report_inv_def)
qed

definition static_part :: "report \<Rightarrow> string \<times> int \<times> policy \<times> gate_verdict \<times> nat" where
  "static_part rep = (rp_GateName rep, rp_EvaluatedAt rep, rp_Policy rep, rp_Verdict rep, rp_TotalRules rep)"

lemma record_result_frame [simp]:
  "static_part (record_result res rep) = static_part rep"
  "length (rp_Results (record_result res rep)) = Suc (length (rp_Results rep))"
  by (auto simp: record_result_def static_part_def Let_def)

lemma eval_rule_inv:
  assumes "eval_rule env r rep w = Inr (rep', w')" and "report_inv rep"
  shows "report_inv rep' \<and> static_part rep' = static_part rep
   \<and> length (rp_Results rep') = Suc (length (rp_Results rep))"
proof (cases "poll_ctx env w")
  case (Pair o1 w1)
  show ?thesis
  proof (cases o1)
    case None
    with Pair assms(1) obtain res where "rep' = record_result res rep"
      by (auto simp: eval_rule_def split: prod.splits option.splits)
    then show ?thesis using assms(2) by (simp add: report_inv_record)
  next
    case (Some e)
    with Pair assms(1) obtain nm where
      "rep' = rep\<lparr>rp_Results := rp_Results rep @ [abort_result nm e], rp_FailedRules := rp_FailedRules rep + 1\<rparr>"
      by (auto simp: eval_rule_def split: option.splits)
    then show ?thesis using assms(2) by (simp add: report_inv_abort [simplified] static_part_def)
  qed
qed

lemma eval_rules_inv:
  "eval_rules env rs rep w = Inr (rep', w') \<Longrightarrow> report_inv rep \<Longrightarrow>
   report_inv rep' \<and> static_part rep' = static_part rep
   \<and> length (rp_Results rep') = length (rp_Results rep) + length rs"
proof (induction rs arbitrary: rep w)
  case Nil
  then show ?case by simp
next
  case (Cons r rs)
  then obtain rep1 w1 where "eval_rule env r rep w = Inr (rep1, w1)"
    and "eval_rules env rs rep1 w1 = Inr (rep', w')"
    by (auto split: sum.splits)
  then show ?case using Cons.IH [of rep1 w1] eval_rule_inv Cons.prems(2) by fastforce
qed

definition is_nil :: "'w rule \<Rightarrow> bool" where
  "is_nil r \<longleftrightarrow> rule_Name r = None"

lemma rule_Evaluate_None: "rule_Evaluate r w = None \<longleftrightarrow> is_nil r"
  by (cases "(r, w)" rule: rule_Evaluate.cases) (auto simp: is_nil_def)

lemma eval_rule_total: "(\<exists>out. eval_rule env r rep w = Inr out) \<longleftrightarrow> \<not> is_nil r"
  using rule_Evaluate_None [of r]
  by (auto simp: eval_rule_def is_nil_def split: prod.splits option.splits)

lemma eval_rules_total: "(\<exists>out. eval_rules env rs rep w = Inr out) \<longleftrightarrow> list_all (\<lambda>r. \<not> is_nil r) rs"
proof (induction rs arbitrary: rep w)
  case Nil
  then show ?case by simp
next
  case (Cons r rs)
  then show ?case using eval_rule_total [of env r rep w]
    by (cases "eval_rule env r rep w") auto
qed

lemma Evaluate_InrE:
  assumes "gate_Evaluate env g w = Inr (rep, w')"
  obtains rep0 t start where "report_inv rep0"
    and "static_part rep0 = (g_name g, start, g_policy g, VerdictPass, length (g_rules g))"
    and "length (rp_Results rep0) = length (g_rules g)"
    and "rep = applyVerdict g (rep0\<lparr>rp_Duration := t\<rparr>)"
proof -
  obtain start w1 where t0: "time_now env w = (start, w1)" by fastforce
  with assms obtain rep0 w2 where ev: "eval_rules env (g_rules g) (start_report g start) w1 = Inr (rep0, w2)"
    by (auto simp: gate_Evaluate_def split: sum.splits prod.splits)
  obtain t w3 where t1: "time_now env w2 = (t, w3)" by fastforce
  have "rep = applyVerdict g (rep0\<lparr>rp_Duration := time_sub t start\<rparr>)"
    using assms t0 ev t1 by (simp add: gate_Evaluate_def)
  moreover have "static_part (start_report g start) =
      (g_name g, start, g_policy g, VerdictPass, length (g_rules g))"
    and "rp_Results (start_report g start) = []"
    by (simp_all add: static_part_def start_report_def)
  ultimately show thesis using eval_rules_inv [OF ev report_inv_start]
    by (intro that [of rep0 start "time_sub t start"]) simp_all
qed

text \<open>What each policy tolerates: the abstract specification of a verdict over the statuses of the
  recorded results.\<close>

definition blocks :: "policy \<Rightarrow> gate_status set \<Rightarrow> bool" where
  "blocks p ss \<longleftrightarrow> (if p = PolicyStrict then StatusFail \<in> ss \<or> StatusAnomaly \<in> ss
     else if p = PolicyStandard then StatusFail \<in> ss
     else p \<noteq> PolicyPermissive)"

lemma applyVerdict_blocks:
  assumes "report_inv rep" and "rp_Verdict rep = VerdictPass"
  shows "rp_Verdict (applyVerdict g rep) =
     (if blocks (g_policy g) (gr_Status ` set (rp_Results rep)) then VerdictBlocked else VerdictPass)"
  using assms by (simp add: applyVerdict_def blocks_def report_inv_def count_status_pos)

lemma applyVerdict_inv:
  "report_inv rep \<Longrightarrow> report_inv (applyVerdict g rep)"
  by (auto simp: applyVerdict_def report_inv_def)

lemma report_inv_Duration [simp]: "report_inv (rep\<lparr>rp_Duration := t\<rparr>) = report_inv rep"
  by (simp add: report_inv_def)

lemma gate_report_sound_aux:
  assumes "gate_Evaluate env g w = Inr (rep, w')"
  shows "report_inv rep \<and> rp_TotalRules rep = length (rp_Results rep)
   \<and> rp_TotalRules rep = rp_PassedRules rep + rp_FailedRules rep + rp_AnomalyRules rep + rp_SkippedRules rep
   \<and> rp_Verdict rep = (if blocks (g_policy g) (gr_Status ` set (rp_Results rep)) then VerdictBlocked else VerdictPass)"
  using assms
proof (rule Evaluate_InrE)
  fix rep0 start t
  assume inv: "report_inv rep0"
    and st: "static_part rep0 = (g_name g, start, g_policy g, VerdictPass, length (g_rules g))"
    and len: "length (rp_Results rep0) = length (g_rules g)"
    and rep: "rep = applyVerdict g (rep0\<lparr>rp_Duration := t\<rparr>)"
  let ?r = "rep0\<lparr>rp_Duration := t\<rparr>"
  have i: "report_inv rep" using inv by (simp add: rep applyVerdict_inv)
  have tot: "rp_TotalRules rep = length (rp_Results rep)"
    using st len by (auto simp: rep applyVerdict_def static_part_def)
  have "rp_Verdict rep = (if blocks (g_policy g) (gr_Status ` set (rp_Results ?r)) then VerdictBlocked else VerdictPass)"
    unfolding rep using inv st by (intro applyVerdict_blocks) (auto simp: static_part_def)
  moreover have "blocks (g_policy g) (gr_Status ` set (rp_Results rep)) =
      blocks (g_policy g) (gr_Status ` set (rp_Results ?r))"
    by (auto simp: rep applyVerdict_def blocks_def)
  ultimately show ?thesis using i tot report_inv_total [OF i] by simp
qed

lemma Evaluate_total:
  "(\<exists>out. gate_Evaluate env g w = Inr out) \<longleftrightarrow> list_all (\<lambda>r. \<not> is_nil r) (g_rules g)"
proof -
  obtain start w1 where "time_now env w = (start, w1)" by fastforce
  then show ?thesis
    using eval_rules_total [of env "g_rules g" "start_report g start" w1]
    by (auto simp: gate_Evaluate_def split: sum.splits prod.splits) 
qed

lemma Evaluate_Inl: "\<not> list_all (\<lambda>r. \<not> is_nil r) (g_rules g) \<Longrightarrow> gate_Evaluate env g w = Inl NilDereference"
  using Evaluate_total [of env g w] gate_panic.exhaust by (cases "gate_Evaluate env g w") auto

lemma g_rules_AddRules: "g_rules (AddRules rs g) = g_rules g @ filter (\<lambda>r. r \<noteq> NilRule) rs"
  by (induction rs g rule: AddRules.induct) (auto split: rule.splits)

subsection \<open>Gates over invariant checks\<close>

definition check_status :: "check \<Rightarrow> gate_status" where
  "check_status c = (if ck_Status c \<in> {Pass, Fail, Anomaly} then ck_Status c else StatusFail)"

lemma invariant_status_names: "StatusPass = Pass" "StatusFail = Fail" "StatusAnomaly = Anomaly"
  by (simp_all add: go_defs)

lemma eval_rule_FromCheck:
  assumes "\<And>w. fst (poll_ctx env w) = None"
  obtains res w' where "eval_rule env (FromCheck c) rep w = Inr (record_result res rep, w')"
    and "gr_Status res = check_status c"
proof -
  obtain w1 where p: "poll_ctx env w = (None, w1)"
    using assms [of w] by (cases "poll_ctx env w") auto
  obtain s w2 where t1: "time_now env w1 = (s, w2)" by fastforce
  obtain t w3 where t2: "time_now env w2 = (t, w3)" by fastforce
  show thesis
    by (rule that) (auto simp: eval_rule_def p t1 t2 FromCheck_def NewRule_def Let_def
        check_status_def invariant_status_names)
qed

lemma record_result_known:
  "gr_Status res \<in> {StatusPass, StatusFail, StatusAnomaly, StatusSkipped} \<Longrightarrow>
   rp_Results (record_result res rep) = rp_Results rep @ [res]"
  by (auto simp: record_result_def Let_def)

lemma check_status_known: "check_status c \<in> {StatusPass, StatusFail, StatusAnomaly, StatusSkipped}"
  by (auto simp: check_status_def invariant_status_names)

lemma eval_rules_FromCheck:
  assumes "\<And>w. fst (poll_ctx env w) = None"
  shows "\<exists>rep' w'. eval_rules env (map FromCheck cs) rep w = Inr (rep', w')
     \<and> map gr_Status (rp_Results rep') = map gr_Status (rp_Results rep) @ map check_status cs"
proof (induction cs arbitrary: rep w)
  case Nil
  then show ?case by simp
next
  case (Cons c cs)
  obtain res w1 where "eval_rule env (FromCheck c) rep w = Inr (record_result res rep, w1)"
    and "gr_Status res = check_status c"
    using eval_rule_FromCheck [OF assms] by blast
  then show ?case using Cons.IH [of "record_result res rep" w1] check_status_known [of c]
    by (auto simp: record_result_known)
qed

lemma gate_of_checks:
  fixes env :: "'w env"
  assumes "\<And>w. fst (poll_ctx env w) = None"
  shows "\<exists>rep w'. gate_Evaluate env (gate_New nm [WithPolicy p, WithRules (map FromCheck cs)]) w = Inr (rep, w')
     \<and> (rp_Verdict rep = VerdictBlocked \<longleftrightarrow> blocks p (check_status ` set cs))"
proof -
  let ?g = "gate_New nm [WithPolicy p, WithRules (map FromCheck cs)] :: 'w gate"
  have g: "g_rules ?g = map FromCheck cs" "g_policy ?g = p"
    by (simp_all add: gate_New_def WithPolicy_def WithRules_def)
  obtain start w1 where t0: "time_now env w = (start, w1)" by fastforce
  obtain rep0 w2 where ev: "eval_rules env (map FromCheck cs) (start_report ?g start) w1 = Inr (rep0, w2)"
    and st: "map gr_Status (rp_Results rep0) = map check_status cs"
    using eval_rules_FromCheck [OF assms, where cs = cs and w = w1 and rep = "start_report ?g start"]
    by (auto simp: start_report_def)
  obtain t w3 where t1: "time_now env w2 = (t, w3)" by fastforce
  let ?r = "rep0\<lparr>rp_Duration := time_sub t start\<rparr>"
  have "gate_Evaluate env ?g w = Inr (applyVerdict ?g ?r, w3)"
    using t0 ev t1 g by (simp add: gate_Evaluate_def)
  moreover have "rp_Verdict (applyVerdict ?g ?r) =
     (if blocks p (gr_Status ` set (rp_Results ?r)) then VerdictBlocked else VerdictPass)"
    using eval_rules_inv [OF ev report_inv_start] applyVerdict_blocks [of ?r ?g] g
    by (auto simp: static_part_def start_report_def)
  moreover have "gr_Status ` set (rp_Results ?r) = check_status ` set cs"
    using arg_cong [OF st, of set] by simp
  ultimately show ?thesis by auto
qed

lemma check_status_iff:
  "check_status c = StatusFail \<longleftrightarrow> ck_Status c \<noteq> Pass \<and> ck_Status c \<noteq> Anomaly"
  "check_status c = StatusAnomaly \<longleftrightarrow> ck_Status c = Anomaly"
  by (auto simp: check_status_def invariant_status_names)

lemma blocks_checks:
  "blocks PolicyStandard (check_status ` set cs) \<longleftrightarrow> (\<exists>c \<in> set cs. ck_Status c \<noteq> Pass \<and> ck_Status c \<noteq> Anomaly)"
  "blocks PolicyStrict (check_status ` set cs) \<longleftrightarrow> (\<exists>c \<in> set cs. ck_Status c \<noteq> Pass)"
proof -
  show "blocks PolicyStandard (check_status ` set cs) \<longleftrightarrow>
      (\<exists>c \<in> set cs. ck_Status c \<noteq> Pass \<and> ck_Status c \<noteq> Anomaly)"
    by (simp add: blocks_def in_image_iff check_status_iff)
  have "blocks PolicyStrict (check_status ` set cs) \<longleftrightarrow>
      (\<exists>c \<in> set cs. ck_Status c \<noteq> Pass \<and> ck_Status c \<noteq> Anomaly) \<or> (\<exists>c \<in> set cs. ck_Status c = Anomaly)"
    by (simp add: blocks_def in_image_iff check_status_iff)
  also have "\<dots> \<longleftrightarrow> (\<exists>c \<in> set cs. ck_Status c \<noteq> Pass)"
    using statuses_distinct by metis
  finally show "blocks PolicyStrict (check_status ` set cs) \<longleftrightarrow> (\<exists>c \<in> set cs. ck_Status c \<noteq> Pass)" .
qed

text \<open>C4. The accounting of a gate report: when \<open>Evaluate\<close> returns, whatever the rules, the context
  and the clock did, the totals partition the results (every result has one of the four statuses,
  each counter is the number of results with that status, the counters add up to \<open>TotalRules\<close>),
  and the verdict is the one the policy prescribes for those statuses: strict blocks on a failure
  or an anomaly, standard on a failure, permissive never, and an unknown policy always.\<close>

theorem gate_report_sound:
  assumes "gate_Evaluate env g w = Inr (rep, w')"
  shows "report_inv rep \<and> rp_TotalRules rep = length (rp_Results rep)
   \<and> rp_TotalRules rep = rp_PassedRules rep + rp_FailedRules rep + rp_AnomalyRules rep + rp_SkippedRules rep
   \<and> rp_Verdict rep = (if blocks (g_policy g) (gr_Status ` set (rp_Results rep)) then VerdictBlocked else VerdictPass)"
  using assms by (rule gate_report_sound_aux)

text \<open>\<open>Evaluate\<close> returns a report exactly when the gate holds no nil rule; rules added by
  \<open>AddRules\<close> never include the nil interface, but \<open>WithRules\<close> keeps it, and then \<open>Evaluate\<close>
  panics.\<close>

theorem gate_panics_iff_nil_rule:
  "(\<exists>out. gate_Evaluate env g w = Inr out) = list_all (\<lambda>r. \<not> is_nil r) (g_rules g)
   \<and> g_rules (AddRules rs g) = g_rules g @ filter (\<lambda>r. r \<noteq> NilRule) rs
   \<and> gate_Evaluate env (gate_New nm [WithRules (rs @ [NilRule])]) w = Inl NilDereference"
proof (intro conjI)
  have "\<not> list_all (\<lambda>r. \<not> is_nil r) (g_rules (gate_New nm [WithRules (rs @ [NilRule])]))"
    by (simp add: gate_New_def WithRules_def is_nil_def)
  then show "gate_Evaluate env (gate_New nm [WithRules (rs @ [NilRule])]) w = Inl NilDereference"
    by (rule Evaluate_Inl)
qed (rule Evaluate_total g_rules_AddRules)+

theorem gate_report_sound_witness:
  "\<exists>rep w'. gate_Evaluate \<lparr>poll_ctx = (\<lambda>w. (None, w)), time_now = (\<lambda>w. (int w, w + 1))\<rparr>
       (gate_New ''g'' [WithPolicy PolicyStrict, WithRules [RuleFunc ''r'' None,
          RuleImpl ''s'' (\<lambda>w. (empty_result\<lparr>gr_Status := ''odd''\<rparr>, w))]]) (0 :: nat) = Inr (rep, w')
     \<and> rp_TotalRules rep = 2 \<and> rp_Verdict rep = VerdictBlocked"
proof -
  let ?env = "\<lparr>poll_ctx = (\<lambda>w. (None, w)), time_now = (\<lambda>w. (int w, w + 1))\<rparr> :: nat env"
  let ?g = "gate_New ''g'' [WithPolicy PolicyStrict, WithRules [RuleFunc ''r'' None,
          RuleImpl ''s'' (\<lambda>w. (empty_result\<lparr>gr_Status := ''odd''\<rparr>, w))]] :: nat gate"
  obtain rep w' where e: "gate_Evaluate ?env ?g 0 = Inr (rep, w')"
    and r: "rp_TotalRules rep = 2" "StatusFail \<in> gr_Status ` set (rp_Results rep)" "g_policy ?g = PolicyStrict"
    by (simp add: gate_Evaluate_def gate_New_def WithPolicy_def WithRules_def eval_rule_def
        record_result_def start_report_def applyVerdict_def empty_result_def go_defs time_sub_def)
  have "rp_Verdict rep = VerdictBlocked"
    using gate_report_sound [OF e] r by (simp only: blocks_def) simp
  with e r show ?thesis by blast
qed

text \<open>\<open>Enforce\<close> returns an error exactly when the verdict is \<open>BLOCKED\<close>, the error satisfies
  \<open>errors.Is(err, ErrGateBlocked)\<close>, and the report is the one \<open>Evaluate\<close> makes; a gate whose
  policy does not validate is always blocked, and \<open>Validate\<close>'s error is \<open>ErrUnknownPolicy\<close>.\<close>

theorem enforce_errs_iff_blocked:
  assumes "Enforce env g w = Inr ((rep, oe :: 'x err option), w')"
  shows "gate_Evaluate env g w = Inr (rep, w')
   \<and> (oe \<noteq> None \<longleftrightarrow> rp_Verdict rep = VerdictBlocked)
   \<and> (\<forall>e. oe = Some e \<longrightarrow> errors_Is e ''gate.ErrGateBlocked'')
   \<and> (\<forall>e :: 'x err. gate_Validate g = Some e \<longrightarrow> errors_Is e ''gate.ErrUnknownPolicy''
        \<and> rp_Verdict rep = VerdictBlocked)"
proof -
  have ev: "gate_Evaluate env g w = Inr (rep, w')" and oe: "oe \<noteq> None \<longleftrightarrow> rp_Verdict rep = VerdictBlocked"
    and ise: "oe = Some e \<Longrightarrow> errors_Is e ''gate.ErrGateBlocked''" for e
    using assms by (auto simp: Enforce_def ErrGateBlocked_def split: sum.splits if_splits)
  have "errors_Is e ''gate.ErrUnknownPolicy'' \<and> rp_Verdict rep = VerdictBlocked"
    if "gate_Validate g = Some (e :: 'x err)" for e
    using that gate_report_sound_aux [OF ev]
    by (auto simp: gate_Validate_def policy_Validate_def ErrUnknownPolicy_def blocks_def split: if_splits)
  with ev oe ise show ?thesis by blast
qed

theorem enforce_errs_iff_blocked_witness:
  "\<exists>rep e. Enforce \<lparr>poll_ctx = (\<lambda>w. (None, w)), time_now = (\<lambda>w. (0, w))\<rparr>
       (gate_New ''g'' [WithPolicy ''odd'']) () = Inr ((rep, Some (e :: unit err)), ())
     \<and> errors_Is e ''gate.ErrGateBlocked'' \<and> rp_Verdict rep = VerdictBlocked"
proof -
  let ?env = "\<lparr>poll_ctx = (\<lambda>w. (None, w)), time_now = (\<lambda>w. (0, w))\<rparr> :: unit env"
  let ?g = "gate_New ''g'' [WithPolicy ''odd''] :: unit gate"
  obtain rep and oe :: "unit err option" where e: "Enforce ?env ?g () = Inr ((rep, oe), ())"
    by (simp add: Enforce_def gate_Evaluate_def gate_New_def WithPolicy_def start_report_def split: sum.splits)
  have v: "gate_Validate ?g \<noteq> (None :: unit err option)"
    by (simp add: gate_Validate_def policy_Validate_def gate_New_def WithPolicy_def go_defs)
  from enforce_errs_iff_blocked [OF e] v e show ?thesis by fastforce
qed

text \<open>A gate over invariant checks is at least as strict as the invariant verdict: while the
  context is not done, a gate built from checks by \<open>FromCheck\<close> always returns a report; under the
  standard policy it blocks exactly when some check is neither \<open>PASS\<close> nor \<open>ANOMALY\<close>, under the
  strict policy exactly when some check is not \<open>PASS\<close>. So it blocks whenever \<open>Verdict\<close> is \<open>FAIL\<close>
  (standard) or not \<open>PASS\<close> (strict), and the two agree on checks with the three known statuses;
  on an unknown status the gate fails closed where \<open>Verdict\<close> counts it as passing.\<close>

theorem gate_of_checks_vs_verdict:
  assumes "\<And>w. fst (poll_ctx env w) = None" and "p = PolicyStandard \<or> p = PolicyStrict"
  shows "\<exists>rep w'. gate_Evaluate env (gate_New nm [WithPolicy p, WithRules (map FromCheck cs)]) w = Inr (rep, w')
     \<and> (rp_Verdict rep = VerdictBlocked \<longleftrightarrow>
          (\<exists>c \<in> set cs. ck_Status c \<noteq> Pass \<and> (p = PolicyStandard \<longrightarrow> ck_Status c \<noteq> Anomaly)))
     \<and> (Verdict cs = Fail \<or> p = PolicyStrict \<and> Verdict cs \<noteq> Pass \<longrightarrow> rp_Verdict rep = VerdictBlocked)
     \<and> ((\<forall>c \<in> set cs. ck_Status c \<in> {Pass, Fail, Anomaly}) \<longrightarrow> rp_Verdict rep = VerdictBlocked \<longrightarrow>
          Verdict cs = Fail \<or> p = PolicyStrict \<and> Verdict cs \<noteq> Pass)"
proof -
  obtain rep w' where e: "gate_Evaluate env (gate_New nm [WithPolicy p, WithRules (map FromCheck cs)]) w = Inr (rep, w')"
    and b: "rp_Verdict rep = VerdictBlocked \<longleftrightarrow> blocks p (check_status ` set cs)"
    using gate_of_checks [OF assms(1)] by blast
  have v: "rp_Verdict rep = VerdictBlocked \<longleftrightarrow>
      (\<exists>c \<in> set cs. ck_Status c \<noteq> Pass \<and> (p = PolicyStandard \<longrightarrow> ck_Status c \<noteq> Anomaly))"
    using assms(2) blocks_checks [of cs] by (auto simp: b)
  then show ?thesis using e Verdict_Fail [of cs] Verdict_Pass [of cs] assms(2)
    by (intro exI [of _ rep] exI [of _ w']) (auto; metis statuses_distinct)
qed

theorem gate_of_checks_vs_verdict_witness:
  "\<exists>rep w'. gate_Evaluate \<lparr>poll_ctx = (\<lambda>w. (None, w)), time_now = (\<lambda>w. (0, w))\<rparr>
      (gate_New ''g'' [WithPolicy PolicyStrict, WithRules (map FromCheck
         [\<lparr>ck_Name = ''c'', ck_Invariant = 1, ck_Status = Anomaly, ck_Evidence = []\<rparr>])]) () = Inr (rep, w')
     \<and> rp_Verdict rep = VerdictBlocked"
proof -
  let ?env = "\<lparr>poll_ctx = (\<lambda>w. (None, w)), time_now = (\<lambda>w. (0, w))\<rparr> :: unit env"
  let ?cs = "[\<lparr>ck_Name = ''c'', ck_Invariant = 1, ck_Status = Anomaly, ck_Evidence = []\<rparr>]"
  have "\<And>w. fst (poll_ctx ?env w) = None" by simp
  from gate_of_checks_vs_verdict [OF this, of PolicyStrict "''g''" ?cs "()"] show ?thesis
    by (auto simp: Verdict_def worse_def)
qed

end
