(* ===== verification/Retry.thy ===== *)
theory Retry
  imports Go_Errors
begin

section \<open>retry: bounded retries with jittered exponential backoff\<close>

text \<open>
  \<open>src/go/platform/retry/retry.go\<close> and the older copy \<open>src/go/retry/retry.go\<close>, which differ only in
  how \<open>BackoffWithConfig\<close> guards against overflow. Durations are \<open>int64\<close> nanoseconds.
  \<open>math/rand/v2\<close> is a source of numbers read from the outside world, of which the theorems assume
  its documented range; a timed wait ends either because the timer fired or because the context
  was done.
\<close>

record 'w retry_env = "'w env" +
  rand_int64n :: "int \<Rightarrow> 'w \<Rightarrow> int \<times> 'w"
  wait_timer :: "int \<Rightarrow> 'w \<Rightarrow> ctx_error option \<times> 'w"

text \<open>The documented range of \<open>rand.Int64N\<close>.\<close>

definition rand_ok :: "'w retry_env \<Rightarrow> bool" where
  "rand_ok env \<longleftrightarrow> (\<forall>n w. 0 < n \<longrightarrow> 0 \<le> fst (rand_int64n env n w) \<and> fst (rand_int64n env n w) < n)"

definition millisecond :: int where "millisecond = 1000000"
definition second :: int where "second = 1000000000"

definition backoffBase :: int where "backoffBase = 100 * millisecond"
definition maxBackoff :: int where "maxBackoff = 5 * second"
definition jitterFraction :: int where "jitterFraction = 5"
definition maxAttemptShift :: int where "maxAttemptShift = 30"

lemmas retry_consts [go_defs] =
  millisecond_def second_def backoffBase_def maxBackoff_def jitterFraction_def maxAttemptShift_def

definition jitter :: "'w retry_env \<Rightarrow> int \<Rightarrow> 'w \<Rightarrow> int \<times> 'w" where
  "jitter env ceiling w = (if ceiling \<le> 0 then (0, w) else rand_int64n env ceiling w)"

text \<open>The delay before jitter, in the two versions; every product and sum is an \<open>int64\<close>.\<close>

definition attempt_shift :: "int \<Rightarrow> nat" where
  "attempt_shift attempt = nat (min (max attempt 0) maxAttemptShift)"

definition platform_ceiling :: "int \<Rightarrow> int \<Rightarrow> int \<Rightarrow> int" where
  "platform_ceiling attempt base maxCap =
     (if base \<ge> maxCap then maxCap
      else (let multiplier = 2 ^ attempt_shift attempt in
        if multiplier \<ge> wrap64 (maxCap sdiv base + 1) then maxCap
        else min (wrap64 (multiplier * base)) maxCap))"

definition retry_ceiling :: "int \<Rightarrow> int \<Rightarrow> int \<Rightarrow> int" where
  "retry_ceiling attempt base maxCap = min (wrap64 (2 ^ attempt_shift attempt * base)) maxCap"

text \<open>\<open>b + jitter(b / jitterFraction)\<close>.\<close>

definition add_jitter :: "'w retry_env \<Rightarrow> int \<Rightarrow> 'w \<Rightarrow> int \<times> 'w" where
  "add_jitter env b w = (case jitter env (b sdiv jitterFraction) w of (jit, w') \<Rightarrow> (wrap64 (b + jit), w'))"

definition eff_base :: "int \<Rightarrow> int" where
  "eff_base base = (if base \<le> 0 then backoffBase else base)"

definition eff_cap :: "int \<Rightarrow> int" where
  "eff_cap maxCap = (if maxCap \<le> 0 then maxBackoff else maxCap)"

definition platform_BackoffWithConfig :: "'w retry_env \<Rightarrow> int \<Rightarrow> int \<Rightarrow> int \<Rightarrow> 'w \<Rightarrow> int \<times> 'w" where
  "platform_BackoffWithConfig env attempt base maxCap w =
     add_jitter env (platform_ceiling attempt (eff_base base) (eff_cap maxCap)) w"

definition retry_BackoffWithConfig :: "'w retry_env \<Rightarrow> int \<Rightarrow> int \<Rightarrow> int \<Rightarrow> 'w \<Rightarrow> int \<times> 'w" where
  "retry_BackoffWithConfig env attempt base maxCap w =
     add_jitter env (retry_ceiling attempt (eff_base base) (eff_cap maxCap)) w"

definition platform_Backoff :: "'w retry_env \<Rightarrow> int \<Rightarrow> 'w \<Rightarrow> int \<times> 'w" where
  "platform_Backoff env attempt w = platform_BackoffWithConfig env attempt backoffBase maxBackoff w"

definition retry_Backoff :: "'w retry_env \<Rightarrow> int \<Rightarrow> 'w \<Rightarrow> int \<times> 'w" where
  "retry_Backoff env attempt w = retry_BackoffWithConfig env attempt backoffBase maxBackoff w"

subsection \<open>Permanent errors\<close>

text \<open>\<open>permanentError\<close> is the kind \<open>PermanentK\<close>; \<open>perm_of\<close> tells which foreign error types have a
  method \<open>Permanent() bool\<close> and what it answers. The first node that has one decides.\<close>

definition Permanent :: "'x err \<Rightarrow> 'x err" where
  "Permanent e = GoErr PermanentK (err_text e) [e]"

definition permanent_view :: "('x \<Rightarrow> bool option) \<Rightarrow> 'x err \<Rightarrow> bool option" where
  "permanent_view perm_of n = (case err_kind n of PermanentK \<Rightarrow> Some True | Foreign x \<Rightarrow> perm_of x | _ \<Rightarrow> None)"

definition IsPermanent :: "('x \<Rightarrow> bool option) \<Rightarrow> 'x err \<Rightarrow> bool" where
  "IsPermanent perm_of e = (case errors_As (permanent_view perm_of) e of None \<Rightarrow> False | Some b \<Rightarrow> b)"

lemma IsPermanent_Permanent [simp]: "IsPermanent perm_of (Permanent e)"
proof -
  have "permanent_view perm_of (Permanent e) = Some True"
    by (simp add: permanent_view_def Permanent_def)
  then show ?thesis by (simp add: IsPermanent_def errors_As_hit)
qed

lemma IsPermanent_wrapf [simp]: "IsPermanent perm_of (wrapf m e) = IsPermanent perm_of e"
  by (simp add: IsPermanent_def permanent_view_def)

lemma IsPermanent_sentinel [simp]: "\<not> IsPermanent perm_of (sentinel n m)"
  by (simp add: IsPermanent_def permanent_view_def)

lemma err_nodes_Permanent [simp]: "err_nodes (Permanent e) = Permanent e # err_nodes e"
  by (simp add: Permanent_def)

subsection \<open>DoVal and Do\<close>

text \<open>
  One iteration of the loop of \<open>DoVal\<close> with \<open>k\<close> iterations left after it: \<open>Some r\<close> when the function
  returns \<open>r\<close>, \<open>None\<close> when it goes round again. The timer is reused between iterations, which
  cannot be observed.
\<close>

definition do_body :: "('x \<Rightarrow> bool option) \<Rightarrow> 'w retry_env \<Rightarrow> (int \<Rightarrow> 'w \<Rightarrow> int \<times> 'w) \<Rightarrow>
    ('w \<Rightarrow> ('x err + 'a) \<times> 'w) \<Rightarrow> nat \<Rightarrow> nat \<Rightarrow> 'w \<Rightarrow> ('x err + 'a) option \<times> 'w" where
  "do_body perm_of env backoff fn k attempt w =
     (case fn w of
        (Inr v, w1) \<Rightarrow> (Some (Inr v), w1)
      | (Inl e, w1) \<Rightarrow>
          if IsPermanent perm_of e then (Some (Inl e), w1)
          else if k = 0 then (Some (Inl e), w1)
          else (case backoff (int attempt) w1 of (delay, w2) \<Rightarrow>
                case wait_timer env delay w2 of
                  (None, w3) \<Rightarrow> (None, w3)
                | (Some c, w3) \<Rightarrow> (Some (Inl (wrapf ''retry: '' (ctx_err c))), w3)))"

fun do_loop :: "('x \<Rightarrow> bool option) \<Rightarrow> 'w retry_env \<Rightarrow> (int \<Rightarrow> 'w \<Rightarrow> int \<times> 'w) \<Rightarrow>
    ('w \<Rightarrow> ('x err + 'a) \<times> 'w) \<Rightarrow> nat \<Rightarrow> nat \<Rightarrow> 'w \<Rightarrow> ('x err + 'a) option \<times> 'w" where
  "do_loop perm_of env backoff fn 0 attempt w = do_body perm_of env backoff fn 0 attempt w"
| "do_loop perm_of env backoff fn (Suc k) attempt w =
     (case do_body perm_of env backoff fn (Suc k) attempt w of
        (Some r, w') \<Rightarrow> (Some r, w')
      | (None, w') \<Rightarrow> do_loop perm_of env backoff fn k (Suc attempt) w')"

text \<open>The number of iterations after the first, from \<open>if maxAttempts < 1 { maxAttempts = 1 }\<close>.\<close>

definition extra_attempts :: "int \<Rightarrow> nat" where
  "extra_attempts maxAttempts = nat ((if maxAttempts < 1 then 1 else maxAttempts) - 1)"

definition platform_DoVal :: "('x \<Rightarrow> bool option) \<Rightarrow> 'w retry_env \<Rightarrow> int \<Rightarrow>
    ('w \<Rightarrow> ('x err + 'a) \<times> 'w) \<Rightarrow> 'w \<Rightarrow> ('x err + 'a) option \<times> 'w" where
  "platform_DoVal perm_of env maxAttempts fn w =
     do_loop perm_of env (platform_Backoff env) fn (extra_attempts maxAttempts) 0 w"

definition retry_DoVal :: "('x \<Rightarrow> bool option) \<Rightarrow> 'w retry_env \<Rightarrow> int \<Rightarrow>
    ('w \<Rightarrow> ('x err + 'a) \<times> 'w) \<Rightarrow> 'w \<Rightarrow> ('x err + 'a) option \<times> 'w" where
  "retry_DoVal perm_of env maxAttempts fn w =
     do_loop perm_of env (retry_Backoff env) fn (extra_attempts maxAttempts) 0 w"

text \<open>\<open>Do\<close> is \<open>DoVal\<close> at the empty struct.\<close>

definition platform_Do :: "('x \<Rightarrow> bool option) \<Rightarrow> 'w retry_env \<Rightarrow> int \<Rightarrow>
    ('w \<Rightarrow> 'x err option \<times> 'w) \<Rightarrow> 'w \<Rightarrow> ('x err + unit) option \<times> 'w" where
  "platform_Do perm_of env maxAttempts fn w =
     platform_DoVal perm_of env maxAttempts
       (\<lambda>w. case fn w of (None, w') \<Rightarrow> (Inr (), w') | (Some e, w') \<Rightarrow> (Inl e, w')) w"

definition retry_Do :: "('x \<Rightarrow> bool option) \<Rightarrow> 'w retry_env \<Rightarrow> int \<Rightarrow>
    ('w \<Rightarrow> 'x err option \<times> 'w) \<Rightarrow> 'w \<Rightarrow> ('x err + unit) option \<times> 'w" where
  "retry_Do perm_of env maxAttempts fn w =
     retry_DoVal perm_of env maxAttempts
       (\<lambda>w. case fn w of (None, w') \<Rightarrow> (Inr (), w') | (Some e, w') \<Rightarrow> (Inl e, w')) w"

subsection \<open>Loops that make a bounded number of attempts\<close>

text \<open>\<open>run_on body n k a w\<close>: the world after \<open>n\<close> iterations that all went round again, when \<open>k\<close> more
  iterations were allowed at the start and the attempt counter stood at \<open>a\<close>.\<close>

primrec run_on :: "(nat \<Rightarrow> nat \<Rightarrow> 'w \<Rightarrow> 'r option \<times> 'w) \<Rightarrow> nat \<Rightarrow> nat \<Rightarrow> nat \<Rightarrow> 'w \<Rightarrow> 'w option" where
  "run_on body 0 k a w = Some w"
| "run_on body (Suc n) k a w =
     (case body k a w of (None, w') \<Rightarrow> run_on body n (k - 1) (Suc a) w' | (Some _, _) \<Rightarrow> None)"

locale attempt_loop =
  fixes body :: "nat \<Rightarrow> nat \<Rightarrow> 'w \<Rightarrow> 'r option \<times> 'w"
    and loop :: "nat \<Rightarrow> nat \<Rightarrow> 'w \<Rightarrow> 'r option \<times> 'w"
  assumes loop_0: "loop 0 a w = body 0 a w"
    and loop_Suc: "loop (Suc k) a w =
      (case body (Suc k) a w of (Some r, w') \<Rightarrow> (Some r, w') | (None, w') \<Rightarrow> loop k (Suc a) w')"
    and last_stops: "fst (body 0 a w) \<noteq> None"
begin

text \<open>The loop ends, within the allowed iterations, with the result of the iteration that stopped.\<close>

lemma loop_outcome:
  "\<exists>n \<le> k. \<exists>w1 r w'. run_on body n k a w = Some w1 \<and> body (k - n) (a + n) w1 = (Some r, w')
     \<and> loop k a w = (Some r, w')"
proof (induction k arbitrary: a w)
  case 0
  obtain r w' where "body 0 a w = (Some r, w')"
    using last_stops [of a w] by (cases "body 0 a w") auto
  then show ?case by (auto simp: loop_0)
next
  case (Suc k)
  obtain o1 w1 where b: "body (Suc k) a w = (o1, w1)" by fastforce
  show ?case
  proof (cases o1)
    case (Some r)
    then show ?thesis using b by (intro exI [of _ 0]) (simp add: loop_Suc)
  next
    case None
    obtain n w2 r w' where "n \<le> k" "run_on body n k (Suc a) w1 = Some w2"
      "body (k - n) (Suc a + n) w2 = (Some r, w')" "loop k (Suc a) w1 = (Some r, w')"
      using Suc.IH [of "Suc a" w1] by blast
    then show ?thesis using b None by (intro exI [of _ "Suc n"]) (simp add: loop_Suc)
  qed
qed

lemma loop_run_on:
  "run_on body n k a w = Some w1 \<Longrightarrow> n \<le> k \<Longrightarrow> loop k a w = loop (k - n) (a + n) w1"
proof (induction n arbitrary: k a w)
  case 0
  then show ?case by simp
next
  case (Suc n)
  then obtain k' where k: "k = Suc k'" by (cases k) auto
  with Suc.prems obtain w2 where "body k a w = (None, w2)" "run_on body n k' (Suc a) w2 = Some w1"
    by (auto split: prod.splits option.splits)
  then show ?case using Suc.IH [of k' "Suc a" w2] Suc.prems(2) k by (simp add: loop_Suc)
qed

lemma loop_stop: "body k a w = (Some r, w') \<Longrightarrow> loop k a w = (Some r, w')"
  by (cases k) (simp_all add: loop_0 loop_Suc)

end

lemma do_body_0: "fst (do_body perm_of env backoff fn 0 a w) \<noteq> None"
  by (auto simp: do_body_def split: prod.splits sum.splits)

interpretation doval: attempt_loop "do_body perm_of env backoff fn" "do_loop perm_of env backoff fn"
  for perm_of env backoff fn
  by unfold_locales (auto simp: do_body_0)

subsection \<open>The delays\<close>

lemma sdiv_nonneg: "0 \<le> a \<Longrightarrow> 0 < b \<Longrightarrow> (a :: int) sdiv b = a div b"
  by (simp add: signed_divide_int_def sgn_if)

lemma div_less_iff: "0 < b \<Longrightarrow> (c :: int) div b < m \<longleftrightarrow> c < m * b"
proof
  assume "0 < b" and "c div b < m"
  then have "(c div b + 1) * b \<le> m * b" by (intro mult_right_mono) auto
  moreover have "c < (c div b + 1) * b"
    using pos_mod_bound [OF \<open>0 < b\<close>, of c] div_mult_mod_eq [of c b] unfolding distrib_right by linarith
  ultimately show "c < m * b" by simp
next
  assume "0 < b" and "c < m * b"
  then have "c div b \<le> (m * b - 1) div b" by (intro zdiv_mono1) auto
  also have "\<dots> = m - 1" using \<open>0 < b\<close> div_mult_self3 [of b m "-1"] by (simp add: zdiv_eq_0_iff div_eq_minus1)
  finally show "c div b < m" by simp
qed

lemma eff_pos [simp]: "0 < eff_base b" "0 < eff_cap c"
  by (simp_all add: eff_base_def eff_cap_def go_defs)

lemma attempt_shift_le: "attempt_shift a \<le> 30"
  by (auto simp: attempt_shift_def go_defs)

lemma power_shift_bounds: "1 \<le> (2 :: int) ^ attempt_shift a" "(2 :: int) ^ attempt_shift a \<le> 2 ^ 30"
  using power_increasing [OF attempt_shift_le, of "2 :: int" a] by simp_all

text \<open>The reference: the mathematical minimum of \<open>2\<^sup>s\<close> times the base and the cap.\<close>

definition ideal_ceiling :: "int \<Rightarrow> int \<Rightarrow> int \<Rightarrow> int" where
  "ideal_ceiling attempt base maxCap = min (2 ^ attempt_shift attempt * base) maxCap"

lemma ideal_ceiling_bounds:
  assumes "0 < b" and "0 < c"
  shows "min b c \<le> ideal_ceiling a b c \<and> ideal_ceiling a b c \<le> c"
proof -
  have "b * 1 \<le> b * 2 ^ attempt_shift a"
    using power_shift_bounds(1) [of a] assms(1) by (intro mult_left_mono) auto
  then show ?thesis by (auto simp: ideal_ceiling_def min_def mult.commute)
qed

lemma platform_ceiling_ideal:
  assumes "0 < b" and "0 < c" and "c < 2 ^ 63 - 1"
  shows "platform_ceiling a b c = ideal_ceiling a b c"
proof (cases "b \<ge> c")
  case True
  have "b * 1 \<le> b * 2 ^ attempt_shift a"
    using power_shift_bounds(1) [of a] assms(1) by (intro mult_left_mono) auto
  then show ?thesis using True by (simp add: platform_ceiling_def ideal_ceiling_def mult.commute)
next
  case False
  let ?m = "2 ^ attempt_shift a :: int"
  have q: "c sdiv b = c div b" using assms by (simp add: sdiv_nonneg)
  have "0 \<le> c div b" and "c div b \<le> c"
    using assms zdiv_mono2 [of c 1 b] by (simp_all add: pos_imp_zdiv_nonneg_iff)
  then have w: "wrap64 (c sdiv b + 1) = c div b + 1"
    using assms by (simp add: q in_int64_def)
  have iff: "?m \<ge> c div b + 1 \<longleftrightarrow> c < ?m * b"
    using div_less_iff [OF assms(1), of c ?m] by linarith
  show ?thesis
  proof (cases "c < ?m * b")
    case True
    then show ?thesis using False iff by (simp add: platform_ceiling_def ideal_ceiling_def w min_def)
  next
    case f: False
    have "0 \<le> ?m * b" using assms(1) by simp
    with f have "in_int64 (?m * b)" using assms(3) by (simp add: in_int64_def)
    then show ?thesis using False f iff
      by (simp add: platform_ceiling_def ideal_ceiling_def w)
  qed
qed

lemma retry_ceiling_ideal:
  "0 < b \<Longrightarrow> in_int64 (2 ^ attempt_shift a * b) \<Longrightarrow> retry_ceiling a b c = ideal_ceiling a b c"
  by (simp add: retry_ceiling_def ideal_ceiling_def)

lemma add_jitter_bounds:
  assumes "rand_ok env" and "0 < b" and "6 * b \<le> 5 * (2 ^ 63 - 1)"
  shows "b \<le> fst (add_jitter env b w) \<and> 5 * fst (add_jitter env b w) \<le> 6 * b"
proof -
  let ?q = "b sdiv jitterFraction"
  have q: "?q = b div 5" using assms by (simp add: sdiv_nonneg go_defs)
  have j: "0 \<le> fst (jitter env ?q w)" "fst (jitter env ?q w) \<le> b div 5"
    using assms(1,2) by (auto simp: jitter_def q rand_ok_def pos_imp_zdiv_nonneg_iff
        intro: less_imp_le)
  then have "in_int64 (b + fst (jitter env ?q w))"
    using assms by (simp add: in_int64_def)
  moreover have "fst (add_jitter env b w) = wrap64 (b + fst (jitter env ?q w))"
    by (simp add: add_jitter_def split: prod.split)
  ultimately show ?thesis using j by simp
qed

subsection \<open>What the retry functions promise\<close>

text \<open>\<open>BackoffWithConfig\<close> of the platform module never overflows: for every attempt number
  (negative ones included) and every configured base and cap (non-positive ones fall back to the
  defaults), as long as the cap leaves room for the jitter in an \<open>int64\<close>, the delay lies between
  the mathematical \<open>min (2\<^sup>s * base) cap\<close>, \<open>s\<close> the attempt clamped to \<open>0..30\<close>, and 120\% of it; so
  it is positive, at least the smaller of base and cap, and at most 120\% of the cap.\<close>

theorem platform_backoff_bounded:
  assumes "rand_ok env" and "6 * eff_cap maxCap \<le> 5 * (2 ^ 63 - 1)"
  shows "let b = ideal_ceiling attempt (eff_base base) (eff_cap maxCap);
             d = fst (platform_BackoffWithConfig env attempt base maxCap w)
         in b \<le> d \<and> 5 * d \<le> 6 * b \<and> 0 < d
            \<and> min (eff_base base) (eff_cap maxCap) \<le> d \<and> 5 * d \<le> 6 * eff_cap maxCap"
proof -
  let ?b = "ideal_ceiling attempt (eff_base base) (eff_cap maxCap)"
  have i: "min (eff_base base) (eff_cap maxCap) \<le> ?b" "?b \<le> eff_cap maxCap"
    using ideal_ceiling_bounds [of "eff_base base" "eff_cap maxCap" attempt] by auto
  have "platform_ceiling attempt (eff_base base) (eff_cap maxCap) = ?b"
    using assms(2) by (intro platform_ceiling_ideal) auto
  moreover have "0 < ?b" using i(1) eff_pos(1) [of base] eff_pos(2) [of maxCap] by linarith
  ultimately show ?thesis
    using add_jitter_bounds [OF assms(1), of ?b w] i assms(2)
    by (simp add: platform_BackoffWithConfig_def Let_def)
qed

definition demo_env :: "nat retry_env" where
  "demo_env = \<lparr>poll_ctx = (\<lambda>w. (None, w)), time_now = (\<lambda>w. (int w, Suc w)),
     rand_int64n = (\<lambda>n w. (int w mod n, Suc w)), wait_timer = (\<lambda>d w. (None, Suc w))\<rparr>"

lemma demo_env_rand_ok: "rand_ok demo_env"
  by (simp add: rand_ok_def demo_env_def)

theorem platform_backoff_bounded_witness:
  "5 * second \<le> fst (platform_BackoffWithConfig demo_env 30 (10 * second) (5 * second) 7)
   \<and> fst (platform_BackoffWithConfig demo_env 30 (10 * second) (5 * second) 7) \<le> 6 * second"
  using platform_backoff_bounded [OF demo_env_rand_ok, of "5 * second" 30 "10 * second" 7]
  by (simp add: eff_cap_def eff_base_def go_defs Let_def)

lemma backoff_versions_agree_aux:
  assumes "in_int64 (2 ^ attempt_shift attempt * eff_base base)" and "eff_cap maxCap < 2 ^ 63 - 1"
  shows "retry_BackoffWithConfig env attempt base maxCap = platform_BackoffWithConfig env attempt base maxCap"
  using assms
  by (intro ext) (simp add: retry_BackoffWithConfig_def platform_BackoffWithConfig_def
      platform_ceiling_ideal retry_ceiling_ideal)

lemma default_backoffs_agree: "retry_Backoff env = platform_Backoff env"
proof (intro ext)
  fix attempt w
  have "in_int64 (2 ^ attempt_shift attempt * 100000000)"
  proof -
    define m :: int where "m = 2 ^ attempt_shift attempt"
    have "1 \<le> m" "m \<le> 1073741824" using power_shift_bounds [of attempt] by (simp_all add: m_def)
    then show ?thesis unfolding m_def [symmetric] in_int64_def by simp
  qed
  then have "in_int64 (2 ^ attempt_shift attempt * eff_base backoffBase)"
    by (simp add: eff_base_def go_defs)
  then show "retry_Backoff env attempt w = platform_Backoff env attempt w"
    unfolding retry_Backoff_def platform_Backoff_def
    by (subst backoff_versions_agree_aux) (simp_all add: eff_cap_def go_defs)
qed

text \<open>The older module's \<open>BackoffWithConfig\<close> computes the same delay as the platform module's
  whenever \<open>2\<^sup>s * base\<close> fits an \<open>int64\<close>; with the default base and cap it always does, so
  \<open>Backoff\<close>, \<open>DoVal\<close> and \<open>Do\<close> of the two modules are the same functions.\<close>

theorem backoff_versions_agree:
  "(in_int64 (2 ^ attempt_shift attempt * eff_base base) \<and> eff_cap maxCap < 2 ^ 63 - 1 \<longrightarrow>
      retry_BackoffWithConfig env attempt base maxCap = platform_BackoffWithConfig env attempt base maxCap)
   \<and> retry_Backoff env = platform_Backoff env
   \<and> retry_DoVal perm_of env n fn w = platform_DoVal perm_of env n fn w
   \<and> retry_Do perm_of env n gn w = platform_Do perm_of env n gn w"
  by (simp add: backoff_versions_agree_aux default_backoffs_agree retry_DoVal_def platform_DoVal_def
      retry_Do_def platform_Do_def)

theorem backoff_versions_agree_witness:
  "retry_BackoffWithConfig demo_env 3 second (60 * second) = platform_BackoffWithConfig demo_env 3 second (60 * second)"
proof -
  have "attempt_shift 3 = 3" by (simp add: attempt_shift_def go_defs)
  then show ?thesis
    using backoff_versions_agree [of 3 second "60 * second" demo_env "\<lambda>_. None" 1 "\<lambda>w. (Inr (), w)" 0 "\<lambda>w. (None, w)"]
    by (auto simp: in_int64_def eff_base_def eff_cap_def go_defs)
qed

text \<open>Outside that range they differ: with a base of ten seconds and a cap of a minute, the
  older module's product wraps at attempt 30 and the delay is negative (the timer fires at once),
  whereas the platform module waits at least the full minute.\<close>

theorem retry_backoff_overflows:
  "fst (retry_BackoffWithConfig env 30 (10 * second) (60 * second) w) < 0
   \<and> fst (platform_BackoffWithConfig demo_env 30 (10 * second) (60 * second) v) \<ge> 60 * second"
proof
  have b: "retry_ceiling 30 (10 * second) (60 * second) = - 7709325833709551616"
    by (simp add: retry_ceiling_def attempt_shift_def wrap64_def go_defs)
  have "(- 7709325833709551616 :: int) sdiv jitterFraction = - 1541865166741910323"
    by (simp add: signed_divide_int_def go_defs)
  then have "fst (add_jitter env (- 7709325833709551616) w) < 0"
    by (simp add: add_jitter_def jitter_def wrap64_def)
  then show "fst (retry_BackoffWithConfig env 30 (10 * second) (60 * second) w) < 0"
    using b by (simp add: retry_BackoffWithConfig_def eff_base_def eff_cap_def go_defs)
  have c: "platform_ceiling 30 (10 * second) (60 * second) = 60 * second"
    by (simp add: platform_ceiling_def attempt_shift_def wrap64_def sdiv_nonneg go_defs)
  show "fst (platform_BackoffWithConfig demo_env 30 (10 * second) (60 * second) v) \<ge> 60 * second"
    using add_jitter_bounds [OF demo_env_rand_ok, of "60 * second" v] c
    by (simp add: platform_BackoffWithConfig_def eff_base_def eff_cap_def go_defs)
qed

text \<open>C6. \<open>DoVal\<close> always returns, after at most \<open>max 1 maxAttempts\<close> calls of \<open>fn\<close>: there is a number
  \<open>n < max 1 maxAttempts\<close> of iterations that failed with a non-permanent error and waited out their
  backoff, and the next call, from the world they left, decides: its success is returned; its
  error is returned unchanged when it is permanent or it was the last allowed attempt; and
  otherwise the context was done during the wait and the context's error is returned, wrapped.\<close>

theorem do_val_outcome:
  "\<exists>n w1 r w'. int n < max 1 maxAttempts
     \<and> run_on (do_body perm_of env (platform_Backoff env) fn) n (extra_attempts maxAttempts) 0 w = Some w1
     \<and> platform_DoVal perm_of env maxAttempts fn w = (Some r, w')
     \<and> (case fn w1 of
          (Inr v, w2) \<Rightarrow> r = Inr v \<and> w' = w2
        | (Inl e, w2) \<Rightarrow>
            r = Inl e \<and> w' = w2 \<and> (IsPermanent perm_of e \<or> int n = max 1 maxAttempts - 1)
            \<or> (\<exists>c. r = Inl (wrapf ''retry: '' (ctx_err c)) \<and> \<not> IsPermanent perm_of e
                 \<and> wait_timer env (fst (platform_Backoff env (int n) w2)) (snd (platform_Backoff env (int n) w2)) = (Some c, w')))"
proof -
  let ?body = "do_body perm_of env (platform_Backoff env) fn"
  let ?k = "extra_attempts maxAttempts"
  obtain n w1 r w' where n: "n \<le> ?k" and run: "run_on ?body n ?k 0 w = Some w1"
    and b: "?body (?k - n) (0 + n) w1 = (Some r, w')"
    and l: "do_loop perm_of env (platform_Backoff env) fn ?k 0 w = (Some r, w')"
    using doval.loop_outcome [of ?k perm_of env "platform_Backoff env" fn 0 w] by blast
  have k: "int ?k = max 1 maxAttempts - 1" by (simp add: extra_attempts_def)
  have "case fn w1 of
          (Inr v, w2) \<Rightarrow> r = Inr v \<and> w' = w2
        | (Inl e, w2) \<Rightarrow>
            r = Inl e \<and> w' = w2 \<and> (IsPermanent perm_of e \<or> int n = max 1 maxAttempts - 1)
            \<or> (\<exists>c. r = Inl (wrapf ''retry: '' (ctx_err c)) \<and> \<not> IsPermanent perm_of e
                 \<and> wait_timer env (fst (platform_Backoff env (int n) w2)) (snd (platform_Backoff env (int n) w2)) = (Some c, w'))"
    using b n k by (auto simp: do_body_def split: prod.splits sum.splits if_splits option.splits)
  then show ?thesis using n k run l by (intro exI [of _ n] exI [of _ w1] exI [of _ r] exI [of _ w'])
      (auto simp: platform_DoVal_def)
qed

text \<open>\<open>DoVal\<close> does not give up early: if \<open>n\<close> iterations failed, waited and went on, with
  \<open>n < max 1 maxAttempts\<close>, and the next call succeeds, then that value is what \<open>DoVal\<close> returns.\<close>

theorem do_val_returns_first_success:
  assumes "int n < max 1 maxAttempts"
    and "run_on (do_body perm_of env (platform_Backoff env) fn) n (extra_attempts maxAttempts) 0 w = Some w1"
    and "fn w1 = (Inr v, w2)"
  shows "platform_DoVal perm_of env maxAttempts fn w = (Some (Inr v), w2)"
proof -
  let ?k = "extra_attempts maxAttempts"
  have "n \<le> ?k" using assms(1) by (auto simp: extra_attempts_def)
  then have "do_loop perm_of env (platform_Backoff env) fn ?k 0 w
      = do_loop perm_of env (platform_Backoff env) fn (?k - n) (0 + n) w1"
    by (rule doval.loop_run_on [OF assms(2)])
  also have "\<dots> = (Some (Inr v), w2)"
    using assms(3) by (intro doval.loop_stop) (simp add: do_body_def)
  finally show ?thesis by (simp add: platform_DoVal_def)
qed

theorem do_val_returns_first_success_witness:
  "platform_DoVal (\<lambda>_. None) demo_env 3 (\<lambda>w. (if w < 5 then Inl (sentinel ''e'' ''busy'' :: unit err) else Inr w, Suc w)) 0
     = (Some (Inr 6), 7)"
  by (rule do_val_returns_first_success [of 2 _ _ _ _ _ 6])
    (simp_all add: numeral_2_eq_2 extra_attempts_def do_body_def demo_env_def platform_Backoff_def
      platform_BackoffWithConfig_def add_jitter_def jitter_def platform_ceiling_def eff_base_def eff_cap_def
      attempt_shift_def sdiv_nonneg wrap64_def go_defs)

end
