(* ===== verification/Retry_Transport.thy ===== *)
theory Retry_Transport
  imports Retry
begin

section \<open>retry: the retrying HTTP transport\<close>

text \<open>
  \<open>src/go/platform/retry/transport.go\<close>; the older copy \<open>src/go/retry/transport.go\<close> is theory
  \<open>Retry_Transport_Copy\<close>. The wrapped round tripper, the
  request's \<open>GetBody\<close> and the draining of a response body are callbacks over the outside world; a
  round tripper may return a response and an error together. \<open>http.ParseTime\<close>, the parser of the
  three HTTP date formats, is the parameter \<open>parse_time\<close> (nanoseconds of the parsed instant).
\<close>

datatype 'b body = NilBody | NoBody | Body 'b

record ('b, 'x, 'w) request =
  rq_Body :: "'b body"
  rq_GetBody :: "('w \<Rightarrow> ('x err + 'b body) \<times> 'w) option"

record 'b response =
  rs_StatusCode :: int
  rs_RetryAfter :: string
  rs_Body :: "'b option"

type_synonym ('b, 'x, 'w) round_tripper = "'b body \<Rightarrow> 'w \<Rightarrow> ('b response option \<times> 'x err option) \<times> 'w"

record ('b, 'x, 'w) retry_transport =
  rt_base :: "('b, 'x, 'w) round_tripper"
  rt_maxAttempts :: int
  rt_shouldRetry :: "(int \<Rightarrow> bool) option"

definition ErrNonRewindableBody :: "'x err" where
  "ErrNonRewindableBody = sentinel ''retry.ErrNonRewindableBody''
     ''retry: cannot retry request with non-rewindable body''"

definition ErrRetriesExceeded :: "'x err" where
  "ErrRetriesExceeded = sentinel ''retry.ErrRetriesExceeded'' ''retry: retries exceeded''"

definition platform_Transport :: "('b, 'x, 'w) round_tripper \<Rightarrow> int \<Rightarrow> (int \<Rightarrow> bool) option \<Rightarrow>
    ('b, 'x, 'w) round_tripper option \<Rightarrow> ('b, 'x, 'w) retry_transport" where
  "platform_Transport default_transport maxAttempts shouldRetry base =
     \<lparr>rt_base = (case base of None \<Rightarrow> default_transport | Some b \<Rightarrow> b),
      rt_maxAttempts = (if maxAttempts < 1 then 1 else maxAttempts),
      rt_shouldRetry = (case shouldRetry of None \<Rightarrow> Some (\<lambda>_. False) | Some f \<Rightarrow> Some f)\<rparr>"

subsection \<open>Delays\<close>

definition RetryAfterDelay :: "(string \<Rightarrow> int option) \<Rightarrow> string \<Rightarrow> int \<Rightarrow> int option" where
  "RetryAfterDelay parse_time header now =
     (let h = trim_space header in
      if h = '''' then None
      else (case parse_int64 h of
          Some secs \<Rightarrow> if secs < 0 then None else Some (wrap64 (secs * second))
        | None \<Rightarrow> (case parse_time h of
            Some date \<Rightarrow> Some (max (time_sub date now) 0)
          | None \<Rightarrow> None)))"

definition retryDelay :: "(string \<Rightarrow> int option) \<Rightarrow> 'w retry_env \<Rightarrow> nat \<Rightarrow> 'b response option \<Rightarrow> 'w \<Rightarrow> int \<times> 'w" where
  "retryDelay parse_time env attempt oresp w =
     (case oresp of
        Some resp \<Rightarrow>
          if rs_StatusCode resp = 429 \<or> rs_StatusCode resp = 503 then
            (case time_now env w of (now, w1) \<Rightarrow>
             case RetryAfterDelay parse_time (rs_RetryAfter resp) now of
               Some delay \<Rightarrow> (min delay maxBackoff, w1)
             | None \<Rightarrow> platform_Backoff env (int attempt) w1)
          else platform_Backoff env (int attempt) w
      | None \<Rightarrow> platform_Backoff env (int attempt) w)"

definition rt_wait :: "(string \<Rightarrow> int option) \<Rightarrow> 'w retry_env \<Rightarrow> nat \<Rightarrow> 'b response option \<Rightarrow> 'w \<Rightarrow> 'x err option \<times> 'w" where
  "rt_wait parse_time env attempt oresp w =
     (case retryDelay parse_time env attempt oresp w of (d, w1) \<Rightarrow>
      case wait_timer env d w1 of
        (None, w2) \<Rightarrow> (None, w2)
      | (Some c, w2) \<Rightarrow> (Some (wrapf ''retry: '' (ctx_err c)), w2))"

subsection \<open>RoundTrip\<close>

datatype ('b, 'x) rt_result = RTPanic | RTReturn "'b response option" "'x err option"

definition rewindRequestBody :: "('b, 'x, 'w) request \<Rightarrow> 'b body \<Rightarrow> 'w \<Rightarrow> ('x err + 'b body) \<times> 'w" where
  "rewindRequestBody req bd w =
     (case rq_GetBody req of
        Some get \<Rightarrow>
          (case bd of NilBody \<Rightarrow> (Inr bd, w)
           | _ \<Rightarrow> (case get w of
                (Inl e, w1) \<Rightarrow> (Inl (wrapf ''retry: failed to get request body: '' e), w1)
              | (Inr bd', w1) \<Rightarrow> (Inr bd', w1)))
      | None \<Rightarrow> (Inr bd, w))"

text \<open>The start of an iteration: the body check and the rewind, from the second attempt on.\<close>

definition prepare_attempt :: "('b, 'x, 'w) request \<Rightarrow> nat \<Rightarrow> 'b body \<Rightarrow> 'w \<Rightarrow> ('x err + 'b body) \<times> 'w" where
  "prepare_attempt req attempt bd w =
     (if attempt > 0 then
        (case bd of
           Body b \<Rightarrow> (case rq_GetBody req of None \<Rightarrow> (Inl ErrNonRewindableBody, w)
                     | Some _ \<Rightarrow> rewindRequestBody req bd w)
         | _ \<Rightarrow> rewindRequestBody req bd w)
      else (Inr bd, w))"

text \<open>What is returned after the loop.\<close>

definition exhausted :: "int \<Rightarrow> 'b response option \<Rightarrow> 'x err option \<Rightarrow> ('b, 'x) rt_result" where
  "exhausted maxAttempts oresp lastErr =
     (case oresp of
        Some resp \<Rightarrow> RTReturn (Some resp)
          (Some (errorf (err_text (ErrRetriesExceeded :: 'x err) @ '' after '' @ show_int maxAttempts
             @ '' attempts: last status '' @ show_int (rs_StatusCode resp)) [ErrRetriesExceeded]))
      | None \<Rightarrow> RTReturn None
          (Some (errorf (err_text (ErrRetriesExceeded :: 'x err) @ '' after '' @ show_int maxAttempts
             @ '' attempts: '' @ (case lastErr of None \<Rightarrow> ''%!w(<nil>)'' | Some e \<Rightarrow> err_text e))
             (ErrRetriesExceeded # (case lastErr of None \<Rightarrow> [] | Some e \<Rightarrow> [e])))))"

definition rt_body :: "(string \<Rightarrow> int option) \<Rightarrow> ('x \<Rightarrow> bool option) \<Rightarrow> 'w retry_env \<Rightarrow>
    ('b response \<Rightarrow> 'w \<Rightarrow> 'w) \<Rightarrow> ('b, 'x, 'w) retry_transport \<Rightarrow> ('b, 'x, 'w) request \<Rightarrow>
    nat \<Rightarrow> nat \<Rightarrow> 'b body \<times> 'w \<Rightarrow> ('b, 'x) rt_result option \<times> ('b body \<times> 'w)" where
  "rt_body parse_time perm_of env drainBody t req k attempt st =
     (case st of (bd0, w0) \<Rightarrow>
      case prepare_attempt req attempt bd0 w0 of
        (Inl e, w1) \<Rightarrow> (Some (RTReturn None (Some e)), (bd0, w1))
      | (Inr bd, w1) \<Rightarrow>
        (case rt_base t bd w1 of
           ((oresp, Some lastErr), w2) \<Rightarrow>
             if IsPermanent perm_of lastErr
             then (Some (RTReturn None (Some (wrapf ''retry: permanent error: '' lastErr))), (bd, w2))
             else if k = 0 then (Some (exhausted (rt_maxAttempts t) oresp (Some lastErr)), (bd, w2))
             else (case rt_wait parse_time env attempt (None :: 'b response option) w2 of
                (Some we, w3) \<Rightarrow> (Some (RTReturn None (Some we)), (bd, w3))
              | (None, w3) \<Rightarrow> (None, (bd, w3)))
         | ((None, None), w2) \<Rightarrow> (Some RTPanic, (bd, w2))
         | ((Some resp, None), w2) \<Rightarrow>
             (case rt_shouldRetry t of None \<Rightarrow> (Some RTPanic, (bd, w2))
              | Some shouldRetry \<Rightarrow>
                if \<not> shouldRetry (rs_StatusCode resp) then (Some (RTReturn (Some resp) None), (bd, w2))
                else if k = 0 then (Some (exhausted (rt_maxAttempts t) (Some resp) None), (bd, w2))
                else (case rt_wait parse_time env attempt (Some resp) (drainBody resp w2) of
                   (Some we, w3) \<Rightarrow> (Some (RTReturn None (Some we)), (bd, w3))
                 | (None, w3) \<Rightarrow> (None, (bd, w3))))))"

fun rt_loop :: "(string \<Rightarrow> int option) \<Rightarrow> ('x \<Rightarrow> bool option) \<Rightarrow> 'w retry_env \<Rightarrow>
    ('b response \<Rightarrow> 'w \<Rightarrow> 'w) \<Rightarrow> ('b, 'x, 'w) retry_transport \<Rightarrow> ('b, 'x, 'w) request \<Rightarrow>
    nat \<Rightarrow> nat \<Rightarrow> 'b body \<times> 'w \<Rightarrow> ('b, 'x) rt_result option \<times> ('b body \<times> 'w)" where
  "rt_loop pt pm env dr t req 0 attempt st = rt_body pt pm env dr t req 0 attempt st"
| "rt_loop pt pm env dr t req (Suc k) attempt st =
     (case rt_body pt pm env dr t req (Suc k) attempt st of
        (Some r, st') \<Rightarrow> (Some r, st')
      | (None, st') \<Rightarrow> rt_loop pt pm env dr t req k (Suc attempt) st')"

definition RoundTrip :: "(string \<Rightarrow> int option) \<Rightarrow> ('x \<Rightarrow> bool option) \<Rightarrow> 'w retry_env \<Rightarrow>
    ('b response \<Rightarrow> 'w \<Rightarrow> 'w) \<Rightarrow> ('b, 'x, 'w) retry_transport \<Rightarrow> ('b, 'x, 'w) request \<Rightarrow>
    'w \<Rightarrow> ('b, 'x) rt_result option \<times> ('b body \<times> 'w)" where
  "RoundTrip pt pm env dr t req w =
     rt_loop pt pm env dr t req (nat (rt_maxAttempts t - 1)) 0 (rq_Body req, w)"

lemma rt_body_0: "fst (rt_body pt pm env dr t req 0 a st) \<noteq> None"
  by (auto simp: rt_body_def split: prod.splits sum.splits option.splits)

interpretation rtl: attempt_loop "rt_body pt pm env dr t req" "rt_loop pt pm env dr t req"
  for pt pm env dr t req
  by unfold_locales (auto simp: rt_body_0)

subsection \<open>What the transport promises\<close>

lemma platform_Transport_simps [simp]:
  "rt_maxAttempts (platform_Transport d m sr base) = max 1 m"
  "rt_shouldRetry (platform_Transport d m sr base) = Some (case sr of None \<Rightarrow> (\<lambda>_. False) | Some f \<Rightarrow> f)"
  by (auto simp: platform_Transport_def split: option.splits)

lemma exhausted_cases:
  obtains (resp) resp e where "oresp = Some resp" "exhausted m oresp oe = RTReturn (Some resp) (Some e)"
      "errors_Is e ''retry.ErrRetriesExceeded''"
    | (err) e where "oresp = None" "exhausted m oresp oe = RTReturn None (Some e)"
      "errors_Is e ''retry.ErrRetriesExceeded''"
  by (cases oresp) (auto simp: exhausted_def ErrRetriesExceeded_def)

text \<open>Which results an iteration with \<open>k\<close> iterations left may stop the loop with.\<close>

definition rt_allowed :: "('x \<Rightarrow> bool option) \<Rightarrow> (int \<Rightarrow> bool) \<Rightarrow> nat \<Rightarrow> ('b, 'x) rt_result \<Rightarrow> bool" where
  "rt_allowed perm_of shouldRetry k r = (case r of
      RTPanic \<Rightarrow> True
    | RTReturn None None \<Rightarrow> False
    | RTReturn (Some resp) None \<Rightarrow> \<not> shouldRetry (rs_StatusCode resp)
    | RTReturn (Some resp) (Some e) \<Rightarrow> k = 0 \<and> errors_Is e ''retry.ErrRetriesExceeded''
    | RTReturn None (Some e) \<Rightarrow>
        k = 0 \<and> errors_Is e ''retry.ErrRetriesExceeded'' \<or> IsPermanent perm_of e
        \<or> errors_Is e ''retry.ErrNonRewindableBody'' \<or> (\<exists>c. e = wrapf ''retry: '' (ctx_err c))
        \<or> (\<exists>e'. e = wrapf ''retry: failed to get request body: '' e'))"

lemma rt_allowed_exhausted: "rt_allowed pm sr 0 (exhausted m oresp oe)"
  by (rule exhausted_cases [of oresp m oe]) (simp_all add: rt_allowed_def)

lemma prepare_attempt_error:
  "prepare_attempt req a bd w = (Inl e, w') \<Longrightarrow>
   errors_Is e ''retry.ErrNonRewindableBody'' \<or> (\<exists>e'. e = wrapf ''retry: failed to get request body: '' e')"
  by (auto simp: prepare_attempt_def rewindRequestBody_def ErrNonRewindableBody_def
      split: body.splits option.splits prod.splits sum.splits if_splits)

lemma rt_wait_error: "rt_wait pt env a oresp w = (Some e, w') \<Longrightarrow> \<exists>c. e = wrapf ''retry: '' (ctx_err c)"
  by (auto simp: rt_wait_def split: prod.splits option.splits)

lemma rt_body_allowed:
  assumes "rt_body pt pm env dr t req k a st = (Some r, st')" and "rt_shouldRetry t = Some sr"
  shows "rt_allowed pm sr k r"
proof -
  obtain bd0 w0 where st: "st = (bd0, w0)" by fastforce
  obtain pr w1 where pr: "prepare_attempt req a bd0 w0 = (pr, w1)" by fastforce
  show ?thesis
  proof (cases pr)
    case (Inl e)
    then show ?thesis using assms pr st prepare_attempt_error [of req a bd0 w0 e w1]
      by (auto simp: rt_body_def rt_allowed_def)
  next
    case (Inr bd)
    obtain oresp oe w2 where b: "rt_base t bd w1 = ((oresp, oe), w2)" by (metis prod.exhaust)
    note facts = assms pr st Inr b
    show ?thesis
    proof (cases oe)
      case (Some e)
      then show ?thesis using facts
        by (auto simp: rt_body_def rt_allowed_exhausted split: prod.splits if_splits option.splits)
          (auto simp: rt_allowed_def dest: rt_wait_error)
    next
      case None
      then show ?thesis using facts
        by (cases oresp) (auto simp: rt_body_def rt_allowed_exhausted split: prod.splits if_splits option.splits,
          (auto simp: rt_allowed_def dest: rt_wait_error))
    qed
  qed
qed

text \<open>C11. A request through \<open>Transport\<close> ends after at most \<open>max 1 maxAttempts\<close> attempts, and exhaustion
  never looks like success: a nil error comes only with a response whose status \<open>shouldRetry\<close>
  rejects; a response together with an error, or no response with \<open>ErrRetriesExceeded\<close>, comes only
  from the last allowed attempt; any other failure is a permanent error, a body that cannot be
  rewound, or the request's context.\<close>

theorem roundtrip_outcome:
  "\<exists>n st1 r st'. int n < max 1 m
     \<and> run_on (rt_body pt pm env dr (platform_Transport d m sr base) req) n (nat (max 1 m - 1)) 0 (rq_Body req, w) = Some st1
     \<and> rt_body pt pm env dr (platform_Transport d m sr base) req (nat (max 1 m - 1) - n) n st1 = (Some r, st')
     \<and> RoundTrip pt pm env dr (platform_Transport d m sr base) req w = (Some r, st')
     \<and> rt_allowed pm (case sr of None \<Rightarrow> (\<lambda>_. False) | Some f \<Rightarrow> f) (nat (max 1 m - 1) - n) r"
proof -
  let ?t = "platform_Transport d m sr base" and ?k = "nat (max 1 m - 1)"
  obtain n st1 r st' where "n \<le> ?k"
    "run_on (rt_body pt pm env dr ?t req) n ?k 0 (rq_Body req, w) = Some st1"
    "rt_body pt pm env dr ?t req (?k - n) (0 + n) st1 = (Some r, st')"
    "rt_loop pt pm env dr ?t req ?k 0 (rq_Body req, w) = (Some r, st')"
    using rtl.loop_outcome [of ?k pt pm env dr ?t req 0 "(rq_Body req, w)"] by blast
  moreover from this have "rt_allowed pm (case sr of None \<Rightarrow> (\<lambda>_. False) | Some f \<Rightarrow> f) (?k - n) r"
    by (intro rt_body_allowed) auto
  ultimately show ?thesis by (intro exI [of _ n] exI) (auto simp: RoundTrip_def)
qed

text \<open>A request whose body cannot be rewound is sent at most once: when the first attempt is to be
  retried, the second one stops with \<open>ErrNonRewindableBody\<close> before it calls the base transport.\<close>

theorem non_rewindable_sent_once:
  assumes "rq_Body req = Body b" and "rq_GetBody req = None" and "m > 1"
    and "rt_body pt pm env dr (platform_Transport d m sr base) req (nat (m - 1)) 0 (Body b, w) = (None, (bd1, w1))"
  shows "RoundTrip pt pm env dr (platform_Transport d m sr base) req w
     = (Some (RTReturn None (Some ErrNonRewindableBody)), (Body b, w1))"
proof -
  let ?t = "platform_Transport d m sr base"
  obtain k where k: "nat (m - 1) = Suc k" using assms(3) by (cases "nat (m - 1)") auto
  have "bd1 = Body b"
    using assms(4) by (auto simp: rt_body_def prepare_attempt_def split: prod.splits option.splits if_splits)
  then have "rt_body pt pm env dr ?t req k (Suc 0) (bd1, w1)
      = (Some (RTReturn None (Some ErrNonRewindableBody)), (Body b, w1))"
    using assms(2) by (simp add: rt_body_def prepare_attempt_def)
  then have "rt_loop pt pm env dr ?t req k (Suc 0) (bd1, w1)
      = (Some (RTReturn None (Some ErrNonRewindableBody)), (Body b, w1))"
    by (rule rtl.loop_stop)
  then show ?thesis using assms k by (simp add: RoundTrip_def)
qed

theorem non_rewindable_sent_once_witness:
  "RoundTrip (\<lambda>_. None) (\<lambda>_. None :: bool option) demo_env (\<lambda>_ w. w)
     (platform_Transport (\<lambda>_ w. ((Some \<lparr>rs_StatusCode = 503, rs_RetryAfter = ''0'', rs_Body = None\<rparr>, None), w)) 3
        (Some (\<lambda>c. c \<ge> 500)) None)
     \<lparr>rq_Body = Body (), rq_GetBody = None\<rparr> 0
   = (Some (RTReturn None (Some (ErrNonRewindableBody :: unit err))), (Body (), 2))"
proof -
  have d: "RetryAfterDelay (\<lambda>_. None) ''0'' 0 = Some 0" by code_simp
  show ?thesis
    by (rule non_rewindable_sent_once [where ?bd1.0 = "Body ()"])
      (simp_all add: rt_body_def prepare_attempt_def platform_Transport_def rt_wait_def retryDelay_def
        demo_env_def d eval_nat_numeral go_defs)
qed

lemma platform_Backoff_bounds:
  assumes "rand_ok env"
  shows "100 * millisecond \<le> fst (platform_Backoff env a w) \<and> fst (platform_Backoff env a w) \<le> 6 * second"
proof -
  let ?b = "ideal_ceiling a (eff_base backoffBase) (eff_cap maxBackoff)"
  have "platform_ceiling a (eff_base backoffBase) (eff_cap maxBackoff) = ?b"
    by (intro platform_ceiling_ideal) (simp_all add: eff_cap_def go_defs)
  moreover have "100 * millisecond \<le> ?b" "?b \<le> 5 * second"
    using ideal_ceiling_bounds [of "eff_base backoffBase" "eff_cap maxBackoff" a]
    by (simp_all add: eff_base_def eff_cap_def go_defs)
  ultimately show ?thesis using add_jitter_bounds [OF assms, of ?b w]
    by (simp add: platform_Backoff_def platform_BackoffWithConfig_def go_defs)
qed

text \<open>The pause between two attempts never exceeds six seconds (the cap of five seconds, or the
  backoff with its jitter), whatever \<open>Retry-After\<close> the server sends; and it is never negative when
  the header's seconds, if it holds a number, are at most 9223372036, so that they fit a
  \<open>Duration\<close>.\<close>

theorem retry_delay_bounds:
  assumes "rand_ok env"
  shows "fst (retryDelay pt env a oresp w) \<le> 6 * second
    \<and> ((\<forall>resp secs. oresp = Some resp \<longrightarrow> parse_int64 (trim_space (rs_RetryAfter resp)) = Some secs \<longrightarrow> secs \<le> 9223372036)
       \<longrightarrow> 0 \<le> fst (retryDelay pt env a oresp w))"
proof -
  have b: "0 \<le> fst (platform_Backoff env (int a) v) \<and> fst (platform_Backoff env (int a) v) \<le> 6 * second" for v
    using platform_Backoff_bounds [OF assms, of "int a" v] by (auto simp: go_defs)
  show ?thesis
  proof (cases "\<exists>resp now w1 d. oresp = Some resp \<and> time_now env w = (now, w1)
      \<and> RetryAfterDelay pt (rs_RetryAfter resp) now = Some d \<and> (rs_StatusCode resp = 429 \<or> rs_StatusCode resp = 503)")
    case False
    then have "\<exists>v. retryDelay pt env a oresp w = platform_Backoff env (int a) v"
      by (auto simp: retryDelay_def split: option.splits prod.splits)
    then show ?thesis using b by auto
  next
    case True
    then obtain resp now w1 d where r: "oresp = Some resp"
      and d: "RetryAfterDelay pt (rs_RetryAfter resp) now = Some d"
      and eq: "retryDelay pt env a oresp w = (min d maxBackoff, w1)"
      by (auto simp: retryDelay_def)
    have "0 \<le> d" if "\<And>secs. parse_int64 (trim_space (rs_RetryAfter resp)) = Some secs \<Longrightarrow> secs \<le> 9223372036"
    proof (cases "parse_int64 (trim_space (rs_RetryAfter resp))")
      case None
      then show ?thesis using d by (auto simp: RetryAfterDelay_def Let_def split: if_splits option.splits)
    next
      case (Some secs)
      then have s: "0 \<le> secs" "secs \<le> 9223372036" "d = wrap64 (secs * second)"
        using d that [OF Some] by (auto simp: RetryAfterDelay_def Let_def split: if_splits)
      then have "in_int64 (secs * second)" by (simp add: in_int64_def go_defs)
      then show ?thesis using s by (simp add: go_defs)
    qed
    then show ?thesis using r eq by (auto simp: go_defs)
  qed
qed

theorem retry_delay_bounds_witness:
  "fst (retryDelay (\<lambda>_. None) demo_env 3 (Some \<lparr>rs_StatusCode = 429, rs_RetryAfter = ''120'', rs_Body = None :: unit option\<rparr>) 0) \<le> 6 * second
   \<and> 0 \<le> fst (retryDelay (\<lambda>_. None) demo_env 3 (Some \<lparr>rs_StatusCode = 429, rs_RetryAfter = ''120'', rs_Body = None :: unit option\<rparr>) 0)"
proof -
  have "parse_int64 (trim_space ''120'') = Some 120" by code_simp
  then show ?thesis
    using retry_delay_bounds [OF demo_env_rand_ok, of "\<lambda>_. None" 3 "Some \<lparr>rs_StatusCode = 429, rs_RetryAfter = ''120'', rs_Body = None :: unit option\<rparr>" 0]
    by simp
qed

text \<open>\<open>RetryAfterDelay\<close> reports a negative delay as valid for a large number of seconds: the
  product with \<open>time.Second\<close> wraps at \<open>9223372037\<close>, although negative values are meant to be
  refused.\<close>

theorem retry_after_seconds_wrap:
  "RetryAfterDelay pt ''9223372036'' now = Some 9223372036000000000
   \<and> RetryAfterDelay pt ''9223372037'' now = Some (- 9223372036709551616)"
proof -
  have "parse_int64 (trim_space ''9223372036'') = Some 9223372036"
    "parse_int64 (trim_space ''9223372037'') = Some 9223372037"
    "trim_space ''9223372036'' \<noteq> ''''" "trim_space ''9223372037'' \<noteq> ''''"
    by (simp_all add: parse_int64_def parse_digits_def is_digit_def digit_val_def trim_space_def
        is_space_def in_int64_def)
  then show ?thesis by (simp add: RetryAfterDelay_def Let_def wrap64_def go_defs)
qed

end
