(* ===== verification/Retry_Gcp.thy ===== *)
theory Retry_Gcp
  imports Retry_Transport Apierr
begin

section \<open>retry/gcp: retries with Google-specific error classification\<close>

text \<open>
  \<open>src/go/retry/gcp/gcp.go\<close>. The error types of the Google client libraries, of gRPC, of \<open>oauth2\<close> and
  of \<open>net\<close>, \<open>crypto/tls\<close> and \<open>crypto/x509\<close> are foreign: an opaque payload \<open>'x\<close> with the record of
  views below, one per type assertion or method the code uses. Logging is left out; it changes
  nothing that is modelled.
\<close>

record googleapi_error =
  ga_Code :: int
  ga_Reasons :: "string list"
  ga_RetryAfter :: "string option"

datatype tls_kind =
  CertificateVerification | TlsAlert | RecordHeader | UnknownAuthority | HostnameMismatch | CertificateInvalid

record 'x foreign =
  as_googleapi :: "'x \<Rightarrow> googleapi_error option"
  as_oauth :: "'x \<Rightarrow> (int option \<times> string) option"
  as_net :: "'x \<Rightarrow> bool option"
  as_tls :: "'x \<Rightarrow> tls_kind option"
  as_op :: "'x \<Rightarrow> (bool \<times> bool) option"
  as_dns :: "'x \<Rightarrow> bool option"
  as_errno :: "'x \<Rightarrow> string option"
  as_permanent :: "'x \<Rightarrow> bool option"
  grpc_FromError :: "'x err \<Rightarrow> (32 word \<times> 'x err) option"

definition on_foreign :: "('x \<Rightarrow> 'b option) \<Rightarrow> 'x err \<Rightarrow> 'b option" where
  "on_foreign view n = (case err_kind n of Foreign x \<Rightarrow> view x | _ \<Rightarrow> None)"

text \<open>\<open>errors.AsType[*googleapi.Error]\<close>: the node itself with its fields.\<close>

definition AsGoogleapi :: "'x foreign \<Rightarrow> 'x err \<Rightarrow> ('x err \<times> googleapi_error) option" where
  "AsGoogleapi ops = errors_As (\<lambda>n. map_option (\<lambda>g. (n, g)) (on_foreign (as_googleapi ops) n))"

text \<open>\<open>errors.AsType[net.Error]\<close>, answering \<open>Timeout()\<close>. Of the sentinels of the standard library,
  \<open>context.DeadlineExceeded\<close> and \<open>net.ErrClosed\<close> satisfy the interface too.\<close>

definition net_view :: "'x foreign \<Rightarrow> 'x err \<Rightarrow> bool option" where
  "net_view ops n = (case err_kind n of
      Foreign x \<Rightarrow> as_net ops x
    | Sentinel nm \<Rightarrow> if nm = ''context.DeadlineExceeded'' then Some True
                     else if nm = ''net.ErrClosed'' then Some False else None
    | _ \<Rightarrow> None)"

subsection \<open>Configuration\<close>

record ('x, 'w) gcp_config =
  gc_maxAttempts :: int
  gc_initialBackoff :: int
  gc_maxBackoff :: int
  gc_onRetry :: "(int \<Rightarrow> int \<Rightarrow> 'x err \<Rightarrow> 'w \<Rightarrow> 'w) option"

datatype ('x, 'w) gcp_option =
    WithMaxAttempts int
  | WithInitialBackoff int
  | WithMaxBackoff int
  | WithOnRetry "(int \<Rightarrow> int \<Rightarrow> 'x err \<Rightarrow> 'w \<Rightarrow> 'w) option"

fun apply_gcp_option :: "('x, 'w) gcp_option \<Rightarrow> ('x, 'w) gcp_config \<Rightarrow> ('x, 'w) gcp_config" where
  "apply_gcp_option (WithMaxAttempts n) c = (if n > 0 then c\<lparr>gc_maxAttempts := n\<rparr> else c)"
| "apply_gcp_option (WithInitialBackoff d) c = (if d > 0 then c\<lparr>gc_initialBackoff := d\<rparr> else c)"
| "apply_gcp_option (WithMaxBackoff d) c = (if d > 0 then c\<lparr>gc_maxBackoff := d\<rparr> else c)"
| "apply_gcp_option (WithOnRetry f) c = c\<lparr>gc_onRetry := f\<rparr>"

definition defaultMaxAttempts :: int where [go_defs]: "defaultMaxAttempts = 10"
definition defaultBaseDelay :: int where [go_defs]: "defaultBaseDelay = 100 * millisecond"
definition defaultMaxCap :: int where [go_defs]: "defaultMaxCap = 5 * second"
definition jitterDivisor :: int where [go_defs]: "jitterDivisor = 5"

definition gcp_config_of :: "('x, 'w) gcp_option list \<Rightarrow> ('x, 'w) gcp_config" where
  "gcp_config_of opts = fold apply_gcp_option opts
     \<lparr>gc_maxAttempts = defaultMaxAttempts, gc_initialBackoff = 0, gc_maxBackoff = 0, gc_onRetry = None\<rparr>"

subsection \<open>Classification\<close>

definition isPermanentOAuthErrorCode :: "string \<Rightarrow> bool" where
  "isPermanentOAuthErrorCode code \<longleftrightarrow>
     code = ''invalid_request'' \<or> code = ''invalid_client'' \<or> code = ''invalid_grant''
     \<or> code = ''unauthorized_client'' \<or> code = ''unsupported_grant_type'' \<or> code = ''invalid_scope''"

definition classifyByErrorString :: "'x err \<Rightarrow> 'x err" where
  "classifyByErrorString e =
     (let errStr = err_text e in
      if str_contains errStr ''impersonate:'' \<or> str_contains errStr ''unauthorized_client''
         \<or> str_contains errStr ''invalid_grant'' then Permanent e
      else if str_contains errStr ''oauth2: cannot fetch token'' then
        (if str_contains errStr ''timeout'' \<or> str_contains errStr ''connection refused''
            \<or> str_contains errStr ''connection reset'' then e else Permanent e)
      else Permanent e)"

definition quota_reason :: "string \<Rightarrow> bool" where
  "quota_reason r \<longleftrightarrow> r = ''rateLimitExceeded'' \<or> r = ''userRateLimitExceeded'' \<or> r = ''quotaExceeded''"

definition classifyAPIError :: "'x err \<Rightarrow> googleapi_error \<Rightarrow> 'x err" where
  "classifyAPIError apiErr ga =
     (let isRetryable =
        (if RetryableStatus (ga_Code ga) then True
         else if ga_Code ga = 403 then list_ex quota_reason (ga_Reasons ga)
         else False)
      in if isRetryable then apiErr else Permanent apiErr)"

definition classifyGRPCError :: "32 word \<Rightarrow> 'x err \<Rightarrow> 'x err" where
  "classifyGRPCError code sErr = (if RetryableGRPCCode code then sErr else Permanent sErr)"

definition classifyOAuthRetrieveError :: "'x err \<Rightarrow> int option \<Rightarrow> string \<Rightarrow> 'x err" where
  "classifyOAuthRetrieveError e response errorCode =
     (let statusCode = (case response of None \<Rightarrow> 0 | Some c \<Rightarrow> c) in
      if isPermanentOAuthErrorCode errorCode then Permanent e
      else if RetryableStatus statusCode then e
      else Permanent e)"

definition as_tls_kind :: "'x foreign \<Rightarrow> tls_kind \<Rightarrow> 'x err \<Rightarrow> unit option" where
  "as_tls_kind ops t = errors_As (on_foreign (\<lambda>x. if as_tls ops x = Some t then Some () else None))"

definition isTLSError :: "'x foreign \<Rightarrow> 'x err \<Rightarrow> bool" where
  "isTLSError ops e =
     (if as_tls_kind ops CertificateVerification e \<noteq> None then True
      else if as_tls_kind ops TlsAlert e \<noteq> None then True
      else if as_tls_kind ops RecordHeader e \<noteq> None then True
      else if as_tls_kind ops UnknownAuthority e \<noteq> None then True
      else if as_tls_kind ops HostnameMismatch e \<noteq> None then True
      else as_tls_kind ops CertificateInvalid e \<noteq> None)"

definition transient_errnos :: "string list" where
  "transient_errnos = [''ECONNREFUSED'', ''ECONNRESET'', ''ECONNABORTED'', ''EPIPE'', ''ETIMEDOUT'',
     ''EHOSTUNREACH'', ''ENETUNREACH'']"

definition is_errno :: "'x foreign \<Rightarrow> 'x err \<Rightarrow> string \<Rightarrow> bool" where
  "is_errno ops e errno = list_ex (\<lambda>n. on_foreign (as_errno ops) n = Some errno) (err_nodes e)"

definition isTransientNetError :: "'x foreign \<Rightarrow> 'x err \<Rightarrow> bool \<Rightarrow> bool" where
  "isTransientNetError ops e netTimeout =
     (if netTimeout then True
      else if (case errors_As (on_foreign (as_op ops)) e of Some (t, tmp) \<Rightarrow> t \<or> tmp | None \<Rightarrow> False) then True
      else if (case errors_As (on_foreign (as_dns ops)) e of Some tmp \<Rightarrow> tmp | None \<Rightarrow> False) then True
      else if errors_Is e ''io.EOF'' \<or> errors_Is e ''io.ErrUnexpectedEOF'' \<or> errors_Is e ''net.ErrClosed'' then True
      else list_ex (is_errno ops e) transient_errnos)"

definition classifyNetError :: "'x foreign \<Rightarrow> 'x err \<Rightarrow> bool \<Rightarrow> 'x err" where
  "classifyNetError ops e netTimeout =
     (if isTLSError ops e then Permanent e
      else if isTransientNetError ops e netTimeout then e
      else Permanent e)"

text \<open>\<open>Classify\<close> of a non-nil error. A context that is done stays done with the same error, so its two
  calls of \<open>ctx.Err\<close> are one read.\<close>

definition Classify :: "'w retry_env \<Rightarrow> 'x foreign \<Rightarrow> 'x err \<Rightarrow> 'w \<Rightarrow> 'x err \<times> 'w" where
  "Classify env ops e w =
     (case poll_ctx env w of
        (Some c, w1) \<Rightarrow> (Permanent (ctx_err c), w1)
      | (None, w1) \<Rightarrow>
         ((if errors_Is e ''context.Canceled'' then Permanent e
           else case AsGoogleapi ops e of
               Some (apiErr, ga) \<Rightarrow> classifyAPIError apiErr ga
             | None \<Rightarrow>
             (case grpc_FromError ops e of
               Some (code, sErr) \<Rightarrow> classifyGRPCError code sErr
             | None \<Rightarrow>
             (case errors_As (on_foreign (as_oauth ops)) e of
               Some (response, errorCode) \<Rightarrow> classifyOAuthRetrieveError e response errorCode
             | None \<Rightarrow>
             (case errors_As (net_view ops) e of
               Some netTimeout \<Rightarrow> classifyNetError ops e netTimeout
             | None \<Rightarrow>
               if errors_Is e ''io.EOF'' then e
               else if errors_Is e ''io.ErrUnexpectedEOF'' then e
               else classifyByErrorString e)))), w1))"

subsection \<open>Delays and the retry loop\<close>

definition parseRetryAfter :: "(string \<Rightarrow> int option) \<Rightarrow> string \<Rightarrow> int \<Rightarrow> int option" where
  "parseRetryAfter parse_time header now =
     (let h = trim_space header in
      if h = '''' then None
      else (case parse_int64 h of
          Some secs \<Rightarrow> if secs < 0 then None else Some (wrap64 (secs * second))
        | None \<Rightarrow> (case parse_time h of
            Some date \<Rightarrow> Some (max (time_sub date now) 0)
          | None \<Rightarrow> None)))"

definition gcp_jitter :: "'w retry_env \<Rightarrow> int \<Rightarrow> 'w \<Rightarrow> int \<times> 'w" where
  "gcp_jitter env b w =
     (case (if b sdiv jitterDivisor > 0 then rand_int64n env (b sdiv jitterDivisor) w else (0, w)) of
        (jit, w') \<Rightarrow> (wrap64 (b + jit), w'))"

definition base_delay :: "'w retry_env \<Rightarrow> nat \<Rightarrow> ('x, 'w) gcp_config \<Rightarrow> 'w \<Rightarrow> int \<times> 'w" where
  "base_delay env attempt cfg w =
     (if gc_initialBackoff cfg > 0 \<or> gc_maxBackoff cfg > 0 then
        (let base = (if gc_initialBackoff cfg \<le> 0 then defaultBaseDelay else gc_initialBackoff cfg);
             maxCap = (if gc_maxBackoff cfg \<le> 0 then defaultMaxCap else gc_maxBackoff cfg);
             b = min (wrap64 (2 ^ attempt_shift (int attempt) * base)) maxCap
         in gcp_jitter env b w)
      else retry_Backoff env (int attempt) w)"

definition calculateDelay :: "(string \<Rightarrow> int option) \<Rightarrow> 'w retry_env \<Rightarrow> 'x foreign \<Rightarrow> 'x err \<Rightarrow> nat \<Rightarrow>
    ('x, 'w) gcp_config \<Rightarrow> int \<Rightarrow> 'w \<Rightarrow> int \<times> 'w" where
  "calculateDelay parse_time env ops e attempt cfg now w =
     (case base_delay env attempt cfg w of (delay, w') \<Rightarrow>
       ((case AsGoogleapi ops e of
           Some (_, ga) \<Rightarrow>
             (case ga_RetryAfter ga of
                Some h \<Rightarrow>
                  (case parseRetryAfter parse_time h now of
                     Some headerDelay \<Rightarrow>
                       (let d = max delay headerDelay
                        in if gc_maxBackoff cfg > 0 then min d (gc_maxBackoff cfg) else d)
                   | None \<Rightarrow> delay)
              | None \<Rightarrow> delay)
         | None \<Rightarrow> delay), w'))"

definition attempts_error :: "nat \<Rightarrow> 'x err \<Rightarrow> 'x err" where
  "attempts_error attempt e = wrapf (''gcp operation failed after '' @ show_nat attempt @ '' attempts: '') e"

definition gcp_body :: "(string \<Rightarrow> int option) \<Rightarrow> 'w retry_env \<Rightarrow> 'x foreign \<Rightarrow> ('x, 'w) gcp_config \<Rightarrow>
    ('w \<Rightarrow> ('x err + 'a) \<times> 'w) \<Rightarrow> nat \<Rightarrow> nat \<Rightarrow> 'w \<Rightarrow> ('x err + 'a) option \<times> 'w" where
  "gcp_body parse_time env ops cfg operation k attempt w =
     (case poll_ctx env w of
        (Some c, w1) \<Rightarrow> (Some (Inl (wrapf ''gcp operation failed: '' (ctx_err c))), w1)
      | (None, w1) \<Rightarrow>
        (case operation w1 of
           (Inr v, w2) \<Rightarrow> (Some (Inr v), w2)
         | (Inl opErr, w2) \<Rightarrow>
           (case Classify env ops opErr w2 of (ce, w3) \<Rightarrow>
              if IsPermanent (as_permanent ops) ce then (Some (Inl (attempts_error (attempt + 1) ce)), w3)
              else if k = 0 then (Some (Inl (attempts_error (attempt + 1) ce)), w3)
              else
                (case time_now env w3 of (now, w4) \<Rightarrow>
                 case calculateDelay parse_time env ops ce attempt cfg now w4 of (delay, w5) \<Rightarrow>
                 let w6 = (case gc_onRetry cfg of None \<Rightarrow> w5 | Some f \<Rightarrow> f (int attempt + 1) delay ce w5) in
                 (case wait_timer env delay w6 of
                    (None, w7) \<Rightarrow> (None, w7)
                  | (Some c, w7) \<Rightarrow> (Some (Inl (wrapf ''gcp operation failed: '' (ctx_err c))), w7))))))"

fun gcp_loop :: "(string \<Rightarrow> int option) \<Rightarrow> 'w retry_env \<Rightarrow> 'x foreign \<Rightarrow> ('x, 'w) gcp_config \<Rightarrow>
    ('w \<Rightarrow> ('x err + 'a) \<times> 'w) \<Rightarrow> nat \<Rightarrow> nat \<Rightarrow> 'w \<Rightarrow> ('x err + 'a) option \<times> 'w" where
  "gcp_loop pt env ops cfg operation 0 attempt w = gcp_body pt env ops cfg operation 0 attempt w"
| "gcp_loop pt env ops cfg operation (Suc k) attempt w =
     (case gcp_body pt env ops cfg operation (Suc k) attempt w of
        (Some r, w') \<Rightarrow> (Some r, w')
      | (None, w') \<Rightarrow> gcp_loop pt env ops cfg operation k (Suc attempt) w')"

definition WithRetryVal :: "(string \<Rightarrow> int option) \<Rightarrow> 'w retry_env \<Rightarrow> 'x foreign \<Rightarrow>
    ('w \<Rightarrow> ('x err + 'a) \<times> 'w) \<Rightarrow> ('x, 'w) gcp_option list \<Rightarrow> 'w \<Rightarrow> ('x err + 'a) option \<times> 'w" where
  "WithRetryVal parse_time env ops operation opts w =
     (let cfg = gcp_config_of opts
      in gcp_loop parse_time env ops cfg operation (nat (gc_maxAttempts cfg - 1)) 0 w)"

definition WithRetry :: "(string \<Rightarrow> int option) \<Rightarrow> 'w retry_env \<Rightarrow> 'x foreign \<Rightarrow>
    ('w \<Rightarrow> 'x err option \<times> 'w) \<Rightarrow> ('x, 'w) gcp_option list \<Rightarrow> 'w \<Rightarrow> ('x err + unit) option \<times> 'w" where
  "WithRetry parse_time env ops operation opts w =
     WithRetryVal parse_time env ops
       (\<lambda>w. case operation w of (None, w') \<Rightarrow> (Inr (), w') | (Some e, w') \<Rightarrow> (Inl e, w')) opts w"

lemma gcp_body_0: "fst (gcp_body pt env ops cfg operation 0 a w) \<noteq> None"
  by (auto simp: gcp_body_def split: prod.splits sum.splits option.splits)

interpretation gcp: attempt_loop "gcp_body pt env ops cfg operation" "gcp_loop pt env ops cfg operation"
  for pt env ops cfg operation
  by unfold_locales (auto simp: gcp_body_0)

subsection \<open>What the classification promises\<close>

text \<open>The retry policy in one table: which errors are worth another attempt while the context is live.\<close>

definition transient :: "'x foreign \<Rightarrow> 'x err \<Rightarrow> bool" where
  "transient ops e \<longleftrightarrow> \<not> errors_Is e ''context.Canceled'' \<and>
     (case (AsGoogleapi ops e, grpc_FromError ops e, errors_As (on_foreign (as_oauth ops)) e, errors_As (net_view ops) e) of
        (Some (_, ga), _, _, _) \<Rightarrow>
          RetryableStatus (ga_Code ga) \<or> ga_Code ga = 403 \<and> (\<exists>r \<in> set (ga_Reasons ga). quota_reason r)
      | (None, Some (code, _), _, _) \<Rightarrow> RetryableGRPCCode code
      | (None, None, Some (response, errorCode), _) \<Rightarrow>
          \<not> isPermanentOAuthErrorCode errorCode \<and> (\<exists>c. response = Some c \<and> RetryableStatus c)
      | (None, None, None, Some netTimeout) \<Rightarrow>
          \<not> isTLSError ops e \<and> isTransientNetError ops e netTimeout
      | (None, None, None, None) \<Rightarrow>
          errors_Is e ''io.EOF'' \<or> errors_Is e ''io.ErrUnexpectedEOF''
          \<or> str_contains (err_text e) ''oauth2: cannot fetch token''
            \<and> (str_contains (err_text e) ''timeout'' \<or> str_contains (err_text e) ''connection refused''
               \<or> str_contains (err_text e) ''connection reset'')
            \<and> \<not> (str_contains (err_text e) ''impersonate:'' \<or> str_contains (err_text e) ''unauthorized_client''
               \<or> str_contains (err_text e) ''invalid_grant''))"

text \<open>No node of the error already answers \<open>Permanent()\<close>.\<close>

definition unmarked :: "'x foreign \<Rightarrow> 'x err \<Rightarrow> bool" where
  "unmarked ops e \<longleftrightarrow> list_all (\<lambda>n. permanent_view (as_permanent ops) n = None) (err_nodes e)"

lemma err_nodes_trans: "n \<in> set (err_nodes e) \<Longrightarrow> set (err_nodes n) \<subseteq> set (err_nodes e)"
  by (induction e rule: err_nodes.induct) fastforce

lemma unmarked_not_permanent: "unmarked ops e \<Longrightarrow> \<not> IsPermanent (as_permanent ops) e"
  by (auto simp: IsPermanent_def unmarked_def list_all_iff dest: errors_As_SomeD split: option.splits)

lemma unmarked_node: "unmarked ops e \<Longrightarrow> n \<in> set (err_nodes e) \<Longrightarrow> unmarked ops n"
  using err_nodes_trans [of n e] by (auto simp: unmarked_def list_all_iff)

lemma AsGoogleapi_node: "AsGoogleapi ops e = Some (n, ga) \<Longrightarrow> n \<in> set (err_nodes e)"
  by (auto simp: AsGoogleapi_def dest!: errors_As_SomeD)

lemma RetryableStatus_0: "\<not> RetryableStatus 0"
  by (simp add: RetryableStatus_def)

text \<open>C19. \<open>Classify\<close> implements the retry policy: while the context is live, an error that carries no
  permanent marker yet comes back marked permanent exactly when the policy table does not call it
  transient, so \<open>WithRetryVal\<close> retries exactly the transient errors.\<close>

theorem classify_matches_policy:
  assumes "fst (poll_ctx env w) = None" and "unmarked ops e"
    and "\<And>c s. grpc_FromError ops e = Some (c, s) \<Longrightarrow> unmarked ops s"
  shows "IsPermanent (as_permanent ops) (fst (Classify env ops e w)) \<longleftrightarrow> \<not> transient ops e"
proof -
  note np = unmarked_not_permanent [OF assms(2)]
  obtain w1 where p: "poll_ctx env w = (None, w1)" using assms(1) by (cases "poll_ctx env w") auto
  show ?thesis
  proof (cases "AsGoogleapi ops e")
    case (Some ag)
    then have "\<not> IsPermanent (as_permanent ops) (fst ag)"
      using unmarked_not_permanent [OF unmarked_node [OF assms(2)]] AsGoogleapi_node by (metis prod.collapse)
    then show ?thesis using Some p
      by (cases ag) (auto simp: Classify_def transient_def classifyAPIError_def list_ex_iff)
  next
    case a: None
    show ?thesis
    proof (cases "grpc_FromError ops e")
      case (Some cs)
      then have "\<not> IsPermanent (as_permanent ops) (snd cs)"
        using unmarked_not_permanent [OF assms(3)] by (metis prod.collapse)
      then show ?thesis using Some a p
        by (cases cs) (auto simp: Classify_def transient_def classifyGRPCError_def)
    next
      case g: None
      show ?thesis using a g p np
        by (auto simp: Classify_def transient_def classifyOAuthRetrieveError_def classifyNetError_def
            classifyByErrorString_def Let_def RetryableStatus_0 split: option.splits)
    qed
  qed
qed

definition demo_foreign :: "int foreign" where
  "demo_foreign = \<lparr>as_googleapi = (\<lambda>c. Some \<lparr>ga_Code = c, ga_Reasons = [], ga_RetryAfter = None\<rparr>),
     as_oauth = (\<lambda>_. None), as_net = (\<lambda>_. None), as_tls = (\<lambda>_. None), as_op = (\<lambda>_. None), as_dns = (\<lambda>_. None),
     as_errno = (\<lambda>_. None), as_permanent = (\<lambda>_. None), grpc_FromError = (\<lambda>_. None)\<rparr>"

definition api_error :: "int \<Rightarrow> int err" where
  "api_error c = GoErr (Foreign c) ''api'' []"

lemma demo_foreign_simps [simp]:
  "AsGoogleapi demo_foreign (api_error c) = Some (api_error c, \<lparr>ga_Code = c, ga_Reasons = [], ga_RetryAfter = None\<rparr>)"
  "unmarked demo_foreign (api_error c)" "\<not> errors_Is (api_error c) nm"
  by (simp_all add: AsGoogleapi_def errors_As_def on_foreign_def unmarked_def permanent_view_def
      errors_Is_def demo_foreign_def api_error_def)

theorem classify_matches_policy_witness:
  "IsPermanent (as_permanent demo_foreign) (fst (Classify demo_env demo_foreign (api_error 404) 0))
   \<and> \<not> IsPermanent (as_permanent demo_foreign) (fst (Classify demo_env demo_foreign (api_error 503) 0))"
proof -
  have p: "fst (poll_ctx demo_env 0) = None" by (simp add: demo_env_def)
  have g: "grpc_FromError demo_foreign (api_error c) = Some (k, s) \<Longrightarrow> unmarked demo_foreign s" for c k s
    by (simp add: demo_foreign_def)
  have "\<not> transient demo_foreign (api_error 404)" "transient demo_foreign (api_error 503)"
    by (simp_all add: transient_def RetryableStatus_def)
  moreover have "IsPermanent (as_permanent demo_foreign) (fst (Classify demo_env demo_foreign (api_error c) 0))
      \<longleftrightarrow> \<not> transient demo_foreign (api_error c)" for c
    by (rule classify_matches_policy [OF p demo_foreign_simps(2)], erule g)
  ultimately show ?thesis by blast
qed

text \<open>A marker put on an API error by the caller is lost: \<open>Classify\<close> returns the inner
  \<open>*googleapi.Error\<close>.\<close>

lemma permanent_marker_dropped:
  "\<not> IsPermanent (as_permanent demo_foreign) (fst (Classify demo_env demo_foreign (Permanent (api_error 503)) 0))"
proof -
  have "AsGoogleapi demo_foreign (Permanent (api_error 503))
      = Some (api_error 503, \<lparr>ga_Code = 503, ga_Reasons = [], ga_RetryAfter = None\<rparr>)"
    by (simp add: AsGoogleapi_def errors_As_def on_foreign_def demo_foreign_def api_error_def Permanent_def)
  moreover have "\<not> errors_Is (Permanent (api_error 503)) ''context.Canceled''"
    by (simp add: errors_Is_def Permanent_def api_error_def)
  moreover have "\<not> IsPermanent (as_permanent demo_foreign) (api_error 503)"
    by (rule unmarked_not_permanent) simp
  ultimately show ?thesis by (simp add: Classify_def demo_env_def classifyAPIError_def RetryableStatus_def)
qed

subsection \<open>What the retry loop promises\<close>

lemma apply_gcp_option_attempts: "1 \<le> gc_maxAttempts c \<Longrightarrow> 1 \<le> gc_maxAttempts (apply_gcp_option opt c)"
  by (cases opt) auto

lemma gcp_config_attempts: "1 \<le> gc_maxAttempts (gcp_config_of opts)"
proof -
  have "1 \<le> gc_maxAttempts c \<Longrightarrow> 1 \<le> gc_maxAttempts (fold apply_gcp_option opts c)" for c
    by (induction opts arbitrary: c) (simp_all add: apply_gcp_option_attempts)
  then show ?thesis by (simp add: gcp_config_of_def go_defs)
qed

text \<open>\<open>WithRetryVal\<close> always returns, whatever its options, after at most \<open>maxAttempts\<close> (at least
  one) calls of the operation: after \<open>n\<close> iterations that classified their error as retryable and
  waited, the next one decides, by the context's error before the call, by the operation's
  success, by an error that is permanent or the last allowed one (with the number of attempts in
  its message), or by the context's end during the wait.\<close>

theorem with_retry_outcome:
  "let cfg = gcp_config_of opts; m = gc_maxAttempts cfg in 1 \<le> m \<and>
    (\<exists>n w1 r w'. int n < m
     \<and> run_on (gcp_body pt env ops cfg operation) n (nat (m - 1)) 0 w = Some w1
     \<and> WithRetryVal pt env ops operation opts w = (Some r, w')
     \<and> (case poll_ctx env w1 of
          (Some c, w2) \<Rightarrow> r = Inl (wrapf ''gcp operation failed: '' (ctx_err c)) \<and> w' = w2
        | (None, w2) \<Rightarrow>
          (case operation w2 of
             (Inr v, w3) \<Rightarrow> r = Inr v \<and> w' = w3
           | (Inl e, w3) \<Rightarrow>
             (let ce = fst (Classify env ops e w3) in
              r = Inl (attempts_error (n + 1) ce) \<and> (IsPermanent (as_permanent ops) ce \<or> int n = m - 1)
              \<or> (\<exists>c. r = Inl (wrapf ''gcp operation failed: '' (ctx_err c))) \<and> int n < m - 1))))"
proof -
  define cfg m where "cfg = gcp_config_of opts" and "m = gc_maxAttempts cfg"
  let ?k = "nat (m - 1)"
  have m: "1 \<le> m" using gcp_config_attempts by (simp add: m_def cfg_def)
  obtain n w1 r w' where n: "n \<le> ?k" and run: "run_on (gcp_body pt env ops cfg operation) n ?k 0 w = Some w1"
    and b: "gcp_body pt env ops cfg operation (?k - n) (0 + n) w1 = (Some r, w')"
    and l: "gcp_loop pt env ops cfg operation ?k 0 w = (Some r, w')"
    using gcp.loop_outcome [of ?k pt env ops cfg operation 0 w] by blast
  have k: "?k - n = 0 \<longleftrightarrow> int n = m - 1" using n m by auto
  have out: "case poll_ctx env w1 of
          (Some c, w2) \<Rightarrow> r = Inl (wrapf ''gcp operation failed: '' (ctx_err c)) \<and> w' = w2
        | (None, w2) \<Rightarrow>
          (case operation w2 of
             (Inr v, w3) \<Rightarrow> r = Inr v \<and> w' = w3
           | (Inl e, w3) \<Rightarrow>
             (let ce = fst (Classify env ops e w3) in
              r = Inl (attempts_error (n + 1) ce) \<and> (IsPermanent (as_permanent ops) ce \<or> int n = m - 1)
              \<or> (\<exists>c. r = Inl (wrapf ''gcp operation failed: '' (ctx_err c))) \<and> int n < m - 1))"
    using b n m
    by (auto simp: gcp_body_def Let_def k split: prod.splits sum.splits option.splits if_splits)
  have "WithRetryVal pt env ops operation opts w = (Some r, w')"
    using l by (simp add: WithRetryVal_def Let_def m_def cfg_def)
  moreover have "int n < m" using n m by auto
  ultimately show ?thesis
    using m run out unfolding Let_def m_def cfg_def
    by (intro conjI exI [of _ n] exI [of _ w1] exI [of _ r] exI [of _ w'])
qed

lemma gcp_jitter_eq: "gcp_jitter env b = add_jitter env b"
  by (intro ext) (auto simp: gcp_jitter_def add_jitter_def jitter_def go_defs split: prod.splits)

text \<open>With a maximum backoff configured (one that leaves room for the jitter in an \<open>int64\<close>) and an
  initial backoff whose scaled value fits an \<open>int64\<close>, the delay before the next attempt is
  positive and at most 120\% of that maximum, whatever \<open>Retry-After\<close> header the API error carries.\<close>

theorem calculate_delay_bounds:
  assumes "rand_ok env" and "gc_maxBackoff cfg > 0" and "6 * gc_maxBackoff cfg \<le> 5 * (2 ^ 63 - 1)"
    and "in_int64 (2 ^ attempt_shift (int attempt) * eff_base (gc_initialBackoff cfg))"
  shows "0 < fst (calculateDelay pt env ops e attempt cfg now w)
    \<and> 5 * fst (calculateDelay pt env ops e attempt cfg now w) \<le> 6 * gc_maxBackoff cfg"
proof -
  let ?b = "ideal_ceiling (int attempt) (eff_base (gc_initialBackoff cfg)) (gc_maxBackoff cfg)"
  have "(if gc_initialBackoff cfg \<le> 0 then defaultBaseDelay else gc_initialBackoff cfg) = eff_base (gc_initialBackoff cfg)"
    by (simp add: eff_base_def defaultBaseDelay_def backoffBase_def)
  then have "base_delay env attempt cfg w = add_jitter env ?b w"
    using assms(2,4) by (simp add: base_delay_def Let_def gcp_jitter_eq ideal_ceiling_def)
  moreover have b: "0 < ?b" "?b \<le> gc_maxBackoff cfg"
    using ideal_ceiling_bounds [of "eff_base (gc_initialBackoff cfg)" "gc_maxBackoff cfg" "int attempt"]
      assms(2) eff_pos(1) [of "gc_initialBackoff cfg"] by linarith+
  ultimately have "0 < fst (base_delay env attempt cfg w) \<and> 5 * fst (base_delay env attempt cfg w) \<le> 6 * gc_maxBackoff cfg"
    using add_jitter_bounds [OF assms(1), of ?b w] assms(3) by simp
  then show ?thesis using assms(2)
    by (auto simp: calculateDelay_def Let_def split: prod.splits option.splits)
qed

theorem calculate_delay_bounds_witness:
  "0 < fst (calculateDelay (\<lambda>_. None) demo_env demo_foreign (api_error 503) 4
        (gcp_config_of [WithInitialBackoff (500 * millisecond), WithMaxBackoff (32 * second)]) 0 0)
   \<and> 5 * fst (calculateDelay (\<lambda>_. None) demo_env demo_foreign (api_error 503) 4
        (gcp_config_of [WithInitialBackoff (500 * millisecond), WithMaxBackoff (32 * second)]) 0 0) \<le> 6 * (32 * second)"
  using calculate_delay_bounds [OF demo_env_rand_ok,
      of "gcp_config_of [WithInitialBackoff (500 * millisecond), WithMaxBackoff (32 * second)]" 4 "\<lambda>_. None" demo_foreign "api_error 503" 0 0]
  by (simp add: gcp_config_of_def attempt_shift_def in_int64_def eff_base_def go_defs)

end
