(* ===== verification/Ttl_Cache.thy ===== *)
theory Ttl_Cache
  imports Prelude
begin

section \<open>platform/cache: the TTL cache\<close>

text \<open>
  \<open>src/go/platform/cache/cache.go\<close>. Every method but \<open>Get\<close> holds the lock for its whole body and is
  one atomic operation; \<open>Get\<close> reads under the read lock, looks at the clock without a lock, and
  evicts under the write lock, so it is two atomic parts. \<open>now\<close> is the value of
  \<open>time.Now().UnixNano()\<close> that a method reads. The first part of the theory treats methods run one
  after the other, the second a step relation that interleaves them.
\<close>

record 'v item =
  it_Value :: 'v
  it_Expiration :: int

definition Expired :: "int \<Rightarrow> 'v item \<Rightarrow> bool" where
  "Expired now i = (if it_Expiration i \<le> 0 then False else now > it_Expiration i)"

datatype worker = NoWorker | WorkerRunning | WorkerStopped

record 'v cache =
  c_items :: "string \<rightharpoonup> 'v item"
  c_worker :: worker

definition cache_New :: "int \<Rightarrow> 'v cache" where
  "cache_New cleanupInterval =
     \<lparr>c_items = (\<lambda>_. None), c_worker = (if cleanupInterval > 0 then WorkerRunning else NoWorker)\<rparr>"

definition expiration_of :: "int \<Rightarrow> int \<Rightarrow> int" where
  "expiration_of now duration = (if duration > 0 then wrap64 (now + duration) else 0)"

definition cache_Set :: "int \<Rightarrow> string \<Rightarrow> 'v \<Rightarrow> int \<Rightarrow> 'v cache \<Rightarrow> 'v cache" where
  "cache_Set now key val duration c =
     c\<lparr>c_items := (c_items c)(key \<mapsto> \<lparr>it_Value = val, it_Expiration = expiration_of now duration\<rparr>)\<rparr>"

definition cache_Delete :: "string \<Rightarrow> 'v cache \<Rightarrow> 'v cache" where
  "cache_Delete key c = c\<lparr>c_items := (c_items c)(key := None)\<rparr>"

text \<open>\<open>Get\<close>: the read under the read lock, and what follows it.\<close>

definition get_read :: "string \<Rightarrow> 'v cache \<Rightarrow> 'v item option" where
  "get_read key c = c_items c key"

definition get_finish :: "int \<Rightarrow> string \<Rightarrow> 'v item option \<Rightarrow> 'v cache \<Rightarrow> 'v option \<times> 'v cache" where
  "get_finish now key read c =
     (case read of
        None \<Rightarrow> (None, c)
      | Some item \<Rightarrow>
          if Expired now item then (None, c\<lparr>c_items := (c_items c)(key := None)\<rparr>)
          else (Some (it_Value item), c))"

definition cache_Get :: "int \<Rightarrow> string \<Rightarrow> 'v cache \<Rightarrow> 'v option \<times> 'v cache" where
  "cache_Get now key c = get_finish now key (get_read key c) c"

definition cache_Clear :: "'v cache \<Rightarrow> 'v cache" where
  "cache_Clear c = c\<lparr>c_items := (\<lambda>_. None)\<rparr>"

definition cache_Close :: "'v cache \<Rightarrow> 'v cache" where
  "cache_Close c = (if c_worker c = NoWorker then c else c\<lparr>c_worker := WorkerStopped\<rparr>)"

definition DeleteExpired :: "int \<Rightarrow> 'v cache \<Rightarrow> 'v cache" where
  "DeleteExpired now c = c\<lparr>c_items := (\<lambda>k. case c_items c k of None \<Rightarrow> None
      | Some item \<Rightarrow> if it_Expiration item > 0 \<and> now > it_Expiration item then None else Some item)\<rparr>"

text \<open>What a reader can see at time \<open>t\<close>.\<close>

definition visible :: "int \<Rightarrow> (string \<rightharpoonup> 'v item) \<Rightarrow> string \<Rightarrow> 'v option" where
  "visible t m k = (case m k of None \<Rightarrow> None | Some i \<Rightarrow> if Expired t i then None else Some (it_Value i))"

lemmas cache_ops [go_defs] =
  cache_Set_def cache_Delete_def get_read_def get_finish_def cache_Get_def cache_Clear_def
  cache_Close_def DeleteExpired_def

lemma Expired_mono: "Expired t i \<Longrightarrow> t \<le> u \<Longrightarrow> Expired u i"
  by (auto simp: Expired_def split: if_splits)

lemma fst_cache_Get: "fst (cache_Get t k c) = visible t (c_items c) k"
  by (auto simp: go_defs visible_def split: option.splits)

subsection \<open>Methods in sequence\<close>

datatype 'v cache_op =
    OpSet string 'v int
  | OpGet string
  | OpDelete string
  | OpClear
  | OpDeleteExpired
  | OpClose

fun run_op :: "int \<Rightarrow> 'v cache_op \<Rightarrow> 'v cache \<Rightarrow> 'v cache" where
  "run_op now (OpSet k v d) c = cache_Set now k v d c"
| "run_op now (OpGet k) c = snd (cache_Get now k c)"
| "run_op now (OpDelete k) c = cache_Delete k c"
| "run_op now OpClear c = cache_Clear c"
| "run_op now OpDeleteExpired c = DeleteExpired now c"
| "run_op now OpClose c = cache_Close c"

text \<open>The specification: a map of the last writes. Reads and clean-ups do nothing to it.\<close>

fun spec_op :: "int \<Rightarrow> 'v cache_op \<Rightarrow> (string \<rightharpoonup> 'v item) \<Rightarrow> (string \<rightharpoonup> 'v item)" where
  "spec_op now (OpSet k v d) m = m(k \<mapsto> \<lparr>it_Value = v, it_Expiration = expiration_of now d\<rparr>)"
| "spec_op now (OpGet k) m = m"
| "spec_op now (OpDelete k) m = m(k := None)"
| "spec_op now OpClear m = (\<lambda>_. None)"
| "spec_op now OpDeleteExpired m = m"
| "spec_op now OpClose m = m"

text \<open>
  A store whose operations may forget what has expired is indistinguishable from one that keeps
  everything, as long as the clock does not go back. The locale states this for any operations
  that keep the visible contents from their own time on; the cache is an instance.
\<close>

locale forgetful_store =
  fixes run :: "int \<Rightarrow> 'o \<Rightarrow> 's \<Rightarrow> 's"
    and spec :: "int \<Rightarrow> 'o \<Rightarrow> 'a \<Rightarrow> 'a"
    and see :: "int \<Rightarrow> 's \<Rightarrow> 'k \<Rightarrow> 'v option"
    and spec_see :: "int \<Rightarrow> 'a \<Rightarrow> 'k \<Rightarrow> 'v option"
  assumes op_ok: "(\<And>u k. t \<le> u \<Longrightarrow> see u s k = spec_see u a k) \<Longrightarrow> t \<le> u \<Longrightarrow>
     see u (run t o1 s) k = spec_see u (spec t o1 a) k"
begin

lemma history:
  "sorted (map fst h) \<Longrightarrow> (\<And>u k. see u s k = spec_see u a k) \<Longrightarrow>
   (\<And>t. t \<in> fst ` set h \<Longrightarrow> t \<le> u) \<Longrightarrow>
   see u (fold (\<lambda>(t, o1). run t o1) h s) k = spec_see u (fold (\<lambda>(t, o1). spec t o1) h a) k"
proof (induction h arbitrary: u k rule: rev_induct)
  case Nil
  then show ?case by simp
next
  case (snoc x h)
  obtain t o1 where x: "x = (t, o1)" by fastforce
  let ?s = "fold (\<lambda>(t, o1). run t o1) h s" and ?a = "fold (\<lambda>(t, o1). spec t o1) h a"
  have "see v ?s j = spec_see v ?a j" if "t \<le> v" for v j
    using snoc.prems(1) that by (intro snoc.IH snoc.prems(2)) (force simp: x sorted_append)+
  moreover have "t \<le> u" using snoc.prems(3) [of t] by (simp add: x)
  ultimately show ?case by (simp add: x op_ok)
qed

end

lemma visible_evict:
  "m key = Some i \<Longrightarrow> Expired t i \<Longrightarrow> t \<le> u \<Longrightarrow> visible u (m(key := None)) k = visible u m k"
  by (auto simp: visible_def dest: Expired_mono)

lemma visible_Get: "t \<le> u \<Longrightarrow> visible u (c_items (snd (cache_Get t key c))) k = visible u (c_items c) k"
  by (auto simp: go_defs visible_evict split: option.splits)

lemma visible_DeleteExpired:
  "t \<le> u \<Longrightarrow> visible u (c_items (DeleteExpired t c)) k = visible u (c_items c) k"
  by (auto simp: go_defs visible_def Expired_def split: option.splits)

lemma run_op_visible:
  assumes "\<And>u k. t \<le> u \<Longrightarrow> visible u (c_items c) k = visible u m k" and "t \<le> u"
  shows "visible u (c_items (run_op t opr c)) k = visible u (spec_op t opr m) k"
  using assms
  by (cases opr) (auto simp: visible_Get visible_DeleteExpired, auto simp: go_defs visible_def)

interpretation cst: forgetful_store run_op spec_op "\<lambda>t c. visible t (c_items c)" visible
  by unfold_locales (rule run_op_visible)

text \<open>C13. For every history of cache calls made one after the other with a clock that does not go back,
  what \<open>Get\<close> returns is decided by the last call that wrote, deleted or cleared the key: the value
  of a \<open>Set\<close> whose duration is not positive or has not run out (the deadline computed in 64 bits),
  and nothing otherwise. Evictions by \<open>Get\<close> and by \<open>DeleteExpired\<close> are never visible.\<close>

theorem cache_get_is_last_live_write:
  assumes "sorted (map fst h)" and "\<And>t. t \<in> fst ` set h \<Longrightarrow> t \<le> now"
  shows "fst (cache_Get now k (fold (\<lambda>(t, opr). run_op t opr) h (cache_New interval)))
     = visible now (fold (\<lambda>(t, opr). spec_op t opr) h (\<lambda>_. None)) k"
  unfolding fst_cache_Get using assms
  by (intro cst.history) (auto simp: cache_New_def)

theorem cache_get_is_last_live_write_witness:
  "fst (cache_Get 25 ''k'' (fold (\<lambda>(t, opr). run_op t opr)
      [(1, OpSet ''k'' (7 :: nat) 10), (15, OpDeleteExpired), (16, OpSet ''k'' 8 10), (20, OpGet ''j'')] (cache_New 0))) = Some 8"
proof -
  let ?h = "[(1, OpSet ''k'' (7 :: nat) 10), (15, OpDeleteExpired), (16, OpSet ''k'' 8 10), (20, OpGet ''j'')]"
  have "fst (cache_Get 25 ''k'' (fold (\<lambda>(t, opr). run_op t opr) ?h (cache_New 0)))
      = visible 25 (fold (\<lambda>(t, opr). spec_op t opr) ?h (\<lambda>_. None)) ''k''"
    by (rule cache_get_is_last_live_write) auto
  then show ?thesis by (simp add: visible_def Expired_def expiration_of_def wrap64_def)
qed

subsection \<open>Methods interleaved\<close>

text \<open>
  The state of a run: the cache, the clock, the \<open>Get\<close> calls that have read but not finished (by
  thread), and, as history, every item ever stored. Between the two parts of a \<open>Get\<close> any other step
  may happen; the clock is read when the second part begins.
\<close>

record 'v cache_run =
  cr_cache :: "'v cache"
  cr_now :: int
  cr_reads :: "nat \<rightharpoonup> string \<times> 'v item option"
  cr_written :: "(string \<times> 'v item) set"

datatype 'v cache_event =
    EvTime int
  | EvSet string 'v int
  | EvGetRead nat string
  | EvGetDone nat string "'v option"
  | EvDelete string
  | EvClear
  | EvDeleteExpired
  | EvWorkerTick
  | EvClose

inductive cache_step :: "'v cache_run \<Rightarrow> 'v cache_event \<Rightarrow> 'v cache_run \<Rightarrow> bool" where
  time: "cr_now s \<le> t \<Longrightarrow> cache_step s (EvTime t) (s\<lparr>cr_now := t\<rparr>)"
| set: "cache_step s (EvSet k v d) (s\<lparr>cr_cache := cache_Set (cr_now s) k v d (cr_cache s),
      cr_written := insert (k, \<lparr>it_Value = v, it_Expiration = expiration_of (cr_now s) d\<rparr>) (cr_written s)\<rparr>)"
| get_read: "cr_reads s th = None \<Longrightarrow>
    cache_step s (EvGetRead th k) (s\<lparr>cr_reads := (cr_reads s)(th \<mapsto> (k, get_read k (cr_cache s)))\<rparr>)"
| get_done: "cr_reads s th = Some (k, read) \<Longrightarrow> get_finish (cr_now s) k read (cr_cache s) = (r, c') \<Longrightarrow>
    cache_step s (EvGetDone th k r) (s\<lparr>cr_cache := c', cr_reads := (cr_reads s)(th := None)\<rparr>)"
| delete: "cache_step s (EvDelete k) (s\<lparr>cr_cache := cache_Delete k (cr_cache s)\<rparr>)"
| clear: "cache_step s EvClear (s\<lparr>cr_cache := cache_Clear (cr_cache s)\<rparr>)"
| delete_expired: "cache_step s EvDeleteExpired (s\<lparr>cr_cache := DeleteExpired (cr_now s) (cr_cache s)\<rparr>)"
| worker_tick: "c_worker (cr_cache s) = WorkerRunning \<Longrightarrow>
    cache_step s EvWorkerTick (s\<lparr>cr_cache := DeleteExpired (cr_now s) (cr_cache s)\<rparr>)"
| close: "cache_step s EvClose (s\<lparr>cr_cache := cache_Close (cr_cache s)\<rparr>)"

inductive_cases get_done_cases: "cache_step s (EvGetDone th k r) s'"

definition cache_start :: "int \<Rightarrow> int \<Rightarrow> 'v cache_run" where
  "cache_start interval now = \<lparr>cr_cache = cache_New interval, cr_now = now, cr_reads = (\<lambda>_. None), cr_written = {}\<rparr>"

inductive cache_trace :: "'v cache_run \<Rightarrow> 'v cache_event list \<Rightarrow> 'v cache_run \<Rightarrow> bool" where
  nil: "cache_trace s [] s"
| step: "cache_step s e s1 \<Longrightarrow> cache_trace s1 es s2 \<Longrightarrow> cache_trace s (e # es) s2"

definition from_writes :: "'v cache_run \<Rightarrow> bool" where
  "from_writes s \<longleftrightarrow>
     (\<forall>k i. c_items (cr_cache s) k = Some i \<longrightarrow> (k, i) \<in> cr_written s)
   \<and> (\<forall>th k i. cr_reads s th = Some (k, Some i) \<longrightarrow> (k, i) \<in> cr_written s)"

lemma from_writes_step: "cache_step s e s' \<Longrightarrow> from_writes s \<Longrightarrow> from_writes s'"
proof (induction rule: cache_step.induct)
  case (get_done s th k read r c')
  then show ?case
    by (auto simp: from_writes_def get_finish_def split: option.splits if_splits)
qed (auto simp: from_writes_def cache_Set_def cache_Delete_def cache_Clear_def DeleteExpired_def
    cache_Close_def get_read_def split: option.splits if_splits)

lemma from_writes_trace: "cache_trace s es s' \<Longrightarrow> from_writes s \<Longrightarrow> from_writes s'"
  by (induction rule: cache_trace.induct) (auto intro: from_writes_step)

text \<open>Under any interleaving of cache calls, clean-ups and clock advances, a \<open>Get\<close> that reports a hit
  returns a value that some \<open>Set\<close> stored under that very key, and which had not expired when the
  \<open>Get\<close> looked at the clock.\<close>

theorem concurrent_get_sound:
  assumes "cache_trace (cache_start interval t0) es s" and "cache_step s (EvGetDone th k (Some v)) s'"
  shows "\<exists>i. (k, i) \<in> cr_written s \<and> it_Value i = v \<and> \<not> Expired (cr_now s) i"
proof -
  have "from_writes s"
    using from_writes_trace [OF assms(1)] by (simp add: from_writes_def cache_start_def cache_New_def)
  then show ?thesis using assms(2)
    by (elim get_done_cases) (auto simp: from_writes_def get_finish_def split: option.splits if_splits, blast)
qed

theorem concurrent_get_sound_witness:
  "\<exists>s. cache_trace (cache_start 0 0) [EvSet ''k'' True 5, EvGetRead 1 ''k''] s
     \<and> (\<exists>s'. cache_step s (EvGetDone 1 ''k'' (Some True)) s')
     \<and> (\<exists>i. (''k'', i) \<in> cr_written s \<and> it_Value i \<and> \<not> Expired (cr_now s) i)"
proof -
  let ?s1 = "cache_start 0 0 :: bool cache_run"
  let ?s2 = "?s1\<lparr>cr_cache := cache_Set (cr_now ?s1) ''k'' True 5 (cr_cache ?s1),
      cr_written := insert (''k'', \<lparr>it_Value = True, it_Expiration = expiration_of (cr_now ?s1) 5\<rparr>) (cr_written ?s1)\<rparr>"
  let ?s3 = "?s2\<lparr>cr_reads := (cr_reads ?s2)(1 \<mapsto> (''k'', get_read ''k'' (cr_cache ?s2)))\<rparr>"
  have tr: "cache_trace ?s1 [EvSet ''k'' True 5, EvGetRead 1 ''k''] ?s3"
    by (rule cache_trace.step [OF cache_step.set], rule cache_trace.step [OF cache_step.get_read],
        simp add: cache_start_def, rule cache_trace.nil)
  obtain s' where st: "cache_step ?s3 (EvGetDone 1 ''k'' (Some True)) s'"
  proof
    show "cache_step ?s3 (EvGetDone 1 ''k'' (Some True)) (?s3\<lparr>cr_cache := cr_cache ?s3, cr_reads := (cr_reads ?s3)(1 := None)\<rparr>)"
      by (rule cache_step.get_done [where read = "get_read ''k'' (cr_cache ?s2)"])
        (simp_all add: get_finish_def get_read_def cache_Set_def cache_start_def Expired_def
          expiration_of_def wrap64_def)
  qed
  have "\<exists>i. (''k'', i) \<in> cr_written ?s3 \<and> it_Value i = True \<and> \<not> Expired (cr_now ?s3) i"
    by (rule concurrent_get_sound [OF tr st])
  with tr st show ?thesis unfolding eq_True by blast
qed

text \<open>The eviction in \<open>Get\<close> is not atomic with its read: a \<open>Get\<close> that read an expired item can
  delete the fresh item that another goroutine stored in between. In this run the second \<open>Set\<close>
  (with 1000 ns to live, never deleted or overwritten) is lost although its item has not expired.\<close>

theorem get_evicts_fresh_item:
  "\<exists>s. cache_trace (cache_start 0 100)
       [EvSet ''k'' (1 :: nat) 10, EvTime 200, EvGetRead 0 ''k'', EvSet ''k'' 2 1000, EvGetDone 0 ''k'' None] s
     \<and> (''k'', \<lparr>it_Value = 2, it_Expiration = 1200\<rparr>) \<in> cr_written s
     \<and> \<not> Expired (cr_now s) \<lparr>it_Value = 2 :: nat, it_Expiration = 1200\<rparr>
     \<and> visible (cr_now s) (c_items (cr_cache s)) ''k'' = None"
proof -
  let ?i1 = "\<lparr>it_Value = 1 :: nat, it_Expiration = 110\<rparr>" and ?i2 = "\<lparr>it_Value = 2 :: nat, it_Expiration = 1200\<rparr>"
  let ?c = "\<lambda>m. \<lparr>c_items = m, c_worker = NoWorker\<rparr>"
  let ?st = "\<lambda>m t r wr. \<lparr>cr_cache = ?c m, cr_now = t, cr_reads = r, cr_written = wr\<rparr>"
  let ?e = "\<lambda>_. None" and ?r = "[0 \<mapsto> (''k'', Some ?i1)]"
  have 1: "cache_step (cache_start 0 100) (EvSet ''k'' 1 10) (?st [''k'' \<mapsto> ?i1] 100 ?e {(''k'', ?i1)})"
    using cache_step.set [of "cache_start 0 100" "''k''" "1 :: nat" 10]
    by (simp add: cache_start_def cache_New_def cache_Set_def expiration_of_def wrap64_def)
  have 2: "cache_step (?st m 100 ?e wr) (EvTime 200) (?st m 200 ?e wr)" for m wr
    using cache_step.time [of "?st m 100 ?e wr" 200] by simp
  have 3: "cache_step (?st [''k'' \<mapsto> ?i1] 200 ?e wr) (EvGetRead 0 ''k'') (?st [''k'' \<mapsto> ?i1] 200 ?r wr)" for wr
    using cache_step.get_read [of "?st [''k'' \<mapsto> ?i1] 200 ?e wr" 0 "''k''"] by (simp add: get_read_def)
  have 4: "cache_step (?st [''k'' \<mapsto> ?i1] 200 ?r wr) (EvSet ''k'' 2 1000) (?st [''k'' \<mapsto> ?i2] 200 ?r (insert (''k'', ?i2) wr))" for wr
    using cache_step.set [of "?st [''k'' \<mapsto> ?i1] 200 ?r wr" "''k''" 2 1000]
    by (simp add: cache_Set_def expiration_of_def wrap64_def)
  have 5: "cache_step (?st [''k'' \<mapsto> ?i2] 200 ?r wr) (EvGetDone 0 ''k'' None) (?st ?e 200 ?e wr)" for wr
    using cache_step.get_done [of "?st [''k'' \<mapsto> ?i2] 200 ?r wr" 0 "''k''" "Some ?i1"]
    by (simp add: get_finish_def Expired_def)
  show ?thesis
    by (rule exI [of _ "?st ?e 200 ?e {(''k'', ?i2), (''k'', ?i1)}"], intro conjI)
      (rule cache_trace.step [OF 1] cache_trace.step [OF 2] cache_trace.step [OF 3] cache_trace.step [OF 4]
        cache_trace.step [OF 5] cache_trace.nil | simp add: Expired_def visible_def)+
qed

end
