(* ===== verification/Workflow_Engine.thy ===== *)
theory Workflow_Engine
  imports Go_Errors
begin

section \<open>platform/workflow: sequential steps with hooks\<close>

text \<open>
  \<open>src/go/platform/workflow/workflow.go\<close>. A workflow runs its steps in order until one fails or the
  context is done. Step bodies, skip predicates and hooks are callbacks over the outside world; a
  body may return or panic (with the text the recovered value prints), the other callbacks
  return.
\<close>

definition ErrNilRun :: "'x err" where
  "ErrNilRun = sentinel ''workflow.ErrNilRun'' ''nil step run function''"

definition ErrPanicRecovered :: "'x err" where
  "ErrPanicRecovered = sentinel ''workflow.ErrPanicRecovered'' ''panic recovered''"

type_synonym step_status = string

definition StatusSuccess :: step_status where [go_defs]: "StatusSuccess = ''success''"
definition StepSkipped :: step_status where [go_defs]: "StepSkipped = ''skipped''"
definition StepFailed :: step_status where [go_defs]: "StepFailed = ''failed''"
definition StatusNotRun :: step_status where [go_defs]: "StatusNotRun = ''not_run''"

datatype 'x run_outcome = Returned "'x err option" | Panicked string

record ('x, 'w) wf_step =
  st_Name :: string
  st_Description :: string
  st_Run :: "('w \<Rightarrow> 'x run_outcome \<times> 'w) option"
  st_Skip :: "('w \<Rightarrow> bool \<times> 'w) option"

record ('x, 'w) hooks =
  OnWorkflowStart :: "(string \<Rightarrow> nat \<Rightarrow> 'w \<Rightarrow> 'w) option"
  OnStepStart :: "(nat \<Rightarrow> nat \<Rightarrow> ('x, 'w) wf_step \<Rightarrow> 'w \<Rightarrow> 'w) option"
  OnStepDone :: "(nat \<Rightarrow> nat \<Rightarrow> ('x, 'w) wf_step \<Rightarrow> int \<Rightarrow> 'w \<Rightarrow> 'w) option"
  OnStepFail :: "(nat \<Rightarrow> nat \<Rightarrow> ('x, 'w) wf_step \<Rightarrow> 'x err \<Rightarrow> int \<Rightarrow> 'w \<Rightarrow> 'w) option"
  OnStepSkip :: "(nat \<Rightarrow> nat \<Rightarrow> ('x, 'w) wf_step \<Rightarrow> 'w \<Rightarrow> 'w) option"
  OnWorkflowDone :: "(string \<Rightarrow> int \<Rightarrow> 'x err option \<Rightarrow> 'w \<Rightarrow> 'w) option"

definition no_hooks :: "('x, 'w) hooks" where
  "no_hooks = \<lparr>OnWorkflowStart = None, OnStepStart = None, OnStepDone = None, OnStepFail = None,
     OnStepSkip = None, OnWorkflowDone = None\<rparr>"

record ('x, 'w) step_result =
  sr_Step :: "('x, 'w) wf_step"
  sr_Status :: step_status
  sr_Duration :: int
  sr_Err :: "'x err option"

record ('x, 'w) wf_result =
  wr_Name :: string
  wr_Duration :: int
  wr_StepResults :: "('x, 'w) step_result list"
  wr_Err :: "'x err option"

record ('x, 'w) workflow =
  wf_Name :: string
  wf_Steps :: "('x, 'w) wf_step list"
  wf_hooks :: "('x, 'w) hooks"

definition WithHooks :: "('x, 'w) hooks \<Rightarrow> ('x, 'w) workflow \<Rightarrow> ('x, 'w) workflow" where
  "WithHooks h wfl = wfl\<lparr>wf_hooks := h\<rparr>"

definition workflow_New :: "string \<Rightarrow> (('x, 'w) workflow \<Rightarrow> ('x, 'w) workflow) list \<Rightarrow> ('x, 'w) workflow" where
  "workflow_New nm opts = fold (\<lambda>opt wfl. opt wfl) opts \<lparr>wf_Name = nm, wf_Steps = [], wf_hooks = no_hooks\<rparr>"

definition AddStep :: "('x, 'w) wf_step \<Rightarrow> ('x, 'w) workflow \<Rightarrow> ('x, 'w) workflow" where
  "AddStep s wfl = wfl\<lparr>wf_Steps := wf_Steps wfl @ [s]\<rparr>"

definition workflow_Add :: "string \<Rightarrow> ('w \<Rightarrow> 'x run_outcome \<times> 'w) option \<Rightarrow> ('x, 'w) workflow \<Rightarrow> ('x, 'w) workflow" where
  "workflow_Add nm run wfl =
     AddStep \<lparr>st_Name = nm, st_Description = '''', st_Run = run, st_Skip = None\<rparr> wfl"

definition runStepWithRecovery :: "('w \<Rightarrow> 'x run_outcome \<times> 'w) option \<Rightarrow> 'w \<Rightarrow> 'x err option \<times> 'w" where
  "runStepWithRecovery run w =
     (case run of
        None \<Rightarrow> (Some ErrNilRun, w)
      | Some f \<Rightarrow> (case f w of
            (Returned oe, w') \<Rightarrow> (oe, w')
          | (Panicked r, w') \<Rightarrow>
              (Some (errorf (err_text (ErrPanicRecovered :: 'x err) @ '': '' @ r) [ErrPanicRecovered]), w')))"

definition not_run :: "('x, 'w) wf_step \<Rightarrow> ('x, 'w) step_result" where
  "not_run s = \<lparr>sr_Step = s, sr_Status = StatusNotRun, sr_Duration = 0, sr_Err = None\<rparr>"

definition skips :: "('x, 'w) wf_step \<Rightarrow> 'w \<Rightarrow> bool \<times> 'w" where
  "skips s w = (case st_Skip s of None \<Rightarrow> (False, w) | Some p \<Rightarrow> p w)"

text \<open>The loop of \<open>RunWithResult\<close> from step \<open>i\<close> on: the results it appends, \<open>res.Err\<close>, and the world.\<close>

fun run_steps :: "'w env \<Rightarrow> ('x, 'w) hooks \<Rightarrow> nat \<Rightarrow> nat \<Rightarrow> ('x, 'w) wf_step list \<Rightarrow> 'w \<Rightarrow>
    (('x, 'w) step_result list \<times> 'x err option) \<times> 'w" where
  "run_steps env h tot i [] w = (([], None), w)"
| "run_steps env h tot i (s # ss) w =
     (case poll_ctx env w of
        (Some c, w1) \<Rightarrow>
          ((map not_run (s # ss), Some (wrapf ''workflow halted: context canceled: '' (ctx_err c))), w1)
      | (None, w1) \<Rightarrow>
        (case skips s w1 of
           (True, w2) \<Rightarrow>
             (let w3 = (case OnStepSkip h of None \<Rightarrow> w2 | Some f \<Rightarrow> f (i + 1) tot s w2) in
              case run_steps env h tot (i + 1) ss w3 of ((rs, e), w4) \<Rightarrow>
                ((\<lparr>sr_Step = s, sr_Status = StepSkipped, sr_Duration = 0, sr_Err = None\<rparr> # rs, e), w4))
         | (False, w2) \<Rightarrow>
             (let w3 = (case OnStepStart h of None \<Rightarrow> w2 | Some f \<Rightarrow> f (i + 1) tot s w2) in
              case time_now env w3 of (stepStart, w4) \<Rightarrow>
              case runStepWithRecovery (st_Run s) w4 of (stepErr, w5) \<Rightarrow>
              case time_now env w5 of (t, w6) \<Rightarrow>
              let stepDuration = time_sub t stepStart in
              (case stepErr of
                 Some e \<Rightarrow>
                   (let wrappedErr = wrapf (''step '' @ [CHR 0x27] @ st_Name s @ [CHR 0x27] @ '' failed: '') e;
                        w7 = (case OnStepFail h of None \<Rightarrow> w6 | Some f \<Rightarrow> f (i + 1) tot s e stepDuration w6)
                    in ((\<lparr>sr_Step = s, sr_Status = StepFailed, sr_Duration = stepDuration, sr_Err = Some wrappedErr\<rparr>
                         # map not_run ss, Some wrappedErr), w7))
               | None \<Rightarrow>
                   (let w7 = (case OnStepDone h of None \<Rightarrow> w6 | Some f \<Rightarrow> f (i + 1) tot s stepDuration w6) in
                    case run_steps env h tot (i + 1) ss w7 of ((rs, e), w8) \<Rightarrow>
                      ((\<lparr>sr_Step = s, sr_Status = StatusSuccess, sr_Duration = stepDuration, sr_Err = None\<rparr> # rs, e), w8))))))"

definition RunWithResult :: "'w env \<Rightarrow> ('x, 'w) workflow \<Rightarrow> 'w \<Rightarrow> ('x, 'w) wf_result \<times> 'w" where
  "RunWithResult env wfl w =
     (case time_now env w of (startTime, w1) \<Rightarrow>
      let tot = length (wf_Steps wfl);
          w2 = (case OnWorkflowStart (wf_hooks wfl) of None \<Rightarrow> w1 | Some f \<Rightarrow> f (wf_Name wfl) tot w1) in
      case run_steps env (wf_hooks wfl) tot 0 (wf_Steps wfl) w2 of ((rs, e), w3) \<Rightarrow>
      case time_now env w3 of (t, w4) \<Rightarrow>
      let d = time_sub t startTime;
          w5 = (case OnWorkflowDone (wf_hooks wfl) of None \<Rightarrow> w4 | Some f \<Rightarrow> f (wf_Name wfl) d e w4) in
      (\<lparr>wr_Name = wf_Name wfl, wr_Duration = d, wr_StepResults = rs, wr_Err = e\<rparr>, w5))"

definition workflow_Run :: "'w env \<Rightarrow> ('x, 'w) workflow \<Rightarrow> 'w \<Rightarrow> 'x err option \<times> 'w" where
  "workflow_Run env wfl w = (case RunWithResult env wfl w of (res, w') \<Rightarrow> (wr_Err res, w'))"

fun dry_steps :: "('x, 'w) wf_step list \<Rightarrow> 'w \<Rightarrow> ('x, 'w) step_result list \<times> 'w" where
  "dry_steps [] w = ([], w)"
| "dry_steps (s # ss) w =
     (case skips s w of (b, w1) \<Rightarrow>
      case dry_steps ss w1 of (rs, w2) \<Rightarrow>
        (\<lparr>sr_Step = s, sr_Status = (if b then StepSkipped else StatusSuccess), sr_Duration = 0, sr_Err = None\<rparr> # rs, w2))"

definition DryRun :: "('x, 'w) workflow \<Rightarrow> 'w \<Rightarrow> ('x, 'w) wf_result \<times> 'w" where
  "DryRun wfl w = (case dry_steps (wf_Steps wfl) w of (rs, w') \<Rightarrow>
     (\<lparr>wr_Name = wf_Name wfl, wr_Duration = 0, wr_StepResults = rs, wr_Err = None\<rparr>, w'))"

subsection \<open>The shape of a result\<close>

lemma step_statuses_distinct [simp]:
  "StatusSuccess \<noteq> StepSkipped" "StatusSuccess \<noteq> StepFailed" "StatusSuccess \<noteq> StatusNotRun"
  "StepSkipped \<noteq> StatusSuccess" "StepSkipped \<noteq> StepFailed" "StepSkipped \<noteq> StatusNotRun"
  "StepFailed \<noteq> StatusSuccess" "StepFailed \<noteq> StepSkipped" "StepFailed \<noteq> StatusNotRun"
  "StatusNotRun \<noteq> StatusSuccess" "StatusNotRun \<noteq> StepSkipped" "StatusNotRun \<noteq> StepFailed"
  by (simp_all add: go_defs)

text \<open>A run in order: steps that succeeded or were skipped, then either nothing more and no error, or
  the failed step with its error, or a halt by the context, and after these only steps that did not
  run.\<close>

fun well_shaped :: "('x, 'w) step_result list \<Rightarrow> 'x err option \<Rightarrow> bool" where
  "well_shaped [] oe \<longleftrightarrow> oe = None"
| "well_shaped (r # rs) oe \<longleftrightarrow>
     (if sr_Status r \<in> {StatusSuccess, StepSkipped} then sr_Err r = None \<and> well_shaped rs oe
      else if sr_Status r = StepFailed then
        sr_Err r = oe \<and> oe \<noteq> None \<and> list_all (\<lambda>r'. sr_Status r' = StatusNotRun \<and> sr_Err r' = None) rs
      else sr_Status r = StatusNotRun \<and> (\<exists>c. oe = Some (wrapf ''workflow halted: context canceled: '' (ctx_err c)))
        \<and> list_all (\<lambda>r'. sr_Status r' = StatusNotRun \<and> sr_Err r' = None) (r # rs))"

lemma not_run_simps [simp]:
  "sr_Status (not_run s) = StatusNotRun" "sr_Err (not_run s) = None" "sr_Step (not_run s) = s"
  by (simp_all add: not_run_def)

lemma map_not_run [simp]:
  "map sr_Step (map not_run ss) = ss"
  "list_all (\<lambda>r'. sr_Status r' = StatusNotRun \<and> sr_Err r' = None) (map not_run ss)"
  by (simp_all add: list.map_comp comp_def list_all_iff)

lemma run_steps_shape:
  "run_steps env h tot i ss w = ((rs, oe), w') \<Longrightarrow> map sr_Step rs = ss \<and> well_shaped rs oe"
proof (induction ss arbitrary: i w rs oe w')
  case Nil
  then show ?case by simp
next
  case (Cons s ss)
  show ?case
  proof (cases "poll_ctx env w")
    case (Pair oc w1)
    show ?thesis
    proof (cases oc)
      case (Some c)
      then show ?thesis using Cons.prems Pair by (auto simp: comp_def list_all_iff)
    next
      case None
      then show ?thesis using Cons.prems Pair
        by (auto simp: Let_def comp_def split: prod.splits bool.splits option.splits dest!: Cons.IH)
    qed
  qed
qed

lemma well_shaped_no_error:
  "well_shaped rs oe \<Longrightarrow> oe = None \<longleftrightarrow> list_all (\<lambda>r. sr_Status r \<in> {StatusSuccess, StepSkipped}) rs"
  by (induction rs oe rule: well_shaped.induct) (auto split: if_splits)

lemma RunWithResult_steps:
  obtains w2 w3 where "run_steps env (wf_hooks wfl) (length (wf_Steps wfl)) 0 (wf_Steps wfl) w2 =
      ((wr_StepResults (fst (RunWithResult env wfl w)), wr_Err (fst (RunWithResult env wfl w))), w3)"
proof -
  obtain t0 w1 where t0: "time_now env w = (t0, w1)" by fastforce
  define w2 where "w2 = (case OnWorkflowStart (wf_hooks wfl) of None \<Rightarrow> w1
    | Some f \<Rightarrow> f (wf_Name wfl) (length (wf_Steps wfl)) w1)"
  obtain rs e w3 where r: "run_steps env (wf_hooks wfl) (length (wf_Steps wfl)) 0 (wf_Steps wfl) w2 = ((rs, e), w3)"
    by (metis prod.exhaust)
  obtain t w4 where "time_now env w3 = (t, w4)" by fastforce
  then have "wr_StepResults (fst (RunWithResult env wfl w)) = rs \<and> wr_Err (fst (RunWithResult env wfl w)) = e"
    using t0 r by (simp add: RunWithResult_def Let_def w2_def)
  then show thesis using r that by blast
qed

text \<open>C16. Whatever its steps, hooks and context do, a workflow run reports exactly one result per step,
  in step order, of a fixed shape: some steps succeeded or were skipped; then either that was all
  and there is no error, or one failed step carries the workflow's error, or the context halted
  the run; and every step after that is reported as not run. The error is nil exactly when all
  steps succeeded or were skipped, and \<open>Run\<close> returns that error.\<close>

theorem workflow_result_shape:
  "map sr_Step (wr_StepResults (fst (RunWithResult env wfl w))) = wf_Steps wfl
   \<and> well_shaped (wr_StepResults (fst (RunWithResult env wfl w))) (wr_Err (fst (RunWithResult env wfl w)))
   \<and> (wr_Err (fst (RunWithResult env wfl w)) = None \<longleftrightarrow>
        list_all (\<lambda>r. sr_Status r \<in> {StatusSuccess, StepSkipped}) (wr_StepResults (fst (RunWithResult env wfl w))))
   \<and> fst (workflow_Run env wfl w) = wr_Err (fst (RunWithResult env wfl w))"
proof -
  have shape: "map sr_Step (wr_StepResults (fst (RunWithResult env wfl w))) = wf_Steps wfl
      \<and> well_shaped (wr_StepResults (fst (RunWithResult env wfl w))) (wr_Err (fst (RunWithResult env wfl w)))"
    by (rule RunWithResult_steps [of env wfl w]) (erule run_steps_shape)
  have run: "fst (workflow_Run env wfl w) = wr_Err (fst (RunWithResult env wfl w))"
    by (simp add: workflow_Run_def split: prod.splits)
  show ?thesis using shape run well_shaped_no_error [OF conjunct2 [OF shape]] by (intro conjI) simp_all
qed

text \<open>A failure halts the run: once the steps so far end in an error, steps appended behind them are
  reported as not run and none of their bodies, skip predicates or hooks is called (the outside
  world is left exactly as the failing prefix left it).\<close>

theorem workflow_halts_at_first_failure:
  assumes "run_steps env h tot i ss w = ((rs, Some e), w')"
  shows "run_steps env h tot i (ss @ post) w = ((rs @ map not_run post, Some e), w')"
  using assms
proof (induction ss arbitrary: i w rs)
  case Nil
  then show ?case by simp
next
  case (Cons s ss)
  from Cons.prems show ?case
    by (auto simp: Let_def split: prod.splits bool.splits option.splits dest!: Cons.IH)
qed

definition idle_env :: "unit env" where
  "idle_env = \<lparr>poll_ctx = (\<lambda>w. (None, w)), time_now = (\<lambda>w. (0, w))\<rparr>"

theorem workflow_halts_at_first_failure_witness:
  "run_steps idle_env no_hooks 2 0 [\<lparr>st_Name = ''a'', st_Description = '''', st_Run = None, st_Skip = None\<rparr>,
      \<lparr>st_Name = ''b'', st_Description = '''', st_Run = Some (\<lambda>w. (Panicked ''x'', w)), st_Skip = None\<rparr>] ()
   = (([\<lparr>sr_Step = \<lparr>st_Name = ''a'', st_Description = '''', st_Run = None, st_Skip = None\<rparr>, sr_Status = StepFailed, sr_Duration = 0,
         sr_Err = Some (wrapf (''step '' @ [CHR 0x27] @ ''a'' @ [CHR 0x27] @ '' failed: '') (ErrNilRun :: unit err))\<rparr>,
       not_run \<lparr>st_Name = ''b'', st_Description = '''', st_Run = Some (\<lambda>w. (Panicked ''x'', w)), st_Skip = None\<rparr>],
      Some (wrapf (''step '' @ [CHR 0x27] @ ''a'' @ [CHR 0x27] @ '' failed: '') ErrNilRun)), ())"
proof -
  let ?a = "\<lparr>st_Name = ''a'', st_Description = '''', st_Run = None, st_Skip = None\<rparr> :: (unit, unit) wf_step"
  have "run_steps idle_env no_hooks 2 0 [?a] () =
     (([\<lparr>sr_Step = ?a, sr_Status = StepFailed, sr_Duration = 0,
         sr_Err = Some (wrapf (''step '' @ [CHR 0x27] @ ''a'' @ [CHR 0x27] @ '' failed: '') ErrNilRun)\<rparr>],
       Some (wrapf (''step '' @ [CHR 0x27] @ ''a'' @ [CHR 0x27] @ '' failed: '') ErrNilRun)), ())"
    by (simp add: idle_env_def no_hooks_def skips_def runStepWithRecovery_def time_sub_def Let_def)
  from workflow_halts_at_first_failure [OF this, of "[\<lparr>st_Name = ''b'', st_Description = '''',
      st_Run = Some (\<lambda>w. (Panicked ''x'', w)), st_Skip = None\<rparr>]"] show ?thesis by simp
qed

lemma run_steps_vs_dry:
  "(\<And>s v v'. s \<in> set ss \<Longrightarrow> fst (skips s v) = fst (skips s v')) \<Longrightarrow>
   run_steps env h tot i ss w = ((rs, None), w') \<Longrightarrow>
   map sr_Status (fst (dry_steps ss v)) = map sr_Status rs"
proof (induction ss arbitrary: i w rs v)
  case Nil
  then show ?case by simp
next
  case (Cons s ss)
  obtain oc w1 where p: "poll_ctx env w = (oc, w1)" by fastforce
  obtain b w2 where sk: "skips s w1 = (b, w2)" by fastforce
  obtain v1 where dv: "skips s v = (b, v1)"
    using Cons.prems(1) [of s v w1] sk by (cases "skips s v") auto
  have "oc = None" using Cons.prems(2) p by (auto split: option.splits)
  then obtain r rs' w3 j where rs: "rs = r # rs'" "sr_Status r = (if b then StepSkipped else StatusSuccess)"
    "run_steps env h tot j ss w3 = ((rs', None), w')"
    using Cons.prems(2) p sk
    by (cases b) (auto simp: Let_def split: prod.splits option.splits)
  then have "map sr_Status (fst (dry_steps ss v1)) = map sr_Status rs'"
    using Cons.IH [of j w3 rs' v1] Cons.prems(1) by simp
  then show ?case using rs dv by (auto split: prod.splits)
qed

text \<open>The dry run predicts the real run: when the skip predicates do not depend on when they are
  asked, and the real run ends without error, \<open>DryRun\<close> reports the same status for every step,
  without calling any body.\<close>

theorem dry_run_predicts_success:
  assumes "\<And>s v v'. s \<in> set (wf_Steps wfl) \<Longrightarrow> fst (skips s v) = fst (skips s v')"
    and "wr_Err (fst (RunWithResult env wfl w)) = None"
  shows "map sr_Status (wr_StepResults (fst (DryRun wfl v))) =
     map sr_Status (wr_StepResults (fst (RunWithResult env wfl w)))"
proof (rule RunWithResult_steps [of env wfl w])
  fix w2 w3
  assume "run_steps env (wf_hooks wfl) (length (wf_Steps wfl)) 0 (wf_Steps wfl) w2 =
      ((wr_StepResults (fst (RunWithResult env wfl w)), wr_Err (fst (RunWithResult env wfl w))), w3)"
  then have "map sr_Status (fst (dry_steps (wf_Steps wfl) v)) =
      map sr_Status (wr_StepResults (fst (RunWithResult env wfl w)))"
    unfolding assms(2) by (intro run_steps_vs_dry assms(1))
  then show ?thesis by (cases "dry_steps (wf_Steps wfl) v") (simp add: DryRun_def)
qed

theorem dry_run_predicts_success_witness:
  "map sr_Status (wr_StepResults (fst (DryRun (workflow_Add ''a'' (Some (\<lambda>w. (Returned (None :: unit err option), w)))
       (workflow_New ''x'' [])) ()))) = [StatusSuccess]"
proof -
  let ?wfl = "workflow_Add ''a'' (Some (\<lambda>w. (Returned (None :: unit err option), w))) (workflow_New ''x'' []) :: (unit, unit) workflow"
  have st: "wf_Steps ?wfl = [\<lparr>st_Name = ''a'', st_Description = '''', st_Run = Some (\<lambda>w. (Returned None, w)), st_Skip = None\<rparr>]"
    and h: "wf_hooks ?wfl = no_hooks"
    by (simp_all add: workflow_Add_def AddStep_def workflow_New_def)
  have r: "wr_Err (fst (RunWithResult idle_env ?wfl ())) = None"
    "map sr_Status (wr_StepResults (fst (RunWithResult idle_env ?wfl ()))) = [StatusSuccess]"
    by (simp_all add: RunWithResult_def st h idle_env_def no_hooks_def skips_def runStepWithRecovery_def)
  have "\<And>s v v'. s \<in> set (wf_Steps ?wfl) \<Longrightarrow> fst (skips s v) = fst (skips s v')"
    by (simp add: st skips_def)
  from dry_run_predicts_success [OF this r(1), of "()"] r(2) show ?thesis by simp
qed

end
