(* ===== verification/Batch_Buffer.thy ===== *)
theory Batch_Buffer
  imports Go_Errors
begin

section \<open>platform/async: the batch buffer\<close>

text \<open>
  \<open>src/go/platform/async/batch_buffer.go\<close>. The buffer is changed only in the sections that hold the
  mutex; \<open>Add\<close> and \<open>Flush\<close> take the full batch out in such a section and call \<open>onFlush\<close> after
  releasing the lock. Concurrent calls are therefore a sequence of locked sections.
\<close>

record ('t, 'x) flush_error =
  fe_Items :: "'t list"
  fe_Err :: "'x err"

definition flush_error_text :: "('t, 'x) flush_error \<Rightarrow> string" where
  "flush_error_text e = ''failed to flush batch of '' @ show_nat (length (fe_Items e)) @ '' item(s): '' @ err_text (fe_Err e)"

definition flush_error_Unwrap :: "('t, 'x) flush_error \<Rightarrow> 'x err" where
  "flush_error_Unwrap e = fe_Err e"

record ('t, 'x, 'w) batch_buffer =
  bb_limit :: int
  bb_onFlush :: "'t list \<Rightarrow> 'w \<Rightarrow> 'x err option \<times> 'w"
  bb_items :: "'t list"

definition NewBatchBuffer :: "int \<Rightarrow> ('t list \<Rightarrow> 'w \<Rightarrow> 'x err option \<times> 'w) \<Rightarrow> ('t, 'x, 'w) batch_buffer" where
  "NewBatchBuffer limit onFlush =
     \<lparr>bb_limit = (if limit \<le> 0 then 500 else limit), bb_onFlush = onFlush, bb_items = []\<rparr>"

text \<open>The sections under the lock: the batch taken out, if any, and the new buffer.\<close>

definition add_locked :: "'t \<Rightarrow> ('t, 'x, 'w) batch_buffer \<Rightarrow> 't list option \<times> ('t, 'x, 'w) batch_buffer" where
  "add_locked item b =
     (let items = bb_items b @ [item] in
      if int (length items) \<ge> bb_limit b then (Some items, b\<lparr>bb_items := []\<rparr>)
      else (None, b\<lparr>bb_items := items\<rparr>))"

definition flush_locked :: "('t, 'x, 'w) batch_buffer \<Rightarrow> 't list option \<times> ('t, 'x, 'w) batch_buffer" where
  "flush_locked b = (if length (bb_items b) = 0 then (None, b) else (Some (bb_items b), b\<lparr>bb_items := []\<rparr>))"

definition deliver :: "('t, 'x, 'w) batch_buffer \<Rightarrow> 't list option \<Rightarrow> 'w \<Rightarrow> ('t, 'x) flush_error option \<times> 'w" where
  "deliver b obatch w = (case obatch of
      None \<Rightarrow> (None, w)
    | Some batch \<Rightarrow> (case bb_onFlush b batch w of
          (None, w') \<Rightarrow> (None, w')
        | (Some e, w') \<Rightarrow> (Some \<lparr>fe_Items = batch, fe_Err = e\<rparr>, w')))"

definition buffer_Add :: "'t \<Rightarrow> ('t, 'x, 'w) batch_buffer \<Rightarrow> 'w \<Rightarrow>
    (('t, 'x) flush_error option \<times> ('t, 'x, 'w) batch_buffer) \<times> 'w" where
  "buffer_Add item b w = (case add_locked item b of (ob, b') \<Rightarrow>
     case deliver b ob w of (r, w') \<Rightarrow> ((r, b'), w'))"

definition buffer_Flush :: "('t, 'x, 'w) batch_buffer \<Rightarrow> 'w \<Rightarrow>
    (('t, 'x) flush_error option \<times> ('t, 'x, 'w) batch_buffer) \<times> 'w" where
  "buffer_Flush b w = (case flush_locked b of (ob, b') \<Rightarrow>
     case deliver b ob w of (r, w') \<Rightarrow> ((r, b'), w'))"

definition buffer_Len :: "('t, 'x, 'w) batch_buffer \<Rightarrow> int" where
  "buffer_Len b = int (length (bb_items b))"

subsection \<open>Concurrent callers\<close>

text \<open>
  Callers run concurrently. A call of \<open>Add\<close> or \<open>Flush\<close> is one or two steps: the section under the lock, after which a call that took nothing
  returns nil; and, for a call that took a batch out, later and in any order with the steps of other callers, the call of \<open>onFlush\<close> with that
  batch and the return of its outcome. Besides the buffer and the world the state has what happened: the items added, in the order of the sections;
  the batches taken out, by caller; the calls of \<open>onFlush\<close> that have ended, with their errors; and what the calls of \<open>Add\<close> and \<open>Flush\<close> returned.
\<close>

datatype 't buffer_call = CallAdd 't | CallFlush

fun locked_section :: "'t buffer_call \<Rightarrow> ('t, 'x, 'w) batch_buffer \<Rightarrow> 't list option \<times> ('t, 'x, 'w) batch_buffer" where
  "locked_section (CallAdd x) b = add_locked x b"
| "locked_section CallFlush b = flush_locked b"

fun added_by :: "'t buffer_call \<Rightarrow> 't list" where
  "added_by (CallAdd x) = [x]"
| "added_by CallFlush = []"

record ('t, 'x, 'w) buffer_system =
  sy_buffer :: "('t, 'x, 'w) batch_buffer"
  sy_flushing :: "nat \<Rightarrow> 't list option"
  sy_world :: 'w
  sy_added :: "'t list"
  sy_taken :: "(nat \<times> 't list) list"
  sy_delivered :: "(nat \<times> 't list \<times> 'x err option) list"
  sy_returned :: "(nat \<times> ('t, 'x) flush_error option) list"

definition buffer_start :: "int \<Rightarrow> ('t list \<Rightarrow> 'w \<Rightarrow> 'x err option \<times> 'w) \<Rightarrow> 'w \<Rightarrow> ('t, 'x, 'w) buffer_system" where
  "buffer_start limit onFlush w =
     \<lparr>sy_buffer = NewBatchBuffer limit onFlush, sy_flushing = (\<lambda>c. None), sy_world = w, sy_added = [], sy_taken = [], sy_delivered = [], sy_returned = []\<rparr>"

text \<open>A caller that is not inside \<open>onFlush\<close> calls an operation.\<close>

definition enter :: "nat \<Rightarrow> 't buffer_call \<Rightarrow> ('t, 'x, 'w) buffer_system \<Rightarrow> ('t, 'x, 'w) buffer_system" where
  "enter c op s =
     (case locked_section op (sy_buffer s) of
        (None, b) \<Rightarrow> s\<lparr>sy_buffer := b, sy_added := sy_added s @ added_by op,
            sy_returned := sy_returned s @ [(c, fst (deliver b None (sy_world s)))]\<rparr>
      | (Some batch, b) \<Rightarrow> s\<lparr>sy_buffer := b, sy_added := sy_added s @ added_by op, sy_flushing := (sy_flushing s)(c := Some batch),
            sy_taken := sy_taken s @ [(c, batch)]\<rparr>)"

text \<open>The \<open>onFlush\<close> of a caller ends, and its operation returns.\<close>

definition flushed :: "nat \<Rightarrow> 't list \<Rightarrow> ('t, 'x, 'w) buffer_system \<Rightarrow> ('t, 'x, 'w) buffer_system" where
  "flushed c batch s =
     (case deliver (sy_buffer s) (Some batch) (sy_world s) of (r, w) \<Rightarrow>
        s\<lparr>sy_flushing := (sy_flushing s)(c := None), sy_world := w,
          sy_delivered := sy_delivered s @ [(c, batch, fst (bb_onFlush (sy_buffer s) batch (sy_world s)))],
          sy_returned := sy_returned s @ [(c, r)]\<rparr>)"

inductive buffer_step :: "('t, 'x, 'w) buffer_system \<Rightarrow> ('t, 'x, 'w) buffer_system \<Rightarrow> bool" where
  Enter: "sy_flushing s c = None \<Longrightarrow> buffer_step s (enter c op s)"
| Flushed: "sy_flushing s c = Some batch \<Longrightarrow> buffer_step s (flushed c batch s)"

inductive buffer_reach :: "('t, 'x, 'w) buffer_system \<Rightarrow> ('t, 'x, 'w) buffer_system \<Rightarrow> bool" for s0 where
  Start: "buffer_reach s0 s0"
| Step: "buffer_reach s0 s \<Longrightarrow> buffer_step s s' \<Longrightarrow> buffer_reach s0 s'"

lemma reach_enter: "buffer_reach s0 s \<Longrightarrow> sy_flushing s c = None \<Longrightarrow> buffer_reach s0 (enter c op s)"
  by (rule buffer_reach.Step [OF _ buffer_step.Enter])

lemma reach_flushed: "buffer_reach s0 s \<Longrightarrow> sy_flushing s c = Some batch \<Longrightarrow> buffer_reach s0 (flushed c batch s)"
  by (rule buffer_reach.Step [OF _ buffer_step.Flushed])

text \<open>A call by itself is \<open>buffer_Add\<close> or \<open>buffer_Flush\<close>.\<close>

lemma call_is_its_steps:
  assumes "opr = buffer_Add x \<and> op = CallAdd x \<or> opr = buffer_Flush \<and> op = CallFlush"
    and "opr (sy_buffer s) (sy_world s) = ((r, b), w)" and "sy_flushing s c = None"
  shows "\<exists>s'. buffer_reach s s' \<and> sy_buffer s' = b \<and> sy_world s' = w \<and> sy_returned s' = sy_returned s @ [(c, r)] \<and> sy_flushing s' = sy_flushing s"
proof -
  obtain ob b' where l: "locked_section op (sy_buffer s) = (ob, b')" by fastforce
  have same: "bb_onFlush b' = bb_onFlush (sy_buffer s)"
    using l by (cases op) (auto simp: add_locked_def flush_locked_def Let_def split: if_splits)
  have d: "deliver (sy_buffer s) ob (sy_world s) = (r, w)" "b = b'"
    using assms(1,2) l by (auto simp: buffer_Add_def buffer_Flush_def split: prod.splits)
  have 1: "buffer_reach s (enter c op s)" using assms(3) by (intro reach_enter buffer_reach.Start)
  show ?thesis
  proof (cases ob)
    case None
    then show ?thesis using 1 l d by (intro exI [of _ "enter c op s"]) (simp add: enter_def deliver_def)
  next
    case (Some batch)
    let ?s = "enter c op s"
    have "sy_flushing ?s c = Some batch" "sy_buffer ?s = b'" "sy_world ?s = sy_world s" "sy_returned ?s = sy_returned s"
      "sy_flushing ?s = (sy_flushing s)(c := Some batch)"
      using l Some by (simp_all add: enter_def)
    moreover have "deliver b' (Some batch) (sy_world s) = (r, w)" using d(1) same Some by (simp add: deliver_def)
    moreover have "buffer_reach s (flushed c batch ?s)" using l Some by (intro reach_flushed [OF 1]) (simp add: enter_def)
    ultimately show ?thesis using d(2) assms(3)
      by (intro exI [of _ "flushed c batch ?s"]) (simp add: flushed_def fun_upd_idem)
  qed
qed

subsection \<open>The invariant\<close>

definition buffer_ok :: "('t, 'x, 'w) batch_buffer \<Rightarrow> bool" where
  "buffer_ok b \<longleftrightarrow> int (length (bb_items b)) < bb_limit b"

lemma locked_section_ok:
  assumes "buffer_ok b" and "locked_section op b = (ob, b')"
  shows "buffer_ok b' \<and> bb_limit b' = bb_limit b \<and> bb_onFlush b' = bb_onFlush b
    \<and> bb_items b @ added_by op = (case ob of None \<Rightarrow> [] | Some batch \<Rightarrow> batch) @ bb_items b'
    \<and> (\<forall>batch. ob = Some batch \<longrightarrow> batch \<noteq> [] \<and> int (length batch) \<le> bb_limit b)"
  using assms
  by (cases op) (auto simp: buffer_ok_def add_locked_def flush_locked_def Let_def split: if_splits)

text \<open>The entries of one caller.\<close>

definition of_caller :: "nat \<Rightarrow> (nat \<times> 'a) list \<Rightarrow> 'a list" where
  "of_caller c l = map snd (filter (\<lambda>e. fst e = c) l)"

lemma of_caller_simps [simp]:
  "of_caller c [] = []" "of_caller c (l @ l') = of_caller c l @ of_caller c l'" "of_caller c ((c', x) # l) = (if c' = c then x # of_caller c l else of_caller c l)"
  by (simp_all add: of_caller_def)

text \<open>The calls of \<open>onFlush\<close> one after the other.\<close>

fun flushes :: "('t list \<Rightarrow> 'w \<Rightarrow> 'x err option \<times> 'w) \<Rightarrow> 't list list \<Rightarrow> 'w \<Rightarrow> 'x err option list \<times> 'w" where
  "flushes f [] w = ([], w)"
| "flushes f (b # bs) w = (case f b w of (e, w1) \<Rightarrow> case flushes f bs w1 of (es, w2) \<Rightarrow> (e # es, w2))"

lemma flushes_snoc:
  "flushes f bs w = (es, w1) \<Longrightarrow> flushes f (bs @ [b]) w = (es @ [fst (f b w1)], snd (f b w1))"
  by (induction bs arbitrary: w es) (auto split: prod.splits)

text \<open>The errors that calls got, and those of the deliveries that failed, each with its batch.\<close>

definition failures :: "('t list \<times> 'x err option) list \<Rightarrow> ('t, 'x) flush_error list" where
  "failures l = List.map_filter (\<lambda>(batch, oe). map_option (\<lambda>e. \<lparr>fe_Items = batch, fe_Err = e\<rparr>) oe) l"

definition got_errors :: "('t, 'x) flush_error option list \<Rightarrow> ('t, 'x) flush_error list" where
  "got_errors l = List.map_filter id l"

lemma failures_simps [simp]:
  "failures [] = []" "failures (l @ l') = failures l @ failures l'" "failures [(b, None)] = []" "failures [(b, Some e)] = [\<lparr>fe_Items = b, fe_Err = e\<rparr>]"
  by (simp_all add: failures_def List.map_filter_def)

lemma got_errors_simps [simp]:
  "got_errors [] = []" "got_errors (l @ l') = got_errors l @ got_errors l'" "got_errors [None] = []" "got_errors [Some e] = [e]"
  by (simp_all add: got_errors_def List.map_filter_def)

definition opt_list_of :: "'a option \<Rightarrow> 'a list" where
  "opt_list_of o' = (case o' of None \<Rightarrow> [] | Some x \<Rightarrow> [x])"

definition conserved :: "int \<Rightarrow> ('t list \<Rightarrow> 'w \<Rightarrow> 'x err option \<times> 'w) \<Rightarrow> 'w \<Rightarrow> ('t, 'x, 'w) buffer_system \<Rightarrow> bool" where
  "conserved limit onFlush w0 s \<longleftrightarrow>
     bb_limit (sy_buffer s) = limit \<and> bb_onFlush (sy_buffer s) = onFlush \<and> buffer_ok (sy_buffer s)
   \<and> concat (map snd (sy_taken s)) @ bb_items (sy_buffer s) = sy_added s
   \<and> list_all (\<lambda>(c, batch). batch \<noteq> [] \<and> int (length batch) \<le> limit) (sy_taken s)
   \<and> (\<forall>c. of_caller c (sy_taken s) = map fst (of_caller c (sy_delivered s)) @ opt_list_of (sy_flushing s c))
   \<and> (\<forall>c. got_errors (of_caller c (sy_returned s)) = failures (of_caller c (sy_delivered s)))
   \<and> flushes onFlush (map (fst \<circ> snd) (sy_delivered s)) w0 = (map (snd \<circ> snd) (sy_delivered s), sy_world s)"

lemma enter_conserved:
  assumes "conserved limit onFlush w0 s" and "sy_flushing s c = None"
  shows "conserved limit onFlush w0 (enter c op s)"
proof -
  obtain ob b where l: "locked_section op (sy_buffer s) = (ob, b)" by fastforce
  have b: "buffer_ok (sy_buffer s)" using assms(1) by (simp add: conserved_def)
  note st = locked_section_ok [OF b l]
  have "concat (map snd (sy_taken s)) @ bb_items (sy_buffer s) @ added_by op = sy_added s @ added_by op"
    using assms(1) by (simp add: conserved_def flip: append_assoc)
  then have items: "concat (map snd (sy_taken s)) @ (case ob of None \<Rightarrow> [] | Some batch \<Rightarrow> batch) @ bb_items b = sy_added s @ added_by op"
    using st by simp
  show ?thesis
  proof (cases ob)
    case None
    then show ?thesis using assms l st items by (auto simp: conserved_def enter_def deliver_def)
  next
    case (Some batch)
    then show ?thesis using assms l st items by (auto simp: conserved_def enter_def opt_list_of_def)
  qed
qed

lemma flushed_conserved:
  assumes "conserved limit onFlush w0 s" and "sy_flushing s c = Some batch"
  shows "conserved limit onFlush w0 (flushed c batch s)"
proof -
  obtain oe w where f: "onFlush batch (sy_world s) = (oe, w)" by fastforce
  have on: "bb_onFlush (sy_buffer s) = onFlush" using assms(1) by (simp add: conserved_def)
  have fl: "flushes onFlush (map (fst \<circ> snd) (sy_delivered s) @ [batch]) w0 = (map (snd \<circ> snd) (sy_delivered s) @ [oe], w)"
    using assms(1) flushes_snoc [of onFlush _ w0 _ "sy_world s" batch] f by (auto simp: conserved_def)
  have d: "deliver (sy_buffer s) (Some batch) (sy_world s) = (map_option (\<lambda>e. \<lparr>fe_Items = batch, fe_Err = e\<rparr>) oe, w)"
    using f on by (simp add: deliver_def split: option.split)
  show ?thesis using assms fl f on
    by (cases oe) (auto simp: conserved_def flushed_def d opt_list_of_def)
qed

lemma reach_conserved:
  assumes "buffer_reach (buffer_start limit onFlush w0) s"
  shows "conserved (if limit \<le> 0 then 500 else limit) onFlush w0 s"
  using assms
proof induction
  case Start
  then show ?case by (simp add: conserved_def buffer_start_def NewBatchBuffer_def buffer_ok_def opt_list_of_def)
next
  case (Step s s')
  then show ?case by (auto elim!: buffer_step.cases intro: enter_conserved flushed_conserved)
qed

text \<open>C18. The batch buffer loses and duplicates nothing, however its callers interleave. In every state that can be reached from a new buffer,
  the batches taken out, in order, followed by what is still buffered, are exactly the added items in order; every batch is non-empty and no longer than the limit, and
  the buffer stays below it. Each caller has passed exactly the batches that it took out to \<open>onFlush\<close>, each once and in their order, but for the one
  that it may be flushing, while deliveries of different callers may end in any order; the world is the one that these calls of \<open>onFlush\<close>, in the order in which they ended, make; and the errors that a caller got
  from \<open>Add\<close> and \<open>Flush\<close> are exactly those of its failed deliveries, each with the very batch that could not be delivered.\<close>
theorem batch_buffer_conserves:
  assumes "buffer_reach (buffer_start limit onFlush w0) s"
  shows "concat (map snd (sy_taken s)) @ bb_items (sy_buffer s) = sy_added s
   \<and> list_all (\<lambda>(c, batch). batch \<noteq> [] \<and> int (length batch) \<le> (if limit \<le> 0 then 500 else limit)) (sy_taken s)
   \<and> buffer_Len (sy_buffer s) < (if limit \<le> 0 then 500 else limit)
   \<and> (\<forall>c. of_caller c (sy_taken s) = map fst (of_caller c (sy_delivered s)) @ (case sy_flushing s c of None \<Rightarrow> [] | Some batch \<Rightarrow> [batch]))
   \<and> flushes onFlush (map (fst \<circ> snd) (sy_delivered s)) w0 = (map (snd \<circ> snd) (sy_delivered s), sy_world s)
   \<and> (\<forall>c. got_errors (of_caller c (sy_returned s)) = failures (of_caller c (sy_delivered s)))"
  using reach_conserved [OF assms] by (simp add: conserved_def buffer_ok_def buffer_Len_def opt_list_of_def)

text \<open>Two callers, a limit of two and a destination that refuses the item 3: both take a batch out, the second one delivers first and fails.\<close>

definition demo_flush :: "nat list \<Rightarrow> nat list list \<Rightarrow> unit err option \<times> nat list list" where
  "demo_flush batch w = (if 3 \<in> set batch then (Some (sentinel ''e'' ''down''), w) else (None, w @ [batch]))"

definition demo_system :: "(nat, unit, nat list list) buffer_system" where
  "demo_system = flushed 0 [1, 2] (flushed 1 [3, 4] (enter 1 (CallAdd 4) (enter 1 (CallAdd 3) (enter 0 (CallAdd 2) (enter 0 (CallAdd 1) (buffer_start 2 demo_flush []))))))"

lemma demo_system_reachable: "buffer_reach (buffer_start 2 demo_flush []) demo_system"
  unfolding demo_system_def
  by (intro reach_flushed reach_enter buffer_reach.Start; code_simp)

lemma demo_system_values:
  "sy_taken demo_system = [(0, [1, 2]), (1, [3, 4])]" "sy_delivered demo_system = [(1, [3, 4], Some (sentinel ''e'' ''down'')), (0, [1, 2], None)]"
  "sy_flushing demo_system 1 = None"
  by code_simp+

theorem batch_buffer_conserves_witness:
  "got_errors (of_caller 1 (sy_returned demo_system)) = [\<lparr>fe_Items = [3, 4], fe_Err = sentinel ''e'' ''down''\<rparr>]
   \<and> sy_world demo_system = [[1, 2]] \<and> sy_added demo_system = [1, 2, 3, 4] @ bb_items (sy_buffer demo_system)"
  using batch_buffer_conserves [OF demo_system_reachable] unfolding demo_system_values
  by (simp add: demo_flush_def)

text \<open>A failed flush hands its batch back: when \<open>Add\<close> or \<open>Flush\<close> returns an error, the
  \<open>FlushError\<close> carries exactly the items that were taken out and the callback's error, the buffer
  is empty, and the callback was called exactly once, on that batch; and when they return nil,
  every item taken out was accepted by the callback.\<close>

theorem flush_failure_returns_batch:
  assumes "opr = buffer_Add item \<and> pending = bb_items b @ [item] \<or> opr = buffer_Flush \<and> pending = bb_items b"
    and "opr b w = ((r, b'), w')"
  shows "(case r of
      Some fe \<Rightarrow> fe_Items fe = pending \<and> bb_items b' = [] \<and> bb_onFlush b pending w = (Some (fe_Err fe), w')
    | None \<Rightarrow> bb_items b' = pending \<and> w' = w \<or> bb_items b' = [] \<and> bb_onFlush b pending w = (None, w'))"
  using assms
  by (auto simp: buffer_Add_def buffer_Flush_def add_locked_def flush_locked_def deliver_def Let_def
      split: prod.splits option.splits if_splits)

theorem flush_failure_returns_batch_witness:
  "\<exists>fe b' w'. buffer_Add (3 :: nat) ((NewBatchBuffer 2 (\<lambda>bt w. (Some (sentinel ''e'' ''down'' :: unit err), w + length bt)))\<lparr>bb_items := [1]\<rparr>) (0 :: nat)
     = ((Some fe, b'), w') \<and> fe_Items fe = [1, 3] \<and> bb_items b' = []"
proof -
  let ?b = "(NewBatchBuffer 2 (\<lambda>bt w. (Some (sentinel ''e'' ''down'' :: unit err), w + length bt)))\<lparr>bb_items := [1]\<rparr> :: (nat, unit, nat) batch_buffer"
  obtain fe b' w' where e: "buffer_Add 3 ?b 0 = ((Some fe, b'), w')"
    by (simp add: buffer_Add_def add_locked_def deliver_def NewBatchBuffer_def)
  have "fe_Items fe = [1, 3] \<and> bb_items b' = []"
    using flush_failure_returns_batch [of "buffer_Add 3" 3 "[1, 3]" ?b 0 "Some fe" b' w'] e by simp
  with e show ?thesis by blast
qed

end
