(* ===== verification/Async_Runner.thy ===== *)
theory Async_Runner
  imports Go_Errors
begin

section \<open>platform/async: the task runner\<close>

text \<open>
  \<open>src/go/platform/async/async.go\<close>. A task is a heap object that the table of the runner, the
  submitter and the executing goroutine share, so the model keeps a heap of tasks by address and a
  table from task ids to addresses. A task lives through the phases of \<open>Submit\<close> and \<open>execute\<close>; each
  rule of the step relation is one section that holds the mutex, one channel operation on the
  semaphore, or one read of the context. \<open>newID\<close> (random bytes) is the parameter \<open>ids\<close>, the id given to
  the n-th task; it may repeat ids unless a theorem says otherwise. Time is the value \<open>time.Now()\<close>
  returns; the zero \<open>time.Time\<close> is \<open>None\<close>.
\<close>

type_synonym task_status = string

definition StatusPending :: task_status where [go_defs]: "StatusPending = ''pending''"
definition StatusRunning :: task_status where [go_defs]: "StatusRunning = ''running''"
definition StatusDone :: task_status where [go_defs]: "StatusDone = ''done''"
definition StatusFailed :: task_status where [go_defs]: "StatusFailed = ''failed''"

record 'd task_result =
  tr_Data :: "'d option"
  tr_Error :: string

record 'd task =
  t_ID :: string
  t_Kind :: string
  t_Status :: task_status
  t_Created :: int
  t_Started :: "int option"
  t_Completed :: "int option"
  t_Result :: "'d task_result"

text \<open>Where the code that handles a task stands.\<close>

datatype phase =
    Registered   \<comment> \<open>in the table, before the check of the runner's context\<close>
  | AwaitSlot    \<comment> \<open>in the select on the semaphore\<close>
  | Spawned      \<comment> \<open>\<open>go r.execute\<close>, slot held\<close>
  | Executing    \<comment> \<open>the task function runs\<close>
  | Releasing    \<comment> \<open>result recorded, slot not yet released\<close>
  | Finished
  | Rejected     \<comment> \<open>failed without running\<close>

record runner_options =
  ro_limit :: int
  ro_janitorInterval :: int
  ro_janitorMaxAge :: int

definition WithLimit :: "int \<Rightarrow> runner_options \<Rightarrow> runner_options" where
  "WithLimit limit opt = opt\<lparr>ro_limit := limit\<rparr>"

definition WithJanitor :: "int \<Rightarrow> int \<Rightarrow> runner_options \<Rightarrow> runner_options" where
  "WithJanitor interval maxAge opt = opt\<lparr>ro_janitorInterval := interval, ro_janitorMaxAge := maxAge\<rparr>"

definition defaultConcurrencyLimit :: int where [go_defs]: "defaultConcurrencyLimit = 100"

record 'd runner =
  r_tasks :: "string \<rightharpoonup> nat"
  r_heap :: "nat \<rightharpoonup> 'd task"
  r_phase :: "nat \<rightharpoonup> phase"
  r_next :: nat
  r_limit :: int
  r_sem :: nat
  r_closed :: bool
  r_janitor :: "int option"
  r_now :: int

definition NewRunner :: "int \<Rightarrow> (runner_options \<Rightarrow> runner_options) list \<Rightarrow> 'd runner" where
  "NewRunner now opts =
     (let opt = fold (\<lambda>f opt. f opt) opts
         \<lparr>ro_limit = defaultConcurrencyLimit, ro_janitorInterval = 0, ro_janitorMaxAge = 0\<rparr>
      in \<lparr>r_tasks = (\<lambda>_. None), r_heap = (\<lambda>_. None), r_phase = (\<lambda>_. None), r_next = 0,
          r_limit = ro_limit opt, r_sem = 0, r_closed = False,
          r_janitor = (if ro_janitorInterval opt > 0 then Some (ro_janitorMaxAge opt) else None), r_now = now\<rparr>)"

definition set_phase :: "nat \<Rightarrow> phase \<Rightarrow> 'd runner \<Rightarrow> 'd runner" where
  "set_phase p ph s = s\<lparr>r_phase := (r_phase s)(p \<mapsto> ph)\<rparr>"

definition upd_task :: "nat \<Rightarrow> ('d task \<Rightarrow> 'd task) \<Rightarrow> 'd runner \<Rightarrow> 'd runner" where
  "upd_task p f s = s\<lparr>r_heap := (r_heap s)(p := map_option f (r_heap s p))\<rparr>"

definition empty_task_result :: "'d task_result" where
  "empty_task_result = \<lparr>tr_Data = None, tr_Error = ''''\<rparr>"

text \<open>The first part of \<open>Submit\<close>: the new task enters the table.\<close>

definition submit_register :: "string \<Rightarrow> string \<Rightarrow> 'd runner \<Rightarrow> 'd runner" where
  "submit_register i kind s =
     (let p = r_next s in
      s\<lparr>r_heap := (r_heap s)(p \<mapsto> \<lparr>t_ID = i, t_Kind = kind, t_Status = StatusPending, t_Created = r_now s,
            t_Started = None, t_Completed = None, t_Result = empty_task_result\<rparr>),
        r_tasks := (r_tasks s)(i \<mapsto> p), r_phase := (r_phase s)(p \<mapsto> Registered), r_next := p + 1\<rparr>)"

definition failTask :: "nat \<Rightarrow> string \<Rightarrow> 'd runner \<Rightarrow> 'd runner" where
  "failTask p msg s = upd_task p (\<lambda>t. t\<lparr>t_Completed := Some (r_now s), t_Status := StatusFailed,
     t_Result := empty_task_result\<lparr>tr_Error := msg\<rparr>\<rparr>) s"

datatype 'd fn_outcome = FnOk 'd | FnErr 'd string | FnPanic string

definition exec_start :: "nat \<Rightarrow> 'd runner \<Rightarrow> 'd runner" where
  "exec_start p s = upd_task p (\<lambda>t. t\<lparr>t_Status := StatusRunning, t_Started := Some (r_now s)\<rparr>) s"

fun exec_record :: "nat \<Rightarrow> 'd fn_outcome \<Rightarrow> 'd runner \<Rightarrow> 'd runner" where
  "exec_record p (FnOk d) s = upd_task p (\<lambda>t. t\<lparr>t_Completed := Some (r_now s), t_Status := StatusDone,
     t_Result := \<lparr>tr_Data = Some d, tr_Error = ''''\<rparr>\<rparr>) s"
| "exec_record p (FnErr d e) s = upd_task p (\<lambda>t. t\<lparr>t_Completed := Some (r_now s), t_Status := StatusFailed,
     t_Result := \<lparr>tr_Data = Some d, tr_Error = e\<rparr>\<rparr>) s"
| "exec_record p (FnPanic r) s = upd_task p (\<lambda>t. t\<lparr>t_Completed := Some (r_now s), t_Status := StatusFailed,
     t_Result := \<lparr>tr_Data = None, tr_Error = ''panic: '' @ r\<rparr>\<rparr>) s"

definition runner_Get :: "string \<Rightarrow> 'd runner \<Rightarrow> 'd task option" where
  "runner_Get i s = (case r_tasks s i of None \<Rightarrow> None | Some p \<Rightarrow> r_heap s p)"

text \<open>Loops over the table visit its ids in some order; \<open>ids_of\<close> is that order.\<close>

fun runner_List :: "string list \<Rightarrow> 'd runner \<Rightarrow> 'd task list" where
  "runner_List [] s = []"
| "runner_List (i # ids_of) s = (case runner_Get i s of
      None \<Rightarrow> runner_List ids_of s | Some t \<Rightarrow> t # runner_List ids_of s)"

definition prunable :: "int \<Rightarrow> 'd task \<Rightarrow> bool" where
  "prunable cutoff t \<longleftrightarrow> t_Status t \<noteq> StatusPending \<and> t_Status t \<noteq> StatusRunning
     \<and> (case t_Completed t of None \<Rightarrow> True | Some c \<Rightarrow> c < cutoff)"

fun prune_loop :: "int \<Rightarrow> string list \<Rightarrow> nat \<Rightarrow> 'd runner \<Rightarrow> nat \<times> 'd runner" where
  "prune_loop cutoff [] removed s = (removed, s)"
| "prune_loop cutoff (i # ids_of) removed s =
     (case runner_Get i s of
        Some t \<Rightarrow>
          if prunable cutoff t then prune_loop cutoff ids_of (removed + 1) (s\<lparr>r_tasks := (r_tasks s)(i := None)\<rparr>)
          else prune_loop cutoff ids_of removed s
      | None \<Rightarrow> prune_loop cutoff ids_of removed s)"

definition Prune :: "int \<Rightarrow> string list \<Rightarrow> 'd runner \<Rightarrow> nat \<times> 'd runner" where
  "Prune maxAge ids_of s = prune_loop (r_now s + wrap64 (- maxAge)) ids_of 0 s"

subsection \<open>The steps\<close>

datatype 'd runner_event =
    ETime int | ESubmit string | ECheck nat | EAcquire nat | EAbandon nat
  | EStart nat | EFinish nat "'d fn_outcome" | ERelease nat
  | EPrune int | EJanitorTick | EClose | EJanitorExit

inductive runner_step :: "(nat \<Rightarrow> string) \<Rightarrow> 'd runner \<Rightarrow> 'd runner_event \<Rightarrow> 'd runner \<Rightarrow> bool"
  for ids :: "nat \<Rightarrow> string" where
  time: "r_now s \<le> t \<Longrightarrow> runner_step ids s (ETime t) (s\<lparr>r_now := t\<rparr>)"
| submit: "runner_step ids s (ESubmit kind) (submit_register (ids (r_next s)) kind s)"
| check_closed: "r_phase s p = Some Registered \<Longrightarrow> r_closed s \<Longrightarrow>
    runner_step ids s (ECheck p) (set_phase p Rejected
      (failTask p (''runner closed before task started: '' @ err_text (ctx_err c :: unit err)) s))"
| check_bounded: "r_phase s p = Some Registered \<Longrightarrow> \<not> r_closed s \<Longrightarrow> r_limit s > 0 \<Longrightarrow>
    runner_step ids s (ECheck p) (set_phase p AwaitSlot s)"
| check_unbounded: "r_phase s p = Some Registered \<Longrightarrow> \<not> r_closed s \<Longrightarrow> \<not> r_limit s > 0 \<Longrightarrow>
    runner_step ids s (ECheck p) (set_phase p Spawned s)"
| acquire: "r_phase s p = Some AwaitSlot \<Longrightarrow> int (r_sem s) < r_limit s \<Longrightarrow>
    runner_step ids s (EAcquire p) (set_phase p Spawned (s\<lparr>r_sem := r_sem s + 1\<rparr>))"
| abandon: "r_phase s p = Some AwaitSlot \<Longrightarrow> r_closed s \<Longrightarrow>
    runner_step ids s (EAbandon p) (set_phase p Rejected
      (failTask p (''runner closed before task started: '' @ err_text (ctx_err c :: unit err)) s))"
| start: "r_phase s p = Some Spawned \<Longrightarrow>
    runner_step ids s (EStart p) (set_phase p Executing (exec_start p s))"
| finish: "r_phase s p = Some Executing \<Longrightarrow>
    runner_step ids s (EFinish p out) (set_phase p (if r_limit s > 0 then Releasing else Finished) (exec_record p out s))"
| release: "r_phase s p = Some Releasing \<Longrightarrow> r_sem s > 0 \<Longrightarrow>
    runner_step ids s (ERelease p) (set_phase p Finished (s\<lparr>r_sem := r_sem s - 1\<rparr>))"
| prune: "set order = dom (r_tasks s) \<Longrightarrow> distinct order \<Longrightarrow>
    runner_step ids s (EPrune maxAge) (snd (Prune maxAge order s))"
| janitor: "r_janitor s = Some maxAge \<Longrightarrow> set order = dom (r_tasks s) \<Longrightarrow> distinct order \<Longrightarrow>
    runner_step ids s EJanitorTick (snd (Prune maxAge order s))"
| close: "runner_step ids s EClose (s\<lparr>r_closed := True\<rparr>)"
| janitor_exit: "r_closed s \<Longrightarrow> runner_step ids s EJanitorExit (s\<lparr>r_janitor := None\<rparr>)"

inductive runner_trace :: "(nat \<Rightarrow> string) \<Rightarrow> 'd runner \<Rightarrow> 'd runner_event list \<Rightarrow> 'd runner \<Rightarrow> bool"
  for ids :: "nat \<Rightarrow> string" where
  nil: "runner_trace ids s [] s"
| step: "runner_step ids s e s1 \<Longrightarrow> runner_trace ids s1 es s2 \<Longrightarrow> runner_trace ids s (e # es) s2"

lemma task_statuses_distinct [simp]:
  "StatusPending \<noteq> StatusRunning" "StatusPending \<noteq> StatusDone" "StatusPending \<noteq> StatusFailed"
  "StatusRunning \<noteq> StatusPending" "StatusRunning \<noteq> StatusDone" "StatusRunning \<noteq> StatusFailed"
  "StatusDone \<noteq> StatusPending" "StatusDone \<noteq> StatusRunning" "StatusDone \<noteq> StatusFailed"
  "StatusFailed \<noteq> StatusPending" "StatusFailed \<noteq> StatusRunning" "StatusFailed \<noteq> StatusDone"
  by (simp_all add: go_defs)

subsection \<open>The invariant\<close>

text \<open>The statuses a task may show in each phase, and which phases hold a slot of the semaphore.\<close>

fun status_ok :: "phase \<Rightarrow> task_status \<Rightarrow> bool" where
  "status_ok Registered st \<longleftrightarrow> st = StatusPending"
| "status_ok AwaitSlot st \<longleftrightarrow> st = StatusPending"
| "status_ok Spawned st \<longleftrightarrow> st = StatusPending"
| "status_ok Executing st \<longleftrightarrow> st = StatusRunning"
| "status_ok Releasing st \<longleftrightarrow> st = StatusDone \<or> st = StatusFailed"
| "status_ok Finished st \<longleftrightarrow> st = StatusDone \<or> st = StatusFailed"
| "status_ok Rejected st \<longleftrightarrow> st = StatusFailed"

definition holds_slot :: "phase \<Rightarrow> bool" where
  "holds_slot ph \<longleftrightarrow> ph = Spawned \<or> ph = Executing \<or> ph = Releasing"

definition holders :: "'d runner \<Rightarrow> nat set" where
  "holders s = {p. \<exists>ph. r_phase s p = Some ph \<and> holds_slot ph}"

definition runner_inv :: "(nat \<Rightarrow> string) \<Rightarrow> 'd runner \<Rightarrow> bool" where
  "runner_inv ids s \<longleftrightarrow>
     dom (r_phase s) = {..<r_next s}
   \<and> (\<forall>p ph. r_phase s p = Some ph \<longrightarrow> (\<exists>t. r_heap s p = Some t \<and> t_ID t = ids p \<and> status_ok ph (t_Status t)))
   \<and> (r_limit s > 0 \<longrightarrow> r_sem s = card (holders s) \<and> int (r_sem s) \<le> r_limit s)
   \<and> (\<not> r_limit s > 0 \<longrightarrow> AwaitSlot \<notin> ran (r_phase s) \<and> Releasing \<notin> ran (r_phase s))
   \<and> (\<forall>i p. r_tasks s i = Some p \<longrightarrow> p < r_next s \<and> i = ids p)"

lemma runner_invI:
  assumes "dom (r_phase s) = {..<r_next s}"
    and "\<And>p ph. r_phase s p = Some ph \<Longrightarrow> \<exists>t. r_heap s p = Some t \<and> t_ID t = ids p \<and> status_ok ph (t_Status t)"
    and "r_limit s > 0 \<Longrightarrow> r_sem s = card (holders s)" and "r_limit s > 0 \<Longrightarrow> int (r_sem s) \<le> r_limit s"
    and "\<not> r_limit s > 0 \<Longrightarrow> AwaitSlot \<notin> ran (r_phase s) \<and> Releasing \<notin> ran (r_phase s)"
    and "\<And>i p. r_tasks s i = Some p \<Longrightarrow> p < r_next s \<and> i = ids p"
  shows "runner_inv ids s"
  unfolding runner_inv_def using assms by (intro conjI allI impI) (assumption | simp)+

lemma runner_invD:
  assumes "runner_inv ids s"
  shows "dom (r_phase s) = {..<r_next s}"
    and "r_phase s p = Some ph \<Longrightarrow> \<exists>t. r_heap s p = Some t \<and> t_ID t = ids p \<and> status_ok ph (t_Status t)"
    and "r_limit s > 0 \<Longrightarrow> r_sem s = card (holders s)" and "r_limit s > 0 \<Longrightarrow> int (r_sem s) \<le> r_limit s"
    and "\<not> r_limit s > 0 \<Longrightarrow> AwaitSlot \<notin> ran (r_phase s) \<and> Releasing \<notin> ran (r_phase s)"
    and "r_tasks s i = Some p \<Longrightarrow> p < r_next s \<and> i = ids p"
  using assms unfolding runner_inv_def by blast+

lemma holders_set_phase:
  "holders (set_phase p ph s) = (if holds_slot ph then insert p (holders s) else holders s - {p})"
  by (auto simp: holders_def set_phase_def)

lemma holders_frame [simp]:
  "holders (upd_task p f s) = holders s" "holders (s\<lparr>r_sem := n\<rparr>) = holders s"
  "holders (s\<lparr>r_tasks := tb\<rparr>) = holders s" "holders (s\<lparr>r_now := t\<rparr>) = holders s"
  "holders (s\<lparr>r_closed := c\<rparr>) = holders s" "holders (s\<lparr>r_janitor := j\<rparr>) = holders s"
  by (simp_all add: holders_def upd_task_def)

lemma finite_holders: "runner_inv ids s \<Longrightarrow> finite (holders s)"
proof -
  assume "runner_inv ids s"
  then have "holders s \<subseteq> {..<r_next s}" by (auto simp: runner_inv_def holders_def dom_def)
  then show ?thesis by (rule finite_subset) simp
qed

lemma runner_frames [simp]:
  "r_phase (upd_task p f s) = r_phase s" "r_tasks (upd_task p f s) = r_tasks s" "r_next (upd_task p f s) = r_next s"
  "r_limit (upd_task p f s) = r_limit s" "r_sem (upd_task p f s) = r_sem s" "r_closed (upd_task p f s) = r_closed s"
  "r_heap (set_phase p ph s) = r_heap s" "r_tasks (set_phase p ph s) = r_tasks s" "r_next (set_phase p ph s) = r_next s"
  "r_limit (set_phase p ph s) = r_limit s" "r_sem (set_phase p ph s) = r_sem s" "r_closed (set_phase p ph s) = r_closed s"
  "r_phase (set_phase p ph s) = (r_phase s)(p \<mapsto> ph)"
  "r_heap (upd_task p f s) = (r_heap s)(p := map_option f (r_heap s p))"
  by (simp_all add: upd_task_def set_phase_def)

text \<open>Every step that moves one task from a phase to the next keeps the invariant, when the new status
  fits the new phase and the semaphore is counted up or down with the holders.\<close>

lemma inv_move:
  assumes inv: "runner_inv ids s" and ph: "r_phase s p = Some ph"
    and st: "\<And>t. status_ok ph (t_Status t) \<Longrightarrow> status_ok ph' (t_Status (f t)) \<and> t_ID (f t) = t_ID t"
    and sem: "r_limit s > 0 \<Longrightarrow> int n + (if holds_slot ph then 1 else 0) = int (r_sem s) + (if holds_slot ph' then 1 else 0)
        \<and> int n \<le> r_limit s"
    and unb: "\<not> r_limit s > 0 \<Longrightarrow> ph' \<noteq> AwaitSlot \<and> ph' \<noteq> Releasing"
  shows "runner_inv ids (set_phase p ph' (upd_task p f (s\<lparr>r_sem := n\<rparr>)))"
proof -
  let ?s = "set_phase p ph' (upd_task p f (s\<lparr>r_sem := n\<rparr>))"
  have mem: "p \<in> holders s \<longleftrightarrow> holds_slot ph" using ph by (simp add: holders_def)
  have fin: "finite (holders s)" by (rule finite_holders [OF inv])
  have c: "card (holders ?s) + (if holds_slot ph then 1 else 0) = card (holders s) + (if holds_slot ph' then 1 else 0)"
  proof (cases "holds_slot ph")
    case True
    then have "card (holders s) = Suc (card (holders s - {p}))" using mem card.remove [OF fin, of p] by simp
    then show ?thesis using True mem fin by (simp add: holders_set_phase insert_absorb)
  next
    case False
    then show ?thesis using mem fin by (simp add: holders_set_phase)
  qed
  have card: "n = card (holders ?s)" if "r_limit s > 0"
  proof -
    have "r_sem s = card (holders s)" using inv that by (simp add: runner_inv_def)
    with that show ?thesis using sem [OF that] c by (simp split: if_splits)
  qed
  show ?thesis
  proof (rule runner_invI)
    fix q qh assume q: "r_phase ?s q = Some qh"
    show "\<exists>t. r_heap ?s q = Some t \<and> t_ID t = ids q \<and> status_ok qh (t_Status t)"
    proof (cases "q = p")
      case True
      obtain t where "r_heap s p = Some t" "t_ID t = ids p" "status_ok ph (t_Status t)"
        using runner_invD(2) [OF inv ph] by blast
      then show ?thesis using True q st [of t] by simp
    next
      case False
      then show ?thesis using runner_invD(2) [OF inv, of q qh] q by simp
    qed
  next
    assume "\<not> r_limit ?s > 0"
    then show "AwaitSlot \<notin> ran (r_phase ?s) \<and> Releasing \<notin> ran (r_phase ?s)"
      using runner_invD(5) [OF inv] unb by (auto simp: ran_def)
  qed (use runner_invD(1,6) [OF inv] ph card sem in auto)
qed

lemma prune_loop_frame:
  "\<exists>tb. snd (prune_loop cutoff is n s) = s\<lparr>r_tasks := tb\<rparr> \<and> (\<forall>i p. tb i = Some p \<longrightarrow> r_tasks s i = Some p)
     \<and> (\<forall>i. tb i = None \<longrightarrow> r_tasks s i = None \<or> (\<exists>t. runner_Get i s = Some t \<and> prunable cutoff t))"
proof (induction "is" arbitrary: n s)
  case Nil
  show ?case by (intro exI [of _ "r_tasks s"]) simp
next
  case (Cons i "is")
  show ?case
  proof (cases "\<exists>t. runner_Get i s = Some t \<and> prunable cutoff t")
    case False
    then have "snd (prune_loop cutoff (i # is) n s) = snd (prune_loop cutoff is n s)"
      by (auto split: option.splits)
    then show ?thesis using Cons.IH [of n s] by simp
  next
    case True
    let ?s = "s\<lparr>r_tasks := (r_tasks s)(i := None)\<rparr>"
    have "snd (prune_loop cutoff (i # is) n s) = snd (prune_loop cutoff is (n + 1) ?s)"
      using True by auto
    moreover obtain tb where "snd (prune_loop cutoff is (n + 1) ?s) = ?s\<lparr>r_tasks := tb\<rparr>"
      and sub: "\<forall>j p. tb j = Some p \<longrightarrow> r_tasks ?s j = Some p"
      and del: "\<forall>j. tb j = None \<longrightarrow> r_tasks ?s j = None \<or> (\<exists>t. runner_Get j ?s = Some t \<and> prunable cutoff t)"
      using Cons.IH [of "n + 1" ?s] by blast
    moreover have "\<forall>j. tb j = None \<longrightarrow> r_tasks s j = None \<or> (\<exists>t. runner_Get j s = Some t \<and> prunable cutoff t)"
    proof (intro allI impI)
      fix j assume "tb j = None"
      with del have "r_tasks ?s j = None \<or> (\<exists>t. runner_Get j ?s = Some t \<and> prunable cutoff t)" by blast
      with True show "r_tasks s j = None \<or> (\<exists>t. runner_Get j s = Some t \<and> prunable cutoff t)"
        by (cases "j = i") (auto simp: runner_Get_def split: option.splits)
    qed
    moreover have "\<forall>j p. tb j = Some p \<longrightarrow> r_tasks s j = Some p"
    proof (intro allI impI)
      fix j p assume "tb j = Some p"
      with sub have "r_tasks ?s j = Some p" by blast
      then show "r_tasks s j = Some p" by (cases "j = i") simp_all
    qed
    ultimately show ?thesis by (intro exI [of _ tb]) simp
  qed
qed

lemma upd_task_id [simp]: "upd_task p (\<lambda>t. t) s = s"
  by (simp add: upd_task_def option.map_ident)

lemma inv_cong:
  assumes inv: "runner_inv ids s" and eq: "r_phase s' = r_phase s" "r_heap s' = r_heap s" "r_next s' = r_next s"
      "r_limit s' = r_limit s" "r_sem s' = r_sem s"
    and tab: "\<forall>i p. r_tasks s' i = Some p \<longrightarrow> r_tasks s i = Some p"
  shows "runner_inv ids s'"
proof -
  have h: "holders s' = holders s" by (simp add: holders_def eq)
  show ?thesis
    by (rule runner_invI; (unfold eq h)?; use runner_invD [OF inv] tab in blast)
qed

lemma inv_table:
  "runner_inv ids s \<Longrightarrow> \<forall>i p. tb i = Some p \<longrightarrow> r_tasks s i = Some p \<Longrightarrow> runner_inv ids (s\<lparr>r_tasks := tb\<rparr>)"
  by (rule inv_cong) simp_all

lemma holders_submit: "runner_inv ids s \<Longrightarrow> holders (submit_register i kind s) = holders s"
  by (auto simp: holders_def submit_register_def Let_def holds_slot_def runner_inv_def dom_def split: if_splits)

lemma inv_submit:
  assumes inv: "runner_inv ids s"
  shows "runner_inv ids (submit_register (ids (r_next s)) kind s)"
proof -
  let ?s = "submit_register (ids (r_next s)) kind s"
  have sel: "r_phase ?s = (r_phase s)(r_next s \<mapsto> Registered)" "r_next ?s = Suc (r_next s)" "r_limit ?s = r_limit s"
    "r_sem ?s = r_sem s" "r_tasks ?s = (r_tasks s)(ids (r_next s) \<mapsto> r_next s)"
    by (simp_all add: submit_register_def Let_def)
  show ?thesis
  proof (rule runner_invI)
    fix q qh assume q: "r_phase ?s q = Some qh"
    show "\<exists>t. r_heap ?s q = Some t \<and> t_ID t = ids q \<and> status_ok qh (t_Status t)"
    proof (cases "q = r_next s")
      case True
      then show ?thesis using q by (simp add: submit_register_def Let_def)
    next
      case False
      then have "r_phase s q = Some qh" "r_heap ?s q = r_heap s q"
        using q by (simp_all add: sel) (simp add: submit_register_def Let_def)
      then show ?thesis using runner_invD(2) [OF inv, of q qh] by simp
    qed
  next
    assume "\<not> r_limit ?s > 0"
    then show "AwaitSlot \<notin> ran (r_phase ?s) \<and> Releasing \<notin> ran (r_phase ?s)"
      using runner_invD(5) [OF inv] by (auto simp: sel ran_def)
  next
    fix i q assume "r_tasks ?s i = Some q"
    then show "q < r_next ?s \<and> i = ids q"
      using runner_invD(6) [OF inv, of i q] by (auto simp: sel split: if_splits)
  qed (use runner_invD(1,3,4) [OF inv] holders_submit [OF inv] in \<open>simp_all add: sel lessThan_Suc\<close>)
qed

lemma inv_frame:
  "runner_inv ids s \<Longrightarrow> runner_inv ids (s\<lparr>r_now := t\<rparr>)"
  "runner_inv ids s \<Longrightarrow> runner_inv ids (s\<lparr>r_closed := c\<rparr>)"
  "runner_inv ids s \<Longrightarrow> runner_inv ids (s\<lparr>r_janitor := j\<rparr>)"
  by (rule inv_cong, assumption, simp_all)+

lemma inv_prune: "runner_inv ids s \<Longrightarrow> runner_inv ids (snd (Prune maxAge order s))"
  using prune_loop_frame [of "r_now s + wrap64 (- maxAge)" order 0 s] inv_table [of ids s]
  unfolding Prune_def by metis

lemma inv_move_keep:
  assumes "runner_inv ids s" and "r_phase s p = Some ph" and "holds_slot ph = holds_slot ph'"
    and "\<And>t. status_ok ph (t_Status t) \<Longrightarrow> status_ok ph' (t_Status (f t)) \<and> t_ID (f t) = t_ID t"
    and "\<not> r_limit s > 0 \<Longrightarrow> ph' \<noteq> AwaitSlot \<and> ph' \<noteq> Releasing"
  shows "runner_inv ids (set_phase p ph' (upd_task p f s))"
proof -
  have "runner_inv ids (set_phase p ph' (upd_task p f (s\<lparr>r_sem := r_sem s\<rparr>)))"
    using assms runner_invD(4) [OF assms(1)] by (intro inv_move [OF assms(1,2)]) auto
  then show ?thesis by simp
qed

lemma inv_move_unbounded:
  assumes "runner_inv ids s" and "r_phase s p = Some ph" and "\<not> r_limit s > 0"
    and "\<And>t. status_ok ph (t_Status t) \<Longrightarrow> status_ok ph' (t_Status (f t)) \<and> t_ID (f t) = t_ID t"
    and "ph' \<noteq> AwaitSlot \<and> ph' \<noteq> Releasing"
  shows "runner_inv ids (set_phase p ph' (upd_task p f s))"
proof -
  have "runner_inv ids (set_phase p ph' (upd_task p f (s\<lparr>r_sem := r_sem s\<rparr>)))"
    using assms by (intro inv_move [OF assms(1,2)]) auto
  then show ?thesis by simp
qed

lemma inv_finish:
  assumes "runner_inv ids s" and "r_phase s p = Some Executing"
  shows "runner_inv ids (set_phase p (if r_limit s > 0 then Releasing else Finished) (exec_record p out s))"
proof (cases "r_limit s > 0")
  case True
  then show ?thesis
    by (cases out) (simp_all, (intro inv_move_keep [OF assms], simp_all add: holds_slot_def)+)
next
  case False
  then show ?thesis
    by (cases out) (simp_all, (intro inv_move_unbounded [OF assms], simp_all)+)
qed

lemma runner_inv_step: "runner_step ids s e s' \<Longrightarrow> runner_inv ids s \<Longrightarrow> runner_inv ids s'"
proof (induction rule: runner_step.induct)
  case (check_closed s p c)
  then show ?case unfolding failTask_def
    by (intro inv_move_keep [OF check_closed(3,1)]) (simp_all add: holds_slot_def)
next
  case (check_bounded s p)
  then show ?case
    using inv_move_keep [of ids s p Registered AwaitSlot "\<lambda>t. t"] by (simp add: holds_slot_def)
next
  case (check_unbounded s p)
  then show ?case using inv_move_unbounded [of ids s p Registered Spawned "\<lambda>t. t"] by simp
next
  case (acquire s p)
  then show ?case
    using inv_move [of ids s p AwaitSlot Spawned "\<lambda>t. t" "r_sem s + 1"] by (simp add: holds_slot_def)
next
  case (abandon s p c)
  then show ?case unfolding failTask_def
    by (intro inv_move_keep [OF abandon(3,1)]) (simp_all add: holds_slot_def)
next
  case (start s p)
  then show ?case unfolding exec_start_def
    by (intro inv_move_keep [OF start(2,1)]) (simp_all add: holds_slot_def)
next
  case (finish s p out)
  then show ?case by (intro inv_finish)
next
  case (release s p)
  then have "r_limit s > 0" by (auto simp: runner_inv_def ran_def)
  with release show ?case
    using inv_move [of ids s p Releasing Finished "\<lambda>t. t" "r_sem s - 1"] runner_invD(4) [of ids s]
    by (simp add: holds_slot_def)
qed (simp_all add: inv_submit inv_frame inv_prune)

lemma runner_inv_trace: "runner_trace ids s es s' \<Longrightarrow> runner_inv ids s \<Longrightarrow> runner_inv ids s'"
  by (induction rule: runner_trace.induct) (auto intro: runner_inv_step)

lemma runner_inv_New: "runner_inv ids (NewRunner now opts)"
  by (rule runner_invI) (auto simp: NewRunner_def Let_def holders_def)

lemma Prune_frame: "\<exists>tb. snd (Prune maxAge order s) = s\<lparr>r_tasks := tb\<rparr>
     \<and> (\<forall>i. tb i = None \<longrightarrow> r_tasks s i = None \<or>
          (\<exists>t. runner_Get i s = Some t \<and> t_Status t \<noteq> StatusPending \<and> t_Status t \<noteq> StatusRunning))
     \<and> (\<forall>i p. tb i = Some p \<longrightarrow> r_tasks s i = Some p)"
  using prune_loop_frame [of "r_now s + wrap64 (- maxAge)" order 0 s]
  unfolding Prune_def prunable_def by metis

lemma exec_record_upd: "\<exists>f. exec_record p out s = upd_task p f s \<and> (\<forall>t. t_Status (f t) = StatusDone \<or> t_Status (f t) = StatusFailed)"
  by (cases out) (auto intro!: exI)

lemma exec_record_frame [simp]:
  "r_phase (exec_record p out s) = r_phase s" "r_tasks (exec_record p out s) = r_tasks s"
  "r_next (exec_record p out s) = r_next s" "r_limit (exec_record p out s) = r_limit s"
  "r_closed (exec_record p out s) = r_closed s"
  by (cases out; simp)+

lemma Prune_simps [simp]:
  "r_phase (snd (Prune maxAge order s)) = r_phase s" "r_heap (snd (Prune maxAge order s)) = r_heap s"
  "r_limit (snd (Prune maxAge order s)) = r_limit s" "r_closed (snd (Prune maxAge order s)) = r_closed s"
  using Prune_frame [of maxAge order s] by auto

lemma submit_register_simps [simp]:
  "r_phase (submit_register i kind s) = (r_phase s)(r_next s \<mapsto> Registered)"
  "r_tasks (submit_register i kind s) = (r_tasks s)(i \<mapsto> r_next s)"
  "r_limit (submit_register i kind s) = r_limit s" "r_closed (submit_register i kind s) = r_closed s"
  by (simp_all add: submit_register_def Let_def)

lemma limit_const: "runner_step ids s e s' \<Longrightarrow> r_limit s' = r_limit s"
  by (induction rule: runner_step.induct) (simp_all add: failTask_def exec_start_def)

lemma limit_const_trace: "runner_trace ids s es s' \<Longrightarrow> r_limit s' = r_limit s"
  by (induction rule: runner_trace.induct) (simp_all add: limit_const)

text \<open>C12. The runner keeps its concurrency limit: in every state a run can reach, with a positive limit,
  the semaphore counts exactly the tasks between acquiring and releasing a slot, so at most
  \<open>limit\<close> task functions execute at the same time; the limit is the configured one throughout.\<close>

theorem runner_concurrency_bound:
  fixes s :: "'d runner"
  assumes "runner_trace ids (NewRunner now opts) es s" and "r_limit s > 0"
  shows "r_sem s = card (holders s)
    \<and> int (card {p. r_phase s p = Some Executing}) \<le> r_limit s
    \<and> r_limit s = r_limit (NewRunner now opts :: 'd runner)"
proof -
  have inv: "runner_inv ids s" using runner_inv_trace [OF assms(1)] runner_inv_New by blast
  have "{p. r_phase s p = Some Executing} \<subseteq> holders s" by (auto simp: holders_def holds_slot_def)
  then have "card {p. r_phase s p = Some Executing} \<le> card (holders s)"
    by (rule card_mono [OF finite_holders [OF inv]])
  then show ?thesis using runner_invD(3,4) [OF inv assms(2)] limit_const_trace [OF assms(1)] by simp
qed

theorem runner_concurrency_bound_witness:
  "\<exists>s. runner_trace (\<lambda>n. ''t'' @ show_nat n) (NewRunner 0 [WithLimit 1] :: unit runner)
         [ESubmit ''build'', ECheck 0, EAcquire 0, EStart 0] s
     \<and> int (card {p. r_phase s p = Some Executing}) \<le> 1 \<and> r_sem s = 1"
proof -
  let ?ids = "\<lambda>n. ''t'' @ show_nat n"
  let ?s0 = "NewRunner 0 [WithLimit 1] :: unit runner"
  let ?s1 = "submit_register (?ids (r_next ?s0)) ''build'' ?s0"
  let ?s2 = "set_phase 0 AwaitSlot ?s1"
  let ?s3 = "set_phase 0 Spawned (?s2\<lparr>r_sem := r_sem ?s2 + 1\<rparr>)"
  let ?s4 = "set_phase 0 Executing (exec_start 0 ?s3)"
  have z: "r_next ?s0 = 0" "r_limit ?s0 = 1" "r_closed ?s0 = False" "r_sem ?s0 = 0"
    by (simp_all add: NewRunner_def Let_def WithLimit_def)
  have tr: "runner_trace ?ids ?s0 [ESubmit ''build'', ECheck 0, EAcquire 0, EStart 0] ?s4"
    by (rule runner_trace.step [OF runner_step.submit], rule runner_trace.step [OF runner_step.check_bounded],
        simp_all add: z)
      (rule runner_trace.step [OF runner_step.acquire], (simp add: z submit_register_def Let_def)+,
       rule runner_trace.step [OF runner_step.start], (simp add: runner_trace.nil)+)
  have l: "r_limit ?s4 = 1" "r_sem ?s4 = 1"
    by (simp_all add: exec_start_def z submit_register_def Let_def)
  obtain s where t: "runner_trace ?ids ?s0 [ESubmit ''build'', ECheck 0, EAcquire 0, EStart 0] s"
    and s: "r_limit s = 1" "r_sem s = 1" using tr l by blast
  have "int (card {p. r_phase s p = Some Executing}) \<le> r_limit s"
    using runner_concurrency_bound [OF t] s by simp
  with t s show ?thesis by auto
qed

definition unfinished :: "phase \<Rightarrow> bool" where
  "unfinished ph \<longleftrightarrow> ph = Registered \<or> ph = AwaitSlot \<or> ph = Spawned \<or> ph = Executing"

lemma unfinished_status:
  "unfinished ph \<Longrightarrow> status_ok ph st \<Longrightarrow> st = StatusPending \<or> st = StatusRunning"
  by (auto simp: unfinished_def)

text \<open>Unfinished tasks stay in the table.\<close>

definition tabled :: "(nat \<Rightarrow> string) \<Rightarrow> 'd runner \<Rightarrow> bool" where
  "tabled ids s \<longleftrightarrow> (\<forall>p ph. r_phase s p = Some ph \<longrightarrow> unfinished ph \<longrightarrow> r_tasks s (ids p) = Some p)"

lemma tabled_prune:
  assumes "runner_inv ids s" and "tabled ids s"
  shows "tabled ids (snd (Prune maxAge order s))"
proof -
  obtain tb where s': "snd (Prune maxAge order s) = s\<lparr>r_tasks := tb\<rparr>"
    and del: "\<And>i. tb i = None \<Longrightarrow> r_tasks s i = None \<or>
        (\<exists>t. runner_Get i s = Some t \<and> t_Status t \<noteq> StatusPending \<and> t_Status t \<noteq> StatusRunning)"
    and sub: "\<And>i p. tb i = Some p \<Longrightarrow> r_tasks s i = Some p"
    using Prune_frame [of maxAge order s] by blast
  have "tb (ids p) = Some p" if ph: "r_phase s p = Some ph" and un: "unfinished ph" for p ph
  proof -
    have tab: "r_tasks s (ids p) = Some p" using assms(2) ph un by (simp add: tabled_def)
    obtain t where "r_heap s p = Some t" "status_ok ph (t_Status t)"
      using runner_invD(2) [OF assms(1) ph] by blast
    then have "runner_Get (ids p) s = Some t" "t_Status t = StatusPending \<or> t_Status t = StatusRunning"
      using tab unfinished_status [OF un] by (auto simp: runner_Get_def)
    then have "tb (ids p) \<noteq> None" using del [of "ids p"] tab by auto
    then show ?thesis using sub [of "ids p"] tab by fastforce
  qed
  then show ?thesis by (simp add: s' tabled_def)
qed

lemma tabled_step:
  "runner_step ids s e s' \<Longrightarrow> inj ids \<Longrightarrow> runner_inv ids s \<Longrightarrow> tabled ids s \<Longrightarrow> tabled ids s'"
proof (induction rule: runner_step.induct)
  case (submit s kind)
  have "ids p \<noteq> ids (r_next s)" if "r_phase s p = Some ph" for p ph
    using runner_invD(1) [OF submit(2)] that inj_eq [OF submit(1), of p "r_next s"] by auto
  then show ?case using submit(3) by (auto simp: tabled_def split: if_splits)
qed (auto simp: tabled_def unfinished_def failTask_def exec_start_def split: if_splits
    intro: tabled_prune [unfolded tabled_def unfinished_def, rule_format])

lemma tabled_trace:
  "runner_trace ids s es s' \<Longrightarrow> inj ids \<Longrightarrow> runner_inv ids s \<Longrightarrow> tabled ids s \<Longrightarrow> tabled ids s'"
  by (induction rule: runner_trace.induct) (auto intro: tabled_step runner_inv_step)

text \<open>C17. No unfinished task is ever lost: when task ids do not repeat, in every reachable state a task
  that has not finished is found by \<open>Get\<close> under its id, as pending or running, whatever
  \<open>Prune\<close>, the janitor and \<open>Close\<close> did.\<close>

theorem unfinished_task_visible:
  assumes "runner_trace ids (NewRunner now opts) es s" and "inj ids"
    and "r_phase s p = Some ph" and "unfinished ph"
  shows "\<exists>t. runner_Get (ids p) s = Some t \<and> t_ID t = ids p \<and> t_Status t \<in> {StatusPending, StatusRunning}"
proof -
  have inv: "runner_inv ids s" using runner_inv_trace [OF assms(1)] runner_inv_New by blast
  have "tabled ids s"
    using tabled_trace [OF assms(1,2) runner_inv_New] by (simp add: tabled_def NewRunner_def Let_def)
  then have "r_tasks s (ids p) = Some p" using assms(3,4) by (simp add: tabled_def)
  moreover obtain t where "r_heap s p = Some t" "t_ID t = ids p" "status_ok ph (t_Status t)"
    using runner_invD(2) [OF inv assms(3)] by blast
  ultimately show ?thesis using unfinished_status [OF assms(4)] by (auto simp: runner_Get_def)
qed

lemma task_ids_inj: "inj (\<lambda>n. ''t'' @ show_nat n)"
  by (auto intro!: injI dest: show_nat_inj)

theorem unfinished_task_visible_witness:
  "\<exists>s t. runner_trace (\<lambda>n. ''t'' @ show_nat n) (NewRunner 0 [] :: unit runner) [ESubmit ''build''] s
     \<and> runner_Get (''t'' @ show_nat 0) s = Some t \<and> t_Status t \<in> {StatusPending, StatusRunning}"
proof -
  let ?ids = "\<lambda>n. ''t'' @ show_nat n"
  let ?s0 = "NewRunner 0 [] :: unit runner"
  obtain s where tr: "runner_trace ?ids ?s0 [ESubmit ''build''] s" and ph: "r_phase s 0 = Some Registered"
  proof
    show "runner_trace ?ids ?s0 [ESubmit ''build''] (submit_register (?ids (r_next ?s0)) ''build'' ?s0)"
      by (rule runner_trace.step [OF runner_step.submit runner_trace.nil])
    show "r_phase (submit_register (?ids (r_next ?s0)) ''build'' ?s0) 0 = Some Registered"
      by (simp add: NewRunner_def Let_def)
  qed
  from unfinished_task_visible [OF tr task_ids_inj ph] tr show ?thesis by (auto simp: unfinished_def)
qed

text \<open>A task's status only moves forward: from any reachable state, a step takes a known task from
  pending to running or failed, from running to done or failed, and never changes a task that is
  done or failed in any way.\<close>

theorem task_status_moves_forward:
  assumes "runner_trace ids (NewRunner now opts) es s" and "runner_step ids s e s'"
    and "r_phase s p = Some ph" and "r_heap s p = Some t"
  shows "\<exists>t'. r_heap s' p = Some t' \<and>
     (t' = t \<or> t_Status t = StatusPending \<and> t_Status t' \<in> {StatusRunning, StatusFailed}
      \<or> t_Status t = StatusRunning \<and> t_Status t' \<in> {StatusDone, StatusFailed})"
proof -
  have inv: "runner_inv ids s" using runner_inv_trace [OF assms(1)] runner_inv_New by blast
  have st: "status_ok ph (t_Status t)" using runner_invD(2) [OF inv assms(3)] assms(4) by auto
  from assms(2) show ?thesis
  proof (cases rule: runner_step.cases)
    case (submit kind)
    have "p \<noteq> r_next s" using runner_invD(1) [OF inv] assms(3) by auto
    then show ?thesis using submit assms(4) by (simp add: submit_register_def Let_def)
  next
    case (finish q out)
    obtain f where "exec_record q out s = upd_task q f s"
      and f: "\<And>t. t_Status (f t) = StatusDone \<or> t_Status (f t) = StatusFailed"
      using exec_record_upd [of q out s] by blast
    then show ?thesis using finish assms(3,4) st f [of t] by (cases "q = p") auto
  qed (use assms(3,4) st in \<open>auto simp: failTask_def exec_start_def\<close>)
qed

theorem task_status_moves_forward_witness:
  "\<exists>s t'. runner_trace (\<lambda>n. ''t'' @ show_nat n) (NewRunner 0 [WithLimit 0] :: unit runner) [ESubmit ''build'', ECheck 0] s
     \<and> (\<exists>s' t. runner_step (\<lambda>n. ''t'' @ show_nat n) s (EStart 0) s' \<and> r_heap s 0 = Some t \<and> r_heap s' 0 = Some t'
          \<and> (t' = t \<or> t_Status t = StatusPending \<and> t_Status t' \<in> {StatusRunning, StatusFailed}
             \<or> t_Status t = StatusRunning \<and> t_Status t' \<in> {StatusDone, StatusFailed}))"
proof -
  let ?ids = "\<lambda>n. ''t'' @ show_nat n"
  let ?s0 = "NewRunner 0 [WithLimit 0] :: unit runner"
  let ?s1 = "submit_register (?ids (r_next ?s0)) ''build'' ?s0"
  have z: "r_next ?s0 = 0" "r_limit ?s0 = 0" "r_closed ?s0 = False"
    by (simp_all add: NewRunner_def Let_def WithLimit_def)
  obtain s t where tr: "runner_trace ?ids ?s0 [ESubmit ''build'', ECheck 0] s"
    and ph: "r_phase s 0 = Some Spawned" and hp: "r_heap s 0 = Some t"
  proof
    show "runner_trace ?ids ?s0 [ESubmit ''build'', ECheck 0] (set_phase 0 Spawned ?s1)"
      by (rule runner_trace.step [OF runner_step.submit],
          rule runner_trace.step [OF runner_step.check_unbounded runner_trace.nil]) (simp_all add: z)
  qed (simp_all add: submit_register_def Let_def z)
  obtain s' where st: "runner_step ?ids s (EStart 0) s'" using runner_step.start [OF ph] by blast
  from task_status_moves_forward [OF tr st ph hp] tr st hp show ?thesis by blast
qed

lemma next_simps [simp]:
  "r_next (snd (Prune maxAge order s)) = r_next s" "r_next (submit_register i kind s) = Suc (r_next s)"
  using Prune_frame [of maxAge order s] by (auto simp: submit_register_def Let_def)

definition rejecting :: "nat \<Rightarrow> 'd runner \<Rightarrow> bool" where
  "rejecting p s \<longleftrightarrow> r_closed s \<and> p < r_next s \<and> (r_phase s p = Some Registered \<or> r_phase s p = Some Rejected)"

lemma rejecting_step: "runner_step ids s e s' \<Longrightarrow> rejecting p s \<Longrightarrow> rejecting p s'"
  by (induction rule: runner_step.induct) (auto simp: rejecting_def failTask_def exec_start_def)

lemma rejecting_trace: "runner_trace ids s es s' \<Longrightarrow> rejecting p s \<Longrightarrow> rejecting p s'"
  by (induction rule: runner_trace.induct) (auto intro: rejecting_step)

text \<open>A closed runner starts nothing: a task whose submission has not yet passed the context check when
  the runner is closed is never executed, in any continuation; it can only be recorded as
  failed.\<close>

theorem closed_runner_rejects:
  assumes "r_closed s" and "r_phase s p = Some Registered" and "p < r_next s" and "runner_trace ids s es s'"
  shows "r_phase s' p \<in> {Some Registered, Some Rejected} \<and> r_closed s'"
  using rejecting_trace [OF assms(4), of p] assms(1-3) by (auto simp: rejecting_def)

theorem closed_runner_rejects_witness:
  "\<exists>s s'. r_closed s \<and> r_phase s 0 = Some Registered
     \<and> runner_trace (\<lambda>n. ''t'' @ show_nat n) s [ECheck 0] (s' :: unit runner) \<and> r_phase s' 0 \<in> {Some Registered, Some Rejected}"
proof -
  let ?ids = "\<lambda>n. ''t'' @ show_nat n"
  let ?s = "(submit_register ''t0'' ''build'' (NewRunner 0 []))\<lparr>r_closed := True\<rparr> :: unit runner"
  have c: "r_closed ?s" "r_phase ?s 0 = Some Registered" "0 < r_next ?s"
    by (simp_all add: NewRunner_def Let_def)
  obtain s' where tr: "runner_trace ?ids ?s [ECheck 0] s'"
    using runner_trace.step [OF runner_step.check_closed [OF c(2,1), where c = Canceled] runner_trace.nil] by blast
  from closed_runner_rejects [OF c tr] c tr show ?thesis by blast
qed

end
