(* ===== verification/Go_Time.thy ===== *)
theory Go_Time
  imports Prelude
begin

section \<open>time: instants as text\<close>

text \<open>
  What the repository uses of Go's \<open>time\<close> package beyond durations: an instant with the offset of its location, formatted and parsed as RFC 3339.
  The instant counts nanoseconds from the zero \<open>time.Time\<close>, the first day of year 1 in UTC; the offset is in seconds east of UTC. The parser is
  the strict one that \<open>time.Parse\<close> tries first for this layout.
\<close>

subsection \<open>The calendar\<close>

definition leap_year :: "int \<Rightarrow> bool" where
  "leap_year y \<longleftrightarrow> y mod 4 = 0 \<and> (y mod 100 \<noteq> 0 \<or> y mod 400 = 0)"

definition year_days :: "int \<Rightarrow> int" where
  "year_days y = (if leap_year y then 366 else 365)"

text \<open>The days from the first of January of year 1 to that of a year.\<close>

definition days_before_year :: "int \<Rightarrow> int" where
  "days_before_year y = (let n = y - 1 in 365 * n + n div 4 - n div 100 + n div 400)"

definition month_lengths :: "bool \<Rightarrow> int list" where
  "month_lengths lp = [31, if lp then 29 else 28, 31, 30, 31, 30, 31, 31, 30, 31, 30, 31]"

definition days_in :: "int \<Rightarrow> nat \<Rightarrow> int" where
  "days_in y m = month_lengths (leap_year y) ! (m - 1)"

definition date_days :: "int \<Rightarrow> nat \<Rightarrow> int \<Rightarrow> int" where
  "date_days y m d = days_before_year y + sum_list (take (m - 1) (month_lengths (leap_year y))) + (d - 1)"

text \<open>The year of a day and the day within it: cycles of 400 years, then centuries, then four years, then years; the last century and the last
  year of a cycle are a day longer.\<close>

definition year_and_day :: "int \<Rightarrow> int \<times> int" where
  "year_and_day d =
     (let q = d div 146097; d1 = d mod 146097;
          c = min 3 (d1 div 36524); d2 = d1 - 36524 * c;
          f = d2 div 1461; d3 = d2 - 1461 * f;
          e = min 3 (d3 div 365)
      in (400 * q + 100 * c + 4 * f + e + 1, d3 - 365 * e))"

fun month_and_day :: "int list \<Rightarrow> nat \<Rightarrow> int \<Rightarrow> nat \<times> int" where
  "month_and_day [] m yd = (m, yd + 1)"
| "month_and_day (l # ls) m yd = (if yd < l then (m, yd + 1) else month_and_day ls (m + 1) (yd - l))"

definition civil :: "int \<Rightarrow> int \<times> nat \<times> int" where
  "civil d = (case year_and_day d of (y, yd) \<Rightarrow> case month_and_day (month_lengths (leap_year y)) 1 yd of (m, md) \<Rightarrow> (y, m, md))"

lemma year_and_day_correct:
  assumes "year_and_day d = (y, yd)"
  shows "days_before_year y + yd = d" "0 \<le> yd" "yd < year_days y"
proof -
  define q d1 where "q = d div 146097" and "d1 = d mod 146097"
  define c where "c = min 3 (d1 div 36524)"
  define d2 where "d2 = d1 - 36524 * c"
  define f where "f = d2 div 1461"
  define d3 where "d3 = d2 - 1461 * f"
  define e where "e = min 3 (d3 div 365)"
  have y: "y = 400 * q + 100 * c + 4 * f + e + 1" and yd: "yd = d3 - 365 * e"
    using assms unfolding year_and_day_def Let_def q_def [symmetric] d1_def [symmetric] c_def [symmetric] d2_def [symmetric] f_def [symmetric] d3_def [symmetric] e_def [symmetric] by simp_all
  have d1: "0 \<le> d1" "d1 < 146097" "d = 146097 * q + d1" by (simp_all add: d1_def q_def)
  have c: "0 \<le> c" "c \<le> 3" using d1 by (auto simp: c_def)
  have d2: "0 \<le> d2" "d2 \<le> 36524" "c < 3 \<Longrightarrow> d2 < 36524" using d1 unfolding d2_def c_def by linarith+
  have f: "0 \<le> f" "f \<le> 24" using d2 by (auto simp: f_def)
  have d3: "0 \<le> d3" "d3 \<le> 1460" "f = 24 \<Longrightarrow> c < 3 \<Longrightarrow> d3 < 1460" using d2 unfolding d3_def f_def by linarith+
  have e: "0 \<le> e" "e \<le> 3" using d3 by (auto simp: e_def)
  have yd': "0 \<le> yd" "yd \<le> 365" "e < 3 \<Longrightarrow> yd < 365" using d3 unfolding yd e_def by linarith+
  have n: "y - 1 = 400 * q + (100 * c + (4 * f + e))" by (simp add: y)
  have "(y - 1) div 400 = q" "(y - 1) div 100 = 4 * q + c" "(y - 1) div 4 = 100 * q + 25 * c + f"
    using c f e unfolding n by linarith+
  then show "days_before_year y + yd = d"
    unfolding days_before_year_def Let_def yd d3_def d2_def d1(3) by (simp add: n)
  show "0 \<le> yd" by (rule yd')
  have "leap_year y" if "yd = 365"
  proof -
    have e3: "e = 3" using that yd' e by linarith
    then have "d3 = 1460" using that yd by simp
    then have "f = 24 \<Longrightarrow> c = 3" using d3 c by linarith
    moreover have y4: "y = 4 * (100 * q + 25 * c + f + 1)" "y = 100 * (4 * q + c) + 4 * (f + 1)" unfolding y e3 by simp_all
    moreover have "y mod 4 = 0" unfolding y4(1) by simp
    moreover have "y mod 100 \<noteq> 0" if "f < 24"
    proof -
      have "y mod 100 = 4 * (f + 1) mod 100" unfolding y4(2) by (rule mod_mult_self4)
      then show ?thesis using that f by simp
    qed
    moreover have "y mod 400 = 0" if "f = 24" "c = 3"
    proof -
      have "y = 400 * (q + 1)" using y4(2) that by simp
      then show ?thesis by simp
    qed
    ultimately show ?thesis using f unfolding leap_year_def by (cases "f < 24") simp_all
  qed
  then show "yd < year_days y" using yd' by (cases "yd = 365") (simp_all add: year_days_def)
qed

lemma month_and_day_correct:
  assumes "month_and_day ls m yd = (m', d)" "0 \<le> yd" "yd < sum_list ls"
  shows "m \<le> m' \<and> m' < m + length ls \<and> 1 \<le> d \<and> d \<le> ls ! (m' - m) \<and> sum_list (take (m' - m) ls) + (d - 1) = yd"
  using assms
proof (induction ls m yd rule: month_and_day.induct)
  case (2 l ls m yd)
  show ?case
  proof (cases "yd < l")
    case False
    then have "month_and_day ls (m + 1) (yd - l) = (m', d)" "0 \<le> yd - l" "yd - l < sum_list ls" using 2 by auto
    note IH = 2(1) [OF False this]
    then obtain k where "m' = m + 1 + k" by (metis le_Suc_ex)
    then show ?thesis using IH by auto
  qed (use 2 in auto)
qed auto

lemma month_lengths_sum: "sum_list (month_lengths (leap_year y)) = year_days y" "length (month_lengths lp) = 12"
  by (simp_all add: month_lengths_def year_days_def)

lemma civil_correct:
  assumes "civil n = (y, m, d)"
  shows "date_days y m d = n" "1 \<le> m" "m \<le> 12" "1 \<le> d" "d \<le> days_in y m" "d \<le> 31"
proof -
  obtain yd where yd: "year_and_day n = (y, yd)" and md: "month_and_day (month_lengths (leap_year y)) 1 yd = (m, d)"
    using assms by (auto simp: civil_def split: prod.splits)
  note Y = year_and_day_correct [OF yd]
  have M: "1 \<le> m \<and> m < 1 + 12 \<and> 1 \<le> d \<and> d \<le> month_lengths (leap_year y) ! (m - 1) \<and> sum_list (take (m - 1) (month_lengths (leap_year y))) + (d - 1) = yd"
    using month_and_day_correct [OF md] Y by (simp add: month_lengths_sum)
  show "date_days y m d = n" using M Y by (simp add: date_days_def)
  show "1 \<le> m" "m \<le> 12" "1 \<le> d" "d \<le> days_in y m" using M by (auto simp: days_in_def)
  have "month_lengths (leap_year y) ! (m - 1) \<in> set (month_lengths (leap_year y))" using M by (intro nth_mem) (auto simp: month_lengths_sum)
  then show "d \<le> 31" using M by (auto simp: month_lengths_def split: if_splits)
qed

subsection \<open>Text\<close>

record go_time =
  tm_nano :: int
  tm_offset :: int

definition zero_time :: go_time where "zero_time = \<lparr>tm_nano = 0, tm_offset = 0\<rparr>"

definition IsZero :: "go_time \<Rightarrow> bool" where
  "IsZero t \<longleftrightarrow> tm_nano t = 0"

definition in_utc :: "go_time \<Rightarrow> go_time" where
  "in_utc t = t\<lparr>tm_offset := 0\<rparr>"

text \<open>The seconds on the clock of the location.\<close>

definition wall_secs :: "go_time \<Rightarrow> int" where
  "wall_secs t = tm_nano t div 10 ^ 9 + tm_offset t"

definition pad :: "nat \<Rightarrow> nat \<Rightarrow> string" where
  "pad w n = replicate (w - length (show_nat n)) (CHR ''0'') @ show_nat n"

definition pad_int :: "nat \<Rightarrow> int \<Rightarrow> string" where
  "pad_int w i = (if i < 0 then CHR ''-'' # pad w (nat (- i)) else pad w (nat i))"

text \<open>The offset loses its seconds: Go's division truncates towards zero.\<close>

definition zone_text :: "int \<Rightarrow> string" where
  "zone_text off =
     (if off = 0 then ''Z''
      else (let z = \<bar>off\<bar> div 60 in (if off \<le> - 60 then ''-'' else ''+'') @ pad 2 (nat (z div 60)) @ '':'' @ pad 2 (nat (z mod 60))))"

definition Format_RFC3339 :: "go_time \<Rightarrow> string" where
  "Format_RFC3339 t =
     (let secs = wall_secs t; sod = secs mod 86400 in
      case civil (secs div 86400) of (y, m, d) \<Rightarrow>
        pad_int 4 y @ ''-'' @ pad 2 m @ ''-'' @ pad 2 (nat d) @ ''T'' @ pad 2 (nat (sod div 3600)) @ '':'' @ pad 2 (nat (sod mod 3600 div 60)) @ '':''
        @ pad 2 (nat (sod mod 60)) @ zone_text (tm_offset t))"

definition parse_within :: "nat \<Rightarrow> nat \<Rightarrow> string \<Rightarrow> nat option" where
  "parse_within lo hi s = (case parse_digits s of Some n \<Rightarrow> if lo \<le> n \<and> n \<le> hi then Some n else None | None \<Rightarrow> None)"

text \<open>The nanoseconds of a fraction: its first nine digits.\<close>

definition fraction_nanos :: "string \<Rightarrow> nat" where
  "fraction_nanos ds = (case parse_digits (take 9 (ds @ replicate 9 (CHR ''0''))) of Some n \<Rightarrow> n | None \<Rightarrow> 0)"

definition read_fraction :: "string \<Rightarrow> nat \<times> string" where
  "read_fraction s = (case s of
     c # d # r \<Rightarrow> if c = CHR ''.'' \<and> is_digit d then (fraction_nanos (takeWhile is_digit (d # r)), dropWhile is_digit (d # r)) else (0, s)
   | _ \<Rightarrow> (0, s))"

definition read_zone :: "string \<Rightarrow> int option" where
  "read_zone s =
     (if s = ''Z'' then Some 0
      else if length s \<noteq> 6 then None
      else (case (parse_within 0 23 (take 2 (drop 1 s)), parse_within 0 59 (take 2 (drop 4 s))) of
        (Some h, Some m) \<Rightarrow> if s ! 0 \<in> {CHR ''-'', CHR ''+''} \<and> s ! 3 = CHR '':''
           then Some ((if s ! 0 = CHR ''-'' then -1 else 1) * (int h * 60 + int m) * 60) else None
      | _ \<Rightarrow> None))"

text \<open>\<open>parseRFC3339\<close> of the standard library.\<close>

definition parse_rfc3339 :: "string \<Rightarrow> go_time option" where
  "parse_rfc3339 s =
     (if length s < 19 then None
      else (case (parse_within 0 9999 (take 4 s), parse_within 1 12 (take 2 (drop 5 s))) of
        (Some y, Some m) \<Rightarrow>
          (case (parse_within 1 (nat (days_in (int y) m)) (take 2 (drop 8 s)), parse_within 0 23 (take 2 (drop 11 s)),
                 parse_within 0 59 (take 2 (drop 14 s)), parse_within 0 59 (take 2 (drop 17 s))) of
            (Some d, Some hh, Some mi, Some ss) \<Rightarrow>
              if s ! 4 = CHR ''-'' \<and> s ! 7 = CHR ''-'' \<and> s ! 10 = CHR ''T'' \<and> s ! 13 = CHR '':'' \<and> s ! 16 = CHR '':'' then
                (case read_fraction (drop 19 s) of (ns, z) \<Rightarrow>
                  (case read_zone z of
                     None \<Rightarrow> None
                   | Some off \<Rightarrow> Some \<lparr>tm_nano = (date_days (int y) m (int d) * 86400 + int hh * 3600 + int mi * 60 + int ss - off) * 10 ^ 9 + int ns,
                       tm_offset = off\<rparr>))
              else None
          | _ \<Rightarrow> None)
      | _ \<Rightarrow> None))"

subsection \<open>Durations as text\<close>

text \<open>\<open>Duration.String\<close> and \<open>Duration.Round\<close>. A fraction loses its final zeros; the micro sign is two bytes of UTF-8.\<close>

definition strip_zeros :: "string \<Rightarrow> string" where
  "strip_zeros s = rev (dropWhile (\<lambda>c. c = CHR ''0'') (rev s))"

definition duration_fraction :: "nat \<Rightarrow> nat \<Rightarrow> string" where
  "duration_fraction prec n = (let ds = strip_zeros (pad prec (n mod 10 ^ prec)) in if ds = [] then [] else CHR ''.'' # ds)"

definition Duration_String :: "int \<Rightarrow> string" where
  "Duration_String d =
     (let n = nat \<bar>d\<bar>; sign = (if d < 0 then ''-'' else []) in
      if n = 0 then ''0s''
      else if n < 10 ^ 3 then sign @ show_nat n @ ''ns''
      else if n < 10 ^ 6 then sign @ show_nat (n div 10 ^ 3) @ duration_fraction 3 n @ [CHR 0xC2, CHR 0xB5, CHR ''s'']
      else if n < 10 ^ 9 then sign @ show_nat (n div 10 ^ 6) @ duration_fraction 6 n @ ''ms''
      else (let secs = n div 10 ^ 9; mins = secs div 60; hours = mins div 60 in
        sign @ (if hours > 0 then show_nat hours @ ''h'' else []) @ (if mins > 0 then show_nat (mins mod 60) @ ''m'' else [])
        @ show_nat (secs mod 60) @ duration_fraction 9 n @ ''s''))"

definition Duration_Round :: "int \<Rightarrow> int \<Rightarrow> int" where
  "Duration_Round d m =
     (if m \<le> 0 then d
      else (let r = \<bar>d\<bar> mod m in
        if 2 * r < m then (if d < 0 then d + r else d - r)
        else if d < 0 then max (- (2 ^ 63)) (d + r - m) else min (2 ^ 63 - 1) (d - r + m)))"

lemma duration_text_demo:
  "Duration_String 0 = ''0s''" "Duration_String 5025000000000 = ''1h23m45s''" "Duration_String (- 1500000) = ''-1.5ms''"
  "Duration_String (Duration_Round 61230600001 1000000) = ''1m1.231s''"
  by (simp_all add: Duration_String_def Duration_Round_def duration_fraction_def strip_zeros_def pad_def show_nat.simps Let_def digit_char_def char_of_def bit_0)

subsection \<open>Round trip\<close>

lemma show_nat_length: "n < 10 ^ w \<Longrightarrow> 0 < w \<Longrightarrow> length (show_nat n) \<le> w"
proof (induction w arbitrary: n)
  case (Suc w)
  show ?case
  proof (cases "n < 10")
    case False
    then have "n div 10 < 10 ^ w" "0 < w" using Suc.prems by (cases w; simp)+
    from Suc.IH [OF this] show ?thesis using False by (simp add: show_nat.simps [of n])
  qed (simp add: show_nat.simps [of n])
qed simp

lemma pad_length: "n < 10 ^ w \<Longrightarrow> 0 < w \<Longrightarrow> length (pad w n) = w"
  using show_nat_length [of n w] by (simp add: pad_def)

lemma foldl_zero_digits: "foldl (\<lambda>n c. 10 * n + digit_val c) 0 (replicate k (CHR ''0'') @ s) = foldl (\<lambda>n c. 10 * n + digit_val c) 0 s"
  by (induction k) (simp_all add: digit_val_def)

lemma parse_digits_pad: "parse_digits (pad w n) = Some n"
proof -
  have "list_all is_digit (replicate k (CHR ''0''))" for k by (simp add: list_all_iff is_digit_def)
  then show ?thesis using show_nat_digits [of n] by (simp add: parse_digits_def pad_def foldl_zero_digits foldl_show_nat del: foldl_append)
qed

lemma parse_within_pad [simp]: "lo \<le> n \<Longrightarrow> n \<le> hi \<Longrightarrow> parse_within lo hi (pad w n) = Some n"
  by (simp add: parse_within_def parse_digits_pad)

lemma two_chars: "length s = 2 \<Longrightarrow> \<exists>a b. s = [a, b]"
  by (auto simp: length_Suc_conv numeral_2_eq_2)

lemma four_chars: "length s = 4 \<Longrightarrow> \<exists>a b c d. s = [a, b, c, d]"
  by (auto simp: length_Suc_conv eval_nat_numeral)

lemma parse_rfc3339_fields:
  assumes "length y = 4" "length m = 2" "length d = 2" "length hh = 2" "length mi = 2" "length ss = 2"
  shows "parse_rfc3339 (y @ ''-'' @ m @ ''-'' @ d @ ''T'' @ hh @ '':'' @ mi @ '':'' @ ss @ z) =
     (case (parse_within 0 9999 y, parse_within 1 12 m) of
        (Some y, Some m) \<Rightarrow>
          (case (parse_within 1 (nat (days_in (int y) m)) d, parse_within 0 23 hh, parse_within 0 59 mi, parse_within 0 59 ss) of
            (Some d, Some hh, Some mi, Some ss) \<Rightarrow>
                (case read_fraction z of (ns, z) \<Rightarrow>
                  (case read_zone z of
                     None \<Rightarrow> None
                   | Some off \<Rightarrow> Some \<lparr>tm_nano = (date_days (int y) m (int d) * 86400 + int hh * 3600 + int mi * 60 + int ss - off) * 10 ^ 9 + int ns,
                       tm_offset = off\<rparr>))
          | _ \<Rightarrow> None)
      | _ \<Rightarrow> None)"
proof -
  define s where "s = y @ ''-'' @ m @ ''-'' @ d @ ''T'' @ hh @ '':'' @ mi @ '':'' @ ss @ z"
  obtain y1 y2 y3 y4 m1 m2 d1 d2 h1 h2 i1 i2 s1 s2 where
    "y = [y1, y2, y3, y4]" "m = [m1, m2]" "d = [d1, d2]" "hh = [h1, h2]" "mi = [i1, i2]" "ss = [s1, s2]"
    using assms two_chars four_chars by metis
  then have f: "take 4 s = y" "take 2 (drop 5 s) = m" "take 2 (drop 8 s) = d" "take 2 (drop 11 s) = hh" "take 2 (drop 14 s) = mi" "take 2 (drop 17 s) = ss"
    "drop 19 s = z" "s ! 4 = CHR ''-''" "s ! 7 = CHR ''-''" "s ! 10 = CHR ''T''" "s ! 13 = CHR '':''" "s ! 16 = CHR '':''" "length s = 19 + length z"
    by (simp_all add: s_def)
  show ?thesis unfolding s_def [symmetric] unfolding parse_rfc3339_def f simp_thms if_True by simp
qed

text \<open>Offsets that the text can carry: whole minutes, less than a day.\<close>

definition minute_offset :: "int \<Rightarrow> bool" where
  "minute_offset off \<longleftrightarrow> off mod 60 = 0 \<and> \<bar>off\<bar> < 86400"

lemma read_zone_text:
  assumes "minute_offset off"
  shows "read_zone (zone_text off) = Some off" "read_fraction (zone_text off) = (0, zone_text off)"
proof -
  define z where "z = \<bar>off\<bar> div 60"
  have z: "0 \<le> z" "z < 1440" "\<bar>off\<bar> = 60 * z" using assms by (auto simp: z_def minute_offset_def abs_if split: if_splits)
  define h m where "h = nat (z div 60)" and "m = nat (z mod 60)"
  have hm: "h \<le> 23" "m \<le> 59" "int h * 60 + int m = z" using z by (auto simp: h_def m_def)
  have len: "length (pad 2 h) = 2" "length (pad 2 m) = 2" using hm by (simp_all add: pad_length)
  obtain h1 h2 m1 m2 where p: "pad 2 h = [h1, h2]" "pad 2 m = [m1, m2]" using two_chars [OF len(1)] two_chars [OF len(2)] by blast
  have w: "parse_within 0 23 [h1, h2] = Some h" "parse_within 0 59 [m1, m2] = Some m" using hm by (simp_all flip: p)
  have zt: "zone_text off = (if off = 0 then ''Z'' else (if off < 0 then CHR ''-'' else CHR ''+'') # [h1, h2, CHR '':'', m1, m2])"
  proof -
    have "off \<noteq> 0 \<Longrightarrow> off \<le> - 60 \<longleftrightarrow> off < 0" using z by presburger
    then show ?thesis by (simp add: zone_text_def Let_def p flip: z_def h_def m_def)
  qed
  show "read_fraction (zone_text off) = (0, zone_text off)" by (simp add: zt read_fraction_def)
  show "read_zone (zone_text off) = Some off"
    using z hm(3) by (auto simp: zt read_zone_def w)
qed

definition formattable :: "go_time \<Rightarrow> bool" where
  "formattable t \<longleftrightarrow> minute_offset (tm_offset t) \<and> (case civil (wall_secs t div 86400) of (y, m, d) \<Rightarrow> 0 \<le> y \<and> y \<le> 9999)"

definition to_second :: "go_time \<Rightarrow> go_time" where
  "to_second t = t\<lparr>tm_nano := tm_nano t div 10 ^ 9 * 10 ^ 9\<rparr>"

lemma parse_format:
  assumes "formattable t"
  shows "parse_rfc3339 (Format_RFC3339 t) = Some (to_second t)"
proof -
  define secs where "secs = wall_secs t"
  obtain y m d where c: "civil (secs div 86400) = (y, m, d)" by (metis prod_cases3)
  note C = civil_correct [OF c]
  define sod where "sod = secs mod 86400"
  define hh mi ss where "hh = nat (sod div 3600)" and "mi = nat (sod mod 3600 div 60)" and "ss = nat (sod mod 60)"
  have sod: "0 \<le> sod" "sod < 86400" "secs = secs div 86400 * 86400 + sod" by (simp_all add: sod_def)
  have y: "0 \<le> y" "y \<le> 9999" and off: "minute_offset (tm_offset t)" using assms c by (simp_all add: formattable_def secs_def)
  have "sod mod 60 = sod mod 3600 mod 60" by (simp add: mod_mod_cancel)
  then have "sod div 3600 * 3600 + sod mod 3600 div 60 * 60 + sod mod 60 = sod"
    using div_mult_mod_eq [of sod 3600] div_mult_mod_eq [of "sod mod 3600" 60] by linarith
  then have hms: "hh \<le> 23" "mi \<le> 59" "ss \<le> 59" "int hh * 3600 + int mi * 60 + int ss = sod" using sod by (auto simp: hh_def mi_def ss_def)
  have fmt: "Format_RFC3339 t = pad 4 (nat y) @ ''-'' @ pad 2 m @ ''-'' @ pad 2 (nat d) @ ''T'' @ pad 2 hh @ '':'' @ pad 2 mi @ '':'' @ pad 2 ss @ zone_text (tm_offset t)"
    using y(1) by (simp add: Format_RFC3339_def Let_def pad_int_def c hh_def mi_def ss_def sod_def flip: secs_def)
  have len: "length (pad 4 (nat y)) = 4" "length (pad 2 m) = 2" "length (pad 2 (nat d)) = 2" "length (pad 2 hh) = 2" "length (pad 2 mi) = 2" "length (pad 2 ss) = 2"
    using y C hms by (simp_all add: pad_length)
  have "nat y \<le> 9999" "Suc 0 \<le> m" "Suc 0 \<le> nat d" "nat d \<le> nat (days_in y m)" using y C by simp_all
  then have "parse_rfc3339 (Format_RFC3339 t) =
      Some \<lparr>tm_nano = (date_days y m d * 86400 + int hh * 3600 + int mi * 60 + int ss - tm_offset t) * 10 ^ 9, tm_offset = tm_offset t\<rparr>"
    unfolding fmt parse_rfc3339_fields [OF len] using y C hms read_zone_text [OF off] by simp
  also have "date_days y m d * 86400 + int hh * 3600 + int mi * 60 + int ss - tm_offset t = tm_nano t div 10 ^ 9"
    using C(1) hms(4) sod(3) unfolding secs_def wall_secs_def by simp
  finally show ?thesis by (simp add: to_second_def)
qed

end
