(* ===== verification/Coordination.thy ===== *)
theory Coordination
  imports Go_Errors Go_Time
begin

section \<open>platform/coordination: the published language of windows\<close>

text \<open>
  \<open>src/go/platform/coordination/coordination.go\<close>: subjects, holders and the sentinels, the part of
  \<open>path/filepath\<close> that composes file names (Unix), and the contract of the \<open>Waiter\<close> and \<open>Excluder\<close>
  interfaces as the locale \<open>exclusion\<close>, which the file lock (Filelock) and the run-state lock
  (Runstate) interpret.
\<close>

subsection \<open>Subjects and holders\<close>

definition ErrBadSubject :: "'x err" where
  "ErrBadSubject = sentinel ''coordination.ErrBadSubject''
     ''subject may not be empty, a parent reference, or contain a path separator''"

definition ErrLocked :: "'x err" where
  "ErrLocked = sentinel ''coordination.ErrLocked'' ''another holder is already inside this window''"

definition ErrStaleLock :: "'x err" where
  "ErrStaleLock = sentinel ''coordination.ErrStaleLock''
     ''the window is claimed by a holder record that was left behind''"

text \<open>\<open>Subject.Validate\<close> for the path separator of the platform.\<close>

definition Subject_Validate :: "char \<Rightarrow> string \<Rightarrow> 'x err option" where
  "Subject_Validate path_sep subject =
     (if subject = '''' \<or> subject = ''.'' \<or> subject = ''..'' then Some (wrapf (go_quote subject @ '': '') ErrBadSubject)
      else if path_sep \<in> set subject \<or> CHR ''/'' \<in> set subject then Some (wrapf (go_quote subject @ '': '') ErrBadSubject)
      else if str_contains subject ''..'' then Some (wrapf (go_quote subject @ '': '') ErrBadSubject)
      else None)"

record holder =
  h_PID :: int
  h_Host :: string
  h_Since :: go_time
  h_Purpose :: string

definition zero_holder :: holder where
  "zero_holder = \<lparr>h_PID = 0, h_Host = [], h_Since = zero_time, h_Purpose = []\<rparr>"

text \<open>\<open>Self\<close> from what the system answers: the host name or an error, the process number and the clock.\<close>

definition Self :: "'x err + string \<Rightarrow> int \<Rightarrow> go_time \<Rightarrow> string \<Rightarrow> holder" where
  "Self os_Hostname os_Getpid now purpose =
     \<lparr>h_PID = os_Getpid, h_Host = (case os_Hostname of Inl e \<Rightarrow> ''unknown'' | Inr host \<Rightarrow> host), h_Since = in_utc now, h_Purpose = purpose\<rparr>"

definition Holder_String :: "holder \<Rightarrow> string" where
  "Holder_String h =
     ''pid '' @ show_int (h_PID h) @ '' on '' @ h_Host h @ '' since '' @ Format_RFC3339 (h_Since h) @ '' ('' @
     (if h_Purpose h = [] then ''unstated purpose'' else h_Purpose h) @ '')''"

definition Holder_Age :: "int \<Rightarrow> holder \<Rightarrow> int" where
  "Holder_Age now h = (if IsZero (h_Since h) then 0 else time_sub now (tm_nano (h_Since h)))"

lemma Subject_Validate_NoneD:
  assumes "Subject_Validate path_sep subject = None"
  shows "subject \<noteq> ''''" "subject \<noteq> ''.''" "subject \<noteq> ''..''" "CHR ''/'' \<notin> set subject"
    "\<not> str_contains subject ''..''"
  using assms by (auto simp: Subject_Validate_def split: if_splits)

subsection \<open>filepath.Join\<close>

text \<open>\<open>filepath.Clean\<close>, one component at a time over the stack of components kept so far (last first).\<close>

definition clean_step :: "bool \<Rightarrow> string list \<Rightarrow> string \<Rightarrow> string list" where
  "clean_step rooted st c =
     (if c = '''' \<or> c = ''.'' then st
      else if c = ''..'' then
        (case st of [] \<Rightarrow> if rooted then [] else [''..'']
         | x # xs \<Rightarrow> if x = ''..'' then ''..'' # st else xs)
      else c # st)"

definition path_Clean :: "string \<Rightarrow> string" where
  "path_Clean p =
     (let rooted = has_prefix p ''/'';
          st = foldl (clean_step rooted) [] (split_on (CHR ''/'') p)
      in if rooted then CHR ''/'' # join_with ''/'' (rev st)
         else if st = [] then ''.'' else join_with ''/'' (rev st))"

definition path_Join :: "string \<Rightarrow> string \<Rightarrow> string" where
  "path_Join d name =
     (if d = '''' then (if name = '''' then '''' else path_Clean name)
      else if name = '''' then path_Clean d
      else path_Clean (d @ ''/'' @ name))"

definition plain_name :: "string \<Rightarrow> bool" where
  "plain_name n \<longleftrightarrow> n \<noteq> '''' \<and> n \<noteq> ''.'' \<and> n \<noteq> ''..'' \<and> CHR ''/'' \<notin> set n"

lemma plain_name_infix:
  assumes "s \<noteq> ''''" "s \<noteq> ''.''" "s \<noteq> ''..''" and "CHR ''/'' \<notin> set (t @ s @ u)"
  shows "plain_name (t @ s @ u)"
proof -
  have "s \<in> {''.'', ''..''}" if "t @ s @ u = ds" "ds \<in> {''.'', ''..''}" for ds
  proof -
    have len: "length s \<le> 2" using arg_cong [OF that(1), of length] that(2) by auto
    moreover have "set s \<subseteq> {CHR ''.''}" using arg_cong [OF that(1), of set] that(2) by auto
    ultimately show ?thesis using assms(1) by (cases s; cases "tl s"; cases "tl (tl s)") auto
  qed
  then show ?thesis using assms by (auto simp: plain_name_def)
qed

lemma join_with_snoc: "join_with sep (xs @ [a]) = (if xs = [] then a else join_with sep xs @ sep @ a)"
  by (induction sep xs rule: join_with.induct) auto

lemma clean_step_plain: "plain_name n \<Longrightarrow> clean_step rooted st n = n # st"
  by (simp add: clean_step_def plain_name_def)

text \<open>A directory and a plain name compose to a path that starts with a text of the directory alone.\<close>

definition clean_dir :: "string \<Rightarrow> string" where
  "clean_dir d = (let rooted = has_prefix d ''/'';
      st = (if d = '''' then [] else foldl (clean_step rooted) [] (split_on (CHR ''/'') d))
     in (if rooted then ''/'' else '''') @ (if st = [] then '''' else join_with ''/'' (rev st) @ ''/''))"

lemma path_Join_plain:
  assumes "plain_name n"
  shows "path_Join d n = clean_dir d @ n"
proof -
  have "\<not> has_prefix n ''/''" using assms by (cases n) (auto simp: plain_name_def has_prefix_def)
  moreover have "split_on (CHR ''/'') n = [n]" using assms by (simp add: plain_name_def split_on_no_sep)
  moreover have "split_on (CHR ''/'') (d @ CHR ''/'' # n) = split_on (CHR ''/'') d @ [n]"
    using calculation(2) by (simp add: split_on_sep_append)
  moreover have "has_prefix (d @ x) ''/'' = has_prefix d ''/''" if "d \<noteq> ''''" for x
    using that by (cases d) (auto simp: has_prefix_def)
  moreover have "n \<noteq> ''''" "\<not> has_prefix '''' ''/''" using assms by (simp_all add: plain_name_def has_prefix_def)
  ultimately show ?thesis
    by (simp add: path_Join_def path_Clean_def clean_dir_def Let_def clean_step_plain [OF assms] join_with_snoc)
qed

lemma path_Join_inj: "plain_name m \<Longrightarrow> plain_name n \<Longrightarrow> path_Join d m = path_Join d n \<Longrightarrow> m = n"
  by (simp add: path_Join_plain)

text \<open>The same below a prefix that may itself hold separators: only the part after its last separator
  becomes part of the file's name.\<close>

lemma path_Join_sub:
  obtains D where "\<And>n. plain_name n \<Longrightarrow> path_Join d (b @ ''/'' @ n) = D @ n"
proof -
  have "path_Join d (b @ ''/'' @ n) =
      (if d = '''' then (if b = '''' then ''/'' else clean_dir b) else clean_dir (d @ ''/'' @ b)) @ n" if "plain_name n" for n
  proof -
    have "path_Join d (b @ ''/'' @ n) = path_Join (d @ ''/'' @ b) n" if "d \<noteq> ''''"
      using that \<open>plain_name n\<close> by (simp add: path_Join_def plain_name_def)
    moreover have "path_Join '''' (b @ ''/'' @ n) = path_Join b n" if "b \<noteq> ''''"
      using that \<open>plain_name n\<close> by (simp add: path_Join_def plain_name_def)
    moreover have "path_Join '''' (''/'' @ n) = ''/'' @ n"
      using \<open>plain_name n\<close>
      by (simp add: path_Join_def path_Clean_def has_prefix_def split_on_no_sep plain_name_def Let_def clean_step_def)
    ultimately show ?thesis using path_Join_plain [OF \<open>plain_name n\<close>] by auto
  qed
  then show ?thesis using that by blast
qed

lemma path_Join_prefix:
  obtains D t where "CHR ''/'' \<notin> set t" and "\<And>n. CHR ''/'' \<notin> set n \<Longrightarrow> plain_name (t @ n) \<Longrightarrow> path_Join d (p @ n) = D @ t @ n"
proof (cases "CHR ''/'' \<in> set p")
  case False
  then show ?thesis using that [of p "clean_dir d"] by (simp add: path_Join_plain)
next
  case True
  then obtain b t where p: "p = b @ CHR ''/'' # t" and t: "CHR ''/'' \<notin> set t" by (blast dest: split_list_last)
  obtain D where D: "\<And>n. plain_name n \<Longrightarrow> path_Join d (b @ ''/'' @ n) = D @ n"
    using path_Join_sub [of d b] by blast
  show ?thesis using that [of t D] D t by (simp add: p)
qed

subsection \<open>The contract of the interfaces\<close>

text \<open>What a client of \<open>Waiter\<close> or \<open>Excluder\<close> relies on: over any steps of the implementation, at most one
  caller is inside a window, and while one is, the window is marked as taken. An implementation
  provides an invariant that its steps keep.\<close>

locale exclusion =
  fixes step :: "'s \<Rightarrow> 's \<Rightarrow> bool" and start :: 's and safe :: "'s \<Rightarrow> bool"
    and inside :: "'s \<Rightarrow> 'k \<Rightarrow> 'c \<Rightarrow> bool" and taken :: "'s \<Rightarrow> 'k \<Rightarrow> bool"
  assumes start_safe: "safe start"
    and step_safe: "safe s \<Longrightarrow> step s s' \<Longrightarrow> safe s'"
    and safe_taken: "safe s \<Longrightarrow> inside s k c \<Longrightarrow> taken s k"
    and safe_alone: "safe s \<Longrightarrow> inside s k c \<Longrightarrow> inside s k c' \<Longrightarrow> c = c'"
begin

lemma reach_safe: "step\<^sup>*\<^sup>* start s \<Longrightarrow> safe s"
  by (induction rule: rtranclp_induct) (auto intro: start_safe step_safe)

lemma reach_alone: "step\<^sup>*\<^sup>* start s \<Longrightarrow> inside s k c \<Longrightarrow> inside s k c' \<Longrightarrow> c = c'"
  using reach_safe safe_alone by blast

lemma reach_taken: "step\<^sup>*\<^sup>* start s \<Longrightarrow> inside s k c \<Longrightarrow> taken s k"
  using reach_safe safe_taken by blast

lemma one_inside:
  assumes "step\<^sup>*\<^sup>* start s" shows "finite {c. inside s k c} \<and> card {c. inside s k c} \<le> (if taken s k then 1 else 0)"
proof (cases "\<exists>c. inside s k c")
  case True
  then obtain c where c: "inside s k c" by blast
  then have "{c. inside s k c} = {c}" using reach_alone [OF assms] by blast
  then show ?thesis using reach_taken [OF assms c] by simp
qed simp

end

end
