(* ===== verification/Filelock.thy ===== *)
theory Filelock
  imports Retry Coordination
begin

section \<open>platform/coordination/filelock: the waiting file lock\<close>

text \<open>
  \<open>src/go/platform/coordination/filelock/filelock.go\<close>. The first part models the pure functions; the second the directory of one subject's window and
  \<open>Acquire\<close> and its release as a step relation, one rule per system call, for any number of callers
  (a process that dies is a caller that takes no more steps). Encoding a holder is left open (any
  bytes), decoding one (\<open>json.Unmarshal\<close>) is the parameter \<open>parse_holder\<close>.
\<close>

subsection \<open>Paths, options and the polling delay\<close>

definition LockSuffix :: string where "LockSuffix = ''.lock''"
definition FenceSuffix :: string where "FenceSuffix = ''.fence''"

text \<open>\<open>Store.path\<close> for a store directory \<open>sdir\<close>, and the two paths built from it.\<close>

definition store_path :: "char \<Rightarrow> string \<Rightarrow> string \<Rightarrow> string \<Rightarrow> 'x err + string" where
  "store_path path_sep sdir subject suff =
     (case Subject_Validate path_sep subject of Some e \<Rightarrow> Inl (wrapf '''' e)
      | None \<Rightarrow> Inr (path_Join sdir (subject @ suff)))"

definition LockPath :: "char \<Rightarrow> string \<Rightarrow> string \<Rightarrow> 'x err + string" where
  "LockPath path_sep sdir subject = store_path path_sep sdir subject LockSuffix"

definition FencePath :: "char \<Rightarrow> string \<Rightarrow> string \<Rightarrow> 'x err + string" where
  "FencePath path_sep sdir subject = store_path path_sep sdir subject FenceSuffix"

text \<open>No two subjects share a file, and no record of one is the counter of another.\<close>

lemma store_paths_apart:
  assumes "store_path path_sep sdir subject suff = (Inr p :: 'x err + string)"
    and "store_path path_sep sdir subject' suff' = (Inr p :: 'x err + string)"
    and "suff \<in> {LockSuffix, FenceSuffix}" and "suff' \<in> {LockSuffix, FenceSuffix}"
  shows "subject = subject' \<and> suff = suff'"
proof -
  have ok: "Subject_Validate path_sep subject = (None :: 'x err option)" "Subject_Validate path_sep subject' = (None :: 'x err option)"
    and eq: "path_Join sdir (subject @ suff) = path_Join sdir (subject' @ suff')"
    using assms(1,2) by (auto simp: store_path_def split: option.splits)
  note sub = Subject_Validate_NoneD [OF ok(1)] Subject_Validate_NoneD [OF ok(2)]
  have "plain_name (subject @ suff)" "plain_name (subject' @ suff')"
    using plain_name_infix [of subject "[]" suff] plain_name_infix [of subject' "[]" suff'] sub assms(3,4)
    by (auto simp: LockSuffix_def FenceSuffix_def)
  from path_Join_inj [OF this eq] have "subject @ suff = subject' @ suff'" .
  then show ?thesis using assms(3,4)
    by (auto simp: LockSuffix_def FenceSuffix_def append_eq_append_conv2 append_eq_Cons_conv Cons_eq_append_conv)
qed

record fl_options =
  PollMin :: int
  PollMax :: int
  StaleAfter :: int

definition DefaultPollMin :: int where "DefaultPollMin = 100 * millisecond"
definition DefaultPollMax :: int where "DefaultPollMax = 400 * millisecond"

definition jitteredPoll :: "'w retry_env \<Rightarrow> fl_options \<Rightarrow> 'w \<Rightarrow> int \<times> 'w" where
  "jitteredPoll env opts w =
     (let (minWait, maxWait) = (if PollMin opts \<le> 0 \<or> PollMax opts \<le> PollMin opts
         then (DefaultPollMin, DefaultPollMax) else (PollMin opts, PollMax opts))
      in case rand_int64n env (maxWait - minWait) w of (r, w') \<Rightarrow> (wrap64 (minWait + r), w'))"

subsection \<open>The directory\<close>

text \<open>Names of one subject's window: the holder record, the counter, the staging file of a caller and
  the set-aside file of a reclaim. Names point to inodes; a new file takes any inode number that
  no name uses, in particular one freed a moment ago.\<close>

datatype fname = LockF | FenceF | TempF nat | TombF nat

record inode =
  i_content :: string
  i_mtime :: int

record filesys =
  dir :: "fname \<rightharpoonup> nat"
  inodes :: "nat \<rightharpoonup> inode"

definition fs_create :: "fname \<Rightarrow> nat \<Rightarrow> string \<Rightarrow> int \<Rightarrow> filesys \<Rightarrow> filesys" where
  "fs_create nm i content now fs =
     fs\<lparr>dir := (dir fs)(nm \<mapsto> i), inodes := (inodes fs)(i \<mapsto> \<lparr>i_content = content, i_mtime = now\<rparr>)\<rparr>"

definition fs_remove :: "fname \<Rightarrow> filesys \<Rightarrow> filesys" where
  "fs_remove nm fs = fs\<lparr>dir := (dir fs)(nm := None)\<rparr>"

text \<open>\<open>os.Link\<close> refuses an existing target; \<open>os.Rename\<close> replaces it.\<close>

definition fs_link :: "fname \<Rightarrow> fname \<Rightarrow> filesys \<Rightarrow> filesys option" where
  "fs_link old new fs = (case (dir fs old, dir fs new) of
      (Some i, None) \<Rightarrow> Some (fs\<lparr>dir := (dir fs)(new \<mapsto> i)\<rparr>) | _ \<Rightarrow> None)"

definition fs_rename :: "fname \<Rightarrow> fname \<Rightarrow> filesys \<Rightarrow> filesys option" where
  "fs_rename old new fs = (case dir fs old of
      None \<Rightarrow> None | Some i \<Rightarrow> Some (fs\<lparr>dir := (dir fs)(new \<mapsto> i, old := None)\<rparr>))"

text \<open>The type \<open>record\<close> and its method \<open>same\<close>: the identity and the bytes.\<close>

record lrec =
  rec_ino :: nat
  rec_raw :: string

definition rec_same :: "lrec \<Rightarrow> fname \<Rightarrow> filesys \<Rightarrow> bool" where
  "rec_same r nm fs = (case dir fs nm of
      None \<Rightarrow> False
    | Some i \<Rightarrow> i = rec_ino r \<and> (case inodes fs i of None \<Rightarrow> False | Some nd \<Rightarrow> i_content nd = rec_raw r))"

definition readHolder :: "(string \<Rightarrow> holder option) \<Rightarrow> fname \<Rightarrow> filesys \<Rightarrow> (holder \<times> lrec) option" where
  "readHolder parse_holder nm fs = (case dir fs nm of
      None \<Rightarrow> None
    | Some i \<Rightarrow> (case inodes fs i of
        None \<Rightarrow> None
      | Some nd \<Rightarrow>
          (let r = \<lparr>rec_ino = i, rec_raw = i_content nd\<rparr> in
           case parse_holder (i_content nd) of
             None \<Rightarrow> Some (zero_holder, r)
           | Some h \<Rightarrow> Some ((if IsZero (h_Since h) then h\<lparr>h_Since := \<lparr>tm_nano = i_mtime nd, tm_offset = 0\<rparr>\<rparr> else h), r))))"

text \<open>\<open>reclaim\<close> up to the call of \<open>takeAside\<close>: the record judged abandoned, if any.\<close>

definition judge :: "(string \<Rightarrow> holder option) \<Rightarrow> fl_options \<Rightarrow> int \<Rightarrow> filesys \<Rightarrow> lrec option" where
  "judge parse_holder opts now fs =
     (if StaleAfter opts \<le> 0 then None
      else (case readHolder parse_holder LockF fs of
          None \<Rightarrow> None
        | Some (h, r) \<Rightarrow> if Holder_Age now h \<le> StaleAfter opts then None else Some r))"

text \<open>The value \<open>advanceFence\<close> computes from the counter file; \<open>None\<close> when it does not parse.\<close>

definition next_fence :: "filesys \<Rightarrow> nat option" where
  "next_fence fs = (case dir fs FenceF of
      None \<Rightarrow> Some 1
    | Some j \<Rightarrow> (case inodes fs j of
        None \<Rightarrow> None
      | Some nd \<Rightarrow> (case parse_uint64 (trim_space (i_content nd)) of
          None \<Rightarrow> None
        | Some n \<Rightarrow> Some ((n + 1) mod 2 ^ 64))))"

definition fence_text :: "nat \<Rightarrow> string" where
  "fence_text n = show_nat n @ [CHR 0x0A]"

subsection \<open>Callers\<close>

text \<open>Where a call of \<open>Acquire\<close>, or the release it returned, stands.\<close>

datatype pc =
    Idle
  | Staged lrec           \<comment> \<open>claim: staging file complete and stat'ed\<close>
  | Refused               \<comment> \<open>claim: the link was refused\<close>
  | Linked lrec           \<comment> \<open>claim: the link landed\<close>
  | Unstaged lrec         \<comment> \<open>claim: staging name removed\<close>
  | Entered lrec          \<comment> \<open>claim returned; enter\<close>
  | FenceRead lrec nat    \<comment> \<open>advanceFence: counter read\<close>
  | FenceStaged lrec nat  \<comment> \<open>writeAtomic: new counter staged\<close>
  | FenceRenamed lrec nat \<comment> \<open>writeAtomic: new counter in place\<close>
  | Held lrec nat         \<comment> \<open>Acquire returned the release and the fence\<close>
  | Leaving lrec          \<comment> \<open>releaseOwn is to be called\<close>
  | Removing lrec         \<comment> \<open>releaseOwn: the record was found to be its own\<close>
  | Contended             \<comment> \<open>the window is taken; reclaim is to be called\<close>
  | Judged lrec           \<comment> \<open>takeAside of a record judged abandoned\<close>
  | TombReady lrec nat    \<comment> \<open>takeAside: set-aside name reserved\<close>
  | Moved lrec nat        \<comment> \<open>takeAside: record renamed onto it\<close>
  | Restoring nat         \<comment> \<open>takeAside: it was somebody else's\<close>
  | TombRubbish nat       \<comment> \<open>takeAside: the set-aside name is to be removed\<close>
  | Polling

record fl_state =
  fl_fs :: filesys
  fl_pcs :: "nat \<Rightarrow> pc"
  fl_now :: int
  fl_handed :: "(nat \<times> nat) list"   \<comment> \<open>history: callers with the fences handed to them, latest first\<close>

definition set_pc :: "nat \<Rightarrow> pc \<Rightarrow> fl_state \<Rightarrow> fl_state" where
  "set_pc c p s = s\<lparr>fl_pcs := (fl_pcs s)(c := p)\<rparr>"

definition fresh_inode :: "nat \<Rightarrow> filesys \<Rightarrow> bool" where
  "fresh_inode i fs \<longleftrightarrow> i \<notin> ran (dir fs)"

text \<open>\<open>reclaim\<close> and \<open>takeAside\<close>: judge the record, reserve a set-aside name, rename the record onto it,
  check that what was moved is what was judged, and put it back with a link if it was not.\<close>

inductive reclaim_step :: "(string \<Rightarrow> holder option) \<Rightarrow> fl_options \<Rightarrow> fl_state \<Rightarrow> nat \<Rightarrow> fl_state \<Rightarrow> bool"
  for parse_holder opts where
  judged: "fl_pcs s c = Contended \<Longrightarrow> judge parse_holder opts (fl_now s) (fl_fs s) = Some r \<Longrightarrow>
    reclaim_step parse_holder opts s c (set_pc c (Judged r) s)"
| not_judged: "fl_pcs s c = Contended \<Longrightarrow> reclaim_step parse_holder opts s c (set_pc c Polling s)"
| tomb: "fl_pcs s c = Judged r \<Longrightarrow> fresh_inode i (fl_fs s) \<Longrightarrow> dir (fl_fs s) (TombF k) = None \<Longrightarrow>
    reclaim_step parse_holder opts s c (set_pc c (TombReady r k) (s\<lparr>fl_fs := fs_create (TombF k) i '''' (fl_now s) (fl_fs s)\<rparr>))"
| tomb_failed: "fl_pcs s c = Judged r \<Longrightarrow> reclaim_step parse_holder opts s c (set_pc c Idle s)"
| set_aside: "fl_pcs s c = TombReady r k \<Longrightarrow> fs_rename LockF (TombF k) (fl_fs s) = Some fs' \<Longrightarrow>
    reclaim_step parse_holder opts s c (set_pc c (Moved r k) (s\<lparr>fl_fs := fs'\<rparr>))"
| set_aside_gone: "fl_pcs s c = TombReady r k \<Longrightarrow> dir (fl_fs s) LockF = None \<Longrightarrow> reclaim_step parse_holder opts s c (set_pc c (TombRubbish k) s)"
| moved_judged: "fl_pcs s c = Moved r k \<Longrightarrow> rec_same r (TombF k) (fl_fs s) \<Longrightarrow> reclaim_step parse_holder opts s c (set_pc c (TombRubbish k) s)"
| moved_other: "fl_pcs s c = Moved r k \<Longrightarrow> \<not> rec_same r (TombF k) (fl_fs s) \<Longrightarrow> reclaim_step parse_holder opts s c (set_pc c (Restoring k) s)"
| restored: "fl_pcs s c = Restoring k \<Longrightarrow> fs_link (TombF k) LockF (fl_fs s) = Some fs' \<Longrightarrow>
    reclaim_step parse_holder opts s c (set_pc c (TombRubbish k) (s\<lparr>fl_fs := fs'\<rparr>))"
| not_restored: "fl_pcs s c = Restoring k \<Longrightarrow> dir (fl_fs s) LockF \<noteq> None \<Longrightarrow> reclaim_step parse_holder opts s c (set_pc c Idle s)"
| tomb_removed: "fl_pcs s c = TombRubbish k \<Longrightarrow>
    reclaim_step parse_holder opts s c (set_pc c Polling (s\<lparr>fl_fs := fs_remove (TombF k) (fl_fs s)\<rparr>))"

text \<open>\<open>claim\<close>, \<open>enter\<close>, \<open>advanceFence\<close> and \<open>releaseOwn\<close>, one system call at a time, and the loop of \<open>Acquire\<close>
  around them.\<close>

inductive fl_step :: "(string \<Rightarrow> holder option) \<Rightarrow> fl_options \<Rightarrow> fl_state \<Rightarrow> nat \<Rightarrow> fl_state \<Rightarrow> bool"
  for parse_holder opts where
  tick: "fl_now s \<le> t \<Longrightarrow> fl_step parse_holder opts s c (s\<lparr>fl_now := t\<rparr>)"
\<comment> \<open>claim\<close>
| stage: "fl_pcs s c = Idle \<Longrightarrow> fresh_inode i (fl_fs s) \<Longrightarrow>
    fl_step parse_holder opts s c (set_pc c (Staged \<lparr>rec_ino = i, rec_raw = raw\<rparr>) (s\<lparr>fl_fs := fs_create (TempF c) i raw (fl_now s) (fl_fs s)\<rparr>))"
| link: "fl_pcs s c = Staged r \<Longrightarrow> fs_link (TempF c) LockF (fl_fs s) = Some fs' \<Longrightarrow>
    fl_step parse_holder opts s c (set_pc c (Linked r) (s\<lparr>fl_fs := fs'\<rparr>))"
| link_refused: "fl_pcs s c = Staged r \<Longrightarrow> fl_step parse_holder opts s c (set_pc c Refused s)"
| refused_unstage: "fl_pcs s c = Refused \<Longrightarrow>
    fl_step parse_holder opts s c (set_pc c Contended (s\<lparr>fl_fs := fs_remove (TempF c) (fl_fs s)\<rparr>))"
| unstage: "fl_pcs s c = Linked r \<Longrightarrow>
    fl_step parse_holder opts s c (set_pc c (Unstaged r) (s\<lparr>fl_fs := fs_remove (TempF c) (fl_fs s)\<rparr>))"
| claimed: "fl_pcs s c = Unstaged r \<Longrightarrow> fl_step parse_holder opts s c (set_pc c (Entered r) s)"
| claim_fsync_failed: "fl_pcs s c = Unstaged r \<Longrightarrow> fl_step parse_holder opts s c (set_pc c (Leaving r) s)"
\<comment> \<open>enter and advanceFence\<close>
| fence_read: "fl_pcs s c = Entered r \<Longrightarrow> next_fence (fl_fs s) = Some n \<Longrightarrow>
    fl_step parse_holder opts s c (set_pc c (FenceRead r n) s)"
| fence_read_failed: "fl_pcs s c = Entered r \<Longrightarrow> fl_step parse_holder opts s c (set_pc c (Leaving r) s)"
| fence_stage: "fl_pcs s c = FenceRead r n \<Longrightarrow> fresh_inode i (fl_fs s) \<Longrightarrow>
    fl_step parse_holder opts s c (set_pc c (FenceStaged r n) (s\<lparr>fl_fs := fs_create (TempF c) i (fence_text n) (fl_now s) (fl_fs s)\<rparr>))"
| fence_stage_failed: "fl_pcs s c = FenceRead r n \<Longrightarrow> fl_step parse_holder opts s c (set_pc c (Leaving r) s)"
| fence_rename: "fl_pcs s c = FenceStaged r n \<Longrightarrow> fs_rename (TempF c) FenceF (fl_fs s) = Some fs' \<Longrightarrow>
    fl_step parse_holder opts s c (set_pc c (FenceRenamed r n) (s\<lparr>fl_fs := fs'\<rparr>))"
| fence_rename_failed: "fl_pcs s c = FenceStaged r n \<Longrightarrow>
    fl_step parse_holder opts s c (set_pc c (Leaving r) (s\<lparr>fl_fs := fs_remove (TempF c) (fl_fs s)\<rparr>))"
| fence_fsync_failed: "fl_pcs s c = FenceRenamed r n \<Longrightarrow> fl_step parse_holder opts s c (set_pc c (Leaving r) s)"
| acquired: "fl_pcs s c = FenceRenamed r n \<Longrightarrow>
    fl_step parse_holder opts s c (set_pc c (Held r n) (s\<lparr>fl_handed := (c, n) # fl_handed s\<rparr>))"
\<comment> \<open>the release, and the error paths of enter and claim\<close>
| release: "fl_pcs s c = Held r n \<Longrightarrow> fl_step parse_holder opts s c (set_pc c (Leaving r) s)"
| own_record: "fl_pcs s c = Leaving r \<Longrightarrow> rec_same r LockF (fl_fs s) \<Longrightarrow> fl_step parse_holder opts s c (set_pc c (Removing r) s)"
| not_own_record: "fl_pcs s c = Leaving r \<Longrightarrow> fl_step parse_holder opts s c (set_pc c Idle s)"
| remove: "fl_pcs s c = Removing r \<Longrightarrow>
    fl_step parse_holder opts s c (set_pc c Idle (s\<lparr>fl_fs := fs_remove LockF (fl_fs s)\<rparr>))"
\<comment> \<open>reclaim, when the window was found taken\<close>
| reclaim: "reclaim_step parse_holder opts s c s' \<Longrightarrow> fl_step parse_holder opts s c s'"
\<comment> \<open>the wait of Acquire: the timer fires, or the context ends it\<close>
| poll: "fl_pcs s c = Polling \<Longrightarrow> fl_step parse_holder opts s c (set_pc c Idle s)"

inductive fl_run :: "(string \<Rightarrow> holder option) \<Rightarrow> fl_options \<Rightarrow> fl_state \<Rightarrow> nat \<Rightarrow> fl_state \<Rightarrow> bool"
  for parse_holder opts where
  start: "fl_run parse_holder opts s 0 s"
| step: "fl_run parse_holder opts s n s1 \<Longrightarrow> fl_step parse_holder opts s1 c s2 \<Longrightarrow> fl_run parse_holder opts s (Suc n) s2"

definition fl_start :: fl_state where
  "fl_start = \<lparr>fl_fs = \<lparr>dir = (\<lambda>_. None), inodes = (\<lambda>_. None)\<rparr>, fl_pcs = (\<lambda>_. Idle), fl_now = 0, fl_handed = []\<rparr>"

subsection \<open>Mutual exclusion without reclaim\<close>

text \<open>A caller owns the window from the moment its link landed until its record is removed, or it gives up
  removing it.\<close>

fun owner_rec :: "pc \<Rightarrow> lrec option" where
  "owner_rec (Linked r) = Some r"
| "owner_rec (Unstaged r) = Some r"
| "owner_rec (Entered r) = Some r"
| "owner_rec (FenceRead r _) = Some r"
| "owner_rec (FenceStaged r _) = Some r"
| "owner_rec (FenceRenamed r _) = Some r"
| "owner_rec (Held r _) = Some r"
| "owner_rec (Leaving r) = Some r"
| "owner_rec (Removing r) = Some r"
| "owner_rec _ = None"

fun reclaiming :: "pc \<Rightarrow> bool" where
  "reclaiming (Judged _) = True"
| "reclaiming (TombReady _ _) = True"
| "reclaiming (Moved _ _) = True"
| "reclaiming (Restoring _) = True"
| "reclaiming (TombRubbish _) = True"
| "reclaiming _ = False"

definition mutex_inv :: "fl_state \<Rightarrow> bool" where
  "mutex_inv s \<longleftrightarrow>
     (\<forall>c r. owner_rec (fl_pcs s c) = Some r \<longrightarrow> dir (fl_fs s) LockF = Some (rec_ino r))
   \<and> (\<forall>c c' r r'. owner_rec (fl_pcs s c) = Some r \<longrightarrow> owner_rec (fl_pcs s c') = Some r' \<longrightarrow> c = c')
   \<and> (\<forall>c. \<not> reclaiming (fl_pcs s c))
   \<and> (\<forall>c r. fl_pcs s c = Staged r \<longrightarrow> dir (fl_fs s) (TempF c) = Some (rec_ino r))"

lemma fl_sel [simp]:
  "fl_fs (set_pc c p s) = fl_fs s" "fl_pcs (set_pc c p s) = (fl_pcs s)(c := p)"
  "fl_now (set_pc c p s) = fl_now s" "fl_handed (set_pc c p s) = fl_handed s"
  "dir (fs_create nm i ct t f) = (dir f)(nm \<mapsto> i)" "dir (fs_remove nm f) = (dir f)(nm := None)"
  "inodes (fs_create nm i ct t f) = (inodes f)(i \<mapsto> \<lparr>i_content = ct, i_mtime = t\<rparr>)" "inodes (fs_remove nm f) = inodes f"
  by (simp_all add: set_pc_def fs_create_def fs_remove_def)

lemma fs_link_Some:
  "fs_link old new f = Some f' \<longleftrightarrow> (\<exists>i. dir f old = Some i \<and> dir f new = None \<and> f' = f\<lparr>dir := (dir f)(new \<mapsto> i)\<rparr>)"
  by (auto simp: fs_link_def split: option.splits)

lemma fs_rename_Some:
  "fs_rename old new f = Some f' \<longleftrightarrow> (\<exists>i. dir f old = Some i \<and> f' = f\<lparr>dir := (dir f)(new \<mapsto> i, old := None)\<rparr>)"
  by (auto simp: fs_rename_def split: option.splits)

lemma mutex_invD:
  assumes "mutex_inv s"
  shows "owner_rec (fl_pcs s c) = Some r \<Longrightarrow> dir (fl_fs s) LockF = Some (rec_ino r)"
    and "owner_rec (fl_pcs s c) = Some r \<Longrightarrow> owner_rec (fl_pcs s c') = Some r' \<Longrightarrow> c = c'"
    and "\<not> reclaiming (fl_pcs s c)"
    and "fl_pcs s c = Staged r \<Longrightarrow> dir (fl_fs s) (TempF c) = Some (rec_ino r)"
  using assms by (auto simp: mutex_inv_def)

lemma mutex_invI:
  assumes "\<And>c r. owner_rec (fl_pcs s c) = Some r \<Longrightarrow> dir (fl_fs s) LockF = Some (rec_ino r)"
    and "\<And>c c' r r'. owner_rec (fl_pcs s c) = Some r \<Longrightarrow> owner_rec (fl_pcs s c') = Some r' \<Longrightarrow> c = c'"
    and "\<And>c. \<not> reclaiming (fl_pcs s c)"
    and "\<And>c r. fl_pcs s c = Staged r \<Longrightarrow> dir (fl_fs s) (TempF c) = Some (rec_ino r)"
  shows "mutex_inv s"
  unfolding mutex_inv_def using assms by blast

text \<open>A move of one caller that touches neither the lock name nor other callers' staging names, and does
  not make it an owner if it was none, keeps exclusion.\<close>

lemma mutex_move:
  assumes inv: "mutex_inv s" and lock: "dir f LockF = dir (fl_fs s) LockF"
    and tmp: "\<And>c'. c' \<noteq> c \<Longrightarrow> dir f (TempF c') = dir (fl_fs s) (TempF c')"
    and own: "owner_rec p = None \<or> owner_rec p = owner_rec (fl_pcs s c)" and "\<not> reclaiming p"
    and staged: "\<And>r. p = Staged r \<Longrightarrow> dir f (TempF c) = Some (rec_ino r)"
  shows "mutex_inv (set_pc c p (s\<lparr>fl_fs := f, fl_handed := h\<rparr>))"
proof (rule mutex_invI)
  let ?s = "set_pc c p (s\<lparr>fl_fs := f, fl_handed := h\<rparr>)"
  have own': "\<exists>r. owner_rec (fl_pcs s d) = Some r \<and> r = q" if "owner_rec (fl_pcs ?s d) = Some q" for d q
    using own that by (cases "d = c") auto
  fix d q assume "owner_rec (fl_pcs ?s d) = Some q"
  from own' [OF this] show "dir (fl_fs ?s) LockF = Some (rec_ino q)"
    using mutex_invD(1) [OF inv] lock by auto
next
  let ?s = "set_pc c p (s\<lparr>fl_fs := f, fl_handed := h\<rparr>)"
  fix d d' q q' assume a: "owner_rec (fl_pcs ?s d) = Some q" "owner_rec (fl_pcs ?s d') = Some q'"
  have "owner_rec (fl_pcs s d) = Some q" using own a(1) by (cases "d = c") auto
  moreover have "owner_rec (fl_pcs s d') = Some q'" using own a(2) by (cases "d' = c") auto
  ultimately show "d = d'" using mutex_invD(2) [OF inv] by blast
next
  fix d show "\<not> reclaiming (fl_pcs (set_pc c p (s\<lparr>fl_fs := f, fl_handed := h\<rparr>)) d)"
    using mutex_invD(3) [OF inv, of d] assms(5) by (cases "d = c") auto
next
  fix d q assume "fl_pcs (set_pc c p (s\<lparr>fl_fs := f, fl_handed := h\<rparr>)) d = Staged q"
  then show "dir (fl_fs (set_pc c p (s\<lparr>fl_fs := f, fl_handed := h\<rparr>))) (TempF d) = Some (rec_ino q)"
    using mutex_invD(4) [OF inv, of d q] staged tmp by (cases "d = c") auto
qed

lemma mutex_move_pc:
  assumes "mutex_inv s" and "owner_rec p = None \<or> owner_rec p = owner_rec (fl_pcs s c)" and "\<not> reclaiming p"
    and "\<And>r. p \<noteq> Staged r"
  shows "mutex_inv (set_pc c p s)"
  using mutex_move [OF assms(1), of "fl_fs s" c p "fl_handed s"] assms by simp

lemma mutex_move_fs:
  assumes "mutex_inv s" and "dir f LockF = dir (fl_fs s) LockF"
    and "\<And>c'. c' \<noteq> c \<Longrightarrow> dir f (TempF c') = dir (fl_fs s) (TempF c')"
    and "owner_rec p = None \<or> owner_rec p = owner_rec (fl_pcs s c)" and "\<not> reclaiming p"
    and "\<And>r. p = Staged r \<Longrightarrow> dir f (TempF c) = Some (rec_ino r)"
  shows "mutex_inv (set_pc c p (s\<lparr>fl_fs := f\<rparr>))"
  using mutex_move [OF assms(1), of f c p "fl_handed s"] assms by simp

lemma mutex_link:
  assumes inv: "mutex_inv s" and st: "fl_pcs s c = Staged r" and ln: "fs_link (TempF c) LockF (fl_fs s) = Some f"
  shows "mutex_inv (set_pc c (Linked r) (s\<lparr>fl_fs := f\<rparr>))"
proof (rule mutex_invI)
  have free: "dir (fl_fs s) LockF = None" and f: "dir f = (dir (fl_fs s))(LockF \<mapsto> rec_ino r)"
    using ln mutex_invD(4) [OF inv st] by (auto simp: fs_link_Some)
  have none: "owner_rec (fl_pcs s d) = None" for d
    using mutex_invD(1) [OF inv, of d] free by (cases "owner_rec (fl_pcs s d)") auto
  let ?s = "set_pc c (Linked r) (s\<lparr>fl_fs := f\<rparr>)"
  show "dir (fl_fs ?s) LockF = Some (rec_ino q)" if "owner_rec (fl_pcs ?s d) = Some q" for d q
    using that none [of d] f by (cases "d = c") auto
  show "d = d'" if "owner_rec (fl_pcs ?s d) = Some q" "owner_rec (fl_pcs ?s d') = Some q'" for d d' q q'
    using that none [of d] none [of d'] by (cases "d = c"; cases "d' = c") auto
  show "\<not> reclaiming (fl_pcs ?s d)" for d
    using mutex_invD(3) [OF inv, of d] by (cases "d = c") auto
  show "dir (fl_fs ?s) (TempF d) = Some (rec_ino q)" if "fl_pcs ?s d = Staged q" for d q
    using that mutex_invD(4) [OF inv, of d q] f by (cases "d = c") auto
qed

lemma mutex_remove:
  assumes inv: "mutex_inv s" and rm: "fl_pcs s c = Removing r"
  shows "mutex_inv (set_pc c Idle (s\<lparr>fl_fs := fs_remove LockF (fl_fs s)\<rparr>))"
proof (rule mutex_invI)
  let ?s = "set_pc c Idle (s\<lparr>fl_fs := fs_remove LockF (fl_fs s)\<rparr>)"
  have none: "owner_rec (fl_pcs ?s d) = None" for d
    using mutex_invD(2) [OF inv, of c r d] rm by (cases "d = c"; cases "owner_rec (fl_pcs s d)") auto
  show "dir (fl_fs ?s) LockF = Some (rec_ino q)" if "owner_rec (fl_pcs ?s d) = Some q" for d q
    using that none [of d] by simp
  show "d = d'" if "owner_rec (fl_pcs ?s d) = Some q" "owner_rec (fl_pcs ?s d') = Some q'" for d d' q q'
    using that none [of d] by simp
  show "\<not> reclaiming (fl_pcs ?s d)" for d
    using mutex_invD(3) [OF inv, of d] by (cases "d = c") auto
  show "dir (fl_fs ?s) (TempF d) = Some (rec_ino q)" if "fl_pcs ?s d = Staged q" for d q
    using that mutex_invD(4) [OF inv, of d q] by (cases "d = c") auto
qed

lemma judge_off: "StaleAfter opts \<le> 0 \<Longrightarrow> judge parse_holder opts t f = None"
  by (simp add: judge_def)

text \<open>With reclaiming off, a contended caller only goes to wait.\<close>

lemma reclaim_off:
  assumes "reclaim_step parse_holder opts s c s'" and "StaleAfter opts \<le> 0" and "mutex_inv s"
  shows "fl_pcs s c = Contended \<and> s' = set_pc c Polling s"
  using assms(1) by cases (use mutex_invD(3) [OF assms(3), of c] judge_off [OF assms(2)] in auto)

lemma mutex_step:
  assumes "fl_step parse_holder opts s c s'" and "StaleAfter opts \<le> 0" and "mutex_inv s"
  shows "mutex_inv s'"
  using assms(1)
proof cases
  case (tick t)
  then show ?thesis using assms(3) by (simp add: mutex_inv_def)
next
  case (link r f)
  then show ?thesis using mutex_link [OF assms(3)] by blast
next
  case (remove r)
  then show ?thesis using mutex_remove [OF assms(3)] by blast
next
  case reclaim
  from reclaim_off [OF this assms(2,3)] show ?thesis by (auto intro!: mutex_move_pc [OF assms(3)])
next
  case (acquired r n)
  then show ?thesis using mutex_move [OF assms(3), of "fl_fs s" c "Held r n" "(c, n) # fl_handed s"] by simp
qed (use mutex_invD(3) [OF assms(3), of c] in
      \<open>auto intro!: mutex_move_pc [OF assms(3)] mutex_move_fs [OF assms(3)] simp: fs_rename_Some\<close>)

text \<open>The file lock, with reclaiming off, provides the contract of a \<open>Waiter\<close>.\<close>

interpretation waiter: exclusion "\<lambda>s s'. StaleAfter opts \<le> 0 \<and> (\<exists>c. fl_step parse_holder opts s c s')" fl_start mutex_inv
  "\<lambda>s (_ :: unit) c. owner_rec (fl_pcs s c) \<noteq> None" "\<lambda>s _. dir (fl_fs s) LockF \<noteq> None" for parse_holder opts
proof
  show "mutex_inv fl_start" by (simp add: mutex_inv_def fl_start_def)
next
  fix s s' assume "mutex_inv s" "StaleAfter opts \<le> 0 \<and> (\<exists>c. fl_step parse_holder opts s c s')"
  then show "mutex_inv s'" using mutex_step by blast
next
  fix s and k :: unit and c assume "mutex_inv s" "owner_rec (fl_pcs s c) \<noteq> None"
  then show "dir (fl_fs s) LockF \<noteq> None" using mutex_invD(1) by force
next
  fix s and k :: unit and c c' assume "mutex_inv s" "owner_rec (fl_pcs s c) \<noteq> None" "owner_rec (fl_pcs s c') \<noteq> None"
  then show "c = c'" using mutex_invD(2) by blast
qed

lemma fl_run_reach:
  "fl_run parse_holder opts s n s' \<Longrightarrow> StaleAfter opts \<le> 0 \<Longrightarrow>
   (\<lambda>s s'. StaleAfter opts \<le> 0 \<and> (\<exists>c. fl_step parse_holder opts s c s'))\<^sup>*\<^sup>* s s'"
  by (induction rule: fl_run.induct) (auto intro: rtranclp.rtrancl_into_rtrancl)

subsection \<open>Fences\<close>

text \<open>The counter file holds \<open>N\<close> (a missing file counts as 0); callers on their way to a fence agree with
  it; and the fences handed out so far are strictly increasing and at most \<open>N\<close>.\<close>

definition counter :: "filesys \<Rightarrow> nat \<Rightarrow> bool" where
  "counter f N \<longleftrightarrow> (case dir f FenceF of
      None \<Rightarrow> N = 0
    | Some j \<Rightarrow> (\<exists>nd. inodes f j = Some nd \<and> i_content nd = fence_text N))"

fun pc_fence :: "nat \<Rightarrow> (nat \<times> nat) list \<Rightarrow> filesys \<Rightarrow> nat \<Rightarrow> pc \<Rightarrow> bool" where
  "pc_fence N h f c (FenceRead r k) \<longleftrightarrow> k = N + 1"
| "pc_fence N h f c (FenceStaged r k) \<longleftrightarrow> k = N + 1
     \<and> (\<exists>i nd. dir f (TempF c) = Some i \<and> inodes f i = Some nd \<and> i_content nd = fence_text k)"
| "pc_fence N h f c (FenceRenamed r k) \<longleftrightarrow> k = N \<and> (\<forall>x \<in> set h. snd x < N)"
| "pc_fence N h f c _ \<longleftrightarrow> True"

definition fence_ok :: "nat \<Rightarrow> fl_state \<Rightarrow> bool" where
  "fence_ok N s \<longleftrightarrow> counter (fl_fs s) N
     \<and> (\<forall>c. pc_fence N (fl_handed s) (fl_fs s) c (fl_pcs s c))
     \<and> sorted_wrt (>) (map snd (fl_handed s)) \<and> (\<forall>x \<in> set (fl_handed s). snd x \<le> N)"

lemma next_fence_counter: "counter f N \<Longrightarrow> N + 1 < 2 ^ 64 \<Longrightarrow> next_fence f = Some (N + 1)"
  by (auto simp: counter_def next_fence_def fence_text_def trim_space_show_nat_newline parse_uint64_show_nat
      split: option.splits)

lemma counter_create:
  "counter f N \<Longrightarrow> fresh_inode i f \<Longrightarrow> nm \<noteq> FenceF \<Longrightarrow> counter (fs_create nm i ct t f) N"
  by (auto simp: counter_def fresh_inode_def ran_def split: option.splits)

lemma counter_other: "counter f N \<Longrightarrow> dir g FenceF = dir f FenceF \<Longrightarrow> inodes g = inodes f \<Longrightarrow> counter g N"
  by (auto simp: counter_def split: option.splits)

lemma fence_frame:
  assumes ok: "fence_ok N s" and cnt: "counter f N"
    and oth: "\<And>d i. d \<noteq> c \<Longrightarrow> dir (fl_fs s) (TempF d) = Some i \<Longrightarrow>
        dir f (TempF d) = Some i \<and> inodes f i = inodes (fl_fs s) i"
    and new: "pc_fence N (fl_handed s) f c p"
  shows "fence_ok N (set_pc c p (s\<lparr>fl_fs := f\<rparr>))"
proof -
  have "pc_fence N (fl_handed s) f d (fl_pcs s d)" if "d \<noteq> c" for d
  proof -
    have "pc_fence N (fl_handed s) (fl_fs s) d (fl_pcs s d)" using ok by (simp add: fence_ok_def)
    then show ?thesis
      using oth [OF that] by (cases "fl_pcs s d") auto
  qed
  then show ?thesis using ok cnt new by (simp add: fence_ok_def)
qed

lemma fence_frame_pc: "fence_ok N s \<Longrightarrow> pc_fence N (fl_handed s) (fl_fs s) c p \<Longrightarrow> fence_ok N (set_pc c p s)"
  using fence_frame [of N s "fl_fs s" c p] by (simp add: fence_ok_def)

lemma fence_create:
  assumes "fence_ok N s" and "fresh_inode i (fl_fs s)"
    and "pc_fence N (fl_handed s) (fs_create (TempF c) i ct t (fl_fs s)) c p"
  shows "fence_ok N (set_pc c p (s\<lparr>fl_fs := fs_create (TempF c) i ct t (fl_fs s)\<rparr>))"
  using assms
  by (intro fence_frame) (auto simp: fence_ok_def counter_create fresh_inode_def ran_def)

lemma fence_remove_temp:
  assumes "fence_ok N s" and "pc_fence N (fl_handed s) (fs_remove (TempF c) (fl_fs s)) c p"
  shows "fence_ok N (set_pc c p (s\<lparr>fl_fs := fs_remove (TempF c) (fl_fs s)\<rparr>))"
  using assms by (intro fence_frame) (auto simp: fence_ok_def elim: counter_other)

lemma fence_lock_name:
  assumes "fence_ok N s" and "dir f = (dir (fl_fs s))(LockF := x)" and "inodes f = inodes (fl_fs s)"
    and "pc_fence N (fl_handed s) f c p"
  shows "fence_ok N (set_pc c p (s\<lparr>fl_fs := f\<rparr>))"
proof (rule fence_frame [OF assms(1)])
  show "counter f N" using assms(1) by (auto simp: fence_ok_def assms(2,3) elim!: counter_other)
qed (simp_all add: assms)

text \<open>An owner that puts the staged counter in place advances the counter by one.\<close>

lemma fence_advance:
  assumes ok: "fence_ok N s" and mut: "mutex_inv s" and st: "fl_pcs s c = FenceStaged r n"
    and rn: "fs_rename (TempF c) FenceF (fl_fs s) = Some f"
  shows "fence_ok (N + 1) (set_pc c (FenceRenamed r n) (s\<lparr>fl_fs := f\<rparr>))"
proof -
  have "pc_fence N (fl_handed s) (fl_fs s) c (fl_pcs s c)" using ok by (simp add: fence_ok_def)
  then obtain i nd where n: "n = N + 1" and t: "dir (fl_fs s) (TempF c) = Some i"
    and nd: "inodes (fl_fs s) i = Some nd" "i_content nd = fence_text n"
    using st by auto
  have f: "dir f = (dir (fl_fs s))(FenceF \<mapsto> i, TempF c := None)" "inodes f = inodes (fl_fs s)"
    using rn t by (auto simp: fs_rename_Some)
  have "counter f (N + 1)" using nd n by (simp add: counter_def f)
  moreover have le: "\<forall>x \<in> set (fl_handed s). snd x \<le> N" using ok by (simp add: fence_ok_def)
  moreover have "pc_fence (N + 1) (fl_handed s) f d (fl_pcs s d)" if "d \<noteq> c" for d
  proof -
    have "owner_rec (fl_pcs s d) = None"
      using mutex_invD(2) [OF mut, of c r d] st that by (cases "owner_rec (fl_pcs s d)") auto
    then show ?thesis by (cases "fl_pcs s d") auto
  qed
  ultimately show ?thesis using ok n by (auto simp: fence_ok_def less_Suc_eq_le)
qed

lemma fence_hand:
  assumes ok: "fence_ok N s" and mut: "mutex_inv s" and st: "fl_pcs s c = FenceRenamed r n"
  shows "fence_ok N (set_pc c (Held r n) (s\<lparr>fl_handed := (c, n) # fl_handed s\<rparr>))"
proof -
  have "pc_fence N (fl_handed s) (fl_fs s) c (fl_pcs s c)" using ok by (simp add: fence_ok_def)
  then have n: "n = N" and lt: "\<forall>x \<in> set (fl_handed s). snd x < N" using st by auto
  have "pc_fence N ((c, n) # fl_handed s) (fl_fs s) d (fl_pcs s d)" if "d \<noteq> c" for d
  proof -
    have "owner_rec (fl_pcs s d) = None"
      using mutex_invD(2) [OF mut, of c r d] st that by (cases "owner_rec (fl_pcs s d)") auto
    then show ?thesis by (cases "fl_pcs s d") auto
  qed
  then show ?thesis using ok n lt by (auto simp: fence_ok_def)
qed

lemma fence_step:
  assumes "fl_step parse_holder opts s c s'" and "StaleAfter opts \<le> 0" and mut: "mutex_inv s"
    and ok: "fence_ok N s" and "N + 1 < 2 ^ 64"
  shows "fence_ok N s' \<or> fence_ok (N + 1) s'"
  using assms(1)
proof cases
  case (tick t)
  then show ?thesis using ok by (simp add: fence_ok_def)
next
  case (stage i raw)
  then show ?thesis using fence_create [OF ok] by simp
next
  case (link r f)
  then obtain i where "dir f = (dir (fl_fs s))(LockF := Some i)" "inodes f = inodes (fl_fs s)"
    by (auto simp: fs_link_Some)
  then show ?thesis using link fence_lock_name [OF ok, of f "Some i" c "Linked r"] by simp
next
  case (remove r)
  then show ?thesis using fence_lock_name [OF ok, of "fs_remove LockF (fl_fs s)" None c Idle] by simp
next
  case (fence_read r n)
  have "counter (fl_fs s) N" using ok by (simp add: fence_ok_def)
  from next_fence_counter [OF this assms(5)] fence_read have "n = N + 1" by simp
  then show ?thesis using ok fence_read by (auto intro!: disjI1 fence_frame_pc)
next
  case (fence_stage r n i)
  have "pc_fence N (fl_handed s) (fl_fs s) c (fl_pcs s c)" using ok by (simp add: fence_ok_def)
  then show ?thesis using ok fence_stage by (auto intro!: disjI1 fence_create)
next
  case (fence_rename r n f)
  then show ?thesis using fence_advance [OF ok mut] by blast
next
  case (acquired r n)
  then show ?thesis using fence_hand [OF ok mut] by blast
next
  case reclaim
  from reclaim_off [OF this assms(2) mut] ok show ?thesis by (auto intro!: disjI1 fence_frame_pc)
qed (use mutex_invD(3) [OF mut, of c] ok in
      \<open>auto intro!: disjI1 fence_frame_pc fence_remove_temp\<close>)

lemma fl_run_fences:
  "fl_run parse_holder opts s n s' \<Longrightarrow> StaleAfter opts \<le> 0 \<Longrightarrow> s = fl_start \<Longrightarrow> n < 2 ^ 64 \<Longrightarrow> \<exists>N \<le> n. fence_ok N s'"
proof (induction rule: fl_run.induct)
  case (start s)
  then show ?case by (auto simp: fence_ok_def fl_start_def counter_def)
next
  case (step s n s1 c s2)
  then obtain N where N: "N \<le> n" "fence_ok N s1" by auto
  have mut: "mutex_inv s1"
    using waiter.reach_safe fl_run_reach [OF step.hyps(1) step.prems(1)] step.prems(2) by blast
  have "fence_ok N s2 \<or> fence_ok (N + 1) s2"
    using fence_step [OF step.hyps(2) step.prems(1) mut N(2)] N(1) step.prems(3) by simp
  then show ?case using N(1) by (auto intro: le_SucI)
qed

text \<open>C1. Mutual exclusion and fences, without reclaim (\<open>StaleAfter\<close> zero, the default): for any number of
  callers, any interleaving of their system calls, any I/O failure the code handles and any caller
  that dies anywhere, at most one caller is inside the window, from the landing of its link to the
  removal of its record; while it is inside the lock name points to its own record; and the fences
  handed out are pairwise different and increase in the order they are handed out (in runs
  shorter than the range of the counter).\<close>

theorem filelock_excludes_and_fences:
  assumes "fl_run parse_holder opts fl_start n s" and "StaleAfter opts \<le> 0" and "n < 2 ^ 64"
  shows "(owner_rec (fl_pcs s c) = Some r \<and> owner_rec (fl_pcs s c') = Some r' \<longrightarrow> c = c')
    \<and> (owner_rec (fl_pcs s c) = Some r \<longrightarrow> dir (fl_fs s) LockF = Some (rec_ino r))
    \<and> sorted_wrt (<) (rev (map snd (fl_handed s)))"
proof -
  note reach = fl_run_reach [OF assms(1,2)]
  have "\<exists>N \<le> n. fence_ok N s" by (rule fl_run_fences [OF assms(1,2) refl assms(3)])
  then have "sorted_wrt (>) (map snd (fl_handed s))" by (auto simp: fence_ok_def)
  then have "sorted_wrt (<) (rev (map snd (fl_handed s)))" by (simp add: sorted_wrt_rev)
  then show ?thesis using mutex_invD(1) [OF waiter.reach_safe [OF reach]] waiter.reach_alone [OF reach] by blast
qed

theorem filelock_excludes_and_fences_witness:
  "\<exists>s r. fl_run (\<lambda>_. None) \<lparr>PollMin = 0, PollMax = 0, StaleAfter = 0\<rparr> fl_start 2 s
     \<and> owner_rec (fl_pcs s 7) = Some r \<and> dir (fl_fs s) LockF = Some (rec_ino r)
     \<and> (\<forall>c' r'. owner_rec (fl_pcs s c') = Some r' \<longrightarrow> 7 = c')"
proof -
  let ?o = "\<lparr>PollMin = 0, PollMax = 0, StaleAfter = 0\<rparr>"
  let ?r = "\<lparr>rec_ino = 0, rec_raw = ''x''\<rparr>"
  let ?s1 = "set_pc 7 (Staged ?r) (fl_start\<lparr>fl_fs := fs_create (TempF 7) 0 ''x'' (fl_now fl_start) (fl_fs fl_start)\<rparr>)"
  have 1: "fl_step (\<lambda>_. None) ?o fl_start 7 ?s1"
    by (rule fl_step.stage) (simp_all add: fl_start_def fresh_inode_def)
  obtain f where f: "fs_link (TempF 7) LockF (fl_fs ?s1) = Some f"
    by (simp add: fs_link_Some fl_start_def)
  have 2: "fl_step (\<lambda>_. None) ?o ?s1 7 (set_pc 7 (Linked ?r) (?s1\<lparr>fl_fs := f\<rparr>))"
    by (rule fl_step.link [OF _ f]) simp
  have run: "fl_run (\<lambda>_. None) ?o fl_start 2 (set_pc 7 (Linked ?r) (?s1\<lparr>fl_fs := f\<rparr>))"
    using fl_run.step [OF fl_run.step [OF fl_run.start 1] 2] by (simp add: numeral_2_eq_2)
  have own: "owner_rec (fl_pcs (set_pc 7 (Linked ?r) (?s1\<lparr>fl_fs := f\<rparr>)) 7) = Some ?r" by simp
  obtain s r where sr: "fl_run (\<lambda>_. None) ?o fl_start 2 s" "owner_rec (fl_pcs s 7) = Some r"
    using run own by blast
  have lim: "StaleAfter ?o \<le> 0" "(2::nat) < 2 ^ 64" by simp_all
  have "dir (fl_fs s) LockF = Some (rec_ino r)"
    using filelock_excludes_and_fences [OF sr(1) lim, of 7 r 7 r] sr(2) by blast
  moreover have "7 = c'" if "owner_rec (fl_pcs s c') = Some r'" for c' r'
    using filelock_excludes_and_fences [OF sr(1) lim, of 7 r c' r'] sr(2) that by blast
  ultimately show ?thesis using sr by blast
qed

end
