(* ===== verification/Runstate.thy ===== *)
theory Runstate
  imports Coordination
begin

section \<open>platform/runstate: leases and the refusing lock\<close>

text \<open>
  \<open>src/go/platform/runstate/key.go\<close>, \<open>lease.go\<close> and \<open>lock.go\<close>. The disk is a map from paths to contents;
  every system call may fail instead of taking effect, with the error \<open>flt\<close> gives for it. \<open>Save\<close> returns
  the disk after each of its system calls, which is what a concurrent reader or a crash can see.
  \<open>json.Marshal\<close> and \<open>json.Unmarshal\<close> are parameters. Times are nanoseconds.
\<close>

type_synonym disk = "string \<rightharpoonup> string"

datatype io_call = IoMkdir | IoRead | IoTemp | IoWrite | IoChmod | IoClose | IoRename | IoRemove | IoOpen

type_synonym 'x faults = "io_call \<Rightarrow> 'x err option"

definition no_faults :: "'x faults" where
  "no_faults = (\<lambda>_. None)"

definition ErrNotExist :: "'x err" where
  "ErrNotExist = sentinel ''os.ErrNotExist'' ''file does not exist''"

definition ErrExist :: "'x err" where
  "ErrExist = sentinel ''os.ErrExist'' ''file already exists''"

subsection \<open>Keys\<close>

definition checkSubject :: "char \<Rightarrow> string \<Rightarrow> 'x err option" where
  "checkSubject path_sep subject =
     (if subject = '''' \<or> subject = ''.'' \<or> subject = ''..'' then Some (wrapf (go_quote subject @ '': '') ErrBadSubject)
      else if path_sep \<in> set subject \<or> CHR ''/'' \<in> set subject \<or> CHR 0x5C \<in> set subject
        then Some (wrapf (go_quote subject @ '': '') ErrBadSubject)
      else if str_contains subject ''..'' then Some (wrapf (go_quote subject @ '': '') ErrBadSubject)
      else None)"

definition pathFor :: "char \<Rightarrow> string \<Rightarrow> string \<Rightarrow> string \<Rightarrow> string \<Rightarrow> 'x err + string" where
  "pathFor path_sep d pre subject suff =
     (case checkSubject path_sep subject of Some e \<Rightarrow> Inl e | None \<Rightarrow> Inr (path_Join d (pre @ subject @ suff)))"

subsection \<open>Leases\<close>

record lease =
  l_Subject :: string
  l_Fingerprint :: string
  l_IssuedAt :: int

definition Lease_Valid :: "int \<Rightarrow> string \<Rightarrow> string \<Rightarrow> int \<Rightarrow> lease \<Rightarrow> bool" where
  "Lease_Valid t subject fingerprint window l =
     (if l_Subject l \<noteq> subject \<or> l_Fingerprint l = '''' \<or> l_Fingerprint l \<noteq> fingerprint then False
      else let age = time_sub t (l_IssuedAt l) in age \<ge> 0 \<and> age < window)"

definition DefaultLeasePrefix :: string where "DefaultLeasePrefix = ''lease.''"
definition leaseSuffix :: string where "leaseSuffix = ''.json''"

record lease_store =
  ls_Dir :: string
  ls_Prefix :: string

definition lease_prefix :: "lease_store \<Rightarrow> string" where
  "lease_prefix st = (if ls_Prefix st = '''' then DefaultLeasePrefix else ls_Prefix st)"

definition lease_Path :: "char \<Rightarrow> lease_store \<Rightarrow> string \<Rightarrow> 'x err + string" where
  "lease_Path path_sep st subject = pathFor path_sep (ls_Dir st) (lease_prefix st) subject leaseSuffix"

definition os_ReadFile :: "'x faults \<Rightarrow> string \<Rightarrow> disk \<Rightarrow> 'x err + string" where
  "os_ReadFile flt p dk = (case flt IoRead of Some e \<Rightarrow> Inl e
     | None \<Rightarrow> (case dk p of None \<Rightarrow> Inl (wrapf (''open '' @ p @ '': '') ErrNotExist) | Some b \<Rightarrow> Inr b))"

definition os_Remove :: "'x faults \<Rightarrow> string \<Rightarrow> disk \<Rightarrow> 'x err option \<times> disk" where
  "os_Remove flt p dk = (case flt IoRemove of Some e \<Rightarrow> (Some e, dk)
     | None \<Rightarrow> (case dk p of None \<Rightarrow> (Some (wrapf (''remove '' @ p @ '': '') ErrNotExist), dk) | Some b \<Rightarrow> (None, dk(p := None))))"

definition lease_Load :: "(string \<Rightarrow> lease option) \<Rightarrow> 'x faults \<Rightarrow> char \<Rightarrow> lease_store \<Rightarrow> string \<Rightarrow> disk \<Rightarrow> 'x err + lease option" where
  "lease_Load unmarshal flt path_sep st subject dk =
     (case lease_Path path_sep st subject of
        Inl e \<Rightarrow> Inl e
      | Inr p \<Rightarrow> (case os_ReadFile flt p dk of
          Inl e \<Rightarrow> if errors_Is e ''os.ErrNotExist'' then Inr None else Inl (wrapf (''read lease '' @ p @ '': '') e)
        | Inr b \<Rightarrow> (case unmarshal b of None \<Rightarrow> Inr None | Some l \<Rightarrow> Inr (Some l))))"

text \<open>\<open>filepath.Dir\<close>: everything up to the last separator, cleaned.\<close>

definition path_Dir :: "string \<Rightarrow> string" where
  "path_Dir p = path_Clean (rev (dropWhile (\<lambda>c. c \<noteq> CHR ''/'') (rev p)))"

text \<open>The name \<open>os.CreateTemp\<close> makes from the pattern \<open>.lease-*\<close> with the random digits \<open>rnd\<close>.\<close>

definition temp_path :: "string \<Rightarrow> string \<Rightarrow> string" where
  "temp_path d rnd = (if has_suffix d ''/'' then d else d @ ''/'') @ ''.lease-'' @ rnd"

text \<open>The deferred removal of the temporary name, run on every return after it was made; its error is dropped.\<close>

definition drop_temp :: "'x faults \<Rightarrow> string \<Rightarrow> disk \<Rightarrow> disk list" where
  "drop_temp flt tmp dk = [snd (os_Remove flt tmp dk)]"

text \<open>The temporary file fills up byte by byte; a failed write leaves the first \<open>n\<close> bytes.\<close>

definition fill_states :: "string \<Rightarrow> string \<Rightarrow> nat \<Rightarrow> disk \<Rightarrow> disk list" where
  "fill_states tmp b n dk = map (\<lambda>k. dk(tmp \<mapsto> take k b)) [0..<Suc n]"

definition save_staged :: "'x faults \<Rightarrow> string \<Rightarrow> string \<Rightarrow> string \<Rightarrow> nat \<Rightarrow> disk \<Rightarrow> 'x err option \<times> disk list" where
  "save_staged flt p tmp b n dk =
     (case flt IoWrite of
        Some e \<Rightarrow> let dks = fill_states tmp b (min n (length b)) dk
                  in (Some (wrapf ''write lease: '' e), dks @ drop_temp flt tmp (last dks))
      | None \<Rightarrow> let dks = fill_states tmp b (length b) dk; dk1 = last dks in
        (case flt IoChmod of
           Some e \<Rightarrow> (Some (wrapf ''lease permissions: '' e), dks @ drop_temp flt tmp dk1)
         | None \<Rightarrow> (case flt IoClose of
             Some e \<Rightarrow> (Some (wrapf ''close lease: '' e), dks @ drop_temp flt tmp dk1)
           | None \<Rightarrow> (case flt IoRename of
               Some e \<Rightarrow> (Some (wrapf ''place lease: '' e), dks @ drop_temp flt tmp dk1)
             | None \<Rightarrow> let dk2 = dk1(p := dk1 tmp, tmp := None) in (None, dks @ [dk2] @ drop_temp flt tmp dk2)))))"

definition lease_Save :: "(lease \<Rightarrow> 'x err + string) \<Rightarrow> 'x faults \<Rightarrow> char \<Rightarrow> lease_store \<Rightarrow> string \<Rightarrow> nat \<Rightarrow> lease \<Rightarrow> disk
    \<Rightarrow> 'x err option \<times> disk list" where
  "lease_Save marshal flt path_sep st rnd n l dk =
     (case lease_Path path_sep st (l_Subject l) of
        Inl e \<Rightarrow> (Some e, [dk])
      | Inr p \<Rightarrow> (case flt IoMkdir of
          Some e \<Rightarrow> (Some (wrapf (''lease directory '' @ ls_Dir st @ '': '') e), [dk])
        | None \<Rightarrow> (case marshal l of
            Inl e \<Rightarrow> (Some (wrapf ''marshal lease: '' e), [dk])
          | Inr b \<Rightarrow> (let tmp = temp_path (path_Dir p) rnd in
             (case flt IoTemp of
                Some e \<Rightarrow> (Some (wrapf ''temporary lease: '' e), [dk])
              | None \<Rightarrow> if dk tmp \<noteq> None then (Some (wrapf ''temporary lease: '' ErrExist), [dk])
                else save_staged flt p tmp (b @ [CHR 0x0A]) n dk)))))"

definition lease_Consume :: "'x faults \<Rightarrow> char \<Rightarrow> lease_store \<Rightarrow> string \<Rightarrow> disk \<Rightarrow> 'x err option \<times> disk" where
  "lease_Consume flt path_sep st subject dk =
     (case lease_Path path_sep st subject of
        Inl e \<Rightarrow> (Some e, dk)
      | Inr p \<Rightarrow> (case os_Remove flt p dk of
          (None, dk') \<Rightarrow> (None, dk')
        | (Some e, dk') \<Rightarrow> if errors_Is e ''os.ErrNotExist'' then (None, dk') else (Some (wrapf (''remove lease '' @ p @ '': '') e), dk')))"

subsection \<open>Paths keep subjects apart\<close>

lemma checkSubject_NoneD:
  assumes "checkSubject path_sep subject = None"
  shows "subject \<noteq> ''''" "subject \<noteq> ''.''" "subject \<noteq> ''..''" "CHR ''/'' \<notin> set subject"
  using assms by (auto simp: checkSubject_def split: if_splits)

lemma pathFor_Inr:
  "pathFor path_sep d pre subject suff = (Inr p :: 'x err + string) \<longleftrightarrow>
     checkSubject path_sep subject = (None :: 'x err option) \<and> p = path_Join d (pre @ subject @ suff)"
  by (auto simp: pathFor_def split: option.splits)

lemma pathFor_shape:
  assumes "CHR ''/'' \<notin> set suff"
  shows "\<exists>D. \<forall>subject p. pathFor path_sep d pre subject suff = (Inr p :: 'x err + string) \<longrightarrow> p = D @ subject @ suff"
proof -
  obtain D t where t: "CHR ''/'' \<notin> set t"
    and D: "\<And>n. CHR ''/'' \<notin> set n \<Longrightarrow> plain_name (t @ n) \<Longrightarrow> path_Join d (pre @ n) = D @ t @ n"
    by (rule path_Join_prefix [of d pre]) (rule that, assumption, simp)
  have "p = (D @ t) @ subject @ suff" if path: "pathFor path_sep d pre subject suff = (Inr p :: 'x err + string)" for subject p
  proof -
    have ok: "checkSubject path_sep subject = (None :: 'x err option)" and p: "p = path_Join d (pre @ subject @ suff)"
      using path by (simp_all add: pathFor_Inr)
    note sub = checkSubject_NoneD [OF ok]
    have "plain_name (t @ subject @ suff)"
      using plain_name_infix [OF sub(1-3)] sub(4) assms t by simp
    then show ?thesis using D [of "subject @ suff"] sub(4) assms p by simp
  qed
  then show ?thesis by blast
qed

lemma leaseSuffix_plain: "CHR ''/'' \<notin> set leaseSuffix"
  by (simp add: leaseSuffix_def)

lemma lease_Path_inj:
  assumes "lease_Path path_sep st s = (Inr p :: 'x err + string)" and "lease_Path path_sep st s' = (Inr p :: 'x err + string)"
  shows "s = s'"
proof -
  obtain D where D: "\<forall>subject q. lease_Path path_sep st subject = (Inr q :: 'x err + string) \<longrightarrow> q = D @ subject @ leaseSuffix"
    using pathFor_shape [OF leaseSuffix_plain] unfolding lease_Path_def by blast
  have "p = D @ s @ leaseSuffix" "p = D @ s' @ leaseSuffix" using D assms by blast+
  then show ?thesis by simp
qed

lemma lease_Path_suffix:
  assumes "lease_Path path_sep st s = (Inr p :: 'x err + string)"
  shows "has_suffix p leaseSuffix"
proof -
  obtain D where D: "\<forall>subject q. lease_Path path_sep st subject = (Inr q :: 'x err + string) \<longrightarrow> q = D @ subject @ leaseSuffix"
    using pathFor_shape [OF leaseSuffix_plain] unfolding lease_Path_def by blast
  have "p = (D @ s) @ leaseSuffix" using D assms by simp
  then show ?thesis unfolding has_suffix_def by (rule suffixI)
qed

text \<open>The temporary file is never the file of a lease.\<close>

lemma temp_path_no_suffix: "list_all is_digit rnd \<Longrightarrow> \<not> has_suffix (temp_path d rnd) leaseSuffix"
proof
  assume digits: "list_all is_digit rnd" and "has_suffix (temp_path d rnd) leaseSuffix"
  then have "last (temp_path d rnd) = CHR ''n''" by (auto simp: has_suffix_def leaseSuffix_def suffix_def)
  moreover have "last (temp_path d rnd) = (if rnd = [] then CHR ''-'' else last rnd)" by (simp add: temp_path_def)
  moreover have "is_digit (last rnd)" if "rnd \<noteq> []" using digits that by (simp add: list_all_iff)
  ultimately show False by (auto simp: is_digit_def split: if_splits)
qed

subsection \<open>Save is atomic\<close>

text \<open>What a disk reached by \<open>Save\<close> may differ in, for the files of leases: only the file written, and that
  one only by having its whole new content.\<close>

definition old_or_new :: "string \<Rightarrow> string \<Rightarrow> disk \<Rightarrow> disk \<Rightarrow> bool" where
  "old_or_new p b dk dk' \<longleftrightarrow> (\<forall>q. has_suffix q leaseSuffix \<longrightarrow> dk' q = dk q \<or> q = p \<and> dk' q = Some b)"

definition same_leases :: "disk \<Rightarrow> disk \<Rightarrow> bool" where
  "same_leases dk dk' \<longleftrightarrow> (\<forall>q. has_suffix q leaseSuffix \<longrightarrow> dk' q = dk q)"

lemma same_leases_old: "same_leases dk dk' \<Longrightarrow> old_or_new p b dk dk'"
  by (simp add: same_leases_def old_or_new_def)

lemma os_Remove_disk: "snd (os_Remove flt q dk) \<in> {dk, dk(q := None)}"
  by (auto simp: os_Remove_def split: option.splits)

lemma os_Remove_other: "q \<noteq> tmp \<Longrightarrow> snd (os_Remove flt tmp dk) q = dk q"
  using os_Remove_disk [of flt tmp dk] by auto

lemma fill_states_last: "n \<le> length b \<Longrightarrow> last (fill_states tmp b n dk) = dk(tmp \<mapsto> take n b)"
  by (simp add: fill_states_def last_map)

lemma fill_states_same:
  "\<not> has_suffix tmp leaseSuffix \<Longrightarrow> dk' \<in> set (fill_states tmp b n dk) \<Longrightarrow> same_leases dk dk'"
  by (auto simp: fill_states_def same_leases_def)

lemma fill_states_not_Nil [simp]: "fill_states tmp b n dk \<noteq> []"
  by (simp add: fill_states_def)

lemma drop_temp_same:
  "\<not> has_suffix tmp leaseSuffix \<Longrightarrow> same_leases dk dk1 \<Longrightarrow> dk' \<in> set (drop_temp flt tmp dk1) \<Longrightarrow> same_leases dk dk'"
  by (auto simp: drop_temp_def same_leases_def) (metis os_Remove_other)

text \<open>A return with an error after the temporary file was made.\<close>

lemma staged_abort:
  assumes "\<not> has_suffix tmp leaseSuffix"
    and "dk' \<in> set (fill_states tmp b n dk @ drop_temp flt tmp (last (fill_states tmp b n dk)))"
  shows "same_leases dk dk'"
proof -
  have "same_leases dk (last (fill_states tmp b n dk))"
    by (rule fill_states_same [OF assms(1), where b = b and n = n]) simp
  then show ?thesis using assms fill_states_same [OF assms(1)] drop_temp_same [OF assms(1)] by auto
qed

lemma save_staged_states:
  assumes tmp: "\<not> has_suffix tmp leaseSuffix" and p: "has_suffix p leaseSuffix"
    and run: "save_staged flt p tmp b n dk = (res, dks)"
  shows "dks \<noteq> [] \<and> (\<forall>dk' \<in> set dks. old_or_new p b dk dk')
    \<and> (if res = None then \<forall>q. has_suffix q leaseSuffix \<longrightarrow> last dks q = (dk(p \<mapsto> b)) q else same_leases dk (last dks))"
proof (cases "res = None")
  case True
  let ?f = "fill_states tmp b (length b) dk"
  let ?d = "(dk(tmp \<mapsto> b))(p := Some b, tmp := None)"
  have ne: "p \<noteq> tmp" using tmp p by auto
  have dks: "dks = ?f @ [?d] @ drop_temp flt tmp ?d"
    using run True by (auto simp: save_staged_def Let_def fill_states_last split: option.splits)
  have placed: "x q = (dk(p \<mapsto> b)) q" if "x = ?d \<or> x \<in> set (drop_temp flt tmp ?d)" "has_suffix q leaseSuffix" for x q
  proof -
    have "q \<noteq> tmp" using that tmp by auto
    then show ?thesis using that ne os_Remove_other [of q tmp flt ?d] by (auto simp: drop_temp_def)
  qed
  have "old_or_new p b dk x" if "x \<in> set dks" for x
  proof (cases "x \<in> set ?f")
    case True
    then show ?thesis using fill_states_same [OF tmp] same_leases_old by blast
  next
    case False
    then show ?thesis using that placed [of x] by (auto simp: dks old_or_new_def)
  qed
  moreover have "last dks \<in> set (drop_temp flt tmp ?d)" by (simp add: dks drop_temp_def)
  ultimately show ?thesis using True placed by (auto simp: dks)
next
  case False
  then obtain m where dks: "dks = fill_states tmp b m dk @ drop_temp flt tmp (last (fill_states tmp b m dk))"
    using run by (auto simp: save_staged_def Let_def split: option.splits)
  have all: "same_leases dk x" if "x \<in> set dks" for x
    using staged_abort [OF tmp] that by (simp only: dks)
  have "dks \<noteq> []" by (simp add: dks)
  then show ?thesis using all same_leases_old False by auto
qed

text \<open>The codec reads back what it wrote: what \<open>encoding/json\<close> documents for texts in valid UTF-8 and times
  within its range.\<close>

definition codec_ok :: "(lease \<Rightarrow> 'x err + string) \<Rightarrow> (string \<Rightarrow> lease option) \<Rightarrow> lease \<Rightarrow> bool" where
  "codec_ok marshal unmarshal l \<longleftrightarrow> (case marshal l of Inl e \<Rightarrow> True | Inr b \<Rightarrow> unmarshal (b @ [CHR 0x0A]) = Some l)"

text \<open>A load without I/O errors only looks at the file of its subject.\<close>

lemma lease_Load_eq:
  "lease_Load unmarshal no_faults path_sep st s dk =
     (case lease_Path path_sep st s of Inl e \<Rightarrow> (Inl e :: 'x err + lease option)
      | Inr p \<Rightarrow> (case dk p of None \<Rightarrow> Inr None | Some b \<Rightarrow> Inr (unmarshal b)))"
  by (auto simp: lease_Load_def os_ReadFile_def no_faults_def ErrNotExist_def split: option.splits sum.splits)

lemma lease_Load_same:
  assumes "same_leases dk dk'"
  shows "lease_Load unmarshal no_faults path_sep st s dk' = (lease_Load unmarshal no_faults path_sep st s dk :: 'x err + lease option)"
proof (cases "lease_Path path_sep st s :: 'x err + string")
  case (Inr p)
  have "dk' p = dk p" using assms lease_Path_suffix [OF Inr] by (simp add: same_leases_def)
  then show ?thesis by (simp add: lease_Load_eq Inr)
qed (simp add: lease_Load_eq)

lemma lease_Save_cases:
  fixes marshal :: "lease \<Rightarrow> 'x err + string"
  assumes "lease_Save marshal flt path_sep st rnd n l dk = (res, dks)"
  shows "res \<noteq> None \<and> dks = [dk] \<or>
    (\<exists>p b. lease_Path path_sep st (l_Subject l) = (Inr p :: 'x err + string) \<and> marshal l = Inr b
       \<and> save_staged flt p (temp_path (path_Dir p) rnd) (b @ [CHR 0x0A]) n dk = (res, dks))"
  using assms by (auto simp: lease_Save_def Let_def split: sum.splits option.splits if_splits)

lemma save_atomic_aux:
  fixes marshal :: "lease \<Rightarrow> 'x err + string"
  assumes digits: "list_all is_digit rnd" and codec: "codec_ok marshal unmarshal l"
    and run: "lease_Save marshal flt path_sep st rnd n l dk = (res, dks)"
    and load: "load = (\<lambda>dk. lease_Load unmarshal no_faults path_sep st s dk :: 'x err + lease option)"
  shows "dks \<noteq> [] \<and> list_all (\<lambda>dk'. load dk' = load dk \<or> s = l_Subject l \<and> load dk' = Inr (Some l)) dks
    \<and> load (last dks) = (if res = None \<and> s = l_Subject l then Inr (Some l) else load dk)"
  using lease_Save_cases [OF run]
proof (elim disjE exE conjE)
  fix p b assume p: "lease_Path path_sep st (l_Subject l) = (Inr p :: 'x err + string)" and b: "marshal l = Inr b"
    and staged: "save_staged flt p (temp_path (path_Dir p) rnd) (b @ [CHR 0x0A]) n dk = (res, dks)"
  note st = save_staged_states [OF temp_path_no_suffix [OF digits] lease_Path_suffix [OF p] staged]
  have new: "load x = Inr (Some l)" if "s = l_Subject l" "x p = Some (b @ [CHR 0x0A])" for x
    using that codec p b by (simp add: load lease_Load_eq codec_ok_def)
  have old: "load x = load dk" if "\<And>q. lease_Path path_sep st s = (Inr q :: 'x err + string) \<Longrightarrow> x q = dk q" for x
    using that by (auto simp: load lease_Load_eq split: sum.splits)
  have other: "q \<noteq> p" if "lease_Path path_sep st s = (Inr q :: 'x err + string)" "s \<noteq> l_Subject l" for q
    using lease_Path_inj p that by blast
  have "load x = load dk \<or> s = l_Subject l \<and> load x = Inr (Some l)" if "x \<in> set dks" for x
  proof -
    have x: "old_or_new p (b @ [CHR 0x0A]) dk x" using st that by blast
    show ?thesis
    proof (cases "s = l_Subject l \<and> x p = Some (b @ [CHR 0x0A])")
      case False
      then have "x q = dk q" if "lease_Path path_sep st s = (Inr q :: 'x err + string)" for q
        using x lease_Path_suffix [OF that] other [OF that] p that by (auto simp: old_or_new_def)
      then show ?thesis using old by blast
    qed (use new in blast)
  qed
  moreover have "load (last dks) = (if res = None \<and> s = l_Subject l then Inr (Some l) else load dk)"
  proof (cases "res = None \<and> s = l_Subject l")
    case True
    then show ?thesis using st new lease_Path_suffix [OF p] by simp
  next
    case False
    have "last dks q = dk q" if "lease_Path path_sep st s = (Inr q :: 'x err + string)" for q
    proof (cases "res = None")
      case True
      then have "q \<noteq> p" using False other [OF that] by simp
      then show ?thesis using st True lease_Path_suffix [OF that] by simp
    next
      case False
      then show ?thesis using st lease_Path_suffix [OF that] unfolding same_leases_def by presburger
    qed
    from old [OF this] show ?thesis by (simp only: False if_False)
  qed
  ultimately show ?thesis using st by (simp add: list_all_iff)
qed auto

text \<open>C7. \<open>Save\<close> is atomic: on the disk after each of its system calls, however far it gets and whatever
  fails, a reader finds for every subject either the lease that was there before or, for the
  subject saved, the complete new lease; after the return the new lease is there exactly when
  \<open>Save\<close> returned no error.\<close>

theorem lease_save_atomic:
  fixes marshal :: "lease \<Rightarrow> 'x err + string"
  assumes "list_all is_digit rnd" and "codec_ok marshal unmarshal l"
    and "lease_Save marshal flt path_sep st rnd n l dk = (res, dks)"
    and "load = (\<lambda>dk. lease_Load unmarshal no_faults path_sep st s dk :: 'x err + lease option)"
  shows "dks \<noteq> [] \<and> list_all (\<lambda>dk'. load dk' = load dk \<or> s = l_Subject l \<and> load dk' = Inr (Some l)) dks
    \<and> load (last dks) = (if res = None \<and> s = l_Subject l then Inr (Some l) else load dk)"
  using assms by (rule save_atomic_aux)

definition demo_lease :: lease where
  "demo_lease = \<lparr>l_Subject = ''acme'', l_Fingerprint = ''c0ffee'', l_IssuedAt = 100\<rparr>"

definition demo_marshal :: "lease \<Rightarrow> unit err + string" where
  "demo_marshal l = Inr (l_Subject l)"

definition demo_unmarshal :: "string \<Rightarrow> lease option" where
  "demo_unmarshal b = (if b = [] then None else Some (demo_lease\<lparr>l_Subject := butlast b\<rparr>))"

lemma demo_codec: "codec_ok demo_marshal demo_unmarshal demo_lease"
  by (simp add: codec_ok_def demo_marshal_def demo_unmarshal_def demo_lease_def)

theorem lease_save_atomic_witness:
  "\<exists>e dks. lease_Save demo_marshal (no_faults(IoRename := Some ErrExist)) (CHR ''/'') \<lparr>ls_Dir = ''run'', ls_Prefix = ''''\<rparr> ''42'' 0 demo_lease Map.empty
       = (Some e, dks)
     \<and> (lease_Load demo_unmarshal no_faults (CHR ''/'') \<lparr>ls_Dir = ''run'', ls_Prefix = ''''\<rparr> ''acme'' (last dks) :: unit err + lease option)
       = lease_Load demo_unmarshal no_faults (CHR ''/'') \<lparr>ls_Dir = ''run'', ls_Prefix = ''''\<rparr> ''acme'' Map.empty"
proof -
  let ?st = "\<lparr>ls_Dir = ''run'', ls_Prefix = ''''\<rparr>"
  let ?flt = "(no_faults(IoRename := Some ErrExist)) :: unit faults"
  obtain res dks where run: "lease_Save demo_marshal ?flt (CHR ''/'') ?st ''42'' 0 demo_lease Map.empty = (res, dks)"
    by fastforce
  have "checkSubject (CHR ''/'') (l_Subject demo_lease) = (None :: unit err option)"
    by (simp add: checkSubject_def demo_lease_def str_contains_def sublist_code)
  then have "res \<noteq> None"
    using run by (auto simp: lease_Save_def lease_Path_def pathFor_def demo_marshal_def no_faults_def save_staged_def Let_def)
  then obtain e where e: "res = Some e" by blast
  have "list_all is_digit ''42''" by (simp add: is_digit_def)
  from lease_save_atomic [OF this demo_codec run refl, of "''acme''"] show ?thesis
    using run e by (simp add: demo_lease_def)
qed

subsection \<open>The store is a map\<close>

datatype lease_op = OpSave lease | OpConsume string

text \<open>One call, with the random digits, the faults and the length of a failed write it meets.\<close>

fun run_lease_op :: "(lease \<Rightarrow> 'x err + string) \<Rightarrow> char \<Rightarrow> lease_store \<Rightarrow> 'x faults \<times> string \<times> nat \<times> lease_op \<Rightarrow> disk
    \<Rightarrow> 'x err option \<times> disk" where
  "run_lease_op marshal path_sep st (flt, rnd, n, OpSave l) dk =
     (case lease_Save marshal flt path_sep st rnd n l dk of (res, dks) \<Rightarrow> (res, last dks))"
| "run_lease_op marshal path_sep st (flt, rnd, n, OpConsume s) dk = lease_Consume flt path_sep st s dk"

text \<open>The disk after the calls, and the calls that returned no error.\<close>

fun run_leases :: "(lease \<Rightarrow> 'x err + string) \<Rightarrow> char \<Rightarrow> lease_store \<Rightarrow> ('x faults \<times> string \<times> nat \<times> lease_op) list \<Rightarrow> disk
    \<Rightarrow> lease_op list \<times> disk" where
  "run_leases marshal path_sep st [] dk = ([], dk)"
| "run_leases marshal path_sep st (ev # evs) dk =
     (case run_lease_op marshal path_sep st ev dk of (res, dk') \<Rightarrow>
      (case run_leases marshal path_sep st evs dk' of (done_ops, dk'') \<Rightarrow>
        ((if res = None then snd (snd (snd ev)) # done_ops else done_ops), dk'')))"

text \<open>The specification: a map from subjects to leases.\<close>

fun lease_spec :: "lease_op list \<Rightarrow> (string \<rightharpoonup> lease) \<Rightarrow> (string \<rightharpoonup> lease)" where
  "lease_spec [] m = m"
| "lease_spec (OpSave l # ops) m = lease_spec ops (m(l_Subject l \<mapsto> l))"
| "lease_spec (OpConsume s # ops) m = lease_spec ops (m(s := None))"

text \<open>What the code relies on, for one call: names of temporary files end in digits, the codec reads back
  what it wrote, and a failing removal is not reported as a missing file.\<close>

fun event_ok :: "(lease \<Rightarrow> 'x err + string) \<Rightarrow> (string \<Rightarrow> lease option) \<Rightarrow> 'x faults \<times> string \<times> nat \<times> lease_op \<Rightarrow> bool" where
  "event_ok marshal unmarshal (flt, rnd, n, OpSave l) \<longleftrightarrow> list_all is_digit rnd \<and> codec_ok marshal unmarshal l"
| "event_ok marshal unmarshal (flt, rnd, n, OpConsume s) \<longleftrightarrow>
     (case flt IoRemove of None \<Rightarrow> True | Some e \<Rightarrow> \<not> errors_Is e ''os.ErrNotExist'')"

lemma os_Remove_outcome:
  assumes "os_Remove flt p dk = (res, dk')"
    and "case flt IoRemove of None \<Rightarrow> True | Some e \<Rightarrow> \<not> errors_Is e ''os.ErrNotExist''"
  shows "(case res of None \<Rightarrow> True | Some e \<Rightarrow> errors_Is e ''os.ErrNotExist'') \<and> dk' = dk(p := None)
    \<or> (\<exists>e. res = Some e \<and> \<not> errors_Is e ''os.ErrNotExist'') \<and> dk' = dk"
  using assms by (auto simp: os_Remove_def ErrNotExist_def fun_upd_idem split: option.splits)

lemma Consume_outcome:
  fixes flt :: "'x faults"
  assumes "lease_Consume flt path_sep st s dk = (res, dk')"
    and "case flt IoRemove of None \<Rightarrow> True | Some e \<Rightarrow> \<not> errors_Is e ''os.ErrNotExist''"
  shows "res = None \<and> (\<exists>p. lease_Path path_sep st s = (Inr p :: 'x err + string) \<and> dk' = dk(p := None)) \<or> res \<noteq> None \<and> dk' = dk"
proof (cases "lease_Path path_sep st s :: 'x err + string")
  case (Inr p)
  obtain r d where rm: "os_Remove flt p dk = (r, d)" by fastforce
  from os_Remove_outcome [OF this assms(2)] assms(1) show ?thesis
    by (auto simp: lease_Consume_def Inr rm split: option.splits)
qed (use assms(1) in \<open>auto simp: lease_Consume_def\<close>)

lemma Consume_load:
  fixes flt :: "'x faults"
  assumes "lease_Consume flt path_sep st s dk = (res, dk')"
    and "case flt IoRemove of None \<Rightarrow> True | Some e \<Rightarrow> \<not> errors_Is e ''os.ErrNotExist''"
  shows "lease_Load unmarshal no_faults path_sep st s' dk' = (Inr (Some l) :: 'x err + lease option) \<longleftrightarrow>
     \<not> (res = None \<and> s' = s) \<and> lease_Load unmarshal no_faults path_sep st s' dk = (Inr (Some l) :: 'x err + lease option)"
  using Consume_outcome [OF assms]
proof (elim disjE conjE exE)
  fix p assume r: "res = None" and p: "lease_Path path_sep st s = (Inr p :: 'x err + string)" and d: "dk' = dk(p := None)"
  show ?thesis
  proof (cases "s' = s")
    case True
    then show ?thesis by (simp add: lease_Load_eq p d r)
  next
    case False
    then have "q \<noteq> p" if "lease_Path path_sep st s' = (Inr q :: 'x err + string)" for q
      using lease_Path_inj p that by blast
    then show ?thesis using False by (auto simp: lease_Load_eq d split: sum.splits)
  qed
qed simp

definition lease_rel :: "(string \<Rightarrow> lease option) \<Rightarrow> char \<Rightarrow> lease_store \<Rightarrow> 'x itself \<Rightarrow> disk \<Rightarrow> (string \<rightharpoonup> lease) \<Rightarrow> bool" where
  "lease_rel unmarshal path_sep st ty dk m \<longleftrightarrow>
     (\<forall>s l. lease_Load unmarshal no_faults path_sep st s dk = (Inr (Some l) :: 'x err + lease option) \<longleftrightarrow> m s = Some l)
   \<and> (\<forall>s l. m s = Some l \<longrightarrow> l_Subject l = s)"

lemma lease_rel_op:
  fixes marshal :: "lease \<Rightarrow> 'x err + string"
  assumes "lease_rel unmarshal path_sep st TYPE('x) dk m" and "event_ok marshal unmarshal (flt, rnd, n, op)"
    and "run_lease_op marshal path_sep st (flt, rnd, n, op) dk = (res, dk')"
  shows "lease_rel unmarshal path_sep st TYPE('x) dk' (if res = None then lease_spec [op] m else m)"
proof (cases op)
  case (OpSave l)
  then obtain dks where run: "lease_Save marshal flt path_sep st rnd n l dk = (res, dks)" and dk': "dk' = last dks"
    using assms(3) by (auto split: prod.splits)
  have "lease_Load unmarshal no_faults path_sep st s dk' = (if res = None \<and> s = l_Subject l then Inr (Some l)
      else lease_Load unmarshal no_faults path_sep st s dk :: 'x err + lease option)" for s
    using save_atomic_aux [OF _ _ run refl] assms(2) OpSave dk' by auto
  then show ?thesis using assms(1) OpSave by (auto simp: lease_rel_def)
next
  case (OpConsume s)
  then show ?thesis
    using assms(1) Consume_load [of flt path_sep st s dk res dk' unmarshal] assms(2,3) by (auto simp: lease_rel_def)
qed

lemma lease_rel_run:
  fixes marshal :: "lease \<Rightarrow> 'x err + string"
  assumes "run_leases marshal path_sep st evs dk = (ops, dk')" and "list_all (event_ok marshal unmarshal) evs"
    and "lease_rel unmarshal path_sep st TYPE('x) dk m"
  shows "lease_rel unmarshal path_sep st TYPE('x) dk' (lease_spec ops m)"
  using assms
proof (induction evs arbitrary: dk m ops)
  case (Cons ev evs)
  obtain flt rnd n op where ev: "ev = (flt, rnd, n, op)" by (cases ev)
  obtain res d where one: "run_lease_op marshal path_sep st ev dk = (res, d)" by fastforce
  obtain ops' where rest: "run_leases marshal path_sep st evs d = (ops', dk')"
    and ops: "ops = (if res = None then op # ops' else ops')"
    using Cons.prems(1) one ev by (auto split: prod.splits)
  have "lease_rel unmarshal path_sep st TYPE('x) d (if res = None then lease_spec [op] m else m)"
    using lease_rel_op [OF Cons.prems(3), of marshal flt rnd n op res d] Cons.prems(2) one ev by simp
  from Cons.IH [OF rest _ this] Cons.prems(2) have
    "lease_rel unmarshal path_sep st TYPE('x) dk' (lease_spec ops' (if res = None then lease_spec [op] m else m))" by simp
  moreover have "lease_spec ops' (if res = None then lease_spec [op] m else m) = lease_spec ops m"
    by (cases op) (simp_all add: ops)
  ultimately show ?case by simp
qed simp

lemma Lease_Valid_iff:
  assumes "in_int64 window"
  shows "Lease_Valid t s fp window l \<longleftrightarrow>
    l_Subject l = s \<and> l_Fingerprint l = fp \<and> fp \<noteq> '''' \<and> l_IssuedAt l \<le> t \<and> t < l_IssuedAt l + window"
  using assms by (auto simp: Lease_Valid_def time_sub_def in_int64_def Let_def)

text \<open>The lease store refines a map from subjects to leases: after any calls of \<open>Save\<close> and \<open>Consume\<close> on an
  empty directory, failing ones included, a subject's lease carries an action at time \<open>t\<close> exactly when
  the map has one, by the calls that returned no error, with the same non-empty fingerprint and
  an issue time in the window; leases of other subjects never matter.\<close>

theorem lease_carries_action_iff:
  fixes marshal :: "lease \<Rightarrow> 'x err + string"
  assumes "run_leases marshal path_sep st evs Map.empty = (ops, dk)" and "list_all (event_ok marshal unmarshal) evs"
    and "in_int64 window"
  shows "(\<exists>l. lease_Load unmarshal no_faults path_sep st s dk = (Inr (Some l) :: 'x err + lease option) \<and> Lease_Valid t s fp window l)
    \<longleftrightarrow> (\<exists>l. lease_spec ops Map.empty s = Some l \<and> l_Fingerprint l = fp \<and> fp \<noteq> '''' \<and> l_IssuedAt l \<le> t \<and> t < l_IssuedAt l + window)"
proof -
  have "lease_rel unmarshal path_sep st TYPE('x) Map.empty Map.empty"
    by (auto simp: lease_rel_def lease_Load_eq split: sum.splits)
  from lease_rel_run [OF assms(1,2) this] show ?thesis
    by (auto simp: lease_rel_def Lease_Valid_iff [OF assms(3)])
qed

theorem lease_carries_action_iff_witness:
  "\<exists>ops dk. run_leases demo_marshal (CHR ''/'') \<lparr>ls_Dir = ''run'', ls_Prefix = ''''\<rparr> [(no_faults, ''7'', 0, OpSave demo_lease)] Map.empty = (ops, dk)
     \<and> (\<exists>l. lease_Load demo_unmarshal no_faults (CHR ''/'') \<lparr>ls_Dir = ''run'', ls_Prefix = ''''\<rparr> ''acme'' dk = (Inr (Some l) :: unit err + lease option)
          \<and> Lease_Valid 150 ''acme'' ''c0ffee'' 60 l)"
proof -
  let ?st = "\<lparr>ls_Dir = ''run'', ls_Prefix = ''''\<rparr>"
  let ?evs = "[(no_faults :: unit faults, ''7'', 0, OpSave demo_lease)]"
  obtain ops dk where run: "run_leases demo_marshal (CHR ''/'') ?st ?evs Map.empty = (ops, dk)" by fastforce
  have "checkSubject (CHR ''/'') (l_Subject demo_lease) = (None :: unit err option)"
    by (simp add: checkSubject_def demo_lease_def str_contains_def sublist_code)
  then have "ops = [OpSave demo_lease]"
    using run by (auto simp: lease_Save_def lease_Path_def pathFor_def demo_marshal_def no_faults_def save_staged_def Let_def
        split: prod.splits)
  then have spec: "lease_spec ops Map.empty ''acme'' = Some demo_lease" by (simp add: demo_lease_def)
  have ok: "list_all (event_ok demo_marshal demo_unmarshal) ?evs" using demo_codec by (simp add: is_digit_def)
  have w: "in_int64 60" by (simp add: in_int64_def)
  show ?thesis
    using lease_carries_action_iff [OF run ok w, of "''acme''" 150 "''c0ffee''"] run spec by (auto simp: demo_lease_def)
qed

subsection \<open>The refusing lock\<close>

definition DefaultLockPrefix :: string where "DefaultLockPrefix = ''lock.''"

record locker =
  lk_Dir :: string
  lk_Prefix :: string
  lk_Signals :: "string list"

definition locker_prefix :: "locker \<Rightarrow> string" where
  "locker_prefix l = (if lk_Prefix l = '''' then DefaultLockPrefix else lk_Prefix l)"

definition locker_signals :: "locker \<Rightarrow> string list" where
  "locker_signals l = (if lk_Signals l = [] then [''SIGINT'', ''SIGTERM''] else lk_Signals l)"

text \<open>\<open>Acquire\<close> up to the making of the release: the path of the new lock file, or the error. A failed write of
  the process id is ignored.\<close>

definition locker_Acquire :: "'x faults \<Rightarrow> char \<Rightarrow> locker \<Rightarrow> nat \<Rightarrow> string \<Rightarrow> disk \<Rightarrow> ('x err + string) \<times> disk" where
  "locker_Acquire flt path_sep l pid subject dk =
     (case pathFor path_sep (lk_Dir l) (locker_prefix l) subject '''' of
        Inl e \<Rightarrow> (Inl e, dk)
      | Inr p \<Rightarrow> (case flt IoMkdir of
          Some e \<Rightarrow> (Inl (wrapf (''lock directory '' @ lk_Dir l @ '': '') e), dk)
        | None \<Rightarrow> (case (case flt IoOpen of Some e \<Rightarrow> Some e
                     | None \<Rightarrow> if dk p \<noteq> None then Some (wrapf (''open '' @ p @ '': '') ErrExist) else None) of
            Some e \<Rightarrow> if errors_Is e ''os.ErrExist'' then (Inl (wrapf (subject @ '' ('' @ p @ ''): '') ErrLocked), dk)
                       else (Inl (wrapf (''lock '' @ p @ '': '') e), dk)
          | None \<Rightarrow> (Inr p, dk(p \<mapsto> (if flt IoWrite = None then ''pid='' @ show_nat pid @ [CHR 0x0A] else ''''))))))"

definition TryAcquire :: "'x faults \<Rightarrow> char \<Rightarrow> locker \<Rightarrow> nat \<Rightarrow> string \<Rightarrow> disk \<Rightarrow> ('x err + string) \<times> disk" where
  "TryAcquire flt path_sep l pid subject dk =
     (case Subject_Validate path_sep subject of
        Some e \<Rightarrow> (Inl (wrapf ''subject: '' e), dk)
      | None \<Rightarrow> locker_Acquire flt path_sep l pid subject dk)"

text \<open>What a successful call leaves running: the two \<open>sync.Once\<close> of its release, the signals its channel is
  subscribed to, and whether one of them arrived for the watching goroutine.\<close>

record lock_handle =
  hd_path :: string
  hd_notify :: "string list"
  hd_stopped :: bool
  hd_removed :: bool
  hd_signal :: bool

record locker_state =
  lk_disk :: disk
  lk_held :: "nat \<rightharpoonup> lock_handle"

inductive locker_step :: "'x itself \<Rightarrow> char \<Rightarrow> locker_state \<Rightarrow> locker_state \<Rightarrow> bool" for ty :: "'x itself" and path_sep where
  acquired: "TryAcquire (flt :: 'x faults) path_sep l pid subject (lk_disk s) = (Inr p, dk) \<Longrightarrow> lk_held s c = None \<Longrightarrow>
    locker_step ty path_sep s (s\<lparr>lk_disk := dk, lk_held := (lk_held s)(c \<mapsto>
      \<lparr>hd_path = p, hd_notify = locker_signals l, hd_stopped = False, hd_removed = False, hd_signal = False\<rparr>)\<rparr>)"
| refused: "TryAcquire (flt :: 'x faults) path_sep l pid subject (lk_disk s) = (Inl e, dk) \<Longrightarrow>
    locker_step ty path_sep s (s\<lparr>lk_disk := dk\<rparr>)"
| signalled: "lk_held s c = Some h \<Longrightarrow> \<not> hd_stopped h \<Longrightarrow> sig \<in> set (hd_notify h) \<Longrightarrow>
    locker_step ty path_sep s (s\<lparr>lk_held := (lk_held s)(c \<mapsto> h\<lparr>hd_signal := True\<rparr>)\<rparr>)"
| released: "lk_held s c = Some h \<Longrightarrow> \<not> hd_stopped h \<Longrightarrow>
    locker_step ty path_sep s (s\<lparr>lk_held := (lk_held s)(c \<mapsto> h\<lparr>hd_stopped := True\<rparr>)\<rparr>)"
| removed: "lk_held s c = Some h \<Longrightarrow> \<not> hd_removed h \<Longrightarrow> hd_stopped h \<or> hd_signal h \<Longrightarrow>
    locker_step ty path_sep s (s\<lparr>lk_disk := snd (os_Remove (flt :: 'x faults) (hd_path h) (lk_disk s)),
      lk_held := (lk_held s)(c \<mapsto> h\<lparr>hd_removed := True\<rparr>)\<rparr>)"

definition locker_start :: locker_state where
  "locker_start = \<lparr>lk_disk = Map.empty, lk_held = Map.empty\<rparr>"

text \<open>An acquisition is inside its window until its lock file was removed on its behalf.\<close>

definition lock_inside :: "locker_state \<Rightarrow> string \<Rightarrow> nat \<Rightarrow> bool" where
  "lock_inside s p c \<longleftrightarrow> (case lk_held s c of None \<Rightarrow> False | Some h \<Rightarrow> hd_path h = p \<and> \<not> hd_removed h)"

definition locker_safe :: "locker_state \<Rightarrow> bool" where
  "locker_safe s \<longleftrightarrow> (\<forall>p c. lock_inside s p c \<longrightarrow> lk_disk s p \<noteq> None)
     \<and> (\<forall>p c c'. lock_inside s p c \<longrightarrow> lock_inside s p c' \<longrightarrow> c = c')"

lemma locker_Acquire_Inr:
  "locker_Acquire flt path_sep l pid subject dk = (Inr p, dk') \<Longrightarrow> dk p = None \<and> (\<exists>ct. dk' = dk(p \<mapsto> ct))"
  by (auto simp: locker_Acquire_def split: sum.splits option.splits if_splits)

lemma locker_Acquire_Inl: "locker_Acquire flt path_sep l pid subject dk = (Inl e, dk') \<Longrightarrow> dk' = dk"
  by (auto simp: locker_Acquire_def split: sum.splits option.splits if_splits)

lemma TryAcquire_outcome:
  "TryAcquire flt path_sep l pid subject dk = (Inr p, dk') \<Longrightarrow> dk p = None \<and> (\<exists>ct. dk' = dk(p \<mapsto> ct))"
  "TryAcquire flt path_sep l pid subject dk = (Inl e, dk') \<Longrightarrow> dk' = dk"
  by (auto simp: TryAcquire_def dest: locker_Acquire_Inr locker_Acquire_Inl split: option.splits)

lemma locker_safe_step:
  assumes "locker_step ty path_sep s s'" and "locker_safe s"
  shows "locker_safe s'"
  using assms(1)
proof cases
  case (acquired flt l pid subject p dk c)
  have ins: "lock_inside s' q d \<longleftrightarrow> lock_inside s q d \<or> d = c \<and> q = p" for q d
    using acquired(1,3) by (auto simp: lock_inside_def)
  from TryAcquire_outcome(1) [OF acquired(2)] obtain ct where free: "lk_disk s p = None" and dk: "dk = (lk_disk s)(p \<mapsto> ct)"
    by blast
  have none: "\<not> lock_inside s p d" for d using assms(2) free by (auto simp: locker_safe_def)
  have "lk_disk s' = (lk_disk s)(p \<mapsto> ct)" using acquired(1) dk by simp
  then have "lk_disk s' q \<noteq> None" if "lock_inside s' q d" for q d
    using that [unfolded ins] assms(2) by (auto simp: locker_safe_def)
  moreover have "d = d'" if "lock_inside s' q d" "lock_inside s' q d'" for q d d'
    using that assms(2) none by (auto simp: ins locker_safe_def)
  ultimately show ?thesis unfolding locker_safe_def by blast
next
  case (removed c h flt)
  have in_s: "lock_inside s p d \<and> d \<noteq> c" if "lock_inside s' p d" for p d
    using that removed by (auto simp: lock_inside_def split: option.splits if_splits)
  have "lock_inside s (hd_path h) c" using removed by (simp add: lock_inside_def)
  then have other: "p \<noteq> hd_path h" if "lock_inside s' p d" for p d
    using in_s [OF that] assms(2) by (auto simp: locker_safe_def)
  have "lk_disk s' p \<noteq> None" if "lock_inside s' p d" for p d
  proof -
    have "lk_disk s' p = lk_disk s p" using removed(1) os_Remove_other [OF other [OF that]] by simp
    then show ?thesis using in_s [OF that] assms(2) by (auto simp: locker_safe_def)
  qed
  then show ?thesis using in_s assms(2) unfolding locker_safe_def by blast
next
  case (refused flt l pid subject e dk)
  then show ?thesis using assms(2) TryAcquire_outcome(2) [OF refused(2)] by (simp add: locker_safe_def lock_inside_def)
next
  case (signalled c h sig)
  then have "lock_inside s' = lock_inside s" by (auto simp: lock_inside_def fun_eq_iff)
  then show ?thesis using signalled assms(2) by (simp add: locker_safe_def)
next
  case (released c h)
  then have "lock_inside s' = lock_inside s" by (auto simp: lock_inside_def fun_eq_iff)
  then show ?thesis using released assms(2) by (simp add: locker_safe_def)
qed

text \<open>The lock provides the contract of an \<open>Excluder\<close>.\<close>

interpretation excluder: exclusion "locker_step ty path_sep" locker_start locker_safe lock_inside "\<lambda>s p. lk_disk s p \<noteq> None"
  for ty :: "'x itself" and path_sep
proof
  show "locker_safe locker_start" by (simp add: locker_safe_def locker_start_def lock_inside_def)
qed (auto intro: locker_safe_step, auto simp: locker_safe_def)

text \<open>C15. The run-state lock excludes: however acquisitions, releases (repeated ones too) and signals of any
  processes interleave, at most one acquisition of a path is inside; while one is, a further
  attempt for a valid subject of that path, on a file system without faults, is refused with
  \<open>ErrLocked\<close> and changes nothing; and once its file is removed the next attempt gets the lock.\<close>

theorem locker_excludes:
  assumes "(locker_step TYPE('x) path_sep)\<^sup>*\<^sup>* locker_start s" and "lock_inside s p c"
    and "Subject_Validate path_sep subject = (None :: 'x err option)"
    and "pathFor path_sep (lk_Dir l) (locker_prefix l) subject '''' = (Inr p :: 'x err + string)"
  shows "(lock_inside s p c' \<longrightarrow> c = c')
    \<and> (case TryAcquire (no_faults :: 'x faults) path_sep l pid subject (lk_disk s) of
         (Inl e, dk) \<Rightarrow> errors_Is e ''coordination.ErrLocked'' \<and> dk = lk_disk s | (Inr q, dk) \<Rightarrow> False)
    \<and> (case os_Remove (no_faults :: 'x faults) p (lk_disk s) of (r, dk) \<Rightarrow>
         r = None \<and> fst (TryAcquire (no_faults :: 'x faults) path_sep l pid subject dk) = Inr p)"
proof -
  have "lk_disk s p \<noteq> None" using excluder.reach_taken [OF assms(1,2)] .
  then show ?thesis using excluder.reach_alone [OF assms(1,2), of c'] assms(3,4)
    by (auto simp: TryAcquire_def locker_Acquire_def no_faults_def os_Remove_def ErrExist_def ErrLocked_def)
qed

theorem locker_excludes_witness:
  "\<exists>s. (locker_step TYPE(unit) (CHR ''/''))\<^sup>*\<^sup>* locker_start s \<and> lock_inside s ''run/lock.acme'' 1
     \<and> (\<forall>c'. lock_inside s ''run/lock.acme'' c' \<longrightarrow> 1 = c')"
proof -
  let ?l = "\<lparr>lk_Dir = ''run'', lk_Prefix = '''', lk_Signals = []\<rparr>"
  let ?h = "\<lparr>hd_path = ''run/lock.acme'', hd_notify = locker_signals ?l, hd_stopped = False, hd_removed = False, hd_signal = False\<rparr>"
  have v: "Subject_Validate (CHR ''/'') ''acme'' = (None :: unit err option)"
    by (simp add: Subject_Validate_def str_contains_def sublist_code)
  have p: "pathFor (CHR ''/'') (lk_Dir ?l) (locker_prefix ?l) ''acme'' '''' = (Inr ''run/lock.acme'' :: unit err + string)"
    by (simp add: pathFor_def checkSubject_def str_contains_def sublist_code locker_prefix_def DefaultLockPrefix_def
        path_Join_def path_Clean_def has_prefix_def clean_step_def Let_def)
  obtain dk where "TryAcquire (no_faults :: unit faults) (CHR ''/'') ?l 9 ''acme'' (lk_disk locker_start) = (Inr ''run/lock.acme'', dk)"
    using v p by (simp add: TryAcquire_def locker_Acquire_def no_faults_def locker_start_def)
  then have one: "locker_step TYPE(unit) (CHR ''/'') locker_start (locker_start\<lparr>lk_disk := dk, lk_held := (lk_held locker_start)(1 \<mapsto> ?h)\<rparr>)"
    by (rule locker_step.acquired) (simp add: locker_start_def)
  obtain s where s: "(locker_step TYPE(unit) (CHR ''/''))\<^sup>*\<^sup>* locker_start s" "lock_inside s ''run/lock.acme'' 1"
  proof
    show "(locker_step TYPE(unit) (CHR ''/''))\<^sup>*\<^sup>* locker_start (locker_start\<lparr>lk_disk := dk, lk_held := (lk_held locker_start)(1 \<mapsto> ?h)\<rparr>)"
      by (rule r_into_rtranclp) (rule one)
  qed (simp add: lock_inside_def)
  show ?thesis using locker_excludes [OF s v p] s by blast
qed

end
