(* ===== verification/Datadiff_Sets.thy ===== *)
theory Datadiff_Sets
  imports Prelude "HOL-Library.Multiset"
begin

section \<open>dataquality/datadiff: set, map and three-way comparison\<close>

text \<open>
  \<open>src/go/dataquality/datadiff/setdiff.go\<close>. The Go maps used as sets are sets; the loops run over the
  slices in order. Iterating over a Go map visits its keys in an unspecified order, so \<open>MapDiff\<close> takes
  the two orders it happens to meet as arguments. Element types have a reflexive equality (every Go
  \<open>comparable\<close> but a NaN).
\<close>

subsection \<open>SetDiff\<close>

record 'a set_result =
  sr_LeftOnly :: "'a list"
  sr_RightOnly :: "'a list"
  sr_Intersection :: "'a list"

definition set_Match :: "'a set_result \<Rightarrow> bool" where
  "set_Match r \<longleftrightarrow> length (sr_LeftOnly r) = 0 \<and> length (sr_RightOnly r) = 0"

definition IsSubset :: "'a set_result \<Rightarrow> bool" where
  "IsSubset r \<longleftrightarrow> length (sr_LeftOnly r) = 0"

definition IsSuperset :: "'a set_result \<Rightarrow> bool" where
  "IsSuperset r \<longleftrightarrow> length (sr_RightOnly r) = 0"

definition IsDisjoint :: "'a set_result \<Rightarrow> bool" where
  "IsDisjoint r \<longleftrightarrow> length (sr_Intersection r) = 0"

text \<open>The loop over \<open>left\<close>: the two slices it appends to and the set of elements seen.\<close>

fun left_loop :: "'a set \<Rightarrow> 'a list \<Rightarrow> 'a set \<Rightarrow> 'a list \<Rightarrow> 'a list \<Rightarrow> 'a list \<times> 'a list \<times> 'a set" where
  "left_loop rightSet [] leftSet leftOnly common = (leftOnly, common, leftSet)"
| "left_loop rightSet (v # vs) leftSet leftOnly common =
     (if v \<in> leftSet then left_loop rightSet vs leftSet leftOnly common
      else if v \<in> rightSet then left_loop rightSet vs (insert v leftSet) leftOnly (common @ [v])
      else left_loop rightSet vs (insert v leftSet) (leftOnly @ [v]) common)"

text \<open>The loop over \<open>right\<close>, which deletes what it appended from \<open>rightSet\<close>.\<close>

fun right_loop :: "'a set \<Rightarrow> 'a list \<Rightarrow> 'a set \<Rightarrow> 'a list \<Rightarrow> 'a list" where
  "right_loop leftSet [] rightSet rightOnly = rightOnly"
| "right_loop leftSet (v # vs) rightSet rightOnly =
     (if v \<notin> leftSet \<and> v \<in> rightSet then right_loop leftSet vs (rightSet - {v}) (rightOnly @ [v])
      else right_loop leftSet vs rightSet rightOnly)"

definition SetDiff :: "'a list \<Rightarrow> 'a list \<Rightarrow> 'a set_result" where
  "SetDiff left right =
     (let rightSet = set right in
      case left_loop rightSet left {} [] [] of (leftOnly, common, leftSet) \<Rightarrow>
        \<lparr>sr_LeftOnly = leftOnly, sr_RightOnly = right_loop leftSet right rightSet [], sr_Intersection = common\<rparr>)"

lemma left_loop_eq:
  "left_loop R vs L lo it =
     (lo @ filter (\<lambda>v. v \<notin> R) (first_seen L vs), it @ filter (\<lambda>v. v \<in> R) (first_seen L vs), L \<union> set vs)"
  by (induction R vs L lo it rule: left_loop.induct) auto

lemma right_loop_eq: "right_loop L vs R ro = ro @ first_seen (L \<union> - R) vs"
proof (induction L vs R ro rule: right_loop.induct)
  case (2 L v vs R ro)
  have "L \<union> - (R - {v}) = insert v (L \<union> - R)" by auto
  then show ?case using 2 by auto
qed simp

lemma right_only_eq: "right_loop L vs (set vs) [] = filter (\<lambda>v. v \<notin> L) (first_seen {} vs)"
proof -
  have "first_seen (L \<union> - set vs) vs = first_seen (L \<union> {}) vs" by (rule first_seen_cong) auto
  then show ?thesis by (simp only: right_loop_eq first_seen_Un append_Nil)
qed

text \<open>\<open>SetDiff\<close> is set comparison with the order of first occurrence: the three slices are the elements of
  one side only and of both, each once, and the four predicates decide equality, inclusion both
  ways and disjointness of the two collections as sets.\<close>

theorem setdiff_refines_sets:
  "sr_LeftOnly (SetDiff left right) = filter (\<lambda>v. v \<notin> set right) (first_seen {} left)
   \<and> sr_Intersection (SetDiff left right) = filter (\<lambda>v. v \<in> set right) (first_seen {} left)
   \<and> sr_RightOnly (SetDiff left right) = filter (\<lambda>v. v \<notin> set left) (first_seen {} right)
   \<and> (set_Match (SetDiff left right) \<longleftrightarrow> set left = set right)
   \<and> (IsSubset (SetDiff left right) \<longleftrightarrow> set left \<subseteq> set right)
   \<and> (IsSuperset (SetDiff left right) \<longleftrightarrow> set right \<subseteq> set left)
   \<and> (IsDisjoint (SetDiff left right) \<longleftrightarrow> set left \<inter> set right = {})"
proof -
  have "SetDiff left right = \<lparr>sr_LeftOnly = filter (\<lambda>v. v \<notin> set right) (first_seen {} left),
      sr_RightOnly = filter (\<lambda>v. v \<notin> set left) (first_seen {} right),
      sr_Intersection = filter (\<lambda>v. v \<in> set right) (first_seen {} left)\<rparr>"
    by (simp add: SetDiff_def Let_def left_loop_eq right_only_eq)
  then show ?thesis
    by (auto simp: set_Match_def IsSubset_def IsSuperset_def IsDisjoint_def filter_empty_conv)
qed

subsection \<open>MapDiff\<close>

record ('k, 'v) map_result =
  mr_Identical :: "'k \<rightharpoonup> 'v"
  mr_LeftOnly :: "'k \<rightharpoonup> 'v"
  mr_RightOnly :: "'k \<rightharpoonup> 'v"
  mr_Mismatched :: "'k \<rightharpoonup> 'v \<times> 'v"

definition empty_map_result :: "('k, 'v) map_result" where
  "empty_map_result = \<lparr>mr_Identical = Map.empty, mr_LeftOnly = Map.empty, mr_RightOnly = Map.empty, mr_Mismatched = Map.empty\<rparr>"

text \<open>A nil \<open>equals\<close> compares what \<open>fmt.Sprint\<close> prints of the two values (\<open>sprint\<close>).\<close>

definition values_match :: "('v \<Rightarrow> string) \<Rightarrow> ('v \<Rightarrow> 'v \<Rightarrow> bool) option \<Rightarrow> 'v \<Rightarrow> 'v \<Rightarrow> bool" where
  "values_match sprint equals lv rv = (case equals of Some eq \<Rightarrow> eq lv rv | None \<Rightarrow> sprint lv = sprint rv)"

definition left_key :: "('v \<Rightarrow> string) \<Rightarrow> ('v \<Rightarrow> 'v \<Rightarrow> bool) option \<Rightarrow> ('k \<rightharpoonup> 'v) \<Rightarrow> ('k \<rightharpoonup> 'v) \<Rightarrow> 'k \<Rightarrow> ('k, 'v) map_result \<Rightarrow> ('k, 'v) map_result" where
  "left_key sprint equals left right k res =
     (case left k of
        None \<Rightarrow> res
      | Some lv \<Rightarrow> (case right k of
          None \<Rightarrow> res\<lparr>mr_LeftOnly := (mr_LeftOnly res)(k \<mapsto> lv)\<rparr>
        | Some rv \<Rightarrow> if values_match sprint equals lv rv then res\<lparr>mr_Identical := (mr_Identical res)(k \<mapsto> lv)\<rparr>
            else res\<lparr>mr_Mismatched := (mr_Mismatched res)(k \<mapsto> (lv, rv))\<rparr>))"

definition right_key :: "('k \<rightharpoonup> 'v) \<Rightarrow> ('k \<rightharpoonup> 'v) \<Rightarrow> 'k \<Rightarrow> ('k, 'v) map_result \<Rightarrow> ('k, 'v) map_result" where
  "right_key left right k res =
     (case right k of
        None \<Rightarrow> res
      | Some rv \<Rightarrow> if left k = None then res\<lparr>mr_RightOnly := (mr_RightOnly res)(k \<mapsto> rv)\<rparr> else res)"

definition MapDiff :: "('v \<Rightarrow> string) \<Rightarrow> ('v \<Rightarrow> 'v \<Rightarrow> bool) option \<Rightarrow> 'k list \<Rightarrow> 'k list \<Rightarrow> ('k \<rightharpoonup> 'v) \<Rightarrow> ('k \<rightharpoonup> 'v) \<Rightarrow> ('k, 'v) map_result" where
  "MapDiff sprint equals lorder rorder left right =
     fold (right_key left right) rorder (fold (left_key sprint equals left right) lorder empty_map_result)"

definition map_Match :: "('k, 'v) map_result \<Rightarrow> bool" where
  "map_Match r \<longleftrightarrow> card (dom (mr_LeftOnly r)) = 0 \<and> card (dom (mr_RightOnly r)) = 0 \<and> card (dom (mr_Mismatched r)) = 0"

definition map_Summary :: "('k, 'v) map_result \<Rightarrow> string" where
  "map_Summary r = ''identical='' @ show_nat (card (dom (mr_Identical r))) @ '' left_only='' @ show_nat (card (dom (mr_LeftOnly r)))
     @ '' right_only='' @ show_nat (card (dom (mr_RightOnly r))) @ '' mismatched='' @ show_nat (card (dom (mr_Mismatched r)))"

text \<open>Keys of both maps whose values match, and those whose values do not.\<close>

definition agree :: "('v \<Rightarrow> 'v \<Rightarrow> bool) \<Rightarrow> ('k \<rightharpoonup> 'v) \<Rightarrow> ('k \<rightharpoonup> 'v) \<Rightarrow> 'k \<Rightarrow> bool" where
  "agree eq left right k \<longleftrightarrow> (case (left k, right k) of (Some lv, Some rv) \<Rightarrow> eq lv rv | _ \<Rightarrow> False)"

lemma left_key_sel:
  "mr_Identical (left_key sprint equals left right k res) =
     (if agree (values_match sprint equals) left right k then (mr_Identical res)(k := left k) else mr_Identical res)"
  "mr_LeftOnly (left_key sprint equals left right k res) =
     (if left k \<noteq> None \<and> right k = None then (mr_LeftOnly res)(k := left k) else mr_LeftOnly res)"
  "mr_Mismatched (left_key sprint equals left right k res) =
     (if left k \<noteq> None \<and> right k \<noteq> None \<and> \<not> agree (values_match sprint equals) left right k
      then (mr_Mismatched res)(k \<mapsto> (the (left k), the (right k))) else mr_Mismatched res)"
  "mr_RightOnly (left_key sprint equals left right k res) = mr_RightOnly res"
  by (auto simp: left_key_def agree_def split: option.splits)

lemma right_key_sel:
  "mr_Identical (right_key left right k res) = mr_Identical res"
  "mr_LeftOnly (right_key left right k res) = mr_LeftOnly res"
  "mr_Mismatched (right_key left right k res) = mr_Mismatched res"
  "mr_RightOnly (right_key left right k res) =
     (if right k \<noteq> None \<and> left k = None then (mr_RightOnly res)(k := right k) else mr_RightOnly res)"
  by (auto simp: right_key_def split: option.splits)

lemma left_fold:
  "mr_Identical (fold (left_key sprint equals left right) ks res) j =
     (if j \<in> set ks \<and> agree (values_match sprint equals) left right j then left j else mr_Identical res j)"
  "mr_LeftOnly (fold (left_key sprint equals left right) ks res) j =
     (if j \<in> set ks \<and> left j \<noteq> None \<and> right j = None then left j else mr_LeftOnly res j)"
  "mr_Mismatched (fold (left_key sprint equals left right) ks res) j =
     (if j \<in> set ks \<and> left j \<noteq> None \<and> right j \<noteq> None \<and> \<not> agree (values_match sprint equals) left right j
      then Some (the (left j), the (right j)) else mr_Mismatched res j)"
  "mr_RightOnly (fold (left_key sprint equals left right) ks res) j = mr_RightOnly res j"
  by (induction ks arbitrary: res) (auto simp: left_key_sel)

lemma right_fold:
  "mr_Identical (fold (right_key left right) ks res) j = mr_Identical res j"
  "mr_LeftOnly (fold (right_key left right) ks res) j = mr_LeftOnly res j"
  "mr_Mismatched (fold (right_key left right) ks res) j = mr_Mismatched res j"
  "mr_RightOnly (fold (right_key left right) ks res) j =
     (if j \<in> set ks \<and> right j \<noteq> None \<and> left j = None then right j else mr_RightOnly res j)"
  by (induction ks arbitrary: res) (auto simp: right_key_sel)

lemma MapDiff_at:
  assumes "set lorder = dom left" and "set rorder = dom right"
    and "r = MapDiff sprint equals lorder rorder left right"
  shows "(mr_Identical r k, mr_LeftOnly r k, mr_RightOnly r k, mr_Mismatched r k) =
    (case (left k, right k) of
       (None, None) \<Rightarrow> (None, None, None, None)
     | (Some lv, None) \<Rightarrow> (None, Some lv, None, None)
     | (None, Some rv) \<Rightarrow> (None, None, Some rv, None)
     | (Some lv, Some rv) \<Rightarrow> if values_match sprint equals lv rv then (Some lv, None, None, None)
         else (None, None, None, Some (lv, rv)))"
proof -
  have "k \<in> set lorder \<longleftrightarrow> left k \<noteq> None" "k \<in> set rorder \<longleftrightarrow> right k \<noteq> None" using assms(1,2) by (simp_all add: domIff)
  then show ?thesis
    by (cases "left k"; cases "right k") (simp_all add: assms(3) MapDiff_def left_fold right_fold empty_map_result_def agree_def)
qed

text \<open>\<open>MapDiff\<close>, in whatever order the runtime visits the keys, puts every key of the two maps in exactly one
  of its four parts, with its values, and \<open>Match\<close> holds exactly when the maps have the same keys and
  values that match under the given (or the default) comparison.\<close>

theorem mapdiff_partitions:
  assumes "set lorder = dom left" and "set rorder = dom right"
    and "r = MapDiff sprint equals lorder rorder left right"
  shows "(mr_Identical r k, mr_LeftOnly r k, mr_RightOnly r k, mr_Mismatched r k) =
     (case (left k, right k) of
        (None, None) \<Rightarrow> (None, None, None, None)
      | (Some lv, None) \<Rightarrow> (None, Some lv, None, None)
      | (None, Some rv) \<Rightarrow> (None, None, Some rv, None)
      | (Some lv, Some rv) \<Rightarrow> if values_match sprint equals lv rv then (Some lv, None, None, None)
          else (None, None, None, Some (lv, rv)))
    \<and> (map_Match r \<longleftrightarrow> dom left = dom right \<and> list_all (agree (values_match sprint equals) left right) lorder)"
proof -
  note at = MapDiff_at [OF assms]
  have in_parts: "mr_LeftOnly r k \<noteq> None \<longleftrightarrow> left k \<noteq> None \<and> right k = None"
    "mr_RightOnly r k \<noteq> None \<longleftrightarrow> right k \<noteq> None \<and> left k = None"
    "mr_Mismatched r k \<noteq> None \<longleftrightarrow> left k \<noteq> None \<and> right k \<noteq> None \<and> \<not> agree (values_match sprint equals) left right k" for k
    using MapDiff_at [OF assms, of k] by (cases "left k"; cases "right k"; simp add: agree_def split: if_splits)+
  have parts: "dom (mr_LeftOnly r) = dom left - dom right" "dom (mr_RightOnly r) = dom right - dom left"
    "dom (mr_Mismatched r) = {k \<in> dom left \<inter> dom right. \<not> agree (values_match sprint equals) left right k}"
    unfolding dom_def in_parts by auto
  have "finite (dom left)" "finite (dom right)" using assms(1,2) by (metis List.finite_set)+
  then have "map_Match r \<longleftrightarrow> dom left - dom right = {} \<and> dom right - dom left = {}
      \<and> {k \<in> dom left \<inter> dom right. \<not> agree (values_match sprint equals) left right k} = {}"
    unfolding map_Match_def parts by (simp add: card_eq_0_iff)
  also have "\<dots> \<longleftrightarrow> dom left = dom right \<and> list_all (agree (values_match sprint equals) left right) lorder"
    unfolding list_all_iff assms(1) by blast
  finally show ?thesis using at by blast
qed

theorem mapdiff_partitions_witness:
  "\<exists>r :: (int, int) map_result. mr_Mismatched r 1 = Some (5, 6) \<and> mr_RightOnly r 2 = Some 7 \<and> \<not> map_Match r"
proof -
  let ?l = "[1 \<mapsto> 5] :: int \<rightharpoonup> int" and ?r = "[1 \<mapsto> 6, 2 \<mapsto> 7] :: int \<rightharpoonup> int"
  have o: "set [1] = dom ?l" "set [2, 1] = dom ?r" by auto
  obtain r where r: "r = MapDiff show_int (Some (=)) [1] [2, 1] ?l ?r" by blast
  have "mr_Mismatched r 1 = Some (5, 6)"
    using mapdiff_partitions [OF o r, of 1] by (simp add: values_match_def)
  moreover have "mr_RightOnly r 2 = Some 7"
    using mapdiff_partitions [OF o r, of 2] by (simp add: values_match_def)
  moreover have "\<not> map_Match r"
    using mapdiff_partitions [OF o r, of 1] by (simp add: values_match_def agree_def)
  ultimately show ?thesis by blast
qed

subsection \<open>ThreeWayDiff\<close>

record 'a three_way_result =
  tw_Moved :: "'a list"
  tw_Leftovers :: "'a list"
  tw_MissingFromTarget :: "'a list"
  tw_UnaccountedTarget :: "'a list"

definition tw_Passed :: "'a three_way_result \<Rightarrow> bool" where
  "tw_Passed r \<longleftrightarrow> length (tw_Leftovers r) = 0 \<and> length (tw_MissingFromTarget r) = 0 \<and> length (tw_UnaccountedTarget r) = 0"

fun baseline_loop :: "'a set \<Rightarrow> 'a set \<Rightarrow> 'a list \<Rightarrow> 'a set \<Rightarrow> 'a list \<times> 'a list \<times> 'a list \<Rightarrow> ('a list \<times> 'a list \<times> 'a list) \<times> 'a set" where
  "baseline_loop targetSet leftoverSet [] baselineSet acc = (acc, baselineSet)"
| "baseline_loop targetSet leftoverSet (v # vs) baselineSet (moved, left, missing) =
     (if v \<in> baselineSet then baseline_loop targetSet leftoverSet vs baselineSet (moved, left, missing)
      else baseline_loop targetSet leftoverSet vs (insert v baselineSet)
        (if v \<in> leftoverSet then (moved, left @ [v], missing)
         else if v \<in> targetSet then (moved @ [v], left, missing)
         else (moved, left, missing @ [v])))"

fun target_loop :: "'a set \<Rightarrow> 'a list \<Rightarrow> 'a set \<Rightarrow> 'a list \<Rightarrow> 'a list" where
  "target_loop baselineSet [] seenTarget unaccounted = unaccounted"
| "target_loop baselineSet (v # vs) seenTarget unaccounted =
     (if v \<in> seenTarget then target_loop baselineSet vs seenTarget unaccounted
      else target_loop baselineSet vs (insert v seenTarget) (if v \<notin> baselineSet then unaccounted @ [v] else unaccounted))"

definition ThreeWayDiff :: "'a list \<Rightarrow> 'a list \<Rightarrow> 'a list \<Rightarrow> 'a three_way_result" where
  "ThreeWayDiff baseline target leftovers =
     (case baseline_loop (set target) (set leftovers) baseline {} ([], [], []) of
        ((moved, left, missing), baselineSet) \<Rightarrow>
          \<lparr>tw_Moved = moved, tw_Leftovers = left, tw_MissingFromTarget = missing,
           tw_UnaccountedTarget = target_loop baselineSet target {} []\<rparr>)"

lemma baseline_loop_eq:
  "baseline_loop T L vs B (m, l, x) =
     ((m @ filter (\<lambda>v. v \<notin> L \<and> v \<in> T) (first_seen B vs), l @ filter (\<lambda>v. v \<in> L) (first_seen B vs),
       x @ filter (\<lambda>v. v \<notin> L \<and> v \<notin> T) (first_seen B vs)), B \<union> set vs)"
  by (induction vs arbitrary: B m l x) auto

lemma target_loop_eq: "target_loop B vs S u = u @ filter (\<lambda>v. v \<notin> B) (first_seen S vs)"
  by (induction B vs S u rule: target_loop.induct) auto

text \<open>\<open>ThreeWayDiff\<close> accounts for everything: each distinct baseline item is in exactly one of \<open>Moved\<close>,
  \<open>Leftovers\<close> and \<open>MissingFromTarget\<close>, each with its documented meaning and in order, each distinct
  target item outside the baseline is unaccounted for; and \<open>Passed\<close> holds exactly when the target has
  exactly the baseline's items and no baseline item is left over, so that the migration equation
  (baseline without leftovers is the target) holds.\<close>

theorem three_way_accounts_for_everything:
  "tw_Moved (ThreeWayDiff baseline target leftovers) = filter (\<lambda>v. v \<in> set target \<and> v \<notin> set leftovers) (first_seen {} baseline)
   \<and> tw_Leftovers (ThreeWayDiff baseline target leftovers) = filter (\<lambda>v. v \<in> set leftovers) (first_seen {} baseline)
   \<and> tw_MissingFromTarget (ThreeWayDiff baseline target leftovers) =
       filter (\<lambda>v. v \<notin> set target \<and> v \<notin> set leftovers) (first_seen {} baseline)
   \<and> tw_UnaccountedTarget (ThreeWayDiff baseline target leftovers) = filter (\<lambda>v. v \<notin> set baseline) (first_seen {} target)
   \<and> mset (tw_Moved (ThreeWayDiff baseline target leftovers)) + mset (tw_Leftovers (ThreeWayDiff baseline target leftovers))
       + mset (tw_MissingFromTarget (ThreeWayDiff baseline target leftovers)) = mset (first_seen {} baseline)
   \<and> (tw_Passed (ThreeWayDiff baseline target leftovers) \<longleftrightarrow>
        set target = set baseline \<and> set baseline \<inter> set leftovers = {} \<and> set baseline - set leftovers = set target)"
proof -
  have eq: "ThreeWayDiff baseline target leftovers =
      \<lparr>tw_Moved = filter (\<lambda>v. v \<in> set target \<and> v \<notin> set leftovers) (first_seen {} baseline),
       tw_Leftovers = filter (\<lambda>v. v \<in> set leftovers) (first_seen {} baseline),
       tw_MissingFromTarget = filter (\<lambda>v. v \<notin> set target \<and> v \<notin> set leftovers) (first_seen {} baseline),
       tw_UnaccountedTarget = filter (\<lambda>v. v \<notin> set baseline) (first_seen {} target)\<rparr>"
    by (simp add: ThreeWayDiff_def baseline_loop_eq target_loop_eq conj_commute)
  have "mset (filter (\<lambda>v. v \<in> T \<and> v \<notin> L) xs) + mset (filter (\<lambda>v. v \<in> L) xs) + mset (filter (\<lambda>v. v \<notin> T \<and> v \<notin> L) xs) = mset xs"
    for T L and xs :: "'a list" by (induction xs) auto
  then show ?thesis by (auto simp: eq tw_Passed_def filter_empty_conv)
qed

end
