(* ===== verification/Go_Float.thy ===== *)
theory Go_Float
  imports Prelude "HOL-Library.Log_Nat"
begin

section \<open>float64\<close>

text \<open>
  The part of Go's \<open>float64\<close> (IEEE 754 binary64, round to nearest even) that the statistics comparison
  uses. Finite values are rationals; the sign of zero is not observable through the operations here.
  \<open>math.Max\<close> gives an infinite argument priority over a NaN, as the package documents.
\<close>

datatype float64 = NaN | PosInf | NegInf | Fin rat

definition pow2 :: "int \<Rightarrow> rat" where
  "pow2 e = (if e \<ge> 0 then 2 ^ nat e else 1 / 2 ^ nat (- e))"

definition round_half_even :: "rat \<Rightarrow> int" where
  "round_half_even x = (let f = \<lfloor>x\<rfloor>; d = x - of_int f in
     if d < 1 / 2 then f else if d > 1 / 2 then f + 1 else if even f then f else f + 1)"

text \<open>The binary exponent of a positive rational: the \<open>e\<close> with \<open>2^e \<le> q < 2^(e+1)\<close>.\<close>

definition binary_exponent :: "rat \<Rightarrow> int" where
  "binary_exponent q = (case quotient_of q of (n, d) \<Rightarrow>
     let e = bitlen n - bitlen d in if q < pow2 e then e - 1 else e)"

definition round64 :: "rat \<Rightarrow> float64" where
  "round64 q = (if q = 0 then Fin 0 else
     let e = max (binary_exponent \<bar>q\<bar> - 52) (- 1074);
         r = of_int (round_half_even (q / pow2 e)) * pow2 e
     in if r \<ge> pow2 1024 then PosInf else if r \<le> - pow2 1024 then NegInf else Fin r)"

definition is_finite :: "float64 \<Rightarrow> bool" where
  "is_finite x \<longleftrightarrow> (case x of Fin q \<Rightarrow> True | _ \<Rightarrow> False)"

fun feq :: "float64 \<Rightarrow> float64 \<Rightarrow> bool" where
  "feq (Fin a) (Fin b) = (a = b)"
| "feq PosInf PosInf = True"
| "feq NegInf NegInf = True"
| "feq _ _ = False"

fun fle :: "float64 \<Rightarrow> float64 \<Rightarrow> bool" where
  "fle (Fin a) (Fin b) = (a \<le> b)"
| "fle NaN _ = False"
| "fle _ NaN = False"
| "fle NegInf _ = True"
| "fle _ PosInf = True"
| "fle _ _ = False"

definition fless :: "float64 \<Rightarrow> float64 \<Rightarrow> bool" where
  "fless a b \<longleftrightarrow> fle a b \<and> \<not> fle b a"

fun fabs :: "float64 \<Rightarrow> float64" where
  "fabs (Fin a) = Fin \<bar>a\<bar>"
| "fabs NaN = NaN"
| "fabs _ = PosInf"

fun fmax :: "float64 \<Rightarrow> float64 \<Rightarrow> float64" where
  "fmax PosInf _ = PosInf"
| "fmax _ PosInf = PosInf"
| "fmax NaN _ = NaN"
| "fmax _ NaN = NaN"
| "fmax NegInf b = b"
| "fmax a NegInf = a"
| "fmax (Fin a) (Fin b) = Fin (max a b)"

fun fsub :: "float64 \<Rightarrow> float64 \<Rightarrow> float64" where
  "fsub NaN _ = NaN"
| "fsub _ NaN = NaN"
| "fsub (Fin a) (Fin b) = round64 (a - b)"
| "fsub PosInf PosInf = NaN"
| "fsub NegInf NegInf = NaN"
| "fsub PosInf _ = PosInf"
| "fsub NegInf _ = NegInf"
| "fsub (Fin a) PosInf = NegInf"
| "fsub (Fin a) NegInf = PosInf"

text \<open>Division by a divisor that is not negative (the code divides by the larger magnitude).\<close>

fun fdiv :: "float64 \<Rightarrow> float64 \<Rightarrow> float64" where
  "fdiv NaN _ = NaN"
| "fdiv _ NaN = NaN"
| "fdiv (Fin a) (Fin b) = (if b = 0 then (if a = 0 then NaN else if a > 0 then PosInf else NegInf) else round64 (a / b))"
| "fdiv (Fin a) _ = Fin 0"
| "fdiv PosInf (Fin b) = PosInf"
| "fdiv NegInf (Fin b) = NegInf"
| "fdiv _ _ = NaN"

definition float_of_int :: "int \<Rightarrow> float64" where
  "float_of_int n = round64 (of_int n)"

lemma fle_NaN [simp]: "\<not> fle NaN x" "\<not> fle x NaN"
  by (cases x; simp)+

lemma is_finite_simps [simp]: "is_finite (Fin q)" "\<not> is_finite NaN" "\<not> is_finite PosInf" "\<not> is_finite NegInf"
  by (simp_all add: is_finite_def)

text \<open>A difference that involves a value that is not finite, relative to the larger magnitude, is never a
  number, unless the two are the same infinity.\<close>

lemma relative_difference_NaN:
  assumes "\<not> is_finite l \<or> \<not> is_finite r" and "\<not> feq l r"
  shows "fdiv (fabs (fsub l r)) (fmax (fabs l) (fabs r)) = NaN"
  using assms by (cases l; cases r) auto

lemma round_half_even_int [simp]: "round_half_even (of_int n) = n"
  by (simp add: round_half_even_def Let_def)

text \<open>Integers up to \<open>2^53\<close> in magnitude are represented exactly.\<close>

lemma binary_exponent_int: "0 < n \<Longrightarrow> n < 2 ^ 53 \<Longrightarrow> binary_exponent (of_int n) \<le> 52"
proof -
  assume n: "0 < n" "n < 2 ^ 53"
  then have "bitlen n \<le> 53" by (simp add: bitlen_le_iff_power)
  then show ?thesis by (simp add: binary_exponent_def bitlen_def compute_floorlog Let_def)
qed

lemma float_of_int_exact:
  assumes "\<bar>n\<bar> < 2 ^ 53"
  shows "float_of_int n = Fin (of_int n)"
proof (cases "n = 0")
  case False
  define e where "e = max (binary_exponent \<bar>of_int n\<bar> - 52) (- 1074)"
  have e: "e \<le> 0" using binary_exponent_int [of "\<bar>n\<bar>"] False assms by (simp add: e_def)
  have p: "pow2 e = 1 / 2 ^ nat (- e)" using e by (simp add: pow2_def)
  have "of_int n / pow2 e = (of_int (n * 2 ^ nat (- e)) :: rat)" by (simp add: p)
  then have "round_half_even (of_int n / pow2 e) = n * 2 ^ nat (- e)" by (simp only: round_half_even_int)
  then have r: "of_int (round_half_even (of_int n / pow2 e)) * pow2 e = (of_int n :: rat)" by (simp add: p)
  have "(of_int \<bar>n\<bar> :: rat) < of_int (2 ^ 53)" using assms by (simp only: of_int_less_iff)
  also have "(of_int (2 ^ 53) :: rat) \<le> pow2 1024" by (simp add: pow2_def power_increasing)
  finally have "\<bar>of_int n :: rat\<bar> < pow2 1024" by simp
  then have "\<not> of_int n \<ge> pow2 1024" "\<not> of_int n \<le> - pow2 1024" by linarith+
  moreover have "round64 (of_int n) = (if of_int n \<ge> pow2 1024 then PosInf else if of_int n \<le> - pow2 1024 then NegInf else Fin (of_int n))"
    unfolding round64_def Let_def e_def [symmetric] r using False by (simp only: of_int_eq_0_iff if_False)
  ultimately show ?thesis by (simp only: float_of_int_def if_False)
qed (simp add: float_of_int_def round64_def)

end
