(* ===== verification/Datadiff.thy ===== *)
theory Datadiff
  imports Datadiff_Sets Go_Float Go_Errors
begin

section \<open>dataquality/datadiff: targets, schemas, statistics and the layered comparison\<close>

text \<open>
  \<open>src/go/dataquality/datadiff/\<close>: \<open>target.go\<close>, \<open>format.go\<close> (parsing), \<open>result.go\<close>, \<open>diff.go\<close>, \<open>compare.go\<close> and the
  port \<open>comparator.go\<close>, whose implementations are callbacks over a world. \<open>PrintResult\<close> and \<open>PrintCost\<close>
  write to the terminal and are left out.
\<close>

subsection \<open>Targets\<close>

record target =
  tg_Project :: string
  tg_Dataset :: string
  tg_Table :: string

definition target_String :: "target \<Rightarrow> string" where
  "target_String t = tg_Project t @ ''.'' @ tg_Dataset t @ ''.'' @ tg_Table t"

definition FullyQualified :: "target \<Rightarrow> string" where
  "FullyQualified t = [CHR 0x60] @ tg_Project t @ ''.'' @ tg_Dataset t @ ''.'' @ tg_Table t @ [CHR 0x60]"

text \<open>\<open>strings.SplitN\<close> for a one-byte separator and a positive count.\<close>

fun split_n :: "nat \<Rightarrow> char \<Rightarrow> string \<Rightarrow> string list" where
  "split_n 0 sep s = []"
| "split_n (Suc 0) sep s = [s]"
| "split_n (Suc (Suc n)) sep s = (case str_cut sep s of (b, a, found) \<Rightarrow> if found then b # split_n (Suc n) sep a else [s])"

definition ErrInvalidTarget :: "'x err" where
  "ErrInvalidTarget = sentinel ''datadiff.ErrInvalidTarget'' ''expected project.dataset.table''"

definition ParseTarget :: "string \<Rightarrow> 'x err + target" where
  "ParseTarget s = (let parts = split_n 3 (CHR ''.'') s in
     if length parts \<noteq> 3 then Inl (errorf (err_text (ErrInvalidTarget :: 'x err) @ '': got '' @ go_quote s) [ErrInvalidTarget])
     else Inr \<lparr>tg_Project = parts ! 0, tg_Dataset = parts ! 1, tg_Table = parts ! 2\<rparr>)"

definition ParseTargetPair :: "string \<Rightarrow> string \<Rightarrow> 'x err + target \<times> target" where
  "ParseTargetPair left right =
     (case ParseTarget left of
        Inl e \<Rightarrow> Inl (wrapf ''left: '' e)
      | Inr l \<Rightarrow> (case ParseTarget right of
          Inl e \<Rightarrow> Inl (wrapf ''right: '' e)
        | Inr r \<Rightarrow> Inr (l, r)))"

lemma str_cut_append [simp]: "sep \<notin> set b \<Longrightarrow> str_cut sep (b @ sep # a) = (b, a, True)"
  by (induction b) auto

lemma str_cut_foundD: "str_cut sep s = (b, a, True) \<Longrightarrow> s = b @ sep # a \<and> sep \<notin> set b"
  by (induction s arbitrary: b) (auto split: prod.splits if_splits)

lemma str_cut_not_found: "str_cut sep s = (b, a, False) \<Longrightarrow> sep \<notin> set s"
  by (induction s arbitrary: b a) (auto split: prod.splits if_splits)

lemma ParseTarget_Inr:
  "ParseTarget s = (Inr t :: 'x err + target) \<longleftrightarrow>
     s = target_String t \<and> CHR ''.'' \<notin> set (tg_Project t) \<and> CHR ''.'' \<notin> set (tg_Dataset t)"
proof
  assume "ParseTarget s = (Inr t :: 'x err + target)"
  then have len: "length (split_n 3 (CHR ''.'') s) = 3"
    and t: "t = \<lparr>tg_Project = split_n 3 (CHR ''.'') s ! 0, tg_Dataset = split_n 3 (CHR ''.'') s ! 1, tg_Table = split_n 3 (CHR ''.'') s ! 2\<rparr>"
    by (auto simp: ParseTarget_def Let_def split: if_splits)
  obtain b a f where c1: "str_cut (CHR ''.'') s = (b, a, f)" by (cases "str_cut (CHR ''.'') s")
  obtain b' a' f' where c2: "str_cut (CHR ''.'') a = (b', a', f')" by (cases "str_cut (CHR ''.'') a")
  have "f" "f'" and parts: "split_n 3 (CHR ''.'') s = [b, b', a']"
    using len c1 c2 by (auto simp: numeral_3_eq_3 split: if_splits)
  then show "s = target_String t \<and> CHR ''.'' \<notin> set (tg_Project t) \<and> CHR ''.'' \<notin> set (tg_Dataset t)"
    using str_cut_foundD [of "CHR ''.''" s b a] str_cut_foundD [of "CHR ''.''" a b' a'] c1 c2
    by (simp add: t target_String_def)
next
  assume s: "s = target_String t \<and> CHR ''.'' \<notin> set (tg_Project t) \<and> CHR ''.'' \<notin> set (tg_Dataset t)"
  then have "str_cut (CHR ''.'') s = (tg_Project t, tg_Dataset t @ ''.'' @ tg_Table t, True)"
    "str_cut (CHR ''.'') (tg_Dataset t @ ''.'' @ tg_Table t) = (tg_Dataset t, tg_Table t, True)"
    by (simp_all add: target_String_def)
  then show "ParseTarget s = (Inr t :: 'x err + target)" by (simp add: ParseTarget_def numeral_3_eq_3)
qed

text \<open>Parsing and printing targets are inverse: whatever \<open>ParseTarget\<close> accepts prints back as the same text,
  and a printed target parses back to itself exactly when neither its project nor its dataset has a
  dot (the table may).\<close>

theorem target_roundtrip:
  "(case ParseTarget s of Inr t \<Rightarrow> target_String t = s | Inl e \<Rightarrow> errors_Is (e :: 'x err) ''datadiff.ErrInvalidTarget'')
   \<and> (ParseTarget (target_String t) = (Inr t :: 'x err + target) \<longleftrightarrow> CHR ''.'' \<notin> set (tg_Project t) \<and> CHR ''.'' \<notin> set (tg_Dataset t))"
proof -
  have "errors_Is e ''datadiff.ErrInvalidTarget''" if "ParseTarget s = (Inl e :: 'x err + target)" for e
    using that by (auto simp: ParseTarget_def Let_def ErrInvalidTarget_def split: if_splits)
  then show ?thesis by (auto simp: ParseTarget_Inr split: sum.splits)
qed

subsection \<open>Columns\<close>

datatype column = Column (c_Name: string) (c_DataType: string) (c_Mode: string) (c_Position: int) (c_Children: "column list")

definition ModeRepeated :: string where "ModeRepeated = ''REPEATED''"

definition IsNested :: "column \<Rightarrow> bool" where
  "IsNested c \<longleftrightarrow> length (c_Children c) > 0"

definition IsRepeated :: "column \<Rightarrow> bool" where
  "IsRepeated c \<longleftrightarrow> c_Mode c = ModeRepeated"

definition column_path :: "string \<Rightarrow> string \<Rightarrow> string" where
  "column_path pre name = (if pre = '''' then name else pre @ ''.'' @ name)"

fun FlattenTo :: "string \<Rightarrow> column \<Rightarrow> column list \<Rightarrow> column list" where
  "FlattenTo pre (Column name dt mode pos children) acc =
     (let path = column_path pre name in
      if children = [] then acc @ [Column path dt mode pos []]
      else fold (\<lambda>child acc. FlattenTo path child acc) children acc)"

definition Flatten :: "string \<Rightarrow> column \<Rightarrow> column list" where
  "Flatten pre c = FlattenTo pre c []"

definition FlattenAll :: "column list \<Rightarrow> column list" where
  "FlattenAll cols = fold (\<lambda>c flat. FlattenTo '''' c flat) cols []"

text \<open>The reference: the leaves below a column with the list of names that leads to each.\<close>

fun leaves :: "column \<Rightarrow> (string list \<times> column) list" where
  "leaves (Column name dt mode pos children) =
     (if children = [] then [([name], Column name dt mode pos [])]
      else concat (map (\<lambda>ch. map (\<lambda>(path, leaf). (name # path, leaf)) (leaves ch)) children))"

fun named :: "column \<Rightarrow> bool" where
  "named (Column name dt mode pos children) = (name \<noteq> '''' \<and> list_all named children)"

definition at_path :: "string \<Rightarrow> string list \<times> column \<Rightarrow> column" where
  "at_path pre pl = Column (join_with ''.'' ((if pre = '''' then [] else [pre]) @ fst pl))
     (c_DataType (snd pl)) (c_Mode (snd pl)) (c_Position (snd pl)) []"

lemma leaves_not_Nil: "(path, leaf) \<in> set (leaves c) \<Longrightarrow> path \<noteq> []"
  by (cases c) (auto split: if_splits)

lemma at_path_Cons:
  assumes "name \<noteq> ''''" and "path \<noteq> []"
  shows "at_path (column_path pre name) (path, leaf) = at_path pre (name # path, leaf)"
  using assms by (cases path) (auto simp: at_path_def column_path_def)

lemma fold_append: "(\<And>x acc. x \<in> set xs \<Longrightarrow> f x acc = acc @ g x) \<Longrightarrow> fold f xs acc = acc @ concat (map g xs)"
  by (induction xs arbitrary: acc) auto

lemma FlattenTo_eq: "named c \<Longrightarrow> FlattenTo pre c acc = acc @ map (at_path pre) (leaves c)"
proof (induction pre c acc rule: FlattenTo.induct)
  case (1 pre name dt mode pos children acc)
  let ?path = "column_path pre name"
  show ?case
  proof (cases "children = []")
    case True
    then show ?thesis by (simp add: at_path_def column_path_def)
  next
    case False
    have step: "FlattenTo ?path ch acc' = acc' @ map (at_path ?path) (leaves ch)" if "ch \<in> set children" for ch acc'
      using "1.IH" [OF refl False that] "1.prems" that by (simp add: list_all_iff)
    have "map (at_path ?path) (leaves ch) = map (at_path pre \<circ> (\<lambda>(path, leaf). (name # path, leaf))) (leaves ch)" for ch
      using "1.prems" leaves_not_Nil [of _ _ ch] by (auto simp: at_path_Cons)
    then show ?thesis using False fold_append [of children "FlattenTo ?path", OF step]
      by (simp add: Let_def map_concat comp_def cong: map_cong)
  qed
qed

lemma FlattenAll_eq: "list_all named cols \<Longrightarrow> FlattenAll cols = map (at_path '''') (concat (map leaves cols))"
  unfolding FlattenAll_def
  by (subst fold_append [where g = "\<lambda>c. map (at_path '''') (leaves c)"]) (auto simp: FlattenTo_eq list_all_iff map_concat comp_def)

subsection \<open>Schemas\<close>

record type_diff =
  td_Name :: string
  td_LeftType :: string
  td_RightType :: string

record schema_result =
  sc_Match :: bool
  sc_LeftOnly :: "column list"
  sc_RightOnly :: "column list"
  sc_TypeDiffs :: "type_diff list"

definition indexColumns :: "column list \<Rightarrow> (string \<rightharpoonup> column)" where
  "indexColumns cols = fold (\<lambda>c m. m(c_Name c \<mapsto> c)) cols Map.empty"

fun left_columns :: "(string \<rightharpoonup> column) \<Rightarrow> column list \<Rightarrow> column list \<times> type_diff list \<Rightarrow> column list \<times> type_diff list" where
  "left_columns rightByName [] acc = acc"
| "left_columns rightByName (c # cs) (lo, tds) =
     left_columns rightByName cs
       (case rightByName (c_Name c) of
          None \<Rightarrow> (lo @ [c], tds)
        | Some rc \<Rightarrow> if c_DataType c \<noteq> c_DataType rc
            then (lo, tds @ [\<lparr>td_Name = c_Name c, td_LeftType = c_DataType c, td_RightType = c_DataType rc\<rparr>])
            else (lo, tds))"

fun right_columns :: "(string \<rightharpoonup> column) \<Rightarrow> column list \<Rightarrow> column list \<Rightarrow> column list" where
  "right_columns leftByName [] ro = ro"
| "right_columns leftByName (c # cs) ro = right_columns leftByName cs (if leftByName (c_Name c) = None then ro @ [c] else ro)"

definition DiffColumns :: "column list \<Rightarrow> column list \<Rightarrow> schema_result" where
  "DiffColumns left right =
     (let flatLeft = FlattenAll left; flatRight = FlattenAll right;
          leftByName = indexColumns flatLeft; rightByName = indexColumns flatRight
      in case left_columns rightByName flatLeft ([], []) of (lo, tds) \<Rightarrow>
         let ro = right_columns leftByName flatRight []
         in \<lparr>sc_Match = (length lo = 0 \<and> length ro = 0 \<and> length tds = 0), sc_LeftOnly = lo, sc_RightOnly = ro, sc_TypeDiffs = tds\<rparr>)"

text \<open>The type a list of columns gives a name: that of the last column with the name.\<close>

definition type_in :: "column list \<Rightarrow> string \<Rightarrow> string option" where
  "type_in cols n = map_of (rev (map (\<lambda>c. (c_Name c, c_DataType c)) cols)) n"

lemma indexColumns_eq: "map_option c_DataType (indexColumns cols n) = type_in cols n"
proof -
  have "map_option c_DataType (fold (\<lambda>c m. m(c_Name c \<mapsto> c)) cols m n) =
      (case type_in cols n of None \<Rightarrow> map_option c_DataType (m n) | t \<Rightarrow> t)" for m
    by (induction cols arbitrary: m) (auto simp: type_in_def map_add_def split: option.splits)
  then show ?thesis by (simp add: indexColumns_def split: option.splits)
qed

lemma indexColumns_None: "indexColumns cols n = None \<longleftrightarrow> n \<notin> c_Name ` set cols"
proof -
  have "indexColumns cols n = None \<longleftrightarrow> type_in cols n = None" by (simp add: indexColumns_eq [symmetric])
  then show ?thesis by (auto simp: type_in_def map_of_eq_None_iff image_image)
qed

lemma left_columns_eq:
  "left_columns m cs (lo, tds) =
     (lo @ filter (\<lambda>c. m (c_Name c) = None) cs,
      tds @ map (\<lambda>c. \<lparr>td_Name = c_Name c, td_LeftType = c_DataType c, td_RightType = c_DataType (the (m (c_Name c)))\<rparr>)
        (filter (\<lambda>c. m (c_Name c) \<noteq> None \<and> c_DataType (the (m (c_Name c))) \<noteq> c_DataType c) cs))"
  by (induction cs arbitrary: lo tds) (auto split: option.splits)

lemma right_columns_eq: "right_columns m cs ro = ro @ filter (\<lambda>c. m (c_Name c) = None) cs"
  by (induction cs arbitrary: ro) auto

text \<open>C21. The schema comparison is exact on flattened columns: the columns of one side only are listed in order,
  the type differences are those of the common names, and \<open>Match\<close> holds exactly when both sides have
  the same column paths and every left column has the type the right side gives its path. The
  flattened columns are the leaves with their dotted paths.\<close>

theorem schema_diff_exact:
  "sc_LeftOnly (DiffColumns left right) = filter (\<lambda>c. c_Name c \<notin> c_Name ` set (FlattenAll right)) (FlattenAll left)
   \<and> sc_RightOnly (DiffColumns left right) = filter (\<lambda>c. c_Name c \<notin> c_Name ` set (FlattenAll left)) (FlattenAll right)
   \<and> (sc_Match (DiffColumns left right) \<longleftrightarrow>
        c_Name ` set (FlattenAll left) = c_Name ` set (FlattenAll right)
        \<and> list_all (\<lambda>c. type_in (FlattenAll right) (c_Name c) = Some (c_DataType c)) (FlattenAll left))
   \<and> (if list_all named cols then FlattenAll cols = map (at_path '''') (concat (map leaves cols)) else True)"
proof -
  let ?L = "FlattenAll left" and ?R = "FlattenAll right"
  have eq: "DiffColumns left right =
     (let lo = filter (\<lambda>c. indexColumns ?R (c_Name c) = None) ?L; ro = filter (\<lambda>c. indexColumns ?L (c_Name c) = None) ?R;
        tds = map (\<lambda>c. \<lparr>td_Name = c_Name c, td_LeftType = c_DataType c, td_RightType = c_DataType (the (indexColumns ?R (c_Name c)))\<rparr>)
        (filter (\<lambda>c. indexColumns ?R (c_Name c) \<noteq> None \<and> c_DataType (the (indexColumns ?R (c_Name c))) \<noteq> c_DataType c) ?L)
      in \<lparr>sc_Match = (lo = [] \<and> ro = [] \<and> tds = []), sc_LeftOnly = lo, sc_RightOnly = ro, sc_TypeDiffs = tds\<rparr>)"
    by (simp add: DiffColumns_def Let_def left_columns_eq right_columns_eq)
  have ty: "type_in ?R n = (case indexColumns ?R n of None \<Rightarrow> None | Some c \<Rightarrow> Some (c_DataType c))" for n
    by (simp add: indexColumns_eq [symmetric] split: option.splits)
  have mem: "indexColumns ?R (c_Name c) \<noteq> None" if "c_Name ` set ?L = c_Name ` set ?R" "c \<in> set ?L" for c
    using that by (auto simp: indexColumns_None)
  have "sc_Match (DiffColumns left right) \<longleftrightarrow>
        c_Name ` set ?L = c_Name ` set ?R \<and> list_all (\<lambda>c. type_in ?R (c_Name c) = Some (c_DataType c)) ?L"
  proof -
    have "sc_Match (DiffColumns left right) \<longleftrightarrow> c_Name ` set ?L \<subseteq> c_Name ` set ?R \<and> c_Name ` set ?R \<subseteq> c_Name ` set ?L
        \<and> (\<forall>c \<in> set ?L. indexColumns ?R (c_Name c) = None \<or> c_DataType (the (indexColumns ?R (c_Name c))) = c_DataType c)"
      unfolding eq Let_def schema_result.select_convs filter_empty_conv indexColumns_None map_is_Nil_conv by blast
    moreover have "type_in ?R (c_Name c) = Some (c_DataType c) \<longleftrightarrow>
        indexColumns ?R (c_Name c) = None \<or> c_DataType (the (indexColumns ?R (c_Name c))) = c_DataType c"
      if "c_Name ` set ?L = c_Name ` set ?R" "c \<in> set ?L" for c
      using mem [OF that] by (auto simp: ty)
    ultimately show ?thesis unfolding list_all_iff by blast
  qed
  then show ?thesis by (simp add: eq Let_def FlattenAll_eq indexColumns_None)
qed

text \<open>The schema comparison is blind to modes and to nesting: an array of records matches a single record
  of the same fields, and a record column matches a flat column whose name has a dot.\<close>

theorem schema_diff_blind_to_nesting:
  "sc_Match (DiffColumns [Column ''a'' ''RECORD'' ''REPEATED'' 0 [Column ''b'' ''STRING'' ''NULLABLE'' 0 []]]
                         [Column ''a'' ''RECORD'' ''NULLABLE'' 0 [Column ''b'' ''STRING'' ''REQUIRED'' 0 []]])
   \<and> sc_Match (DiffColumns [Column ''a'' ''RECORD'' ''NULLABLE'' 0 [Column ''b'' ''STRING'' ''NULLABLE'' 0 []]]
                          [Column ''a.b'' ''STRING'' ''REPEATED'' 0 []])"
  by (simp add: DiffColumns_def FlattenAll_def column_path_def indexColumns_def Let_def)

subsection \<open>Statistics\<close>

record column_stat =
  cs_Column :: string
  cs_Sum :: float64
  cs_Avg :: float64
  cs_Min :: float64
  cs_Max :: float64
  cs_CountDistinct :: int
  cs_NullCount :: int

record stat_diff =
  sd_Column :: string
  sd_Field :: string
  sd_Left :: float64
  sd_Right :: float64
  sd_Delta :: float64

record stats_result =
  st_Match :: bool
  st_Left :: "column_stat list"
  st_Right :: "column_stat list"
  st_Diffs :: "stat_diff list"

definition diffFloat :: "string \<Rightarrow> string \<Rightarrow> float64 \<Rightarrow> float64 \<Rightarrow> float64 \<Rightarrow> stat_diff list" where
  "diffFloat col field l r tolerance =
     (if feq l r then []
      else let base = fmax (fabs l) (fabs r) in
        if fless (Fin 0) base \<and> fless (Fin 0) tolerance \<and> fle (fdiv (fabs (fsub l r)) base) tolerance then []
        else [\<lparr>sd_Column = col, sd_Field = field, sd_Left = l, sd_Right = r, sd_Delta = fsub r l\<rparr>])"

definition diffInt :: "string \<Rightarrow> string \<Rightarrow> int \<Rightarrow> int \<Rightarrow> stat_diff list" where
  "diffInt col field l r =
     (if l = r then []
      else [\<lparr>sd_Column = col, sd_Field = field, sd_Left = float_of_int l, sd_Right = float_of_int r, sd_Delta = float_of_int (wrap64 (r - l))\<rparr>])"

definition stats_by_column :: "column_stat list \<Rightarrow> (string \<rightharpoonup> column_stat)" where
  "stats_by_column stats = fold (\<lambda>s m. m(cs_Column s \<mapsto> s)) stats Map.empty"

definition diff_column :: "column_stat \<Rightarrow> column_stat \<Rightarrow> float64 \<Rightarrow> stat_diff list" where
  "diff_column ls rs tolerance =
     diffFloat (cs_Column ls) ''Sum'' (cs_Sum ls) (cs_Sum rs) tolerance
     @ diffFloat (cs_Column ls) ''Avg'' (cs_Avg ls) (cs_Avg rs) tolerance
     @ diffFloat (cs_Column ls) ''Min'' (cs_Min ls) (cs_Min rs) tolerance
     @ diffFloat (cs_Column ls) ''Max'' (cs_Max ls) (cs_Max rs) tolerance
     @ diffInt (cs_Column ls) ''CountDistinct'' (cs_CountDistinct ls) (cs_CountDistinct rs)
     @ diffInt (cs_Column ls) ''NullCount'' (cs_NullCount ls) (cs_NullCount rs)"

fun stats_loop :: "(string \<rightharpoonup> column_stat) \<Rightarrow> float64 \<Rightarrow> column_stat list \<Rightarrow> stat_diff list \<Rightarrow> stat_diff list" where
  "stats_loop rightByCol tolerance [] found = found"
| "stats_loop rightByCol tolerance (ls # rest) found =
     stats_loop rightByCol tolerance rest
       (case rightByCol (cs_Column ls) of None \<Rightarrow> found | Some rs \<Rightarrow> found @ diff_column ls rs tolerance)"

definition DiffStats :: "column_stat list \<Rightarrow> column_stat list \<Rightarrow> float64 \<Rightarrow> stats_result" where
  "DiffStats left right tolerance =
     (let found = stats_loop (stats_by_column right) tolerance left []
      in \<lparr>st_Match = (length found = 0), st_Left = left, st_Right = right, st_Diffs = found\<rparr>)"

definition withinTolerance :: "float64 \<Rightarrow> stat_diff \<Rightarrow> bool" where
  "withinTolerance tolerance d =
     (if \<not> is_finite (sd_Left d) \<or> \<not> is_finite (sd_Right d) \<or> \<not> is_finite (sd_Delta d) then False
      else let base = fmax (fabs (sd_Left d)) (fabs (sd_Right d)) in
        if feq base (Fin 0) then False else fle (fdiv (fabs (sd_Delta d)) base) tolerance)"

text \<open>The loop of \<open>applyStatsTolerance\<close> keeps what is not noise by moving it forward in the same slice: \<open>i\<close> is the
  index of the range, \<open>n\<close> the number kept.\<close>

function keep_loop :: "('a \<Rightarrow> bool) \<Rightarrow> 'a list \<Rightarrow> nat \<Rightarrow> nat \<Rightarrow> 'a list \<times> nat" where
  "keep_loop keep xs i n =
     (if i < length xs then
        (if keep (xs ! i) then keep_loop keep (xs[n := xs ! i]) (i + 1) (n + 1) else keep_loop keep xs (i + 1) n)
      else (xs, n))"
  by pat_completeness auto
termination by (relation "measure (\<lambda>(keep, xs, i, n). length xs - i)") auto

declare keep_loop.simps [simp del]

definition applyStatsTolerance :: "stats_result \<Rightarrow> float64 \<Rightarrow> stats_result" where
  "applyStatsTolerance s tolerance =
     (if feq tolerance (Fin 0) \<or> length (st_Diffs s) = 0 then s
      else (case keep_loop (\<lambda>d. \<not> withinTolerance tolerance d) (st_Diffs s) 0 0 of
         (ds, n) \<Rightarrow> s\<lparr>st_Diffs := take n ds, st_Match := (n = 0)\<rparr>))"

lemma keep_loop_filter:
  "n \<le> i \<Longrightarrow> i \<le> length xs \<Longrightarrow>
   (case keep_loop keep xs i n of (ys, m) \<Rightarrow> take m ys = take n xs @ filter keep (drop i xs) \<and> m = n + length (filter keep (drop i xs)))"
proof (induction keep xs i n rule: keep_loop.induct)
  case (1 keep xs i n)
  show ?case
  proof (cases "i < length xs")
    case True
    have dr: "drop i xs = xs ! i # drop (i + 1) xs" using True by (simp add: Cons_nth_drop_Suc)
    show ?thesis
    proof (cases "keep (xs ! i)")
      case keep: True
      have "drop (i + 1) (xs[n := xs ! i]) = drop (i + 1) xs" using 1 by simp
      moreover have "take (n + 1) (xs[n := xs ! i]) = take n xs @ [xs ! i]"
        using 1 True by (simp add: take_Suc_conv_app_nth)
      ultimately show ?thesis
        using "1.IH"(1) [OF True keep] "1.prems" True keep by (simp add: keep_loop.simps [of _ xs] dr)
    next
      case False
      then show ?thesis using "1.IH"(2) [OF True False] "1.prems" True by (simp add: keep_loop.simps [of _ xs] dr)
    qed
  next
    case False
    then show ?thesis using "1.prems" by (simp add: keep_loop.simps [of _ xs])
  qed
qed

lemma applyStatsTolerance_eq:
  "applyStatsTolerance s tolerance =
     (if feq tolerance (Fin 0) \<or> st_Diffs s = [] then s
      else let ds = filter (\<lambda>d. \<not> withinTolerance tolerance d) (st_Diffs s) in s\<lparr>st_Diffs := ds, st_Match := (ds = [])\<rparr>)"
  using keep_loop_filter [of 0 0 "st_Diffs s" "\<lambda>d. \<not> withinTolerance tolerance d"]
  by (auto simp: applyStatsTolerance_def Let_def split: prod.splits)

lemma stats_loop_eq:
  "stats_loop m tol left found =
     found @ concat (map (\<lambda>ls. case m (cs_Column ls) of None \<Rightarrow> [] | Some rs \<Rightarrow> diff_column ls rs tol) left)"
  by (induction left arbitrary: found) (auto split: option.splits)

lemma diffFloat_nonfinite:
  assumes "\<not> feq l r" and "\<not> (is_finite l \<and> is_finite r)"
  shows "diffFloat col field l r tol = [\<lparr>sd_Column = col, sd_Field = field, sd_Left = l, sd_Right = r, sd_Delta = fsub r l\<rparr>]"
  using relative_difference_NaN [of l r] assms by (auto simp: diffFloat_def Let_def)

definition float_fields :: "column_stat \<Rightarrow> column_stat \<Rightarrow> (string \<times> float64 \<times> float64) list" where
  "float_fields ls rs = [(''Sum'', cs_Sum ls, cs_Sum rs), (''Avg'', cs_Avg ls, cs_Avg rs), (''Min'', cs_Min ls, cs_Min rs), (''Max'', cs_Max ls, cs_Max rs)]"

lemma diff_column_float:
  "(field, l, r) \<in> set (float_fields ls rs) \<Longrightarrow> d \<in> set (diffFloat (cs_Column ls) field l r tol) \<Longrightarrow> d \<in> set (diff_column ls rs tol)"
  by (auto simp: float_fields_def diff_column_def)

text \<open>A statistic that is not a finite number never passes as noise: if an aggregate of a column both sides
  have differs and one side of it is a NaN or infinite, the comparison reports it for every
  tolerance, no tolerance applied afterwards removes the report, and the statistics do not match.\<close>

theorem nonfinite_statistic_reported:
  assumes "ls \<in> set left" and "stats_by_column right (cs_Column ls) = Some rs"
    and "(field, l, r) \<in> set (float_fields ls rs)" and "\<not> feq l r" and "\<not> (is_finite l \<and> is_finite r)"
  shows "\<not> st_Match (applyStatsTolerance (DiffStats left right tol) tol')
    \<and> \<lparr>sd_Column = cs_Column ls, sd_Field = field, sd_Left = l, sd_Right = r, sd_Delta = fsub r l\<rparr>
        \<in> set (st_Diffs (applyStatsTolerance (DiffStats left right tol) tol'))"
proof -
  let ?d = "\<lparr>sd_Column = cs_Column ls, sd_Field = field, sd_Left = l, sd_Right = r, sd_Delta = fsub r l\<rparr>"
  have "?d \<in> set (diff_column ls rs tol)"
    using diff_column_float [OF assms(3)] diffFloat_nonfinite [OF assms(4,5)] by auto
  then have d: "?d \<in> set (st_Diffs (DiffStats left right tol))"
    using assms(1,2) by (auto simp: DiffStats_def stats_loop_eq intro!: bexI [of _ ls])
  then have "st_Diffs (DiffStats left right tol) \<noteq> []" by auto
  then have "\<not> st_Match (DiffStats left right tol)" by (simp add: DiffStats_def Let_def)
  moreover have "\<not> withinTolerance tol' ?d" using assms(5) by (auto simp: withinTolerance_def)
  ultimately show ?thesis using d by (auto simp: applyStatsTolerance_eq Let_def filter_empty_conv)
qed

theorem nonfinite_statistic_reported_witness:
  "\<not> st_Match (applyStatsTolerance (DiffStats
      [\<lparr>cs_Column = ''x'', cs_Sum = NaN, cs_Avg = Fin 1, cs_Min = Fin 1, cs_Max = Fin 1, cs_CountDistinct = 1, cs_NullCount = 0\<rparr>]
      [\<lparr>cs_Column = ''x'', cs_Sum = NaN, cs_Avg = Fin 1, cs_Min = Fin 1, cs_Max = Fin 1, cs_CountDistinct = 1, cs_NullCount = 0\<rparr>]
      (Fin 1)) PosInf)"
proof -
  let ?s = "\<lparr>cs_Column = ''x'', cs_Sum = NaN, cs_Avg = Fin 1, cs_Min = Fin 1, cs_Max = Fin 1, cs_CountDistinct = 1, cs_NullCount = 0\<rparr>"
  have "stats_by_column [?s] (cs_Column ?s) = Some ?s" by (simp add: stats_by_column_def)
  then show ?thesis
    using nonfinite_statistic_reported [of ?s "[?s]" "[?s]" ?s "''Sum''" NaN NaN "Fin 1" PosInf] by (simp add: float_fields_def)
qed

subsection \<open>The layered comparison\<close>

record volume_result =
  vr_Match :: bool
  vr_LeftCount :: int
  vr_RightCount :: int

definition volume_String :: "volume_result \<Rightarrow> string" where
  "volume_String v =
     (if vr_Match v then ''MATCH ('' @ show_int (vr_LeftCount v) @ '' rows)''
      else ''MISMATCH (left='' @ show_int (vr_LeftCount v) @ '', right='' @ show_int (vr_RightCount v)
        @ '', delta='' @ show_int (wrap64 (vr_RightCount v - vr_LeftCount v)) @ '')'')"

text \<open>The values of a row difference have any type.\<close>

record 'v row_diff =
  rd_Key :: string
  rd_Side :: string
  rd_Fields :: "string \<rightharpoonup> 'v \<times> 'v"

record 'v content_result =
  cr_Match :: bool
  cr_LeftOnly :: int
  cr_RightOnly :: int
  cr_Differed :: int
  cr_Matched :: int
  cr_Diffs :: "'v row_diff list"

definition no_content :: "'v content_result" where
  "no_content = \<lparr>cr_Match = False, cr_LeftOnly = 0, cr_RightOnly = 0, cr_Differed = 0, cr_Matched = 0, cr_Diffs = []\<rparr>"

record comparison_spec =
  sp_LeftName :: string
  sp_RightName :: string
  sp_Key :: string
  sp_Filter :: string

record 'v diff_result =
  dr_Spec :: comparison_spec
  dr_Schema :: schema_result
  dr_Volume :: volume_result
  dr_Content :: "'v content_result"
  dr_Stats :: stats_result

definition result_Pass :: "'v diff_result \<Rightarrow> bool" where
  "result_Pass r \<longleftrightarrow> sc_Match (dr_Schema r) \<and> vr_Match (dr_Volume r) \<and> cr_Match (dr_Content r)"

text \<open>The port.\<close>

record ('v, 'x, 'w) comparator =
  cmp_Left :: string
  cmp_Right :: string
  CompareSchema :: "'w \<Rightarrow> (schema_result \<times> 'x err option) \<times> 'w"
  CompareVolume :: "string \<Rightarrow> 'w \<Rightarrow> (volume_result \<times> 'x err option) \<times> 'w"
  CompareContent :: "string \<Rightarrow> string \<Rightarrow> int \<Rightarrow> 'w \<Rightarrow> ('v content_result \<times> 'x err option) \<times> 'w"
  CompareStats :: "string \<Rightarrow> 'w \<Rightarrow> (stats_result \<times> 'x err option) \<times> 'w"

record diff_options =
  do_maxDiffs :: int
  do_statsTolerance :: float64

definition WithMaxDiffs :: "int \<Rightarrow> diff_options \<Rightarrow> diff_options" where
  "WithMaxDiffs n o' = o'\<lparr>do_maxDiffs := n\<rparr>"

definition WithStatsTolerance :: "float64 \<Rightarrow> diff_options \<Rightarrow> diff_options" where
  "WithStatsTolerance t o' = o'\<lparr>do_statsTolerance := t\<rparr>"

definition first_error :: "'x err option \<Rightarrow> string \<Rightarrow> 'x err option \<Rightarrow> 'x err option" where
  "first_error firstErr layer e = (case (firstErr, e) of (None, Some e) \<Rightarrow> Some (wrapf layer e) | _ \<Rightarrow> firstErr)"

definition compare_options :: "(diff_options \<Rightarrow> diff_options) list \<Rightarrow> diff_options" where
  "compare_options opts = fold (\<lambda>opt o'. opt o') opts \<lparr>do_maxDiffs = 100, do_statsTolerance = round64 (1 / 10 ^ 9)\<rparr>"

definition reconciler_Compare :: "('v, 'x, 'w) comparator \<Rightarrow> string \<Rightarrow> string \<Rightarrow> (diff_options \<Rightarrow> diff_options) list \<Rightarrow> 'w
    \<Rightarrow> ('v diff_result \<times> 'x err option) \<times> 'w" where
  "reconciler_Compare cmp key flter opts w =
     (let o' = compare_options opts in
      case CompareSchema cmp w of ((schema, e1), w1) \<Rightarrow>
      let err1 = first_error None ''schema: '' e1 in
      case CompareVolume cmp flter w1 of ((volume, e2), w2) \<Rightarrow>
      let err2 = first_error err1 ''volume: '' e2 in
      case (if sc_Match schema
            then (case CompareContent cmp key flter (do_maxDiffs o') w2 of ((content, e3), w3) \<Rightarrow> ((content, first_error err2 ''content: '' e3), w3))
            else ((no_content, err2), w2)) of ((content, err3), w3) \<Rightarrow>
      case CompareStats cmp flter w3 of ((stats, e4), w4) \<Rightarrow>
      ((\<lparr>dr_Spec = \<lparr>sp_LeftName = cmp_Left cmp, sp_RightName = cmp_Right cmp, sp_Key = key, sp_Filter = flter\<rparr>,
         dr_Schema = schema, dr_Volume = volume, dr_Content = content,
         dr_Stats = applyStatsTolerance stats (do_statsTolerance o')\<rparr>, first_error err3 ''stats: '' e4), w4))"

text \<open>A comparison without an error is one in which every layer that ran returned none, and it passes only
  if the schema, the volume and the content were all compared and all matched; when the schema
  does not match, the content is not compared and the comparison does not pass.\<close>

lemma compare_passes_only_on_evidence:
  assumes "reconciler_Compare cmp key flter opts w = ((r, None), w')"
  shows "\<exists>w1 w2 w3 s. CompareSchema cmp w = ((dr_Schema r, None), w1)
     \<and> CompareVolume cmp flter w1 = ((dr_Volume r, None), w2)
     \<and> (if sc_Match (dr_Schema r) then CompareContent cmp key flter (do_maxDiffs (compare_options opts)) w2 = ((dr_Content r, None), w3)
        else w3 = w2 \<and> \<not> result_Pass r)
     \<and> CompareStats cmp flter w3 = ((s, None), w') \<and> dr_Stats r = applyStatsTolerance s (do_statsTolerance (compare_options opts))"
proof -
  obtain sc e1 w1 where 1: "CompareSchema cmp w = ((sc, e1), w1)" by (cases "CompareSchema cmp w") auto
  obtain v e2 w2 where 2: "CompareVolume cmp flter w1 = ((v, e2), w2)" by (cases "CompareVolume cmp flter w1") auto
  show ?thesis
  proof (cases "sc_Match sc")
    case True
    obtain c e3 w3 where 3: "CompareContent cmp key flter (do_maxDiffs (compare_options opts)) w2 = ((c, e3), w3)"
      by (cases "CompareContent cmp key flter (do_maxDiffs (compare_options opts)) w2") auto
    obtain s e4 w4 where 4: "CompareStats cmp flter w3 = ((s, e4), w4)" by (cases "CompareStats cmp flter w3") auto
    show ?thesis using assms True
      by (simp add: reconciler_Compare_def Let_def 1 2 3 4 first_error_def split: option.splits) (auto simp: 3 4)
  next
    case False
    obtain s e4 w4 where 4: "CompareStats cmp flter w2 = ((s, e4), w4)" by (cases "CompareStats cmp flter w2") auto
    show ?thesis using assms False
      by (simp add: reconciler_Compare_def Let_def 1 2 4 first_error_def split: option.splits) (auto simp: 4 result_Pass_def)
  qed
qed

end
