(* ===== verification/Privacy_Filter.thy ===== *)
theory Privacy_Filter
  imports Prelude
begin

section \<open>discovery/privacyfilter: the gate in front of the index\<close>

text \<open>
  \<open>src/go/discovery/privacyfilter/filter.go\<close> over the documents of \<open>src/go/discovery/search/types.go\<close>.
  \<open>strings.ToLower\<close>, with its Unicode tables, is the parameter \<open>to_lower\<close>; the theorem relies on its being
  applied character by character, stated for the newline.
\<close>

record document =
  doc_ID :: string
  doc_Kind :: string
  doc_Source :: string
  doc_Path :: string
  doc_Language :: string
  doc_Title :: string
  doc_Content :: string
  doc_Metadata :: "string \<rightharpoonup> string"
  doc_UpdatedAt :: int

record privacy_filter =
  pf_skipPatternsLower :: "string list"
  pf_redactPatterns :: "string list"
  pf_redactPatternsLower :: "string list"

definition filter_New :: "(string \<Rightarrow> string) \<Rightarrow> privacy_filter" where
  "filter_New to_lower =
     (let skips = [''.env'', ''credentials'', ''secret'', ''token'', ''password'', ''private_key'', ''id_rsa'', ''.pem'', ''.key'', ''.kratos/''];
          redacts = [''GITHUB_TOKEN'', ''API_KEY'', ''SECRET_KEY'', ''PRIVATE_KEY'', ''Bearer '', ''password='', ''token='']
      in \<lparr>pf_skipPatternsLower = map to_lower skips, pf_redactPatterns = redacts, pf_redactPatternsLower = map to_lower redacts\<rparr>)"

text \<open>\<open>filepath.Base\<close>.\<close>

definition path_Base :: "string \<Rightarrow> string" where
  "path_Base p =
     (if p = '''' then ''.''
      else let q = rev (dropWhile (\<lambda>c. c = CHR ''/'') (rev p))
        in if q = '''' then ''/'' else rev (takeWhile (\<lambda>c. c \<noteq> CHR ''/'') (rev q)))"

definition shouldSkip :: "(string \<Rightarrow> string) \<Rightarrow> privacy_filter \<Rightarrow> document \<Rightarrow> bool" where
  "shouldSkip to_lower f doc =
     list_ex (\<lambda>p. str_contains (to_lower (doc_Path doc)) p \<or> str_contains (to_lower (path_Base (doc_Path doc))) p) (pf_skipPatternsLower f)"

text \<open>The marker of a redacted line (the dash is three bytes of UTF-8).\<close>

definition redaction_marker :: "string \<Rightarrow> string" where
  "redaction_marker pattern = ''[REDACTED '' @ [CHR 0xE2, CHR 0x80, CHR 0x94] @ '' contains '' @ pattern @ '']''"

text \<open>The inner loop over the patterns, which stops at the first that matches.\<close>

fun redact_line :: "(string \<Rightarrow> string) \<Rightarrow> (string \<times> string) list \<Rightarrow> string \<Rightarrow> string" where
  "redact_line to_lower [] line = line"
| "redact_line to_lower ((pattern, patternLower) # ps) line =
     (if str_contains (to_lower line) patternLower then redaction_marker pattern else redact_line to_lower ps line)"

definition redact :: "(string \<Rightarrow> string) \<Rightarrow> privacy_filter \<Rightarrow> string \<Rightarrow> string" where
  "redact to_lower f content =
     (if content = '''' then content
      else if \<not> list_ex (str_contains (to_lower content)) (pf_redactPatternsLower f) then content
      else join_with [CHR 0x0A]
        (map (redact_line to_lower (zip (pf_redactPatterns f) (pf_redactPatternsLower f))) (split_on (CHR 0x0A) content)))"

definition clean_document :: "(string \<Rightarrow> string) \<Rightarrow> privacy_filter \<Rightarrow> document \<Rightarrow> document" where
  "clean_document to_lower f doc =
     doc\<lparr>doc_Title := redact to_lower f (doc_Title doc), doc_Content := redact to_lower f (doc_Content doc),
         doc_Metadata := (\<lambda>k. map_option (redact to_lower f) (doc_Metadata doc k))\<rparr>"

fun filter_Apply :: "(string \<Rightarrow> string) \<Rightarrow> privacy_filter \<Rightarrow> document list \<Rightarrow> document list \<Rightarrow> nat \<Rightarrow> document list \<times> nat" where
  "filter_Apply to_lower f [] clean skipped = (clean, skipped)"
| "filter_Apply to_lower f (d # ds) clean skipped =
     (if shouldSkip to_lower f d then filter_Apply to_lower f ds clean (skipped + 1)
      else filter_Apply to_lower f ds (clean @ [clean_document to_lower f d]) skipped)"

subsection \<open>What reaches the index\<close>

definition lower_by_lines :: "(string \<Rightarrow> string) \<Rightarrow> bool" where
  "lower_by_lines to_lower \<longleftrightarrow> (\<forall>a b. to_lower (a @ CHR 0x0A # b) = to_lower a @ CHR 0x0A # to_lower b)
     \<and> (\<forall>s. to_lower s = '''' \<longleftrightarrow> s = '''')"

definition sensitive :: "(string \<Rightarrow> string) \<Rightarrow> string \<Rightarrow> bool" where
  "sensitive to_lower line \<longleftrightarrow> list_ex (str_contains (to_lower line)) (pf_redactPatternsLower (filter_New to_lower))"

definition is_marker :: "string \<Rightarrow> bool" where
  "is_marker line \<longleftrightarrow> line \<in> redaction_marker ` set (pf_redactPatterns (filter_New id))"

text \<open>A text is clean when each of its lines is a marker or holds no pattern.\<close>

definition clean_text :: "(string \<Rightarrow> string) \<Rightarrow> string \<Rightarrow> bool" where
  "clean_text to_lower t \<longleftrightarrow> list_all (\<lambda>line. is_marker line \<or> \<not> sensitive to_lower line) (split_on (CHR 0x0A) t)"

lemma str_contains_append: "str_contains b p \<Longrightarrow> str_contains (a @ b @ c) p"
  by (auto simp: str_contains_def sublist_def) (metis append.assoc)

lemma redact_line_cases:
  "redact_line to_lower ps line \<in> redaction_marker ` fst ` set ps
   \<or> redact_line to_lower ps line = line \<and> \<not> list_ex (str_contains (to_lower line)) (map snd ps)"
  by (induction to_lower ps line rule: redact_line.induct) auto

lemma to_lower_line:
  assumes "lower_by_lines to_lower" and "line \<in> set (split_on (CHR 0x0A) t)"
  shows "\<exists>a c. to_lower t = a @ to_lower line @ c"
proof -
  have dist: "ws \<noteq> [] \<Longrightarrow> to_lower (join_with [CHR 0x0A] ws) = join_with [CHR 0x0A] (map to_lower ws)" for ws
    using assms(1) by (induction "[CHR 0x0A]" ws rule: join_with.induct) (auto simp: lower_by_lines_def)
  have part: "w \<in> set ws \<Longrightarrow> \<exists>a c. join_with [CHR 0x0A] (map to_lower ws) = a @ to_lower w @ c" for w ws
  proof (induction "[CHR 0x0A]" ws rule: join_with.induct)
    case (3 v u us)
    show ?case
    proof (cases "w = v")
      case True
      then have "join_with [CHR 0x0A] (map to_lower (v # u # us)) = [] @ to_lower w @ (CHR 0x0A # join_with [CHR 0x0A] (map to_lower (u # us)))"
        by simp
      then show ?thesis by blast
    next
      case False
      then obtain a c where "join_with [CHR 0x0A] (map to_lower (u # us)) = a @ to_lower w @ c" using 3 by auto
      then have "join_with [CHR 0x0A] (map to_lower (v # u # us)) = (to_lower v @ CHR 0x0A # a) @ to_lower w @ c" by simp
      then show ?thesis by blast
    qed
  next
    case (2 v)
    then have "join_with [CHR 0x0A] (map to_lower [v]) = [] @ to_lower w @ []" by simp
    then show ?case by blast
  qed simp
  show ?thesis using part [OF assms(2)] dist [of "split_on (CHR 0x0A) t"] by (simp add: join_with_split_on)
qed

lemma marker_one_line:
  assumes "is_marker m" shows "CHR 0x0A \<notin> set m"
  using assms by (auto simp: is_marker_def filter_New_def Let_def redaction_marker_def)

lemma zip_patterns:
  "fst ` set (zip (pf_redactPatterns (filter_New to_lower)) (pf_redactPatternsLower (filter_New to_lower)))
     \<subseteq> set (pf_redactPatterns (filter_New id))"
  "map snd (zip (pf_redactPatterns (filter_New to_lower)) (pf_redactPatternsLower (filter_New to_lower)))
     = pf_redactPatternsLower (filter_New to_lower)"
  by (auto simp: filter_New_def Let_def)

lemma redact_clean:
  assumes "lower_by_lines to_lower"
  shows "clean_text to_lower (redact to_lower (filter_New to_lower) t)"
proof -
  let ?f = "filter_New to_lower"
  let ?ps = "zip (pf_redactPatterns ?f) (pf_redactPatternsLower ?f)"
  have line: "is_marker (redact_line to_lower ?ps l) \<or> redact_line to_lower ?ps l = l \<and> \<not> sensitive to_lower l" for l
    using redact_line_cases [of to_lower ?ps l] zip_patterns [of to_lower] by (auto simp: sensitive_def is_marker_def)
  show ?thesis
  proof (cases "list_ex (str_contains (to_lower t)) (pf_redactPatternsLower ?f)")
    case False
    have "\<not> sensitive to_lower l" if l: "l \<in> set (split_on (CHR 0x0A) t)" for l
    proof
      assume "sensitive to_lower l"
      then obtain p where p: "p \<in> set (pf_redactPatternsLower ?f)" "str_contains (to_lower l) p"
        by (auto simp: sensitive_def list_ex_iff)
      obtain a c where "to_lower t = a @ to_lower l @ c" using to_lower_line [OF assms l] by blast
      with p show False using False str_contains_append [of "to_lower l" p a c] by (auto simp: list_ex_iff)
    qed
    then have "clean_text to_lower t" by (auto simp: clean_text_def list_all_iff)
    then show ?thesis using False by (cases "t = ''''") (simp_all add: redact_def)
  next
    case True
    let ?ls = "split_on (CHR 0x0A) t"
    have no_nl: "CHR 0x0A \<notin> set (redact_line to_lower ?ps l)" if "l \<in> set ?ls" for l
      using line [of l] marker_one_line split_on_no_sep_in [OF that] by auto
    then have split: "split_on (CHR 0x0A) (join_with [CHR 0x0A] (map (redact_line to_lower ?ps) ?ls)) = map (redact_line to_lower ?ps) ?ls"
      by (intro split_on_join_with) auto
    have "t \<noteq> ''''"
    proof
      assume "t = ''''"
      then have "to_lower t = ''''" using assms by (simp add: lower_by_lines_def)
      then have "list_ex (\<lambda>p. p = '''') (pf_redactPatternsLower ?f)"
        using True unfolding list_ex_iff str_contains_def by simp
      moreover have "to_lower x \<noteq> ''''" if "x \<noteq> ''''" for x using assms that by (simp add: lower_by_lines_def)
      ultimately show False by (simp add: filter_New_def Let_def)
    qed
    then have "redact to_lower ?f t = join_with [CHR 0x0A] (map (redact_line to_lower ?ps) ?ls)"
      using True by (simp only: redact_def if_False not_True_eq_False)
    moreover have "is_marker (redact_line to_lower ?ps l) \<or> \<not> sensitive to_lower (redact_line to_lower ?ps l)" for l
      using line [of l] by metis
    ultimately show ?thesis unfolding clean_text_def by (simp only: split list_all_iff set_map) blast
  qed
qed

lemma filter_Apply_eq:
  "filter_Apply to_lower f ds clean n =
     (clean @ map (clean_document to_lower f) (filter (\<lambda>d. \<not> shouldSkip to_lower f d) ds), n + length (filter (shouldSkip to_lower f) ds))"
  by (induction ds arbitrary: clean n) auto

text \<open>C10. What reaches the index is clean: the documents returned are the ones no skip pattern matches, in order,
  and all others are counted as skipped; in the title, the content and every metadata value of a
  returned document each line either is a redaction marker or holds none of the patterns in any
  letter case.\<close>

theorem index_only_sees_clean_text:
  assumes "lower_by_lines to_lower" and "filter_Apply to_lower (filter_New to_lower) docs [] 0 = (clean, skipped)"
  shows "skipped + length clean = length docs
    \<and> map doc_ID clean = map doc_ID (filter (\<lambda>d. \<not> shouldSkip to_lower (filter_New to_lower) d) docs)
    \<and> list_all (\<lambda>d. \<not> shouldSkip to_lower (filter_New to_lower) d \<and> clean_text to_lower (doc_Title d) \<and> clean_text to_lower (doc_Content d)
         \<and> ran (doc_Metadata d) \<subseteq> Collect (clean_text to_lower)) clean"
proof -
  have c: "clean = map (clean_document to_lower (filter_New to_lower)) (filter (\<lambda>d. \<not> shouldSkip to_lower (filter_New to_lower) d) docs)"
    and n: "skipped = length (filter (shouldSkip to_lower (filter_New to_lower)) docs)"
    using assms(2) by (auto simp: filter_Apply_eq)
  have "clean_text to_lower v" if "v \<in> ran (doc_Metadata (clean_document to_lower (filter_New to_lower) d))" for v d
    using that redact_clean [OF assms(1)] by (auto simp: clean_document_def ran_def)
  then show ?thesis
    using redact_clean [OF assms(1)] length_filter_partition [of "shouldSkip to_lower (filter_New to_lower)" docs]
    by (auto simp: c n list_all_iff clean_document_def shouldSkip_def comp_def)
qed

text \<open>The lower-casing of ASCII texts, which the law holds for.\<close>

definition ascii_lower :: "string \<Rightarrow> string" where
  "ascii_lower s = map (\<lambda>c. let n = (of_char c :: nat) in if 65 \<le> n \<and> n \<le> 90 then char_of (n + 32) else c) s"

lemma ascii_lower_law: "lower_by_lines ascii_lower"
  by (simp add: lower_by_lines_def ascii_lower_def)

theorem index_only_sees_clean_text_witness:
  "\<exists>clean. fst (filter_Apply ascii_lower (filter_New ascii_lower)
       [\<lparr>doc_ID = ''1'', doc_Kind = ''code'', doc_Source = '''', doc_Path = ''main.go'', doc_Language = ''go'', doc_Title = '''',
         doc_Content = ''x'', doc_Metadata = Map.empty, doc_UpdatedAt = 0\<rparr>] [] 0) = clean
     \<and> list_all (\<lambda>d. clean_text ascii_lower (doc_Content d)) clean"
proof -
  let ?docs = "[\<lparr>doc_ID = ''1'', doc_Kind = ''code'', doc_Source = '''', doc_Path = ''main.go'', doc_Language = ''go'', doc_Title = '''',
         doc_Content = ''x'', doc_Metadata = Map.empty, doc_UpdatedAt = 0\<rparr>]"
  obtain clean n where run: "filter_Apply ascii_lower (filter_New ascii_lower) ?docs [] 0 = (clean, n)" by fastforce
  from index_only_sees_clean_text [OF ascii_lower_law run] run show ?thesis by (auto simp: list_all_iff)
qed

end
