(* ===== verification/Audit_Entry.thy ===== *)
theory Audit_Entry
  imports Go_Time Go_Errors
begin

section \<open>observability/audit: entries and scorecards on the wire\<close>

text \<open>
  \<open>src/go/observability/audit/audit.go\<close>: the JSON and the protobuf form of an entry and the protobuf form of a scorecard. \<open>encoding/json\<close> on the struct of
  four strings is the pair of parameters \<open>encode\<close> and \<open>decode\<close>; \<open>lenient\<close> is the general layout parser that \<open>time.Parse\<close> falls back to. A map or a
  slice that is nil is empty here.
\<close>

subsection \<open>Entries as JSON\<close>

definition ActorHeader :: string where "ActorHeader = ''X-Dui-Actor''"

record entry =
  en_Time :: go_time
  en_Actor :: string
  en_Action :: string
  en_Resource :: string

record entry_json =
  ej_Time :: string
  ej_Actor :: string
  ej_Action :: string
  ej_Resource :: string

definition entry_wire :: "entry \<Rightarrow> entry_json" where
  "entry_wire e = \<lparr>ej_Time = (if IsZero (en_Time e) then '''' else Format_RFC3339 (en_Time e)), ej_Actor = en_Actor e, ej_Action = en_Action e,
     ej_Resource = en_Resource e\<rparr>"

definition MarshalJSON :: "(entry_json \<Rightarrow> 'x err + string) \<Rightarrow> entry \<Rightarrow> 'x err + string" where
  "MarshalJSON encode e = (case encode (entry_wire e) of Inl err \<Rightarrow> Inl (wrapf ''marshal audit entry: '' err) | Inr data \<Rightarrow> Inr data)"

definition time_Parse :: "(string \<Rightarrow> 'x err + go_time) \<Rightarrow> string \<Rightarrow> 'x err + go_time" where
  "time_Parse lenient s = (case parse_rfc3339 s of Some t \<Rightarrow> Inr t | None \<Rightarrow> lenient s)"

text \<open>The entry stays as it is when an error is returned.\<close>

definition UnmarshalJSON :: "(string \<Rightarrow> 'x err + entry_json) \<Rightarrow> (string \<Rightarrow> 'x err + go_time) \<Rightarrow> string \<Rightarrow> 'x err + entry" where
  "UnmarshalJSON decode lenient data =
     (case decode data of
        Inl e \<Rightarrow> Inl (wrapf ''unmarshal audit entry: '' e)
      | Inr raw \<Rightarrow>
          (case (if ej_Time raw \<noteq> '''' then time_Parse lenient (ej_Time raw) else Inr zero_time) of
             Inl e \<Rightarrow> Inl (wrapf (''parse audit entry time '' @ go_quote (ej_Time raw) @ '': '') e)
           | Inr ts \<Rightarrow> Inr \<lparr>en_Time = ts, en_Actor = ej_Actor raw, en_Action = ej_Action raw, en_Resource = ej_Resource raw\<rparr>))"

subsection \<open>Entries and scorecards as protobuf\<close>

text \<open>Seconds since 1970 and nanoseconds within the second; None is a nil pointer.\<close>

definition unix_epoch :: int where "unix_epoch = 62135596800"

type_synonym timestamp = "int \<times> int"

definition timestamp_New :: "go_time \<Rightarrow> timestamp" where
  "timestamp_New t = (tm_nano t div 10 ^ 9 - unix_epoch, tm_nano t mod 10 ^ 9)"

definition AsTime :: "timestamp \<Rightarrow> go_time" where
  "AsTime ts = \<lparr>tm_nano = (fst ts + unix_epoch) * 10 ^ 9 + snd ts, tm_offset = 0\<rparr>"

record entry_pb =
  pe_EventTime :: "timestamp option"
  pe_Actor :: string
  pe_Action :: string
  pe_Resource :: string

definition entry_ToProto :: "entry \<Rightarrow> entry_pb" where
  "entry_ToProto e = \<lparr>pe_EventTime = (if IsZero (en_Time e) then None else Some (timestamp_New (en_Time e))), pe_Actor = en_Actor e, pe_Action = en_Action e,
     pe_Resource = en_Resource e\<rparr>"

definition zero_entry :: entry where
  "zero_entry = \<lparr>en_Time = zero_time, en_Actor = '''', en_Action = '''', en_Resource = ''''\<rparr>"

definition EntryFromProto :: "entry_pb option \<Rightarrow> entry" where
  "EntryFromProto pb = (case pb of
     None \<Rightarrow> zero_entry
   | Some p \<Rightarrow> \<lparr>en_Time = (case pe_EventTime p of None \<Rightarrow> zero_time | Some ts \<Rightarrow> AsTime ts), en_Actor = pe_Actor p, en_Action = pe_Action p,
       en_Resource = pe_Resource p\<rparr>)"

record scorecard =
  sc_Total :: int
  sc_ByActor :: "string \<rightharpoonup> int"
  sc_ByAction :: "string \<rightharpoonup> int"
  sc_TopResources :: "string list"

text \<open>Go's conversion to \<open>int32\<close> keeps the low 32 bits; the fields of the message are of that type.\<close>

definition int32 :: "int \<Rightarrow> int" where
  "int32 i = (i + 2 ^ 31) mod 2 ^ 32 - 2 ^ 31"

record scorecard_pb =
  ps_Total :: int
  ps_ByActor :: "string \<rightharpoonup> int"
  ps_ByAction :: "string \<rightharpoonup> int"
  ps_TopResources :: "string list"

definition scorecard_ToProto :: "scorecard \<Rightarrow> scorecard_pb" where
  "scorecard_ToProto s = \<lparr>ps_Total = int32 (sc_Total s), ps_ByActor = map_option int32 \<circ> sc_ByActor s, ps_ByAction = map_option int32 \<circ> sc_ByAction s,
     ps_TopResources = sc_TopResources s\<rparr>"

definition ScorecardFromProto :: "scorecard_pb option \<Rightarrow> scorecard" where
  "ScorecardFromProto pb = (case pb of
     None \<Rightarrow> \<lparr>sc_Total = 0, sc_ByActor = Map.empty, sc_ByAction = Map.empty, sc_TopResources = []\<rparr>
   | Some p \<Rightarrow> \<lparr>sc_Total = ps_Total p, sc_ByActor = ps_ByActor p, sc_ByAction = ps_ByAction p, sc_TopResources = ps_TopResources p\<rparr>)"

subsection \<open>What comes back\<close>

definition in_int32 :: "int \<Rightarrow> bool" where
  "in_int32 i \<longleftrightarrow> - (2 ^ 31) \<le> i \<and> i < 2 ^ 31"

lemma int32_id: "int32 i = i \<longleftrightarrow> in_int32 i"
proof
  assume "int32 i = i"
  moreover have "0 \<le> (i + 2 ^ 31) mod 2 ^ 32" "(i + 2 ^ 31) mod 2 ^ 32 < 2 ^ 32" by simp_all
  ultimately show "in_int32 i" unfolding int32_def in_int32_def by simp
next
  assume "in_int32 i"
  then have "(i + 2 ^ 31) mod 2 ^ 32 = i + 2 ^ 31" by (intro mod_pos_pos_trivial) (simp_all add: in_int32_def)
  then show "int32 i = i" by (simp add: int32_def)
qed

lemma int32_counts: "map_option int32 \<circ> m = m \<longleftrightarrow> (\<forall>i \<in> ran m. in_int32 i)"
proof
  assume "map_option int32 \<circ> m = m"
  then have m: "map_option int32 (m k) = m k" for k by (metis comp_apply)
  show "\<forall>i \<in> ran m. in_int32 i"
  proof
    fix i assume "i \<in> ran m"
    then obtain k where "m k = Some i" by (auto simp: ran_def)
    then show "in_int32 i" using m [of k] int32_id by simp
  qed
next
  assume "\<forall>i \<in> ran m. in_int32 i"
  then show "map_option int32 \<circ> m = m" by (intro ext) (auto simp: ran_def int32_id split: option.split intro!: option.map_ident_strong dest: spec)
qed

text \<open>A scorecard survives exactly when all its counts fit: the comments of the code say that they always do.\<close>

definition counts_fit :: "scorecard \<Rightarrow> bool" where
  "counts_fit s \<longleftrightarrow> in_int32 (sc_Total s) \<and> (\<forall>i \<in> ran (sc_ByActor s). in_int32 i) \<and> (\<forall>i \<in> ran (sc_ByAction s). in_int32 i)"

lemma scorecard_proto_roundtrip: "ScorecardFromProto (Some (scorecard_ToProto s)) = s \<longleftrightarrow> counts_fit s"
  by (cases s) (auto simp: ScorecardFromProto_def scorecard_ToProto_def counts_fit_def int32_id int32_counts)

lemma entry_proto_roundtrip: "EntryFromProto (Some (entry_ToProto e)) = e\<lparr>en_Time := in_utc (en_Time e)\<rparr>"
proof -
  have "AsTime (timestamp_New t) = in_utc t" for t
    by (cases t) (simp add: AsTime_def timestamp_New_def in_utc_def)
  moreover have "IsZero t \<Longrightarrow> zero_time = in_utc t" for t
    by (cases t) (simp add: IsZero_def zero_time_def in_utc_def)
  ultimately show ?thesis by (cases e) (simp add: EntryFromProto_def entry_ToProto_def)
qed

text \<open>The instant that is read for an instant that was written.\<close>

definition stamp_read :: "go_time \<Rightarrow> go_time" where
  "stamp_read t = (if IsZero t then zero_time else to_second t)"

lemma UnmarshalJSON_wire:
  assumes "decode data = Inr (entry_wire e)" "IsZero (en_Time e) \<or> formattable (en_Time e)"
  shows "UnmarshalJSON decode lenient data = Inr (e\<lparr>en_Time := stamp_read (en_Time e)\<rparr>)"
proof (cases "IsZero (en_Time e)")
  case True
  then show ?thesis using assms by (cases e) (simp add: UnmarshalJSON_def entry_wire_def stamp_read_def)
next
  case False
  then have p: "parse_rfc3339 (Format_RFC3339 (en_Time e)) = Some (to_second (en_Time e))" using assms parse_format by blast
  moreover have "parse_rfc3339 '''' = None" by (simp add: parse_rfc3339_def)
  ultimately have "Format_RFC3339 (en_Time e) \<noteq> ''''" by auto
  then show ?thesis using p False assms by (cases e) (simp add: UnmarshalJSON_def entry_wire_def stamp_read_def time_Parse_def)
qed

subsection \<open>Properties\<close>

text \<open>C23. An audit entry survives its JSON form up to the second: what MarshalJSON writes, UnmarshalJSON reads back with the same actor, action and resource,
  the same location offset, and the instant cut to the second (a zero time as a zero time), as long as the JSON library reads back the four strings
  that it wrote (as it does for valid UTF-8) and the time has a year of at most four digits and an offset of whole minutes.\<close>
theorem entry_json_roundtrip:
  assumes "\<And>b. encode (entry_wire e) = Inr b \<Longrightarrow> decode b = Inr (entry_wire e)" and "IsZero (en_Time e) \<or> formattable (en_Time e)" and "MarshalJSON encode e = Inr data"
  shows "UnmarshalJSON decode lenient data = Inr (e\<lparr>en_Time := stamp_read (en_Time e)\<rparr>)"
proof (rule UnmarshalJSON_wire [OF _ assms(2)])
  show "decode data = Inr (entry_wire e)"
    using assms(1,3) by (auto simp: MarshalJSON_def split: sum.splits)
qed

text \<open>Fields joined by a character that they must not hold, and half past noon on the leap day of 2024, two hours east of Greenwich.\<close>

definition demo_encode :: "entry_json \<Rightarrow> unit err + string" where
  "demo_encode w =
     (let fs = [ej_Time w, ej_Actor w, ej_Action w, ej_Resource w] in
      if CHR ''|'' \<in> set (concat fs) then Inl (sentinel ''demo'' ''separator'') else Inr (join_with [CHR ''|''] fs))"

definition demo_decode :: "string \<Rightarrow> unit err + entry_json" where
  "demo_decode s = (case split_on (CHR ''|'') s of
     [t, a, b, c] \<Rightarrow> Inr \<lparr>ej_Time = t, ej_Actor = a, ej_Action = b, ej_Resource = c\<rparr> | _ \<Rightarrow> Inl (sentinel ''demo'' ''fields''))"

lemma demo_decode_encode: "demo_encode w = Inr b \<Longrightarrow> demo_decode b = Inr w"
  using split_on_join_with [of "[ej_Time w, ej_Actor w, ej_Action w, ej_Resource w]" "CHR ''|''"]
  by (cases w) (auto simp: demo_encode_def demo_decode_def Let_def split: if_splits)

definition demo_moment :: go_time where
  "demo_moment = \<lparr>tm_nano = 63844799400 * 10 ^ 9 + 5, tm_offset = 7200\<rparr>"

lemma demo_moment_text: "Format_RFC3339 demo_moment = ''2024-02-29T12:30:00+02:00''" "formattable demo_moment"
  by (code_simp, code_simp)

theorem entry_json_roundtrip_witness:
  "MarshalJSON demo_encode \<lparr>en_Time = demo_moment, en_Actor = ''bob'', en_Action = ''read'', en_Resource = ''doc''\<rparr> = Inr ''2024-02-29T12:30:00+02:00|bob|read|doc''
   \<and> UnmarshalJSON demo_decode (\<lambda>s. Inl (sentinel s s)) ''2024-02-29T12:30:00+02:00|bob|read|doc''
     = Inr \<lparr>en_Time = to_second demo_moment, en_Actor = ''bob'', en_Action = ''read'', en_Resource = ''doc''\<rparr>"
proof -
  let ?e = "\<lparr>en_Time = demo_moment, en_Actor = ''bob'', en_Action = ''read'', en_Resource = ''doc''\<rparr>"
  have nz: "\<not> IsZero demo_moment" by (simp add: IsZero_def demo_moment_def)
  have m: "MarshalJSON demo_encode ?e = Inr ''2024-02-29T12:30:00+02:00|bob|read|doc''"
    by (simp add: MarshalJSON_def entry_wire_def nz demo_moment_text(1) demo_encode_def)
  show ?thesis
    using entry_json_roundtrip [where encode = demo_encode and decode = demo_decode and e = ?e and lenient = "\<lambda>s. Inl (sentinel s s)", OF demo_decode_encode _ m] m demo_moment_text(2) nz
    by (simp add: stamp_read_def)
qed

end
