(* ===== verification/Audit_Log.thy ===== *)
theory Audit_Log
  imports Audit_Entry "HOL-Library.Multiset"
begin

section \<open>observability/audit: the rotating log and its readers\<close>

text \<open>
  \<open>src/go/observability/audit/audit.go\<close>, \<open>reader.go\<close> and \<open>file/file.go\<close>. The disk is
  a map from paths to contents and an open file is the path it writes to; every system call of the
  writer may fail with the error \<open>flt\<close> gives for it, a write after some bytes. \<open>json.Marshal\<close> and \<open>json.Unmarshal\<close>
  of an entry are the parameters \<open>marshal\<close> and \<open>unmarshal\<close>; \<open>Audit_Entry\<close> has the methods they call.
\<close>

subsection \<open>The file writer\<close>

datatype audit_call = AcRemove | AcRename | AcOpen | AcReopen | AcWrite | AcClose | AcStat

type_synonym 'x audit_faults = "audit_call \<Rightarrow> 'x err option"

definition ErrClosed :: "'x err" where
  "ErrClosed = sentinel ''os.ErrClosed'' ''file already closed''"

definition no_file :: "'x err" where
  "no_file = sentinel ''os.ErrNotExist'' ''file does not exist''"

record file_writer =
  fw_file :: "string option"
  fw_path :: string
  fw_maxLogSize :: int
  fw_written :: int

definition DefaultMaxLogSize :: int where
  "DefaultMaxLogSize = 10 * 2 ^ 20"

text \<open>Opening for append creates the file if it is missing.\<close>

definition touch :: "string \<Rightarrow> (string \<rightharpoonup> string) \<Rightarrow> (string \<rightharpoonup> string)" where
  "touch p dk = (case dk p of None \<Rightarrow> dk(p \<mapsto> []) | Some c \<Rightarrow> dk)"

definition content :: "string \<Rightarrow> (string \<rightharpoonup> string) \<Rightarrow> string" where
  "content p dk = (case dk p of None \<Rightarrow> [] | Some c \<Rightarrow> c)"

definition NewFileWriter :: "'x audit_faults \<Rightarrow> string \<Rightarrow> int option \<Rightarrow> (string \<rightharpoonup> string) \<Rightarrow> ('x err + file_writer) \<times> (string \<rightharpoonup> string)" where
  "NewFileWriter flt p maxSize dk =
     (case flt AcOpen of
        Some e \<Rightarrow> (Inl (wrapf ''open audit log: '' e), dk)
      | None \<Rightarrow> (let dk1 = touch p dk in
         (case flt AcStat of
            Some e \<Rightarrow> (Inl (wrapf ''stat audit log: '' e), dk1)
          | None \<Rightarrow> (Inr \<lparr>fw_file = Some p, fw_path = p,
              fw_maxLogSize = (case maxSize of None \<Rightarrow> DefaultMaxLogSize | Some m \<Rightarrow> m),
              fw_written = int (length (content p dk1))\<rparr>, dk1))))"

definition backup_path :: "string \<Rightarrow> string" where
  "backup_path p = p @ ''.1''"

definition rotateLocked :: "'x audit_faults \<Rightarrow> file_writer \<Rightarrow> (string \<rightharpoonup> string) \<Rightarrow> ('x err option \<times> file_writer) \<times> (string \<rightharpoonup> string)" where
  "rotateLocked flt w dk =
     (let p = fw_path w; b = backup_path p; w0 = w\<lparr>fw_file := None\<rparr>;
          dk1 = (if flt AcRemove = None then dk(b := None) else dk)
      in case (case flt AcRename of Some e \<Rightarrow> Some e | None \<Rightarrow> if dk1 p = None then Some no_file else None) of
           Some e \<Rightarrow>
             (case flt AcReopen of
                None \<Rightarrow> ((Some (wrapf ''rename audit log: '' e), w0\<lparr>fw_file := Some p\<rparr>), touch p dk1)
              | Some _ \<Rightarrow> ((Some (wrapf ''rename audit log: '' e), w0), dk1))
         | None \<Rightarrow>
             (let dk2 = dk1(b := dk1 p, p := None) in
              case flt AcOpen of
                Some e \<Rightarrow>
                  (case flt AcReopen of
                     None \<Rightarrow> ((Some (wrapf ''create new audit log: '' e), w0\<lparr>fw_file := Some b\<rparr>), dk2)
                   | Some _ \<Rightarrow> ((Some (wrapf ''create new audit log: '' e), w0), dk2))
              | None \<Rightarrow> ((None, w0\<lparr>fw_file := Some p, fw_written := 0\<rparr>), touch p dk2)))"

text \<open>The write: the whole line, or its first \<open>n\<close> bytes and an error.\<close>

definition append_line :: "'x audit_faults \<Rightarrow> nat \<Rightarrow> file_writer \<Rightarrow> string \<Rightarrow> (string \<rightharpoonup> string) \<Rightarrow> ('x err option \<times> file_writer) \<times> (string \<rightharpoonup> string)" where
  "append_line flt n w line dk =
     (case fw_file w of
        None \<Rightarrow> ((Some (wrapf ''write audit entry: '' ErrClosed), w), dk)
      | Some f \<Rightarrow> (case flt AcWrite of
          Some e \<Rightarrow> ((Some (wrapf ''write audit entry: '' e), w), dk(f \<mapsto> content f dk @ take n line))
        | None \<Rightarrow> ((None, w\<lparr>fw_written := fw_written w + int (length line)\<rparr>), dk(f \<mapsto> content f dk @ line))))"

definition writer_Log :: "(entry \<Rightarrow> 'x err + string) \<Rightarrow> 'x audit_faults \<Rightarrow> nat \<Rightarrow> go_time \<Rightarrow> entry \<Rightarrow> file_writer \<Rightarrow> (string \<rightharpoonup> string)
    \<Rightarrow> ('x err option \<times> file_writer) \<times> (string \<rightharpoonup> string)" where
  "writer_Log marshal flt n now e w dk =
     (let e' = e\<lparr>en_Time := now\<rparr> in
      case (if fw_written w \<ge> fw_maxLogSize w then rotateLocked flt w dk else ((None, w), dk)) of
        ((Some err, w1), dk1) \<Rightarrow> ((Some (wrapf ''rotate audit log: '' err), w1), dk1)
      | ((None, w1), dk1) \<Rightarrow> (case marshal e' of
          Inl err \<Rightarrow> ((Some (wrapf ''marshal audit entry: '' err), w1), dk1)
        | Inr b \<Rightarrow> append_line flt n w1 (b @ [CHR 0x0A]) dk1))"

definition writer_Close :: "'x audit_faults \<Rightarrow> file_writer \<Rightarrow> 'x err option \<times> file_writer" where
  "writer_Close flt w =
     (case fw_file w of
        None \<Rightarrow> (Some (wrapf ''close audit log: '' ErrClosed), w)
      | Some f \<Rightarrow> (case flt AcClose of Some e \<Rightarrow> (Some (wrapf ''close audit log: '' e), w\<lparr>fw_file := None\<rparr>) | None \<Rightarrow> (None, w\<lparr>fw_file := None\<rparr>)))"

subsection \<open>The readers\<close>

text \<open>The lines \<open>bufio.Reader.ReadBytes\<close> yields for a newline: each with its newline, the last one perhaps without.\<close>

fun raw_lines :: "string \<Rightarrow> string list" where
  "raw_lines [] = []"
| "raw_lines (c # cs) =
     (if c = CHR 0x0A then [c] # raw_lines cs
      else (case raw_lines cs of [] \<Rightarrow> [[c]] | l # ls \<Rightarrow> (c # l) # ls))"

definition bump :: "string \<Rightarrow> (string \<rightharpoonup> int) \<Rightarrow> (string \<rightharpoonup> int)" where
  "bump k m = m(k \<mapsto> (case m k of None \<Rightarrow> 0 | Some n \<Rightarrow> n) + 1)"

record tally =
  tl_Total :: int
  tl_ByActor :: "string \<rightharpoonup> int"
  tl_ByAction :: "string \<rightharpoonup> int"
  tl_Resources :: "string \<rightharpoonup> int"

definition empty_tally :: tally where
  "empty_tally = \<lparr>tl_Total = 0, tl_ByActor = Map.empty, tl_ByAction = Map.empty, tl_Resources = Map.empty\<rparr>"

definition count_entry :: "entry \<Rightarrow> tally \<Rightarrow> tally" where
  "count_entry e t = \<lparr>tl_Total = tl_Total t + 1, tl_ByActor = bump (en_Actor e) (tl_ByActor t),
     tl_ByAction = bump (en_Action e) (tl_ByAction t), tl_Resources = bump (en_Resource e) (tl_Resources t)\<rparr>"

definition count_line :: "(string \<Rightarrow> entry option) \<Rightarrow> string \<Rightarrow> tally \<Rightarrow> tally" where
  "count_line unmarshal line t =
     (if trim_space line = '''' then t else (case unmarshal line of None \<Rightarrow> t | Some e \<Rightarrow> count_entry e t))"

definition maxTopResources :: nat where "maxTopResources = 5"

text \<open>\<open>topN\<close>, where \<open>arrange\<close> is what \<open>sort.Slice\<close> makes of the pairs of the map.\<close>

definition topN :: "((string \<rightharpoonup> int) \<Rightarrow> (string \<times> int) list) \<Rightarrow> (string \<rightharpoonup> int) \<Rightarrow> nat \<Rightarrow> string list" where
  "topN arrange m n = map (\<lambda>(k, c). k @ '' ('' @ show_int c @ '')'') (take n (arrange m))"

definition ReadScorecard :: "(string \<Rightarrow> entry option) \<Rightarrow> ((string \<rightharpoonup> int) \<Rightarrow> (string \<times> int) list) \<Rightarrow> string \<Rightarrow> (string \<rightharpoonup> string)
    \<Rightarrow> 'x err + scorecard" where
  "ReadScorecard unmarshal arrange p dk =
     (case dk p of
        None \<Rightarrow> Inl (wrapf ''open audit log: '' no_file)
      | Some text \<Rightarrow> (let t = fold (count_line unmarshal) (raw_lines text) empty_tally in
          Inr \<lparr>sc_Total = tl_Total t, sc_ByActor = tl_ByActor t, sc_ByAction = tl_ByAction t,
               sc_TopResources = topN arrange (tl_Resources t) maxTopResources\<rparr>))"

subsection \<open>Lines\<close>

lemma raw_lines_line: "CHR 0x0A \<notin> set l \<Longrightarrow> raw_lines (l @ CHR 0x0A # rest) = (l @ [CHR 0x0A]) # raw_lines rest"
  by (induction l) auto

definition is_line :: "string \<Rightarrow> bool" where
  "is_line l \<longleftrightarrow> l \<noteq> [] \<and> last l = CHR 0x0A \<and> CHR 0x0A \<notin> set (butlast l)"

lemma raw_lines_concat:
  assumes "list_all is_line ls"
  shows "raw_lines (concat ls @ rest) = ls @ raw_lines rest"
  using assms
proof (induction ls)
  case (Cons l ls)
  then have "l = butlast l @ [CHR 0x0A]" "CHR 0x0A \<notin> set (butlast l)"
    by (auto simp: is_line_def) (metis append_butlast_last_id)
  then obtain b where l: "l = b @ [CHR 0x0A]" "CHR 0x0A \<notin> set b" by blast
  then show ?case using Cons by (simp add: raw_lines_line)
qed simp

subsection \<open>Logging without I/O errors\<close>

definition no_audit_faults :: "'x audit_faults" where
  "no_audit_faults = (\<lambda>_. None)"

definition line_of :: "(entry \<Rightarrow> 'x err + string) \<Rightarrow> go_time \<times> entry \<Rightarrow> string" where
  "line_of marshal te = (case marshal ((snd te)\<lparr>en_Time := fst te\<rparr>) of Inl e \<Rightarrow> [] | Inr b \<Rightarrow> b @ [CHR 0x0A])"

fun run_logs :: "(entry \<Rightarrow> 'x err + string) \<Rightarrow> (go_time \<times> entry) list \<Rightarrow> file_writer \<Rightarrow> (string \<rightharpoonup> string) \<Rightarrow> file_writer \<times> (string \<rightharpoonup> string)" where
  "run_logs marshal [] w dk = (w, dk)"
| "run_logs marshal (te # tes) w dk =
     (case writer_Log marshal no_audit_faults 0 (fst te) (snd te) w dk of ((r, w1), dk1) \<Rightarrow> run_logs marshal tes w1 dk1)"

text \<open>The two files hold the end of what was logged: the backup from entry \<open>k\<close>, the log from entry \<open>j\<close>.\<close>

definition log_state :: "string list \<Rightarrow> nat \<Rightarrow> nat \<Rightarrow> string \<Rightarrow> file_writer \<Rightarrow> (string \<rightharpoonup> string) \<Rightarrow> bool" where
  "log_state lines k j p w dk \<longleftrightarrow> fw_file w = Some p \<and> fw_path w = p \<and> dk p \<noteq> None
     \<and> fw_written w = int (length (content p dk)) \<and> k \<le> j \<and> j \<le> length lines
     \<and> content (backup_path p) dk = concat (drop k (take j lines)) \<and> content p dk = concat (drop j lines)"

lemma backup_other [simp]: "backup_path p \<noteq> p" "p \<noteq> backup_path p"
  by (simp_all add: backup_path_def)

lemma rotate_state:
  assumes "log_state lines k j p w dk"
  shows "\<exists>w' dk'. rotateLocked no_audit_faults w dk = ((None, w'), dk') \<and> log_state lines j (length lines) p w' dk'"
  using assms
  by (auto simp: log_state_def rotateLocked_def no_audit_faults_def Let_def touch_def content_def split: option.splits)

lemma log_state_step:
  fixes marshal :: "entry \<Rightarrow> 'x err + string"
  assumes st: "log_state lines k j p w dk" and m: "marshal (e\<lparr>en_Time := now\<rparr>) = Inr b"
  shows "\<exists>k' j' w' dk'. writer_Log marshal no_audit_faults 0 now e w dk = ((None, w'), dk')
    \<and> log_state (lines @ [b @ [CHR 0x0A]]) k' j' p w' dk' \<and> j' \<le> length lines"
proof -
  have app: "\<exists>w' dk'. append_line (no_audit_faults :: 'x audit_faults) 0 w1 (b @ [CHR 0x0A]) dk1 = ((None, w'), dk')
      \<and> log_state (lines @ [b @ [CHR 0x0A]]) k1 j1 p w' dk'" if "log_state lines k1 j1 p w1 dk1" for w1 dk1 k1 j1
    using that by (auto simp: log_state_def append_line_def no_audit_faults_def content_def split: option.splits)
  show ?thesis
  proof (cases "fw_written w \<ge> fw_maxLogSize w")
    case True
    obtain w1 dk1 where rot: "rotateLocked (no_audit_faults :: 'x audit_faults) w dk = ((None, w1), dk1)" and st1: "log_state lines j (length lines) p w1 dk1"
      using rotate_state [OF st] by blast
    obtain w' dk' where "append_line (no_audit_faults :: 'x audit_faults) 0 w1 (b @ [CHR 0x0A]) dk1 = ((None, w'), dk')"
      and "log_state (lines @ [b @ [CHR 0x0A]]) j (length lines) p w' dk'" using app [OF st1] by blast
    then have "writer_Log marshal no_audit_faults 0 now e w dk = ((None, w'), dk') \<and>
        log_state (lines @ [b @ [CHR 0x0A]]) j (length lines) p w' dk' \<and> length lines \<le> length lines"
      by (simp add: writer_Log_def Let_def True rot m)
    then show ?thesis by blast
  next
    case False
    obtain w' dk' where "append_line (no_audit_faults :: 'x audit_faults) 0 w (b @ [CHR 0x0A]) dk = ((None, w'), dk')"
      and "log_state (lines @ [b @ [CHR 0x0A]]) k j p w' dk'" using app [OF st] by blast
    moreover have "j \<le> length lines" using st by (simp add: log_state_def)
    ultimately have "writer_Log marshal no_audit_faults 0 now e w dk = ((None, w'), dk') \<and>
        log_state (lines @ [b @ [CHR 0x0A]]) k j p w' dk' \<and> j \<le> length lines"
      using False by (simp add: writer_Log_def Let_def m)
    then show ?thesis by blast
  qed
qed

lemma run_logs_state:
  assumes "log_state lines k j p w dk" and "lines = [] \<or> j < length lines"
    and "list_all (\<lambda>te. line_of marshal te \<noteq> []) tes" and "run_logs marshal tes w dk = (w', dk')"
  shows "\<exists>k' j'. log_state (lines @ map (line_of marshal) tes) k' j' p w' dk'
    \<and> (lines @ map (line_of marshal) tes = [] \<or> j' < length (lines @ map (line_of marshal) tes))"
  using assms
proof (induction tes arbitrary: lines k j w dk)
  case (Cons te tes)
  obtain now e where te: "te = (now, e)" by (cases te)
  obtain b where m: "marshal (e\<lparr>en_Time := now\<rparr>) = Inr b" and l: "line_of marshal te = b @ [CHR 0x0A]"
    using Cons.prems(3) te by (auto simp: line_of_def split: sum.splits)
  obtain k1 j1 w1 dk1 where one: "writer_Log marshal no_audit_faults 0 now e w dk = ((None, w1), dk1)"
    and st1: "log_state (lines @ [b @ [CHR 0x0A]]) k1 j1 p w1 dk1" and j1: "j1 \<le> length lines"
    using log_state_step [where marshal = marshal and e = e and now = now, OF Cons.prems(1) m] by blast
  have rest: "run_logs marshal tes w1 dk1 = (w', dk')" using Cons.prems(4) one te by simp
  have "lines @ [b @ [CHR 0x0A]] = [] \<or> j1 < length (lines @ [b @ [CHR 0x0A]])" using j1 by simp
  from Cons.IH [OF st1 this _ rest] Cons.prems(3) l show ?case by auto
qed auto

subsection \<open>What the scorecard counts\<close>

text \<open>A codec that reads back every entry of a list: each becomes one line with some text in it, and the line
  reads back as the entry with its time stamp (as RFC 3339 keeps it).\<close>

text \<open>The backup and the log together, as one text.\<close>

lemma log_contents:
  assumes st: "log_state (map f tes) k j p w dk"
  shows "content (backup_path p) dk @ content p dk = concat (map f (drop k tes))"
proof -
  let ?ls = "map f tes"
  have "k \<le> j" "j \<le> length ?ls" using st by (auto simp: log_state_def)
  then have "drop k ?ls = drop k (take j ?ls @ drop j ?ls)" and "length (take j ?ls) = j" by simp_all
  then have "drop k ?ls = drop k (take j ?ls) @ drop j ?ls" using \<open>k \<le> j\<close> by (simp only: drop_append) simp
  moreover have "content (backup_path p) dk = concat (drop k (take j ?ls))" "content p dk = concat (drop j ?ls)"
    using st by (simp_all add: log_state_def)
  ultimately show ?thesis by (simp add: drop_map)
qed

definition reads_back :: "(entry \<Rightarrow> 'x err + string) \<Rightarrow> (string \<Rightarrow> entry option) \<Rightarrow> go_time \<times> entry \<Rightarrow> bool" where
  "reads_back marshal unmarshal te \<longleftrightarrow> is_line (line_of marshal te) \<and> trim_space (line_of marshal te) \<noteq> ''''
     \<and> (case unmarshal (line_of marshal te) of None \<Rightarrow> False
        | Some e \<Rightarrow> en_Actor e = en_Actor (snd te) \<and> en_Action e = en_Action (snd te) \<and> en_Resource e = en_Resource (snd te))"

definition tally_of :: "(go_time \<times> entry) list \<Rightarrow> tally" where
  "tally_of tes = fold (\<lambda>te. count_entry (snd te)) tes empty_tally"

lemma count_entry_cong:
  "en_Actor e = en_Actor e' \<Longrightarrow> en_Action e = en_Action e' \<Longrightarrow> en_Resource e = en_Resource e' \<Longrightarrow> count_entry e t = count_entry e' t"
  by (simp add: count_entry_def)

lemma fold_count_lines:
  "list_all (reads_back marshal unmarshal) tes \<Longrightarrow>
   fold (count_line unmarshal) (map (line_of marshal) tes) t = fold (\<lambda>te. count_entry (snd te)) tes t"
  by (induction tes arbitrary: t)
     (auto simp: reads_back_def count_line_def intro!: arg_cong [where f = "fold _ _"] count_entry_cong split: option.splits)

lemma tally_counts:
  "tl_Total (fold (\<lambda>te. count_entry (snd te)) tes t) = tl_Total t + int (length tes)"
  "tl_ByActor (fold (\<lambda>te. count_entry (snd te)) tes t) a =
     (if a \<in> (en_Actor \<circ> snd) ` set tes
      then Some ((case tl_ByActor t a of None \<Rightarrow> 0 | Some n \<Rightarrow> n) + int (count_list (map (en_Actor \<circ> snd) tes) a)) else tl_ByActor t a)"
  "tl_ByAction (fold (\<lambda>te. count_entry (snd te)) tes t) a =
     (if a \<in> (en_Action \<circ> snd) ` set tes
      then Some ((case tl_ByAction t a of None \<Rightarrow> 0 | Some n \<Rightarrow> n) + int (count_list (map (en_Action \<circ> snd) tes) a)) else tl_ByAction t a)"
  by (induction tes arbitrary: t) (auto simp: count_entry_def bump_def split: option.splits)

text \<open>The log keeps the most recent entries and the scorecard counts them: after any sequence of successful
  calls of \<open>Log\<close> on a new log, with rotations as they come, the backup and the log together hold an
  unbroken run of lines up to the last entry, and the scorecard of the log counts exactly the
  entries since the last rotation, in total, by actor and by action.\<close>

theorem audit_log_keeps_recent_entries:
  assumes "NewFileWriter (no_audit_faults :: 'x audit_faults) p maxSize Map.empty = (Inr w, dk)"
    and "list_all (reads_back marshal unmarshal) tes" and "run_logs marshal tes w dk = (w', dk')"
  shows "\<exists>k j. k \<le> j \<and> (tes = [] \<or> j < length tes)
    \<and> content (backup_path p) dk' @ content p dk' = concat (map (line_of marshal) (drop k tes))
    \<and> (case ReadScorecard unmarshal arrange p dk' of
         Inl e \<Rightarrow> False
       | Inr sc \<Rightarrow> sc_Total sc = int (length tes - j)
           \<and> (\<forall>a. sc_ByActor sc a = (if a \<in> (en_Actor \<circ> snd) ` set (drop j tes) then Some (int (count_list (map (en_Actor \<circ> snd) (drop j tes)) a)) else None))
           \<and> (\<forall>a. sc_ByAction sc a = (if a \<in> (en_Action \<circ> snd) ` set (drop j tes) then Some (int (count_list (map (en_Action \<circ> snd) (drop j tes)) a)) else None)))"
proof -
  have start: "log_state [] 0 0 p w dk"
    using assms(1) by (auto simp: NewFileWriter_def no_audit_faults_def Let_def touch_def content_def log_state_def)
  have ok: "list_all (\<lambda>te. line_of marshal te \<noteq> []) tes"
    using assms(2) by (auto simp: list_all_iff reads_back_def is_line_def)
  obtain k j where st: "log_state (map (line_of marshal) tes) k j p w' dk'" and j: "tes = [] \<or> j < length tes"
    using run_logs_state [OF start _ ok assms(3)] by auto
  have cur: "dk' p = Some (concat (map (line_of marshal) (drop j tes)))"
    using st by (auto simp: log_state_def content_def drop_map)
  have "list_all (reads_back marshal unmarshal) (drop j tes)" using assms(2) by (auto simp: list_all_iff dest: in_set_dropD)
  moreover from this have "list_all is_line (map (line_of marshal) (drop j tes))" by (auto simp: list_all_iff reads_back_def)
  ultimately have "fold (count_line unmarshal) (raw_lines (concat (map (line_of marshal) (drop j tes)))) empty_tally = tally_of (drop j tes)"
    using raw_lines_concat [of "map (line_of marshal) (drop j tes)" "[]"] by (simp add: fold_count_lines tally_of_def)
  moreover note log_contents [OF st]
  ultimately show ?thesis using st j
    by (intro exI [of _ k] exI [of _ j])
       (auto simp: ReadScorecard_def cur tally_of_def tally_counts empty_tally_def Let_def log_state_def)
qed

definition demo_entry :: entry where
  "demo_entry = \<lparr>en_Time = zero_time, en_Actor = ''bob'', en_Action = ''act'', en_Resource = ''res''\<rparr>"

definition demo_marshal_entry :: "entry \<Rightarrow> unit err + string" where
  "demo_marshal_entry e = Inr (en_Actor e)"

definition demo_unmarshal_entry :: "string \<Rightarrow> entry option" where
  "demo_unmarshal_entry l = (if l = ''bob'' @ [CHR 0x0A] then Some demo_entry else None)"

lemma demo_reads_back: "reads_back demo_marshal_entry demo_unmarshal_entry (t, demo_entry)"
  by (simp add: reads_back_def line_of_def demo_marshal_entry_def demo_unmarshal_entry_def demo_entry_def is_line_def
      trim_space_def is_space_def)

theorem audit_log_keeps_recent_entries_witness:
  "\<exists>w dk w' dk'. NewFileWriter (no_audit_faults :: unit audit_faults) ''log'' (Some 3) Map.empty = (Inr w, dk)
     \<and> run_logs demo_marshal_entry [(demo_moment, demo_entry), (demo_moment, demo_entry), (demo_moment, demo_entry)] w dk = (w', dk')
     \<and> (\<exists>k. content (backup_path ''log'') dk' @ content ''log'' dk'
          = concat (map (line_of demo_marshal_entry) (drop k [(demo_moment, demo_entry), (demo_moment, demo_entry), (demo_moment, demo_entry)])))"
proof -
  let ?tes = "[(demo_moment, demo_entry), (demo_moment, demo_entry), (demo_moment, demo_entry)]"
  obtain w dk where new: "NewFileWriter (no_audit_faults :: unit audit_faults) ''log'' (Some 3) Map.empty = (Inr w, dk)"
    by (simp add: NewFileWriter_def no_audit_faults_def Let_def)
  obtain w' dk' where run: "run_logs demo_marshal_entry ?tes w dk = (w', dk')" by fastforce
  have ok: "list_all (reads_back demo_marshal_entry demo_unmarshal_entry) ?tes" by (simp add: demo_reads_back)
  from audit_log_keeps_recent_entries [OF new ok run, of "\<lambda>_. []"] new run show ?thesis by blast
qed

text \<open>A torn write takes the next entry with it: when a write fails after some bytes of a line, the next call
  of \<open>Log\<close> appends to the torn line and returns no error, but if the joined text does not read as an
  entry the scorecard of the log is the same as before both calls.\<close>

theorem torn_write_swallows_next_entry:
  fixes marshal :: "entry \<Rightarrow> 'x err + string"
  assumes "fw_file w = Some p" and "dk p = Some (concat ls)" and "list_all is_line ls" and "fw_written w < fw_maxLogSize w"
    and "marshal (e1\<lparr>en_Time := t1\<rparr>) = Inr b1" and "marshal (e2\<lparr>en_Time := t2\<rparr>) = Inr b2"
    and "CHR 0x0A \<notin> set (b1 @ b2)" and "n \<le> length b1" and "unmarshal (take n b1 @ b2 @ [CHR 0x0A]) = None"
    and "flt AcWrite \<noteq> None"
    and "writer_Log marshal flt n t1 e1 w dk = ((r1, w1), dk1)" and "writer_Log marshal no_audit_faults 0 t2 e2 w1 dk1 = ((r2, w2), dk2)"
  shows "r1 \<noteq> None \<and> r2 = None
    \<and> (ReadScorecard unmarshal arrange p dk2 :: 'x err + scorecard) = ReadScorecard unmarshal arrange p dk"
proof -
  obtain e where e: "flt AcWrite = Some e" using assms(10) by blast
  have r1: "r1 \<noteq> None" "w1 = w" and dk1: "dk1 = dk(p \<mapsto> concat ls @ take n b1)"
    using assms(1,2,4,5,8,11) e by (auto simp: writer_Log_def Let_def append_line_def content_def)
  then have r2: "r2 = None" and dk2: "dk2 p = Some (concat ls @ take n b1 @ b2 @ [CHR 0x0A])"
    using assms(1,4,6,12) by (auto simp: writer_Log_def Let_def append_line_def content_def no_audit_faults_def)
  have "CHR 0x0A \<notin> set (take n b1 @ b2)" using assms(7) by (auto dest: in_set_takeD)
  then have "raw_lines (take n b1 @ b2 @ [CHR 0x0A]) = [take n b1 @ b2 @ [CHR 0x0A]]"
    using raw_lines_line [of "take n b1 @ b2" "[]"] by simp
  then have "raw_lines (concat ls @ take n b1 @ b2 @ [CHR 0x0A]) = raw_lines (concat ls) @ [take n b1 @ b2 @ [CHR 0x0A]]"
    using raw_lines_concat [OF assms(3)] raw_lines_concat [OF assms(3), of "[]"] by simp
  moreover have "count_line unmarshal (take n b1 @ b2 @ [CHR 0x0A]) t = t" for t
    using assms(9) by (simp add: count_line_def)
  ultimately show ?thesis using r1 r2 by (simp add: ReadScorecard_def dk2 assms(2))
qed

theorem torn_write_swallows_next_entry_witness:
  "\<exists>w dk r1 w1 dk1 w2 dk2.
     writer_Log demo_marshal_entry (no_audit_faults(AcWrite := Some no_file)) 1 demo_moment demo_entry w dk = ((r1, w1), dk1)
     \<and> writer_Log demo_marshal_entry no_audit_faults 0 demo_moment demo_entry w1 dk1 = ((None, w2), dk2)
     \<and> (ReadScorecard demo_unmarshal_entry (\<lambda>_. []) ''log'' dk2 :: unit err + scorecard)
        = ReadScorecard demo_unmarshal_entry (\<lambda>_. []) ''log'' dk"
proof -
  let ?w = "\<lparr>fw_file = Some ''log'', fw_path = ''log'', fw_maxLogSize = 100, fw_written = 0\<rparr>"
  let ?dk = "[''log'' \<mapsto> concat []] :: string \<rightharpoonup> string"
  obtain r1 w1 dk1 where one: "writer_Log demo_marshal_entry (no_audit_faults(AcWrite := Some no_file)) 1 demo_moment demo_entry ?w ?dk = ((r1, w1), dk1)"
    by (cases "writer_Log demo_marshal_entry (no_audit_faults(AcWrite := Some no_file)) 1 demo_moment demo_entry ?w ?dk") auto
  obtain r2 w2 dk2 where two: "writer_Log demo_marshal_entry no_audit_faults 0 demo_moment demo_entry w1 dk1 = ((r2, w2), dk2)"
    by (cases "writer_Log demo_marshal_entry no_audit_faults 0 demo_moment demo_entry w1 dk1") auto
  have m: "demo_marshal_entry (demo_entry\<lparr>en_Time := t\<rparr>) = Inr ''bob''" for t
    by (simp add: demo_marshal_entry_def demo_entry_def)
  have "r2 = None \<and> (ReadScorecard demo_unmarshal_entry (\<lambda>_. []) ''log'' dk2 :: unit err + scorecard)
        = ReadScorecard demo_unmarshal_entry (\<lambda>_. []) ''log'' ?dk"
    using torn_write_swallows_next_entry [OF _ _ _ _ m m _ _ _ _ one two, of "''log''" "[]" demo_unmarshal_entry "\<lambda>_. []"]
    by (simp add: demo_unmarshal_entry_def)
  then show ?thesis using one two by blast
qed

text \<open>A rotation whose rename fails has already removed the old backup.\<close>

lemma failed_rotation_loses_backup:
  "flt AcRename = Some e \<Longrightarrow> flt AcRemove = None \<Longrightarrow> rotateLocked flt w dk = ((r, w'), dk') \<Longrightarrow>
   r \<noteq> None \<and> dk' (backup_path (fw_path w)) = None"
  by (auto simp: rotateLocked_def Let_def touch_def split: option.splits)

subsection \<open>Aggregation of entries in memory\<close>

definition audit_Filter :: "(entry \<Rightarrow> bool) option \<Rightarrow> entry list \<Rightarrow> entry list" where
  "audit_Filter predicate entries = (case predicate of None \<Rightarrow> entries | Some q \<Rightarrow> filter q entries)"

definition bump_named :: "string \<Rightarrow> (string \<rightharpoonup> int) \<Rightarrow> (string \<rightharpoonup> int)" where
  "bump_named k m = (if k \<noteq> '''' then bump k m else m)"

definition defaultTopResourcesLimit :: nat where "defaultTopResourcesLimit = 10"

text \<open>The order of \<open>sort.Slice\<close> here is total on the pairs, so \<open>arrange\<close> (what it makes of the map) is determined.\<close>

definition AggregateScorecard :: "((string \<rightharpoonup> int) \<Rightarrow> (string \<times> int) list) \<Rightarrow> entry list \<Rightarrow> scorecard" where
  "AggregateScorecard arrange entries =
     (let byActor = fold (\<lambda>e. bump_named (en_Actor e)) entries Map.empty;
          byAction = fold (\<lambda>e. bump_named (en_Action e)) entries Map.empty;
          freq = fold (\<lambda>e. bump_named (en_Resource e)) entries Map.empty;
          resCounts = arrange freq
      in \<lparr>sc_Total = int (length entries), sc_ByActor = byActor, sc_ByAction = byAction,
          sc_TopResources = map fst (take (min (length resCounts) defaultTopResourcesLimit) resCounts)\<rparr>)"

lemma fold_bump_named:
  "fold (\<lambda>e. bump_named (g e)) es m k =
     (if k \<noteq> '''' \<and> k \<in> g ` set es then Some ((case m k of None \<Rightarrow> 0 | Some n \<Rightarrow> n) + int (count_list (map g es) k)) else m k)"
  by (induction es arbitrary: m) (auto simp: bump_named_def bump_def split: option.splits)

text \<open>The two scorecards agree on named actors; the one of the file also counts entries without an actor.\<close>

lemma scorecards_agree_on_named:
  "a \<noteq> '''' \<Longrightarrow> sc_ByActor (AggregateScorecard arrange (map snd tes)) a = tl_ByActor (tally_of tes) a"
  by (auto simp: AggregateScorecard_def Let_def fold_bump_named tally_of_def tally_counts empty_tally_def image_image comp_def)

end
