(* ===== verification/Buildstamp.thy ===== *)
theory Buildstamp
  imports Go_Errors
begin

section \<open>platform/buildstamp: the identity of a binary\<close>

text \<open>
  \<open>src/go/platform/buildstamp/buildstamp.go\<close> and \<open>errors.go\<close>. The \<open>-ldflags\<close> variables and the embedded build
  information are arguments of \<open>Get\<close>. Stamp lines are ASCII (\<open>strings.Fields\<close> and \<open>strings.TrimSpace\<close> also
  know white space beyond ASCII).
\<close>

definition ErrMalformedStamp :: "'x err" where
  "ErrMalformedStamp = sentinel ''buildstamp.ErrMalformedStamp'' ''malformed build stamp''"
definition ErrUnknownCommit :: "'x err" where
  "ErrUnknownCommit = sentinel ''buildstamp.ErrUnknownCommit'' ''binary has no known commit''"
definition ErrCommitMismatch :: "'x err" where
  "ErrCommitMismatch = sentinel ''buildstamp.ErrCommitMismatch'' ''binary was built from an unexpected commit''"
definition ErrDirtyBuild :: "'x err" where
  "ErrDirtyBuild = sentinel ''buildstamp.ErrDirtyBuild'' ''binary was built from a dirty working tree''"
definition ErrDependencyUnclean :: "'x err" where
  "ErrDependencyUnclean = sentinel ''buildstamp.ErrDependencyUnclean'' ''dependency revision is not clean''"
definition ErrDependencyMissing :: "'x err" where
  "ErrDependencyMissing = sentinel ''buildstamp.ErrDependencyMissing'' ''build stamp does not record the dependency''"

definition Unknown :: string where "Unknown = ''unknown''"
definition trueValue :: string where "trueValue = ''true''"
definition dirtySuffix :: string where "dirtySuffix = ''-dirty''"
definition shortSHALen :: nat where "shortSHALen = 7"
definition fullSHALen :: nat where "fullSHALen = 40"

text \<open>The dash of the messages, in UTF-8.\<close>

definition dash :: string where "dash = '' '' @ [CHR 0xE2, CHR 0x80, CHR 0x94] @ '' ''"

text \<open>\<open>fullSHA.MatchString\<close>.\<close>

definition is_lower_hex :: "char \<Rightarrow> bool" where
  "is_lower_hex c \<longleftrightarrow> is_digit c \<or> 97 \<le> (of_char c :: nat) \<and> (of_char c :: nat) \<le> 102"

definition fullSHA :: "string \<Rightarrow> bool" where
  "fullSHA s \<longleftrightarrow> length s = fullSHALen \<and> list_all is_lower_hex s"

record stamp =
  bs_Name :: string
  bs_Version :: string
  bs_Commit :: string
  bs_Dirty :: bool
  bs_BuiltAt :: string
  bs_Module :: string
  bs_Deps :: "string \<rightharpoonup> string"

definition zero_stamp :: stamp where
  "zero_stamp = \<lparr>bs_Name = '''', bs_Version = '''', bs_Commit = '''', bs_Dirty = False, bs_BuiltAt = '''', bs_Module = '''', bs_Deps = Map.empty\<rparr>"

text \<open>The \<open>-ldflags\<close> variables.\<close>

record ldflags =
  ld_Version :: string
  ld_Commit :: string
  ld_Modified :: string
  ld_BuiltAt :: string

definition absorb_setting :: "ldflags \<Rightarrow> string \<times> string \<Rightarrow> stamp \<Rightarrow> stamp" where
  "absorb_setting ld kv s =
     (if fst kv = ''vcs.revision'' then (if bs_Commit s = '''' then s\<lparr>bs_Commit := snd kv\<rparr> else s)
      else if fst kv = ''vcs.time'' then (if bs_BuiltAt s = '''' then s\<lparr>bs_BuiltAt := snd kv\<rparr> else s)
      else if fst kv = ''vcs.modified'' then (if ld_Modified ld = '''' then s\<lparr>bs_Dirty := (snd kv = trueValue)\<rparr> else s)
      else s)"

definition fillFromBuildInfo :: "ldflags \<Rightarrow> (string \<times> (string \<times> string) list) option \<Rightarrow> stamp \<Rightarrow> stamp" where
  "fillFromBuildInfo ld bi s =
     (case bi of None \<Rightarrow> s | Some (path, settings) \<Rightarrow> fold (absorb_setting ld) settings (s\<lparr>bs_Module := path\<rparr>))"

definition stamp_Get :: "ldflags \<Rightarrow> (string \<times> (string \<times> string) list) option \<Rightarrow> string \<Rightarrow> (string \<rightharpoonup> string) \<Rightarrow> stamp" where
  "stamp_Get ld bi name deps =
     (let s = fillFromBuildInfo ld bi \<lparr>bs_Name = name, bs_Version = ld_Version ld, bs_Commit = ld_Commit ld,
          bs_Dirty = (ld_Modified ld = trueValue), bs_BuiltAt = ld_BuiltAt ld, bs_Module = '''', bs_Deps = deps\<rparr>
      in if bs_Commit s = '''' then s\<lparr>bs_Commit := Unknown\<rparr> else s)"

definition sorted_keys :: "(string \<rightharpoonup> string) \<Rightarrow> string list" where
  "sorted_keys m = sorted_list_of_set (dom m)"

definition stamp_String :: "stamp \<Rightarrow> string" where
  "stamp_String s = trim_space
     (bs_Name s
      @ (if bs_Version s \<noteq> '''' then '' '' @ bs_Version s else '''')
      @ '' commit='' @ bs_Commit s @ '' dirty='' @ (if bs_Dirty s then ''true'' else ''false'')
      @ (if bs_BuiltAt s \<noteq> '''' then '' built='' @ bs_BuiltAt s else '''')
      @ concat (map (\<lambda>k. '' '' @ k @ ''='' @ the (bs_Deps s k)) (sorted_keys (bs_Deps s))))"

definition stamp_Short :: "stamp \<Rightarrow> string" where
  "stamp_Short s =
     (let c = (if length (bs_Commit s) > shortSHALen then take shortSHALen (bs_Commit s) else bs_Commit s);
          c' = (if bs_Dirty s then c @ dirtySuffix else c)
      in if bs_Version s \<noteq> '''' then bs_Version s @ '' ('' @ c' @ '')'' else c')"

text \<open>\<open>strings.Fields\<close>.\<close>

fun split_spaces :: "string \<Rightarrow> string list" where
  "split_spaces [] = [[]]"
| "split_spaces (c # cs) =
     (if is_space c then [] # split_spaces cs
      else (case split_spaces cs of [] \<Rightarrow> [[c]] | w # ws \<Rightarrow> (c # w) # ws))"

definition fields :: "string \<Rightarrow> string list" where
  "fields s = filter (\<lambda>w. w \<noteq> '''') (split_spaces s)"

definition malformed :: "string \<Rightarrow> 'x err" where
  "malformed m = errorf (err_text (ErrMalformedStamp :: 'x err) @ m) [ErrMalformedStamp]"

definition absorb :: "string \<Rightarrow> string \<Rightarrow> stamp \<Rightarrow> 'x err + stamp" where
  "absorb key v s =
     (if key = ''commit'' then Inr (s\<lparr>bs_Commit := v\<rparr>)
      else if key = ''dirty'' then
        (if v = trueValue then Inr (s\<lparr>bs_Dirty := True\<rparr>)
         else if v = ''false'' then Inr (s\<lparr>bs_Dirty := False\<rparr>)
         else Inl (malformed ('': dirty must be true or false, got '' @ go_quote v)))
      else if key = ''built'' then Inr (s\<lparr>bs_BuiltAt := v\<rparr>)
      else Inr (s\<lparr>bs_Deps := (bs_Deps s)(key \<mapsto> v)\<rparr>))"

fun parse_fields :: "string list \<Rightarrow> stamp \<Rightarrow> string list \<Rightarrow> bool \<Rightarrow> 'x err + stamp \<times> string list" where
  "parse_fields [] s leading seenKV = Inr (s, leading)"
| "parse_fields (f # fs) s leading seenKV =
     (case str_cut (CHR ''='') f of (key, v, isKV) \<Rightarrow>
        if \<not> isKV then
          (if seenKV then Inl (malformed ('': unexpected bare word '' @ go_quote f @ '' after key=value fields''))
           else parse_fields fs s (leading @ [f]) seenKV)
        else (case absorb key v s of Inl e \<Rightarrow> Inl e | Inr s' \<Rightarrow> parse_fields fs s' leading True))"

definition ParseStamp :: "string \<Rightarrow> 'x err + stamp" where
  "ParseStamp line =
     (let fs = fields line in
      if fs = [] then Inl (malformed '': empty line'')
      else (case parse_fields fs zero_stamp [] False of
        Inl e \<Rightarrow> Inl e
      | Inr (s, leading) \<Rightarrow>
          if bs_Commit s = '''' then Inl (malformed '': no commit= field'')
          else let s1 = (if length leading > 0 then s\<lparr>bs_Name := leading ! 0\<rparr> else s)
            in Inr (if length leading > 1 then s1\<lparr>bs_Version := join_with '' '' (drop 1 leading)\<rparr> else s1)))"

definition checkDep :: "string \<Rightarrow> string \<Rightarrow> 'x err option" where
  "checkDep name v =
     (if v = '''' \<or> v = Unknown then
        Some (errorf (err_text (ErrDependencyUnclean :: 'x err) @ '': '' @ go_quote name @ '' has an unknown revision'' @ dash @ ''rebuild against a clean checkout'') [ErrDependencyUnclean])
      else if has_suffix v dirtySuffix then
        Some (errorf (err_text (ErrDependencyUnclean :: 'x err) @ '': '' @ go_quote name @ '' was dirty at build time ('' @ v @ '')'' @ dash
          @ ''a binary built against uncommitted changes is not reproducible'') [ErrDependencyUnclean])
      else None)"

fun check_deps :: "(string \<rightharpoonup> string) \<Rightarrow> string list \<Rightarrow> 'x err option" where
  "check_deps deps [] = None"
| "check_deps deps (k # ks) = (case checkDep k (the (deps k)) of Some e \<Rightarrow> Some e | None \<Rightarrow> check_deps deps ks)"

definition stamp_Matches :: "string \<Rightarrow> stamp \<Rightarrow> 'x err option" where
  "stamp_Matches expected s =
     (if \<not> fullSHA expected then Some (malformed ('': expected commit '' @ go_quote expected @ '' is not a full 40-character SHA''))
      else if bs_Commit s = '''' \<or> bs_Commit s = Unknown then Some (errorf (err_text (ErrUnknownCommit :: 'x err) @ dash @ ''rebuild from a git checkout'') [ErrUnknownCommit])
      else if \<not> fullSHA (bs_Commit s) then Some (malformed ('': binary commit '' @ go_quote (bs_Commit s) @ '' is not a full 40-character SHA''))
      else if bs_Commit s \<noteq> expected then
        Some (errorf (err_text (ErrCommitMismatch :: 'x err) @ '': built from '' @ bs_Commit s @ '', expected '' @ expected @ dash @ ''rebuild'') [ErrCommitMismatch])
      else if bs_Dirty s then Some (errorf (err_text (ErrDirtyBuild :: 'x err) @ dash @ ''rebuild from a clean checkout'') [ErrDirtyBuild])
      else check_deps (bs_Deps s) (sorted_keys (bs_Deps s)))"

fun RequireDeps :: "string list \<Rightarrow> stamp \<Rightarrow> 'x err option" where
  "RequireDeps [] s = None"
| "RequireDeps (name # names) s =
     (case bs_Deps s name of
        None \<Rightarrow> Some (errorf (err_text (ErrDependencyMissing :: 'x err) @ '': '' @ go_quote name @ dash @ ''build via the release script'') [ErrDependencyMissing])
      | Some v \<Rightarrow> (case checkDep name v of Some e \<Rightarrow> Some e | None \<Rightarrow> RequireDeps names s))"

subsection \<open>Fields\<close>

definition word :: "string \<Rightarrow> bool" where
  "word w \<longleftrightarrow> w \<noteq> '''' \<and> list_all (\<lambda>c. \<not> is_space c) w"

lemma split_spaces_not_Nil [simp]: "split_spaces s \<noteq> []"
  by (induction s) (auto split: list.splits)

lemma split_spaces_append: "is_space c \<Longrightarrow> split_spaces (a @ c # b) = split_spaces a @ split_spaces b"
  by (induction a) (auto split: list.splits)

lemma fields_append: "is_space c \<Longrightarrow> fields (a @ c # b) = fields a @ fields b"
  by (simp add: fields_def split_spaces_append)

lemma fields_Nil [simp]: "fields '''' = []"
  by (simp add: fields_def)

lemma fields_word [simp]: "word w \<Longrightarrow> fields w = [w]"
proof -
  have "list_all (\<lambda>c. \<not> is_space c) w \<Longrightarrow> split_spaces w = [w]" by (induction w) auto
  then show "word w \<Longrightarrow> ?thesis" by (simp add: fields_def word_def)
qed

lemma is_space_blank [simp]: "is_space (CHR '' '')"
  by (simp add: is_space_def)

lemma fields_blank: "fields (a @ '' '' @ b) = fields a @ fields b"
  by (simp add: fields_append)

lemma fields_trim: "fields (trim_space s) = fields s"
proof -
  have pre: "fields (a @ b) = fields b" if "list_all is_space a" for a b
    using that by (induction a) (use fields_append [of _ "[]"] in auto)
  have post: "fields (b @ a) = fields b" if "list_all is_space a" for a b
    using that by (induction a arbitrary: b rule: rev_induct) (use fields_append [of _ _ "[]"] in \<open>auto simp: append_assoc [symmetric] simp del: append_assoc\<close>)
  let ?t = "dropWhile is_space s"
  have "fields s = fields ?t"
    using pre [of "takeWhile is_space s" ?t] by (simp add: list_all_iff) (metis set_takeWhileD)
  moreover have "?t = trim_space s @ rev (takeWhile is_space (rev ?t))"
    by (simp add: trim_space_def) (metis rev_append rev_rev_ident takeWhile_dropWhile_id)
  moreover have "list_all is_space (rev (takeWhile is_space (rev ?t)))"
    by (auto simp: list_all_iff dest: set_takeWhileD)
  ultimately show ?thesis using post by metis
qed

lemma fields_join: "list_all word ws \<Longrightarrow> fields (join_with '' '' ws) = ws"
  by (induction "'' ''" ws rule: join_with.induct) (auto simp: fields_append)

subsection \<open>A stamp line reads back\<close>

text \<open>Stamps whose line is unambiguous.\<close>

definition bare :: "string \<Rightarrow> bool" where
  "bare w \<longleftrightarrow> word w \<and> CHR ''='' \<notin> set w"

definition plain :: "string \<Rightarrow> bool" where
  "plain v \<longleftrightarrow> list_all (\<lambda>c. \<not> is_space c) v"

definition stamp_ok :: "string list \<Rightarrow> stamp \<Rightarrow> bool" where
  "stamp_ok vs s \<longleftrightarrow> bare (bs_Name s) \<and> bs_Version s = join_with '' '' vs \<and> list_all bare vs
     \<and> word (bs_Commit s) \<and> plain (bs_BuiltAt s) \<and> bs_Module s = '''' \<and> finite (dom (bs_Deps s))
     \<and> (\<forall>k v. bs_Deps s k = Some v \<longrightarrow> plain k \<and> CHR ''='' \<notin> set k \<and> plain v \<and> k \<notin> {''commit'', ''dirty'', ''built''})"

lemma str_cut_kv: "CHR ''='' \<notin> set k \<Longrightarrow> str_cut (CHR ''='') (k @ CHR ''='' # v) = (k, v, True)"
  by (induction k) auto

lemma str_cut_bare: "CHR ''='' \<notin> set w \<Longrightarrow> \<exists>x y. str_cut (CHR ''='') w = (x, y, False)"
  by (induction w) auto

lemma parse_leading:
  "list_all bare ws \<Longrightarrow> (parse_fields (ws @ fs) s leading False :: 'x err + _) = parse_fields fs s (leading @ ws) False"
proof (induction ws arbitrary: leading)
  case (Cons w ws)
  then obtain x y where "str_cut (CHR ''='') w = (x, y, False)" using str_cut_bare [of w] by (auto simp: bare_def)
  then show ?case using Cons by simp
qed simp

lemma parse_kv: "CHR ''='' \<notin> set k \<Longrightarrow>
   (parse_fields ((k @ CHR ''='' # v) # fs) s leading b :: 'x err + _) = (case absorb k v s of Inl e \<Rightarrow> Inl e | Inr s' \<Rightarrow> parse_fields fs s' leading True)"
  by (simp add: str_cut_kv)

lemma parse_deps:
  assumes "\<forall>k \<in> set ks. CHR ''='' \<notin> set k \<and> k \<notin> {''commit'', ''dirty'', ''built''}"
  shows "parse_fields (map (\<lambda>k. k @ CHR ''='' # the (m k)) ks) s leading True =
    (Inr (s\<lparr>bs_Deps := (\<lambda>k. if k \<in> set ks then Some (the (m k)) else bs_Deps s k)\<rparr>, leading) :: 'x err + _)"
  using assms
proof (induction ks arbitrary: s)
  case (Cons k ks)
  have "(parse_fields (map (\<lambda>k. k @ CHR ''='' # the (m k)) (k # ks)) s leading True :: 'x err + _) =
      parse_fields (map (\<lambda>k. k @ CHR ''='' # the (m k)) ks) (s\<lparr>bs_Deps := (bs_Deps s)(k \<mapsto> the (m k))\<rparr>) leading True"
    using Cons.prems parse_kv [of k "the (m k)" "map (\<lambda>k. k @ CHR ''='' # the (m k)) ks" s leading True, where 'x = 'x] by (simp add: absorb_def)
  also have "\<dots> = Inr (s\<lparr>bs_Deps := (\<lambda>j. if j \<in> set ks then Some (the (m j)) else ((bs_Deps s)(k \<mapsto> the (m k))) j)\<rparr>, leading)"
    using Cons.IH [of "s\<lparr>bs_Deps := (bs_Deps s)(k \<mapsto> the (m k))\<rparr>"] Cons.prems by (simp del: fun_upd_apply cong: if_cong)
  also have "(\<lambda>j. if j \<in> set ks then Some (the (m j)) else ((bs_Deps s)(k \<mapsto> the (m k))) j)
      = (\<lambda>j. if j \<in> set (k # ks) then Some (the (m j)) else bs_Deps s j)" by auto
  finally show ?case .
qed simp

lemma fields_kv: "plain k \<Longrightarrow> plain v \<Longrightarrow> fields (k @ CHR ''='' # v) = [k @ CHR ''='' # v]"
  by (rule fields_word) (simp add: word_def plain_def is_space_def)

lemma fields_deps:
  "\<forall>k \<in> set ks. plain k \<and> plain (the (m k)) \<Longrightarrow>
   fields (a @ concat (map (\<lambda>k. '' '' @ k @ ''='' @ the (m k)) ks)) = fields a @ map (\<lambda>k. k @ CHR ''='' # the (m k)) ks"
proof (induction ks arbitrary: a)
  case (Cons k ks)
  have "fields (a @ concat (map (\<lambda>k. '' '' @ k @ ''='' @ the (m k)) (k # ks)))
      = fields ((a @ '' '' @ (k @ CHR ''='' # the (m k))) @ concat (map (\<lambda>k. '' '' @ k @ ''='' @ the (m k)) ks))" by simp
  also have "\<dots> = fields (a @ '' '' @ (k @ CHR ''='' # the (m k))) @ map (\<lambda>k. k @ CHR ''='' # the (m k)) ks"
    by (rule Cons.IH) (use Cons.prems in simp)
  finally show ?case using Cons.prems by (simp only: fields_blank fields_kv) (simp add: fields_kv)
qed simp

lemma fields_String:
  assumes ok: "stamp_ok vs s"
  shows "fields (stamp_String s) = [bs_Name s] @ vs @ [''commit='' @ bs_Commit s, ''dirty='' @ (if bs_Dirty s then ''true'' else ''false'')]
    @ (if bs_BuiltAt s = '''' then [] else [''built='' @ bs_BuiltAt s])
    @ map (\<lambda>k. k @ CHR ''='' # the (bs_Deps s k)) (sorted_keys (bs_Deps s))"
proof -
  let ?v = "if bs_Version s \<noteq> '''' then '' '' @ bs_Version s else ''''"
  let ?b = "if bs_BuiltAt s \<noteq> '''' then '' built='' @ bs_BuiltAt s else ''''"
  let ?d = "if bs_Dirty s then ''true'' else ''false''"
  have name: "word (bs_Name s)" and vs: "list_all word vs" and com: "plain (bs_Commit s)" and bt: "plain (bs_BuiltAt s)"
    using ok by (auto simp: stamp_ok_def bare_def word_def plain_def list_all_iff)
  have deps: "\<forall>k \<in> set (sorted_keys (bs_Deps s)). plain k \<and> plain (the (bs_Deps s k))"
    using ok by (auto simp: stamp_ok_def sorted_keys_def)
  have v: "fields (bs_Name s @ ?v) = bs_Name s # vs"
  proof (cases "bs_Version s = ''''")
    case True
    have "vs = []"
    proof (cases vs)
      case (Cons x xs)
      then have "x \<noteq> ''''" "join_with '' '' vs = ''''" using vs True ok by (auto simp: word_def stamp_ok_def)
      then show ?thesis using Cons by (cases xs) auto
    qed simp
    then show ?thesis using True name by simp
  next
    case False
    then show ?thesis using name fields_join [OF vs] ok fields_blank [of "bs_Name s" "bs_Version s"] by (simp add: stamp_ok_def)
  qed
  have cd: "plain ?d" "plain ''commit''" "plain ''dirty''" "plain ''built''" by (simp_all add: plain_def is_space_def)
  have c1: "fields (x @ '' commit='' @ bs_Commit s) = fields x @ [''commit='' @ bs_Commit s]" for x
    using fields_blank [of x "''commit='' @ bs_Commit s"] fields_kv [OF cd(2) com] by simp
  have c2: "fields (x @ '' dirty='' @ ?d) = fields x @ [''dirty='' @ ?d]" for x
    using fields_blank [of x "''dirty='' @ ?d"] fields_kv [OF cd(3,1)] by simp
  have c3: "fields (x @ ?b) = fields x @ (if bs_BuiltAt s = '''' then [] else [''built='' @ bs_BuiltAt s])" for x
    using fields_blank [of x "''built='' @ bs_BuiltAt s"] fields_kv [OF cd(4) bt] by simp
  have "fields (stamp_String s) = fields (((((bs_Name s @ ?v) @ '' commit='' @ bs_Commit s) @ '' dirty='' @ ?d) @ ?b)
      @ concat (map (\<lambda>k. '' '' @ k @ ''='' @ the (bs_Deps s k)) (sorted_keys (bs_Deps s))))"
    unfolding stamp_String_def fields_trim by (simp only: append_assoc)
  then show ?thesis unfolding fields_deps [OF deps] c3 c2 c1 v by simp
qed

lemma stamp_roundtrip_aux:
  assumes ok: "stamp_ok vs s"
  shows "(ParseStamp (stamp_String s) :: 'x err + stamp) = Inr s"
proof -
  let ?kv = "map (\<lambda>k. k @ CHR ''='' # the (bs_Deps s k)) (sorted_keys (bs_Deps s))"
  let ?d = "if bs_Dirty s then ''true'' else ''false''"
  let ?z = "zero_stamp\<lparr>bs_Commit := bs_Commit s, bs_Dirty := bs_Dirty s\<rparr>"
  let ?b = "if bs_BuiltAt s = '''' then [] else [''built='' @ bs_BuiltAt s]"
  have fin: "finite (dom (bs_Deps s))" and com: "bs_Commit s \<noteq> ''''" and lead: "list_all bare (bs_Name s # vs)"
    and ver: "bs_Version s = join_with '' '' vs" and mod0: "bs_Module s = ''''"
    using ok by (auto simp: stamp_ok_def word_def)
  have keys: "\<forall>k \<in> set (sorted_keys (bs_Deps s)). CHR ''='' \<notin> set k \<and> k \<notin> {''commit'', ''dirty'', ''built''}"
    using ok by (auto simp: stamp_ok_def sorted_keys_def)
  have deps: "(\<lambda>k. if k \<in> set (sorted_keys (bs_Deps s)) then Some (the (bs_Deps s k)) else None) = bs_Deps s"
    using fin by (auto simp: sorted_keys_def fun_eq_iff domIff)
  have built: "parse_fields (?b @ ?kv) ?z l True = (Inr (?z\<lparr>bs_BuiltAt := bs_BuiltAt s, bs_Deps := bs_Deps s\<rparr>, l) :: 'x err + _)" for l
    using parse_deps [OF keys, where 'x = 'x and m = "bs_Deps s" and leading = l] deps parse_kv [of "''built''" "bs_BuiltAt s" ?kv ?z l True, where 'x = 'x]
    by (simp add: absorb_def zero_stamp_def cong: if_cong)
  have "parse_fields ((''dirty='' @ ?d) # ?b @ ?kv) (zero_stamp\<lparr>bs_Commit := bs_Commit s\<rparr>) l True
      = (Inr (?z\<lparr>bs_BuiltAt := bs_BuiltAt s, bs_Deps := bs_Deps s\<rparr>, l) :: 'x err + _)" for l
    using parse_kv [of "''dirty''" ?d "?b @ ?kv" "zero_stamp\<lparr>bs_Commit := bs_Commit s\<rparr>" l True, where 'x = 'x] built [of l]
    by (cases "bs_Dirty s"; cases "bs_BuiltAt s = ''''") (simp_all add: absorb_def trueValue_def)
  then have kv: "parse_fields ((''commit='' @ bs_Commit s) # (''dirty='' @ ?d) # ?b @ ?kv) zero_stamp l False
      = (Inr (?z\<lparr>bs_BuiltAt := bs_BuiltAt s, bs_Deps := bs_Deps s\<rparr>, l) :: 'x err + _)" for l
    using parse_kv [of "''commit''" "bs_Commit s" "(''dirty='' @ ?d) # ?b @ ?kv" zero_stamp l False, where 'x = 'x]
    by (simp add: absorb_def)
  have "parse_fields (fields (stamp_String s)) zero_stamp [] False
      = (Inr (?z\<lparr>bs_BuiltAt := bs_BuiltAt s, bs_Deps := bs_Deps s\<rparr>, bs_Name s # vs) :: 'x err + _)"
    using parse_leading [OF lead, where 'x = 'x and s = zero_stamp and leading = "[]"] kv by (simp add: fields_String [OF ok])
  then show ?thesis
    using com ver mod0 by (cases vs) (auto simp: ParseStamp_def Let_def fields_String [OF ok] zero_stamp_def)
qed


lemma check_deps_Some: "check_deps m ks = Some e \<Longrightarrow> errors_Is e ''buildstamp.ErrDependencyUnclean''"
  by (induction ks) (auto simp: checkDep_def ErrDependencyUnclean_def split: if_splits)

text \<open>The revisions \<open>checkDep\<close> accepts.\<close>

definition clean_rev :: "string \<Rightarrow> bool" where
  "clean_rev v \<longleftrightarrow> v \<noteq> '''' \<and> v \<noteq> Unknown \<and> \<not> has_suffix v dirtySuffix"

lemma checkDep_None: "checkDep k v = None \<longleftrightarrow> clean_rev v"
  by (simp add: checkDep_def clean_rev_def)

lemma check_deps_None: "check_deps m ks = None \<longleftrightarrow> (\<forall>k \<in> set ks. clean_rev (the (m k)))"
  by (induction ks) (auto simp: checkDep_def clean_rev_def)

lemma fullSHA_known: "fullSHA c \<Longrightarrow> c \<noteq> '''' \<and> c \<noteq> Unknown"
  by (auto simp: fullSHA_def fullSHALen_def Unknown_def)

lemma matches_exact:
  assumes "finite (dom (bs_Deps s))"
  shows "(stamp_Matches expected s :: 'x err option) = None \<longleftrightarrow>
    fullSHA expected \<and> bs_Commit s = expected \<and> \<not> bs_Dirty s \<and> (\<forall>k v. bs_Deps s k = Some v \<longrightarrow> clean_rev v)"
proof -
  have "(check_deps (bs_Deps s) (sorted_keys (bs_Deps s)) :: 'x err option) = None \<longleftrightarrow> (\<forall>k v. bs_Deps s k = Some v \<longrightarrow> clean_rev v)"
    using assms by (auto simp: check_deps_None sorted_keys_def) (metis domI option.sel)
  then show ?thesis using fullSHA_known by (auto simp: stamp_Matches_def)
qed

lemma RequireDeps_None:
  "(RequireDeps names s :: 'x err option) = None \<longleftrightarrow> (\<forall>n \<in> set names. \<exists>v. bs_Deps s n = Some v \<and> clean_rev v)"
  by (induction names) (auto simp: checkDep_def clean_rev_def split: option.splits)

lemma fullSHA_replicate: "is_lower_hex c \<Longrightarrow> fullSHA (replicate 40 c)"
  by (simp add: fullSHA_def fullSHALen_def list_all_iff)

lemma fullSHA_plain: "fullSHA c \<Longrightarrow> plain c"
  by (auto simp: fullSHA_def plain_def list_all_iff is_lower_hex_def is_digit_def is_space_def)

lemma plain_words [simp]: "plain ''commit''" "plain ''dirty''" "plain ''built''" "plain ''true''" "plain ''false''"
  by (simp_all add: plain_def is_space_def)

definition spoofed :: "string \<Rightarrow> string \<Rightarrow> string \<Rightarrow> stamp" where
  "spoofed name commit dep = zero_stamp\<lparr>bs_Name := name, bs_Commit := commit, bs_Deps := [''commit'' \<mapsto> dep]\<rparr>"

lemma fields_spoofed:
  assumes "bare name" "plain c" "plain d"
  shows "fields (stamp_String (spoofed name c d)) = [name, ''commit='' @ c, ''dirty=false'', ''commit='' @ d]"
proof -
  have "stamp_String (spoofed name c d) = trim_space (name @ '' '' @ (''commit='' @ c) @ '' '' @ ''dirty=false'' @ '' '' @ (''commit='' @ d))"
    by (simp add: stamp_String_def spoofed_def zero_stamp_def sorted_keys_def)
  then show ?thesis
    using assms fields_kv [of "''commit''" c] fields_kv [of "''commit''" d] fields_kv [of "''dirty''" "''false''"]
    by (simp only: fields_trim fields_blank) (simp add: bare_def)
qed

lemma parse_spoofed:
  assumes "bare name" "plain c" "plain d" "d \<noteq> ''''"
  shows "(ParseStamp (stamp_String (spoofed name c d)) :: 'x err + stamp) = Inr (zero_stamp\<lparr>bs_Name := name, bs_Commit := d\<rparr>)"
proof -
  have "parse_fields [name, ''commit='' @ c, ''dirty=false'', ''commit='' @ d] zero_stamp [] False
      = (Inr (zero_stamp\<lparr>bs_Commit := d\<rparr>, [name]) :: 'x err + _)"
    using assms parse_leading [of "[name]" _ zero_stamp "[]", where 'x = 'x]
    by (simp add: absorb_def trueValue_def zero_stamp_def)
  then show ?thesis using assms by (simp add: ParseStamp_def fields_spoofed)
qed

subsection \<open>Properties\<close>

text \<open>A stamp printed by \<open>String\<close> reads back by \<open>ParseStamp\<close> as the same stamp, dependency revisions included, whenever
  its words hold no white space, its name and version words and dependency names hold no \<open>=\<close>, and no dependency
  is called commit, dirty or built.\<close>
theorem stamp_roundtrip:
  assumes "stamp_ok vs s"
  shows "(ParseStamp (stamp_String s) :: 'x err + stamp) = Inr s"
  using assms by (rule stamp_roundtrip_aux)

theorem stamp_roundtrip_witness:
  "(ParseStamp (stamp_String (zero_stamp\<lparr>bs_Name := ''tool'', bs_Version := ''1.4.0'', bs_Commit := ''abc'', bs_Deps := [''lib'' \<mapsto> ''def'']\<rparr>)) :: 'x err + stamp)
     = Inr (zero_stamp\<lparr>bs_Name := ''tool'', bs_Version := ''1.4.0'', bs_Commit := ''abc'', bs_Deps := [''lib'' \<mapsto> ''def'']\<rparr>)"
  by (rule stamp_roundtrip [of "[''1.4.0'']"])
    (auto simp: stamp_ok_def zero_stamp_def bare_def word_def plain_def is_space_def split: if_splits)

text \<open>\<open>Matches\<close> accepts a stamp exactly when the expected commit is a full SHA, the stamp names that very commit, the tree
  was clean and every recorded dependency revision is a clean one; and a stamp it accepts for one commit it
  refuses for every other.\<close>
theorem matches_exactly_clean_commit:
  assumes "finite (dom (bs_Deps s))"
  shows "((stamp_Matches expected s :: 'x err option) = None \<longleftrightarrow>
      fullSHA expected \<and> bs_Commit s = expected \<and> \<not> bs_Dirty s \<and> (\<forall>v \<in> ran (bs_Deps s). clean_rev v))
    \<and> ((stamp_Matches expected s :: 'x err option) = None \<and> (stamp_Matches other s :: 'x err option) = None \<longrightarrow> other = expected)"
  using matches_exact [OF assms, where 'x = 'x] by (auto simp: ran_def)

theorem matches_exactly_clean_commit_witness:
  "(stamp_Matches (replicate 40 CHR ''a'') (zero_stamp\<lparr>bs_Commit := replicate 40 CHR ''a'', bs_Deps := [''lib'' \<mapsto> ''def'']\<rparr>) :: unit err option) = None"
  using matches_exactly_clean_commit [of "zero_stamp\<lparr>bs_Commit := replicate 40 CHR ''a'', bs_Deps := [''lib'' \<mapsto> ''def'']\<rparr>" "replicate 40 CHR ''a''" "[]", where 'x = unit]
  by (simp add: fullSHA_replicate is_lower_hex_def clean_rev_def Unknown_def dirtySuffix_def has_suffix_def suffix_to_prefix zero_stamp_def)


text \<open>A dependency named \<open>commit\<close> overrides the commit of the binary in the printed line: \<open>Matches\<close> refuses the stamp
  itself, built from another commit than the expected one, but reading its printed line back gives a stamp whose
  commit is the dependency's revision and that no longer records the dependency, and \<open>Matches\<close> accepts that one.\<close>
theorem dep_named_commit_spoofs_commit:
  assumes "bare name" "fullSHA bad" "fullSHA good" "bad \<noteq> good"
  shows "(\<exists>e :: 'x err. stamp_Matches good (spoofed name bad good) = Some e \<and> errors_Is e ''buildstamp.ErrCommitMismatch'')
    \<and> (\<exists>s. (ParseStamp (stamp_String (spoofed name bad good)) :: 'x err + stamp) = Inr s
         \<and> bs_Commit s = good \<and> bs_Deps s = Map.empty \<and> (stamp_Matches good s :: 'x err option) = None)"
proof -
  have "(ParseStamp (stamp_String (spoofed name bad good)) :: 'x err + stamp) = Inr (zero_stamp\<lparr>bs_Name := name, bs_Commit := good\<rparr>)"
    using assms fullSHA_plain fullSHA_known by (simp add: parse_spoofed)
  moreover have "(stamp_Matches good (zero_stamp\<lparr>bs_Name := name, bs_Commit := good\<rparr>) :: 'x err option) = None"
    using assms by (simp add: matches_exact zero_stamp_def)
  moreover have "\<exists>e :: 'x err. stamp_Matches good (spoofed name bad good) = Some e \<and> errors_Is e ''buildstamp.ErrCommitMismatch''"
    using assms fullSHA_known [of bad] by (simp add: stamp_Matches_def spoofed_def ErrCommitMismatch_def)
  ultimately show ?thesis by (simp add: zero_stamp_def)
qed

theorem dep_named_commit_spoofs_commit_witness:
  "\<exists>s. (ParseStamp (stamp_String (spoofed ''tool'' (replicate 40 CHR ''b'') (replicate 40 CHR ''a''))) :: unit err + stamp) = Inr s
     \<and> bs_Commit s = replicate 40 CHR ''a''"
  using dep_named_commit_spoofs_commit [of "''tool''" "replicate 40 CHR ''b''" "replicate 40 CHR ''a''", where 'x = unit]
  by (auto simp: bare_def word_def is_space_def fullSHA_replicate is_lower_hex_def replicate_eq_replicate)

end
