(* ===== verification/Sheets_Table.thy ===== *)
theory Sheets_Table
  imports Go_Errors Go_Float
begin

section \<open>google/workspace/sheets: cells and tables\<close>

text \<open>
  \<open>src/go/google/workspace/sheets/types.go\<close> (cells, constraints, tables) and \<open>table.go\<close>. A Go \<open>any\<close> is a
  datatype with the dynamic types the code tells apart; \<open>AnyOther\<close> holds the rest. How \<open>fmt\<close> and \<open>time\<close> print
  floats, times and other values is a parameter (\<open>printing\<close>). \<open>reflect\<close> is modelled by the shape of a type
  (\<open>go_type\<close>) and of a field value (\<open>field_value\<close>). A nil map is an empty one.
\<close>

datatype go_int = GInt | GInt8 | GInt16 | GInt32 | GInt64 | GUint | GUint8 | GUint16 | GUint32 | GUint64

datatype go_float = GFloat32 | GFloat64

datatype 'o any_value = AnyNil | AnyStr string | AnyInt go_int int | AnyFloat go_float float64 | AnyBool bool
  | AnyTime int | AnyCell "'o any_value" bool string | AnyOther 'o

record 'o printing =
  pr_float :: "float64 \<Rightarrow> string"
  pr_time :: "int \<Rightarrow> string"
  pr_format :: "string \<Rightarrow> int \<Rightarrow> string"
  pr_other :: "'o \<Rightarrow> string"
  pr_stringer :: "'o \<Rightarrow> string option"

definition show_bool :: "bool \<Rightarrow> string" where
  "show_bool b = (if b then ''true'' else ''false'')"

text \<open>\<open>fmt.Sprint\<close>.\<close>

fun go_sprint :: "'o printing \<Rightarrow> 'o any_value \<Rightarrow> string" where
  "go_sprint p AnyNil = ''<nil>''"
| "go_sprint p (AnyStr s) = s"
| "go_sprint p (AnyInt k i) = show_int i"
| "go_sprint p (AnyFloat k x) = pr_float p x"
| "go_sprint p (AnyBool b) = show_bool b"
| "go_sprint p (AnyTime t) = pr_time p t"
| "go_sprint p (AnyCell v f l) = ''{'' @ go_sprint p v @ '' '' @ show_bool f @ '' '' @ l @ ''}''"
| "go_sprint p (AnyOther x) = pr_other p x"

subsection \<open>types.go\<close>

definition ErrNilType :: "'x err" where
  "ErrNilType = sentinel ''sheets.ErrNilType'' ''sheets: nil type passed to FromStructs''"
definition ErrInvalidStructSlice :: "'x err" where
  "ErrInvalidStructSlice = sentinel ''sheets.ErrInvalidStructSlice'' ''sheets: FromStructs expects a slice of structs or struct pointers''"

record 'o cell =
  RawVal :: "'o any_value"
  IsFormula :: bool
  LinkURL :: string

definition plain_cell :: "'o any_value \<Rightarrow> 'o cell" where
  "plain_cell v = \<lparr>RawVal = v, IsFormula = False, LinkURL = ''''\<rparr>"

definition Text :: "'o printing \<Rightarrow> 'o any_value \<Rightarrow> 'o cell" where
  "Text p v = (if v = AnyNil then plain_cell (AnyStr '''') else plain_cell (AnyStr (go_sprint p v)))"

definition Formula :: "string \<Rightarrow> 'o cell" where
  "Formula f = \<lparr>RawVal = AnyStr f, IsFormula = True, LinkURL = ''''\<rparr>"

definition Hyperlink :: "string \<Rightarrow> string \<Rightarrow> 'o cell" where
  "Hyperlink url label =
     \<lparr>RawVal = AnyStr (if label = '''' then url else label), IsFormula = False, LinkURL = url\<rparr>"

definition Number :: "'o any_value \<Rightarrow> 'o cell" where
  "Number v = plain_cell v"

definition Bool :: "bool \<Rightarrow> 'o cell" where
  "Bool b = plain_cell (AnyBool b)"

text \<open>The layout of \<open>time.RFC3339\<close>.\<close>

definition RFC3339 :: string where "RFC3339 = ''2006-01-02T15:04:05Z07:00''"

definition Time_cell :: "'o printing \<Rightarrow> int \<Rightarrow> string list \<Rightarrow> 'o cell" where
  "Time_cell p t layout =
     plain_cell (AnyStr (pr_format p (case layout of [] \<Rightarrow> RFC3339 | l # _ \<Rightarrow> if l \<noteq> '''' then l else RFC3339) t))"

record column_constraint =
  cc_Width :: int
  cc_MinWidth :: int
  cc_MaxWidth :: int

definition zero_constraint :: column_constraint where
  "zero_constraint = \<lparr>cc_Width = 0, cc_MinWidth = 0, cc_MaxWidth = 0\<rparr>"

record 'o table =
  Headers :: "string list"
  Rows :: "'o cell list list"
  ColumnWidths :: "int \<rightharpoonup> int"
  ColumnConstraints :: "int \<rightharpoonup> column_constraint"

text \<open>Reading a Go map gives the zero value for a missing key.\<close>

definition width_at :: "(int \<rightharpoonup> int) \<Rightarrow> int \<Rightarrow> int" where
  "width_at m i = (case m i of None \<Rightarrow> 0 | Some w \<Rightarrow> w)"

definition constraint_at :: "(int \<rightharpoonup> column_constraint) \<Rightarrow> int \<Rightarrow> column_constraint" where
  "constraint_at m i = (case m i of None \<Rightarrow> zero_constraint | Some c \<Rightarrow> c)"

subsection \<open>table.go: building tables\<close>

definition NewTable :: "string list \<Rightarrow> 'o table" where
  "NewTable hs = \<lparr>Headers = hs, Rows = [], ColumnWidths = Map.empty, ColumnConstraints = Map.empty\<rparr>"

definition AddRow :: "'o cell list \<Rightarrow> 'o table \<Rightarrow> 'o table" where
  "AddRow cs t = t\<lparr>Rows := Rows t @ [cs]\<rparr>"

fun numericToCell :: "'o any_value \<Rightarrow> 'o cell option" where
  "numericToCell (AnyInt k i) = Some (Number (AnyInt (if k \<in> {GInt, GInt8, GInt16, GInt32, GInt64} then GInt64 else GUint64) i))"
| "numericToCell (AnyFloat k x) = Some (Number (AnyFloat GFloat64 x))"
| "numericToCell _ = None"

definition valueToCell :: "'o printing \<Rightarrow> 'o any_value \<Rightarrow> bool \<Rightarrow> 'o cell" where
  "valueToCell p v forceFormula =
     (if v = AnyNil then plain_cell (AnyStr '''')
      else (case v of AnyCell r f l \<Rightarrow> \<lparr>RawVal = r, IsFormula = f, LinkURL = l\<rparr>
        | _ \<Rightarrow>
          if forceFormula then Formula (go_sprint p v)
          else (case numericToCell v of Some c \<Rightarrow> c
            | None \<Rightarrow> (case v of
                AnyStr s \<Rightarrow> Text p (AnyStr s)
              | AnyBool b \<Rightarrow> Bool b
              | AnyTime t \<Rightarrow> Time_cell p t []
              | AnyOther x \<Rightarrow> (case pr_stringer p x of Some s \<Rightarrow> Text p (AnyStr s) | None \<Rightarrow> Text p (AnyStr (go_sprint p v)))
              | _ \<Rightarrow> Text p (AnyStr (go_sprint p v))))))"

definition AddRowValues :: "'o printing \<Rightarrow> 'o any_value list \<Rightarrow> 'o table \<Rightarrow> 'o table" where
  "AddRowValues p vs t = t\<lparr>Rows := Rows t @ [map (\<lambda>v. valueToCell p v False) vs]\<rparr>"

definition SetColumnWidth :: "int \<Rightarrow> int \<Rightarrow> 'o table \<Rightarrow> 'o table" where
  "SetColumnWidth i w t = t\<lparr>ColumnWidths := (ColumnWidths t)(i \<mapsto> w),
     ColumnConstraints := (ColumnConstraints t)(i \<mapsto> (constraint_at (ColumnConstraints t) i)\<lparr>cc_Width := w\<rparr>)\<rparr>"

text \<open>The index of the first header that satisfies a test.\<close>

fun header_index :: "(string \<Rightarrow> bool) \<Rightarrow> int \<Rightarrow> string list \<Rightarrow> int option" where
  "header_index P i [] = None"
| "header_index P i (h # hs) = (if P h then Some i else header_index P (i + 1) hs)"

definition SetColumnWidthByName :: "(string \<Rightarrow> string \<Rightarrow> bool) \<Rightarrow> string \<Rightarrow> int \<Rightarrow> 'o table \<Rightarrow> 'o table" where
  "SetColumnWidthByName equalFold header w t =
     (case header_index (\<lambda>h. equalFold h header) 0 (Headers t) of Some i \<Rightarrow> SetColumnWidth i w t | None \<Rightarrow> t)"

definition SetColumnBounds :: "int \<Rightarrow> int \<Rightarrow> int \<Rightarrow> 'o table \<Rightarrow> 'o table" where
  "SetColumnBounds i minW maxW t =
     (let c = constraint_at (ColumnConstraints t) i;
          c1 = (if minW > 0 then c\<lparr>cc_MinWidth := minW\<rparr> else c);
          c2 = (if maxW > 0 then c1\<lparr>cc_MaxWidth := maxW\<rparr> else c1)
      in t\<lparr>ColumnConstraints := (ColumnConstraints t)(i \<mapsto> c2)\<rparr>)"

definition SetColumnBoundsByName :: "(string \<Rightarrow> string \<Rightarrow> bool) \<Rightarrow> string \<Rightarrow> int \<Rightarrow> int \<Rightarrow> 'o table \<Rightarrow> 'o table" where
  "SetColumnBoundsByName equalFold header minW maxW t =
     (case header_index (\<lambda>h. equalFold h header) 0 (Headers t) of Some i \<Rightarrow> SetColumnBounds i minW maxW t | None \<Rightarrow> t)"

definition SetColumnMaxWidthByName :: "(string \<Rightarrow> string \<Rightarrow> bool) \<Rightarrow> string \<Rightarrow> int \<Rightarrow> 'o table \<Rightarrow> 'o table" where
  "SetColumnMaxWidthByName equalFold header maxW t = SetColumnBoundsByName equalFold header 0 maxW t"

definition SetColumnMinWidthByName :: "(string \<Rightarrow> string \<Rightarrow> bool) \<Rightarrow> string \<Rightarrow> int \<Rightarrow> 'o table \<Rightarrow> 'o table" where
  "SetColumnMinWidthByName equalFold header minW t = SetColumnBoundsByName equalFold header minW 0 t"

definition table_RowCount :: "'o table \<Rightarrow> nat" where
  "table_RowCount t = length (Rows t)"

definition table_ColCount :: "'o table \<Rightarrow> nat" where
  "table_ColCount t = fold (\<lambda>r m. if length r > m then length r else m) (Rows t) (length (Headers t))"

subsection \<open>table.go: tables from structs\<close>

record struct_field_spec =
  sf_fieldIndex :: nat
  sf_header :: string
  sf_width :: int
  sf_minWidth :: int
  sf_maxWidth :: int
  sf_isFormula :: bool

record go_field =
  gf_Name :: string
  gf_Exported :: bool
  gf_Tag :: string

text \<open>What \<open>reflect\<close> says of a type: the type of a nil interface, a pointer, a struct, or the name of another kind.\<close>

datatype go_type = TNil | TPointer go_type | TStruct "go_field list" | TOther string

text \<open>A field as a \<open>reflect.Value\<close>: invalid, a nil pointer or interface, one that points on, or a plain value.\<close>

datatype 'o field_value = FvInvalid | FvNil | FvElem "'o field_value" | FvVal "'o any_value"

fun cutAnyPrefix :: "string \<Rightarrow> string list \<Rightarrow> string option" where
  "cutAnyPrefix s [] = None"
| "cutAnyPrefix s (p # ps) = (if has_prefix s p then Some (drop (length p) s) else cutAnyPrefix s ps)"

definition parseTagOption :: "string \<Rightarrow> struct_field_spec \<Rightarrow> struct_field_spec" where
  "parseTagOption opt spec =
     (if opt = ''formula'' then spec\<lparr>sf_isFormula := True\<rparr>
      else (case cutAnyPrefix opt [''width=''] of
        Some rest \<Rightarrow> (case parse_int64 rest of Some w \<Rightarrow> spec\<lparr>sf_width := w\<rparr> | None \<Rightarrow> spec)
      | None \<Rightarrow> (case cutAnyPrefix opt [''maxWidth='', ''max=''] of
          Some rest \<Rightarrow> (case parse_int64 rest of Some w \<Rightarrow> spec\<lparr>sf_maxWidth := w\<rparr> | None \<Rightarrow> spec)
        | None \<Rightarrow> (case cutAnyPrefix opt [''minWidth='', ''min=''] of
            Some rest \<Rightarrow> (case parse_int64 rest of Some w \<Rightarrow> spec\<lparr>sf_minWidth := w\<rparr> | None \<Rightarrow> spec)
          | None \<Rightarrow> spec))))"

definition parseFieldTag :: "nat \<Rightarrow> string \<Rightarrow> string \<Rightarrow> struct_field_spec" where
  "parseFieldTag i defaultName tag =
     (let spec = \<lparr>sf_fieldIndex = i, sf_header = defaultName, sf_width = 0, sf_minWidth = 0, sf_maxWidth = 0, sf_isFormula = False\<rparr> in
      if tag = '''' then spec
      else let parts = split_on (CHR '','') tag;
               spec1 = (if hd parts \<noteq> '''' then spec\<lparr>sf_header := trim_space (hd parts)\<rparr> else spec)
        in fold (\<lambda>opt. parseTagOption (trim_space opt)) (tl parts) spec1)"

fun parse_fields_from :: "nat \<Rightarrow> go_field list \<Rightarrow> struct_field_spec list" where
  "parse_fields_from i [] = []"
| "parse_fields_from i (f # fs) =
     (if \<not> gf_Exported f \<or> gf_Tag f = ''-'' then parse_fields_from (Suc i) fs
      else parseFieldTag i (gf_Name f) (gf_Tag f) # parse_fields_from (Suc i) fs)"

definition parseStructFields :: "go_field list \<Rightarrow> struct_field_spec list" where
  "parseStructFields fs = parse_fields_from 0 fs"

fun fieldValueToCell :: "'o printing \<Rightarrow> 'o field_value \<Rightarrow> bool \<Rightarrow> 'o cell" where
  "fieldValueToCell p FvInvalid f = plain_cell (AnyStr '''')"
| "fieldValueToCell p FvNil f = plain_cell (AnyStr '''')"
| "fieldValueToCell p (FvElem v) f = fieldValueToCell p v f"
| "fieldValueToCell p (FvVal v) f = valueToCell p v f"

definition spec_constraint :: "struct_field_spec \<Rightarrow> column_constraint" where
  "spec_constraint s = \<lparr>cc_Width = sf_width s, cc_MinWidth = sf_minWidth s, cc_MaxWidth = sf_maxWidth s\<rparr>"

fun spec_widths :: "int \<Rightarrow> struct_field_spec list \<Rightarrow> (int \<rightharpoonup> int) \<Rightarrow> (int \<rightharpoonup> int)" where
  "spec_widths i [] m = m"
| "spec_widths i (s # ss) m = spec_widths (i + 1) ss (if sf_width s > 0 then m(i \<mapsto> sf_width s) else m)"

fun spec_constraints :: "int \<Rightarrow> struct_field_spec list \<Rightarrow> (int \<rightharpoonup> column_constraint) \<Rightarrow> (int \<rightharpoonup> column_constraint)" where
  "spec_constraints i [] m = m"
| "spec_constraints i (s # ss) m = spec_constraints (i + 1) ss
     (if sf_width s > 0 \<or> sf_minWidth s > 0 \<or> sf_maxWidth s > 0 then m(i \<mapsto> spec_constraint s) else m)"

text \<open>An item is the list of its field values; a nil pointer is None and is skipped.\<close>

definition struct_row :: "'o printing \<Rightarrow> struct_field_spec list \<Rightarrow> 'o field_value list \<Rightarrow> 'o cell list" where
  "struct_row p specs fs = map (\<lambda>s. fieldValueToCell p (fs ! sf_fieldIndex s) (sf_isFormula s)) specs"

definition struct_rows :: "'o printing \<Rightarrow> struct_field_spec list \<Rightarrow> 'o field_value list option list \<Rightarrow> 'o cell list list" where
  "struct_rows p specs items = List.map_filter (map_option (struct_row p specs)) items"

fun kind_name :: "go_type \<Rightarrow> string" where
  "kind_name TNil = ''invalid''"
| "kind_name (TPointer t) = ''ptr''"
| "kind_name (TStruct fs) = ''struct''"
| "kind_name (TOther k) = k"

definition FromStructs :: "'o printing \<Rightarrow> go_type \<Rightarrow> 'o field_value list option list \<Rightarrow> 'x err + 'o table" where
  "FromStructs p ty items =
     (if ty = TNil then Inl ErrNilType
      else let t = (case ty of TPointer u \<Rightarrow> u | _ \<Rightarrow> ty) in
        (case t of
           TStruct fs \<Rightarrow> (let specs = parseStructFields fs in
             Inr \<lparr>Headers = map sf_header specs, Rows = struct_rows p specs items,
                  ColumnWidths = spec_widths 0 specs Map.empty, ColumnConstraints = spec_constraints 0 specs Map.empty\<rparr>)
         | _ \<Rightarrow> Inl (errorf (err_text (ErrInvalidStructSlice :: 'x err) @ '': got '' @ kind_name t) [ErrInvalidStructSlice])))"

subsection \<open>Lemmas\<close>

lemma plain_cell_sel [simp]: "IsFormula (plain_cell v) = False" "RawVal (plain_cell v) = v" "LinkURL (plain_cell v) = ''''"
  by (simp_all add: plain_cell_def)

lemma ColCount_bounds:
  "length (Headers t) \<le> table_ColCount t" "r \<in> set (Rows t) \<Longrightarrow> length r \<le> table_ColCount t"
proof -
  have "m \<le> fold (\<lambda>r m. if length r > m then length r else m) rs m
      \<and> (\<forall>r \<in> set rs. length r \<le> fold (\<lambda>r m. if length r > m then length r else m) rs m)" for rs :: "'a cell list list" and m
    by (induction rs arbitrary: m) (auto intro: le_trans less_imp_le, meson not_less le_trans)
  then show "length (Headers t) \<le> table_ColCount t" "r \<in> set (Rows t) \<Longrightarrow> length r \<le> table_ColCount t"
    by (simp_all add: table_ColCount_def)
qed

lemma ColCount_nth: "i < length (Rows t) \<Longrightarrow> length (Rows t ! i) \<le> table_ColCount t"
  by (simp add: ColCount_bounds)

text \<open>A value that is not itself a cell never becomes a formula unless the formula tag forces it.\<close>

lemma valueToCell_formula: "IsFormula (valueToCell p v f) \<longleftrightarrow> (case v of AnyCell r g l \<Rightarrow> g | AnyNil \<Rightarrow> False | _ \<Rightarrow> f)"
  by (auto simp: valueToCell_def Formula_def Text_def Bool_def Time_cell_def Number_def split: any_value.splits option.splits)

lemma header_index_Some:
  "header_index P i hs = Some j \<longleftrightarrow> (\<exists>k < length hs. j = i + int k \<and> P (hs ! k) \<and> (\<forall>m < k. \<not> P (hs ! m)))"
proof (induction hs arbitrary: i)
  case (Cons h hs)
  show ?case
  proof (cases "P h")
    case True
    then show ?thesis by (auto intro: exI [of _ 0]) (metis gr0I nth_Cons_0)
  next
    case False
    have "(\<exists>k < length (h # hs). j = i + int k \<and> P ((h # hs) ! k) \<and> (\<forall>m < k. \<not> P ((h # hs) ! m)))
        \<longleftrightarrow> (\<exists>k < length hs. j = i + 1 + int k \<and> P (hs ! k) \<and> (\<forall>m < k. \<not> P (hs ! m)))" (is "?L \<longleftrightarrow> ?R")
    proof
      assume ?L
      then obtain k where k: "k < length (h # hs)" "j = i + int k" "P ((h # hs) ! k)" "\<forall>m < k. \<not> P ((h # hs) ! m)" by blast
      then obtain k' where "k = Suc k'" using False by (cases k) auto
      then show ?R using k by (auto intro!: exI [of _ k'])
    next
      assume ?R
      then obtain k where k: "k < length hs" "j = i + 1 + int k" "P (hs ! k)" "\<forall>m < k. \<not> P (hs ! m)" by blast
      then show ?L using False by (auto intro!: exI [of _ "Suc k"] simp: nth_Cons split: nat.splits)
    qed
    then show ?thesis using False Cons by simp
  qed
qed simp

end
