(* ===== verification/Sheets_Batches.thy ===== *)
theory Sheets_Batches
  imports Sheets_Table
begin

section \<open>google/workspace/sheets: value updates\<close>

text \<open>
  \<open>src/go/google/workspace/sheets/batch_writer.go\<close>: how a table becomes value updates in A1 notation, literals as
  RAW and formulas as USER_ENTERED. The second part reads the ranges back and says which cell of the tab each update
  writes, so that the theorems speak of the grid and not of the batches.
\<close>

definition InputOptionRaw :: string where "InputOptionRaw = ''RAW''"
definition InputOptionUserEntered :: string where "InputOptionUserEntered = ''USER_ENTERED''"

record 'o value_update_batch =
  vb_Range :: string
  vb_Option :: string
  vb_Values :: "'o any_value list list"

definition column_letter :: "nat \<Rightarrow> char" where
  "column_letter r = char_of (65 + r)"

fun a1_loop :: "nat \<Rightarrow> string \<Rightarrow> string" where
  "a1_loop colIdx res =
     (let res' = column_letter (colIdx mod 26) # res in
      if colIdx div 26 = 0 then res' else a1_loop (colIdx div 26 - 1) res')"

definition ColIndexToA1 :: "int \<Rightarrow> string" where
  "ColIndexToA1 colIdx = (if colIdx < 0 then ''A'' else a1_loop (nat colIdx) '''')"

text \<open>The single quote.\<close>

definition quo :: char where "quo = CHR 0x27"

definition EscapeSheetTitle :: "string \<Rightarrow> string" where
  "EscapeSheetTitle title = [quo] @ concat (map (\<lambda>c. if c = quo then [quo, quo] else [c]) title) @ [quo]"

definition checkTableHasFormulas :: "'o table \<Rightarrow> bool" where
  "checkTableHasFormulas t = list_ex (list_ex IsFormula) (Rows t)"

definition header_row :: "'o table \<Rightarrow> 'o any_value list" where
  "header_row t = map AnyStr (Headers t)"

definition buildAllRawBatch :: "string \<Rightarrow> 'o table \<Rightarrow> 'o value_update_batch list" where
  "buildAllRawBatch escapedTitle t =
     [\<lparr>vb_Range = escapedTitle @ ''!A1'', vb_Option = InputOptionRaw,
       vb_Values = (if length (Headers t) > 0 then [header_row t] else []) @ map (map RawVal) (Rows t)\<rparr>]"

datatype col_kind = ColRaw | ColFormula | ColMixed

record col_slice =
  startCol :: nat
  endCol :: nat
  kind :: col_kind

definition cellIsFormulaAt :: "'o cell list \<Rightarrow> nat \<Rightarrow> bool" where
  "cellIsFormulaAt row colIdx \<longleftrightarrow> colIdx < length row \<and> IsFormula (row ! colIdx)"

definition cellValueAt :: "'o cell list \<Rightarrow> nat \<Rightarrow> 'o any_value" where
  "cellValueAt row colIdx = (if colIdx < length row then RawVal (row ! colIdx) else AnyStr '''')"

fun count_cells :: "nat \<Rightarrow> nat \<Rightarrow> 'o cell list \<Rightarrow> nat list \<times> nat list \<Rightarrow> nat list \<times> nat list" where
  "count_cells numCols colIdx [] n = n"
| "count_cells numCols colIdx (c # cs) (formulas, others) =
     (if colIdx < numCols then
        count_cells numCols (Suc colIdx) cs
          (if IsFormula c then (formulas[colIdx := formulas ! colIdx + 1], others)
           else (formulas, others[colIdx := others ! colIdx + 1]))
      else (formulas, others))"

definition classifyColumns :: "'o table \<Rightarrow> nat \<Rightarrow> col_kind list" where
  "classifyColumns t numCols =
     (case fold (count_cells numCols 0) (Rows t) (replicate numCols 0, replicate numCols 0) of
        (formulas, others) \<Rightarrow>
          map (\<lambda>c. if formulas ! c = 0 then ColRaw else if others ! c = 0 then ColFormula else ColMixed) [0..<numCols])"

definition partition_step :: "col_kind list \<Rightarrow> nat \<Rightarrow> col_slice list \<times> nat \<Rightarrow> col_slice list \<times> nat" where
  "partition_step kinds c st =
     (case st of (slices, currStart) \<Rightarrow>
        if kinds ! c \<noteq> kinds ! currStart \<or> kinds ! c = ColMixed
        then (slices @ [\<lparr>startCol = currStart, endCol = c - 1, kind = kinds ! currStart\<rparr>], c)
        else (slices, currStart))"

definition partitionColumns :: "'o table \<Rightarrow> nat \<Rightarrow> col_slice list" where
  "partitionColumns t numCols =
     (let kinds = classifyColumns t numCols in
      case fold (partition_step kinds) [1..<numCols] ([], 0) of (slices, currStart) \<Rightarrow>
        slices @ [\<lparr>startCol = currStart, endCol = numCols - 1, kind = kinds ! currStart\<rparr>])"

definition extractSliceValues :: "'o table \<Rightarrow> col_slice \<Rightarrow> 'o any_value list list" where
  "extractSliceValues t s =
     map (\<lambda>r. map (\<lambda>offset. cellValueAt r (startCol s + offset)) [0..<endCol s - startCol s + 1]) (Rows t)"

definition input_option :: "bool \<Rightarrow> string" where
  "input_option isFormula = (if isFormula then InputOptionUserEntered else InputOptionRaw)"

definition flush_run :: "string \<Rightarrow> 'o table \<Rightarrow> nat \<Rightarrow> nat \<Rightarrow> nat \<Rightarrow> nat \<Rightarrow> bool \<Rightarrow> 'o value_update_batch" where
  "flush_run escapedTitle t colIdx startDataRow runStart runEnd isFormula =
     (let colA1 = ColIndexToA1 (int colIdx) in
      \<lparr>vb_Range = escapedTitle @ ''!'' @ colA1 @ show_nat (startDataRow + runStart) @ '':'' @ colA1 @ show_nat (startDataRow + runEnd),
       vb_Option = input_option isFormula,
       vb_Values = map (\<lambda>r. [cellValueAt (Rows t ! r) colIdx]) [runStart..<Suc runEnd]\<rparr>)"

definition mixed_step :: "string \<Rightarrow> 'o table \<Rightarrow> nat \<Rightarrow> nat \<Rightarrow> nat \<Rightarrow> 'o value_update_batch list \<times> nat \<times> bool \<Rightarrow> 'o value_update_batch list \<times> nat \<times> bool" where
  "mixed_step escapedTitle t colIdx startDataRow r st =
     (case st of (batches, runStart, runFormula) \<Rightarrow>
        let f = cellIsFormulaAt (Rows t ! r) colIdx in
        if f \<noteq> runFormula then (batches @ [flush_run escapedTitle t colIdx startDataRow runStart (r - 1) runFormula], r, f) else st)"

definition buildMixedColumnBatches :: "string \<Rightarrow> 'o table \<Rightarrow> nat \<Rightarrow> nat \<Rightarrow> 'o value_update_batch list" where
  "buildMixedColumnBatches escapedTitle t colIdx startDataRow =
     (case fold (mixed_step escapedTitle t colIdx startDataRow) [1..<length (Rows t)] ([], 0, cellIsFormulaAt (Rows t ! 0) colIdx) of
        (batches, runStart, runFormula) \<Rightarrow>
          batches @ [flush_run escapedTitle t colIdx startDataRow runStart (length (Rows t) - 1) runFormula])"

definition slice_batches :: "string \<Rightarrow> 'o table \<Rightarrow> nat \<Rightarrow> nat \<Rightarrow> col_slice \<Rightarrow> 'o value_update_batch list" where
  "slice_batches escapedTitle t startDataRow endDataRow s =
     (if kind s = ColMixed then buildMixedColumnBatches escapedTitle t (startCol s) startDataRow
      else [\<lparr>vb_Range = escapedTitle @ ''!'' @ ColIndexToA1 (int (startCol s)) @ show_nat startDataRow
               @ '':'' @ ColIndexToA1 (int (endCol s)) @ show_nat endDataRow,
             vb_Option = input_option (kind s = ColFormula),
             vb_Values = extractSliceValues t s\<rparr>])"

definition buildMixedModeBatches :: "string \<Rightarrow> 'o table \<Rightarrow> nat \<Rightarrow> 'o value_update_batch list" where
  "buildMixedModeBatches escapedTitle t numCols =
     (let hdr = (if length (Headers t) > 0
            then [\<lparr>vb_Range = escapedTitle @ ''!A1:'' @ ColIndexToA1 (int (length (Headers t)) - 1) @ ''1'',
                   vb_Option = InputOptionRaw, vb_Values = [header_row t]\<rparr>] else []);
          startDataRow = (if length (Headers t) > 0 then 2 else 1)
      in if Rows t = [] then hdr
         else hdr @ concat (map (slice_batches escapedTitle t startDataRow (startDataRow + length (Rows t) - 1)) (partitionColumns t numCols)))"

definition prepareValueUpdates :: "string \<Rightarrow> 'o table option \<Rightarrow> 'o value_update_batch list" where
  "prepareValueUpdates tabTitle tbl =
     (case tbl of
        None \<Rightarrow> []
      | Some t \<Rightarrow>
          if Headers t = [] \<and> Rows t = [] then []
          else let numCols = table_ColCount t in
            if numCols = 0 then []
            else if \<not> checkTableHasFormulas t then buildAllRawBatch (EscapeSheetTitle tabTitle) t
            else buildMixedModeBatches (EscapeSheetTitle tabTitle) t numCols)"

subsection \<open>Reading ranges back\<close>

text \<open>A1 notation, read: the quoted title, then one cell or two.\<close>

definition a1_number :: "string \<Rightarrow> nat" where
  "a1_number s = foldl (\<lambda>n c. 26 * n + (of_char c - 64)) 0 s"

fun unquote :: "string \<Rightarrow> (string \<times> string) option" where
  "unquote [] = None"
| "unquote (c # cs) =
     (if c \<noteq> quo then map_option (\<lambda>(t, r). (c # t, r)) (unquote cs)
      else (case cs of [] \<Rightarrow> Some ([], [])
        | d # ds \<Rightarrow> if d = quo then map_option (\<lambda>(t, r). (quo # t, r)) (unquote ds) else Some ([], cs)))"

definition is_upper :: "char \<Rightarrow> bool" where
  "is_upper c \<longleftrightarrow> 65 \<le> (of_char c :: nat) \<and> (of_char c :: nat) \<le> 90"

text \<open>A cell as (row, column), both from 0, and the text after it.\<close>

definition read_cell :: "string \<Rightarrow> (nat \<times> nat) \<times> string" where
  "read_cell s =
     (let letters = takeWhile is_upper s; rest = dropWhile is_upper s
      in ((the (parse_digits (takeWhile is_digit rest)) - 1, a1_number letters - 1), dropWhile is_digit rest))"

definition read_range :: "string \<Rightarrow> (string \<times> (nat \<times> nat) \<times> (nat \<times> nat) option) option" where
  "read_range s =
     (case s of [] \<Rightarrow> None
      | c # cs \<Rightarrow> if c \<noteq> quo then None
        else (case unquote cs of
            Some (title, d # rest) \<Rightarrow>
              if d \<noteq> CHR ''!'' then None
              else (case read_cell rest of (a, rest') \<Rightarrow>
                (case rest' of [] \<Rightarrow> Some (title, a, None)
                 | e # rest'' \<Rightarrow> if e \<noteq> CHR '':'' then None else Some (title, a, Some (fst (read_cell rest'')))))
          | _ \<Rightarrow> None))"

text \<open>What one update writes at a cell of the tab: values fill the range from its first cell.\<close>

definition written_at :: "nat \<Rightarrow> nat \<Rightarrow> 'o value_update_batch \<Rightarrow> (string \<times> 'o any_value) list" where
  "written_at r c b =
     (case read_range (vb_Range b) of
        None \<Rightarrow> []
      | Some (title, (r0, c0), _) \<Rightarrow>
          if r0 \<le> r \<and> r - r0 < length (vb_Values b) \<and> c0 \<le> c \<and> c - c0 < length (vb_Values b ! (r - r0))
          then [(vb_Option b, vb_Values b ! (r - r0) ! (c - c0))] else [])"

definition grid_writes :: "'o value_update_batch list \<Rightarrow> nat \<Rightarrow> nat \<Rightarrow> (string \<times> 'o any_value) list" where
  "grid_writes bs r c = concat (map (written_at r c) bs)"

text \<open>The update is addressed to the tab, and a range with two corners has the shape of its values.\<close>

definition well_addressed :: "string \<Rightarrow> 'o value_update_batch \<Rightarrow> bool" where
  "well_addressed title b \<longleftrightarrow>
     (case read_range (vb_Range b) of
        Some (t, (r0, c0), e) \<Rightarrow> t = title \<and>
          (case e of None \<Rightarrow> True
           | Some (r1, c1) \<Rightarrow> r0 \<le> r1 \<and> c0 \<le> c1 \<and> length (vb_Values b) = Suc (r1 - r0) \<and> list_all (\<lambda>v. length v = Suc (c1 - c0)) (vb_Values b))
      | None \<Rightarrow> False)"

declare a1_loop.simps [simp del]

lemma of_char_column_letter: "r < 26 \<Longrightarrow> (of_char (column_letter r) :: nat) = 65 + r"
  by (simp add: column_letter_def)

lemma is_upper_letter [simp]: "is_upper (column_letter (n mod 26))"
  using of_char_column_letter [of "n mod 26"] by (simp add: is_upper_def)

lemma a1_loop_append: "a1_loop n (xs @ ys) = a1_loop n xs @ ys"
  by (induction n xs rule: a1_loop.induct) (subst (1 2) a1_loop.simps, simp add: Let_def)

lemma a1_loop_read: "a1_number (a1_loop n []) = Suc n \<and> list_all is_upper (a1_loop n [])"
proof (induction n rule: less_induct)
  case (less n)
  have l: "(of_char (column_letter (n mod 26)) :: nat) - 64 = Suc (n mod 26)"
    using of_char_column_letter [of "n mod 26"] by simp
  show ?case
  proof (cases "n div 26 = 0")
    case True
    then show ?thesis using l is_upper_letter [of n] by (subst (1 2) a1_loop.simps) (simp add: a1_number_def)
  next
    case False
    have "a1_loop n [] = a1_loop (n div 26 - 1) [] @ [column_letter (n mod 26)]"
      using False a1_loop_append [of "n div 26 - 1" "[]" "[column_letter (n mod 26)]"] by (subst a1_loop.simps) simp
    moreover have "n div 26 - 1 < n" using False by simp
    ultimately show ?thesis using l False less.IH [of "n div 26 - 1"] by (simp add: a1_number_def)
  qed
qed

lemma a1_number_ColIndex: "a1_number (ColIndexToA1 (int n)) = Suc n" "list_all is_upper (ColIndexToA1 (int n))"
  using a1_loop_read [of n] by (simp_all add: ColIndexToA1_def)

lemma upper_not_digit: "is_digit c \<Longrightarrow> \<not> is_upper c"
  by (simp add: is_digit_def is_upper_def)

lemma unquote_escape: "unquote (concat (map (\<lambda>c. if c = quo then [quo, quo] else [c]) title) @ quo # CHR ''!'' # r) = Some (title, CHR ''!'' # r)"
  by (induction title) (auto simp: quo_def)

text \<open>Text that cannot continue a number.\<close>

definition after_cell :: "string \<Rightarrow> bool" where
  "after_cell s \<longleftrightarrow> s = [] \<or> \<not> is_digit (hd s)"

lemma read_cell_A1: "after_cell s \<Longrightarrow> read_cell (ColIndexToA1 (int c) @ show_nat (Suc r) @ s) = ((r, c), s)"
proof -
  assume s: "after_cell s"
  let ?l = "ColIndexToA1 (int c)" and ?d = "show_nat (Suc r)"
  have d: "list_all is_digit ?d" "?d \<noteq> []" using show_nat_digits by auto
  have u: "\<forall>x \<in> set ?l. is_upper x" using a1_number_ColIndex(2) by (simp add: list_all_iff)
  have "\<not> is_upper (hd (?d @ s))" using d by (cases ?d) (auto dest: upper_not_digit)
  then have "takeWhile is_upper (?d @ s) = []" "dropWhile is_upper (?d @ s) = ?d @ s" using d by (cases ?d; simp)+
  then have t: "takeWhile is_upper (?l @ ?d @ s) = ?l" "dropWhile is_upper (?l @ ?d @ s) = ?d @ s"
    using u by (simp_all add: takeWhile_append2 dropWhile_append2)
  have "\<forall>x \<in> set ?d. is_digit x" using d by (simp add: list_all_iff)
  moreover have "takeWhile is_digit s = []" "dropWhile is_digit s = s" using s by (cases s; simp add: after_cell_def)+
  ultimately have "takeWhile is_digit (?d @ s) = ?d" "dropWhile is_digit (?d @ s) = s"
    by (simp_all add: takeWhile_append2 dropWhile_append2)
  then show ?thesis using t by (simp add: read_cell_def a1_number_ColIndex)
qed

lemma after_cell_simps [simp]: "after_cell []" "after_cell (CHR '':'' # s)"
  by (simp_all add: after_cell_def is_digit_def)

lemma read_range_cell:
  "read_range (EscapeSheetTitle t @ ''!'' @ ColIndexToA1 (int c) @ show_nat (Suc r)) = Some (t, (r, c), None)"
  using unquote_escape [of t "ColIndexToA1 (int c) @ show_nat (Suc r)"] read_cell_A1 [of "[]" c r]
  by (simp add: read_range_def EscapeSheetTitle_def)

lemma read_range_cells:
  "read_range (EscapeSheetTitle t @ ''!'' @ ColIndexToA1 (int c) @ show_nat (Suc r) @ '':'' @ ColIndexToA1 (int d) @ show_nat (Suc q))
     = Some (t, (r, c), Some (q, d))"
  using unquote_escape [of t "ColIndexToA1 (int c) @ show_nat (Suc r) @ '':'' @ ColIndexToA1 (int d) @ show_nat (Suc q)"]
    read_cell_A1 [of "CHR '':'' # ColIndexToA1 (int d) @ show_nat (Suc q)" c r] read_cell_A1 [of "[]" d q]
  by (simp add: read_range_def EscapeSheetTitle_def)

subsection \<open>Intervals in a row\<close>

text \<open>Consecutive non-empty intervals from \<open>a\<close> up to \<open>b\<close>.\<close>

fun chain :: "nat \<Rightarrow> (nat \<times> nat) list \<Rightarrow> nat \<Rightarrow> bool" where
  "chain a [] b \<longleftrightarrow> a = b"
| "chain a (iv # ivs) b \<longleftrightarrow> fst iv = a \<and> fst iv \<le> snd iv \<and> chain (Suc (snd iv)) ivs b"

lemma chain_snoc: "chain a ivs b \<Longrightarrow> b \<le> e \<Longrightarrow> chain a (ivs @ [(b, e)]) (Suc e)"
  by (induction ivs arbitrary: a) auto

lemma chain_le: "chain a ivs b \<Longrightarrow> a \<le> b"
  by (induction ivs arbitrary: a) fastforce+

lemma chain_in: "chain a ivs b \<Longrightarrow> iv \<in> set ivs \<Longrightarrow> a \<le> fst iv \<and> fst iv \<le> snd iv \<and> snd iv < b"
  by (induction ivs arbitrary: a) (fastforce dest: chain_le)+

lemma chain_pick:
  assumes "chain a (map g xs) b"
    and "\<And>x. x \<in> set xs \<Longrightarrow> f x = (if fst (g x) \<le> k \<and> k \<le> snd (g x) then [y] else [])"
  shows "concat (map f xs) = (if a \<le> k \<and> k < b then [y] else [])"
  using assms
proof (induction xs arbitrary: a)
  case (Cons x xs)
  then have rest: "chain (Suc (snd (g x))) (map g xs) b" and x: "fst (g x) = a" "a \<le> snd (g x)" by auto
  then have "Suc (snd (g x)) \<le> b" by (auto dest: chain_le)
  moreover have "concat (map f xs) = (if Suc (snd (g x)) \<le> k \<and> k < b then [y] else [])"
    using Cons.IH [OF rest] Cons.prems(2) by simp
  ultimately show ?case using Cons.prems(2) [of x] x by auto
qed auto

lemma grid_writes_append [simp]: "grid_writes (xs @ ys) r c = grid_writes xs r c @ grid_writes ys r c"
  by (simp add: grid_writes_def)

lemma grid_writes_Nil [simp]: "grid_writes [] r c = []"
  by (simp add: grid_writes_def)

lemma grid_writes_single [simp]: "grid_writes [b] r c = written_at r c b"
  by (simp add: grid_writes_def)

lemma grid_writes_concat: "grid_writes (concat bss) r c = concat (map (\<lambda>bs. grid_writes bs r c) bss)"
  by (induction bss) simp_all

subsection \<open>Columns\<close>

lemma count_cells_length:
  "length (fst (count_cells n i cs p)) = length (fst p) \<and> length (snd (count_cells n i cs p)) = length (snd p)"
  by (induction n i cs p rule: count_cells.induct) (auto simp: Let_def)

text \<open>How often a column of a row holds a cell of the given sort.\<close>

definition hits :: "bool \<Rightarrow> nat \<Rightarrow> nat \<Rightarrow> 'o cell list \<Rightarrow> nat" where
  "hits b i c cs = (if i \<le> c \<and> c - i < length cs \<and> IsFormula (cs ! (c - i)) = b then 1 else 0)"

lemma count_cells_nth:
  assumes "c < n" "length (fst p) = n" "length (snd p) = n"
  shows "fst (count_cells n i cs p) ! c = fst p ! c + hits True i c cs
    \<and> snd (count_cells n i cs p) ! c = snd p ! c + hits False i c cs"
  using assms
proof (induction n i cs p rule: count_cells.induct)
  case (2 n i x xs fo ot)
  let ?p = "if IsFormula x then (fo[i := fo ! i + 1], ot) else (fo, ot[i := ot ! i + 1])"
  show ?case
  proof (cases "i < n")
    case True
    have h: "hits b i c (x # xs) = (if c = i then (if IsFormula x = b then 1 else 0) else hits b (Suc i) c xs)" for b
      by (auto simp: hits_def nth_Cons' Suc_diff_le)
    have h0: "hits b (Suc i) i xs = 0" for b by (simp add: hits_def)
    have "length (fst ?p) = n" "length (snd ?p) = n" using 2(3,4) by simp_all
    from 2(1) [OF True 2(2) this]
    have "fst (count_cells n i (x # xs) (fo, ot)) ! c = fst ?p ! c + hits True (Suc i) c xs"
      "snd (count_cells n i (x # xs) (fo, ot)) ! c = snd ?p ! c + hits False (Suc i) c xs"
      using True by simp_all
    moreover have "fst ?p ! c = fo ! c + (if c = i \<and> IsFormula x then 1 else 0)"
      "snd ?p ! c = ot ! c + (if c = i \<and> \<not> IsFormula x then 1 else 0)"
      using 2(2-4) by simp_all
    ultimately show ?thesis by (cases "c = i"; cases "IsFormula x") (simp_all only: h h0 fst_conv snd_conv, simp_all add: hits_def)
  next
    case False
    then show ?thesis using 2 by (auto simp: hits_def)
  qed
qed (simp add: hits_def)

lemma fold_count_cells:
  assumes "c < n" "length (fst p) = n" "length (snd p) = n"
  shows "fst (fold (count_cells n 0) rs p) ! c = fst p ! c + (\<Sum>r \<leftarrow> rs. hits True 0 c r)
    \<and> snd (fold (count_cells n 0) rs p) ! c = snd p ! c + (\<Sum>r \<leftarrow> rs. hits False 0 c r)"
  using assms
proof (induction rs arbitrary: p)
  case (Cons r rs)
  then show ?case using count_cells_nth [of c n p 0 r] count_cells_length [of n 0 r p] by (simp add: add.assoc)
qed simp

lemma classify_length [simp]: "length (classifyColumns t n) = n"
  by (simp add: classifyColumns_def split: prod.splits)

lemma hits_sum_zero: "(\<Sum>r \<leftarrow> rs. hits b 0 c r) = 0 \<longleftrightarrow> (\<forall>r \<in> set rs. c < length r \<longrightarrow> IsFormula (r ! c) \<noteq> b)"
  by (induction rs) (auto simp: hits_def)

lemma classify_nth:
  assumes "c < n"
  shows "classifyColumns t n ! c =
    (if \<forall>r \<in> set (Rows t). c < length r \<longrightarrow> \<not> IsFormula (r ! c) then ColRaw
     else if \<forall>r \<in> set (Rows t). c < length r \<longrightarrow> IsFormula (r ! c) then ColFormula else ColMixed)"
proof -
  let ?p = "fold (count_cells n 0) (Rows t) (replicate n 0, replicate n 0)"
  have "fst ?p ! c = (\<Sum>r \<leftarrow> Rows t. hits True 0 c r)" "snd ?p ! c = (\<Sum>r \<leftarrow> Rows t. hits False 0 c r)"
    using fold_count_cells [of c n "(replicate n 0, replicate n 0)" "Rows t"] assms by simp_all
  then have "fst ?p ! c = 0 \<longleftrightarrow> (\<forall>r \<in> set (Rows t). c < length r \<longrightarrow> \<not> IsFormula (r ! c))"
    "snd ?p ! c = 0 \<longleftrightarrow> (\<forall>r \<in> set (Rows t). c < length r \<longrightarrow> IsFormula (r ! c))"
    using hits_sum_zero [of True c "Rows t"] hits_sum_zero [of False c "Rows t"] by simp_all
  then show ?thesis using assms by (simp only: classifyColumns_def case_prod_beta) simp
qed

subsection \<open>Runs\<close>

text \<open>Both loops, over the columns and over the rows of a mixed column, cut an index range into runs of one key; keys that
  stand alone are never joined.\<close>

definition seg_step :: "(nat \<Rightarrow> 'k) \<Rightarrow> ('k \<Rightarrow> bool) \<Rightarrow> nat \<Rightarrow> (nat \<times> nat) list \<times> nat \<Rightarrow> (nat \<times> nat) list \<times> nat" where
  "seg_step key alone c st =
     (if key c \<noteq> key (snd st) \<or> alone (key c) then (fst st @ [(snd st, c - 1)], c) else st)"

definition segments :: "(nat \<Rightarrow> 'k) \<Rightarrow> ('k \<Rightarrow> bool) \<Rightarrow> nat \<Rightarrow> (nat \<times> nat) list" where
  "segments key alone n = (case fold (seg_step key alone) [1..<n] ([], 0) of (ivs, a) \<Rightarrow> ivs @ [(a, n - 1)])"

definition constant_on :: "(nat \<Rightarrow> 'k) \<Rightarrow> nat \<Rightarrow> nat \<Rightarrow> bool" where
  "constant_on key a b \<longleftrightarrow> (\<forall>c. a \<le> c \<and> c < b \<longrightarrow> key c = key a)"

lemma constant_on_Suc: "constant_on key a b \<Longrightarrow> key b = key a \<Longrightarrow> constant_on key a (Suc b)"
  by (auto simp: constant_on_def less_Suc_eq)

lemma constant_on_one [simp]: "constant_on key a (Suc a)"
  by (auto simp: constant_on_def less_Suc_eq)

definition segment_ok :: "(nat \<Rightarrow> 'k) \<Rightarrow> ('k \<Rightarrow> bool) \<Rightarrow> nat \<times> nat \<Rightarrow> bool" where
  "segment_ok key alone iv \<longleftrightarrow> constant_on key (fst iv) (Suc (snd iv)) \<and> (alone (key (fst iv)) \<longrightarrow> fst iv = snd iv)"

definition seg_inv :: "(nat \<Rightarrow> 'k) \<Rightarrow> ('k \<Rightarrow> bool) \<Rightarrow> nat \<Rightarrow> (nat \<times> nat) list \<times> nat \<Rightarrow> bool" where
  "seg_inv key alone n st \<longleftrightarrow> chain 0 (fst st) (snd st) \<and> snd st < n \<and> list_all (segment_ok key alone) (fst st)
     \<and> constant_on key (snd st) n \<and> (alone (key (snd st)) \<longrightarrow> Suc (snd st) = n)"

lemma seg_close:
  assumes "seg_inv key alone n st"
  shows "chain 0 (fst st @ [(snd st, n - 1)]) n \<and> list_all (segment_ok key alone) (fst st @ [(snd st, n - 1)])"
  using assms chain_snoc [of 0 "fst st" "snd st" "n - 1"] by (auto simp: seg_inv_def segment_ok_def)

lemma seg_inv_step: "seg_inv key alone n st \<Longrightarrow> seg_inv key alone (Suc n) (seg_step key alone n st)"
  using seg_close [of key alone n st] constant_on_Suc [of key "snd st" n]
  by (auto simp: seg_inv_def seg_step_def)

lemma seg_inv_fold: "1 \<le> n \<Longrightarrow> seg_inv key alone n (fold (seg_step key alone) [1..<n] ([], 0))"
proof (induction n)
  case (Suc n)
  then show ?case by (cases "n = 0") (auto simp: seg_inv_def [of _ _ "Suc 0"] intro: seg_inv_step)
qed simp

lemma segments_ok:
  "1 \<le> n \<Longrightarrow> chain 0 (segments key alone n) n \<and> list_all (segment_ok key alone) (segments key alone n)"
  using seg_close [OF seg_inv_fold] by (simp add: segments_def case_prod_beta)

lemma segment_key:
  "list_all (segment_ok key alone) ivs \<Longrightarrow> iv \<in> set ivs \<Longrightarrow> fst iv \<le> k \<Longrightarrow> k \<le> snd iv \<Longrightarrow> key k = key (fst iv)"
  unfolding list_all_iff segment_ok_def constant_on_def by (metis less_Suc_eq_le)

lemma fold_simulation: "(\<And>c st. f c (h st) = h (g c st)) \<Longrightarrow> fold f cs (h st) = h (fold g cs st)"
  by (induction cs arbitrary: st) simp_all

definition slice_of :: "col_kind list \<Rightarrow> nat \<times> nat \<Rightarrow> col_slice" where
  "slice_of kinds iv = \<lparr>startCol = fst iv, endCol = snd iv, kind = kinds ! fst iv\<rparr>"

lemma partition_segments:
  "partitionColumns t n = map (slice_of (classifyColumns t n)) (segments ((!) (classifyColumns t n)) ((=) ColMixed) n)"
proof -
  let ?k = "classifyColumns t n"
  let ?s = "seg_step ((!) ?k) ((=) ColMixed)"
  let ?h = "\<lambda>st. (map (slice_of ?k) (fst st), snd st)"
  have "partition_step ?k c (?h st) = ?h (?s c st)" for c st
    by (cases st) (auto simp: partition_step_def seg_step_def slice_of_def)
  then have "fold (partition_step ?k) cs (?h st) = ?h (fold ?s cs st)" for cs st
    by (rule fold_simulation [where h = ?h])
  from this [of "[1..<n]" "([], 0)"] show ?thesis
    by (simp add: partitionColumns_def segments_def case_prod_beta slice_of_def Let_def)
qed

lemma mixed_segments:
  "buildMixedColumnBatches e t col start =
     map (\<lambda>iv. flush_run e t col start (fst iv) (snd iv) (cellIsFormulaAt (Rows t ! fst iv) col))
       (segments (\<lambda>r. cellIsFormulaAt (Rows t ! r) col) (\<lambda>_. False) (length (Rows t)))"
proof -
  let ?key = "\<lambda>r. cellIsFormulaAt (Rows t ! r) col"
  let ?g = "\<lambda>iv. flush_run e t col start (fst iv) (snd iv) (?key (fst iv))"
  let ?s = "seg_step ?key (\<lambda>_. False)"
  let ?h = "\<lambda>st. (map ?g (fst st), snd st, ?key (snd st))"
  have "mixed_step e t col start r (?h st) = ?h (?s r st)" for r st
    by (cases st) (auto simp: mixed_step_def seg_step_def Let_def)
  then have "fold (mixed_step e t col start) rs (?h st) = ?h (fold ?s rs st)" for rs st
    by (rule fold_simulation [where h = ?h])
  from this [of "[1..<length (Rows t)]" "([], 0)"] show ?thesis
    by (simp add: buildMixedColumnBatches_def segments_def case_prod_beta)
qed

subsection \<open>What a slice writes\<close>

text \<open>The write a data cell calls for.\<close>

definition data_write :: "'o table \<Rightarrow> nat \<Rightarrow> nat \<Rightarrow> bool \<Rightarrow> string \<times> 'o any_value" where
  "data_write t i c f = (input_option f, cellValueAt (Rows t ! i) c)"

lemma read_flush:
  "read_range (vb_Range (flush_run (EscapeSheetTitle title) t col (Suc off) a b f)) = Some (title, (off + a, col), Some (off + b, col))"
  using read_range_cells [of title col "off + a" col "off + b"] by (simp add: flush_run_def Let_def)

lemma written_flush:
  assumes "a \<le> b"
  shows "written_at r c (flush_run (EscapeSheetTitle title) t col (Suc off) a b f) =
    (if c = col \<and> off \<le> r \<and> a \<le> r - off \<and> r - off \<le> b then [data_write t (r - off) c f] else [])"
proof -
  have "r - (off + a) < Suc b - a \<longleftrightarrow> r - off \<le> b" if "off + a \<le> r" using that assms by auto
  moreover have "[a..<Suc b] ! (r - (off + a)) = r - off" if "off + a \<le> r" "r - off \<le> b" using that assms by (subst nth_upt) auto
  ultimately show ?thesis
    using assms by (auto simp: written_at_def read_flush data_write_def) (auto simp: flush_run_def Let_def simp del: upt_Suc)
qed

lemma mixed_column_writes:
  assumes "Rows t \<noteq> []"
  shows "grid_writes (buildMixedColumnBatches (EscapeSheetTitle title) t col (Suc off)) r c =
    (if c = col \<and> off \<le> r \<and> r - off < length (Rows t)
     then [data_write t (r - off) c (cellIsFormulaAt (Rows t ! (r - off)) c)] else [])"
proof (cases "c = col \<and> off \<le> r")
  case True
  let ?key = "\<lambda>r. cellIsFormulaAt (Rows t ! r) col"
  have seg: "chain 0 (segments ?key (\<lambda>_. False) (length (Rows t))) (length (Rows t))"
    "list_all (segment_ok ?key (\<lambda>_. False)) (segments ?key (\<lambda>_. False) (length (Rows t)))"
    using segments_ok [of "length (Rows t)" ?key "\<lambda>_. False"] assms by (simp_all add: Suc_leI)
  have "written_at r c (flush_run (EscapeSheetTitle title) t col (Suc off) (fst iv) (snd iv) (?key (fst iv)))
      = (if fst iv \<le> r - off \<and> r - off \<le> snd iv then [data_write t (r - off) c (?key (r - off))] else [])"
    if "iv \<in> set (segments ?key (\<lambda>_. False) (length (Rows t)))" for iv
  proof -
    have "?key (r - off) = ?key (fst iv)" if "fst iv \<le> r - off \<and> r - off \<le> snd iv"
      using segment_key [OF seg(2) \<open>iv \<in> _\<close>, of "r - off"] that by simp
    then show ?thesis using True chain_in [OF seg(1) that] by (simp add: written_flush)
  qed
  then have "concat (map (\<lambda>iv. written_at r c (flush_run (EscapeSheetTitle title) t col (Suc off) (fst iv) (snd iv) (?key (fst iv))))
      (segments ?key (\<lambda>_. False) (length (Rows t)))) = (if 0 \<le> r - off \<and> r - off < length (Rows t) then [data_write t (r - off) c (?key (r - off))] else [])"
    using seg(1) by (intro chain_pick [where g = id]) simp_all
  then show ?thesis using True by (simp add: mixed_segments grid_writes_def comp_def)
next
  case False
  have seg: "chain 0 (segments (\<lambda>r. cellIsFormulaAt (Rows t ! r) col) (\<lambda>_. False) (length (Rows t))) (length (Rows t))"
    using segments_ok [of "length (Rows t)" "\<lambda>r. cellIsFormulaAt (Rows t ! r) col" "\<lambda>_. False"] assms by (simp add: Suc_leI)
  show ?thesis using False chain_in [OF seg] by (auto simp: mixed_segments grid_writes_def written_flush)
qed

lemma read_slice:
  "read_range (EscapeSheetTitle title @ ''!'' @ ColIndexToA1 (int a) @ show_nat (Suc off) @ '':'' @ ColIndexToA1 (int b) @ show_nat (off + Suc n))
     = Some (title, (off, a), Some (off + n, b))"
  using read_range_cells [of title a off b "off + n"] by simp

definition cell_sort :: "'o table \<Rightarrow> nat \<Rightarrow> nat \<Rightarrow> col_kind \<Rightarrow> bool" where
  "cell_sort t i c k = (if k = ColMixed then cellIsFormulaAt (Rows t ! i) c else k = ColFormula)"

lemma slice_writes:
  assumes "Rows t \<noteq> []" "startCol s \<le> endCol s" "kind s = ColMixed \<longrightarrow> startCol s = endCol s"
  shows "grid_writes (slice_batches (EscapeSheetTitle title) t (Suc off) (off + length (Rows t)) s) r c =
    (if (off \<le> r \<and> r - off < length (Rows t)) \<and> startCol s \<le> c \<and> c \<le> endCol s
     then [data_write t (r - off) c (cell_sort t (r - off) c (kind s))] else [])"
proof (cases "kind s = ColMixed")
  case True
  then show ?thesis using assms by (auto simp: slice_batches_def mixed_column_writes cell_sort_def)
next
  case False
  obtain n where n: "length (Rows t) = Suc n" using assms(1) by (cases "Rows t") auto
  have "r - off < length (Rows t) \<Longrightarrow> startCol s \<le> c \<Longrightarrow> c \<le> endCol s \<Longrightarrow>
      extractSliceValues t s ! (r - off) ! (c - startCol s) = cellValueAt (Rows t ! (r - off)) c"
    by (simp add: extractSliceValues_def nth_upt diff_le_mono less_Suc_eq_le del: upt_Suc)
  moreover have "length (extractSliceValues t s) = length (Rows t)"
    "r - off < length (Rows t) \<Longrightarrow> length (extractSliceValues t s ! (r - off)) = Suc (endCol s - startCol s)"
    by (simp_all add: extractSliceValues_def)
  ultimately show ?thesis using False n assms(2) read_slice [of title "startCol s" off "endCol s" n]
    by (auto simp: slice_batches_def written_at_def data_write_def cell_sort_def)
qed

lemma slices_write:
  assumes "Rows t \<noteq> []" "1 \<le> n"
  shows "grid_writes (concat (map (slice_batches (EscapeSheetTitle title) t (Suc off) (off + length (Rows t))) (partitionColumns t n))) r c =
    (if (off \<le> r \<and> r - off < length (Rows t)) \<and> c < n
     then [data_write t (r - off) c (cell_sort t (r - off) c (classifyColumns t n ! c))] else [])"
proof -
  let ?k = "classifyColumns t n"
  let ?ivs = "segments ((!) ?k) ((=) ColMixed) n"
  let ?in = "off \<le> r \<and> r - off < length (Rows t)"
  let ?f = "\<lambda>iv. grid_writes (slice_batches (EscapeSheetTitle title) t (Suc off) (off + length (Rows t)) (slice_of ?k iv)) r c"
  have seg: "chain 0 ?ivs n" "list_all (segment_ok ((!) ?k) ((=) ColMixed)) ?ivs" using segments_ok [OF assms(2), of "(!) ?k" "(=) ColMixed"] by simp_all
  have f: "?f iv = (if ?in \<and> fst iv \<le> c \<and> c \<le> snd iv then [data_write t (r - off) c (cell_sort t (r - off) c (?k ! c))] else [])"
    if iv: "iv \<in> set ?ivs" for iv
  proof -
    have "kind (slice_of ?k iv) = ColMixed \<longrightarrow> fst iv = snd iv" using seg(2) iv by (auto simp: list_all_iff segment_ok_def slice_of_def)
    then show ?thesis using slice_writes [OF assms(1), of "slice_of ?k iv" title off r c] chain_in [OF seg(1) iv] segment_key [OF seg(2) iv, of c]
      by (simp add: slice_of_def)
  qed
  have "concat (map ?f ?ivs) = (if ?in \<and> c < n then [data_write t (r - off) c (cell_sort t (r - off) c (?k ! c))] else [])"
  proof (cases ?in)
    case True
    then show ?thesis using chain_pick [of 0 id ?ivs n ?f c] seg(1) f by simp
  next
    case False
    then show ?thesis using f by (auto simp: concat_eq_Nil_conv)
  qed
  then show ?thesis by (simp add: grid_writes_concat partition_segments comp_def)
qed

lemma cell_sort_present:
  assumes "i < length (Rows t)" "c < length (Rows t ! i)" "length (Rows t ! i) \<le> n"
  shows "cell_sort t i c (classifyColumns t n ! c) = IsFormula (Rows t ! i ! c)"
proof -
  have "Rows t ! i \<in> set (Rows t)" "c < n" using assms by simp_all
  then show ?thesis using assms by (auto simp: cell_sort_def classify_nth cellIsFormulaAt_def)
qed

text \<open>The row of the first data row.\<close>

definition data_offset :: "'o table \<Rightarrow> nat" where
  "data_offset t = (if Headers t = [] then 0 else 1)"

lemma show_nat_1: "show_nat 1 = ''1''"
  by code_simp

lemma A1_first: "ColIndexToA1 0 = ''A''"
  by code_simp

lemma read_first: "read_range (EscapeSheetTitle title @ ''!A1'') = Some (title, (0, 0), None)"
  using read_range_cell [of title 0 0] A1_first show_nat_1 by simp

lemma read_header: "0 < n \<Longrightarrow> read_range (EscapeSheetTitle title @ ''!A1:'' @ ColIndexToA1 (int n - 1) @ ''1'') = Some (title, (0, 0), Some (0, n - 1))"
  using read_range_cells [of title 0 0 "n - 1" 0] A1_first show_nat_1 by (simp add: of_nat_diff)

definition cell_write :: "'o cell \<Rightarrow> string \<times> 'o any_value" where
  "cell_write cl = (input_option (IsFormula cl), RawVal cl)"

text \<open>Where a table has a cell: its write; a gap of a short row may be filled with the empty text.\<close>

definition writes_table :: "'o table \<Rightarrow> 'o value_update_batch list \<Rightarrow> bool" where
  "writes_table t bs \<longleftrightarrow>
     (\<forall>c < length (Headers t). grid_writes bs 0 c = [(InputOptionRaw, AnyStr (Headers t ! c))])
   \<and> (\<forall>i < length (Rows t). \<forall>c < length (Rows t ! i). grid_writes bs (data_offset t + i) c = [cell_write (Rows t ! i ! c)])
   \<and> (\<forall>r c. r < data_offset t \<and> length (Headers t) \<le> c \<or> data_offset t + length (Rows t) \<le> r \<longrightarrow> grid_writes bs r c = [])
   \<and> (\<forall>i < length (Rows t). \<forall>c. length (Rows t ! i) \<le> c \<longrightarrow> (\<forall>w \<in> set (grid_writes bs (data_offset t + i) c). snd w = AnyStr ''''))"

lemma raw_batch_writes:
  assumes "\<not> checkTableHasFormulas t"
  shows "writes_table t (buildAllRawBatch (EscapeSheetTitle title) t)"
proof -
  obtain b where b: "buildAllRawBatch (EscapeSheetTitle title) t = [b]" "vb_Option b = InputOptionRaw" "read_range (vb_Range b) = Some (title, (0, 0), None)"
    "vb_Values b = (if Headers t = [] then [] else [header_row t]) @ map (map RawVal) (Rows t)"
    by (simp add: buildAllRawBatch_def read_first)
  have raw: "i < length (Rows t) \<Longrightarrow> c < length (Rows t ! i) \<Longrightarrow> \<not> IsFormula (Rows t ! i ! c)" for i c
    using assms by (simp add: checkTableHasFormulas_def list_ex_iff) (meson nth_mem)
  show ?thesis unfolding writes_table_def b(1)
    using raw by (auto simp: written_at_def b data_offset_def header_row_def cell_write_def input_option_def nth_append)
qed

lemma mixed_batches_writes:
  assumes n: "n = table_ColCount t" "1 \<le> n"
  shows "writes_table t (buildMixedModeBatches (EscapeSheetTitle title) t n)"
proof -
  let ?e = "EscapeSheetTitle title"
  let ?hdr = "if length (Headers t) > 0 then [\<lparr>vb_Range = ?e @ ''!A1:'' @ ColIndexToA1 (int (length (Headers t)) - 1) @ ''1'',
      vb_Option = InputOptionRaw, vb_Values = [header_row t]\<rparr>] else []"
  let ?data = "if Rows t = [] then [] else concat (map (slice_batches ?e t (Suc (data_offset t)) (data_offset t + length (Rows t))) (partitionColumns t n))"
  have bs: "buildMixedModeBatches ?e t n = ?hdr @ ?data"
    by (auto simp: buildMixedModeBatches_def data_offset_def numeral_2_eq_2)
  have hdr: "grid_writes ?hdr r c = (if r = 0 \<and> c < length (Headers t) then [(InputOptionRaw, AnyStr (Headers t ! c))] else [])" for r c
    using read_header [of "length (Headers t)" title] by (auto simp: written_at_def header_row_def)
  have data: "grid_writes ?data r c = (if (data_offset t \<le> r \<and> r - data_offset t < length (Rows t)) \<and> c < n
      then [data_write t (r - data_offset t) c (cell_sort t (r - data_offset t) c (classifyColumns t n ! c))] else [])" for r c
    using slices_write [OF _ n(2), of t title "data_offset t" r c] by simp
  have len: "i < length (Rows t) \<Longrightarrow> length (Rows t ! i) \<le> n" for i using n ColCount_nth by simp
  have off: "data_offset t = 0 \<and> Headers t = [] \<or> data_offset t = 1 \<and> Headers t \<noteq> []" by (simp add: data_offset_def)
  have all: "grid_writes (buildMixedModeBatches ?e t n) r c =
      (if r = 0 \<and> c < length (Headers t) then [(InputOptionRaw, AnyStr (Headers t ! c))] else [])
    @ (if (data_offset t \<le> r \<and> r - data_offset t < length (Rows t)) \<and> c < n
       then [data_write t (r - data_offset t) c (cell_sort t (r - data_offset t) c (classifyColumns t n ! c))] else [])" for r c
    unfolding bs grid_writes_append hdr data ..
  show ?thesis unfolding writes_table_def
  proof (intro conjI allI impI ballI)
    fix c assume "c < length (Headers t)"
    then show "grid_writes (buildMixedModeBatches ?e t n) 0 c = [(InputOptionRaw, AnyStr (Headers t ! c))]"
      using off by (auto simp: all)
  next
    fix i c assume i: "i < length (Rows t)" and c: "c < length (Rows t ! i)"
    then have "c < n" using len [OF i] by simp
    moreover have "\<not> (data_offset t + i = 0 \<and> c < length (Headers t))" using off by auto
    ultimately show "grid_writes (buildMixedModeBatches ?e t n) (data_offset t + i) c = [cell_write (Rows t ! i ! c)]"
      using cell_sort_present [OF i c len [OF i]] i c unfolding all
      by (simp add: data_write_def cell_write_def cellValueAt_def)
  next
    fix r c assume "r < data_offset t \<and> length (Headers t) \<le> c \<or> data_offset t + length (Rows t) \<le> r"
    then show "grid_writes (buildMixedModeBatches ?e t n) r c = []" using off unfolding all by auto
  next
    fix i c w assume i: "i < length (Rows t)" "length (Rows t ! i) \<le> c"
      and w: "w \<in> set (grid_writes (buildMixedModeBatches ?e t n) (data_offset t + i) c)"
    have "\<not> (data_offset t + i = 0 \<and> c < length (Headers t))" using off by auto
    then show "snd w = AnyStr ''''" using w i unfolding all
      by (auto simp: data_write_def cellValueAt_def split: if_splits)
  qed
qed

lemma well_addressed_slice:
  assumes "Rows t \<noteq> []" "startCol s \<le> endCol s"
  shows "list_all (well_addressed title) (slice_batches (EscapeSheetTitle title) t (Suc off) (off + length (Rows t)) s)"
proof (cases "kind s = ColMixed")
  case True
  let ?key = "\<lambda>r. cellIsFormulaAt (Rows t ! r) (startCol s)"
  have seg: "chain 0 (segments ?key (\<lambda>_. False) (length (Rows t))) (length (Rows t))"
    using segments_ok [of "length (Rows t)" ?key "\<lambda>_. False"] assms by (simp add: Suc_leI)
  have "well_addressed title (flush_run (EscapeSheetTitle title) t c (Suc off) a b f)" if "a \<le> b" for a b c f
    using that by (simp add: well_addressed_def read_flush) (simp add: flush_run_def Let_def list_all_iff Suc_diff_le del: upt_Suc)
  then show ?thesis using True chain_in [OF seg] by (auto simp: slice_batches_def mixed_segments list_all_iff)
next
  case False
  obtain n where n: "length (Rows t) = Suc n" using assms(1) by (cases "Rows t") auto
  show ?thesis using False assms n read_slice [of title "startCol s" off "endCol s" n]
    by (simp add: slice_batches_def well_addressed_def extractSliceValues_def list_all_iff)
qed

lemma prepared_well_addressed: "list_all (well_addressed title) (prepareValueUpdates title (Some t))"
proof (cases "checkTableHasFormulas t \<and> table_ColCount t \<noteq> 0")
  case True
  let ?n = "table_ColCount t"
  let ?off = "data_offset t"
  have "well_addressed title b" if s: "s \<in> set (partitionColumns t ?n)" and r: "Rows t \<noteq> []"
    and b: "b \<in> set (slice_batches (EscapeSheetTitle title) t (Suc ?off) (?off + length (Rows t)) s)" for s b
  proof -
    obtain iv where iv: "iv \<in> set (segments ((!) (classifyColumns t ?n)) ((=) ColMixed) ?n)" "s = slice_of (classifyColumns t ?n) iv"
      using s by (auto simp: partition_segments)
    have "startCol s \<le> endCol s"
      using chain_in [OF conjunct1 [OF segments_ok] iv(1)] iv True by (simp add: slice_of_def Suc_leI)
    then show ?thesis using well_addressed_slice [OF r, of s title ?off] b by (simp add: list_all_iff)
  qed
  moreover have "well_addressed title \<lparr>vb_Range = EscapeSheetTitle title @ ''!A1:'' @ ColIndexToA1 (int (length (Headers t)) - 1) @ ''1'',
      vb_Option = InputOptionRaw, vb_Values = [header_row t]\<rparr>" if "Headers t \<noteq> []"
    using that read_header [of "length (Headers t)" title] by (simp add: well_addressed_def header_row_def)
  ultimately show ?thesis using True
    by (auto simp: prepareValueUpdates_def buildMixedModeBatches_def Let_def list_all_iff data_offset_def numeral_2_eq_2)
next
  case False
  have "well_addressed title b" if "b \<in> set (buildAllRawBatch (EscapeSheetTitle title) t)" for b
    using that read_first [of title] by (simp add: buildAllRawBatch_def well_addressed_def)
  then show ?thesis using False by (auto simp: prepareValueUpdates_def Let_def list_all_iff)
qed

lemma prepared_writes_table: "writes_table t (prepareValueUpdates title (Some t))"
proof (cases "table_ColCount t = 0")
  case True
  then have "Headers t = []" "\<forall>i < length (Rows t). Rows t ! i = []" using ColCount_bounds(1) [of t] ColCount_nth [of _ t] by auto
  then show ?thesis using True by (auto simp: writes_table_def prepareValueUpdates_def Let_def)
next
  case False
  have "prepareValueUpdates title (Some t) = (if \<not> checkTableHasFormulas t then buildAllRawBatch (EscapeSheetTitle title) t
      else buildMixedModeBatches (EscapeSheetTitle title) t (table_ColCount t))"
    using False by (auto simp: prepareValueUpdates_def Let_def table_ColCount_def)
  then show ?thesis using False raw_batch_writes [of t title] mixed_batches_writes [of _ t title] by simp
qed

lemma prepared_columns:
  assumes "grid_writes (prepareValueUpdates title (Some t)) r c \<noteq> []"
  shows "c < table_ColCount t"
proof -
  let ?n = "table_ColCount t" and ?e = "EscapeSheetTitle title"
  have n: "1 \<le> ?n" using assms by (cases "?n = 0") (auto simp: prepareValueUpdates_def Let_def split: if_splits)
  have hdr: "c < length (Headers t) \<Longrightarrow> c < ?n" using ColCount_bounds(1) [of t] by simp
  show ?thesis
  proof (cases "checkTableHasFormulas t")
    case False
    then have "grid_writes (buildAllRawBatch ?e t) r c \<noteq> []" using assms n by (auto simp: prepareValueUpdates_def Let_def split: if_splits)
    then have "c < length (((if length (Headers t) > 0 then [header_row t] else []) @ map (map RawVal) (Rows t)) ! r)"
      and "r < length ((if length (Headers t) > 0 then [header_row t] else []) @ map (map RawVal) (Rows t))"
      by (auto simp: buildAllRawBatch_def written_at_def read_first split: if_splits)
    then show ?thesis using hdr ColCount_nth [of r t] ColCount_nth [of "r - 1" t]
      by (cases r) (auto simp: nth_append header_row_def split: if_splits)
  next
    case True
    then have w: "grid_writes (buildMixedModeBatches ?e t ?n) r c \<noteq> []" using assms n by (auto simp: prepareValueUpdates_def Let_def split: if_splits)
    have "Rows t \<noteq> []" using True by (auto simp: checkTableHasFormulas_def)
    then have data: "grid_writes (concat (map (slice_batches ?e t (Suc (data_offset t)) (data_offset t + length (Rows t))) (partitionColumns t ?n))) r c \<noteq> [] \<Longrightarrow> c < ?n"
      using slices_write [OF _ n, of t title "data_offset t" r c] by (simp split: if_splits)
    have "written_at r c \<lparr>vb_Range = ?e @ ''!A1:'' @ ColIndexToA1 (int (length (Headers t)) - 1) @ ''1'', vb_Option = InputOptionRaw, vb_Values = [header_row t]\<rparr> \<noteq> []
        \<Longrightarrow> Headers t \<noteq> [] \<Longrightarrow> c < length (Headers t)"
      using read_header [of "length (Headers t)" title] by (auto simp: written_at_def header_row_def split: if_splits)
    then show ?thesis using w data hdr
      by (auto simp: buildMixedModeBatches_def Let_def data_offset_def numeral_2_eq_2 split: if_splits)
  qed
qed

lemma prepared_rows:
  assumes "grid_writes (prepareValueUpdates title (Some t)) r c \<noteq> []"
  shows "r < data_offset t + length (Rows t)"
  using assms prepared_writes_table [of t title] unfolding writes_table_def by (meson not_less)

subsection \<open>Properties\<close>

text \<open>C3. The value updates of a table write the table: each is addressed to the given tab whatever its title and its range
  has the shape of its values; read as cells of the grid, every header and every cell of a row is written exactly
  once at its own place, headers and literals as RAW and formulas as USER_ENTERED, a gap of a short row is left alone or filled
  with the empty text, and nothing else is written.\<close>
theorem value_updates_write_table:
  "let bs = prepareValueUpdates title (Some t) in
     list_all (well_addressed title) bs
   \<and> (\<forall>c < length (Headers t). grid_writes bs 0 c = [(InputOptionRaw, AnyStr (Headers t ! c))])
   \<and> (\<forall>i < length (Rows t). \<forall>c < length (Rows t ! i). grid_writes bs (data_offset t + i) c =
        [(if IsFormula (Rows t ! i ! c) then InputOptionUserEntered else InputOptionRaw, RawVal (Rows t ! i ! c))])
   \<and> (\<forall>i < length (Rows t). \<forall>c. length (Rows t ! i) \<le> c \<longrightarrow> (\<forall>w \<in> set (grid_writes bs (data_offset t + i) c). snd w = AnyStr ''''))
   \<and> (\<forall>r c. r < data_offset t \<and> length (Headers t) \<le> c \<or> data_offset t + length (Rows t) \<le> r \<longrightarrow> grid_writes bs r c = [])"
  using prepared_well_addressed [of title t] prepared_writes_table [of t title]
  by (simp add: Let_def writes_table_def cell_write_def input_option_def)

definition demo_table :: "unit table" where
  "demo_table = AddRow [plain_cell (AnyStr ''=1+1''), Formula ''=A1''] (AddRow [plain_cell (AnyStr ''x''), plain_cell (AnyStr ''y'')] (NewTable [''a'', ''b'']))"

theorem value_updates_write_table_witness:
  "grid_writes (prepareValueUpdates ''it's'' (Some demo_table)) 2 0 = [(''RAW'', AnyStr ''=1+1'')]
   \<and> grid_writes (prepareValueUpdates ''it's'' (Some demo_table)) 2 1 = [(''USER_ENTERED'', AnyStr ''=A1'')]"
proof -
  have "length (Rows demo_table) = 2" "length (Rows demo_table ! 1) = 2" "data_offset demo_table = 1"
    "Rows demo_table ! 1 ! 0 = plain_cell (AnyStr ''=1+1'')" "Rows demo_table ! 1 ! 1 = Formula ''=A1''"
    by (simp_all add: demo_table_def AddRow_def NewTable_def data_offset_def)
  then show ?thesis using value_updates_write_table [of "''it's''" demo_table]
    by (auto simp: Let_def Formula_def InputOptionRaw_def InputOptionUserEntered_def numeral_2_eq_2 elim!: allE [of _ 1])
qed

text \<open>C8. No formula injection: whatever the table holds, a value reaches the tab as USER_ENTERED only when it is the value of a
  formula cell at that very place (or the empty text of a gap). In particular a row added by \<open>AddRowValues\<close> from values that are not
  cells, with any text, holds no formula cell.\<close>
theorem no_formula_injection:
  "((InputOptionUserEntered, v) \<in> set (grid_writes (prepareValueUpdates title (Some t)) r c) \<longrightarrow>
      v = AnyStr '''' \<or> (\<exists>i < length (Rows t). r = data_offset t + i \<and> c < length (Rows t ! i)
         \<and> IsFormula (Rows t ! i ! c) \<and> RawVal (Rows t ! i ! c) = v))
   \<and> (list_all (\<lambda>x. \<forall>u f l. x \<noteq> AnyCell u f l) vs \<longrightarrow>
      list_all (\<lambda>cl. \<not> IsFormula cl) (last (Rows (AddRowValues p vs t))))"
proof (intro conjI impI)
  let ?bs = "prepareValueUpdates title (Some t)"
  assume w: "(InputOptionUserEntered, v) \<in> set (grid_writes ?bs r c)"
  have T: "writes_table t ?bs" by (rule prepared_writes_table)
  have ne: "InputOptionUserEntered \<noteq> InputOptionRaw" by (simp add: InputOptionRaw_def InputOptionUserEntered_def)
  show "v = AnyStr '''' \<or> (\<exists>i < length (Rows t). r = data_offset t + i \<and> c < length (Rows t ! i)
         \<and> IsFormula (Rows t ! i ! c) \<and> RawVal (Rows t ! i ! c) = v)"
  proof (cases "data_offset t \<le> r \<and> r - data_offset t < length (Rows t)")
    case True
    define i where "i = r - data_offset t"
    have i: "i < length (Rows t)" "r = data_offset t + i" using True by (auto simp: i_def)
    show ?thesis
    proof (cases "c < length (Rows t ! i)")
      case True
      then have "grid_writes ?bs r c = [cell_write (Rows t ! i ! c)]" using T i by (simp add: writes_table_def)
      then show ?thesis using w i True ne by (auto simp: cell_write_def input_option_def split: if_splits)
    next
      case False
      then have "\<forall>x \<in> set (grid_writes ?bs r c). snd x = AnyStr ''''" using T i unfolding writes_table_def
        by (metis not_less)
      from bspec [OF this w] show ?thesis by simp
    qed
  next
    case False
    show ?thesis
    proof (cases "r < data_offset t \<and> c < length (Headers t)")
      case True
      then have "r = 0" by (auto simp: data_offset_def split: if_splits)
      then show ?thesis using T w True ne by (auto simp: writes_table_def)
    next
      case out: False
      have "r < data_offset t \<and> length (Headers t) \<le> c \<or> data_offset t + length (Rows t) \<le> r" using False out by auto
      then have "grid_writes ?bs r c = []" using T unfolding writes_table_def by blast
      then show ?thesis using w by simp
    qed
  qed
next
  assume "list_all (\<lambda>x. \<forall>u f l. x \<noteq> AnyCell u f l) vs"
  then show "list_all (\<lambda>cl. \<not> IsFormula cl) (last (Rows (AddRowValues p vs t)))"
    by (auto simp: AddRowValues_def list_all_iff valueToCell_formula split: any_value.splits)
qed

definition demo_printing :: "unit printing" where
  "demo_printing = \<lparr>pr_float = (\<lambda>_. ''0''), pr_time = (\<lambda>_. ''t''), pr_format = (\<lambda>l _. l), pr_other = (\<lambda>_. ''o''), pr_stringer = (\<lambda>_. None)\<rparr>"

theorem no_formula_injection_witness:
  "list_all (\<lambda>cl. \<not> IsFormula cl) (last (Rows (AddRowValues demo_printing [AnyStr ''=HYPERLINK(0)''] demo_table)))
   \<and> (InputOptionUserEntered, AnyStr ''y'') \<notin> set (grid_writes (prepareValueUpdates ''t'' (Some demo_table)) 1 1)"
proof -
  have "length (Rows demo_table) = 2" "data_offset demo_table = 1" "\<not> IsFormula (Rows demo_table ! 0 ! 1)"
    by (simp_all add: demo_table_def AddRow_def NewTable_def data_offset_def)
  then show ?thesis
    using no_formula_injection [of "AnyStr ''y''" "''t''" demo_table 1 1 "[AnyStr ''=HYPERLINK(0)'']" demo_printing] by auto
qed

end
