(* ===== verification/Sheets_Format.thy ===== *)
theory Sheets_Format
  imports Sheets_Batches
begin

section \<open>google/workspace/sheets: formatting requests\<close>

text \<open>
  \<open>src/go/google/workspace/sheets/types.go\<close> (colours, themes, tab specifications), \<open>theme.go\<close> and \<open>formatter.go\<close>. The
  requests of the Sheets API that the code builds are the constructors of \<open>sheet_request\<close>; a field that the code leaves out of
  a range has the zero value, as in the API's structs. \<open>fmt.Sscanf\<close> with \<open>%02x%02x%02x\<close> is a parameter of the colours.
\<close>

record color =
  Red :: float64
  Green :: float64
  Blue :: float64
  Alpha :: float64

definition colorMax :: float64 where "colorMax = float_of_int 255"
definition hexLen :: nat where "hexLen = 6"
definition DefaultSheetTitle :: string where "DefaultSheetTitle = ''Sheet1''"

definition RGBA :: "nat \<Rightarrow> nat \<Rightarrow> nat \<Rightarrow> float64 \<Rightarrow> color" where
  "RGBA r g b a = \<lparr>Red = fdiv (float_of_int (int r)) colorMax, Green = fdiv (float_of_int (int g)) colorMax,
     Blue = fdiv (float_of_int (int b)) colorMax, Alpha = a\<rparr>"

definition RGB :: "nat \<Rightarrow> nat \<Rightarrow> nat \<Rightarrow> color" where
  "RGB r g b = RGBA r g b (float_of_int 1)"

definition zero_color :: color where
  "zero_color = \<lparr>Red = Fin 0, Green = Fin 0, Blue = Fin 0, Alpha = Fin 0\<rparr>"

definition Hex :: "(string \<Rightarrow> nat \<times> nat \<times> nat) \<Rightarrow> string \<Rightarrow> color" where
  "Hex scan h =
     (let h1 = (if h \<noteq> '''' \<and> hd h = CHR 0x23 then tl h else h) in
      if length h1 \<noteq> hexLen then zero_color\<lparr>Alpha := float_of_int 1\<rparr>
      else (case scan h1 of (r, g, b) \<Rightarrow> RGB r g b))"

record theme =
  HeaderBackground :: color
  HeaderForeground :: color
  HeaderBold :: bool
  EnableBanding :: bool
  ZebraFirstBand :: color
  ZebraSecondBand :: color
  AutoFitColumns :: bool
  MinColumnWidth :: int
  MaxColumnWidth :: int
  th_ColumnWidths :: "int \<rightharpoonup> int"

record 'o tab_spec =
  ts_Title :: string
  ts_GID :: int
  CreateIfMissing :: bool
  SkipFormatting :: bool
  FrozenRows :: int
  FrozenCols :: int
  ts_Theme :: "theme option"
  ts_Data :: "'o table option"

definition banded_theme :: "(string \<Rightarrow> nat \<times> nat \<times> nat) \<Rightarrow> string \<Rightarrow> string \<Rightarrow> (string \<times> string) option \<Rightarrow> theme" where
  "banded_theme scan bg fg bands =
     \<lparr>HeaderBackground = Hex scan bg, HeaderForeground = Hex scan fg, HeaderBold = True, EnableBanding = (bands \<noteq> None),
      ZebraFirstBand = (case bands of None \<Rightarrow> zero_color | Some (a, b) \<Rightarrow> Hex scan a),
      ZebraSecondBand = (case bands of None \<Rightarrow> zero_color | Some (a, b) \<Rightarrow> Hex scan b),
      AutoFitColumns = True, MinColumnWidth = 0, MaxColumnWidth = 0, th_ColumnWidths = Map.empty\<rparr>"

definition ThemeCorporateNavy :: "(string \<Rightarrow> nat \<times> nat \<times> nat) \<Rightarrow> theme" where
  "ThemeCorporateNavy scan = banded_theme scan ''#1C4E78'' ''#FFFFFF'' (Some (''#FFFFFF'', ''#F0F4F8''))"
definition ThemeCorporateNavyPlain :: "(string \<Rightarrow> nat \<times> nat \<times> nat) \<Rightarrow> theme" where
  "ThemeCorporateNavyPlain scan = banded_theme scan ''#1C4E78'' ''#FFFFFF'' None"
definition ThemeModernSlate :: "(string \<Rightarrow> nat \<times> nat \<times> nat) \<Rightarrow> theme" where
  "ThemeModernSlate scan = banded_theme scan ''#334155'' ''#FFFFFF'' (Some (''#FFFFFF'', ''#F8FAFC''))"
definition ThemeEmeraldForest :: "(string \<Rightarrow> nat \<times> nat \<times> nat) \<Rightarrow> theme" where
  "ThemeEmeraldForest scan = banded_theme scan ''#065F46'' ''#FFFFFF'' (Some (''#FFFFFF'', ''#F0FDF4''))"
definition ThemeCleanMinimal :: "(string \<Rightarrow> nat \<times> nat \<times> nat) \<Rightarrow> theme" where
  "ThemeCleanMinimal scan = banded_theme scan ''#E2E8F0'' ''#0F172A'' None"

subsection \<open>Requests\<close>

record grid_range =
  gr_SheetId :: int
  gr_StartRow :: int
  gr_EndRow :: int
  gr_StartCol :: int
  gr_EndCol :: int

record grid_properties =
  gp_RowCount :: int
  gp_ColumnCount :: int
  gp_FrozenRows :: int
  gp_FrozenCols :: int

datatype sheet_request =
    ReqAddSheet string
  | ReqDeleteSheet int
  | ReqGridProperties int grid_properties string
  | ReqDeleteBanding int
  | ReqRepeatCell grid_range "(color \<times> bool \<times> color) option" string
  | ReqAddBanding grid_range color color
  | ReqAutoResize int int int
  | ReqColumnWidth int int int int
  | ReqLink grid_range string

definition frozen_rows_of :: "'o tab_spec \<Rightarrow> int" where
  "frozen_rows_of spec =
     (if FrozenRows spec = 0 \<and> (case ts_Data spec of None \<Rightarrow> False | Some t \<Rightarrow> length (Headers t) > 0) then 1 else FrozenRows spec)"

definition freezeFields :: string where
  "freezeFields = ''gridProperties.frozenRowCount,gridProperties.frozenColumnCount''"

definition buildFreezeAndClearRequests :: "int \<Rightarrow> int \<Rightarrow> int \<Rightarrow> int \<Rightarrow> sheet_request list" where
  "buildFreezeAndClearRequests sheetID frozenRows frozenCols totalRows =
     [ReqGridProperties sheetID \<lparr>gp_RowCount = 0, gp_ColumnCount = 0, gp_FrozenRows = frozenRows, gp_FrozenCols = frozenCols\<rparr> freezeFields]
     @ (if totalRows > frozenRows
        then [ReqRepeatCell \<lparr>gr_SheetId = sheetID, gr_StartRow = frozenRows, gr_EndRow = 0, gr_StartCol = 0, gr_EndCol = 0\<rparr> None ''userEnteredFormat'']
        else [])"

definition buildHeaderFormatRequest :: "int \<Rightarrow> int \<Rightarrow> theme \<Rightarrow> sheet_request option" where
  "buildHeaderFormatRequest sheetID frozenRows th =
     (if frozenRows \<le> 0 then None
      else Some (ReqRepeatCell \<lparr>gr_SheetId = sheetID, gr_StartRow = 0, gr_EndRow = frozenRows, gr_StartCol = 0, gr_EndCol = 0\<rparr>
        (Some (HeaderBackground th, HeaderBold th, HeaderForeground th)) ''userEnteredFormat(backgroundColor,textFormat)''))"

definition buildBandingRequest :: "int \<Rightarrow> int \<Rightarrow> int \<Rightarrow> int \<Rightarrow> theme \<Rightarrow> sheet_request option" where
  "buildBandingRequest sheetID frozenRows totalRows totalCols th =
     (if \<not> EnableBanding th \<or> totalRows \<le> frozenRows \<or> totalCols \<le> 0 then None
      else Some (ReqAddBanding \<lparr>gr_SheetId = sheetID, gr_StartRow = frozenRows, gr_EndRow = totalRows, gr_StartCol = 0, gr_EndCol = totalCols\<rparr>
        (ZebraFirstBand th) (ZebraSecondBand th)))"

definition defaultEstWidth :: int where "defaultEstWidth = 100"
definition minEstWidth :: int where "minEstWidth = 60"
definition charPixelEstimate :: int where "charPixelEstimate = 8"
definition cellPaddingEstimate :: int where "cellPaddingEstimate = 30"

definition clampWidth :: "int \<Rightarrow> int \<Rightarrow> int \<Rightarrow> int" where
  "clampWidth w minW maxW =
     (let w1 = (if minW > 0 then max w minW else w) in if maxW > 0 then min w1 maxW else w1)"

definition longest :: "'o printing \<Rightarrow> nat \<Rightarrow> 'o cell list list \<Rightarrow> nat \<Rightarrow> nat" where
  "longest p colIdx rows m =
     fold (\<lambda>row m. if colIdx \<ge> length row then m
       else (let s = go_sprint p (RawVal (row ! colIdx)) in if length s > m then length s else m)) rows m"

definition estimateColumnContentWidth :: "'o printing \<Rightarrow> 'o table option \<Rightarrow> nat \<Rightarrow> int" where
  "estimateColumnContentWidth p data colIdx =
     (case data of None \<Rightarrow> defaultEstWidth
      | Some t \<Rightarrow>
          let maxChars = longest p colIdx (Rows t) (if colIdx < length (Headers t) then length (Headers t ! colIdx) else 0);
              estimated = wrap64 (int maxChars * charPixelEstimate + cellPaddingEstimate)
          in max estimated minEstWidth)"

definition resolveColumnConstraint :: "nat \<Rightarrow> 'o table option \<Rightarrow> theme option \<Rightarrow> column_constraint" where
  "resolveColumnConstraint colIdx data th =
     (let i = int colIdx;
          c0 = (case data of None \<Rightarrow> zero_constraint | Some t \<Rightarrow> constraint_at (ColumnConstraints t) i);
          c1 = (if cc_Width c0 = 0 then (case data of None \<Rightarrow> c0 | Some t \<Rightarrow> c0\<lparr>cc_Width := width_at (ColumnWidths t) i\<rparr>) else c0);
          c2 = (if cc_Width c1 = 0 then (case th of None \<Rightarrow> c1 | Some h \<Rightarrow> c1\<lparr>cc_Width := width_at (th_ColumnWidths h) i\<rparr>) else c1);
          c3 = (if cc_MinWidth c2 \<le> 0 then (case th of None \<Rightarrow> c2 | Some h \<Rightarrow> c2\<lparr>cc_MinWidth := MinColumnWidth h\<rparr>) else c2)
      in if cc_MaxWidth c3 \<le> 0 then (case th of None \<Rightarrow> c3 | Some h \<Rightarrow> c3\<lparr>cc_MaxWidth := MaxColumnWidth h\<rparr>) else c3)"

definition computeColumnWidth :: "'o printing \<Rightarrow> nat \<Rightarrow> 'o table option \<Rightarrow> theme option \<Rightarrow> int" where
  "computeColumnWidth p colIdx data th =
     (let c = resolveColumnConstraint colIdx data th in
      if cc_Width c > 0 then clampWidth (cc_Width c) (cc_MinWidth c) (cc_MaxWidth c)
      else if cc_MinWidth c > 0 \<or> cc_MaxWidth c > 0
        then clampWidth (estimateColumnContentWidth p data colIdx) (cc_MinWidth c) (cc_MaxWidth c)
        else 0)"

text \<open>The map of the widths that are positive.\<close>

definition resolveFinalColumnWidths :: "'o printing \<Rightarrow> nat \<Rightarrow> 'o table option \<Rightarrow> theme option \<Rightarrow> (nat \<rightharpoonup> int)" where
  "resolveFinalColumnWidths p totalCols data th =
     (if data = None \<and> th = None then Map.empty
      else fold (\<lambda>c m. let w = computeColumnWidth p c data th in if w > 0 then m(c \<mapsto> w) else m) [0..<totalCols] Map.empty)"

definition buildColumnDimensionRequests :: "'o printing \<Rightarrow> int \<Rightarrow> nat \<Rightarrow> 'o tab_spec \<Rightarrow> theme \<Rightarrow> sheet_request list" where
  "buildColumnDimensionRequests p sheetID totalCols spec th =
     (if AutoFitColumns th \<and> totalCols > 0 then [ReqAutoResize sheetID 0 (int totalCols)] else [])
     @ (let widths = resolveFinalColumnWidths p totalCols (ts_Data spec) (Some th) in
        concat (map (\<lambda>c. case widths c of None \<Rightarrow> [] | Some w \<Rightarrow> if w \<le> 0 then [] else [ReqColumnWidth sheetID (int c) (int c + 1) w])
          [0..<totalCols]))"

definition opt_list :: "'a option \<Rightarrow> 'a list" where
  "opt_list x = (case x of None \<Rightarrow> [] | Some y \<Rightarrow> [y])"

definition buildFormatRequests :: "(string \<Rightarrow> nat \<times> nat \<times> nat) \<Rightarrow> 'o printing \<Rightarrow> int \<Rightarrow> int list \<Rightarrow> 'o tab_spec \<Rightarrow> int \<Rightarrow> nat \<Rightarrow> sheet_request list" where
  "buildFormatRequests scan p sheetID bandedIDs spec totalRows totalCols =
     (if SkipFormatting spec then []
      else let th = (case ts_Theme spec of None \<Rightarrow> ThemeCorporateNavy scan | Some h \<Rightarrow> h);
               frozenRows = frozen_rows_of spec
        in (if EnableBanding th then map ReqDeleteBanding bandedIDs else [])
           @ buildFreezeAndClearRequests sheetID frozenRows (FrozenCols spec) totalRows
           @ opt_list (buildHeaderFormatRequest sheetID frozenRows th)
           @ opt_list (buildBandingRequest sheetID frozenRows totalRows (int totalCols) th)
           @ buildColumnDimensionRequests p sheetID totalCols spec th)"

definition link_request :: "int \<Rightarrow> nat \<Rightarrow> nat \<Rightarrow> string \<Rightarrow> sheet_request" where
  "link_request sheetID r c url =
     ReqLink \<lparr>gr_SheetId = sheetID, gr_StartRow = int r, gr_EndRow = int (r + 1), gr_StartCol = int c, gr_EndCol = int (c + 1)\<rparr> url"

fun link_row :: "int \<Rightarrow> nat \<Rightarrow> nat \<Rightarrow> 'o cell list \<Rightarrow> sheet_request list" where
  "link_row sheetID r c [] = []"
| "link_row sheetID r c (x # xs) =
     (if LinkURL x = '''' then link_row sheetID r (Suc c) xs
      else link_request sheetID r c (LinkURL x) # link_row sheetID r (Suc c) xs)"

fun link_rows :: "int \<Rightarrow> nat \<Rightarrow> 'o cell list list \<Rightarrow> sheet_request list" where
  "link_rows sheetID r [] = []"
| "link_rows sheetID r (x # xs) = link_row sheetID r 0 x @ link_rows sheetID (Suc r) xs"

definition buildRichLinkRequests :: "int \<Rightarrow> 'o table option \<Rightarrow> sheet_request list" where
  "buildRichLinkRequests sheetID tbl =
     (case tbl of None \<Rightarrow> []
      | Some t \<Rightarrow> if Rows t = [] then [] else link_rows sheetID (if length (Headers t) > 0 then 1 else 0) (Rows t))"

subsection \<open>Lemmas\<close>

lemma link_row_set:
  "q \<in> set (link_row s r c xs) \<longleftrightarrow> (\<exists>j < length xs. LinkURL (xs ! j) \<noteq> '''' \<and> q = link_request s r (c + j) (LinkURL (xs ! j)))"
proof (induction xs arbitrary: c)
  case (Cons x xs)
  show ?case by (auto simp: Cons.IH Ex_less_Suc2)
qed simp

lemma link_rows_set:
  "q \<in> set (link_rows s r xs) \<longleftrightarrow> (\<exists>i < length xs. \<exists>j < length (xs ! i). LinkURL (xs ! i ! j) \<noteq> '''' \<and> q = link_request s (r + i) j (LinkURL (xs ! i ! j)))"
proof (induction xs arbitrary: r)
  case (Cons x xs)
  show ?case by (auto simp: Cons.IH Ex_less_Suc2 link_row_set)
qed simp

lemma rich_links_set:
  "q \<in> set (buildRichLinkRequests s (Some t)) \<longleftrightarrow>
    (\<exists>i < length (Rows t). \<exists>j < length (Rows t ! i). LinkURL (Rows t ! i ! j) \<noteq> '''' \<and> q = link_request s (data_offset t + i) j (LinkURL (Rows t ! i ! j)))"
  by (auto simp: buildRichLinkRequests_def link_rows_set data_offset_def)

lemma clampWidth_bounds:
  "0 < maxW \<Longrightarrow> clampWidth w minW maxW \<le> maxW"
  "0 < minW \<Longrightarrow> maxW \<le> 0 \<or> minW \<le> maxW \<Longrightarrow> minW \<le> clampWidth w minW maxW"
  "0 < w \<Longrightarrow> 0 < clampWidth w minW maxW"
  by (auto simp: clampWidth_def Let_def)

lemma estimate_pos: "0 < estimateColumnContentWidth p data c"
  by (auto simp: estimateColumnContentWidth_def Let_def defaultEstWidth_def minEstWidth_def split: option.splits)

lemma computed_width_nonneg: "0 \<le> computeColumnWidth p c data th"
  using clampWidth_bounds(3) [OF estimate_pos [of p data c]]
  by (auto simp: computeColumnWidth_def Let_def intro: less_imp_le clampWidth_bounds(3))

lemma resolved_widths:
  "resolveFinalColumnWidths p n data (Some th) c =
     (if c < n \<and> 0 < computeColumnWidth p c data (Some th) then Some (computeColumnWidth p c data (Some th)) else None)"
proof -
  let ?f = "\<lambda>c m. let w = computeColumnWidth p c data (Some th) in if w > 0 then m(c \<mapsto> w) else m"
  have "fold ?f [0..<n] Map.empty c = (if c < n \<and> 0 < computeColumnWidth p c data (Some th) then Some (computeColumnWidth p c data (Some th)) else None)"
    by (induction n) (auto simp: Let_def less_Suc_eq)
  then show ?thesis by (simp add: resolveFinalColumnWidths_def)
qed

lemma width_requests:
  "ReqColumnWidth s a b w \<in> set (buildColumnDimensionRequests p sheetID n spec th) \<longleftrightarrow>
    (\<exists>c < n. s = sheetID \<and> a = int c \<and> b = int c + 1 \<and> w = computeColumnWidth p c (ts_Data spec) (Some th) \<and> 0 < w)"
  by (auto simp: buildColumnDimensionRequests_def Let_def resolved_widths split: if_splits)

end
