(* ===== verification/Sheets_Service.thy ===== *)
theory Sheets_Service
  imports Sheets_Format Retry_Gcp
begin

section \<open>google/workspace/sheets: synchronising tabs and documents\<close>

text \<open>
  \<open>src/go/google/workspace/sheets/service.go\<close>. The Sheets and Drive APIs are a function from a call and the world to an
  error or a reply and the new world; every call goes through \<open>gcp.WithRetry\<close> as in the code. Logging is left out. A nil
  dereference of the code is the value \<open>Panic\<close> of the result; the entries of a list of sheets are not null, their properties may be. Property groups of the API that the code only copies
  (locale, time zone) are kept as text.
\<close>

record sheet_props =
  sp_SheetId :: int
  sp_Title :: string
  sp_Grid :: "(int \<times> int) option"

text \<open>A sheet of a reply: its properties may be missing, and so may entries of its banded ranges.\<close>

record sheet =
  sh_Properties :: "sheet_props option"
  sh_Banded :: "int option list"

record 'o document_spec =
  ds_Title :: string
  ds_Locale :: string
  ds_FolderID :: string
  ds_Tabs :: "'o tab_spec list"
  ds_PruneTabs :: bool

record tab_result =
  tr_SheetID :: int
  tr_Title :: string
  tr_RowCount :: int
  tr_ColumnCount :: int
  tr_RowsWritten :: nat

record document_result =
  dr_SpreadsheetID :: string
  dr_SpreadsheetURL :: string
  dr_Title :: string
  dr_Tabs :: "tab_result list"

text \<open>The calls of the code and what the API may reply. The title of a spreadsheet is a field of its properties, which may be missing.\<close>

datatype 'o api_call =
    CallGet string
  | CallCreate string string "(string \<times> int \<times> int) list"
  | CallBatchUpdate string "sheet_request list"
  | CallClear string string
  | CallUpdate string "'o value_update_batch"
  | CallMove string string

record spreadsheet =
  ss_Id :: string
  ss_Url :: string
  ss_Title :: "string option"
  ss_Sheets :: "sheet list"

datatype reply = RepSpreadsheet spreadsheet | RepAdded "sheet_props option option" | RepDone

text \<open>\<open>RepAdded None\<close>: no reply with an added sheet; \<open>RepAdded (Some ps)\<close>: an added sheet with the properties \<open>ps\<close>.\<close>

datatype ('x, 'a) outcome = Returns 'a | Fails "'x err" | Panic

record ('o, 'x, 'w) client =
  cl_api :: "'o api_call \<Rightarrow> 'w \<Rightarrow> ('x err + reply) \<times> 'w"
  cl_time :: "string \<Rightarrow> int option"
  cl_env :: "'w retry_env"
  cl_foreign :: "'x foreign"
  cl_printing :: "'o printing"
  cl_scan :: "string \<Rightarrow> nat \<times> nat \<times> nat"
  cl_drive :: bool

definition defaultMinRows :: int where "defaultMinRows = 10"
definition defaultMinCols :: int where "defaultMinCols = 10"
definition extraRowsBuffer :: int where "extraRowsBuffer = 5"
definition extraColsBuffer :: int where "extraColsBuffer = 2"

definition ErrMissingSpreadsheetID :: "'x err" where
  "ErrMissingSpreadsheetID = sentinel ''sheets.ErrMissingSpreadsheetID'' ''sheets: spreadsheetID is required''"
definition ErrMissingTabTitleOrGID :: "'x err" where
  "ErrMissingTabTitleOrGID = sentinel ''sheets.ErrMissingTabTitleOrGID'' ''sheets: tab Title or GID is required''"
definition ErrMissingTabs :: "'x err" where
  "ErrMissingTabs = sentinel ''sheets.ErrMissingTabs'' ''sheets: at least one tab is required in DocumentSpec''"
definition ErrTabNotFound :: "'x err" where
  "ErrTabNotFound = sentinel ''sheets.ErrTabNotFound'' ''sheets: tab not found''"

text \<open>One API call through \<open>gcp.WithRetry\<close> with the default options; \<open>inner\<close> is the text the callback wraps its error with, and
  \<open>outer\<close> the one around the whole.\<close>

definition retried :: "('o, 'x, 'w) client \<Rightarrow> string \<Rightarrow> string \<Rightarrow> 'o api_call \<Rightarrow> 'w \<Rightarrow> ('x err + reply) \<times> 'w" where
  "retried cl outer inner call w =
     (case WithRetryVal (cl_time cl) (cl_env cl) (cl_foreign cl)
         (\<lambda>w. case cl_api cl call w of (Inl e, w') \<Rightarrow> (Inl (wrapf inner e), w') | (Inr r, w') \<Rightarrow> (Inr r, w')) [] w of
        (Some (Inr r), w') \<Rightarrow> (Inr r, w')
      | (Some (Inl e), w') \<Rightarrow> (Inl (wrapf outer e), w')
      | (None, w') \<Rightarrow> (Inr RepDone, w'))"

text \<open>A call of which only the error counts.\<close>

definition perform :: "('o, 'x, 'w) client \<Rightarrow> string \<Rightarrow> string \<Rightarrow> 'o api_call \<Rightarrow> 'w \<Rightarrow> 'x err option \<times> 'w" where
  "perform cl outer inner call w =
     (case retried cl outer inner call w of (Inl e, w') \<Rightarrow> (Some e, w') | (Inr r, w') \<Rightarrow> (None, w'))"

definition findMatch :: "'o tab_spec \<Rightarrow> sheet \<Rightarrow> bool" where
  "findMatch spec sh =
     (case sh_Properties sh of
        None \<Rightarrow> False
      | Some ps \<Rightarrow> (ts_Title spec \<noteq> '''' \<and> sp_Title ps = ts_Title spec)
          \<or> (ts_Title spec = '''' \<and> ts_GID spec \<ge> 0 \<and> sp_SheetId ps = ts_GID spec)
          \<or> (ts_GID spec > 0 \<and> sp_SheetId ps = ts_GID spec))"

definition findMatchingSheet :: "sheet list \<Rightarrow> 'o tab_spec \<Rightarrow> sheet option" where
  "findMatchingSheet shs spec = List.find (findMatch spec) shs"

text \<open>The created tab is None when the reply names no added sheet.\<close>

definition createNewTab :: "('o, 'x, 'w) client \<Rightarrow> string \<Rightarrow> string \<Rightarrow> 'w \<Rightarrow> ('x err + sheet option) \<times> 'w" where
  "createNewTab cl sid title0 w =
     (let title = (if title0 = '''' then DefaultSheetTitle else title0) in
      case retried cl (''sheets: add tab '' @ go_quote title @ '': '') ''sheets: batch update add sheet: '' (CallBatchUpdate sid [ReqAddSheet title]) w of
        (Inl e, w') \<Rightarrow> (Inl e, w')
      | (Inr (RepAdded (Some ps)), w') \<Rightarrow> (Inr (Some \<lparr>sh_Properties = ps, sh_Banded = []\<rparr>), w')
      | (Inr _, w') \<Rightarrow> (Inr None, w'))"

definition empty_spreadsheet :: spreadsheet where
  "empty_spreadsheet = \<lparr>ss_Id = '''', ss_Url = '''', ss_Title = None, ss_Sheets = []\<rparr>"

definition spreadsheet_of :: "reply \<Rightarrow> spreadsheet" where
  "spreadsheet_of r = (case r of RepSpreadsheet s \<Rightarrow> s | _ \<Rightarrow> empty_spreadsheet)"

definition get_spreadsheet :: "('o, 'x, 'w) client \<Rightarrow> string \<Rightarrow> 'w \<Rightarrow> ('x err + spreadsheet) \<times> 'w" where
  "get_spreadsheet cl sid w =
     (case retried cl (''sheets: get spreadsheet '' @ sid @ '': '') ''sheets api get: '' (CallGet sid) w of
        (Inl e, w') \<Rightarrow> (Inl e, w') | (Inr r, w') \<Rightarrow> (Inr (spreadsheet_of r), w'))"

definition resolveOrCreateTab :: "('o, 'x, 'w) client \<Rightarrow> string \<Rightarrow> 'o tab_spec \<Rightarrow> 'w \<Rightarrow> ('x, sheet option) outcome \<times> 'w" where
  "resolveOrCreateTab cl sid spec w =
     (case get_spreadsheet cl sid w of
        (Inl e, w') \<Rightarrow> (Fails e, w')
      | (Inr sp, w') \<Rightarrow>
          (case findMatchingSheet (ss_Sheets sp) spec of
             Some tab \<Rightarrow> (Returns (Some tab), w')
           | None \<Rightarrow>
               if \<not> CreateIfMissing spec then
                 (case ss_Title sp of
                    None \<Rightarrow> (Panic, w')
                  | Some title \<Rightarrow> (Fails (errorf (err_text (ErrTabNotFound :: 'x err) @ '': '' @ go_quote (ts_Title spec) @ '' (gid='' @ show_int (ts_GID spec)
                      @ '') in spreadsheet '' @ go_quote title) [ErrTabNotFound]), w'))
               else (case createNewTab cl sid (ts_Title spec) w' of
                  (Inl e, w'') \<Rightarrow> (Fails e, w'')
                | (Inr tab, w'') \<Rightarrow> (Returns tab, w''))))"

definition calculateTargetGridDimensions :: "sheet_props option \<Rightarrow> 'o table option \<Rightarrow> int \<times> int \<times> int \<times> int" where
  "calculateTargetGridDimensions tab data =
     (let rows0 = (case data of None \<Rightarrow> defaultMinRows | Some t \<Rightarrow> int (table_RowCount t) + 1);
          cols0 = (case data of None \<Rightarrow> defaultMinCols | Some t \<Rightarrow> int (table_ColCount t));
          rowsCount = (if rows0 < defaultMinRows then defaultMinRows else rows0);
          colsCount = (if cols0 < defaultMinCols then defaultMinCols else cols0);
          tr = rowsCount + extraRowsBuffer;
          tc = colsCount + extraColsBuffer
      in (case Option.bind tab sp_Grid of
            None \<Rightarrow> (rowsCount, colsCount, tr, tc)
          | Some (gr, gc) \<Rightarrow> (rowsCount, colsCount, (if gr > tr then gr else tr), (if gc > tc then gc else tc))))"

text \<open>A grid that is already large enough.\<close>

definition grid_fits :: "sheet_props option \<Rightarrow> int \<Rightarrow> int \<Rightarrow> (int \<times> int) option" where
  "grid_fits tab rowsCount colsCount =
     (case Option.bind tab sp_Grid of
        None \<Rightarrow> None
      | Some (gr, gc) \<Rightarrow> if gr \<ge> rowsCount \<and> gc \<ge> colsCount then Some (gr, gc) else None)"

definition resizeTabGridOnly :: "('o, 'x, 'w) client \<Rightarrow> string \<Rightarrow> sheet_props option \<Rightarrow> int \<Rightarrow> int \<Rightarrow> int \<Rightarrow> int \<Rightarrow> 'w \<Rightarrow> ('x, int \<times> int) outcome \<times> 'w" where
  "resizeTabGridOnly cl sid tab rowsCount colsCount tr tc w =
     (case grid_fits tab rowsCount colsCount of
        Some g \<Rightarrow> (Returns g, w)
      | None \<Rightarrow>
          let sheetID = (case tab of None \<Rightarrow> 0 | Some ps \<Rightarrow> sp_SheetId ps); title = (case tab of None \<Rightarrow> '''' | Some ps \<Rightarrow> sp_Title ps) in
          (case perform cl (''sheets: resize tab '' @ go_quote title @ '': '') ''sheets api resize: ''
              (CallBatchUpdate sid [ReqGridProperties sheetID \<lparr>gp_RowCount = tr, gp_ColumnCount = tc, gp_FrozenRows = 0, gp_FrozenCols = 0\<rparr>
                 ''gridProperties.rowCount,gridProperties.columnCount'']) w of
            (Some e, w') \<Rightarrow> (Fails e, w') | (None, w') \<Rightarrow> (Returns (tr, tc), w')))"

definition resizeFields :: string where
  "resizeFields = ''gridProperties.rowCount,gridProperties.columnCount,'' @ freezeFields"

definition resizeTab :: "('o, 'x, 'w) client \<Rightarrow> string \<Rightarrow> sheet_props option \<Rightarrow> 'o tab_spec \<Rightarrow> 'w \<Rightarrow> ('x, int \<times> int) outcome \<times> 'w" where
  "resizeTab cl sid tab spec w =
     (case calculateTargetGridDimensions tab (ts_Data spec) of (rowsCount, colsCount, tr, tc) \<Rightarrow>
        if SkipFormatting spec then resizeTabGridOnly cl sid tab rowsCount colsCount tr tc w
        else (case tab of None \<Rightarrow> (Panic, w)
          | Some ps \<Rightarrow> (case perform cl (''sheets: resize/freeze tab '' @ go_quote (sp_Title ps) @ '': '') ''sheets api resize: ''
              (CallBatchUpdate sid [ReqGridProperties (sp_SheetId ps)
                 \<lparr>gp_RowCount = tr, gp_ColumnCount = tc, gp_FrozenRows = frozen_rows_of spec, gp_FrozenCols = FrozenCols spec\<rparr> resizeFields]) w of
            (Some e, w') \<Rightarrow> (Fails e, w') | (None, w') \<Rightarrow> (Returns (tr, tc), w'))))"

definition clearTab :: "('o, 'x, 'w) client \<Rightarrow> string \<Rightarrow> string \<Rightarrow> 'w \<Rightarrow> 'x err option \<times> 'w" where
  "clearTab cl sid title w =
     perform cl (''sheets: clear tab '' @ go_quote title @ '': '') ''sheets api clear: '' (CallClear sid (EscapeSheetTitle title)) w"

fun write_batches :: "('o, 'x, 'w) client \<Rightarrow> string \<Rightarrow> 'o value_update_batch list \<Rightarrow> 'w \<Rightarrow> 'x err option \<times> 'w" where
  "write_batches cl sid [] w = (None, w)"
| "write_batches cl sid (b # bs) w =
     (case perform cl (''sheets: write range '' @ vb_Range b @ '' (opt='' @ vb_Option b @ ''): '') ''sheets api update values: '' (CallUpdate sid b) w of
        (Some e, w') \<Rightarrow> (Some e, w') | (None, w') \<Rightarrow> write_batches cl sid bs w')"

definition writeTabBatches :: "('o, 'x, 'w) client \<Rightarrow> string \<Rightarrow> string \<Rightarrow> 'o table option \<Rightarrow> 'w \<Rightarrow> ('x err + nat) \<times> 'w" where
  "writeTabBatches cl sid title data w =
     (case data of None \<Rightarrow> (Inr 0, w)
      | Some t \<Rightarrow> (case write_batches cl sid (prepareValueUpdates title (Some t)) w of
          (Some e, w') \<Rightarrow> (Inl e, w') | (None, w') \<Rightarrow> (Inr (table_RowCount t), w')))"

definition applyRichLinks :: "('o, 'x, 'w) client \<Rightarrow> string \<Rightarrow> int \<Rightarrow> 'o table option \<Rightarrow> 'w \<Rightarrow> 'x err option \<times> 'w" where
  "applyRichLinks cl sid sheetID data w =
     (let reqs = buildRichLinkRequests sheetID data in
      if reqs = [] then (None, w)
      else perform cl (''sheets: apply rich links on sheet '' @ show_int sheetID @ '': '') ''sheets api update rich links: '' (CallBatchUpdate sid reqs) w)"

definition format_requests :: "('o, 'x, 'w) client \<Rightarrow> int \<Rightarrow> int list \<Rightarrow> 'o tab_spec \<Rightarrow> sheet_request list" where
  "format_requests cl sheetID bandedIDs spec =
     buildFormatRequests (cl_scan cl) (cl_printing cl) sheetID bandedIDs spec
       (case ts_Data spec of None \<Rightarrow> 1 | Some t \<Rightarrow> int (table_RowCount t) + 1)
       (case ts_Data spec of None \<Rightarrow> 0 | Some t \<Rightarrow> table_ColCount t)"

definition applyTabFormatting :: "('o, 'x, 'w) client \<Rightarrow> string \<Rightarrow> int \<Rightarrow> int list \<Rightarrow> 'o tab_spec \<Rightarrow> 'w \<Rightarrow> 'x err option \<times> 'w" where
  "applyTabFormatting cl sid sheetID bandedIDs spec w =
     (let reqs = format_requests cl sheetID bandedIDs spec in
      if reqs \<noteq> [] then perform cl (''sheets: apply tab formatting on sheet '' @ show_int sheetID @ '': '') ''sheets api batch update format: ''
        (CallBatchUpdate sid reqs) w
      else (None, w))"

definition banded_ids :: "sheet \<Rightarrow> int list" where
  "banded_ids sh = filter (\<lambda>i. i \<noteq> 0) (List.map_filter id (sh_Banded sh))"

definition ReplaceTab :: "('o, 'x, 'w) client \<Rightarrow> string \<Rightarrow> 'o tab_spec \<Rightarrow> 'w \<Rightarrow> ('x, tab_result) outcome \<times> 'w" where
  "ReplaceTab cl sid spec w =
     (if sid = '''' then (Fails ErrMissingSpreadsheetID, w)
      else if ts_Title spec = '''' \<and> ts_GID spec < 0 then (Fails ErrMissingTabTitleOrGID, w)
      else (case resolveOrCreateTab cl sid spec w of
        (Panic, w1) \<Rightarrow> (Panic, w1)
      | (Fails e, w1) \<Rightarrow> (Fails e, w1)
      | (Returns None, w1) \<Rightarrow> (Panic, w1)
      | (Returns (Some tab), w1) \<Rightarrow>
         (case resizeTab cl sid (sh_Properties tab) spec w1 of
            (Panic, w2) \<Rightarrow> (Panic, w2)
          | (Fails e, w2) \<Rightarrow> (Fails e, w2)
          | (Returns (tr, tc), w2) \<Rightarrow>
          (case sh_Properties tab of None \<Rightarrow> (Panic, w2)
           | Some ps \<Rightarrow>
           (case clearTab cl sid (sp_Title ps) w2 of
              (Some e, w3) \<Rightarrow> (Fails e, w3)
            | (None, w3) \<Rightarrow>
            (case writeTabBatches cl sid (sp_Title ps) (ts_Data spec) w3 of
               (Inl e, w4) \<Rightarrow> (Fails e, w4)
             | (Inr n, w4) \<Rightarrow>
             (case (if SkipFormatting spec then (None, w4) else applyTabFormatting cl sid (sp_SheetId ps) (banded_ids tab) spec w4) of
                (Some e, w5) \<Rightarrow> (Fails e, w5)
              | (None, w5) \<Rightarrow>
              (case applyRichLinks cl sid (sp_SheetId ps) (ts_Data spec) w5 of
                 (Some e, w6) \<Rightarrow> (Fails e, w6)
               | (None, w6) \<Rightarrow> (Returns \<lparr>tr_SheetID = sp_SheetId ps, tr_Title = sp_Title ps, tr_RowCount = tr, tr_ColumnCount = tc,
                   tr_RowsWritten = n\<rparr>, w6)))))))))"

definition initial_sheet :: "'o tab_spec \<Rightarrow> string \<times> int \<times> int" where
  "initial_sheet t = (ts_Title t, if SkipFormatting t then (0, 0) else (frozen_rows_of t, FrozenCols t))"

definition buildInitialSheets :: "'o tab_spec list \<Rightarrow> (string \<times> int \<times> int) list" where
  "buildInitialSheets tabs = map initial_sheet tabs"

definition created_gid :: "spreadsheet \<Rightarrow> nat \<Rightarrow> int" where
  "created_gid created i =
     (if i < length (ss_Sheets created) then (case sh_Properties (ss_Sheets created ! i) of None \<Rightarrow> -1 | Some ps \<Rightarrow> sp_SheetId ps) else -1)"

fun populate_from :: "('o, 'x, 'w) client \<Rightarrow> spreadsheet \<Rightarrow> nat \<Rightarrow> 'o tab_spec list \<Rightarrow> 'w \<Rightarrow> ('x, tab_result list) outcome \<times> 'w" where
  "populate_from cl created i [] w = (Returns [], w)"
| "populate_from cl created i (t # ts) w =
     (case ReplaceTab cl (ss_Id created) (t\<lparr>ts_GID := created_gid created i\<rparr>) w of
        (Panic, w') \<Rightarrow> (Panic, w')
      | (Fails e, w') \<Rightarrow> (Fails (wrapf (''sheets: populate tab '' @ go_quote (ts_Title t) @ '': '') e), w')
      | (Returns r, w') \<Rightarrow>
          (case populate_from cl created (Suc i) ts w' of
             (Returns rs, w'') \<Rightarrow> (Returns (r # rs), w'')
           | (Fails e, w'') \<Rightarrow> (Fails e, w'')
           | (Panic, w'') \<Rightarrow> (Panic, w'')))"

definition populateCreatedTabs :: "('o, 'x, 'w) client \<Rightarrow> spreadsheet \<Rightarrow> 'o tab_spec list \<Rightarrow> 'w \<Rightarrow> ('x, tab_result list) outcome \<times> 'w" where
  "populateCreatedTabs cl created tabs w = populate_from cl created 0 tabs w"

text \<open>The failure to move is only logged.\<close>

definition relocateToFolder :: "('o, 'x, 'w) client \<Rightarrow> string \<Rightarrow> string \<Rightarrow> 'w \<Rightarrow> 'w" where
  "relocateToFolder cl sid folder w =
     (if folder = '''' \<or> \<not> cl_drive cl then w
      else snd (perform cl '''' ''drive api update: '' (CallMove sid folder) w))"

definition spreadsheetURL :: "string \<Rightarrow> string" where
  "spreadsheetURL sid = ''https://docs.google.com/spreadsheets/d/'' @ sid"

definition CreateSpreadsheet :: "('o, 'x, 'w) client \<Rightarrow> 'o document_spec \<Rightarrow> 'w \<Rightarrow> ('x, document_result) outcome \<times> 'w" where
  "CreateSpreadsheet cl spec w =
     (if ds_Tabs spec = [] then (Fails ErrMissingTabs, w)
      else let title = (if ds_Title spec = '''' then ''Export'' else ds_Title spec);
               locale = (if ds_Locale spec = '''' then ''nl_NL'' else ds_Locale spec) in
        (case retried cl (''sheets: create spreadsheet '' @ go_quote title @ '': '') ''sheets api create: ''
            (CallCreate title locale (buildInitialSheets (ds_Tabs spec))) w of
           (Inl e, w1) \<Rightarrow> (Fails e, w1)
         | (Inr r, w1) \<Rightarrow>
             let created = spreadsheet_of r in
             (case populateCreatedTabs cl created (ds_Tabs spec) w1 of
                (Panic, w2) \<Rightarrow> (Panic, w2)
              | (Fails e, w2) \<Rightarrow> (Fails e, w2)
              | (Returns rs, w2) \<Rightarrow>
                  (Returns \<lparr>dr_SpreadsheetID = ss_Id created, dr_SpreadsheetURL = (if ss_Url created = '''' then spreadsheetURL (ss_Id created) else ss_Url created),
                     dr_Title = title, dr_Tabs = rs\<rparr>, relocateToFolder cl (ss_Id created) (ds_FolderID spec) w2))))"

definition stale :: "'o tab_spec list \<Rightarrow> tab_result list \<Rightarrow> sheet \<Rightarrow> int option" where
  "stale desired synced sh =
     (case sh_Properties sh of None \<Rightarrow> None
      | Some ps \<Rightarrow> if sp_Title ps \<in> ts_Title ` set desired \<or> sp_SheetId ps \<in> tr_SheetID ` set synced then None else Some (sp_SheetId ps))"

definition pruneStaleTabs :: "('o, 'x, 'w) client \<Rightarrow> string \<Rightarrow> sheet list \<Rightarrow> 'o tab_spec list \<Rightarrow> tab_result list \<Rightarrow> 'w \<Rightarrow> 'x err option \<times> 'w" where
  "pruneStaleTabs cl sid current desired synced w =
     (let reqs = map ReqDeleteSheet (List.map_filter (stale desired synced) current) in
      if reqs = [] then (None, w)
      else perform cl (''sheets: prune stale tabs in spreadsheet '' @ sid @ '': '') ''sheets api batch update delete: '' (CallBatchUpdate sid reqs) w)"

fun sync_tabs :: "('o, 'x, 'w) client \<Rightarrow> string \<Rightarrow> 'o tab_spec list \<Rightarrow> 'w \<Rightarrow> ('x, tab_result list) outcome \<times> 'w" where
  "sync_tabs cl sid [] w = (Returns [], w)"
| "sync_tabs cl sid (t # ts) w =
     (case ReplaceTab cl sid (t\<lparr>CreateIfMissing := True\<rparr>) w of
        (Panic, w') \<Rightarrow> (Panic, w')
      | (Fails e, w') \<Rightarrow> (Fails e, w')
      | (Returns r, w') \<Rightarrow>
          (case sync_tabs cl sid ts w' of
             (Returns rs, w'') \<Rightarrow> (Returns (r # rs), w'')
           | (Fails e, w'') \<Rightarrow> (Fails e, w'')
           | (Panic, w'') \<Rightarrow> (Panic, w'')))"

definition SyncDocument :: "('o, 'x, 'w) client \<Rightarrow> string \<Rightarrow> 'o document_spec \<Rightarrow> 'w \<Rightarrow> ('x, document_result) outcome \<times> 'w" where
  "SyncDocument cl sid spec w =
     (if sid = '''' then CreateSpreadsheet cl spec w
      else (case get_spreadsheet cl sid w of
        (Inl e, w1) \<Rightarrow> (Fails e, w1)
      | (Inr sp, w1) \<Rightarrow>
          (case sync_tabs cl sid (ds_Tabs spec) w1 of
             (Panic, w2) \<Rightarrow> (Panic, w2)
           | (Fails e, w2) \<Rightarrow> (Fails e, w2)
           | (Returns rs, w2) \<Rightarrow>
               (case (if ds_PruneTabs spec then pruneStaleTabs cl sid (ss_Sheets sp) (ds_Tabs spec) rs w2 else (None, w2)) of
                  (Some e, w3) \<Rightarrow> (Fails e, w3)
                | (None, w3) \<Rightarrow>
                    (case ss_Title sp of
                       None \<Rightarrow> (Panic, w3)
                     | Some title \<Rightarrow>
                         (Returns \<lparr>dr_SpreadsheetID = sid, dr_SpreadsheetURL = spreadsheetURL sid, dr_Title = title, dr_Tabs = rs\<rparr>, w3))))))"

end
