(* ===== verification/Sheets_Trace.thy ===== *)
theory Sheets_Trace
  imports Sheets_Service
begin

section \<open>google/workspace/sheets: what a synchronisation does to a spreadsheet\<close>

text \<open>
  The calls that \<open>ReplaceTab\<close> and \<open>SyncDocument\<close> make, in order. The locale \<open>recorded_calls\<close> states what a record of
  the calls of a client has to satisfy and carries the lemmas on retries and on each operation; it is interpreted on
  \<open>recording cl\<close>, which adds to any client a log of its calls and of their success.
\<close>

text \<open>A log that consists, for each of the calls in order, of attempts that failed and then of the one that succeeded.\<close>

fun attempted :: "('o api_call \<times> bool) list \<Rightarrow> 'o api_call list \<Rightarrow> bool" where
  "attempted [] cs \<longleftrightarrow> cs = []"
| "attempted ((c, ok) # l) cs \<longleftrightarrow> (case cs of [] \<Rightarrow> False | c' # cs' \<Rightarrow> c = c' \<and> (if ok then attempted l cs' else attempted l cs))"

lemma attempted_append: "attempted l cs \<Longrightarrow> attempted l' cs' \<Longrightarrow> attempted (l @ l') (cs @ cs')"
  by (induction l cs rule: attempted.induct) (auto split: list.splits if_splits)

lemma attempted_once: "attempted (replicate n (c, False) @ [(c, True)]) [c]"
  by (induction n) simp_all

definition made_log :: "('o api_call \<times> bool) list \<Rightarrow> 'o api_call list \<Rightarrow> ('o api_call \<times> bool) list \<Rightarrow> bool" where
  "made_log l cs l' \<longleftrightarrow> (\<exists>xs. l' = l @ xs \<and> attempted xs cs)"

lemma made_log_refl [simp]: "made_log l [] l"
  by (simp add: made_log_def)

lemma made_log_trans: "made_log l cs l' \<Longrightarrow> made_log l' cs' l'' \<Longrightarrow> made_log l (cs @ cs') l''"
  by (fastforce simp: made_log_def intro: attempted_append)

lemma made_log_Nil: "made_log [] cs l \<Longrightarrow> attempted l cs"
  by (simp add: made_log_def)

definition deletes :: "'o api_call \<Rightarrow> int set" where
  "deletes c = (case c of CallBatchUpdate sid reqs \<Rightarrow> {i. ReqDeleteSheet i \<in> set reqs} | _ \<Rightarrow> {})"

lemma deletes_simps [simp]:
  "deletes (CallGet s) = {}" "deletes (CallClear s t) = {}" "deletes (CallUpdate s b) = {}" "deletes (CallCreate tt lo sh) = {}"
  "deletes (CallMove fi fo) = {}" "deletes (CallBatchUpdate s reqs) = {i. ReqDeleteSheet i \<in> set reqs}"
  by (simp_all add: deletes_def)

text \<open>The calls that change the grid, format the tab and write its links: each is left out when there is nothing to change.\<close>

definition adding_calls :: "string \<Rightarrow> spreadsheet \<Rightarrow> 'o tab_spec \<Rightarrow> 'o api_call list" where
  "adding_calls sid sp spec =
     (case findMatchingSheet (ss_Sheets sp) spec of
        Some tab \<Rightarrow> []
      | None \<Rightarrow> [CallBatchUpdate sid [ReqAddSheet (if ts_Title spec = '''' then DefaultSheetTitle else ts_Title spec)]])"

definition grid_calls :: "string \<Rightarrow> sheet_props \<Rightarrow> 'o tab_spec \<Rightarrow> 'o api_call list" where
  "grid_calls sid ps spec =
     (case calculateTargetGridDimensions (Some ps) (ts_Data spec) of (rowsCount, colsCount, tr, tc) \<Rightarrow>
        if SkipFormatting spec then
          (case grid_fits (Some ps) rowsCount colsCount of
             Some g \<Rightarrow> []
           | None \<Rightarrow> [CallBatchUpdate sid [ReqGridProperties (sp_SheetId ps)
               \<lparr>gp_RowCount = tr, gp_ColumnCount = tc, gp_FrozenRows = 0, gp_FrozenCols = 0\<rparr> ''gridProperties.rowCount,gridProperties.columnCount'']])
        else [CallBatchUpdate sid [ReqGridProperties (sp_SheetId ps)
               \<lparr>gp_RowCount = tr, gp_ColumnCount = tc, gp_FrozenRows = frozen_rows_of spec, gp_FrozenCols = FrozenCols spec\<rparr>
               (''gridProperties.rowCount,gridProperties.columnCount,'' @ ''gridProperties.frozenRowCount,gridProperties.frozenColumnCount'')]])"

definition batch_calls :: "string \<Rightarrow> sheet_request list \<Rightarrow> 'o api_call list" where
  "batch_calls sid reqs = (if reqs = [] then [] else [CallBatchUpdate sid reqs])"

text \<open>One call, its error wrapped by the callback.\<close>

definition op_of :: "('o, 'x, 'w) client \<Rightarrow> string \<Rightarrow> 'o api_call \<Rightarrow> 'w \<Rightarrow> ('x err + reply) \<times> 'w" where
  "op_of cl inner call w = (case cl_api cl call w of (Inl e, w') \<Rightarrow> (Inl (wrapf inner e), w') | (Inr r, w') \<Rightarrow> (Inr r, w'))"

text \<open>The log grew, but by no deletion.\<close>

definition quiet_log :: "('o api_call \<times> bool) list \<Rightarrow> ('o api_call \<times> bool) list \<Rightarrow> bool" where
  "quiet_log l l' \<longleftrightarrow> (\<exists>xs. l' = l @ xs \<and> (\<forall>c \<in> fst ` set xs. deletes c = {}))"

lemma quiet_log_Nil: "quiet_log [] l \<Longrightarrow> (\<Union>c \<in> fst ` set l. deletes c) = {}"
  by (auto simp: quiet_log_def)

locale recorded_calls =
  fixes calls :: "'w \<Rightarrow> ('o api_call \<times> bool) list"
    and cl :: "('o, 'x, 'w) client"
  assumes api_recorded: "cl_api cl call w = (r, w') \<Longrightarrow> calls w' = calls w @ [(call, \<not> isl r)]"
    and poll_silent: "calls (snd (poll_ctx (cl_env cl) w)) = calls w"
    and time_silent: "calls (snd (time_now (cl_env cl) w)) = calls w"
    and rand_silent: "calls (snd (rand_int64n (cl_env cl) n w)) = calls w"
    and wait_silent: "calls (snd (wait_timer (cl_env cl) d w)) = calls w"
begin

lemma op_recorded: "op_of cl inner call w = (r, w') \<Longrightarrow> calls w' = calls w @ [(call, \<not> isl r)]"
  using api_recorded [of call w] by (auto simp: op_of_def split: prod.splits sum.splits)

lemma Classify_silent: "Classify (cl_env cl) ops e w = (ce, w') \<Longrightarrow> calls w' = calls w"
  using poll_silent [of w] by (auto simp: Classify_def split: prod.splits option.splits)

lemma jitter_silent: "calls (snd (gcp_jitter (cl_env cl) b w)) = calls w"
  using rand_silent by (auto simp: gcp_jitter_def split: prod.splits if_splits) (metis snd_conv)+

lemma Backoff_silent: "calls (snd (retry_Backoff (cl_env cl) a w)) = calls w"
  using rand_silent
  by (auto simp: retry_Backoff_def retry_BackoffWithConfig_def add_jitter_def jitter_def Let_def split: prod.splits if_splits) (metis snd_conv)+

lemma delay_silent: "calculateDelay pt (cl_env cl) ops e a cfg now w = (d, w') \<Longrightarrow> calls w' = calls w"
  using jitter_silent Backoff_silent
  by (auto simp: calculateDelay_def base_delay_def Let_def split: prod.splits if_splits) (metis snd_conv)+

text \<open>One iteration of the retry loop makes at most one call, and is successful exactly when that call was.\<close>

lemma body_recorded:
  assumes "gcp_body pt (cl_env cl) ops cfg (op_of cl inner call) k a w = (r, w')" and nr: "gc_onRetry cfg = None"
  shows "\<exists>n \<le> 1. calls w' = calls w @ replicate n (call, False) @ (case r of Some (Inr v) \<Rightarrow> [(call, True)] | _ \<Rightarrow> [])"
proof -
  obtain c w1 where p: "poll_ctx (cl_env cl) w = (c, w1)" by fastforce
  have l1: "calls w1 = calls w" using poll_silent [of w] p by simp
  show ?thesis
  proof (cases c)
    case (Some x)
    then show ?thesis using assms p l1 by (intro exI [of _ 0]) (auto simp: gcp_body_def)
  next
    case None
    obtain o1 w2 where o1: "op_of cl inner call w1 = (o1, w2)" by fastforce
    have l2: "calls w2 = calls w @ [(call, \<not> isl o1)]" using op_recorded [OF o1] l1 by simp
    show ?thesis
    proof (cases o1)
      case (Inr v)
      then show ?thesis using assms p None o1 l2 by (intro exI [of _ 0]) (auto simp: gcp_body_def)
    next
      case (Inl e)
      obtain ce w3 where ce: "Classify (cl_env cl) ops e w2 = (ce, w3)" by fastforce
      have l3: "calls w3 = calls w @ [(call, False)]" using Classify_silent [OF ce] l2 Inl by simp
      obtain now w4 where t: "time_now (cl_env cl) w3 = (now, w4)" by fastforce
      obtain d w5 where d: "calculateDelay pt (cl_env cl) ops ce a cfg now w4 = (d, w5)" by fastforce
      obtain q w6 where q: "wait_timer (cl_env cl) d w5 = (q, w6)" by fastforce
      have l6: "calls w6 = calls w @ [(call, False)]"
        using l3 time_silent [of w3] t delay_silent [OF d] wait_silent [of d w5] q by simp
      show ?thesis using assms p None o1 Inl ce t d q l3 l6 nr
        by (intro exI [of _ 1]) (auto simp: gcp_body_def split: if_splits option.splits)
    qed
  qed
qed

lemma loop_recorded:
  assumes "gcp_loop pt (cl_env cl) ops cfg (op_of cl inner call) k a w = (r, w')" and nr: "gc_onRetry cfg = None"
  shows "\<exists>n. calls w' = calls w @ replicate n (call, False) @ (case r of Some (Inr v) \<Rightarrow> [(call, True)] | _ \<Rightarrow> [])"
  using assms(1)
proof (induction k arbitrary: a w)
  case 0
  then show ?case using body_recorded [OF _ nr] by fastforce
next
  case (Suc k)
  obtain b w1 where b: "gcp_body pt (cl_env cl) ops cfg (op_of cl inner call) (Suc k) a w = (b, w1)" by fastforce
  obtain m where m: "calls w1 = calls w @ replicate m (call, False) @ (case b of Some (Inr v) \<Rightarrow> [(call, True)] | _ \<Rightarrow> [])"
    using body_recorded [OF b nr] by blast
  show ?case
  proof (cases b)
    case None
    then obtain n where "calls w' = calls w1 @ replicate n (call, False) @ (case r of Some (Inr v) \<Rightarrow> [(call, True)] | _ \<Rightarrow> [])"
      using Suc b by fastforce
    then show ?thesis using m None by (intro exI [of _ "m + n"]) (simp add: replicate_add)
  next
    case (Some x)
    then show ?thesis using Suc.prems b m by auto
  qed
qed

lemma retried_recorded:
  assumes "retried cl outer inner call w = (r, w')"
  shows "\<exists>n. calls w' = calls w @ replicate n (call, False) @ (if isl r then [] else [(call, True)])"
proof -
  obtain b w1 where b: "WithRetryVal (cl_time cl) (cl_env cl) (cl_foreign cl) (op_of cl inner call) [] w = (b, w1)" by fastforce
  define cfg :: "('x, 'w) gcp_config" where "cfg = gcp_config_of []"
  have nr: "gc_onRetry cfg = None" by (simp add: cfg_def gcp_config_of_def)
  have l: "gcp_loop (cl_time cl) (cl_env cl) (cl_foreign cl) cfg (op_of cl inner call) (nat (gc_maxAttempts cfg - 1)) 0 w = (b, w1)"
    using b unfolding cfg_def by (simp add: WithRetryVal_def Let_def)
  have "b \<noteq> None" using gcp.loop_outcome [of _ "cl_time cl" "cl_env cl" "cl_foreign cl" cfg "op_of cl inner call" 0 w] l
    by (metis fst_conv option.distinct(1))
  moreover have "retried cl outer inner call w = (case b of Some (Inr r) \<Rightarrow> (Inr r, w1) | Some (Inl e) \<Rightarrow> (Inl (wrapf outer e), w1) | None \<Rightarrow> (Inr RepDone, w1))"
    using b unfolding retried_def op_of_def by simp
  ultimately show ?thesis using loop_recorded [OF l nr] assms by (auto split: sum.splits)
qed

text \<open>A stretch that made exactly some calls, and one without deletions.\<close>

abbreviation made :: "'w \<Rightarrow> 'o api_call list \<Rightarrow> 'w \<Rightarrow> bool" where
  "made w cs w' \<equiv> made_log (calls w) cs (calls w')"

abbreviation quiet :: "'w \<Rightarrow> 'w \<Rightarrow> bool" where
  "quiet w w' \<equiv> quiet_log (calls w) (calls w')"

lemma quiet_refl [simp]: "quiet w w"
  by (simp add: quiet_log_def)

lemma quiet_trans: "quiet w1 w2 \<Longrightarrow> quiet w2 w3 \<Longrightarrow> quiet w1 w3"
  by (fastforce simp: quiet_log_def)

lemma retried_done: "retried cl outer inner call w = (Inr r, w') \<Longrightarrow> made w [call] w'"
  using retried_recorded [of outer inner call w] attempted_once [of _ call] by (fastforce simp: made_log_def)

lemma retried_quiet: "retried cl outer inner call w = (r, w') \<Longrightarrow> deletes call = {} \<Longrightarrow> quiet w w'"
  using retried_recorded [of outer inner call w] by (fastforce simp: quiet_log_def)

lemma perform_done:
  "perform cl outer inner call w = (None, w') \<Longrightarrow> made w [call] w'"
  by (auto simp: perform_def split: prod.splits sum.splits dest: retried_done)

lemma perform_quiet: "perform cl outer inner call w = (r, w') \<Longrightarrow> deletes call = {} \<Longrightarrow> quiet w w'"
  by (auto simp: perform_def split: prod.splits sum.splits dest: retried_quiet)

lemma get_spreadsheet_done: "get_spreadsheet cl sid w = (Inr sp, w') \<Longrightarrow> made w [CallGet sid] w'"
  by (auto simp: get_spreadsheet_def split: prod.splits sum.splits dest: retried_done)

lemma get_spreadsheet_quiet: "get_spreadsheet cl sid w = (r, w') \<Longrightarrow> quiet w w'"
  by (auto simp: get_spreadsheet_def split: prod.splits sum.splits dest: retried_quiet)

lemma createNewTab_done:
  "createNewTab cl sid t w = (Inr tab, w') \<Longrightarrow> made w [CallBatchUpdate sid [ReqAddSheet (if t = '''' then DefaultSheetTitle else t)]] w'"
  by (auto simp: createNewTab_def Let_def split: prod.splits sum.splits reply.splits option.splits dest: retried_done)

lemma createNewTab_quiet: "createNewTab cl sid t w = (r, w') \<Longrightarrow> quiet w w'"
  by (auto simp: createNewTab_def Let_def split: prod.splits sum.splits reply.splits option.splits dest: retried_quiet)

lemma resolve_done:
  assumes "resolveOrCreateTab cl sid spec w = (Returns tab, w')"
  obtains sp w1 where "get_spreadsheet cl sid w = (Inr sp, w1)" "made w ([CallGet sid] @ adding_calls sid sp spec) w'"
    "case findMatchingSheet (ss_Sheets sp) spec of None \<Rightarrow> CreateIfMissing spec | Some t \<Rightarrow> tab = Some t"
proof -
  obtain sp w1 where sp: "get_spreadsheet cl sid w = (Inr sp, w1)"
    using assms by (auto simp: resolveOrCreateTab_def split: prod.splits sum.splits)
  have d: "made w [CallGet sid] w1" by (rule get_spreadsheet_done [OF sp])
  show ?thesis
  proof (cases "findMatchingSheet (ss_Sheets sp) spec")
    case None
    then have "createNewTab cl sid (ts_Title spec) w1 = (Inr tab, w')" "CreateIfMissing spec"
      using assms sp by (auto simp: resolveOrCreateTab_def split: if_splits option.splits prod.splits sum.splits)
    then show ?thesis using that [OF sp] made_log_trans [OF d createNewTab_done] None by (simp add: adding_calls_def)
  next
    case (Some t)
    then show ?thesis using that [OF sp] assms sp d by (auto simp: resolveOrCreateTab_def adding_calls_def)
  qed
qed

lemma resolve_quiet: "resolveOrCreateTab cl sid spec w = (r, w') \<Longrightarrow> quiet w w'"
  by (auto simp: resolveOrCreateTab_def split: prod.splits sum.splits option.splits if_splits
      dest!: get_spreadsheet_quiet createNewTab_quiet intro: quiet_trans)

lemma resize_done:
  assumes "resizeTab cl sid (Some ps) spec w = (Returns g, w')"
  shows "made w (grid_calls sid ps spec) w'"
  using assms
  by (auto simp: resizeTab_def resizeTabGridOnly_def grid_calls_def resizeFields_def freezeFields_def Let_def
      split: prod.splits if_splits option.splits dest: perform_done)

lemma resize_quiet: "resizeTab cl sid tab spec w = (r, w') \<Longrightarrow> quiet w w'"
  by (auto simp: resizeTab_def resizeTabGridOnly_def Let_def split: prod.splits option.splits if_splits dest: perform_quiet)

lemma write_batches_done: "write_batches cl sid bs w = (None, w') \<Longrightarrow> made w (map (CallUpdate sid) bs) w'"
proof (induction bs arbitrary: w)
  case (Cons b bs)
  then obtain w1 o1 i1 where "perform cl o1 i1 (CallUpdate sid b) w = (None, w1)" "write_batches cl sid bs w1 = (None, w')"
    by (auto split: prod.splits option.splits)
  then show ?case using Cons.IH perform_done made_log_trans by fastforce
qed simp

lemma write_batches_quiet: "write_batches cl sid bs w = (r, w') \<Longrightarrow> quiet w w'"
proof (induction bs arbitrary: w)
  case (Cons b bs)
  then show ?case by (auto split: prod.splits option.splits dest!: perform_quiet intro: quiet_trans)
qed simp

lemma resize_fits:
  assumes "resizeTab cl sid tab spec w = (Returns (tr, tc), w')" "ts_Data spec = Some t"
  shows "int (table_RowCount t) + 1 \<le> tr \<and> int (table_ColCount t) \<le> tc"
  using assms by (auto simp: resizeTab_def resizeTabGridOnly_def grid_fits_def calculateTargetGridDimensions_def Let_def
      defaultMinRows_def defaultMinCols_def extraRowsBuffer_def extraColsBuffer_def split: prod.splits option.splits if_splits)

lemma replace_cases:
  assumes "ReplaceTab cl sid spec w = (Returns r, w')"
  obtains tab ps w1 g w2 w3 n w4 w5 where
    "resolveOrCreateTab cl sid spec w = (Returns (Some tab), w1)" "resizeTab cl sid (sh_Properties tab) spec w1 = (Returns g, w2)"
    "sh_Properties tab = Some ps" "clearTab cl sid (sp_Title ps) w2 = (None, w3)"
    "writeTabBatches cl sid (sp_Title ps) (ts_Data spec) w3 = (Inr n, w4)"
    "(if SkipFormatting spec then (None, w4) else applyTabFormatting cl sid (sp_SheetId ps) (banded_ids tab) spec w4) = (None, w5)"
    "applyRichLinks cl sid (sp_SheetId ps) (ts_Data spec) w5 = (None, w')"
    "r = \<lparr>tr_SheetID = sp_SheetId ps, tr_Title = sp_Title ps, tr_RowCount = fst g, tr_ColumnCount = snd g, tr_RowsWritten = n\<rparr>"
  using assms unfolding ReplaceTab_def
  by (auto split: prod.splits sum.splits option.splits if_splits outcome.splits)

lemma write_tab_done:
  "writeTabBatches cl sid title data w = (Inr n, w') \<Longrightarrow> made w (map (CallUpdate sid) (prepareValueUpdates title data)) w'"
  by (auto simp: writeTabBatches_def prepareValueUpdates_def [of title None] split: option.splits prod.splits dest: write_batches_done)

lemma format_done:
  "(if SkipFormatting spec then (None, w) else applyTabFormatting cl sid i ids spec w) = (None, w') \<Longrightarrow>
   made w (if SkipFormatting spec then [] else batch_calls sid (format_requests cl i ids spec)) w'"
  by (auto simp: applyTabFormatting_def batch_calls_def Let_def split: if_splits dest: perform_done)

lemma links_done: "applyRichLinks cl sid i data w = (None, w') \<Longrightarrow> made w (batch_calls sid (buildRichLinkRequests i data)) w'"
  by (auto simp: applyRichLinks_def batch_calls_def Let_def split: if_splits dest: perform_done)

lemma replace_done:
  assumes "ReplaceTab cl sid spec w = (Returns r, w')"
  obtains sp w1 tab w2 ps where
    "get_spreadsheet cl sid w = (Inr sp, w1)" "resolveOrCreateTab cl sid spec w = (Returns (Some tab), w2)" "sh_Properties tab = Some ps"
    "case findMatchingSheet (ss_Sheets sp) spec of None \<Rightarrow> CreateIfMissing spec | Some t \<Rightarrow> tab = t"
    "tr_SheetID r = sp_SheetId ps" "tr_Title r = sp_Title ps"
    "made w ([CallGet sid] @ adding_calls sid sp spec @ grid_calls sid ps spec @ [CallClear sid (EscapeSheetTitle (sp_Title ps))]
        @ map (CallUpdate sid) (prepareValueUpdates (sp_Title ps) (ts_Data spec))
        @ (if SkipFormatting spec then [] else batch_calls sid (format_requests cl (sp_SheetId ps) (banded_ids tab) spec))
        @ batch_calls sid (buildRichLinkRequests (sp_SheetId ps) (ts_Data spec))) w'"
    "\<And>t. ts_Data spec = Some t \<Longrightarrow> int (table_RowCount t) + 1 \<le> tr_RowCount r \<and> int (table_ColCount t) \<le> tr_ColumnCount r \<and> tr_RowsWritten r = table_RowCount t"
proof -
  obtain tab ps w1 g w2 w3 n w4 w5 where
    1: "resolveOrCreateTab cl sid spec w = (Returns (Some tab), w1)" and 2: "resizeTab cl sid (sh_Properties tab) spec w1 = (Returns g, w2)"
    and ps: "sh_Properties tab = Some ps"
    and 3: "clearTab cl sid (sp_Title ps) w2 = (None, w3)" and 4: "writeTabBatches cl sid (sp_Title ps) (ts_Data spec) w3 = (Inr n, w4)"
    and 5: "(if SkipFormatting spec then (None, w4) else applyTabFormatting cl sid (sp_SheetId ps) (banded_ids tab) spec w4) = (None, w5)"
    and 6: "applyRichLinks cl sid (sp_SheetId ps) (ts_Data spec) w5 = (None, w')"
    and r: "r = \<lparr>tr_SheetID = sp_SheetId ps, tr_Title = sp_Title ps, tr_RowCount = fst g, tr_ColumnCount = snd g, tr_RowsWritten = n\<rparr>"
    by (rule replace_cases [OF assms])
  obtain sp v where sp: "get_spreadsheet cl sid w = (Inr sp, v)" "made w ([CallGet sid] @ adding_calls sid sp spec) w1"
    "case findMatchingSheet (ss_Sheets sp) spec of None \<Rightarrow> CreateIfMissing spec | Some t \<Rightarrow> Some tab = Some t"
    by (rule resolve_done [OF 1])
  have clear: "made w2 [CallClear sid (EscapeSheetTitle (sp_Title ps))] w3" using 3 unfolding clearTab_def by (rule perform_done)
  note all = made_log_trans [OF made_log_trans [OF made_log_trans [OF made_log_trans [OF made_log_trans [OF sp(2)
      resize_done [OF 2 [unfolded ps]]] clear] write_tab_done [OF 4]] format_done [OF 5]] links_done [OF 6]]
  have rows: "int (table_RowCount t) + 1 \<le> tr_RowCount r \<and> int (table_ColCount t) \<le> tr_ColumnCount r \<and> tr_RowsWritten r = table_RowCount t"
    if "ts_Data spec = Some t" for t
    using 4 that resize_fits [of sid "sh_Properties tab" spec w1 "fst g" "snd g" w2 t] 2 r
    by (auto simp: writeTabBatches_def split: prod.splits option.splits)
  have m: "case findMatchingSheet (ss_Sheets sp) spec of None \<Rightarrow> CreateIfMissing spec | Some t \<Rightarrow> tab = t"
    using sp(3) by (simp split: option.splits)
  show ?thesis using that [OF sp(1) 1 ps m _ _ _ rows] all r by simp
qed

lemma format_no_delete: "ReqDeleteSheet i \<notin> set (format_requests c s ids spec)"
  by (auto simp: format_requests_def buildFormatRequests_def Let_def buildFreezeAndClearRequests_def opt_list_def buildHeaderFormatRequest_def
      buildBandingRequest_def buildColumnDimensionRequests_def split: option.splits if_splits)

lemma links_no_delete: "ReqDeleteSheet i \<notin> set (buildRichLinkRequests s data)"
proof (cases data)
  case (Some t)
  then show ?thesis using rich_links_set [of "ReqDeleteSheet i" s t] by (simp add: link_request_def)
qed (simp add: buildRichLinkRequests_def)

lemma replace_quiet: "ReplaceTab cl sid spec w = (r, w') \<Longrightarrow> quiet w w'"
proof -
  assume r: "ReplaceTab cl sid spec w = (r, w')"
  have c: "clearTab cl sid t a = (e, b) \<Longrightarrow> quiet a b" for t a e b by (auto simp: clearTab_def dest: perform_quiet)
  have wr: "writeTabBatches cl sid t d a = (e, b) \<Longrightarrow> quiet a b" for t d a e b
    by (auto simp: writeTabBatches_def split: option.splits prod.splits dest: write_batches_quiet)
  have f: "applyTabFormatting cl sid i ids spec a = (e, b) \<Longrightarrow> quiet a b" for i ids a e b
    by (auto simp: applyTabFormatting_def Let_def format_no_delete split: if_splits dest: perform_quiet)
  have l: "applyRichLinks cl sid i d a = (e, b) \<Longrightarrow> quiet a b" for i d a e b
    by (auto simp: applyRichLinks_def Let_def links_no_delete split: if_splits dest: perform_quiet)
  show ?thesis using r unfolding ReplaceTab_def
    by (auto split: prod.splits sum.splits option.splits if_splits outcome.splits
        dest!: resolve_quiet resize_quiet c wr f l) (meson quiet_trans)+
qed

lemma sync_quiet: "sync_tabs cl sid ts w = (r, w') \<Longrightarrow> quiet w w'"
proof (induction ts arbitrary: w r)
  case (Cons t ts)
  then show ?case by (auto split: prod.splits outcome.splits dest!: replace_quiet intro: quiet_trans)
qed simp

lemma populate_quiet: "populate_from cl created i ts w = (r, w') \<Longrightarrow> quiet w w'"
proof (induction ts arbitrary: i w r)
  case (Cons t ts)
  then show ?case by (auto split: prod.splits outcome.splits dest!: replace_quiet intro: quiet_trans)
qed simp

lemma create_quiet: "CreateSpreadsheet cl spec w = (out, w') \<Longrightarrow> quiet w w'"
proof -
  assume c: "CreateSpreadsheet cl spec w = (out, w')"
  have r: "quiet v (relocateToFolder cl a b v)" for a b v
  proof -
    obtain x y where "perform cl '''' ''drive api update: '' (CallMove a b) v = (x, y)" by fastforce
    then show ?thesis by (auto simp: relocateToFolder_def dest: perform_quiet)
  qed
  show ?thesis using c r unfolding CreateSpreadsheet_def populateCreatedTabs_def
    by (auto simp: Let_def split: prod.splits sum.splits if_splits outcome.splits dest!: populate_quiet retried_quiet) (meson quiet_trans)+
qed

lemma perform_calls: "perform cl outer inner call w = (r, w') \<Longrightarrow> \<exists>ls. calls w' = calls w @ ls \<and> fst ` set ls \<subseteq> {call}"
  using retried_recorded [of outer inner call w] by (fastforce simp: perform_def split: prod.splits sum.splits)

lemma sync_deletions:
  assumes "SyncDocument cl sid spec w = (out, w')"
  shows "quiet w w' \<or> (ds_PruneTabs spec \<and> (\<exists>sp w1 rs w2 ls.
      get_spreadsheet cl sid w = (Inr sp, w1) \<and> sync_tabs cl sid (ds_Tabs spec) w1 = (Returns rs, w2)
    \<and> calls w' = calls w2 @ ls \<and> quiet w w2
    \<and> fst ` set ls \<subseteq> {CallBatchUpdate sid (map ReqDeleteSheet (List.map_filter (stale (ds_Tabs spec) rs) (ss_Sheets sp)))}
    \<and> (case out of Returns d \<Rightarrow> dr_Tabs d = rs | _ \<Rightarrow> True)))"
proof (cases "sid = ''''")
  case True
  then show ?thesis using assms create_quiet by (simp add: SyncDocument_def)
next
  case False
  obtain o1 w1 where g: "get_spreadsheet cl sid w = (o1, w1)" by fastforce
  note q1 = get_spreadsheet_quiet [OF g]
  show ?thesis
  proof (cases o1)
    case (Inl e)
    then show ?thesis using assms False g q1 by (simp add: SyncDocument_def)
  next
    case (Inr sp)
    obtain o2 w2 where t: "sync_tabs cl sid (ds_Tabs spec) w1 = (o2, w2)" by fastforce
    have q2: "quiet w w2" using q1 sync_quiet [OF t] by (rule quiet_trans)
    show ?thesis
    proof (cases "\<exists>rs. o2 = Returns rs \<and> ds_PruneTabs spec")
      case False2: False
      then show ?thesis using assms False g Inr t q2 by (auto simp: SyncDocument_def split: outcome.splits option.splits)
    next
      case True
      then obtain rs where rs: "o2 = Returns rs" "ds_PruneTabs spec" by blast
      obtain e w3 where p: "pruneStaleTabs cl sid (ss_Sheets sp) (ds_Tabs spec) rs w2 = (e, w3)" by fastforce
      have "\<exists>ls. calls w3 = calls w2 @ ls \<and> fst ` set ls \<subseteq> {CallBatchUpdate sid (map ReqDeleteSheet (List.map_filter (stale (ds_Tabs spec) rs) (ss_Sheets sp)))}"
        using p by (auto simp: pruneStaleTabs_def Let_def split: if_splits dest: perform_calls)
      moreover have "w' = w3 \<and> (case out of Returns d \<Rightarrow> dr_Tabs d = rs | _ \<Rightarrow> True)"
        using assms False g Inr t rs p by (auto simp: SyncDocument_def split: option.splits)
      ultimately show ?thesis using g Inr t rs q2 by blast
    qed
  qed
qed

end

subsection \<open>Recording a client\<close>

definition lift_env :: "'w retry_env \<Rightarrow> ('w \<times> 'l) retry_env" where
  "lift_env env =
     \<lparr>poll_ctx = (\<lambda>(w, l). case poll_ctx env w of (r, w') \<Rightarrow> (r, (w', l))),
      time_now = (\<lambda>(w, l). case time_now env w of (r, w') \<Rightarrow> (r, (w', l))),
      rand_int64n = (\<lambda>n (w, l). case rand_int64n env n w of (r, w') \<Rightarrow> (r, (w', l))),
      wait_timer = (\<lambda>d (w, l). case wait_timer env d w of (r, w') \<Rightarrow> (r, (w', l)))\<rparr>"

definition recording :: "('o, 'x, 'w) client \<Rightarrow> ('o, 'x, 'w \<times> ('o api_call \<times> bool) list) client" where
  "recording cl =
     \<lparr>cl_api = (\<lambda>call (w, l). case cl_api cl call w of (r, w') \<Rightarrow> (r, (w', l @ [(call, \<not> isl r)]))),
      cl_time = cl_time cl, cl_env = lift_env (cl_env cl), cl_foreign = cl_foreign cl, cl_printing = cl_printing cl,
      cl_scan = cl_scan cl, cl_drive = cl_drive cl\<rparr>"

interpretation rec: recorded_calls snd "recording cl" for cl
  by unfold_locales (auto simp: recording_def lift_env_def split: prod.splits)

subsection \<open>Properties\<close>

text \<open>C9. A successful \<open>ReplaceTab\<close> makes exactly these calls in this order, whatever client it runs on, each attempted until it succeeds and
  nothing in between: read the spreadsheet; add the sheet with the title asked for, only if no sheet matches and \<open>CreateIfMissing\<close> is set; resize the
  grid of the resolved tab, left out only if formatting is skipped and the grid is large enough; clear that tab; write the value updates of the table to
  it; format it, banded ranges of the found sheet replaced, unless \<open>SkipFormatting\<close> is set or there is nothing to format; and write its links, if the
  table has any. The grid it reports holds every cell that the updates write, and it reports all rows.\<close>
theorem replace_tab_sequence:
  "case ReplaceTab (recording cl) sid spec (w, []) of
     (Returns r, (w', l)) \<Rightarrow>
       (\<exists>sp w1 tab w2 ps.
            get_spreadsheet (recording cl) sid (w, []) = (Inr sp, w1)
          \<and> resolveOrCreateTab (recording cl) sid spec (w, []) = (Returns (Some tab), w2)
          \<and> (case findMatchingSheet (ss_Sheets sp) spec of None \<Rightarrow> CreateIfMissing spec | Some t \<Rightarrow> tab = t)
          \<and> sh_Properties tab = Some ps \<and> tr_SheetID r = sp_SheetId ps \<and> tr_Title r = sp_Title ps
          \<and> attempted l ([CallGet sid] @ adding_calls sid sp spec @ grid_calls sid ps spec @ [CallClear sid (EscapeSheetTitle (sp_Title ps))]
              @ map (CallUpdate sid) (prepareValueUpdates (sp_Title ps) (ts_Data spec))
              @ (if SkipFormatting spec then [] else batch_calls sid (format_requests cl (sp_SheetId ps) (banded_ids tab) spec))
              @ batch_calls sid (buildRichLinkRequests (sp_SheetId ps) (ts_Data spec))))
       \<and> (case ts_Data spec of None \<Rightarrow> True
          | Some t \<Rightarrow> tr_RowsWritten r = length (Rows t)
              \<and> {(i, c). grid_writes (prepareValueUpdates (tr_Title r) (Some t)) i c \<noteq> []}
                  \<subseteq> {..<nat (tr_RowCount r)} \<times> {..<nat (tr_ColumnCount r)})
   | _ \<Rightarrow> True"
proof -
  obtain out w' l where run: "ReplaceTab (recording cl) sid spec (w, []) = (out, (w', l))" by (metis surj_pair)
  show ?thesis
  proof (cases out)
    case (Returns r)
    have frm: "format_requests (recording cl) = format_requests cl" by (simp add: fun_eq_iff format_requests_def recording_def)
    obtain sp w1 tab w2 ps where
      *: "get_spreadsheet (recording cl) sid (w, []) = (Inr sp, w1)" "resolveOrCreateTab (recording cl) sid spec (w, []) = (Returns (Some tab), w2)"
        "case findMatchingSheet (ss_Sheets sp) spec of None \<Rightarrow> CreateIfMissing spec | Some t \<Rightarrow> tab = t" "sh_Properties tab = Some ps"
        "tr_SheetID r = sp_SheetId ps" "tr_Title r = sp_Title ps"
      and made: "made_log [] ([CallGet sid] @ adding_calls sid sp spec @ grid_calls sid ps spec @ [CallClear sid (EscapeSheetTitle (sp_Title ps))]
          @ map (CallUpdate sid) (prepareValueUpdates (sp_Title ps) (ts_Data spec))
          @ (if SkipFormatting spec then [] else batch_calls sid (format_requests cl (sp_SheetId ps) (banded_ids tab) spec))
          @ batch_calls sid (buildRichLinkRequests (sp_SheetId ps) (ts_Data spec))) l"
      and rows: "\<And>t. ts_Data spec = Some t \<Longrightarrow>
          int (table_RowCount t) + 1 \<le> tr_RowCount r \<and> int (table_ColCount t) \<le> tr_ColumnCount r \<and> tr_RowsWritten r = table_RowCount t"
      using rec.replace_done [OF run [unfolded Returns], unfolded frm snd_conv] by metis
    have fits: "int i < tr_RowCount r \<and> int c < tr_ColumnCount r"
      if d: "ts_Data spec = Some t" and w: "grid_writes (prepareValueUpdates (tr_Title r) (Some t)) i c \<noteq> []" for t i c
    proof -
      have "data_offset t \<le> 1" by (simp add: data_offset_def)
      moreover have "int (length (Rows t)) + 1 \<le> tr_RowCount r" "int (table_ColCount t) \<le> tr_ColumnCount r"
        using rows d by (simp_all add: table_RowCount_def)
      ultimately show ?thesis using prepared_rows [OF w] prepared_columns [OF w] by linarith
    qed
    have grid: "case ts_Data spec of None \<Rightarrow> True
        | Some t \<Rightarrow> tr_RowsWritten r = length (Rows t)
            \<and> {(i, c). grid_writes (prepareValueUpdates (tr_Title r) (Some t)) i c \<noteq> []} \<subseteq> {..<nat (tr_RowCount r)} \<times> {..<nat (tr_ColumnCount r)}"
      using rows fits by (fastforce simp: table_RowCount_def split: option.splits)
    show ?thesis unfolding run Returns using * made_log_Nil [OF made] grid by (simp only: prod.case outcome.case) blast
  qed (simp_all add: run)
qed

text \<open>A spreadsheet without the tab, of a service that accepts every call, and a table with one linked cell.\<close>

definition demo_reply :: "unit api_call \<Rightarrow> reply" where
  "demo_reply call = (case call of
      CallGet s \<Rightarrow> RepSpreadsheet \<lparr>ss_Id = s, ss_Url = '''', ss_Title = Some ''doc'', ss_Sheets = []\<rparr>
    | CallBatchUpdate s [ReqAddSheet t] \<Rightarrow> RepAdded (Some (Some \<lparr>sp_SheetId = 9, sp_Title = t, sp_Grid = None\<rparr>))
    | _ \<Rightarrow> RepDone)"

definition no_foreign :: "unit foreign" where
  "no_foreign = \<lparr>as_googleapi = (\<lambda>_. None), as_oauth = (\<lambda>_. None), as_net = (\<lambda>_. None), as_tls = (\<lambda>_. None), as_op = (\<lambda>_. None),
     as_dns = (\<lambda>_. None), as_errno = (\<lambda>_. None), as_permanent = (\<lambda>_. None), grpc_FromError = (\<lambda>_. None)\<rparr>"

definition demo_sheets :: "(unit, unit, nat) client" where
  "demo_sheets = \<lparr>cl_api = (\<lambda>call w. (Inr (demo_reply call), Suc w)), cl_time = (\<lambda>_. None), cl_env = demo_env,
     cl_foreign = no_foreign,
     cl_printing = demo_printing, cl_scan = (\<lambda>_. (0, 0, 0)), cl_drive = False\<rparr>"

definition linked_table :: "unit table" where
  "linked_table = \<lparr>Headers = [], Rows = [[\<lparr>RawVal = AnyStr ''x'', IsFormula = False, LinkURL = ''u''\<rparr>]], ColumnWidths = Map.empty, ColumnConstraints = Map.empty\<rparr>"

definition linked_spec :: "unit tab_spec" where
  "linked_spec = \<lparr>ts_Title = ''New'', ts_GID = 0, CreateIfMissing = True, SkipFormatting = True, FrozenRows = 0, FrozenCols = 0,
     ts_Theme = None, ts_Data = Some linked_table\<rparr>"

lemma demo_retried: "retried (recording demo_sheets) o1 i1 call (w, l) = (Inr (demo_reply call), (Suc w, l @ [(call, True)]))"
proof -
  let ?op = "\<lambda>w. case cl_api (recording demo_sheets) call w of (Inl e, w') \<Rightarrow> (Inl (wrapf i1 e), w') | (Inr r, w') \<Rightarrow> (Inr r, w')"
  let ?cfg = "gcp_config_of [] :: (unit, nat \<times> (unit api_call \<times> bool) list) gcp_config"
  have body: "gcp_body (cl_time (recording demo_sheets)) (cl_env (recording demo_sheets)) (cl_foreign (recording demo_sheets)) cfg ?op k a (w, l)
      = (Some (Inr (demo_reply call)), (Suc w, l @ [(call, True)]))" for k a cfg
    by (simp add: gcp_body_def recording_def demo_sheets_def lift_env_def demo_env_def)
  then have "gcp_loop (cl_time (recording demo_sheets)) (cl_env (recording demo_sheets)) (cl_foreign (recording demo_sheets)) cfg ?op k 0 (w, l)
      = (Some (Inr (demo_reply call)), (Suc w, l @ [(call, True)]))" for k cfg
    by (cases k) simp_all
  then show ?thesis by (simp add: retried_def WithRetryVal_def Let_def)
qed

lemma demo_batches: "write_batches (recording demo_sheets) sid bs (w, l) = (None, (w + length bs, l @ map (\<lambda>b. (CallUpdate sid b, True)) bs))"
  by (induction bs arbitrary: w l) (simp_all add: perform_def demo_retried)

lemma demo_replace:
  "\<exists>r w' l. ReplaceTab (recording demo_sheets) ''s'' linked_spec (0, []) = (Returns r, (w', l))"
  by (simp add: ReplaceTab_def resolveOrCreateTab_def get_spreadsheet_def createNewTab_def demo_retried demo_reply_def spreadsheet_of_def
      findMatchingSheet_def resizeTab_def resizeTabGridOnly_def grid_fits_def calculateTargetGridDimensions_def Let_def perform_def clearTab_def
      writeTabBatches_def demo_batches applyRichLinks_def linked_spec_def split: prod.split)

theorem replace_tab_sequence_witness:
  "\<exists>r w' l. ReplaceTab (recording demo_sheets) ''s'' linked_spec (0, []) = (Returns r, (w', l))
     \<and> attempted l ([CallGet ''s'', CallBatchUpdate ''s'' [ReqAddSheet ''New''],
         CallBatchUpdate ''s'' [ReqGridProperties 9 \<lparr>gp_RowCount = 15, gp_ColumnCount = 12, gp_FrozenRows = 0, gp_FrozenCols = 0\<rparr>
           ''gridProperties.rowCount,gridProperties.columnCount''], CallClear ''s'' (EscapeSheetTitle ''New'')]
         @ map (CallUpdate ''s'') (prepareValueUpdates ''New'' (Some linked_table)) @ [CallBatchUpdate ''s'' [link_request 9 0 0 ''u'']])"
proof -
  obtain r w' l where run: "ReplaceTab (recording demo_sheets) ''s'' linked_spec (0, []) = (Returns r, (w', l))" using demo_replace by blast
  have res: "get_spreadsheet (recording demo_sheets) ''s'' (0, []) = (Inr \<lparr>ss_Id = ''s'', ss_Url = '''', ss_Title = Some ''doc'', ss_Sheets = []\<rparr>, (1, [(CallGet ''s'', True)]))"
    by (simp add: get_spreadsheet_def demo_retried demo_reply_def spreadsheet_of_def)
  moreover have "resolveOrCreateTab (recording demo_sheets) ''s'' linked_spec (0, [])
      = (Returns (Some \<lparr>sh_Properties = Some \<lparr>sp_SheetId = 9, sp_Title = ''New'', sp_Grid = None\<rparr>, sh_Banded = []\<rparr>),
         (2, [(CallGet ''s'', True), (CallBatchUpdate ''s'' [ReqAddSheet ''New''], True)]))"
    by (simp add: resolveOrCreateTab_def res findMatchingSheet_def createNewTab_def demo_retried demo_reply_def linked_spec_def Let_def)
  ultimately show ?thesis using replace_tab_sequence [where cl = demo_sheets and sid = "''s''" and spec = linked_spec and w = 0] run
    by (simp add: adding_calls_def findMatchingSheet_def grid_calls_def grid_fits_def calculateTargetGridDimensions_def table_RowCount_def table_ColCount_def
        defaultMinRows_def defaultMinCols_def extraRowsBuffer_def extraColsBuffer_def batch_calls_def buildRichLinkRequests_def linked_spec_def linked_table_def Let_def)
qed

text \<open>C5. \<open>SyncDocument\<close> deletes a tab only with \<open>PruneTabs\<close>, only after every tab of the document has been synchronised, and never a tab that it has
  just synchronised or whose title the document names; a document that is created, and a synchronisation that fails before, delete
  nothing.\<close>
theorem sync_never_deletes_its_tabs:
  "case SyncDocument (recording cl) sid spec (w, []) of
     (out, (w', l)) \<Rightarrow>
       (\<Union>c \<in> fst ` set l. deletes c) = {}
       \<or> (ds_PruneTabs spec \<and> (\<exists>sp w1 rs w2.
            get_spreadsheet (recording cl) sid (w, []) = (Inr sp, w1)
          \<and> sync_tabs (recording cl) sid (ds_Tabs spec) w1 = (Returns rs, w2)
          \<and> (\<Union>c \<in> fst ` set l. deletes c) \<subseteq>
              {sp_SheetId ps |ps. ps \<in> Option.these (sh_Properties ` set (ss_Sheets sp)) \<and> sp_Title ps \<notin> ts_Title ` set (ds_Tabs spec)}
              - tr_SheetID ` set rs
          \<and> (case out of Returns d \<Rightarrow> dr_Tabs d = rs | _ \<Rightarrow> True)))"
proof -
  obtain out w' l where run: "SyncDocument (recording cl) sid spec (w, []) = (out, (w', l))" by (metis surj_pair)
  have "quiet_log [] l \<or> (ds_PruneTabs spec \<and> (\<exists>sp w1 rs w2 ls. get_spreadsheet (recording cl) sid (w, []) = (Inr sp, w1)
      \<and> sync_tabs (recording cl) sid (ds_Tabs spec) w1 = (Returns rs, w2) \<and> l = snd w2 @ ls \<and> quiet_log [] (snd w2)
      \<and> fst ` set ls \<subseteq> {CallBatchUpdate sid (map ReqDeleteSheet (List.map_filter (stale (ds_Tabs spec) rs) (ss_Sheets sp)))}
      \<and> (case out of Returns d \<Rightarrow> dr_Tabs d = rs | _ \<Rightarrow> True)))"
    using rec.sync_deletions [OF run] unfolding snd_conv .
  then consider "quiet_log [] l"
    | sp w1 rs w2 ls where "ds_PruneTabs spec" "get_spreadsheet (recording cl) sid (w, []) = (Inr sp, w1)"
      "sync_tabs (recording cl) sid (ds_Tabs spec) w1 = (Returns rs, w2)" "l = snd w2 @ ls" "quiet_log [] (snd w2)"
      "fst ` set ls \<subseteq> {CallBatchUpdate sid (map ReqDeleteSheet (List.map_filter (stale (ds_Tabs spec) rs) (ss_Sheets sp)))}"
      "case out of Returns d \<Rightarrow> dr_Tabs d = rs | _ \<Rightarrow> True" by blast
  then show ?thesis
  proof cases
    case 1
    then show ?thesis by (simp only: run prod.case quiet_log_Nil) simp
  next
    case (2 sp w1 rs w2 ls)
    note p = 2(1) and g = 2(2) and t = 2(3) and l = 2(4) and q = 2(5) and ls = 2(6) and d = 2(7)
    have "(\<Union>c \<in> fst ` set (snd w2). deletes c) = {}" using q by (rule quiet_log_Nil)
    then have "(\<Union>c \<in> fst ` set l. deletes c) \<subseteq> set (List.map_filter (stale (ds_Tabs spec) rs) (ss_Sheets sp))"
      using ls l by (auto simp: image_iff)
    moreover have "set (List.map_filter (stale (ds_Tabs spec) rs) (ss_Sheets sp)) \<subseteq>
        {sp_SheetId ps |ps. ps \<in> Option.these (sh_Properties ` set (ss_Sheets sp)) \<and> sp_Title ps \<notin> ts_Title ` set (ds_Tabs spec)} - tr_SheetID ` set rs"
    proof
      fix i assume "i \<in> set (List.map_filter (stale (ds_Tabs spec) rs) (ss_Sheets sp))"
      then obtain sh where sh: "sh \<in> set (ss_Sheets sp)" "stale (ds_Tabs spec) rs sh = Some i" by (auto simp: List.map_filter_def)
      then obtain ps where ps: "sh_Properties sh = Some ps" "sp_Title ps \<notin> ts_Title ` set (ds_Tabs spec)" "sp_SheetId ps = i" "i \<notin> tr_SheetID ` set rs"
        by (auto simp: stale_def split: option.splits if_splits)
      have "ps \<in> Option.these (sh_Properties ` set (ss_Sheets sp))" using sh(1) ps(1) by (simp add: in_these_eq) (metis imageI)
      then show "i \<in> {sp_SheetId ps |ps. ps \<in> Option.these (sh_Properties ` set (ss_Sheets sp)) \<and> sp_Title ps \<notin> ts_Title ` set (ds_Tabs spec)} - tr_SheetID ` set rs"
        using ps by blast
    qed
    ultimately show ?thesis using p g t d unfolding run prod.case by blast
  qed
qed

text \<open>The documentation of \<open>TabSpec.GID\<close> says that a tab is matched by its GID first; a title that matches an earlier sheet wins.\<close>

lemma title_wins_over_gid:
  "let a = \<lparr>sh_Properties = Some \<lparr>sp_SheetId = 1, sp_Title = ''x'', sp_Grid = None\<rparr>, sh_Banded = []\<rparr>;
       b = \<lparr>sh_Properties = Some \<lparr>sp_SheetId = 2, sp_Title = ''y'', sp_Grid = None\<rparr>, sh_Banded = []\<rparr>
   in findMatchingSheet [a, b] \<lparr>ts_Title = ''x'', ts_GID = 2, CreateIfMissing = True, SkipFormatting = False, FrozenRows = 0, FrozenCols = 0,
        ts_Theme = None, ts_Data = None\<rparr> = Some a"
  by (simp add: findMatchingSheet_def findMatch_def)

end
