(* ===== verification/Drive_Service.thy ===== *)
theory Drive_Service
  imports Go_Errors
begin

section \<open>google/workspace/drive: memberships, folders and scans\<close>

text \<open>
  \<open>src/go/google/workspace/drive/{membership,admin,scanner,service}.go\<close>. The Drive API is a function from a call and
  the world to an error or a reply and the new world. The listings follow page tokens until an empty one, which a server need
  never give, so they are partial functions into \<open>option\<close>: not returning is None. Logging is left out.
\<close>

definition RoleReader :: string where "RoleReader = ''reader''"
definition RoleCommenter :: string where "RoleCommenter = ''commenter''"
definition RoleWriter :: string where "RoleWriter = ''writer''"
definition RoleFileOrganizer :: string where "RoleFileOrganizer = ''fileOrganizer''"
definition RoleOrganizer :: string where "RoleOrganizer = ''organizer''"

definition ErrEmptyMemberEmail :: "'x err" where
  "ErrEmptyMemberEmail = sentinel ''drive.ErrEmptyMemberEmail'' ''drive: empty member email''"
definition ErrUnknownRole :: "'x err" where
  "ErrUnknownRole = sentinel ''drive.ErrUnknownRole'' ''drive: unknown role''"
definition ErrNotFound :: "'x err" where
  "ErrNotFound = sentinel ''drive.ErrNotFound'' ''drive: resource not found''"
definition ErrNilService :: "'x err" where
  "ErrNilService = sentinel ''drive.ErrNilService'' ''google drive service must not be nil''"

definition RoleRank :: "string \<Rightarrow> int" where
  "RoleRank role =
     (if role = RoleReader then 10 else if role = RoleCommenter then 20 else if role = RoleWriter then 30
      else if role = RoleFileOrganizer then 40 else if role = RoleOrganizer then 50 else 0)"

datatype membership_action = MembershipActionCreated | MembershipActionUpgraded | MembershipActionUnchanged

record membership_result =
  mr_DriveID :: string
  mr_Member :: string
  mr_Role :: string
  mr_PreviousRole :: string
  mr_Action :: "membership_action option"
  mr_DryRun :: bool

record permission =
  pm_Id :: string
  pm_Type :: string
  pm_Role :: string
  pm_Email :: string

record drive_file =
  df_ID :: string
  df_Name :: string
  df_MimeType :: string
  df_DriveID :: string
  df_Parents :: "string list"

text \<open>The simplified view that the service returns.\<close>

record drive_entry =
  de_ID :: string
  de_Name :: string
  de_MimeType :: string
  de_DriveID :: string

record shared_drive =
  sd_Id :: string
  sd_Name :: string

text \<open>The calls; the flag of the permission calls is the domain administrator's access. The restrictions of a drive and the content of a file
  are passed through: their text and their bytes. An upload is given by its content.\<close>

datatype drive_call =
    PermissionsList string bool string
  | PermissionsUpdate string string string
  | PermissionsCreate string permission
  | PermissionsDelete string string bool
  | DrivesCreate string string "string option"
  | DrivesList string int string
  | DrivesGet string
  | FilesCreate string string "string list" "(string \<times> string) list"
  | FilesList string int string
  | FilesScan int string string string string string
  | FilesGetParents string
  | FilesMove string string "string option"
  | FilesSetProperties string "(string \<times> string) list"
  | FilesTrash string
  | FilesUpload string "string list" "(string \<times> string) list" string
  | FilesExport string string
  | FilesDownload string

datatype drive_reply =
    RepPermissions "permission list" string
  | RepDrives "shared_drive list" string
  | RepDrive shared_drive
  | RepFiles "drive_file option list" string
  | RepFile drive_file
  | RepTrashed bool
  | RepBody string
  | RepNothing

definition defaultAdminPageSize :: int where "defaultAdminPageSize = 100"
definition searchPageSize :: int where "searchPageSize = 50"
definition queryPageSize :: int where "queryPageSize = 10"

type_synonym ('x, 'w) drive_api = "drive_call \<Rightarrow> 'w \<Rightarrow> ('x err + drive_reply) \<times> 'w"

subsection \<open>Listings\<close>

text \<open>The loop of the listings: \<open>fetch\<close> asks for the page of a token.\<close>

partial_function (option) list_pages ::
    "(string \<Rightarrow> 'w \<Rightarrow> ('x err + 'a list \<times> string) \<times> 'w) \<Rightarrow> string \<Rightarrow> 'a list \<Rightarrow> 'w \<Rightarrow> (('x err + 'a list) \<times> 'w) option" where
  "list_pages fetch pageToken out w =
     (case fetch pageToken w of
        (Inl e, w') \<Rightarrow> Some (Inl e, w')
      | (Inr (xs, next_token), w') \<Rightarrow>
          if next_token = '''' then Some (Inr (out @ xs), w') else list_pages fetch next_token (out @ xs) w')"

definition permissions_page :: "('x, 'w) drive_api \<Rightarrow> string \<Rightarrow> string \<Rightarrow> bool \<Rightarrow> string \<Rightarrow> 'w \<Rightarrow> ('x err + permission list \<times> string) \<times> 'w" where
  "permissions_page api what oid admin tok w =
     (case api (PermissionsList oid admin tok) w of
        (Inl e, w') \<Rightarrow> (Inl (wrapf (what @ oid @ '': '') e), w')
      | (Inr (RepPermissions ps nt), w') \<Rightarrow> (Inr (ps, nt), w')
      | (Inr _, w') \<Rightarrow> (Inr ([], ''''), w'))"

definition ListDriveMembers :: "('x, 'w) drive_api \<Rightarrow> string \<Rightarrow> 'w \<Rightarrow> (('x err + permission list) \<times> 'w) option" where
  "ListDriveMembers api driveID w = list_pages (permissions_page api ''drive: list permissions for drive '' driveID True) '''' [] w"

definition ListFilePermissions :: "('x, 'w) drive_api \<Rightarrow> string \<Rightarrow> 'w \<Rightarrow> (('x err + permission list) \<times> 'w) option" where
  "ListFilePermissions api fileID w = list_pages (permissions_page api ''drive: list permissions for file '' fileID False) '''' [] w"

definition drives_page :: "('x, 'w) drive_api \<Rightarrow> int \<Rightarrow> string \<Rightarrow> 'w \<Rightarrow> ('x err + shared_drive list \<times> string) \<times> 'w" where
  "drives_page api pageSize tok w =
     (case api (DrivesList '''' pageSize tok) w of
        (Inl e, w') \<Rightarrow> (Inl (wrapf ''drive: list shared drives: '' e), w')
      | (Inr (RepDrives ds nt), w') \<Rightarrow> (Inr (ds, nt), w')
      | (Inr _, w') \<Rightarrow> (Inr ([], ''''), w'))"

definition ListSharedDrives :: "('x, 'w) drive_api \<Rightarrow> int \<Rightarrow> 'w \<Rightarrow> (('x err + shared_drive list) \<times> 'w) option" where
  "ListSharedDrives api pageSize w = list_pages (drives_page api (if pageSize \<le> 0 then defaultAdminPageSize else pageSize)) '''' [] w"

subsection \<open>Memberships\<close>

text \<open>The permission of the member with the highest role, the first of them.\<close>

definition better_permission :: "(string \<Rightarrow> string \<Rightarrow> bool) \<Rightarrow> string \<Rightarrow> permission \<Rightarrow> permission option \<Rightarrow> permission option" where
  "better_permission equalFold email p current =
     (if equalFold (pm_Email p) email then
        (case current of None \<Rightarrow> Some p | Some c \<Rightarrow> if RoleRank (pm_Role p) > RoleRank (pm_Role c) then Some p else current)
      else current)"

definition current_permission :: "(string \<Rightarrow> string \<Rightarrow> bool) \<Rightarrow> string \<Rightarrow> permission list \<Rightarrow> permission option" where
  "current_permission equalFold email perms = fold (better_permission equalFold email) perms None"

definition EnsureDriveMembership :: "(string \<Rightarrow> string) \<Rightarrow> (string \<Rightarrow> string \<Rightarrow> bool) \<Rightarrow> ('x, 'w) drive_api \<Rightarrow> string \<Rightarrow> string \<Rightarrow> string \<Rightarrow> bool \<Rightarrow> 'w
    \<Rightarrow> (('x err + membership_result) \<times> 'w) option" where
  "EnsureDriveMembership toLower equalFold api driveID memberEmail0 role dryRun w =
     (let memberEmail = toLower (trim_space memberEmail0) in
      if memberEmail = '''' then Some (Inl (errorf (err_text (ErrEmptyMemberEmail :: 'x err) @ '' for drive '' @ driveID) [ErrEmptyMemberEmail]), w)
      else if RoleRank role = 0 then
        Some (Inl (errorf (err_text (ErrUnknownRole :: 'x err) @ '' '' @ go_quote role @ '' (valid: '' @ RoleReader @ '', '' @ RoleCommenter @ '', '' @ RoleWriter
          @ '', '' @ RoleFileOrganizer @ '', '' @ RoleOrganizer @ '')'') [ErrUnknownRole]), w)
      else (case ListDriveMembers api driveID w of
        None \<Rightarrow> None
      | Some (Inl e, w1) \<Rightarrow> Some (Inl (wrapf (''drive: list members for drive '' @ driveID @ '': '') e), w1)
      | Some (Inr perms, w1) \<Rightarrow>
         let res = \<lparr>mr_DriveID = driveID, mr_Member = memberEmail, mr_Role = role, mr_PreviousRole = '''', mr_Action = None, mr_DryRun = dryRun\<rparr> in
         (case current_permission equalFold memberEmail perms of
            Some cur \<Rightarrow>
              let res1 = res\<lparr>mr_PreviousRole := pm_Role cur\<rparr> in
              if RoleRank (pm_Role cur) \<ge> RoleRank role then
                Some (Inr (res1\<lparr>mr_Action := Some MembershipActionUnchanged, mr_Role := pm_Role cur\<rparr>), w1)
              else let res2 = res1\<lparr>mr_Action := Some MembershipActionUpgraded\<rparr> in
                if dryRun then Some (Inr res2, w1)
                else (case api (PermissionsUpdate driveID (pm_Id cur) role) w1 of
                  (Inl e, w2) \<Rightarrow> Some (Inl (wrapf (''drive: upgrade member '' @ memberEmail @ '' on drive '' @ driveID @ '' to '' @ role @ '': '') e), w2)
                | (Inr r, w2) \<Rightarrow> Some (Inr res2, w2))
          | None \<Rightarrow>
              let res1 = res\<lparr>mr_Action := Some MembershipActionCreated\<rparr> in
              if dryRun then Some (Inr res1, w1)
              else (case api (PermissionsCreate driveID \<lparr>pm_Id = '''', pm_Type = ''user'', pm_Role = role, pm_Email = memberEmail\<rparr>) w1 of
                  (Inl e, w2) \<Rightarrow> Some (Inl (wrapf (''drive: create member '' @ memberEmail @ '' on drive '' @ driveID @ '' ('' @ role @ ''): '') e), w2)
                | (Inr r, w2) \<Rightarrow> Some (Inr res1, w2)))))"

definition DeleteDriveMember :: "('x, 'w) drive_api \<Rightarrow> string \<Rightarrow> string \<Rightarrow> 'w \<Rightarrow> 'x err option \<times> 'w" where
  "DeleteDriveMember api driveID pid w =
     (case api (PermissionsDelete driveID pid True) w of
        (Inl e, w') \<Rightarrow> (Some (wrapf (''drive: delete permission '' @ pid @ '' on drive '' @ driveID @ '': '') e), w') | (Inr _, w') \<Rightarrow> (None, w'))"

definition DeleteFilePermission :: "('x, 'w) drive_api \<Rightarrow> string \<Rightarrow> string \<Rightarrow> 'w \<Rightarrow> 'x err option \<times> 'w" where
  "DeleteFilePermission api fileID pid w =
     (case api (PermissionsDelete fileID pid False) w of
        (Inl e, w') \<Rightarrow> (Some (wrapf (''drive: delete permission '' @ pid @ '' on file '' @ fileID @ '': '') e), w') | (Inr _, w') \<Rightarrow> (None, w'))"

subsection \<open>Drives and folders\<close>

definition replace_char :: "char \<Rightarrow> string \<Rightarrow> string \<Rightarrow> string" where
  "replace_char c t s = concat (map (\<lambda>x. if x = c then t else [x]) s)"

text \<open>The backslash and the single quote.\<close>

definition bslash :: char where "bslash = CHR 0x5C"
definition squote :: char where "squote = CHR 0x27"

definition EscapeQueryValue :: "string \<Rightarrow> string" where
  "EscapeQueryValue s = replace_char squote [bslash, squote] (replace_char bslash [bslash, bslash] s)"

text \<open>A value in a query: quoted and escaped.\<close>

definition quoted :: "string \<Rightarrow> string" where
  "quoted s = [squote] @ EscapeQueryValue s @ [squote]"

text \<open>The options of a new drive: each sets the restrictions, the last one counts.\<close>

definition WithDriveRestrictions :: "string option \<Rightarrow> string option \<Rightarrow> string option" where
  "WithDriveRestrictions r cfg = r"

definition CreateSharedDrive :: "('x, 'w) drive_api \<Rightarrow> string \<Rightarrow> string \<Rightarrow> (string option \<Rightarrow> string option) list \<Rightarrow> 'w \<Rightarrow> ('x err + drive_reply) \<times> 'w" where
  "CreateSharedDrive api name requestID opts w =
     (case api (DrivesCreate requestID name (fold (\<lambda>opt cfg. opt cfg) opts None)) w of
        (Inl e, w') \<Rightarrow> (Inl (wrapf (''drive: create shared drive '' @ go_quote name @ '' (request_id='' @ requestID @ ''): '') e), w')
      | (Inr r, w') \<Rightarrow> (Inr r, w'))"

definition drive_name_query :: "string \<Rightarrow> string" where
  "drive_name_query name = ''name = '' @ quoted name"

definition FindSharedDriveByName :: "('x, 'w) drive_api \<Rightarrow> string \<Rightarrow> 'w \<Rightarrow> ('x err + shared_drive) \<times> 'w" where
  "FindSharedDriveByName api name w =
     (case api (DrivesList (drive_name_query name) searchPageSize '''') w of
        (Inl e, w') \<Rightarrow> (Inl (wrapf (''drive: find shared drive by name '' @ go_quote name @ '': '') e), w')
      | (Inr r, w') \<Rightarrow>
          (case List.find (\<lambda>d. sd_Name d = name) (case r of RepDrives ds nt \<Rightarrow> ds | _ \<Rightarrow> []) of
             Some d \<Rightarrow> (Inr d, w')
           | None \<Rightarrow> (Inl (errorf (err_text (ErrNotFound :: 'x err) @ '': shared drive '' @ go_quote name) [ErrNotFound]), w')))"

definition GetSharedDrive :: "('x, 'w) drive_api \<Rightarrow> string \<Rightarrow> 'w \<Rightarrow> ('x err + drive_reply) \<times> 'w" where
  "GetSharedDrive api driveID w =
     (case api (DrivesGet driveID) w of
        (Inl e, w') \<Rightarrow> (Inl (wrapf (''drive: get shared drive '' @ driveID @ '': '') e), w') | (Inr r, w') \<Rightarrow> (Inr r, w'))"

definition folderMime :: string where "folderMime = ''application/vnd.google-apps.folder''"

text \<open>The view of a file that the server has created.\<close>

definition entry_of :: "drive_reply \<Rightarrow> drive_entry" where
  "entry_of r = (case r of
      RepFile f \<Rightarrow> \<lparr>de_ID = df_ID f, de_Name = df_Name f, de_MimeType = df_MimeType f, de_DriveID = df_DriveID f\<rparr>
    | _ \<Rightarrow> \<lparr>de_ID = '''', de_Name = '''', de_MimeType = '''', de_DriveID = ''''\<rparr>)"

definition CreateFolder :: "('x, 'w) drive_api \<Rightarrow> string \<Rightarrow> string \<Rightarrow> (string \<times> string) list \<Rightarrow> 'w \<Rightarrow> ('x err + drive_entry) \<times> 'w" where
  "CreateFolder api parentID name props w =
     (case api (FilesCreate name folderMime (if parentID \<noteq> '''' then [parentID] else []) props) w of
        (Inl e, w') \<Rightarrow> (Inl (wrapf (''drive: create folder '' @ go_quote name @ '': '') e), w') | (Inr r, w') \<Rightarrow> (Inr (entry_of r), w'))"

definition Upload :: "('x, 'w) drive_api \<Rightarrow> string \<Rightarrow> string \<Rightarrow> (string \<times> string) list \<Rightarrow> string \<Rightarrow> 'w \<Rightarrow> ('x err + drive_entry) \<times> 'w" where
  "Upload api name folderID properties content w =
     (case api (FilesUpload name (if folderID \<noteq> '''' then [folderID] else []) properties content) w of
        (Inl e, w') \<Rightarrow> (Inl (wrapf ''drive: upload: '' e), w') | (Inr r, w') \<Rightarrow> (Inr (entry_of r), w'))"

text \<open>The call that fetches a file: documents of Google are exported, by default to PDF. The body of the reply is read by \<open>read_body\<close>.\<close>

definition fetch_call :: "string \<Rightarrow> string \<Rightarrow> string \<Rightarrow> drive_call" where
  "fetch_call fid sourceMimeType targetMimeType =
     (if has_prefix sourceMimeType ''application/vnd.google-apps.''
      then FilesExport fid (if targetMimeType = '''' then ''application/pdf'' else targetMimeType)
      else FilesDownload fid)"

definition FetchFile :: "('x, 'w) drive_api \<Rightarrow> (drive_reply \<Rightarrow> 'w \<Rightarrow> ('x err + string) \<times> 'w) \<Rightarrow> string \<Rightarrow> string \<Rightarrow> string \<Rightarrow> 'w \<Rightarrow> ('x err + string) \<times> 'w" where
  "FetchFile api read_body fid sourceMimeType targetMimeType w =
     (case api (fetch_call fid sourceMimeType targetMimeType) w of
        (Inl e, w') \<Rightarrow> (Inl (wrapf ''drive: fetch file: '' e), w')
      | (Inr resp, w') \<Rightarrow>
          (case read_body resp w' of
             (Inl e, w2) \<Rightarrow> (Inl (wrapf ''drive: read body: '' e), w2)
           | (Inr body, w2) \<Rightarrow> (Inr body, w2)))"

definition folder_query :: "string \<Rightarrow> string \<Rightarrow> string" where
  "folder_query name parentID = ''name = '' @ quoted name @ '' and mimeType = '' @ [squote] @ folderMime @ [squote] @ '' and ''
     @ quoted parentID @ '' in parents and trashed = false''"

definition property_query :: "string \<Rightarrow> string \<Rightarrow> string" where
  "property_query key v = ''appProperties has { key='' @ quoted key @ '' and value='' @ quoted v @ '' } and mimeType = ''
     @ [squote] @ folderMime @ [squote] @ '' and trashed = false''"

text \<open>The id of the first file of a reply, the empty id when there is none; a nil first entry is dereferenced, which panics.\<close>

datatype 'x find_outcome = FindReturns string | FindFails "'x err" | FindPanics

definition first_file_id :: "drive_reply \<Rightarrow> 'x find_outcome" where
  "first_file_id r = (case r of RepFiles (Some f # _) _ \<Rightarrow> FindReturns (df_ID f) | RepFiles (None # _) _ \<Rightarrow> FindPanics | _ \<Rightarrow> FindReturns '''')"

definition FindFolder :: "('x, 'w) drive_api \<Rightarrow> string \<Rightarrow> string \<Rightarrow> 'w \<Rightarrow> 'x find_outcome \<times> 'w" where
  "FindFolder api parentID name w =
     (case api (FilesList (folder_query name parentID) queryPageSize '''') w of
        (Inl e, w') \<Rightarrow> (FindFails (wrapf (''drive: find folder '' @ go_quote name @ '' in '' @ parentID @ '': '') e), w')
      | (Inr r, w') \<Rightarrow> (first_file_id r, w'))"

definition FindFolderByProperty :: "('x, 'w) drive_api \<Rightarrow> string \<Rightarrow> string \<Rightarrow> 'w \<Rightarrow> 'x find_outcome \<times> 'w" where
  "FindFolderByProperty api key v w =
     (case api (FilesList (property_query key v) queryPageSize '''') w of
        (Inl e, w') \<Rightarrow> (FindFails (wrapf (''drive: find folder by property '' @ key @ ''='' @ v @ '': '') e), w')
      | (Inr r, w') \<Rightarrow> (first_file_id r, w'))"

definition move_call :: "('x, 'w) drive_api \<Rightarrow> string \<Rightarrow> string \<Rightarrow> string \<Rightarrow> 'w \<Rightarrow> ('x err + drive_reply) \<times> 'w" where
  "move_call api fileID newParentID removeParents w =
     (case api (FilesMove fileID newParentID (if removeParents \<noteq> '''' then Some removeParents else None)) w of
        (Inl e, w') \<Rightarrow> (Inl (wrapf (''drive: move file '' @ fileID @ '' to '' @ newParentID @ '' (removing '' @ removeParents @ ''): '') e), w')
      | (Inr r, w') \<Rightarrow> (Inr r, w'))"

definition MoveFile :: "('x, 'w) drive_api \<Rightarrow> string \<Rightarrow> string \<Rightarrow> string \<Rightarrow> 'w \<Rightarrow> ('x err + drive_reply) \<times> 'w" where
  "MoveFile api fileID oldParentID newParentID w =
     (if oldParentID \<noteq> '''' then move_call api fileID newParentID oldParentID w
      else (case api (FilesGetParents fileID) w of
        (Inl e, w') \<Rightarrow> (Inl (wrapf (''drive: move file '' @ fileID @ '': discover existing parents: '') e), w')
      | (Inr r, w') \<Rightarrow> move_call api fileID newParentID (join_with '','' (case r of RepFile f \<Rightarrow> df_Parents f | _ \<Rightarrow> [])) w'))"

definition SetAppProperties :: "('x, 'w) drive_api \<Rightarrow> string \<Rightarrow> (string \<times> string) list \<Rightarrow> 'w \<Rightarrow> 'x err option \<times> 'w" where
  "SetAppProperties api fileID props w =
     (case api (FilesSetProperties fileID props) w of
        (Inl e, w') \<Rightarrow> (Some (wrapf (''drive: set app properties for '' @ fileID @ '': '') e), w') | (Inr _, w') \<Rightarrow> (None, w'))"

definition TrashFile :: "('x, 'w) drive_api \<Rightarrow> string \<Rightarrow> 'w \<Rightarrow> ('x err + bool) \<times> 'w" where
  "TrashFile api fileID w =
     (case api (FilesTrash fileID) w of
        (Inl e, w') \<Rightarrow> (Inl (wrapf (''drive: trash file '' @ fileID @ '': '') e), w')
      | (Inr r, w') \<Rightarrow> (Inr (case r of RepTrashed b \<Rightarrow> b | _ \<Rightarrow> False), w'))"

subsection \<open>scanner.go\<close>

record scanner =
  sc_pageSize :: int
  sc_maxPages :: int
  sc_query :: string
  sc_fields :: string
  sc_corpora :: string
  sc_driveID :: string

datatype scanner_option = WithPageSize int | WithMaxPages int | WithQuery string | WithFields string | WithCorpora string | WithDriveID string

fun apply_scanner_option :: "scanner_option \<Rightarrow> scanner \<Rightarrow> scanner" where
  "apply_scanner_option (WithPageSize n) s = (if n > 0 then s\<lparr>sc_pageSize := n\<rparr> else s)"
| "apply_scanner_option (WithMaxPages n) s = s\<lparr>sc_maxPages := n\<rparr>"
| "apply_scanner_option (WithQuery q) s = s\<lparr>sc_query := q\<rparr>"
| "apply_scanner_option (WithFields f) s = (if f \<noteq> '''' then s\<lparr>sc_fields := f\<rparr> else s)"
| "apply_scanner_option (WithCorpora c) s = s\<lparr>sc_corpora := c\<rparr>"
| "apply_scanner_option (WithDriveID i) s = s\<lparr>sc_driveID := i\<rparr>"

definition defaultPageSize :: int where "defaultPageSize = 1000"
definition defaultMaxPages :: int where "defaultMaxPages = 10000"

definition NewScanner :: "scanner_option list \<Rightarrow> scanner" where
  "NewScanner opts = fold apply_scanner_option opts
     \<lparr>sc_pageSize = defaultPageSize, sc_maxPages = defaultMaxPages, sc_query = '''',
      sc_fields = ''nextPageToken, files(id, name, mimeType, parents, size, createdTime, driveId)'', sc_corpora = '''', sc_driveID = ''''\<rparr>"

definition buildListCall :: "scanner \<Rightarrow> string \<Rightarrow> drive_call" where
  "buildListCall s pageToken =
     FilesScan (sc_pageSize s) (sc_fields s) (if sc_corpora s \<noteq> '''' then sc_corpora s else ''allDrives'') (sc_driveID s) (sc_query s) pageToken"

text \<open>The callback for the files of a page; nil entries are skipped.\<close>

fun scan_files :: "(drive_file \<Rightarrow> 'w \<Rightarrow> 'x err option \<times> 'w) \<Rightarrow> drive_file option list \<Rightarrow> 'w \<Rightarrow> 'x err option \<times> 'w" where
  "scan_files onFile [] w = (None, w)"
| "scan_files onFile (None # fs) w = scan_files onFile fs w"
| "scan_files onFile (Some f # fs) w =
     (case onFile f w of
        (Some e, w') \<Rightarrow> (Some (wrapf (''processing callback failed for file '' @ df_ID f @ '': '') e), w')
      | (None, w') \<Rightarrow> scan_files onFile fs w')"

definition files_of :: "drive_reply \<Rightarrow> drive_file option list \<times> string" where
  "files_of r = (case r of RepFiles fs nt \<Rightarrow> (fs, nt) | _ \<Rightarrow> ([], ''''))"

partial_function (option) scan_loop :: "'w env \<Rightarrow> ('x, 'w) drive_api \<Rightarrow> scanner \<Rightarrow> (drive_file \<Rightarrow> 'w \<Rightarrow> 'x err option \<times> 'w) \<Rightarrow> string \<Rightarrow> nat \<Rightarrow> 'w
    \<Rightarrow> ('x err option \<times> 'w) option" where
  "scan_loop env api s onFile pageToken pageCount w =
     (case poll_ctx env w of
        (Some c, w1) \<Rightarrow> Some (Some (ctx_err c), w1)
      | (None, w1) \<Rightarrow>
         (case api (buildListCall s pageToken) w1 of
            (Inl e, w2) \<Rightarrow> Some (Some (wrapf (''google drive API request failed at page '' @ show_nat (pageCount + 1) @ '': '') e), w2)
          | (Inr r, w2) \<Rightarrow>
            (case scan_files onFile (fst (files_of r)) w2 of
               (Some e, w3) \<Rightarrow> Some (Some e, w3)
             | (None, w3) \<Rightarrow>
                if snd (files_of r) = '''' then Some (None, w3)
                else if sc_maxPages s > 0 \<and> int (pageCount + 1) \<ge> sc_maxPages s then Some (None, w3)
                else scan_loop env api s onFile (snd (files_of r)) (pageCount + 1) w3)))"

definition Scan :: "'w env \<Rightarrow> ('x, 'w) drive_api option \<Rightarrow> scanner \<Rightarrow> (drive_file \<Rightarrow> 'w \<Rightarrow> 'x err option \<times> 'w) \<Rightarrow> 'w \<Rightarrow> ('x err option \<times> 'w) option" where
  "Scan env srv s onFile w =
     (case srv of None \<Rightarrow> Some (Some ErrNilService, w) | Some api \<Rightarrow> scan_loop env api s onFile '''' 0 w)"

subsection \<open>Queries\<close>

text \<open>A string literal of a query, read as the Drive documentation describes it: a backslash takes the next character as it is, a quote ends the
  literal. The result is the value and the text after the literal.\<close>

fun read_literal_body :: "string \<Rightarrow> (string \<times> string) option" where
  "read_literal_body [] = None"
| "read_literal_body (c # cs) =
     (if c = squote then Some ([], cs)
      else if c = bslash then (case cs of [] \<Rightarrow> None | d # ds \<Rightarrow> map_option (\<lambda>(v, r). (d # v, r)) (read_literal_body ds))
      else map_option (\<lambda>(v, r). (c # v, r)) (read_literal_body cs))"

definition read_literal :: "string \<Rightarrow> (string \<times> string) option" where
  "read_literal s = (case s of [] \<Rightarrow> None | c # cs \<Rightarrow> if c = squote then read_literal_body cs else None)"

lemma replace_char_simps [simp]:
  "replace_char c t [] = []" "replace_char c t (x # xs) = (if x = c then t else [x]) @ replace_char c t xs"
  by (simp_all add: replace_char_def)

lemma EscapeQueryValue_simps [simp]:
  "EscapeQueryValue [] = []"
  "EscapeQueryValue (c # s) = (if c = bslash then [bslash, bslash] else if c = squote then [bslash, squote] else [c]) @ EscapeQueryValue s"
  by (simp_all add: EscapeQueryValue_def bslash_def squote_def)

lemma read_quoted: "read_literal (quoted s @ r) = Some (s, r)"
proof -
  have "read_literal_body (EscapeQueryValue s @ squote # r) = Some (s, r)"
    by (induction s) (auto simp: bslash_def squote_def)
  then show ?thesis by (simp add: read_literal_def quoted_def)
qed

subsection \<open>Listings follow the pages\<close>

text \<open>The server's pages from a token: each but the last names the next.\<close>

fun follows :: "(string \<Rightarrow> 'w \<Rightarrow> ('x err + 'a list \<times> string) \<times> 'w) \<Rightarrow> string \<Rightarrow> 'w \<Rightarrow> 'a list list \<Rightarrow> 'w \<Rightarrow> bool" where
  "follows fetch t w [] w' \<longleftrightarrow> False"
| "follows fetch t w (xs # rest) w' \<longleftrightarrow>
     (if rest = [] then fetch t w = (Inr (xs, ''''), w')
      else (\<exists>t' w1. fetch t w = (Inr (xs, t'), w1) \<and> t' \<noteq> '''' \<and> follows fetch t' w1 rest w'))"

lemma list_pages_follows: "follows fetch t w pages w' \<Longrightarrow> list_pages fetch t out w = Some (Inr (out @ concat pages), w')"
proof (induction pages arbitrary: t w out)
  case (Cons xs rest)
  show ?case
  proof (cases "rest = []")
    case True
    then show ?thesis using Cons.prems by (subst list_pages.simps) simp
  next
    case False
    then obtain t' w1 where "fetch t w = (Inr (xs, t'), w1)" "t' \<noteq> ''''" "follows fetch t' w1 rest w'" using Cons.prems by auto
    then show ?thesis using Cons.IH by (subst list_pages.simps) simp
  qed
qed simp

subsection \<open>Memberships\<close>

text \<open>The rank of the best role that a list of permissions gives an address.\<close>

fun best_rank :: "(string \<Rightarrow> string \<Rightarrow> bool) \<Rightarrow> string \<Rightarrow> permission list \<Rightarrow> int" where
  "best_rank equalFold email [] = 0"
| "best_rank equalFold email (p # ps) =
     (if equalFold (pm_Email p) email then max (RoleRank (pm_Role p)) (best_rank equalFold email ps) else best_rank equalFold email ps)"

lemma RoleRank_nonneg: "0 \<le> RoleRank r"
  by (simp add: RoleRank_def)

lemma best_rank_nonneg: "0 \<le> best_rank f e ps"
  by (induction ps) (auto simp: max.coboundedI2)

lemma best_rank_append: "best_rank f e (xs @ ys) = max (best_rank f e xs) (best_rank f e ys)"
  using best_rank_nonneg [of f e ys] by (induction xs) (auto simp: max.assoc)

lemma best_rank_none: "list_all (\<lambda>p. \<not> f (pm_Email p) e) ps \<Longrightarrow> best_rank f e ps = 0"
  by (induction ps) auto

lemma current_snoc: "current_permission f e (ps @ [p]) = better_permission f e p (current_permission f e ps)"
  by (simp add: current_permission_def)

lemma current_spec:
  "case current_permission f e perms of
     None \<Rightarrow> list_all (\<lambda>p. \<not> f (pm_Email p) e) perms
   | Some q \<Rightarrow> q \<in> set perms \<and> f (pm_Email q) e \<and> RoleRank (pm_Role q) = best_rank f e perms"
proof (induction perms rule: rev_induct)
  case (snoc p ps)
  note nn = RoleRank_nonneg [of "pm_Role p"] best_rank_nonneg [of f e ps]
  show ?case
  proof (cases "current_permission f e ps")
    case None
    then have "best_rank f e ps = 0" "list_all (\<lambda>p. \<not> f (pm_Email p) e) ps" using snoc best_rank_none by auto
    then show ?thesis using None nn by (simp add: current_snoc better_permission_def best_rank_append)
  next
    case (Some q)
    then have "q \<in> set ps" "f (pm_Email q) e" "RoleRank (pm_Role q) = best_rank f e ps" using snoc by auto
    then show ?thesis using Some nn by (simp add: current_snoc better_permission_def best_rank_append)
  qed
qed (simp add: current_permission_def)

text \<open>The replies of the API to a listing of the permissions of a drive, page by page, the last one without a further token.\<close>

fun serves_permissions :: "('x, 'w) drive_api \<Rightarrow> string \<Rightarrow> string \<Rightarrow> 'w \<Rightarrow> permission list list \<Rightarrow> 'w \<Rightarrow> bool" where
  "serves_permissions api d t w [] w' \<longleftrightarrow> False"
| "serves_permissions api d t w (ps # rest) w' \<longleftrightarrow>
     (if rest = [] then api (PermissionsList d True t) w = (Inr (RepPermissions ps ''''), w')
      else (\<exists>t' w1. api (PermissionsList d True t) w = (Inr (RepPermissions ps t'), w1) \<and> t' \<noteq> '''' \<and> serves_permissions api d t' w1 rest w'))"

lemma served_pages_follow:
  "serves_permissions api d t w pages w' \<Longrightarrow> follows (permissions_page api what d True) t w pages w'"
proof (induction pages arbitrary: t w)
  case (Cons ps rest)
  then show ?case by (cases "rest = []") (auto simp: permissions_page_def)
qed simp

text \<open>What the Drive documentation says of a shared drive's permissions: the list of an object follows pages that make up its
  permissions and changes nothing; an update changes the role of the permission with that id; a creation adds a permission for the
  address.\<close>

definition keeps_permissions :: "('x, 'w) drive_api \<Rightarrow> ('w \<Rightarrow> string \<Rightarrow> permission list) \<Rightarrow> bool" where
  "keeps_permissions api perms \<longleftrightarrow>
     (\<forall>d w. \<exists>pages w'. serves_permissions api d '''' w pages w'
        \<and> concat pages = perms w d \<and> perms w' = perms w)
   \<and> (\<forall>d i r w a w'. api (PermissionsUpdate d i r) w = (Inr a, w') \<longrightarrow>
        perms w' = (perms w)(d := map (\<lambda>p. if pm_Id p = i then p\<lparr>pm_Role := r\<rparr> else p) (perms w d)))
   \<and> (\<forall>d q w a w'. api (PermissionsCreate d q) w = (Inr a, w') \<longrightarrow>
        (\<exists>i. i \<notin> pm_Id ` set (perms w d) \<and> perms w' = (perms w)(d := perms w d @ [q\<lparr>pm_Id := i\<rparr>])))"

lemma update_others:
  "distinct (map pm_Id ps) \<Longrightarrow> q \<in> set ps \<Longrightarrow> f (pm_Email q) e \<Longrightarrow>
   filter (\<lambda>p. \<not> f (pm_Email p) e) (map (\<lambda>p. if pm_Id p = pm_Id q then p\<lparr>pm_Role := r\<rparr> else p) ps) = filter (\<lambda>p. \<not> f (pm_Email p) e) ps"
proof (induction ps)
  case (Cons p ps)
  show ?case
  proof (cases "pm_Id p = pm_Id q")
    case True
    then have "p = q" "\<forall>x \<in> set ps. pm_Id x \<noteq> pm_Id q" using Cons.prems by (auto simp: image_iff)
    then have "map (\<lambda>p. if pm_Id p = pm_Id q then p\<lparr>pm_Role := r\<rparr> else p) ps = ps" by (simp add: map_idI)
    then show ?thesis using \<open>p = q\<close> Cons.prems by simp
  next
    case False
    then show ?thesis using Cons by auto
  qed
qed simp

lemma update_best_rank:
  "distinct (map pm_Id ps) \<Longrightarrow> q \<in> set ps \<Longrightarrow> f (pm_Email q) e \<Longrightarrow> RoleRank (pm_Role q) \<le> RoleRank r \<Longrightarrow> best_rank f e ps \<le> RoleRank r \<Longrightarrow>
   best_rank f e (map (\<lambda>p. if pm_Id p = pm_Id q then p\<lparr>pm_Role := r\<rparr> else p) ps) = RoleRank r"
proof (induction ps)
  case (Cons p ps)
  have le: "best_rank f e ps \<le> RoleRank r" using Cons.prems(5) by (auto split: if_splits)
  show ?case
  proof (cases "pm_Id p = pm_Id q")
    case True
    then have "p = q" "\<forall>x \<in> set ps. pm_Id x \<noteq> pm_Id q" using Cons.prems by (auto simp: image_iff)
    then have "map (\<lambda>p. if pm_Id p = pm_Id q then p\<lparr>pm_Role := r\<rparr> else p) ps = ps" by (simp add: map_idI)
    then show ?thesis using \<open>p = q\<close> Cons.prems le by simp
  next
    case False
    then show ?thesis using Cons le by (auto split: if_splits)
  qed
qed simp

lemma ListDriveMembers_server:
  assumes "keeps_permissions api perms"
  shows "\<exists>w'. ListDriveMembers api d w = Some (Inr (perms w d), w') \<and> perms w' = perms w"
proof -
  obtain pages w' where "serves_permissions api d '''' w pages w'" "concat pages = perms w d" "perms w' = perms w"
    using assms unfolding keeps_permissions_def by blast
  then show ?thesis using list_pages_follows [OF served_pages_follow, of api d _ _ pages w' _ "[]"] by (auto simp: ListDriveMembers_def)
qed

lemma update_keeps: "keeps_permissions api perms \<Longrightarrow> api (PermissionsUpdate d i r) w = (Inr a, w') \<Longrightarrow>
    perms w' = (perms w)(d := map (\<lambda>p. if pm_Id p = i then p\<lparr>pm_Role := r\<rparr> else p) (perms w d))"
  by (simp add: keeps_permissions_def)

lemma create_keeps: "keeps_permissions api perms \<Longrightarrow> api (PermissionsCreate d q) w = (Inr a, w') \<Longrightarrow>
    \<exists>i. perms w' = (perms w)(d := perms w d @ [q\<lparr>pm_Id := i\<rparr>])"
  unfolding keeps_permissions_def by blast

lemma ensure_membership_aux:
  assumes srv: "keeps_permissions api perms" and ids: "distinct (map pm_Id (perms w d))"
    and fold: "\<And>e. equalFold e e"
    and run: "EnsureDriveMembership toLower equalFold api d email role dryRun w = Some (Inr res, w')"
  defines "e \<equiv> toLower (trim_space email)"
  shows "(if dryRun then perms w' = perms w
      else best_rank equalFold e (perms w' d) = max (best_rank equalFold e (perms w d)) (RoleRank role)
        \<and> filter (\<lambda>p. \<not> equalFold (pm_Email p) e) (perms w' d) = filter (\<lambda>p. \<not> equalFold (pm_Email p) e) (perms w d)
        \<and> (\<forall>o'. o' \<noteq> d \<longrightarrow> perms w' o' = perms w o'))
    \<and> RoleRank (mr_Role res) = max (best_rank equalFold e (perms w d)) (RoleRank role)
    \<and> (mr_Action res = Some MembershipActionUnchanged \<longleftrightarrow> RoleRank role \<le> best_rank equalFold e (perms w d))"
proof -
  obtain w1 where l: "ListDriveMembers api d w = Some (Inr (perms w d), w1)" and p1: "perms w1 = perms w"
    using ListDriveMembers_server [OF srv] by blast
  have ne: "e \<noteq> ''''" and rk: "RoleRank role \<noteq> 0" using run by (auto simp: EnsureDriveMembership_def Let_def e_def split: if_splits)
  note rk0 = RoleRank_nonneg [of role]
  show ?thesis
  proof (cases "current_permission equalFold e (perms w d)")
    case None
    then have out: "list_all (\<lambda>p. \<not> equalFold (pm_Email p) e) (perms w d)" using current_spec [of equalFold e "perms w d"] by simp
    then have b: "best_rank equalFold e (perms w d) = 0" by (rule best_rank_none)
    have f: "filter (\<lambda>p. \<not> equalFold (pm_Email p) e) (perms w d) = perms w d" using out by (simp add: list_all_iff)
    show ?thesis
    proof (cases dryRun)
      case True
      then show ?thesis using run ne rk rk0 l p1 None b by (auto simp: EnsureDriveMembership_def Let_def e_def)
    next
      case False
      then obtain a where c: "api (PermissionsCreate d \<lparr>pm_Id = '''', pm_Type = ''user'', pm_Role = role, pm_Email = e\<rparr>) w1 = (Inr a, w')"
        and res: "RoleRank (mr_Role res) = RoleRank role" "mr_Action res = Some MembershipActionCreated"
        using run ne rk l None by (auto simp: EnsureDriveMembership_def Let_def e_def split: prod.splits sum.splits)
      obtain k where "perms w' = (perms w)(d := perms w d @ [\<lparr>pm_Id = k, pm_Type = ''user'', pm_Role = role, pm_Email = e\<rparr>])"
        using create_keeps [OF srv c] p1 by auto
      then show ?thesis using False res b rk rk0 f fold by (simp add: best_rank_append)
    qed
  next
    case (Some q)
    then have q: "q \<in> set (perms w d)" "equalFold (pm_Email q) e" "RoleRank (pm_Role q) = best_rank equalFold e (perms w d)"
      using current_spec [of equalFold e "perms w d"] by auto
    show ?thesis
    proof (cases "RoleRank (pm_Role q) \<ge> RoleRank role \<or> dryRun")
      case True
      then show ?thesis using run ne rk rk0 l p1 Some q by (auto simp: EnsureDriveMembership_def Let_def e_def split: if_splits)
    next
      case False
      then obtain a where c: "api (PermissionsUpdate d (pm_Id q) role) w1 = (Inr a, w')"
        and res: "RoleRank (mr_Role res) = RoleRank role" "mr_Action res = Some MembershipActionUpgraded"
        using run ne rk l Some by (auto simp: EnsureDriveMembership_def Let_def e_def split: prod.splits sum.splits)
      have "perms w' = (perms w)(d := map (\<lambda>p. if pm_Id p = pm_Id q then p\<lparr>pm_Role := role\<rparr> else p) (perms w d))"
        using update_keeps [OF srv c] p1 by simp
      then show ?thesis using False res q update_best_rank [of "perms w d" q equalFold e role] update_others [of "perms w d" q equalFold e role] ids
        by simp
    qed
  qed
qed

subsection \<open>Scans\<close>

lemma scan_loop_ends:
  assumes "sc_maxPages s > 0" "int n < sc_maxPages s"
  shows "\<exists>r. scan_loop env api s onFile tok n w = Some r"
  using assms
proof (induction "nat (sc_maxPages s) - n" arbitrary: n tok w)
  case (Suc k)
  have next_page: "\<exists>r. scan_loop env api s onFile t (n + 1) w3 = Some r" if "int (n + 1) < sc_maxPages s" for t w3
    using that Suc by (intro Suc.hyps(1)) auto
  show ?case using next_page
    using assms(1) by (subst scan_loop.simps) (auto split: prod.splits option.splits sum.splits simp: not_le)
qed simp

text \<open>Every call reaches the files of a page in order; what a scan visits on a server whose pages follow one another.\<close>

definition scan_page :: "('x, 'w) drive_api \<Rightarrow> scanner \<Rightarrow> string \<Rightarrow> 'w \<Rightarrow> ('x err + drive_file option list \<times> string) \<times> 'w" where
  "scan_page api s tok w = (case api (buildListCall s tok) w of (Inl e, w') \<Rightarrow> (Inl e, w') | (Inr r, w') \<Rightarrow> (Inr (files_of r), w'))"

text \<open>The world as a log of the files seen: the server and the context do not look at it.\<close>

definition log_file :: "drive_file \<Rightarrow> drive_file list \<Rightarrow> 'x err option \<times> drive_file list" where
  "log_file f w = (None, w @ [f])"

lemma scan_files_log: "scan_files log_file fs w = (None :: 'x err option, w @ List.map_filter (\<lambda>f. f) fs)"
proof (induction fs arbitrary: w)
  case (Cons a fs)
  then show ?case by (cases a) (auto simp: log_file_def List.map_filter_simps)
qed simp

fun page_chain :: "(string \<Rightarrow> drive_file option list \<times> string) \<Rightarrow> string \<Rightarrow> drive_file option list list \<Rightarrow> bool" where
  "page_chain page t [] \<longleftrightarrow> False"
| "page_chain page t (fs # rest) \<longleftrightarrow> fst (page t) = fs \<and> (if rest = [] then snd (page t) = '''' else snd (page t) \<noteq> '''' \<and> page_chain page (snd (page t)) rest)"

definition page_api :: "scanner \<Rightarrow> (string \<Rightarrow> drive_file option list \<times> string) \<Rightarrow> ('x, drive_file list) drive_api" where
  "page_api s page call w = (case call of FilesScan _ _ _ _ _ tok \<Rightarrow> (Inr (RepFiles (fst (page tok)) (snd (page tok))), w) | _ \<Rightarrow> (Inr RepNothing, w))"

definition quiet_env :: "'w env" where
  "quiet_env = \<lparr>poll_ctx = (\<lambda>w. (None, w)), time_now = (\<lambda>w. (0, w))\<rparr>"

lemma scan_loop_log:
  assumes "page_chain page t pages" "0 < sc_maxPages s" "int n < sc_maxPages s"
  shows "scan_loop quiet_env (page_api s page :: ('x, _) drive_api) s log_file t n w
    = Some (None, w @ List.map_filter (\<lambda>f. f) (concat (take (nat (sc_maxPages s) - n) pages)))"
  using assms
proof (induction pages arbitrary: t n w)
  case (Cons fs rest)
  obtain k where k: "nat (sc_maxPages s) - n = Suc k" using Cons.prems(3) by (metis diff_is_0_eq nat_less_iff neq0_conv not0_implies_Suc not_le zero_less_diff zless_nat_eq_int_zless)
  have api: "page_api s page (buildListCall s t) w = (Inr (RepFiles fs (snd (page t))) :: 'x err + drive_reply, w)" for w
    using Cons.prems(1) by (simp add: page_api_def buildListCall_def)
  have mf: "List.map_filter (\<lambda>f. f) (a @ b) = List.map_filter (\<lambda>f. f) a @ List.map_filter (\<lambda>f. f) b" for a b :: "drive_file option list"
    by (simp add: List.map_filter_def)
  show ?case
  proof (cases "rest = [] \<or> sc_maxPages s \<le> int n + 1")
    case True
    then have "k = 0 \<or> rest = []" using k by auto
    then show ?thesis using Cons.prems True k
      by (subst scan_loop.simps) (auto simp: quiet_env_def api files_of_def scan_files_log)
  next
    case False
    then have chain: "page_chain page (snd (page t)) rest" "snd (page t) \<noteq> ''''" using Cons.prems(1) by auto
    have "nat (sc_maxPages s) - Suc n = k" using k by simp
    then show ?thesis using False chain k Cons.IH [OF chain(1) Cons.prems(2), of "Suc n" "w @ List.map_filter (\<lambda>f. f) fs"]
      by (subst scan_loop.simps) (simp add: quiet_env_def api files_of_def scan_files_log mf)
  qed
qed simp

subsection \<open>Properties\<close>

text \<open>C24. Values cannot break out of a Drive query: read as the query language reads string literals, the literal that \<open>EscapeQueryValue\<close> makes
  of any text, quotes and backslashes included, is that text, and the rest of the query is untouched; so the queries of \<open>FindFolder\<close> and
  \<open>FindFolderByProperty\<close> compare with exactly the given name, parent, key and value.\<close>
theorem query_values_stay_literal:
  "read_literal (quoted v @ rest) = Some (v, rest)
   \<and> read_literal (drop 7 (drive_name_query name)) = Some (name, '''')
   \<and> (\<exists>r1 r2. read_literal (drop 7 (folder_query name parent)) = Some (name, r1)
        \<and> read_literal (drop 57 r1) = Some (parent, r2) \<and> r2 = '' in parents and trashed = false'')
   \<and> (\<exists>r1 r2. read_literal (drop 24 (property_query name parent)) = Some (name, r1)
        \<and> read_literal (drop 11 r1) = Some (parent, r2) \<and> r2 = '' } and mimeType = '' @ [squote] @ folderMime @ [squote] @ '' and trashed = false'')"
proof -
  have d: "drop 7 (''name = '' @ x) = x" for x :: string by simp
  have "read_literal (drop 7 (drive_name_query name)) = Some (name, '''')"
    using read_quoted [of name "[]"] unfolding drive_name_query_def d by simp
  moreover have "read_literal (drop 7 (folder_query name parent))
      = Some (name, '' and mimeType = '' @ [squote] @ folderMime @ [squote] @ '' and '' @ quoted parent @ '' in parents and trashed = false'')"
    unfolding folder_query_def d by (rule read_quoted)
  moreover have "drop 57 ('' and mimeType = '' @ [squote] @ folderMime @ [squote] @ '' and '' @ x) = x" for x by (simp add: folderMime_def)
  moreover have "drop 24 (property_query name parent) = quoted name @ '' and value='' @ quoted parent @ '' } and mimeType = '' @ [squote] @ folderMime @ [squote] @ '' and trashed = false''"
    by (simp add: property_query_def)
  moreover have "drop 11 ('' and value='' @ x) = x" for x :: string by simp
  ultimately show ?thesis using read_quoted by auto
qed

text \<open>C25. On a server that keeps permissions as documented, with distinct ids and a reflexive
  comparison of addresses, a successful \<open>EnsureDriveMembership\<close> leaves the member's best role at the greater
  of its old one and the requested one, never lower, touches no other member and no other drive, and reports that role; UNCHANGED is
  reported exactly when the member had the role already; a dry run changes nothing and reports the same.\<close>
theorem membership_raised_to_role:
  assumes "keeps_permissions api perms" "distinct (map pm_Id (perms w d))" "\<And>e. equalFold e e"
    and "EnsureDriveMembership toLower equalFold api d email role dryRun w = Some (Inr res, w')"
  shows "let e = toLower (trim_space email) in
    (if dryRun then perms w' = perms w
     else best_rank equalFold e (perms w' d) = max (best_rank equalFold e (perms w d)) (RoleRank role)
       \<and> filter (\<lambda>p. \<not> equalFold (pm_Email p) e) (perms w' d) = filter (\<lambda>p. \<not> equalFold (pm_Email p) e) (perms w d)
       \<and> (\<forall>o'. o' \<noteq> d \<longrightarrow> perms w' o' = perms w o'))
    \<and> RoleRank (mr_Role res) = max (best_rank equalFold e (perms w d)) (RoleRank role)
    \<and> (mr_Action res = Some MembershipActionUnchanged \<longleftrightarrow> RoleRank role \<le> best_rank equalFold e (perms w d))"
  using ensure_membership_aux [OF assms] by (simp add: Let_def)

text \<open>A server of permission lists: one page, ids of increasing length.\<close>

definition list_server :: "('x, string \<Rightarrow> permission list) drive_api" where
  "list_server call w = (case call of
      PermissionsList d a t \<Rightarrow> (Inr (RepPermissions (w d) ''''), w)
    | PermissionsUpdate d i r \<Rightarrow> (Inr RepNothing, w(d := map (\<lambda>p. if pm_Id p = i then p\<lparr>pm_Role := r\<rparr> else p) (w d)))
    | PermissionsCreate d q \<Rightarrow> (Inr RepNothing, w(d := w d @ [q\<lparr>pm_Id := concat (map pm_Id (w d)) @ ''x''\<rparr>]))
    | _ \<Rightarrow> (Inr RepNothing, w))"

lemma fresh_id: "concat (map pm_Id ps) @ ''x'' \<notin> pm_Id ` set ps"
proof
  assume "concat (map pm_Id ps) @ ''x'' \<in> pm_Id ` set ps"
  then obtain p where "p \<in> set ps" "pm_Id p = concat (map pm_Id ps) @ ''x''" by auto
  moreover have "length (pm_Id p) \<le> length (concat (map pm_Id ps))"
    using \<open>p \<in> set ps\<close> by (induction ps) auto
  ultimately show False by simp
qed

lemma list_server_keeps: "keeps_permissions list_server (\<lambda>w. w)"
proof -
  have "serves_permissions list_server d '''' w [w d] w" for d w
    by (simp add: list_server_def)
  then have "\<exists>pages w'. serves_permissions list_server d '''' w pages w' \<and> concat pages = w d \<and> w' = w" for d w
    by (metis concat.simps append_Nil2)
  moreover have "\<exists>i. i \<notin> pm_Id ` set (w d) \<and> w' = w(d := w d @ [q\<lparr>pm_Id := i\<rparr>])"
    if "list_server (PermissionsCreate d q) w = (Inr a, w')" for d q w w' and a :: drive_reply
    using that fresh_id [of "w d"] by (intro exI [of _ "concat (map pm_Id (w d)) @ ''x''"]) (auto simp: list_server_def)
  ultimately show ?thesis unfolding keeps_permissions_def by (auto simp: list_server_def)
qed

definition sample_world :: "string \<Rightarrow> permission list" where
  "sample_world d = (if d = ''D'' then [\<lparr>pm_Id = ''1'', pm_Type = ''user'', pm_Role = ''reader'', pm_Email = ''a@b''\<rparr>] else [])"

lemma sample_membership: "EnsureDriveMembership (\<lambda>s. s) (=) list_server ''D'' ''a@b'' ''writer'' False sample_world
   = Some (Inr \<lparr>mr_DriveID = ''D'', mr_Member = ''a@b'', mr_Role = ''writer'', mr_PreviousRole = ''reader'', mr_Action = Some MembershipActionUpgraded, mr_DryRun = False\<rparr>,
       sample_world(''D'' := [\<lparr>pm_Id = ''1'', pm_Type = ''user'', pm_Role = ''writer'', pm_Email = ''a@b''\<rparr>]))"
proof -
  have "trim_space ''a@b'' = ''a@b''" by code_simp
  then show ?thesis
    by (simp add: EnsureDriveMembership_def ListDriveMembers_def list_pages.simps permissions_page_def list_server_def current_permission_def better_permission_def
        RoleRank_def RoleReader_def RoleWriter_def RoleCommenter_def sample_world_def Let_def)
qed

theorem membership_raised_to_role_witness: "best_rank (=) ''a@b'' ((sample_world(''D'' := [\<lparr>pm_Id = ''1'', pm_Type = ''user'', pm_Role = ''writer'', pm_Email = ''a@b''\<rparr>])) ''D'') = 30"
proof -
  have "trim_space ''a@b'' = ''a@b''" by code_simp
  moreover have "distinct (map pm_Id (sample_world ''D''))" by (simp add: sample_world_def)
  moreover have "RoleRank ''writer'' = 30" "best_rank (=) ''a@b'' (sample_world ''D'') = 10"
    by (simp_all add: RoleRank_def RoleReader_def RoleWriter_def RoleCommenter_def sample_world_def)
  ultimately show ?thesis using membership_raised_to_role [OF list_server_keeps _ _ sample_membership] by (simp add: Let_def)
qed

text \<open>C26. With a positive page limit (the default is 10000) \<open>Scan\<close> returns whatever the server, the context and the callback do, also when the
  server never stops naming a next page. When neither fails, it passes exactly the files of the first pages up to the limit to the callback, each once, in
  the server's order, and reports success, also when the limit cut the listing short.\<close>
theorem scan_ends_and_visits_pages:
  assumes "0 < sc_maxPages s"
  shows "(\<exists>r. Scan env srv s onFile w = Some r)
   \<and> (page_chain page '''' pages \<longrightarrow>
        Scan quiet_env (Some (page_api s page :: ('x, _) drive_api)) s log_file v
          = Some (None, v @ List.map_filter (\<lambda>f. f) (concat (take (nat (sc_maxPages s)) pages))))"
proof (rule conjI)
  show "\<exists>r. Scan env srv s onFile w = Some r"
    using scan_loop_ends [of s 0] assms by (cases srv) (simp_all add: Scan_def)
  show "page_chain page '''' pages \<longrightarrow> Scan quiet_env (Some (page_api s page :: ('x, _) drive_api)) s log_file v
          = Some (None, v @ List.map_filter (\<lambda>f. f) (concat (take (nat (sc_maxPages s)) pages)))"
    using assms by (simp add: Scan_def scan_loop_log)
qed

definition sample_file :: "string \<Rightarrow> drive_file" where
  "sample_file i = \<lparr>df_ID = i, df_Name = '''', df_MimeType = '''', df_DriveID = '''', df_Parents = []\<rparr>"

theorem scan_ends_and_visits_pages_witness:
  "Scan quiet_env (Some (page_api (NewScanner [WithMaxPages 2]) (\<lambda>t. if t = '''' then ([Some (sample_file ''1''), None], ''p'') else if t = ''p'' then ([Some (sample_file ''2'')], ''q'') else ([Some (sample_file ''1'')], ''''))))
     (NewScanner [WithMaxPages 2]) log_file [] = Some (None :: 'x err option, [sample_file ''1'', sample_file ''2''])"
proof -
  let ?s = "NewScanner [WithMaxPages 2]"
  let ?page = "\<lambda>t. if t = '''' then ([Some (sample_file ''1''), None], ''p'') else if t = ''p'' then ([Some (sample_file ''2'')], ''q'') else ([Some (sample_file ''1'')], '''')"
  have p: "0 < sc_maxPages ?s" and c: "page_chain ?page '''' [[Some (sample_file ''1''), None], [Some (sample_file ''2'')], [Some (sample_file ''1'')]]" by (simp_all add: NewScanner_def)
  have "Scan quiet_env (Some (page_api ?s ?page)) ?s log_file []
      = Some (None :: 'x err option, [] @ List.map_filter (\<lambda>f. f) (concat (take (nat (sc_maxPages ?s)) [[Some (sample_file ''1''), None], [Some (sample_file ''2'')], [Some (sample_file ''1'')]])))"
    by (rule mp [OF conjunct2 [OF scan_ends_and_visits_pages [OF p]] c])
  then show ?thesis by (simp add: NewScanner_def List.map_filter_simps)
qed

end
