(* ===== verification/Gcpenv.thy ===== *)
theory Gcpenv
  imports Go_Errors
begin

section \<open>platform/gcpenv: the project of the process\<close>

text \<open>
  \<open>src/go/platform/gcpenv/gcpenv.go\<close>. The environment is a function from names to values (an unset variable reads as the empty
  string); the HTTP client is a function from the URL and the world to an error or a response. A body is the bytes that arrive and
  whether reading then fails. The mutex makes every lookup one step on the cached value.
\<close>

definition envKeys :: "string list" where
  "envKeys = [''GCP_PROJECT_ID'', ''GOOGLE_CLOUD_PROJECT'', ''GCP_PROJECT'', ''PROJECT_ID'']"

definition defaultMetadataURL :: string where
  "defaultMetadataURL = ''http://metadata.google.internal/computeMetadata/v1/project/project-id''"

definition maxMetadataBodyBytes :: nat where "maxMetadataBodyBytes = 1024"

record http_body =
  hb_bytes :: string
  hb_fails :: bool

record metadata_response =
  mr_StatusCode :: int
  mr_Body :: http_body

text \<open>\<open>io.ReadAll (io.LimitReader body n)\<close>: a failure behind the limit is never met.\<close>

definition read_limited :: "nat \<Rightarrow> http_body \<Rightarrow> string option" where
  "read_limited n b = (if n \<le> length (hb_bytes b) then Some (take n (hb_bytes b)) else if hb_fails b then None else Some (hb_bytes b))"

record resolver =
  rs_MetadataURL :: string
  rs_cached :: string

type_synonym ('x, 'w) metadata_client = "string \<Rightarrow> 'w \<Rightarrow> ('x err + metadata_response) \<times> 'w"

fun first_set :: "(string \<Rightarrow> string) \<Rightarrow> string list \<Rightarrow> string" where
  "first_set getenv [] = ''''"
| "first_set getenv (key # keys) = (if getenv key \<noteq> '''' then getenv key else first_set getenv keys)"

definition FromEnv :: "(string \<Rightarrow> string) \<Rightarrow> string" where
  "FromEnv getenv = first_set getenv envKeys"

definition MetadataDisabled :: "(string \<Rightarrow> string \<Rightarrow> bool) \<Rightarrow> (string \<Rightarrow> string) \<Rightarrow> bool" where
  "MetadataDisabled equalFold getenv = equalFold (getenv ''GCP_METADATA_DISABLED'') ''true''"

text \<open>\<open>valid\<close> tells whether a request can be built for the URL.\<close>

definition queryMetadata :: "(string \<Rightarrow> bool) \<Rightarrow> ('x, 'w) metadata_client \<Rightarrow> resolver \<Rightarrow> 'w \<Rightarrow> string \<times> 'w" where
  "queryMetadata valid client r w =
     (let url = (if rs_MetadataURL r = '''' then defaultMetadataURL else rs_MetadataURL r) in
      if \<not> valid url then ('''', w)
      else (case client url w of
        (Inl e, w') \<Rightarrow> ('''', w')
      | (Inr resp, w') \<Rightarrow>
          if mr_StatusCode resp \<noteq> 200 then ('''', w')
          else (case read_limited maxMetadataBodyBytes (mr_Body resp) of None \<Rightarrow> ('''', w') | Some body \<Rightarrow> (trim_space body, w'))))"

definition ProjectID :: "(string \<Rightarrow> string \<Rightarrow> bool) \<Rightarrow> (string \<Rightarrow> string) \<Rightarrow> (string \<Rightarrow> bool) \<Rightarrow> ('x, 'w) metadata_client \<Rightarrow> resolver \<Rightarrow> 'w
    \<Rightarrow> string \<times> resolver \<times> 'w" where
  "ProjectID equalFold getenv valid client r w =
     (if FromEnv getenv \<noteq> '''' then (FromEnv getenv, r, w)
      else if MetadataDisabled equalFold getenv then ('''', r, w)
      else if rs_cached r \<noteq> '''' then (rs_cached r, r, w)
      else (case queryMetadata valid client r w of (p, w') \<Rightarrow> (p, r\<lparr>rs_cached := p\<rparr>, w')))"

subsection \<open>Lookups in a row\<close>

text \<open>A run of lookups, each in an environment of its own; the results in order.\<close>

fun lookups :: "(string \<Rightarrow> string \<Rightarrow> bool) \<Rightarrow> (string \<Rightarrow> bool) \<Rightarrow> ('x, 'w) metadata_client \<Rightarrow> (string \<Rightarrow> string) list \<Rightarrow> resolver \<Rightarrow> 'w
    \<Rightarrow> string list \<times> resolver \<times> 'w" where
  "lookups equalFold valid client [] r w = ([], r, w)"
| "lookups equalFold valid client (env # envs) r w =
     (case ProjectID equalFold env valid client r w of
        (p, r1, w1) \<Rightarrow> (case lookups equalFold valid client envs r1 w1 of (ps, r2, w2) \<Rightarrow> (p # ps, r2, w2)))"

lemma first_set_eq: "first_set getenv keys = (case List.find (\<lambda>k. getenv k \<noteq> '''') keys of None \<Rightarrow> '''' | Some k \<Rightarrow> getenv k)"
  by (induction keys) auto

lemma ProjectID_keeps_url: "rs_MetadataURL (fst (snd (ProjectID f g v c r w))) = rs_MetadataURL r"
  by (auto simp: ProjectID_def split: prod.splits)

lemma ProjectID_cached:
  "rs_cached r \<noteq> '''' \<Longrightarrow> snd (ProjectID f g v c r w) = (r, w)"
  by (simp add: ProjectID_def)

lemma lookups_cached:
  "rs_cached r \<noteq> '''' \<Longrightarrow> lookups f v c envs r w
     = (map (\<lambda>g. if FromEnv g \<noteq> '''' then FromEnv g else if MetadataDisabled f g then '''' else rs_cached r) envs, r, w)"
  by (induction envs) (auto simp: ProjectID_def)

lemma first_lookup_fills_cache:
  "ProjectID f g v c r w = (p, r', w') \<Longrightarrow> FromEnv g = '''' \<Longrightarrow> \<not> MetadataDisabled f g \<Longrightarrow> p \<noteq> '''' \<Longrightarrow> rs_cached r' = p"
  by (auto simp: ProjectID_def split: if_splits prod.splits)

end
