(* ===== verification/Slog_Attrs.thy ===== *)
theory Slog_Attrs
  imports Gcpenv
begin

section \<open>slog-gcp: fields, traces and requests\<close>

text \<open>
  \<open>src/go/slog-gcp/{constants,gcp,trace,httprequest,errorreporting,stacktrace,project}.go\<close>. An attribute is a key and a value as
  \<open>log/slog\<close> has them; the built-in handler writes the leaves of a group under the path of its keys. A value of any other type is
  given by its text.
\<close>

definition FieldTrace :: string where "FieldTrace = ''logging.googleapis.com/trace''"
definition FieldSpanID :: string where "FieldSpanID = ''logging.googleapis.com/spanId''"
definition FieldTraceSampled :: string where "FieldTraceSampled = ''logging.googleapis.com/trace_sampled''"
definition FieldSourceLocation :: string where "FieldSourceLocation = ''logging.googleapis.com/sourceLocation''"
definition FieldInsertID :: string where "FieldInsertID = ''logging.googleapis.com/insertId''"

text \<open>The levels of \<open>log/slog\<close> and those between and above them.\<close>

definition LevelDebug :: int where "LevelDebug = - 4"
definition LevelInfo :: int where "LevelInfo = 0"
definition LevelWarn :: int where "LevelWarn = 4"
definition LevelError :: int where "LevelError = 8"
definition LevelNotice :: int where "LevelNotice = LevelInfo + 2"
definition LevelCritical :: int where "LevelCritical = LevelError + 4"
definition LevelAlert :: int where "LevelAlert = LevelError + 8"
definition LevelEmergency :: int where "LevelEmergency = LevelError + 12"

definition ErrorReportingType :: string where
  "ErrorReportingType = ''type.googleapis.com/google.devtools.clouderrorreporting.v1beta1.ReportedErrorEvent''"

datatype attr = Attr string attr_value
  and attr_value = StringValue string | IntValue int | BoolValue bool | LevelValue int
    | SourceValue "(string \<times> int \<times> string) option" | GroupValue "attr list" | AnyValue string

text \<open>A field of an entry: the groups it is in, its key and its value.\<close>

type_synonym field = "string list \<times> string \<times> attr_value"

subsection \<open>gcp.go\<close>

definition gcpSeverity :: "int \<Rightarrow> string" where
  "gcpSeverity level =
     (if level < LevelInfo then ''DEBUG'' else if level < LevelNotice then ''INFO'' else if level < LevelWarn then ''NOTICE''
      else if level < LevelError then ''WARNING'' else if level < LevelCritical then ''ERROR'' else if level < LevelAlert then ''CRITICAL''
      else if level < LevelEmergency then ''ALERT'' else ''EMERGENCY'')"

text \<open>The parameter for the open groups is ignored, as in the code.\<close>

definition GCPReplaceAttr :: "string list \<Rightarrow> attr \<Rightarrow> attr" where
  "GCPReplaceAttr groups a =
     (case a of Attr k v \<Rightarrow>
        if k = ''msg'' then Attr ''message'' v
        else if k = ''time'' then Attr ''timestamp'' v
        else if k = ''source'' then
          Attr FieldSourceLocation
            (case v of SourceValue (Some (file, line, func)) \<Rightarrow>
                GroupValue [Attr ''file'' (StringValue file), Attr ''line'' (IntValue line), Attr ''function'' (StringValue func)]
             | _ \<Rightarrow> v)
        else if k = ''level'' then Attr ''severity'' (case v of LevelValue l \<Rightarrow> StringValue (gcpSeverity l) | _ \<Rightarrow> v)
        else a)"

subsection \<open>trace.go\<close>

definition maxTraceIDLen :: nat where "maxTraceIDLen = 32"
definition maxSpanIDLen :: nat where "maxSpanIDLen = 16"

record trace_context =
  tc_TraceID :: string
  tc_SpanID :: string
  tc_Sampled :: bool

definition no_trace :: trace_context where
  "no_trace = \<lparr>tc_TraceID = '''', tc_SpanID = '''', tc_Sampled = False\<rparr>"

definition tc_IsEmpty :: "trace_context \<Rightarrow> bool" where
  "tc_IsEmpty tc = (tc_TraceID tc = '''')"

text \<open>The verb \<open>%016x\<close>.\<close>

fun show_hex :: "nat \<Rightarrow> string" where
  "show_hex n = (if n < 16 then [hex_char n] else show_hex (n div 16) @ [hex_char (n mod 16)])"

declare show_hex.simps [simp del]

definition pad_hex16 :: "nat \<Rightarrow> string" where
  "pad_hex16 n = replicate (16 - length (show_hex n)) (CHR ''0'') @ show_hex n"

definition decimalToHexSpan :: "string \<Rightarrow> string" where
  "decimalToHexSpan decimal = (case parse_uint64 decimal of None \<Rightarrow> decimal | Some n \<Rightarrow> pad_hex16 n)"

definition parseCloudTraceHeader :: "string \<Rightarrow> trace_context" where
  "parseCloudTraceHeader header =
     (case str_cut (CHR '';'') header of (traceSpan, params, found) \<Rightarrow>
      (case str_cut (CHR ''/'') traceSpan of (traceID, spanDec, found2) \<Rightarrow>
        \<lparr>tc_TraceID = take maxTraceIDLen traceID,
         tc_SpanID = (if found2 then take maxSpanIDLen (decimalToHexSpan spanDec) else ''''),
         tc_Sampled = (found \<and> str_contains params ''o=1'')\<rparr>))"

definition parseTraceparentHeader :: "string \<Rightarrow> trace_context" where
  "parseTraceparentHeader header =
     (case str_cut (CHR ''-'') header of (ver, rest, found) \<Rightarrow>
      if \<not> found then no_trace
      else (case str_cut (CHR ''-'') rest of (traceID, rest2, found2) \<Rightarrow>
      if \<not> found2 then no_trace
      else (case str_cut (CHR ''-'') rest2 of (spanID, flags, found3) \<Rightarrow>
      if \<not> found3 then no_trace
      else \<lparr>tc_TraceID = take maxTraceIDLen traceID, tc_SpanID = take maxSpanIDLen spanID, tc_Sampled = (flags = ''01'')\<rparr>)))"

subsection \<open>httprequest.go\<close>

record http_request =
  hq_Method :: string
  hq_URL :: string
  hq_Status :: int
  hq_Latency :: int
  hq_RemoteIP :: string
  hq_UserAgent :: string
  hq_RequestSize :: int
  hq_ResponseSize :: int

text \<open>\<open>seconds\<close> prints a duration with \<open>%f\<close>; the empty attribute of a nil request has no key and no value, and is not written.\<close>

definition HTTPRequestAttr :: "(int \<Rightarrow> string) \<Rightarrow> http_request option \<Rightarrow> attr option" where
  "HTTPRequestAttr seconds req =
     (case req of None \<Rightarrow> None
      | Some q \<Rightarrow> Some (Attr ''httpRequest'' (GroupValue (
          [Attr ''requestMethod'' (StringValue (hq_Method q)), Attr ''requestUrl'' (StringValue (hq_URL q)), Attr ''status'' (IntValue (hq_Status q)),
           Attr ''latency'' (StringValue (seconds (hq_Latency q) @ ''s''))]
          @ (if hq_RemoteIP q \<noteq> '''' then [Attr ''remoteIp'' (StringValue (hq_RemoteIP q))] else [])
          @ (if hq_UserAgent q \<noteq> '''' then [Attr ''userAgent'' (StringValue (hq_UserAgent q))] else [])
          @ (if hq_RequestSize q > 0 then [Attr ''requestSize'' (IntValue (hq_RequestSize q))] else [])
          @ (if hq_ResponseSize q > 0 then [Attr ''responseSize'' (IntValue (hq_ResponseSize q))] else [])))))"

text \<open>The recorder keeps what it passes to the writer below. The writer of \<open>net/http\<close> sends the first status it gets and ignores later
  ones; a write before any status sends 200 (informational statuses are left out).\<close>

record response_writer =
  wr_Sent :: "int option"
  wr_Bytes :: int

definition writer_WriteHeader :: "int \<Rightarrow> response_writer \<Rightarrow> response_writer" where
  "writer_WriteHeader status rw = (if wr_Sent rw = None then rw\<lparr>wr_Sent := Some status\<rparr> else rw)"

definition writer_Write :: "int \<Rightarrow> response_writer \<Rightarrow> response_writer" where
  "writer_Write n rw = (writer_WriteHeader 200 rw)\<lparr>wr_Bytes := wr_Bytes rw + n\<rparr>"

record response_recorder =
  rc_Writer :: response_writer
  rc_Status :: int
  rc_Size :: int

definition rec_WriteHeader :: "int \<Rightarrow> response_recorder \<Rightarrow> response_recorder" where
  "rec_WriteHeader status r = r\<lparr>rc_Status := status, rc_Writer := writer_WriteHeader status (rc_Writer r)\<rparr>"

text \<open>\<open>n\<close> is what the writer below reports as written.\<close>

definition rec_Write :: "int \<Rightarrow> response_recorder \<Rightarrow> response_recorder" where
  "rec_Write n r =
     (let r1 = (if rc_Status r = 0 then rec_WriteHeader 200 r else r)
      in r1\<lparr>rc_Writer := writer_Write n (rc_Writer r1), rc_Size := rc_Size r1 + n\<rparr>)"

text \<open>What a handler does to its writer, in order.\<close>

datatype http_action = DoWriteHeader int | DoWrite int

fun act :: "http_action \<Rightarrow> response_recorder \<Rightarrow> response_recorder" where
  "act (DoWriteHeader s) r = rec_WriteHeader s r"
| "act (DoWrite n) r = rec_Write n r"

text \<open>What the middleware reads from a request.\<close>

record incoming =
  in_Method :: string
  in_URL :: "string option"
  in_UserAgent :: string
  in_RemoteAddr :: string
  in_ContentLength :: int

text \<open>The request that is logged: \<open>serve\<close> is the wrapped handler (the actions it performs), \<open>start\<close> and \<open>stop\<close> the clock's readings. After the
  handler the server sends 200 when nothing was sent.\<close>

definition RequestLoggerMiddleware :: "(incoming \<Rightarrow> http_action list) \<Rightarrow> incoming \<Rightarrow> response_writer \<Rightarrow> int \<Rightarrow> int \<Rightarrow> http_request \<times> response_writer" where
  "RequestLoggerMiddleware serve r rw start stop =
     (let rec = fold act (serve r) \<lparr>rc_Writer = rw, rc_Status = 200, rc_Size = 0\<rparr>
      in (\<lparr>hq_Method = in_Method r, hq_URL = (case in_URL r of None \<Rightarrow> '''' | Some u \<Rightarrow> u), hq_Status = rc_Status rec, hq_Latency = time_sub stop start,
           hq_RemoteIP = in_RemoteAddr r, hq_UserAgent = in_UserAgent r, hq_RequestSize = in_ContentLength r, hq_ResponseSize = rc_Size rec\<rparr>,
          rc_Writer rec))"

subsection \<open>errorreporting.go and stacktrace.go\<close>

record service_context =
  sc_Service :: string
  sc_Version :: string

definition ServiceContextFromEnv :: "(string \<Rightarrow> string) \<Rightarrow> service_context" where
  "ServiceContextFromEnv getenv =
     (let svc = getenv ''K_SERVICE''; svc1 = (if svc = '''' then getenv ''CLOUD_RUN_JOB'' else svc); svc2 = (if svc1 = '''' then getenv ''SERVICE_NAME'' else svc1);
          ver = getenv ''K_REVISION''; ver1 = (if ver = '''' then getenv ''CLOUD_RUN_EXECUTION'' else ver); ver2 = (if ver1 = '''' then getenv ''HOSTNAME'' else ver1)
      in \<lparr>sc_Service = svc2, sc_Version = ver2\<rparr>)"

text \<open>The frames of the callers, as the runtime lists them: function, file and line.\<close>

fun frames_text :: "(string \<times> string \<times> int) list \<Rightarrow> string" where
  "frames_text [] = ''''"
| "frames_text ((func, file, line) # rest) =
     (if func = '''' then ''''
      else func @ ''()'' @ [CHR 0x0A, CHR 0x09] @ file @ '':'' @ show_int line @ [CHR 0x0A] @ frames_text rest)"

definition maxFrames :: nat where "maxFrames = 128"

definition stackTrace :: "(string \<times> string \<times> int) list \<Rightarrow> nat \<Rightarrow> string" where
  "stackTrace callers skip = frames_text (take maxFrames (drop skip callers))"

definition ErrorAttrsWithSkip :: "(string \<times> string \<times> int) list \<Rightarrow> string option \<Rightarrow> service_context \<Rightarrow> nat \<Rightarrow> attr list" where
  "ErrorAttrsWithSkip callers err sc skip =
     [Attr ''@type'' (StringValue ErrorReportingType),
      Attr ''serviceContext'' (GroupValue [Attr ''service'' (StringValue (sc_Service sc)), Attr ''version'' (StringValue (sc_Version sc))]),
      Attr ''stack_trace'' (StringValue (stackTrace callers skip))]
     @ (case err of None \<Rightarrow> [] | Some t \<Rightarrow> [Attr ''error'' (StringValue t)])"

definition ErrorAttrs :: "(string \<times> string \<times> int) list \<Rightarrow> string option \<Rightarrow> service_context \<Rightarrow> attr list" where
  "ErrorAttrs callers err sc = ErrorAttrsWithSkip callers err sc 3"

text \<open>The arguments of the alternating API: keys and values as they come, or whole attributes.\<close>

datatype log_arg = ArgKey string | ArgText string | ArgAttr attr

definition ErrorAttrsAnyWithSkip :: "(string \<times> string \<times> int) list \<Rightarrow> string option \<Rightarrow> service_context \<Rightarrow> nat \<Rightarrow> log_arg list" where
  "ErrorAttrsAnyWithSkip callers err sc skip =
     [ArgKey ''@type'', ArgText ErrorReportingType,
      ArgAttr (Attr ''serviceContext'' (GroupValue [Attr ''service'' (StringValue (sc_Service sc)), Attr ''version'' (StringValue (sc_Version sc))])),
      ArgKey ''stack_trace'', ArgText (stackTrace callers skip)]
     @ (case err of None \<Rightarrow> [] | Some t \<Rightarrow> [ArgKey ''error'', ArgText t])"

definition ErrorAttrsAny :: "(string \<times> string \<times> int) list \<Rightarrow> string option \<Rightarrow> service_context \<Rightarrow> log_arg list" where
  "ErrorAttrsAny callers err sc = ErrorAttrsAnyWithSkip callers err sc 3"

text \<open>How \<open>log/slog\<close> reads them.\<close>

fun args_attrs :: "log_arg list \<Rightarrow> attr list" where
  "args_attrs (ArgKey k # ArgText t # rest) = Attr k (StringValue t) # args_attrs rest"
| "args_attrs (ArgAttr a # rest) = a # args_attrs rest"
| "args_attrs _ = []"

lemma error_attrs_agree: "args_attrs (ErrorAttrsAnyWithSkip callers err sc skip) = ErrorAttrsWithSkip callers err sc skip"
  by (simp add: ErrorAttrsAnyWithSkip_def ErrorAttrsWithSkip_def split: option.splits)

subsection \<open>project.go\<close>

definition detectProjectID :: "(string \<Rightarrow> string \<Rightarrow> bool) \<Rightarrow> (string \<Rightarrow> string) \<Rightarrow> (string \<Rightarrow> bool) \<Rightarrow> ('x, 'w) metadata_client \<Rightarrow> resolver \<Rightarrow> 'w
    \<Rightarrow> string \<times> resolver \<times> 'w" where
  "detectProjectID equalFold getenv valid client r w =
     (case ProjectID equalFold getenv valid client r w of
        (p, r', w') \<Rightarrow> (if p \<noteq> '''' then p else ''unknown-project'', r', w'))"

subsection \<open>Headers and spans\<close>

definition hex_val :: "char \<Rightarrow> nat" where
  "hex_val c = (let n = (of_char c :: nat) in if n < 58 then n - 48 else n - 87)"

lemma hex_val_char: "d < 16 \<Longrightarrow> hex_val (hex_char d) = d"
  by (simp add: hex_val_def hex_char_def)

lemma foldl_show_hex: "foldl (\<lambda>n c. 16 * n + hex_val c) 0 (show_hex n) = n"
proof (induction n rule: show_hex.induct)
  case (1 n)
  then show ?case by (cases "n < 16") (auto simp: show_hex.simps [of n] hex_val_char)
qed

lemma show_hex_length: "n < 16 ^ Suc k \<Longrightarrow> length (show_hex n) \<le> Suc k"
proof (induction k arbitrary: n)
  case (Suc k)
  have "n div 16 < 16 ^ Suc k" using Suc.prems by (auto simp: less_mult_imp_div_less)
  then show ?case using Suc.IH by (subst show_hex.simps) simp
qed (simp add: show_hex.simps)

lemma pad_hex16_length: "n < 2 ^ 64 \<Longrightarrow> length (pad_hex16 n) = 16"
  using show_hex_length [of n 15] by (simp add: pad_hex16_def)

lemma foldl_zeros: "foldl (\<lambda>n c. 16 * n + hex_val c) 0 (replicate k (CHR ''0'')) = 0"
  by (induction k) (simp_all add: hex_val_def)

lemma pad_hex16_value: "foldl (\<lambda>n c. 16 * n + hex_val c) 0 (pad_hex16 n) = n"
  by (simp add: pad_hex16_def foldl_zeros foldl_show_hex)

lemma str_cut_at: "c \<notin> set xs \<Longrightarrow> str_cut c (xs @ c # ys) = (xs, ys, True)"
  by (induction xs) auto

lemma str_cut_none: "c \<notin> set xs \<Longrightarrow> str_cut c xs = (xs, [], False)"
  by (induction xs) auto

lemma show_nat_no: "\<not> is_digit c \<Longrightarrow> c \<notin> set (show_nat n)"
  using show_nat_digits [of n] by (auto simp: list_all_iff)

text \<open>The headers that Google and the W3C document.\<close>

definition cloud_header :: "string \<Rightarrow> nat \<Rightarrow> bool \<Rightarrow> string" where
  "cloud_header tid sp sampled = tid @ ''/'' @ show_nat sp @ '';o='' @ (if sampled then ''1'' else ''0'')"

definition w3c_header :: "string \<Rightarrow> string \<Rightarrow> nat \<Rightarrow> string" where
  "w3c_header tid sp flags = ''00-'' @ tid @ ''-'' @ sp @ ''-'' @ [hex_char (flags div 16), hex_char (flags mod 16)]"

lemma cloud_header_parsed:
  assumes "length tid \<le> 32" "CHR ''/'' \<notin> set tid" "CHR '';'' \<notin> set tid" "sp < 2 ^ 64"
  shows "parseCloudTraceHeader (cloud_header tid sp b) = \<lparr>tc_TraceID = tid, tc_SpanID = pad_hex16 sp, tc_Sampled = b\<rparr>"
proof -
  have "\<not> is_digit (CHR '';'')" by (simp add: is_digit_def)
  then have "str_cut (CHR '';'') (cloud_header tid sp b) = (tid @ ''/'' @ show_nat sp, ''o='' @ (if b then ''1'' else ''0''), True)"
    using str_cut_at [of "CHR '';''" "tid @ ''/'' @ show_nat sp"] assms show_nat_no [of "CHR '';''" sp] by (simp add: cloud_header_def)
  moreover have "str_cut (CHR ''/'') (tid @ ''/'' @ show_nat sp) = (tid, show_nat sp, True)"
    using str_cut_at [of "CHR ''/''" tid] assms by simp
  moreover have "str_contains (''o='' @ (if b then ''1'' else ''0'')) ''o=1'' = b"
    by (simp add: str_contains_def sublist_Cons_right)
  ultimately show ?thesis using assms
    by (simp add: parseCloudTraceHeader_def maxTraceIDLen_def maxSpanIDLen_def decimalToHexSpan_def parse_uint64_show_nat pad_hex16_length)
qed

lemma hex_digits_eq: "a < 16 \<Longrightarrow> b < 16 \<Longrightarrow> [hex_char a, hex_char b] = ''01'' \<longleftrightarrow> a = 0 \<and> b = 1"
proof -
  assume ab: "a < 16" "b < 16"
  have v: "hex_val (CHR ''0'') = 0" "hex_val (CHR ''1'') = 1" by code_simp+
  have c: "hex_char 0 = CHR ''0''" "hex_char 1 = CHR ''1''" by code_simp+
  have "hex_char a = CHR ''0'' \<longleftrightarrow> a = 0" using hex_val_char [OF ab(1)] v c by metis
  moreover have "hex_char b = CHR ''1'' \<longleftrightarrow> b = 1" using hex_val_char [OF ab(2)] v c by metis
  ultimately show ?thesis by simp
qed

lemma w3c_header_parsed:
  assumes "length tid = 32" "CHR ''-'' \<notin> set tid" "length sp = 16" "CHR ''-'' \<notin> set sp" "flags < 256"
  shows "parseTraceparentHeader (w3c_header tid sp flags) = \<lparr>tc_TraceID = tid, tc_SpanID = sp, tc_Sampled = (flags = 1)\<rparr>"
proof -
  let ?f = "[hex_char (flags div 16), hex_char (flags mod 16)]"
  have "str_cut (CHR ''-'') (w3c_header tid sp flags) = (''00'', tid @ ''-'' @ sp @ ''-'' @ ?f, True)"
    by (simp add: w3c_header_def)
  moreover have "str_cut (CHR ''-'') (tid @ ''-'' @ sp @ ''-'' @ ?f) = (tid, sp @ ''-'' @ ?f, True)"
    using str_cut_at [of "CHR ''-''" tid] assms by simp
  moreover have "str_cut (CHR ''-'') (sp @ ''-'' @ ?f) = (sp, ?f, True)"
    using str_cut_at [of "CHR ''-''" sp] assms by simp
  moreover have "?f = ''01'' \<longleftrightarrow> flags = 1"
    using hex_digits_eq [of "flags div 16" "flags mod 16"] assms by auto
  ultimately show ?thesis using assms by (simp add: parseTraceparentHeader_def maxTraceIDLen_def maxSpanIDLen_def)
qed

subsection \<open>Statuses\<close>

fun statuses :: "http_action list \<Rightarrow> int list" where
  "statuses [] = []"
| "statuses (DoWriteHeader s # as) = s # statuses as"
| "statuses (DoWrite n # as) = statuses as"

text \<open>The status that reaches the client.\<close>

fun first_status :: "http_action list \<Rightarrow> int option" where
  "first_status [] = None"
| "first_status (DoWriteHeader s # as) = Some s"
| "first_status (DoWrite n # as) = Some 200"

fun written :: "http_action list \<Rightarrow> int" where
  "written [] = 0"
| "written (DoWriteHeader s # as) = written as"
| "written (DoWrite n # as) = n + written as"

lemma act_sent: "wr_Sent (rc_Writer (fold act as r)) = (case wr_Sent (rc_Writer r) of None \<Rightarrow> first_status as | Some s \<Rightarrow> Some s)"
proof (induction as arbitrary: r)
  case (Cons a as)
  then show ?case
    by (cases a) (auto simp: rec_WriteHeader_def rec_Write_def writer_WriteHeader_def writer_Write_def Let_def split: option.splits)
qed (simp split: option.splits)

lemma act_status: "0 \<notin> set (statuses as) \<Longrightarrow> rc_Status r \<noteq> 0 \<Longrightarrow> rc_Status (fold act as r) = last (rc_Status r # statuses as)"
proof (induction as arbitrary: r)
  case (Cons a as)
  then show ?case
    by (cases a) (auto simp: rec_WriteHeader_def rec_Write_def Let_def)
qed simp

lemma act_size: "rc_Size (fold act as r) = rc_Size r + written as"
proof (induction as arbitrary: r)
  case (Cons a as)
  then show ?case by (cases a) (auto simp: rec_WriteHeader_def rec_Write_def Let_def)
qed simp

lemma last_status_at: "statuses as \<noteq> [] \<Longrightarrow> \<exists>a b. as = a @ DoWriteHeader (last (statuses as)) # b"
proof (induction as)
  case (Cons x as)
  show ?case
  proof (cases "statuses as = []")
    case True
    then obtain s where "x = DoWriteHeader s" using Cons.prems by (cases x) auto
    then show ?thesis using True by (intro exI [of _ "[]"] exI [of _ "as"]) simp
  next
    case False
    then obtain a b where "as = a @ DoWriteHeader (last (statuses as)) # b" using Cons.IH by blast
    then have "x # as = (x # a) @ DoWriteHeader (last (statuses (x # as))) # b" using False by (cases x) auto
    then show ?thesis by blast
  qed
qed simp

text \<open>The status of the reply: the server adds 200 to a reply without one.\<close>

definition client_status :: "response_writer \<Rightarrow> int" where
  "client_status rw = (case wr_Sent rw of None \<Rightarrow> 200 | Some s \<Rightarrow> s)"

subsection \<open>Properties\<close>

text \<open>The trace of a request is read from both header formats: a header as Google documents it, for any trace id of at most 32 characters and any
  64-bit span, gives back the trace id, the sampling flag and the span as 16 hexadecimal digits of its value; a W3C header gives back its two ids, but the
  flag only when it is exactly 01: a sampled trace with any other flag set as well (03, the random trace ids of level 2) counts as not sampled.\<close>
theorem trace_headers_parse:
  assumes "length tid = 32" "CHR ''/'' \<notin> set tid" "CHR '';'' \<notin> set tid" "CHR ''-'' \<notin> set tid" "length sid = 16" "CHR ''-'' \<notin> set sid"
    and "sp < 2 ^ 64" "flags < 256"
  shows "(let tc = parseCloudTraceHeader (cloud_header tid sp sampled) in
      tc_TraceID tc = tid \<and> tc_Sampled tc = sampled \<and> length (tc_SpanID tc) = 16 \<and> foldl (\<lambda>n c. 16 * n + hex_val c) 0 (tc_SpanID tc) = sp)
    \<and> parseTraceparentHeader (w3c_header tid sid flags) = \<lparr>tc_TraceID = tid, tc_SpanID = sid, tc_Sampled = (flags = 1)\<rparr>"
  using assms by (simp add: cloud_header_parsed w3c_header_parsed pad_hex16_length pad_hex16_value)

theorem trace_headers_parse_witness:
  "parseTraceparentHeader (w3c_header (replicate 32 (CHR ''a'')) (replicate 16 (CHR ''b'')) 3)
     = \<lparr>tc_TraceID = replicate 32 (CHR ''a''), tc_SpanID = replicate 16 (CHR ''b''), tc_Sampled = False\<rparr>"
  using trace_headers_parse [of "replicate 32 (CHR ''a'')" "replicate 16 (CHR ''b'')" 7 3 True] by (simp add: Let_def)

text \<open>The request logger reports the bytes written and the last status that the handler set, or 200; the client sees the first one, or 200. They
  agree for handlers that set the status at most once and before any body; a handler that fails after it has begun to answer is logged with a status that was
  never sent.\<close>
theorem logged_status_vs_sent:
  assumes "0 \<notin> set (statuses (serve r))"
  shows "(let (q, rw') = RequestLoggerMiddleware serve r \<lparr>wr_Sent = None, wr_Bytes = 0\<rparr> start stop in
      hq_ResponseSize q = written (serve r) \<and> hq_Status q = last (200 # statuses (serve r))
      \<and> client_status rw' = (case first_status (serve r) of None \<Rightarrow> 200 | Some s \<Rightarrow> s)
      \<and> (hq_Status q \<noteq> client_status rw' \<longrightarrow> (\<exists>a s b. serve r = a @ DoWriteHeader s # b \<and> a \<noteq> [] \<and> s \<noteq> client_status rw')))"
proof -
  have late: "\<exists>a s b. as = a @ DoWriteHeader s # b \<and> a \<noteq> [] \<and> s \<noteq> c"
    if "last (200 # statuses as) \<noteq> c" "c = (case first_status as of None \<Rightarrow> 200 | Some s \<Rightarrow> s)" for as c
  proof -
    show ?thesis
    proof (cases "statuses as = []")
      case True
      then show ?thesis using that by (cases as rule: first_status.cases) auto
    next
      case False
      then obtain a b where "as = a @ DoWriteHeader (last (statuses as)) # b" using last_status_at by blast
      moreover have "last (statuses as) \<noteq> c" using that False by simp
      moreover have "a \<noteq> []" using that(2) calculation by (metis append_Nil first_status.simps(2) option.simps(5))
      ultimately show ?thesis by blast
    qed
  qed
  show ?thesis using assms late [of "serve r"]
    by (auto simp: RequestLoggerMiddleware_def Let_def act_sent act_status act_size client_status_def)
qed

theorem logged_status_vs_sent_witness:
  "(let (q, rw') = RequestLoggerMiddleware (\<lambda>r. [DoWriteHeader 200, DoWrite 3, DoWriteHeader 500])
      \<lparr>in_Method = ''GET'', in_URL = None, in_UserAgent = '''', in_RemoteAddr = '''', in_ContentLength = 0\<rparr> \<lparr>wr_Sent = None, wr_Bytes = 0\<rparr> 0 0
    in hq_Status q = 500 \<and> client_status rw' = 200)"
  using logged_status_vs_sent [of "\<lambda>r. [DoWriteHeader 200, DoWrite 3, DoWriteHeader 500]"
      "\<lparr>in_Method = ''GET'', in_URL = None, in_UserAgent = '''', in_RemoteAddr = '''', in_ContentLength = 0\<rparr>" 0 0] by (auto simp: Let_def)

end
