(* ===== verification/Slog_Handler.thy ===== *)
theory Slog_Handler
  imports Slog_Attrs "HOL-Library.Multiset" "HOL-Library.Word"
begin

section \<open>slog-gcp: the handler\<close>

text \<open>
  \<open>src/go/slog-gcp/{handler,cloudrun}.go\<close> and \<open>src/go/slog-gcp/otelgcp/otelgcp.go\<close>. The handler wraps any handler that keeps the
  contract of \<open>slog.Handler\<close> (locale \<open>slog_contract\<close>); the JSON handler of \<open>log/slog\<close> keeps it, and so does the wrapper. Contexts carry at most
  one trace. The sequence number of the insert ids is a 64-bit word, as the atomic counter is.
\<close>

subsection \<open>Handlers\<close>

record log_record =
  lr_builtin :: "attr list"
  lr_attrs :: "attr list"

record 'h handler_ops =
  ho_WithAttrs :: "attr list \<Rightarrow> 'h \<Rightarrow> 'h"
  ho_WithGroup :: "string \<Rightarrow> 'h \<Rightarrow> 'h"

type_synonym ('x, 'h, 'w) handle_fun = "'h \<Rightarrow> log_record \<Rightarrow> 'w \<Rightarrow> 'x err option \<times> 'w"

record chain_step =
  cs_group :: string
  cs_attrs :: "attr list"

type_synonym 'c id_resolver = "'c \<Rightarrow> trace_context"

record ('h, 'c) slog_handler =
  sh_inner :: 'h
  sh_root :: 'h
  sh_steps :: "chain_step list"
  sh_resolve :: "'c id_resolver option"
  sh_projectID :: string
  sh_tracePrefix :: string
  sh_insertID :: bool
  sh_insertIDKey :: string

definition fastUniqueID :: "string \<Rightarrow> 64 word \<Rightarrow> string \<times> 64 word" where
  "fastUniqueID pid seq = (let v = seq + 1 in (pid @ ''-'' @ show_nat (unat v), v))"

datatype handler_option = WithInsertID bool | WithInsertIDKey string

definition WithEventID :: "bool \<Rightarrow> handler_option" where
  "WithEventID enabled = WithInsertID enabled"

fun apply_handler_option :: "handler_option \<Rightarrow> ('h, 'c) slog_handler \<Rightarrow> ('h, 'c) slog_handler" where
  "apply_handler_option (WithInsertID enabled) h = h\<lparr>sh_insertID := enabled\<rparr>"
| "apply_handler_option (WithInsertIDKey key) h = (if key \<noteq> '''' then h\<lparr>sh_insertIDKey := key\<rparr> else h)"

text \<open>\<open>detect\<close> is \<open>detectProjectID\<close> in its world. A nil handler panics: None.\<close>

definition NewHandler :: "('w \<Rightarrow> string \<times> 'w) \<Rightarrow> 'h option \<Rightarrow> 'c id_resolver option \<Rightarrow> string \<Rightarrow> handler_option list \<Rightarrow> 'w
    \<Rightarrow> ('h, 'c) slog_handler option \<times> 'w" where
  "NewHandler detect inner resolve projectID opts w =
     (case inner of None \<Rightarrow> (None, w)
      | Some i \<Rightarrow>
         (case (if projectID = '''' then detect w else (projectID, w)) of (p, w') \<Rightarrow>
            (Some (fold apply_handler_option opts
               \<lparr>sh_inner = i, sh_root = i, sh_steps = [], sh_resolve = resolve, sh_projectID = p,
                sh_tracePrefix = ''projects/'' @ p @ ''/traces/'', sh_insertID = False, sh_insertIDKey = FieldInsertID\<rparr>), w')))"

definition sh_Enabled :: "('h \<Rightarrow> int \<Rightarrow> bool) \<Rightarrow> ('h, 'c) slog_handler \<Rightarrow> int \<Rightarrow> bool" where
  "sh_Enabled enabled h level = enabled (sh_inner h) level"

definition reservedAttrs :: "string \<Rightarrow> ('h, 'c) slog_handler \<Rightarrow> 'c \<Rightarrow> 64 word \<Rightarrow> attr list \<times> 64 word" where
  "reservedAttrs pid h ctx seq =
     (let (ids, seq1) = (if sh_insertID h then (case fastUniqueID pid seq of (i, s) \<Rightarrow> ([Attr (sh_insertIDKey h) (StringValue i)], s)) else ([], seq));
          traces = (case sh_resolve h of None \<Rightarrow> []
            | Some resolve \<Rightarrow>
                let tc = resolve ctx in
                if tc_IsEmpty tc then []
                else [Attr FieldTrace (StringValue (sh_tracePrefix h @ tc_TraceID tc)), Attr FieldSpanID (StringValue (tc_SpanID tc)),
                      Attr FieldTraceSampled (BoolValue (tc_Sampled tc))])
      in (ids @ traces, seq1))"

definition replay_step :: "'h handler_ops \<Rightarrow> chain_step \<Rightarrow> 'h \<Rightarrow> 'h" where
  "replay_step ops step target =
     (if cs_group step \<noteq> '''' then ho_WithGroup ops (cs_group step) target else ho_WithAttrs ops (cs_attrs step) target)"

definition sh_Handle :: "'h handler_ops \<Rightarrow> ('x, 'h, 'w) handle_fun \<Rightarrow> string \<Rightarrow> ('h, 'c) slog_handler \<Rightarrow> 'c \<Rightarrow> log_record \<Rightarrow> 64 word \<Rightarrow> 'w
    \<Rightarrow> ('x err option \<times> 'w) \<times> 64 word" where
  "sh_Handle ops handle pid h ctx r seq w =
     (case reservedAttrs pid h ctx seq of (reserved, seq1) \<Rightarrow>
        if reserved = [] \<or> sh_steps h = [] then (handle (sh_inner h) (r\<lparr>lr_attrs := lr_attrs r @ reserved\<rparr>) w, seq1)
        else (handle (fold (replay_step ops) (sh_steps h) (ho_WithAttrs ops reserved (sh_root h))) r w, seq1))"

text \<open>\<open>clone\<close> copies the steps, so that lists stand for them faithfully.\<close>

definition sh_WithAttrs :: "'h handler_ops \<Rightarrow> attr list \<Rightarrow> ('h, 'c) slog_handler \<Rightarrow> ('h, 'c) slog_handler" where
  "sh_WithAttrs ops attrs h =
     (let next = h\<lparr>sh_inner := ho_WithAttrs ops attrs (sh_inner h)\<rparr> in
      if sh_steps h = [] then next\<lparr>sh_root := ho_WithAttrs ops attrs (sh_root h)\<rparr>
      else next\<lparr>sh_steps := sh_steps h @ [\<lparr>cs_group = '''', cs_attrs = attrs\<rparr>]\<rparr>)"

definition sh_WithGroup :: "'h handler_ops \<Rightarrow> string \<Rightarrow> ('h, 'c) slog_handler \<Rightarrow> ('h, 'c) slog_handler" where
  "sh_WithGroup ops name h =
     (if name = '''' then h
      else h\<lparr>sh_inner := ho_WithGroup ops name (sh_inner h), sh_steps := sh_steps h @ [\<lparr>cs_group = name, cs_attrs = []\<rparr>]\<rparr>)"

subsection \<open>cloudrun.go\<close>

text \<open>A level is fixed or read from a variable when it is needed.\<close>

datatype 'v leveler = FixedLevel int | LevelVar 'v

record 'c go_ctx =
  cx_trace :: "trace_context option"
  cx_rest :: 'c

record ('v, 'c) setup_config =
  su_levelVar :: "'v option"
  su_projectID :: string
  su_insertID :: "bool option"
  su_insertIDKey :: string
  su_resolver :: "'c go_ctx option id_resolver option"
  su_labels :: "(string \<times> string) list"

datatype ('v, 'c) setup_option =
    WithLevelVar "'v option" | WithProjectID string | WithInsertIDEnabled bool | WithCustomInsertIDKey string
  | WithTraceResolver "'c go_ctx option id_resolver option" | WithLabels "(string \<times> string) list"

definition WithEventIDEnabled :: "bool \<Rightarrow> ('v, 'c) setup_option" where
  "WithEventIDEnabled enabled = WithInsertIDEnabled enabled"

fun apply_setup_option :: "('v, 'c) setup_option \<Rightarrow> ('v, 'c) setup_config \<Rightarrow> ('v, 'c) setup_config" where
  "apply_setup_option (WithLevelVar lv) cfg = cfg\<lparr>su_levelVar := lv\<rparr>"
| "apply_setup_option (WithProjectID i) cfg = cfg\<lparr>su_projectID := i\<rparr>"
| "apply_setup_option (WithInsertIDEnabled b) cfg = cfg\<lparr>su_insertID := Some b\<rparr>"
| "apply_setup_option (WithCustomInsertIDKey k) cfg = cfg\<lparr>su_insertIDKey := k\<rparr>"
| "apply_setup_option (WithTraceResolver f) cfg = cfg\<lparr>su_resolver := f\<rparr>"
| "apply_setup_option (WithLabels ls) cfg = cfg\<lparr>su_labels := ls\<rparr>"

definition runningOnGCP :: "(string \<Rightarrow> string) \<Rightarrow> bool" where
  "runningOnGCP getenv \<longleftrightarrow> getenv ''K_SERVICE'' \<noteq> '''' \<or> getenv ''CLOUD_RUN_JOB'' \<noteq> '''' \<or> getenv ''KUBERNETES_SERVICE_HOST'' \<noteq> ''''"

definition parseLogLevel :: "(string \<Rightarrow> string) \<Rightarrow> (string \<Rightarrow> string) \<Rightarrow> int" where
  "parseLogLevel toUpper getenv =
     (let l = toUpper (getenv ''LOG_LEVEL'') in
      if l = ''DEBUG'' then LevelDebug else if l = ''INFO'' then LevelInfo else if l = ''WARN'' \<or> l = ''WARNING'' then LevelWarn
      else if l = ''ERROR'' then LevelError else if runningOnGCP getenv then LevelInfo else LevelDebug)"

text \<open>The handlers of \<open>log/slog\<close>: the JSON handler keeps its options, the groups that are open and the fields that are set.\<close>

record 'v json_handler =
  jh_level :: "'v leveler"
  jh_addSource :: bool
  jh_path :: "string list"
  jh_pre :: "field list"

fun attr_fields :: "string list \<Rightarrow> attr \<Rightarrow> field list" where
  "attr_fields path (Attr k (GroupValue as)) = concat (map (attr_fields (if k = '''' then path else path @ [k])) as)"
| "attr_fields path (Attr k v) = [(path, k, v)]"

text \<open>The replacement is applied to every attribute that is not a group, and a group that it returns is written as one.\<close>

definition gcp_fields :: "string list \<Rightarrow> attr list \<Rightarrow> field list" where
  "gcp_fields path as = concat (map (\<lambda>(p, k, v). attr_fields p (GCPReplaceAttr p (Attr k v))) (concat (map (attr_fields path) as)))"

definition json_new :: "'v leveler \<Rightarrow> 'v json_handler" where
  "json_new level = \<lparr>jh_level = level, jh_addSource = True, jh_path = [], jh_pre = []\<rparr>"

definition json_WithAttrs :: "attr list \<Rightarrow> 'v json_handler \<Rightarrow> 'v json_handler" where
  "json_WithAttrs as h = h\<lparr>jh_pre := jh_pre h @ gcp_fields (jh_path h) as\<rparr>"

definition json_WithGroup :: "string \<Rightarrow> 'v json_handler \<Rightarrow> 'v json_handler" where
  "json_WithGroup g h = h\<lparr>jh_path := jh_path h @ [g]\<rparr>"

definition json_ops :: "'v json_handler handler_ops" where
  "json_ops = \<lparr>ho_WithAttrs = json_WithAttrs, ho_WithGroup = json_WithGroup\<rparr>"

text \<open>The entry of a record: time, level, source and message at the root, then the fields set before, then those of the record. The world is the
  log that has been written.\<close>

definition json_entry :: "'v json_handler \<Rightarrow> log_record \<Rightarrow> field list" where
  "json_entry h r = gcp_fields [] (lr_builtin r) @ jh_pre h @ gcp_fields (jh_path h) (lr_attrs r)"

definition json_handle :: "('x, 'v json_handler, field list list) handle_fun" where
  "json_handle h r w = (None, w @ [json_entry h r])"

datatype ('v, 'c) cloud_handler = TextHandler "'v leveler" | GcpHandler "('v json_handler, 'c go_ctx option) slog_handler"

definition ctx_resolver :: "'c go_ctx option id_resolver" where
  "ctx_resolver ctx = (case ctx of None \<Rightarrow> no_trace | Some c \<Rightarrow> (case cx_trace c of None \<Rightarrow> no_trace | Some tc \<Rightarrow> tc))"

definition text_format :: "(string \<Rightarrow> string \<Rightarrow> bool) \<Rightarrow> (string \<Rightarrow> string) \<Rightarrow> bool" where
  "text_format equalFold getenv \<longleftrightarrow>
     \<not> runningOnGCP getenv \<and> \<not> equalFold (getenv ''LOG_FORMAT'') ''json'' \<or> equalFold (getenv ''LOG_FORMAT'') ''text''"

definition InitCloudRun :: "(string \<Rightarrow> string) \<Rightarrow> (string \<Rightarrow> string \<Rightarrow> bool) \<Rightarrow> (string \<Rightarrow> string) \<Rightarrow> ('w \<Rightarrow> string \<times> 'w)
    \<Rightarrow> ('v, 'c) setup_option list \<Rightarrow> 'w \<Rightarrow> ('v, 'c) cloud_handler option \<times> 'w" where
  "InitCloudRun toUpper equalFold getenv detect opts w =
     (let cfg = fold apply_setup_option opts
            \<lparr>su_levelVar = None, su_projectID = '''', su_insertID = None, su_insertIDKey = '''', su_resolver = None, su_labels = []\<rparr>;
          level = (case su_levelVar cfg of Some v \<Rightarrow> LevelVar v | None \<Rightarrow> FixedLevel (parseLogLevel toUpper getenv)) in
      if text_format equalFold getenv then (Some (TextHandler level), w)
      else
        let resolver = (case su_resolver cfg of Some f \<Rightarrow> f | None \<Rightarrow> ctx_resolver);
            handlerOpts = (case su_insertID cfg of Some b \<Rightarrow> [WithInsertID b] | None \<Rightarrow> [])
              @ (if su_insertIDKey cfg \<noteq> '''' then [WithInsertIDKey (su_insertIDKey cfg)] else []) in
        (case NewHandler detect (Some (json_new level)) (Some resolver) (su_projectID cfg) handlerOpts w of
           (None, w') \<Rightarrow> (None, w')
         | (Some h, w') \<Rightarrow>
             (Some (GcpHandler (if su_labels cfg \<noteq> [] then
                sh_WithAttrs json_ops [Attr ''logging.googleapis.com/labels'' (GroupValue (map (\<lambda>(k, v). Attr k (StringValue v)) (su_labels cfg)))] h else h)), w')))"

text \<open>The default logger is the handler that was set last.\<close>

definition Setup :: "(string \<Rightarrow> string) \<Rightarrow> (string \<Rightarrow> string \<Rightarrow> bool) \<Rightarrow> (string \<Rightarrow> string) \<Rightarrow> ('w \<Rightarrow> string \<times> 'w)
    \<Rightarrow> ('v, 'c) setup_option list \<Rightarrow> ('v, 'c) cloud_handler option \<Rightarrow> 'w \<Rightarrow> ('v, 'c) cloud_handler option \<times> 'w" where
  "Setup toUpper equalFold getenv detect opts default_logger w =
     (case InitCloudRun toUpper equalFold getenv detect opts w of (None, w') \<Rightarrow> (default_logger, w') | (Some h, w') \<Rightarrow> (Some h, w'))"

definition TraceMiddleware :: "('c go_ctx \<Rightarrow> 'w \<Rightarrow> 'w) \<Rightarrow> (string \<Rightarrow> string) \<Rightarrow> 'c go_ctx \<Rightarrow> 'w \<Rightarrow> 'w" where
  "TraceMiddleware next header ctx w =
     (let h = header ''X-Cloud-Trace-Context'';
          tc = (if h \<noteq> '''' then parseCloudTraceHeader h
                else if header ''traceparent'' \<noteq> '''' then parseTraceparentHeader (header ''traceparent'') else no_trace)
      in next (if tc_TraceID tc \<noteq> '''' then ctx\<lparr>cx_trace := Some tc\<rparr> else ctx) w)"

text \<open>A nil context is replaced by the background context.\<close>

definition WithTraceContext :: "'c go_ctx \<Rightarrow> 'c go_ctx option \<Rightarrow> trace_context \<Rightarrow> 'c go_ctx" where
  "WithTraceContext background ctx tc = (case ctx of None \<Rightarrow> background | Some c \<Rightarrow> c)\<lparr>cx_trace := Some tc\<rparr>"

text \<open>The two random numbers are read from the generator.\<close>

definition WithTrace :: "'c go_ctx \<Rightarrow> ('w \<Rightarrow> 64 word \<times> 'w) \<Rightarrow> 'c go_ctx option \<Rightarrow> 'w \<Rightarrow> 'c go_ctx \<times> 'w" where
  "WithTrace background random ctx w =
     (case random w of (r1, w1) \<Rightarrow> (case random w1 of (r2, w2) \<Rightarrow>
        ((case ctx of None \<Rightarrow> background | Some c \<Rightarrow> c)
           \<lparr>cx_trace := Some \<lparr>tc_TraceID = pad_hex16 (unat r1) @ pad_hex16 (unat r2), tc_SpanID = ''0000000000000000'', tc_Sampled = True\<rparr>\<rparr>, w2)))"

subsection \<open>otelgcp.go\<close>

text \<open>The span of OpenTelemetry: its ids as it has them, whether it is valid and sampled. \<open>tidString\<close> and \<open>sidString\<close> are its printing.\<close>

record ('t, 's) otel_span =
  os_valid :: bool
  os_traceID :: 't
  os_spanID :: 's
  os_sampled :: bool

type_synonym ('t, 's) otel_cache = "(('t \<times> 's \<times> bool) \<times> trace_context) option"

text \<open>A call of the resolver: it loads the cache once and may store into it; \<open>None\<close> stands for a nil context.\<close>

definition otel_resolve :: "('t \<Rightarrow> string) \<Rightarrow> ('s \<Rightarrow> string) \<Rightarrow> ('t, 's) otel_span option \<Rightarrow> ('t, 's) otel_cache
    \<Rightarrow> trace_context \<times> ('t, 's) otel_cache option" where
  "otel_resolve tidString sidString ctx loaded =
     (case ctx of None \<Rightarrow> (no_trace, None)
      | Some sc \<Rightarrow>
         if \<not> os_valid sc then (no_trace, None)
         else (case loaded of
            Some (key, tc) \<Rightarrow>
              if key = (os_traceID sc, os_spanID sc, os_sampled sc) then (tc, None)
              else (let t = \<lparr>tc_TraceID = tidString (os_traceID sc), tc_SpanID = sidString (os_spanID sc), tc_Sampled = os_sampled sc\<rparr>
                    in (t, Some (Some ((os_traceID sc, os_spanID sc, os_sampled sc), t))))
          | None \<Rightarrow>
              (let t = \<lparr>tc_TraceID = tidString (os_traceID sc), tc_SpanID = sidString (os_spanID sc), tc_Sampled = os_sampled sc\<rparr>
               in (t, Some (Some ((os_traceID sc, os_spanID sc, os_sampled sc), t))))))"

subsection \<open>The contract of a handler\<close>

text \<open>What \<open>log/slog\<close> asks of a handler, on the fields it will write: attributes are written under the groups that are open, a group opens under
  those that are open.\<close>

locale slog_contract =
  fixes WithAttrs :: "attr list \<Rightarrow> 'h \<Rightarrow> 'h" and WithGroup :: "string \<Rightarrow> 'h \<Rightarrow> 'h"
    and path :: "'h \<Rightarrow> string list" and pre :: "'h \<Rightarrow> field list" and fields_at :: "string list \<Rightarrow> attr list \<Rightarrow> field list"
  assumes path_WithAttrs: "path (WithAttrs as h) = path h"
    and pre_WithAttrs: "pre (WithAttrs as h) = pre h @ fields_at (path h) as"
    and path_WithGroup: "g \<noteq> '''' \<Longrightarrow> path (WithGroup g h) = path h @ [g]"
    and pre_WithGroup: "pre (WithGroup g h) = pre h"
    and fields_append: "fields_at p (as @ bs) = fields_at p as @ fields_at p bs"
begin

abbreviation (input) replay where
  "replay steps h \<equiv> fold (replay_step \<lparr>ho_WithAttrs = WithAttrs, ho_WithGroup = WithGroup\<rparr>) steps h"

lemma replay_same:
  "path h = path h' \<Longrightarrow> pre h = pre h' \<Longrightarrow> path (replay steps h) = path (replay steps h') \<and> pre (replay steps h) = pre (replay steps h')"
proof (induction steps arbitrary: h h')
  case (Cons s steps)
  let ?s = "replay_step \<lparr>ho_WithAttrs = WithAttrs, ho_WithGroup = WithGroup\<rparr> s"
  have "path (?s h) = path (?s h') \<and> pre (?s h) = pre (?s h')"
    using Cons.prems by (simp add: replay_step_def path_WithAttrs pre_WithAttrs path_WithGroup pre_WithGroup)
  then show ?case using Cons.IH [of "?s h" "?s h'"] by simp
qed simp

lemma replay_extra:
  "path h = path h' \<Longrightarrow> mset (pre h) = mset (pre h') + X \<Longrightarrow>
   path (replay steps h) = path (replay steps h') \<and> mset (pre (replay steps h)) = mset (pre (replay steps h')) + X"
proof (induction steps arbitrary: h h')
  case (Cons s steps)
  let ?s = "replay_step \<lparr>ho_WithAttrs = WithAttrs, ho_WithGroup = WithGroup\<rparr> s"
  have "path (?s h) = path (?s h') \<and> mset (pre (?s h)) = mset (pre (?s h')) + X"
    using Cons.prems by (simp add: replay_step_def path_WithAttrs pre_WithAttrs path_WithGroup pre_WithGroup)
  then show ?case using Cons.IH [of "?s h" "?s h'"] by simp
qed simp

text \<open>The wrapped handler and its record of the calls agree: replaying the steps on the root gives the groups and the fields of the inner handler.\<close>

abbreviation (input) chain_ok :: "string list \<Rightarrow> ('h, 'c) slog_handler \<Rightarrow> bool" where
  "chain_ok base h \<equiv> path (sh_root h) = base \<and> path (sh_inner h) = path (replay (sh_steps h) (sh_root h))
     \<and> pre (sh_inner h) = pre (replay (sh_steps h) (sh_root h))"

lemma chain_WithAttrs:
  "chain_ok base h \<Longrightarrow> chain_ok base (sh_WithAttrs \<lparr>ho_WithAttrs = WithAttrs, ho_WithGroup = WithGroup\<rparr> as h)"
  by (cases "sh_steps h = []") (simp_all add: sh_WithAttrs_def Let_def replay_step_def path_WithAttrs pre_WithAttrs)

lemma chain_WithGroup:
  "chain_ok base h \<Longrightarrow> chain_ok base (sh_WithGroup \<lparr>ho_WithAttrs = WithAttrs, ho_WithGroup = WithGroup\<rparr> g h)"
  by (simp add: sh_WithGroup_def Let_def replay_step_def path_WithGroup pre_WithGroup)

text \<open>The fields of the handler that gets the record, with those of the record.\<close>

lemma handled_fields:
  assumes "chain_ok base h"
  shows "\<exists>target r'. sh_Handle \<lparr>ho_WithAttrs = WithAttrs, ho_WithGroup = WithGroup\<rparr> handle pid h ctx r seq w
       = (handle target r' w, snd (reservedAttrs pid h ctx seq))
     \<and> path target = path (sh_inner h) \<and> lr_builtin r' = lr_builtin r
     \<and> mset (pre target @ fields_at (path target) (lr_attrs r'))
       = mset (pre (sh_inner h) @ fields_at (path (sh_inner h)) (lr_attrs r)) + mset (fields_at base (fst (reservedAttrs pid h ctx seq)))"
proof -
  obtain res s1 where res: "reservedAttrs pid h ctx seq = (res, s1)" by fastforce
  have nil: "fields_at p [] = []" for p using fields_append [of p "[]" "[]"] by simp
  show ?thesis
  proof (cases "res = [] \<or> sh_steps h = []")
    case True
    then show ?thesis using assms res nil
      by (intro exI [of _ "sh_inner h"] exI [of _ "r\<lparr>lr_attrs := lr_attrs r @ res\<rparr>"]) (auto simp: sh_Handle_def fields_append)
  next
    case False
    let ?t = "replay (sh_steps h) (WithAttrs res (sh_root h))"
    have "path ?t = path (replay (sh_steps h) (sh_root h)) \<and> mset (pre ?t) = mset (pre (replay (sh_steps h) (sh_root h))) + mset (fields_at base res)"
      using assms by (intro replay_extra) (simp_all add: path_WithAttrs pre_WithAttrs)
    then show ?thesis using assms res False by (intro exI [of _ ?t] exI [of _ r]) (simp add: sh_Handle_def)
  qed
qed

end

text \<open>The JSON handler keeps the contract; so does the wrapper on top of it, which can be wrapped again.\<close>

lemma gcp_fields_append: "gcp_fields p (as @ bs) = gcp_fields p as @ gcp_fields p bs"
  by (simp add: gcp_fields_def)

interpretation json: slog_contract json_WithAttrs json_WithGroup jh_path jh_pre gcp_fields
  by unfold_locales (simp_all add: json_WithAttrs_def json_WithGroup_def gcp_fields_append)

interpretation wrapper: slog_contract "sh_WithAttrs json_ops" "sh_WithGroup json_ops" "\<lambda>h. jh_path (sh_inner h)" "\<lambda>h. jh_pre (sh_inner h)" gcp_fields
  by unfold_locales (simp_all add: sh_WithAttrs_def sh_WithGroup_def Let_def json_ops_def json_WithAttrs_def json_WithGroup_def gcp_fields_append)

subsection \<open>Chains of calls\<close>

text \<open>What a logger does to its handler: attributes and groups; a group without a name is no call.\<close>

datatype chain_op = OpAttrs "attr list" | OpGroup string

fun sh_apply :: "chain_op \<Rightarrow> ('v json_handler, 'c) slog_handler \<Rightarrow> ('v json_handler, 'c) slog_handler" where
  "sh_apply (OpAttrs as) h = sh_WithAttrs json_ops as h"
| "sh_apply (OpGroup g) h = sh_WithGroup json_ops g h"

fun json_apply :: "chain_op \<Rightarrow> 'v json_handler \<Rightarrow> 'v json_handler" where
  "json_apply (OpAttrs as) h = json_WithAttrs as h"
| "json_apply (OpGroup g) h = (if g = '''' then h else json_WithGroup g h)"

lemma chain_inner: "sh_inner (fold sh_apply chain h) = fold json_apply chain (sh_inner h)"
proof (induction chain arbitrary: h)
  case (Cons a chain)
  show ?case by (cases a) (simp_all add: Cons sh_WithAttrs_def sh_WithGroup_def json_ops_def Let_def)
qed simp

abbreviation (input) json_chain_ok :: "('v json_handler, 'c) slog_handler \<Rightarrow> bool" where
  "json_chain_ok h \<equiv> jh_path (sh_root h) = []
     \<and> jh_path (sh_inner h) = jh_path (fold (replay_step json_ops) (sh_steps h) (sh_root h))
     \<and> jh_pre (sh_inner h) = jh_pre (fold (replay_step json_ops) (sh_steps h) (sh_root h))"

lemma chain_invariant: "json_chain_ok h \<Longrightarrow> json_chain_ok (fold sh_apply chain h)"
proof (induction chain arbitrary: h)
  case (Cons a chain)
  have "json_chain_ok (sh_apply a h)"
    using json.chain_WithAttrs [of h "[]"] json.chain_WithGroup [of h "[]"] Cons.prems by (cases a) (simp_all add: json_ops_def)
  then show ?case using Cons.IH by simp
qed simp

lemma chain_reserved: "reservedAttrs pid (fold sh_apply chain h) ctx seq = reservedAttrs pid h ctx seq"
proof (induction chain arbitrary: h)
  case (Cons a chain)
  have "reservedAttrs pid (sh_apply a h) ctx seq = reservedAttrs pid h ctx seq"
    by (cases a) (auto simp: reservedAttrs_def sh_WithAttrs_def sh_WithGroup_def Let_def split: option.split prod.split)
  then show ?case using Cons.IH by simp
qed simp

lemma options_keep: "sh_inner (fold apply_handler_option opts h) = sh_inner h \<and> sh_root (fold apply_handler_option opts h) = sh_root h
    \<and> sh_steps (fold apply_handler_option opts h) = sh_steps h \<and> sh_resolve (fold apply_handler_option opts h) = sh_resolve h
    \<and> sh_tracePrefix (fold apply_handler_option opts h) = sh_tracePrefix h"
proof (induction opts arbitrary: h)
  case (Cons a opts)
  show ?case by (cases a) (simp_all add: Cons)
qed simp

text \<open>The fields that the JSON handler writes for a record, by the contract.\<close>

lemma json_entry_handled:
  fixes h :: "('v json_handler, 'c) slog_handler"
  assumes "json_chain_ok h"
  shows "\<exists>entry. fst (sh_Handle json_ops (json_handle :: ('x, _, _) handle_fun) pid h ctx r seq w) = (None, w @ [entry])
    \<and> mset entry = mset (json_entry (sh_inner h) r) + mset (gcp_fields [] (fst (reservedAttrs pid h ctx seq)))"
proof -
  obtain target :: "'v json_handler" and r' where "sh_Handle json_ops (json_handle :: ('x, _, _) handle_fun) pid h ctx r seq w = (json_handle target r' w, snd (reservedAttrs pid h ctx seq))"
    "jh_path target = jh_path (sh_inner h)" "lr_builtin r' = lr_builtin r"
    and m: "mset (jh_pre target @ gcp_fields (jh_path target) (lr_attrs r'))
       = mset (jh_pre (sh_inner h) @ gcp_fields (jh_path (sh_inner h)) (lr_attrs r)) + mset (gcp_fields [] (fst (reservedAttrs pid h ctx seq)))"
    using json.handled_fields [OF assms [unfolded json_ops_def], of "json_handle :: ('x, _, _) handle_fun" pid ctx r seq w]
    unfolding json_ops_def by (elim exE conjE)
  then show ?thesis by (simp add: json_handle_def json_entry_def)
qed

lemma NewHandler_chain_ok:
  "NewHandler detect (Some (json_new level)) resolve project opts w0 = (Some h, w1) \<Longrightarrow>
   json_chain_ok h \<and> sh_inner h = json_new level \<and> sh_resolve h = resolve
   \<and> (project \<noteq> '''' \<longrightarrow> sh_tracePrefix h = ''projects/'' @ project @ ''/traces/'')"
  by (auto simp: NewHandler_def options_keep json_new_def split: prod.splits if_splits)

lemma trace_fields:
  "gcp_fields [] [Attr FieldTrace (StringValue t), Attr FieldSpanID (StringValue s), Attr FieldTraceSampled (BoolValue b)]
   = [([], FieldTrace, StringValue t), ([], FieldSpanID, StringValue s), ([], FieldTraceSampled, BoolValue b)]"
  by (simp add: gcp_fields_def GCPReplaceAttr_def FieldTrace_def FieldSpanID_def FieldTraceSampled_def)

lemma reserved_trace:
  assumes "sh_resolve h = Some f" "\<not> tc_IsEmpty (f ctx)"
  shows "{([], FieldTrace, StringValue (sh_tracePrefix h @ tc_TraceID (f ctx))), ([], FieldSpanID, StringValue (tc_SpanID (f ctx))),
      ([], FieldTraceSampled, BoolValue (tc_Sampled (f ctx)))} \<subseteq> set (gcp_fields [] (fst (reservedAttrs pid h ctx seq)))"
proof -
  obtain ids s where "(if sh_insertID h then (case fastUniqueID pid seq of (i, s) \<Rightarrow> ([Attr (sh_insertIDKey h) (StringValue i)], s)) else ([], seq)) = (ids, s)"
    by fastforce
  then show ?thesis using assms by (simp add: reservedAttrs_def Let_def gcp_fields_append trace_fields)
qed

subsection \<open>Insert ids\<close>

text \<open>The ids that a process draws in a row.\<close>

fun draw_ids :: "nat \<Rightarrow> string \<Rightarrow> 64 word \<Rightarrow> string list" where
  "draw_ids 0 pid seq = []"
| "draw_ids (Suc n) pid seq = fst (fastUniqueID pid seq) # draw_ids n pid (snd (fastUniqueID pid seq))"

lemma draw_ids_eq: "draw_ids n pid seq = map (\<lambda>k. pid @ ''-'' @ show_nat (unat (seq + word_of_nat (Suc k)))) [0..<n]"
proof (induction n arbitrary: seq)
  case (Suc n)
  have "[0..<Suc n] = 0 # map Suc [0..<n]" by (simp add: map_Suc_upt upt_conv_Cons del: upt_Suc)
  then show ?case by (simp add: Suc fastUniqueID_def Let_def add.assoc o_def del: upt_Suc)
qed simp

lemma word_of_nat_inj64: "j < 2 ^ 64 \<Longrightarrow> k < 2 ^ 64 \<Longrightarrow> (word_of_nat j :: 64 word) = word_of_nat k \<Longrightarrow> j = k"
proof -
  assume jk: "j < 2 ^ 64" "k < 2 ^ 64" and e: "(word_of_nat j :: 64 word) = word_of_nat k"
  have "unat (word_of_nat i :: 64 word) = i" if "i < 2 ^ 64" for i using that by (simp add: unat_of_nat)
  with jk e show "j = k" by metis
qed

lemma draw_ids_distinct: "n \<le> 2 ^ 64 \<Longrightarrow> distinct (draw_ids n pid seq)"
proof -
  assume n: "n \<le> 2 ^ 64"
  have "inj_on (\<lambda>k. pid @ ''-'' @ show_nat (unat (seq + word_of_nat (Suc k)))) (set [0..<n])"
  proof (rule inj_onI)
    fix j k
    assume jk: "j \<in> set [0..<n]" "k \<in> set [0..<n]"
      and "pid @ ''-'' @ show_nat (unat (seq + word_of_nat (Suc j))) = pid @ ''-'' @ show_nat (unat (seq + word_of_nat (Suc k)))"
    then have "show_nat (unat (seq + word_of_nat (Suc j))) = show_nat (unat (seq + word_of_nat (Suc k)))" by simp
    then have "unat (seq + word_of_nat (Suc j)) = unat (seq + word_of_nat (Suc k))" by (rule show_nat_inj)
    then have "seq + word_of_nat (Suc j) = seq + word_of_nat (Suc k)" by (simp only: word_unat_eq_iff)
    then have "(word_of_nat j :: 64 word) = word_of_nat k" by simp
    then show "j = k" using jk n by (intro word_of_nat_inj64) auto
  qed
  then show ?thesis unfolding draw_ids_eq by (simp add: distinct_map)
qed

subsection \<open>The cache of the OpenTelemetry resolver\<close>

text \<open>What the resolver computes without a cache.\<close>

definition otel_plain :: "('t \<Rightarrow> string) \<Rightarrow> ('s \<Rightarrow> string) \<Rightarrow> ('t, 's) otel_span option \<Rightarrow> trace_context" where
  "otel_plain tidString sidString ctx =
     (case ctx of None \<Rightarrow> no_trace
      | Some sc \<Rightarrow> if os_valid sc then \<lparr>tc_TraceID = tidString (os_traceID sc), tc_SpanID = sidString (os_spanID sc), tc_Sampled = os_sampled sc\<rparr>
                   else no_trace)"

text \<open>The values that the cache can hold: a call may have loaded any of them, however the calls interleave.\<close>

inductive_set otel_caches :: "('t \<Rightarrow> string) \<Rightarrow> ('s \<Rightarrow> string) \<Rightarrow> ('t, 's) otel_cache set" for tidString sidString where
  start: "None \<in> otel_caches tidString sidString"
| store: "loaded \<in> otel_caches tidString sidString \<Longrightarrow> otel_resolve tidString sidString ctx loaded = (tc, Some c)
    \<Longrightarrow> c \<in> otel_caches tidString sidString"

lemma otel_cache_entry:
  "c \<in> otel_caches f g \<Longrightarrow> c = Some ((t, s, b), tc) \<Longrightarrow> tc = \<lparr>tc_TraceID = f t, tc_SpanID = g s, tc_Sampled = b\<rparr>"
proof (induction arbitrary: t s b tc rule: otel_caches.induct)
  case (store loaded ctx r c)
  then show ?case by (auto simp: otel_resolve_def Let_def split: option.splits if_splits)
qed simp

lemma otel_cache_transparent: "c \<in> otel_caches f g \<Longrightarrow> fst (otel_resolve f g ctx c) = otel_plain f g ctx"
  using otel_cache_entry [of c f g]
  by (auto simp: otel_resolve_def otel_plain_def Let_def split: option.splits)

subsection \<open>Properties\<close>

text \<open>C27. Whatever attributes and groups a logger has set, one record makes one entry: the fields that the JSON handler alone would write after the same calls,
  and the reserved fields, each once and all at the root of the entry, under no group: the trace, the span and the flag of the context when it has a trace,
  with the name of the project. The handler's own error is returned as it is.\<close>
theorem reserved_fields_at_root:
  assumes new: "NewHandler detect (Some (json_new level)) (Some f) project opts w0 = (Some h, w1)"
  shows "\<exists>entry reserved. fst (sh_Handle json_ops (json_handle :: ('x, 'v json_handler, _) handle_fun) pid (fold sh_apply chain h) ctx r seq w) = (None, w @ [entry])
    \<and> mset entry = mset (json_entry (fold json_apply chain (json_new level)) r) + mset reserved
    \<and> reserved = gcp_fields [] (fst (reservedAttrs pid h ctx seq))
    \<and> (project \<noteq> '''' \<and> \<not> tc_IsEmpty (f ctx) \<longrightarrow>
         {([], FieldTrace, StringValue (''projects/'' @ project @ ''/traces/'' @ tc_TraceID (f ctx))), ([], FieldSpanID, StringValue (tc_SpanID (f ctx))),
          ([], FieldTraceSampled, BoolValue (tc_Sampled (f ctx)))} \<subseteq> set reserved)"
proof -
  have h: "json_chain_ok h" "sh_inner h = json_new level" "sh_resolve h = Some f" "project \<noteq> '''' \<Longrightarrow> sh_tracePrefix h = ''projects/'' @ project @ ''/traces/''"
    using NewHandler_chain_ok [OF new] by auto
  let ?k = "fold sh_apply chain h"
  have "json_chain_ok ?k" by (rule chain_invariant [OF h(1)])
  from json_entry_handled [OF this, where r = r, of pid ctx seq w]
  obtain entry where "fst (sh_Handle json_ops (json_handle :: ('x, 'v json_handler, _) handle_fun) pid ?k ctx r seq w) = (None, w @ [entry])"
    "mset entry = mset (json_entry (sh_inner ?k) r) + mset (gcp_fields [] (fst (reservedAttrs pid ?k ctx seq)))" by blast
  then show ?thesis using h reserved_trace [of h f ctx pid seq] by (auto simp: chain_inner chain_reserved)
qed

definition sample_level :: "unit leveler" where "sample_level = FixedLevel 0"

theorem reserved_fields_at_root_witness:
  "\<exists>h entry. fst (NewHandler (\<lambda>w. ('''', w)) (Some (json_new sample_level)) (Some (\<lambda>c. \<lparr>tc_TraceID = ''t'', tc_SpanID = ''s'', tc_Sampled = True\<rparr>)) ''p'' [] ()) = Some h
    \<and> fst (sh_Handle json_ops json_handle ''17'' (fold sh_apply [OpGroup ''g'', OpAttrs [Attr ''a'' (IntValue 1)]] h) () \<lparr>lr_builtin = [], lr_attrs = []\<rparr> 0 [])
      = (None :: 'x err option, [entry]) \<and> ([], FieldTrace, StringValue ''projects/p/traces/t'') \<in> set entry"
proof -
  let ?f = "\<lambda>c :: unit. \<lparr>tc_TraceID = ''t'', tc_SpanID = ''s'', tc_Sampled = True\<rparr>"
  obtain h where h: "NewHandler (\<lambda>w. ('''', w)) (Some (json_new sample_level)) (Some ?f) ''p'' [] () = (Some h, ())"
    by (simp add: NewHandler_def)
  from reserved_fields_at_root [OF h, where 'x = 'x and chain = "[OpGroup ''g'', OpAttrs [Attr ''a'' (IntValue 1)]]" and pid = "''17''" and ctx = "()"
      and r = "\<lparr>lr_builtin = [], lr_attrs = []\<rparr>" and seq = 0 and w = "[]"]
  obtain entry reserved where e: "fst (sh_Handle json_ops json_handle ''17'' (fold sh_apply [OpGroup ''g'', OpAttrs [Attr ''a'' (IntValue 1)]] h) () \<lparr>lr_builtin = [], lr_attrs = []\<rparr> 0 [])
      = (None :: 'x err option, [] @ [entry])" and m: "mset entry = mset (json_entry (fold json_apply [OpGroup ''g'', OpAttrs [Attr ''a'' (IntValue 1)]] (json_new sample_level)) \<lparr>lr_builtin = [], lr_attrs = []\<rparr>) + mset reserved"
    and r: "([], FieldTrace, StringValue ''projects/p/traces/t'') \<in> set reserved" by (auto simp: tc_IsEmpty_def)
  have "set entry = set_mset (mset entry)" by simp
  then have "([], FieldTrace, StringValue ''projects/p/traces/t'') \<in> set entry" using r unfolding m by simp
  then show ?thesis using h e by simp
qed

text \<open>The insert ids that a process draws are all different, from any start of the counter, up to \<open>2^64\<close> of them.\<close>
theorem insert_ids_distinct:
  assumes "n \<le> 2 ^ 64"
  shows "distinct (draw_ids n pid seq)"
  using assms by (rule draw_ids_distinct)

theorem insert_ids_distinct_witness: "distinct (draw_ids 3 ''17'' (- 2))"
  using insert_ids_distinct [of 3 "''17''" "- 2"] by simp

text \<open>The resolver of OpenTelemetry spans answers as one without a cache does, whatever value of the cache a call has loaded and however
  concurrent calls interleave their loads and stores.\<close>
theorem otel_cache_is_transparent:
  assumes "c \<in> otel_caches tidString sidString"
  shows "fst (otel_resolve tidString sidString ctx c) = otel_plain tidString sidString ctx"
  using assms by (rule otel_cache_transparent)

theorem otel_cache_is_transparent_witness:
  "fst (otel_resolve (\<lambda>t. t) (\<lambda>s. s) (Some \<lparr>os_valid = True, os_traceID = ''t'', os_spanID = ''s'', os_sampled = False\<rparr>)
     (Some ((''t'', ''s'', True), \<lparr>tc_TraceID = ''t'', tc_SpanID = ''s'', tc_Sampled = True\<rparr>)))
   = \<lparr>tc_TraceID = ''t'', tc_SpanID = ''s'', tc_Sampled = False\<rparr>"
proof -
  let ?c = "Some ((''t'', ''s'', True), \<lparr>tc_TraceID = ''t'', tc_SpanID = ''s'', tc_Sampled = True\<rparr>)"
  have "?c \<in> otel_caches (\<lambda>t. t) (\<lambda>s. s)"
    by (rule otel_caches.store [OF otel_caches.start, where ctx = "Some \<lparr>os_valid = True, os_traceID = ''t'', os_spanID = ''s'', os_sampled = True\<rparr>"
        and tc = "\<lparr>tc_TraceID = ''t'', tc_SpanID = ''s'', tc_Sampled = True\<rparr>"])
      (simp add: otel_resolve_def Let_def)
  from otel_cache_is_transparent [OF this] show ?thesis by (simp add: otel_plain_def)
qed

end
