(* ===== verification/Retry_Transport_Copy.thy ===== *)
theory Retry_Transport_Copy
  imports Retry_Transport
begin

section \<open>retry: the older copy of the transport\<close>

text \<open>
  \<open>src/go/retry/transport.go\<close> over the \<open>Backoff\<close> of \<open>src/go/retry/retry.go\<close>, translated by itself: its transport, its delays, its loop and
  its two sentinel errors, which are other values than those of the platform package although their texts are the same. Requests, responses and
  the round tripper below are those of theory \<open>Retry_Transport\<close>.
\<close>

record ('b, 'x, 'w) old_transport =
  ot_base :: "('b, 'x, 'w) round_tripper"
  ot_maxAttempts :: int
  ot_shouldRetry :: "(int \<Rightarrow> bool) option"

definition retry_ErrNonRewindableBody :: "'x err" where
  "retry_ErrNonRewindableBody = sentinel ''go/retry.ErrNonRewindableBody'' ''retry: cannot retry request with non-rewindable body''"

definition retry_ErrRetriesExceeded :: "'x err" where
  "retry_ErrRetriesExceeded = sentinel ''go/retry.ErrRetriesExceeded'' ''retry: retries exceeded''"

definition retry_Transport :: "('b, 'x, 'w) round_tripper \<Rightarrow> int \<Rightarrow> (int \<Rightarrow> bool) option \<Rightarrow>
    ('b, 'x, 'w) round_tripper option \<Rightarrow> ('b, 'x, 'w) old_transport" where
  "retry_Transport default_transport maxAttempts shouldRetry base =
     \<lparr>ot_base = (case base of None \<Rightarrow> default_transport | Some b \<Rightarrow> b),
      ot_maxAttempts = (if maxAttempts < 1 then 1 else maxAttempts),
      ot_shouldRetry = shouldRetry\<rparr>"

subsection \<open>Delays\<close>

definition retry_RetryAfterDelay :: "(string \<Rightarrow> int option) \<Rightarrow> string \<Rightarrow> int \<Rightarrow> int option" where
  "retry_RetryAfterDelay parse_time header now =
     (let h = trim_space header in
      if h = [] then None
      else (case parse_int64 h of
          Some secs \<Rightarrow> if secs < 0 then None else Some (wrap64 (secs * second))
        | None \<Rightarrow> (case parse_time h of None \<Rightarrow> None | Some date \<Rightarrow> Some (max (time_sub date now) 0))))"

definition retry_retryDelay :: "(string \<Rightarrow> int option) \<Rightarrow> 'w retry_env \<Rightarrow> nat \<Rightarrow> 'b response option \<Rightarrow> 'w \<Rightarrow> int \<times> 'w" where
  "retry_retryDelay parse_time env attempt oresp w =
     (case oresp of
        Some resp \<Rightarrow>
          if rs_StatusCode resp = 429 \<or> rs_StatusCode resp = 503 then
            (case time_now env w of (now, w1) \<Rightarrow>
             case retry_RetryAfterDelay parse_time (rs_RetryAfter resp) now of
               Some delay \<Rightarrow> (min delay maxBackoff, w1)
             | None \<Rightarrow> retry_Backoff env (int attempt) w1)
          else retry_Backoff env (int attempt) w
      | None \<Rightarrow> retry_Backoff env (int attempt) w)"

definition retry_wait :: "(string \<Rightarrow> int option) \<Rightarrow> 'w retry_env \<Rightarrow> nat \<Rightarrow> 'b response option \<Rightarrow> 'w \<Rightarrow> 'x err option \<times> 'w" where
  "retry_wait parse_time env attempt oresp w =
     (case retry_retryDelay parse_time env attempt oresp w of (d, w1) \<Rightarrow>
      case wait_timer env d w1 of
        (None, w2) \<Rightarrow> (None, w2)
      | (Some c, w2) \<Rightarrow> (Some (wrapf ''retry: '' (ctx_err c)), w2))"

subsection \<open>RoundTrip\<close>

definition retry_rewindRequestBody :: "('b, 'x, 'w) request \<Rightarrow> 'b body \<Rightarrow> 'w \<Rightarrow> ('x err + 'b body) \<times> 'w" where
  "retry_rewindRequestBody req bd w =
     (if bd \<noteq> NilBody then
        (case rq_GetBody req of
           None \<Rightarrow> (Inr bd, w)
         | Some get \<Rightarrow> (case get w of
               (Inl e, w1) \<Rightarrow> (Inl (wrapf ''retry: failed to get request body: '' e), w1)
             | (Inr bd', w1) \<Rightarrow> (Inr bd', w1)))
      else (Inr bd, w))"

definition retry_prepare :: "('b, 'x, 'w) request \<Rightarrow> nat \<Rightarrow> 'b body \<Rightarrow> 'w \<Rightarrow> ('x err + 'b body) \<times> 'w" where
  "retry_prepare req attempt bd w =
     (if attempt = 0 then (Inr bd, w)
      else if bd \<noteq> NilBody \<and> bd \<noteq> NoBody \<and> rq_GetBody req = None then (Inl retry_ErrNonRewindableBody, w)
      else retry_rewindRequestBody req bd w)"

definition retry_exhausted :: "int \<Rightarrow> 'b response option \<Rightarrow> 'x err option \<Rightarrow> ('b, 'x) rt_result" where
  "retry_exhausted maxAttempts oresp lastErr =
     (let pre = err_text (retry_ErrRetriesExceeded :: 'x err) @ '' after '' @ show_int maxAttempts @ '' attempts: '' in
      case oresp of
        Some resp \<Rightarrow> RTReturn (Some resp) (Some (errorf (pre @ ''last status '' @ show_int (rs_StatusCode resp)) [retry_ErrRetriesExceeded]))
      | None \<Rightarrow>
          (case lastErr of
             Some e \<Rightarrow> RTReturn None (Some (errorf (pre @ err_text e) [retry_ErrRetriesExceeded, e]))
           | None \<Rightarrow> RTReturn None (Some (errorf (pre @ ''%!w(<nil>)'') [retry_ErrRetriesExceeded]))))"

text \<open>One iteration of the loop, with \<open>k\<close> iterations after it.\<close>

definition retry_body :: "(string \<Rightarrow> int option) \<Rightarrow> ('x \<Rightarrow> bool option) \<Rightarrow> 'w retry_env \<Rightarrow>
    ('b response \<Rightarrow> 'w \<Rightarrow> 'w) \<Rightarrow> ('b, 'x, 'w) old_transport \<Rightarrow> ('b, 'x, 'w) request \<Rightarrow>
    nat \<Rightarrow> nat \<Rightarrow> 'b body \<times> 'w \<Rightarrow> ('b, 'x) rt_result option \<times> ('b body \<times> 'w)" where
  "retry_body parse_time perm_of env drainBody t req k attempt st =
     (case retry_prepare req attempt (fst st) (snd st) of
        (Inl e, w1) \<Rightarrow> (Some (RTReturn None (Some e)), (fst st, w1))
      | (Inr bd, w1) \<Rightarrow>
        (case ot_base t bd w1 of
           ((resp, Some lastErr), w2) \<Rightarrow>
             if IsPermanent perm_of lastErr then (Some (RTReturn None (Some (wrapf ''retry permanent error: '' lastErr))), (bd, w2))
             else if k > 0 then
               (case retry_wait parse_time env attempt (None :: 'b response option) w2 of
                  (None, w3) \<Rightarrow> (None, (bd, w3))
                | (Some waitErr, w3) \<Rightarrow> (Some (RTReturn None (Some waitErr)), (bd, w3)))
             else (Some (retry_exhausted (ot_maxAttempts t) resp (Some lastErr)), (bd, w2))
         | ((None, None), w2) \<Rightarrow> (Some RTPanic, (bd, w2))
         | ((Some resp, None), w2) \<Rightarrow>
             (case ot_shouldRetry t of
                None \<Rightarrow> (Some RTPanic, (bd, w2))
              | Some shouldRetry \<Rightarrow>
                if shouldRetry (rs_StatusCode resp) then
                  if k = 0 then (Some (retry_exhausted (ot_maxAttempts t) (Some resp) None), (bd, w2))
                  else (case retry_wait parse_time env attempt (Some resp) (drainBody resp w2) of
                     (None, w3) \<Rightarrow> (None, (bd, w3))
                   | (Some waitErr, w3) \<Rightarrow> (Some (RTReturn None (Some waitErr)), (bd, w3)))
                else (Some (RTReturn (Some resp) None), (bd, w2)))))"

fun retry_loop :: "(string \<Rightarrow> int option) \<Rightarrow> ('x \<Rightarrow> bool option) \<Rightarrow> 'w retry_env \<Rightarrow>
    ('b response \<Rightarrow> 'w \<Rightarrow> 'w) \<Rightarrow> ('b, 'x, 'w) old_transport \<Rightarrow> ('b, 'x, 'w) request \<Rightarrow>
    nat \<Rightarrow> nat \<Rightarrow> 'b body \<times> 'w \<Rightarrow> ('b, 'x) rt_result option \<times> ('b body \<times> 'w)" where
  "retry_loop pt pm env dr t req 0 attempt st = retry_body pt pm env dr t req 0 attempt st"
| "retry_loop pt pm env dr t req (Suc k) attempt st =
     (case retry_body pt pm env dr t req (Suc k) attempt st of
        (Some r, st') \<Rightarrow> (Some r, st')
      | (None, st') \<Rightarrow> retry_loop pt pm env dr t req k (Suc attempt) st')"

definition retry_RoundTrip :: "(string \<Rightarrow> int option) \<Rightarrow> ('x \<Rightarrow> bool option) \<Rightarrow> 'w retry_env \<Rightarrow>
    ('b response \<Rightarrow> 'w \<Rightarrow> 'w) \<Rightarrow> ('b, 'x, 'w) old_transport \<Rightarrow> ('b, 'x, 'w) request \<Rightarrow>
    'w \<Rightarrow> ('b, 'x) rt_result option \<times> ('b body \<times> 'w)" where
  "retry_RoundTrip pt pm env dr t req w =
     retry_loop pt pm env dr t req (nat (ot_maxAttempts t - 1)) 0 (rq_Body req, w)"

lemma retry_body_0: "fst (retry_body pt pm env dr t req 0 a st) \<noteq> None"
  by (auto simp: retry_body_def split: prod.splits sum.splits option.splits)

interpretation cpl: attempt_loop "retry_body pt pm env dr t req" "retry_loop pt pm env dr t req"
  for pt pm env dr t req
  by unfold_locales (auto simp: retry_body_0)

subsection \<open>The two transports\<close>

text \<open>Errors of the two packages that differ at most in the text before a permanent error and in the sentinel value.\<close>

definition same_error :: "'x err \<Rightarrow> 'x err \<Rightarrow> bool" where
  "same_error e e' \<longleftrightarrow> e = e'
     \<or> (\<exists>c. e = wrapf ''retry permanent error: '' c \<and> e' = wrapf ''retry: permanent error: '' c)
     \<or> (e = retry_ErrNonRewindableBody \<and> e' = ErrNonRewindableBody)
     \<or> (\<exists>m es. e = errorf m (retry_ErrRetriesExceeded # es) \<and> e' = errorf m (ErrRetriesExceeded # es))"

definition same_result :: "('b, 'x) rt_result \<Rightarrow> ('b, 'x) rt_result \<Rightarrow> bool" where
  "same_result r r' = (case (r, r') of
      (RTPanic, RTPanic) \<Rightarrow> True
    | (RTReturn resp e, RTReturn resp' e') \<Rightarrow> resp = resp' \<and> rel_option same_error e e'
    | _ \<Rightarrow> False)"

definition same_outcome :: "('b, 'x) rt_result option \<times> 's \<Rightarrow> ('b, 'x) rt_result option \<times> 's \<Rightarrow> bool" where
  "same_outcome o1 o2 \<longleftrightarrow> snd o1 = snd o2 \<and> rel_option same_result (fst o1) (fst o2)"

text \<open>The two records of one transport.\<close>

definition same_transport :: "('b, 'x, 'w) old_transport \<Rightarrow> ('b, 'x, 'w) retry_transport \<Rightarrow> bool" where
  "same_transport t t' \<longleftrightarrow> ot_base t = rt_base t' \<and> ot_maxAttempts t = rt_maxAttempts t' \<and> ot_shouldRetry t = rt_shouldRetry t'"

lemma same_error_refl [simp]: "same_error e e"
  by (simp add: same_error_def)

lemma waits_agree: "retry_wait = rt_wait"
proof -
  have "retry_RetryAfterDelay = RetryAfterDelay"
    by (intro ext) (simp add: retry_RetryAfterDelay_def RetryAfterDelay_def Let_def split: option.split)
  then show ?thesis by (intro ext) (simp only: retry_wait_def rt_wait_def retry_retryDelay_def retryDelay_def default_backoffs_agree)
qed

lemma prepares_agree:
  "rel_prod (rel_sum same_error (=)) (=) (retry_prepare req a bd w) (prepare_attempt req a bd w)"
  by (cases bd; cases "rq_GetBody req")
     (auto simp: retry_prepare_def prepare_attempt_def retry_rewindRequestBody_def rewindRequestBody_def same_error_def
       split: prod.split sum.split)

lemma exhausted_agree: "same_result (retry_exhausted m oresp oe) (exhausted m oresp oe)"
  by (auto simp: retry_exhausted_def exhausted_def same_result_def same_error_def Let_def retry_ErrRetriesExceeded_def ErrRetriesExceeded_def sentinel_def
      split: option.split)

lemma bodies_agree:
  assumes "same_transport t t'"
  shows "same_outcome (retry_body pt pm env dr t req k a st) (rt_body pt pm env dr t' req k a st)"
proof -
  obtain bd w where st: "st = (bd, w)" by fastforce
  obtain p v where p: "retry_prepare req a bd w = (p, v)" by fastforce
  obtain p' where p': "prepare_attempt req a bd w = (p', v)" and pp: "rel_sum same_error (=) p p'"
    using prepares_agree [of req a bd w] p by (cases "prepare_attempt req a bd w") auto
  note t = assms [unfolded same_transport_def]
  have perm: "same_error (wrapf ''retry permanent error: '' c) (wrapf ''retry: permanent error: '' c)" for c :: "'b err"
    by (auto simp: same_error_def)
  show ?thesis using pp
  proof cases
    case (1 e e')
    then show ?thesis using st p p' by (simp add: retry_body_def rt_body_def same_outcome_def same_result_def)
  next
    case (2 b)
    then show ?thesis using st p p' t exhausted_agree perm
      by (auto simp: retry_body_def rt_body_def same_outcome_def waits_agree same_result_def [of "RTReturn _ _"] same_result_def [of RTPanic]
          split: prod.split option.split)
  qed
qed

lemma loops_agree:
  "same_transport t t' \<Longrightarrow> same_outcome (retry_loop pt pm env dr t req k a st) (rt_loop pt pm env dr t' req k a st)"
proof (induction k arbitrary: a st)
  case 0
  then show ?case using bodies_agree by simp
next
  case (Suc k)
  then show ?case using bodies_agree [of t t' pt pm env dr req "Suc k" a st]
    by (auto simp: same_outcome_def option_rel_Some1 split: prod.splits option.splits)
qed

lemma transports_same: "same_transport (retry_Transport d m (Some f) base) (platform_Transport d m (Some f) base)"
  by (simp add: same_transport_def retry_Transport_def platform_Transport_def)

text \<open>C20. The two retrying transports are the same up to one text and their own sentinel values: with a function that decides what to retry, the older copy
  sends the same attempts, waits the same delays and ends in the same state with the same response or error as the platform's, apart from the words before a
  permanent error and which package's \<open>ErrRetriesExceeded\<close> or \<open>ErrNonRewindableBody\<close> it is. Without one they part at the first response: the
  older copy panics, the platform's returns the response.\<close>
theorem transports_agree:
  "same_outcome (retry_RoundTrip pt pm env dr (retry_Transport d m (Some f) base) req w) (RoundTrip pt pm env dr (platform_Transport d m (Some f) base) req w)
   \<and> ((case base of None \<Rightarrow> d | Some b \<Rightarrow> b) (rq_Body req) w = ((Some resp, None), w') \<longrightarrow>
      retry_RoundTrip pt pm env dr (retry_Transport d m None base) req w = (Some RTPanic, (rq_Body req, w'))
      \<and> RoundTrip pt pm env dr (platform_Transport d m None base) req w = (Some (RTReturn (Some resp) None), (rq_Body req, w')))"
proof (intro conjI impI)
  show "same_outcome (retry_RoundTrip pt pm env dr (retry_Transport d m (Some f) base) req w) (RoundTrip pt pm env dr (platform_Transport d m (Some f) base) req w)"
    using loops_agree [OF transports_same] transports_same [of d m f base]
    by (simp add: retry_RoundTrip_def RoundTrip_def same_transport_def)
next
  assume first: "(case base of None \<Rightarrow> d | Some b \<Rightarrow> b) (rq_Body req) w = ((Some resp, None), w')"
  have "retry_body pt pm env dr (retry_Transport d m None base) req k 0 (rq_Body req, w) = (Some RTPanic, (rq_Body req, w'))" for k
    using first by (simp add: retry_body_def retry_prepare_def retry_Transport_def)
  then show "retry_RoundTrip pt pm env dr (retry_Transport d m None base) req w = (Some RTPanic, (rq_Body req, w'))"
    unfolding retry_RoundTrip_def by (rule cpl.loop_stop)
  have "rt_body pt pm env dr (platform_Transport d m None base) req k 0 (rq_Body req, w) = (Some (RTReturn (Some resp) None), (rq_Body req, w'))" for k
    using first by (simp add: rt_body_def prepare_attempt_def platform_Transport_def)
  then show "RoundTrip pt pm env dr (platform_Transport d m None base) req w = (Some (RTReturn (Some resp) None), (rq_Body req, w'))"
    unfolding RoundTrip_def by (rule rtl.loop_stop)
qed

definition demo_ok :: "(unit, unit, nat) round_tripper" where
  "demo_ok bd w = ((Some \<lparr>rs_StatusCode = 200, rs_RetryAfter = [], rs_Body = None\<rparr>, None), w)"

theorem transports_agree_witness:
  "retry_RoundTrip (\<lambda>_. None) (\<lambda>_. None :: bool option) demo_env (\<lambda>_ w. w) (retry_Transport demo_ok 3 None None) \<lparr>rq_Body = NilBody, rq_GetBody = None\<rparr> 0 = (Some RTPanic, (NilBody, 0))
   \<and> RoundTrip (\<lambda>_. None) (\<lambda>_. None :: bool option) demo_env (\<lambda>_ w. w) (platform_Transport demo_ok 3 None None) \<lparr>rq_Body = NilBody, rq_GetBody = None\<rparr> 0
     = (Some (RTReturn (Some \<lparr>rs_StatusCode = 200, rs_RetryAfter = [], rs_Body = None\<rparr>) None), (NilBody, 0))"
  using transports_agree [where base = None and d = demo_ok and req = "\<lparr>rq_Body = NilBody, rq_GetBody = None\<rparr>" and w = 0 and w' = 0
      and resp = "\<lparr>rs_StatusCode = 200, rs_RetryAfter = [], rs_Body = None\<rparr>" and pt = "\<lambda>_. None" and pm = "\<lambda>_. None" and env = demo_env
      and dr = "\<lambda>_ w. w" and m = 3]
  by (simp add: demo_ok_def)

end
