(* ===== verification/Google_Auth.thy ===== *)
theory Google_Auth
  imports Retry_Transport_Copy Retry_Gcp
begin

section \<open>google/auth: clients and credentials\<close>

text \<open>
  \<open>src/go/google/auth/auth.go\<close>. What the Google libraries, the file system, the environment and the \<open>pass\<close> command do is a record of
  functions over the world. An HTTP client is the structure of its transports, whose meaning is the retrying transport of
  \<open>Retry_Transport_Copy\<close> and an authorizing transport that is a parameter. The wait for the browser's callback is a run over any sequence of
  requests, failures and choices of the scheduler. Logging is left out.
\<close>

definition envImpersonateServiceAccount :: string where "envImpersonateServiceAccount = ''GOOGLE_IMPERSONATE_SERVICE_ACCOUNT''"
definition envOAuthClient :: string where "envOAuthClient = ''GOOGLE_OAUTH_CLIENT''"
definition defaultRetryAttempts :: int where "defaultRetryAttempts = 4"
definition defaultTokenPath :: string where "defaultTokenPath = ''.kratos/tokens/google-oauth.json''"
definition defaultPassKey :: string where "defaultPassKey = ''dui/google-oauth-client''"

definition ErrNilValidator :: "'x err" where
  "ErrNilValidator = sentinel ''auth.ErrNilValidator'' ''validator or service is nil''"
definition ErrUnsafeURL :: "'x err" where
  "ErrUnsafeURL = sentinel ''auth.ErrUnsafeURL'' ''refusing to open URL: unsafe scheme or protocol''"
definition ErrInvalidPassKey :: "'x err" where
  "ErrInvalidPassKey = sentinel ''auth.ErrInvalidPassKey'' ''invalid pass key: cannot start with a hyphen''"
definition ErrNoImpersonationAccount :: "'x err" where
  "ErrNoImpersonationAccount = sentinel ''auth.ErrNoImpersonationAccount'' ''GOOGLE_IMPERSONATE_SERVICE_ACCOUNT environment variable is not set''"
definition ErrNoSubjectEmail :: "'x err" where
  "ErrNoSubjectEmail = sentinel ''auth.ErrNoSubjectEmail'' ''subjectEmail must not be empty for Domain-Wide Delegation''"
definition ErrInvalidServiceAccount :: "'x err" where
  "ErrInvalidServiceAccount = sentinel ''auth.ErrInvalidServiceAccount'' ''invalid service account email: must follow a standard email address formatting''"
definition ErrInvalidSubjectEmail :: "'x err" where
  "ErrInvalidSubjectEmail = sentinel ''auth.ErrInvalidSubjectEmail'' ''invalid subject email: must resemble a correct email pattern''"
definition ErrSubjectMismatch :: "'x err" where
  "ErrSubjectMismatch = sentinel ''auth.ErrSubjectMismatch'' ''delegated subject mismatch''"
definition ErrEmptyUserInfo :: "'x err" where
  "ErrEmptyUserInfo = sentinel ''auth.ErrEmptyUserInfo'' ''about.get returned empty user information''"
definition errNoCode :: "'x err" where
  "errNoCode = sentinel ''auth.errNoCode'' ''no code in callback''"
definition errStateMismatch :: "'x err" where
  "errStateMismatch = sentinel ''auth.errStateMismatch'' ''state token mismatch: security warning''"

subsection \<open>Transports and clients\<close>

text \<open>\<open>'k\<close> are credentials, \<open>'t\<close> the transports that a caller brings.\<close>

datatype 'k auth_option = WithAuthCredentials 'k | WithAuthScopes "string list"

datatype ('k, 't) transport =
    DefaultTransport | CustomTransport 't
  | RetryingTransport int "('k, 't) transport"
  | AuthTransport "'k auth_option" "('k, 't) transport"

record ('k, 't) http_client =
  hc_Transport :: "('k, 't) transport option"

datatype ('k, 't) client_option = WithHTTPClient "('k, 't) http_client" | WithCredentials 'k

record ('k, 't) auth_config =
  ac_targetSA :: string
  ac_subjectEmail :: string
  ac_isDWD :: bool
  ac_passKey :: string
  ac_tokenPath :: string
  ac_scopes :: "string list"
  ac_httpClient :: "('k, 't) http_client option"
  ac_isInteractive :: bool
  ac_retryDisabled :: bool
  ac_retryAttempts :: int

definition zero_config :: "('k, 't) auth_config" where
  "zero_config = \<lparr>ac_targetSA = '''', ac_subjectEmail = '''', ac_isDWD = False, ac_passKey = '''', ac_tokenPath = '''', ac_scopes = [],
     ac_httpClient = None, ac_isInteractive = False, ac_retryDisabled = False, ac_retryAttempts = 0\<rparr>"

datatype ('k, 't) auth_opt =
    WithServiceAccountImpersonation string
  | WithDomainWideDelegation string string
  | WithInteractiveConsent string string
  | WithScopes "string list"
  | WithInjectedClient "('k, 't) http_client option"
  | WithRetryAttempts int
  | WithoutRetry

fun apply_auth_opt :: "('k, 't) auth_opt \<Rightarrow> ('k, 't) auth_config \<Rightarrow> ('k, 't) auth_config" where
  "apply_auth_opt (WithServiceAccountImpersonation sa) c = c\<lparr>ac_targetSA := sa\<rparr>"
| "apply_auth_opt (WithDomainWideDelegation sa sub) c = c\<lparr>ac_targetSA := sa, ac_subjectEmail := sub, ac_isDWD := True\<rparr>"
| "apply_auth_opt (WithInteractiveConsent key path) c = c\<lparr>ac_passKey := key, ac_tokenPath := path, ac_isInteractive := True\<rparr>"
| "apply_auth_opt (WithScopes ss) c = c\<lparr>ac_scopes := ss\<rparr>"
| "apply_auth_opt (WithInjectedClient cl) c = c\<lparr>ac_httpClient := cl\<rparr>"
| "apply_auth_opt (WithRetryAttempts n) c = (if n > 0 then c\<lparr>ac_retryAttempts := n\<rparr> else c)"
| "apply_auth_opt WithoutRetry c = c\<lparr>ac_retryDisabled := True\<rparr>"

definition isRetryableStatus :: "int \<Rightarrow> bool" where
  "isRetryableStatus code \<longleftrightarrow> code = 429 \<or> code \<ge> 500"

definition retryRoundTripper :: "('k, 't) auth_config \<Rightarrow> ('k, 't) transport option \<Rightarrow> ('k, 't) transport" where
  "retryRoundTripper c base =
     RetryingTransport (if ac_retryAttempts c < 1 then defaultRetryAttempts else ac_retryAttempts c)
       (case base of None \<Rightarrow> DefaultTransport | Some b \<Rightarrow> b)"

definition wrapHTTPClient :: "('k, 't) auth_config \<Rightarrow> ('k, 't) http_client \<Rightarrow> ('k, 't) http_client" where
  "wrapHTTPClient c client =
     (if ac_retryDisabled c then client else client\<lparr>hc_Transport := Some (retryRoundTripper c (hc_Transport client))\<rparr>)"

text \<open>What a transport does with a request: the libraries' transports are parameters.\<close>

record ('k, 't, 'b, 'x, 'w) wire =
  wi_default :: "('b, 'x, 'w) request \<Rightarrow> 'w \<Rightarrow> ('b response option \<times> 'x err option) \<times> 'w"
  wi_custom :: "'t \<Rightarrow> ('b, 'x, 'w) request \<Rightarrow> 'w \<Rightarrow> ('b response option \<times> 'x err option) \<times> 'w"
  wi_authorize :: "'k auth_option \<Rightarrow> (('b, 'x, 'w) request \<Rightarrow> 'w \<Rightarrow> ('b response option \<times> 'x err option) \<times> 'w)
      \<Rightarrow> ('b, 'x, 'w) request \<Rightarrow> 'w \<Rightarrow> ('b response option \<times> 'x err option) \<times> 'w"
  wi_time :: "string \<Rightarrow> int option"
  wi_permanent :: "'x \<Rightarrow> bool option"
  wi_env :: "'w retry_env"
  wi_drain :: "'b response \<Rightarrow> 'w \<Rightarrow> 'w"

text \<open>A body that cannot be replayed is sent once by the transport below; other requests go through the retrying transport.\<close>

definition bodyAware_RoundTrip :: "('k, 't, 'b, 'x, 'w) wire \<Rightarrow> int \<Rightarrow> (('b, 'x, 'w) request \<Rightarrow> 'w \<Rightarrow> ('b response option \<times> 'x err option) \<times> 'w)
    \<Rightarrow> ('b, 'x, 'w) request \<Rightarrow> 'w \<Rightarrow> ('b response option \<times> 'x err option) \<times> 'w" where
  "bodyAware_RoundTrip wi attempts direct req w =
     (if (case rq_Body req of Body _ \<Rightarrow> True | _ \<Rightarrow> False) \<and> rq_GetBody req = None then direct req w
      else (case retry_RoundTrip (wi_time wi) (wi_permanent wi) (wi_env wi) (wi_drain wi)
            (retry_Transport (\<lambda>b. wi_default wi (req\<lparr>rq_Body := b\<rparr>)) attempts (Some isRetryableStatus) (Some (\<lambda>b. direct (req\<lparr>rq_Body := b\<rparr>)))) req w of
          (Some (RTReturn resp e), bd, w') \<Rightarrow> ((resp, e), w')
        | (_, bd, w') \<Rightarrow> ((None, None), w')))"

fun send :: "('k, 't, 'b, 'x, 'w) wire \<Rightarrow> ('k, 't) transport \<Rightarrow> ('b, 'x, 'w) request \<Rightarrow> 'w \<Rightarrow> ('b response option \<times> 'x err option) \<times> 'w" where
  "send wi DefaultTransport req w = wi_default wi req w"
| "send wi (CustomTransport t) req w = wi_custom wi t req w"
| "send wi (RetryingTransport m base) req w = bodyAware_RoundTrip wi m (send wi base) req w"
| "send wi (AuthTransport a base) req w = wi_authorize wi a (send wi base) req w"

subsection \<open>Resolving a client\<close>

definition IsValidEmail :: "string \<Rightarrow> bool" where
  "IsValidEmail email =
     (case split_on (CHR ''@'') email of
        [lcl, domain] \<Rightarrow> email \<noteq> '''' \<and> lcl \<noteq> '''' \<and> domain \<noteq> ''''
           \<and> \<not> list_ex (\<lambda>c. c \<in> set [CHR '' '', CHR 0x09, CHR 0x0A, CHR 0x0D]) email
      | _ \<Rightarrow> False)"

definition IsValidServiceAccount :: "string \<Rightarrow> bool" where
  "IsValidServiceAccount email = IsValidEmail email"

text \<open>The outside world: \<open>'k\<close> credentials, \<open>'o\<close> an OAuth configuration, \<open>'tok\<close> a token.\<close>

record ('k, 't, 'o, 'tok, 'x, 'w) auth_env =
  ae_getenv :: "string \<Rightarrow> string"
  ae_homeDir :: string
  ae_joinPath :: "string \<Rightarrow> string \<Rightarrow> string"
  ae_dir :: "string \<Rightarrow> string"
  ae_goos :: string
  ae_newCredentials :: "string \<Rightarrow> string list \<Rightarrow> string \<Rightarrow> 'w \<Rightarrow> ('x err + 'k) \<times> 'w"
  ae_newTransport :: "('k, 't) transport \<Rightarrow> 'k auth_option \<Rightarrow> 'w \<Rightarrow> 'x err option \<times> 'w"
  ae_pass :: "string \<Rightarrow> 'w \<Rightarrow> ('x err + string) \<times> 'w"
  ae_configFromJSON :: "string \<Rightarrow> string list \<Rightarrow> 'x err + 'o"
  ae_oauthClient :: "'o \<Rightarrow> 'tok \<Rightarrow> ('k, 't) http_client"
  ae_openFile :: "string \<Rightarrow> 'w \<Rightarrow> ('x err + string) \<times> 'w"
  ae_decodeToken :: "string \<Rightarrow> 'x err + 'tok"
  ae_mkdirAll :: "string \<Rightarrow> 'w \<Rightarrow> 'x err option \<times> 'w"
  ae_createFile :: "string \<Rightarrow> 'w \<Rightarrow> 'x err option \<times> 'w"
  ae_encodeToken :: "string \<Rightarrow> 'tok \<Rightarrow> 'w \<Rightarrow> 'x err option \<times> 'w"
  ae_closeFile :: "string \<Rightarrow> 'w \<Rightarrow> 'x err option \<times> 'w"
  ae_randomState :: "'w \<Rightarrow> ('x err + string) \<times> 'w"
  ae_listen :: "'w \<Rightarrow> ('x err + nat) \<times> 'w"
  ae_authCodeURL :: "'o \<Rightarrow> string \<Rightarrow> string \<Rightarrow> string"
  ae_start :: "string list \<Rightarrow> 'w \<Rightarrow> 'x err option \<times> 'w"
  ae_exchange :: "'o \<Rightarrow> string \<Rightarrow> string \<Rightarrow> 'w \<Rightarrow> ('x err + 'tok) \<times> 'w"

definition retryingClientOptions :: "('k, 't, 'o, 'tok, 'x, 'w) auth_env \<Rightarrow> ('k, 't) auth_config \<Rightarrow> 'k auth_option \<Rightarrow> 'w
    \<Rightarrow> ('x err + ('k, 't) client_option list) \<times> 'w" where
  "retryingClientOptions env cfg authOpt w =
     (case ae_newTransport env (retryRoundTripper cfg None) authOpt w of
        (Some e, w') \<Rightarrow> (Inl (wrapf ''failed to build retrying transport: '' e), w')
      | (None, w') \<Rightarrow> (Inr [WithHTTPClient \<lparr>hc_Transport = Some (AuthTransport authOpt (retryRoundTripper cfg None))\<rparr>], w'))"

definition resolveImpersonationClient :: "('k, 't, 'o, 'tok, 'x, 'w) auth_env \<Rightarrow> ('k, 't) auth_config \<Rightarrow> 'w
    \<Rightarrow> ('x err + ('k, 't) client_option list) \<times> 'w" where
  "resolveImpersonationClient env cfg w =
     (if \<not> IsValidServiceAccount (ac_targetSA cfg) then (Inl ErrInvalidServiceAccount, w)
      else if ac_isDWD cfg \<and> ac_subjectEmail cfg = '''' then (Inl ErrNoSubjectEmail, w)
      else if ac_subjectEmail cfg \<noteq> '''' \<and> \<not> IsValidEmail (ac_subjectEmail cfg) then (Inl ErrInvalidSubjectEmail, w)
      else (case ae_newCredentials env (ac_targetSA cfg) (ac_scopes cfg) (ac_subjectEmail cfg) w of
        (Inl e, w') \<Rightarrow> (Inl (wrapf ''failed to create impersonated credentials: '' e), w')
      | (Inr creds, w') \<Rightarrow>
          if ac_retryDisabled cfg then (Inr [WithCredentials creds], w')
          else retryingClientOptions env cfg (WithAuthCredentials creds) w'))"

subsection \<open>Interactive consent\<close>

text \<open>Events of the wait: a request with its \<open>state\<close> and \<open>code\<close> parameters, a failure of the callback server, the end of the context, and
  the choice of the select when several channels are ready.\<close>

datatype 'x consent_event = Request string string | ServeFails "'x err" | ContextDone ctx_error | TakeCode | TakeError | TakeDone

record 'x consent_state =
  co_codeCh :: "string option"
  co_errCh :: "'x err option"
  co_ctx :: "ctx_error option"

datatype 'x consent_outcome = GotCode string | GotError "'x err" | GotDone ctx_error

text \<open>A send to a channel of capacity one that gives up when it is full.\<close>

definition offer :: "'a \<Rightarrow> 'a option \<Rightarrow> 'a option" where
  "offer x ch = (case ch of None \<Rightarrow> Some x | Some y \<Rightarrow> Some y)"

text \<open>The handler: the status of the reply and the new channels.\<close>

definition ServeHTTP :: "string \<Rightarrow> string \<Rightarrow> string \<Rightarrow> 'x consent_state \<Rightarrow> int \<times> 'x consent_state" where
  "ServeHTTP stateToken state code s =
     (if state \<noteq> stateToken then (403, s\<lparr>co_errCh := offer errStateMismatch (co_errCh s)\<rparr>)
      else if code = '''' then (400, s\<lparr>co_errCh := offer errNoCode (co_errCh s)\<rparr>)
      else (200, s\<lparr>co_codeCh := offer code (co_codeCh s)\<rparr>))"

fun consent_step :: "string \<Rightarrow> 'x consent_event \<Rightarrow> 'x consent_state \<Rightarrow> 'x consent_state + 'x consent_outcome" where
  "consent_step token (Request state code) s = Inl (snd (ServeHTTP token state code s))"
| "consent_step token (ServeFails e) s = Inl (s\<lparr>co_errCh := offer e (co_errCh s)\<rparr>)"
| "consent_step token (ContextDone c) s = Inl (s\<lparr>co_ctx := offer c (co_ctx s)\<rparr>)"
| "consent_step token TakeCode s = (case co_codeCh s of None \<Rightarrow> Inl s | Some c \<Rightarrow> Inr (GotCode c))"
| "consent_step token TakeError s = (case co_errCh s of None \<Rightarrow> Inl s | Some e \<Rightarrow> Inr (GotError e))"
| "consent_step token TakeDone s = (case co_ctx s of None \<Rightarrow> Inl s | Some c \<Rightarrow> Inr (GotDone c))"

fun consent_run :: "string \<Rightarrow> 'x consent_event list \<Rightarrow> 'x consent_state \<Rightarrow> 'x consent_outcome option" where
  "consent_run token [] s = None"
| "consent_run token (e # es) s = (case consent_step token e s of Inl s' \<Rightarrow> consent_run token es s' | Inr r \<Rightarrow> Some r)"

definition quiet_channels :: "'x consent_state" where
  "quiet_channels = \<lparr>co_codeCh = None, co_errCh = None, co_ctx = None\<rparr>"

definition browser_command :: "string \<Rightarrow> string \<Rightarrow> string list" where
  "browser_command goos url =
     (if goos = ''darwin'' then [''open'', url]
      else if goos = ''windows'' then [''rundll32'', ''url.dll,FileProtocolHandler'', url] else [''xdg-open'', url])"

definition openBrowser :: "('k, 't, 'o, 'tok, 'x, 'w) auth_env \<Rightarrow> string \<Rightarrow> 'w \<Rightarrow> 'x err option \<times> 'w" where
  "openBrowser env url w =
     (if \<not> has_prefix url ''https://'' then (Some ErrUnsafeURL, w)
      else (case ae_start env (browser_command (ae_goos env) url) w of
        (Some e, w') \<Rightarrow> (Some (wrapf ''start browser process: '' e), w') | (None, w') \<Rightarrow> (None, w')))"

text \<open>\<open>events\<close> is what happens while the flow waits: None when it waits for ever.\<close>

definition consentFlow :: "('k, 't, 'o, 'tok, 'x, 'w) auth_env \<Rightarrow> 'o \<Rightarrow> 'x consent_event list \<Rightarrow> 'w \<Rightarrow> (('x err + 'tok) \<times> 'w) option" where
  "consentFlow env cfg events w =
     (case ae_randomState env w of
        (Inl e, w1) \<Rightarrow> Some (Inl (wrapf ''generate secure state token: '' e), w1)
      | (Inr token, w1) \<Rightarrow>
         (case ae_listen env w1 of
            (Inl e, w2) \<Rightarrow> Some (Inl (wrapf ''start callback server: '' e), w2)
          | (Inr port, w2) \<Rightarrow>
             let redirect = ''http://localhost:'' @ show_nat port in
             (case openBrowser env (ae_authCodeURL env cfg redirect token) w2 of (_, w3) \<Rightarrow>
               (case consent_run token events quiet_channels of
                  None \<Rightarrow> None
                | Some (GotError e) \<Rightarrow> Some (Inl (wrapf ''callback error: '' e), w3)
                | Some (GotDone c) \<Rightarrow> Some (Inl (wrapf ''consent context cancelled: '' (ctx_err c)), w3)
                | Some (GotCode code) \<Rightarrow>
                    (case ae_exchange env cfg redirect code w3 of
                       (Inl e, w4) \<Rightarrow> Some (Inl (wrapf ''exchange code for token: '' e), w4)
                     | (Inr tok, w4) \<Rightarrow> Some (Inr tok, w4))))))"

definition resolveCredentials :: "('k, 't, 'o, 'tok, 'x, 'w) auth_env \<Rightarrow> string \<Rightarrow> 'w \<Rightarrow> ('x err + string) \<times> 'w" where
  "resolveCredentials env passKey w =
     (if ae_getenv env envOAuthClient \<noteq> '''' then (Inr (ae_getenv env envOAuthClient), w)
      else if has_prefix passKey ''-'' then (Inl ErrInvalidPassKey, w)
      else (case ae_pass env passKey w of
        (Inl e, w') \<Rightarrow> (Inl (wrapf (''set GOOGLE_OAUTH_CLIENT or run: pass insert '' @ passKey @ '': '') e), w')
      | (Inr out, w') \<Rightarrow> (Inr out, w')))"

definition loadToken :: "('k, 't, 'o, 'tok, 'x, 'w) auth_env \<Rightarrow> string \<Rightarrow> 'w \<Rightarrow> ('x err + 'tok) \<times> 'w" where
  "loadToken env path w =
     (case ae_openFile env path w of
        (Inl e, w') \<Rightarrow> (Inl (wrapf ''loadToken: '' e), w')
      | (Inr content, w') \<Rightarrow> (case ae_decodeToken env content of Inl e \<Rightarrow> (Inl (wrapf ''decode token: '' e), w') | Inr tok \<Rightarrow> (Inr tok, w')))"

definition saveToken :: "('k, 't, 'o, 'tok, 'x, 'w) auth_env \<Rightarrow> string \<Rightarrow> 'tok \<Rightarrow> 'w \<Rightarrow> 'x err option \<times> 'w" where
  "saveToken env path tok w =
     (case ae_mkdirAll env (ae_dir env path) w of
        (Some e, w1) \<Rightarrow> (Some (wrapf ''create token dir: '' e), w1)
      | (None, w1) \<Rightarrow>
         (case ae_createFile env path w1 of
            (Some e, w2) \<Rightarrow> (Some (wrapf ''create token file: '' e), w2)
          | (None, w2) \<Rightarrow>
             (case ae_encodeToken env path tok w2 of
                (Some e, w3) \<Rightarrow> (Some (wrapf ''encode token: '' e), snd (ae_closeFile env path w3))
              | (None, w3) \<Rightarrow>
                 (case ae_closeFile env path w3 of
                    (Some e, w4) \<Rightarrow> (Some (wrapf ''close token file: '' e), w4) | (None, w4) \<Rightarrow> (None, w4)))))"

definition interactiveConsentClient :: "('k, 't, 'o, 'tok, 'x, 'w) auth_env \<Rightarrow> string \<Rightarrow> string \<Rightarrow> string list \<Rightarrow> 'x consent_event list \<Rightarrow> 'w
    \<Rightarrow> (('x err + ('k, 't) http_client) \<times> 'w) option" where
  "interactiveConsentClient env passKey tokenPath scopes events w =
     (case resolveCredentials env passKey w of
        (Inl e, w1) \<Rightarrow> Some (Inl (wrapf ''oauth: resolve credentials: '' e), w1)
      | (Inr credsJSON, w1) \<Rightarrow>
         (case ae_configFromJSON env credsJSON scopes of
            Inl e \<Rightarrow> Some (Inl (wrapf ''oauth: parse client credentials: '' e), w1)
          | Inr cfg \<Rightarrow>
             (case loadToken env tokenPath w1 of
                (Inr tok, w2) \<Rightarrow> Some (Inr (ae_oauthClient env cfg tok), w2)
              | (Inl e, w2) \<Rightarrow>
                 (case consentFlow env cfg events w2 of
                    None \<Rightarrow> None
                  | Some (Inl e, w3) \<Rightarrow> Some (Inl (wrapf ''oauth: consent flow: '' e), w3)
                  | Some (Inr tok, w3) \<Rightarrow>
                     (case saveToken env tokenPath tok w3 of (_, w4) \<Rightarrow> Some (Inr (ae_oauthClient env cfg tok), w4))))))"

definition resolveInteractiveClient :: "('k, 't, 'o, 'tok, 'x, 'w) auth_env \<Rightarrow> ('k, 't) auth_config \<Rightarrow> 'x consent_event list \<Rightarrow> 'w
    \<Rightarrow> (('x err + ('k, 't) client_option list) \<times> 'w) option" where
  "resolveInteractiveClient env cfg events w =
     (let passKey = (if ac_passKey cfg = '''' then defaultPassKey else ac_passKey cfg);
          tokenPath = (if ac_tokenPath cfg = '''' then ae_joinPath env (ae_homeDir env) defaultTokenPath else ac_tokenPath cfg) in
      (case interactiveConsentClient env passKey tokenPath (ac_scopes cfg) events w of
         None \<Rightarrow> None
       | Some (Inl e, w') \<Rightarrow> Some (Inl e, w')
       | Some (Inr client, w') \<Rightarrow> Some (Inr [WithHTTPClient (wrapHTTPClient cfg client)], w')))"

definition ResolveClient :: "('k, 't, 'o, 'tok, 'x, 'w) auth_env \<Rightarrow> string list \<Rightarrow> ('k, 't) auth_opt list \<Rightarrow> 'x consent_event list \<Rightarrow> 'w
    \<Rightarrow> (('x err + ('k, 't) client_option list) \<times> 'w) option" where
  "ResolveClient env defaultScopes opts events w =
     (let cfg = fold apply_auth_opt opts zero_config in
      case ac_httpClient cfg of
        Some client \<Rightarrow> Some (Inr [WithHTTPClient (wrapHTTPClient cfg client)], w)
      | None \<Rightarrow>
          let cfg1 = (if ac_targetSA cfg = '''' \<and> \<not> ac_isInteractive cfg then cfg\<lparr>ac_targetSA := ae_getenv env envImpersonateServiceAccount\<rparr> else cfg) in
          if ac_isDWD cfg1 \<and> ac_targetSA cfg1 = '''' then Some (Inl ErrNoImpersonationAccount, w)
          else
            let cfg2 = (if ac_scopes cfg1 = [] then cfg1\<lparr>ac_scopes := defaultScopes\<rparr> else cfg1) in
            if ac_targetSA cfg2 \<noteq> '''' then Some (resolveImpersonationClient env cfg2 w)
            else if ac_isInteractive cfg2 then resolveInteractiveClient env cfg2 events w
            else if ac_retryDisabled cfg2 then Some (Inr [], w)
            else Some (retryingClientOptions env cfg2 (WithAuthScopes (ac_scopes cfg2)) w))"

subsection \<open>Validation of delegated access\<close>

text \<open>The Drive calls: the root folder, and the user of \<open>about.get\<close> (None: a reply without a user).\<close>

record ('x, 'w) delegated_drive =
  dd_getRoot :: "'w \<Rightarrow> 'x err option \<times> 'w"
  dd_about :: "'w \<Rightarrow> ('x err + string option) \<times> 'w"
  dd_time :: "string \<Rightarrow> int option"
  dd_env :: "'w retry_env"
  dd_foreign :: "'x foreign"

definition get_root :: "('x, 'w) delegated_drive \<Rightarrow> 'w \<Rightarrow> 'x err option \<times> 'w" where
  "get_root d w = (case dd_getRoot d w of (None, w') \<Rightarrow> (None, w') | (Some e, w') \<Rightarrow> (Some (wrapf ''files.get root: '' e), w'))"

definition about_user :: "('x, 'w) delegated_drive \<Rightarrow> 'w \<Rightarrow> ('x err + string) \<times> 'w" where
  "about_user d w =
     (case dd_about d w of
        (Inl e, w') \<Rightarrow> (Inl (wrapf ''about.get: '' e), w')
      | (Inr None, w') \<Rightarrow> (Inl ErrEmptyUserInfo, w')
      | (Inr (Some email), w') \<Rightarrow> (Inr email, w'))"

text \<open>\<open>v\<close> is None for a nil validator or a validator without a service.\<close>

definition ValidateAccess :: "('x, 'w) delegated_drive option \<Rightarrow> 'w \<Rightarrow> 'x err option \<times> 'w" where
  "ValidateAccess v w =
     (case v of
        None \<Rightarrow> (Some (wrapf ''DWD validation failed: '' ErrNilValidator), w)
      | Some d \<Rightarrow>
         (case WithRetry (dd_time d) (dd_env d) (dd_foreign d) (get_root d) [] w of
            (Some (Inl e), w') \<Rightarrow> (Some (wrapf ''DWD validation failed: '' e), w')
          | (_, w') \<Rightarrow> (None, w')))"

definition ValidateAccessAs :: "(string \<Rightarrow> string \<Rightarrow> bool) \<Rightarrow> ('x, 'w) delegated_drive option \<Rightarrow> string \<Rightarrow> 'w \<Rightarrow> 'x err option \<times> 'w" where
  "ValidateAccessAs equalFold v expectedEmail w =
     (case v of
        None \<Rightarrow> (Some (wrapf ''DWD validation failed: '' ErrNilValidator), w)
      | Some d \<Rightarrow>
         if expectedEmail = '''' then (Some (wrapf ''DWD validation failed: '' ErrNoSubjectEmail), w)
         else (case WithRetryVal (dd_time d) (dd_env d) (dd_foreign d) (about_user d) [] w of
            (Some (Inl e), w') \<Rightarrow> (Some (wrapf ''DWD validation failed: '' e), w')
          | (Some (Inr effectiveEmail), w') \<Rightarrow>
              if \<not> equalFold effectiveEmail expectedEmail then
                (Some (errorf (''effective user '' @ go_quote effectiveEmail @ '' does not match expected '' @ go_quote expectedEmail @ '': ''
                   @ err_text (ErrSubjectMismatch :: 'x err)) [ErrSubjectMismatch]), w')
              else ValidateAccess v w'
          | (None, w') \<Rightarrow> (None, w')))"

subsection \<open>The callback\<close>

text \<open>The code of the first request with the right state and a code.\<close>

fun first_callback :: "string \<Rightarrow> 'x consent_event list \<Rightarrow> string option" where
  "first_callback token [] = None"
| "first_callback token (Request state code # es) = (if state = token \<and> code \<noteq> '''' then Some code else first_callback token es)"
| "first_callback token (_ # es) = first_callback token es"

lemma consent_got_code:
  "consent_run token es s = Some (GotCode c) \<Longrightarrow> (case co_codeCh s of Some c' \<Rightarrow> c = c' | None \<Rightarrow> first_callback token es = Some c)"
proof (induction es arbitrary: s)
  case (Cons e es)
  then show ?case
    by (cases e) (auto simp: ServeHTTP_def offer_def split: option.splits if_splits dest!: Cons.IH)
qed simp

lemma first_callback_split:
  "first_callback token es = Some c \<longleftrightarrow>
   (\<exists>a b. es = a @ Request token c # b \<and> c \<noteq> '''' \<and> first_callback token a = None)"
proof (induction es)
  case (Cons e es)
  show ?case
  proof (cases "\<exists>code. e = Request token code \<and> code \<noteq> ''''")
    case True
    then obtain code where e: "e = Request token code" "code \<noteq> ''''" by blast
    have "code = c \<Longrightarrow> \<exists>a b. e # es = a @ Request token c # b \<and> c \<noteq> '''' \<and> first_callback token a = None"
      using e by (intro exI [of _ "[]"] exI [of _ es]) simp
    then show ?thesis using e by (auto simp: Cons_eq_append_conv)
  next
    case False
    then have same: "first_callback token (e # xs) = first_callback token xs" for xs by (cases e) auto
    have "(\<exists>a b. e # es = a @ Request token c # b \<and> c \<noteq> '''' \<and> first_callback token a = None)
        \<longleftrightarrow> (\<exists>a b. es = a @ Request token c # b \<and> c \<noteq> '''' \<and> first_callback token a = None)"
      using False by (auto simp: Cons_eq_append_conv same) (metis same)
    then show ?thesis using Cons.IH same by simp
  qed
qed simp

text \<open>Nothing but the callback happens: the flow gets its code.\<close>

lemma consent_quiet_callback: "c \<noteq> '''' \<Longrightarrow> consent_run token [Request token c, TakeCode] quiet_channels = Some (GotCode c)"
  by (simp add: ServeHTTP_def quiet_channels_def offer_def)

lemma openBrowser_starts: "openBrowser env url w = (r, w') \<Longrightarrow> has_prefix url ''https://'' \<or> (r = Some ErrUnsafeURL \<and> w' = w)"
  by (auto simp: openBrowser_def split: if_splits)

subsection \<open>Retries of a client\<close>

fun retries_in :: "('k, 't) transport \<Rightarrow> bool" where
  "retries_in (RetryingTransport m base) = (m \<ge> 1)"
| "retries_in (AuthTransport a base) = retries_in base"
| "retries_in _ = False"

definition option_retries :: "('k, 't) client_option \<Rightarrow> bool" where
  "option_retries o' = (case o' of WithCredentials k \<Rightarrow> False
     | WithHTTPClient c \<Rightarrow> (case hc_Transport c of None \<Rightarrow> False | Some t \<Rightarrow> retries_in t))"

lemma retryRoundTripper_retries [simp]: "retries_in (retryRoundTripper c base)"
  by (simp add: retryRoundTripper_def defaultRetryAttempts_def)

lemma wrapped_retries: "\<not> ac_retryDisabled c \<Longrightarrow> option_retries (WithHTTPClient (wrapHTTPClient c client))"
  by (simp add: option_retries_def wrapHTTPClient_def)

lemma retrying_options: "retryingClientOptions env cfg a w = (Inr cos, w') \<Longrightarrow> cos \<noteq> [] \<and> list_all option_retries cos"
  by (auto simp: retryingClientOptions_def option_retries_def split: prod.splits option.splits)

lemma impersonation_options:
  "resolveImpersonationClient env cfg w = (Inr cos, w') \<Longrightarrow>
   IsValidEmail (ac_targetSA cfg) \<and> (ac_isDWD cfg \<longrightarrow> IsValidEmail (ac_subjectEmail cfg))
   \<and> (ac_subjectEmail cfg \<noteq> '''' \<longrightarrow> IsValidEmail (ac_subjectEmail cfg)) \<and> cos \<noteq> []
   \<and> (\<not> ac_retryDisabled cfg \<longrightarrow> list_all option_retries cos)"
  by (auto simp: resolveImpersonationClient_def IsValidServiceAccount_def split: if_splits prod.splits sum.splits dest: retrying_options)

lemma interactive_options:
  "resolveInteractiveClient env cfg events w = Some (Inr cos, w') \<Longrightarrow> cos \<noteq> [] \<and> (\<not> ac_retryDisabled cfg \<longrightarrow> list_all option_retries cos)"
  by (auto simp: resolveInteractiveClient_def Let_def wrapped_retries split: option.splits prod.splits sum.splits)

text \<open>The service account of a configuration: its own, or without an interactive mode that of the environment.\<close>

definition effective_account :: "('k, 't, 'o, 'tok, 'x, 'w) auth_env \<Rightarrow> ('k, 't) auth_config \<Rightarrow> string" where
  "effective_account env cfg =
     (if ac_targetSA cfg = '''' \<and> \<not> ac_isInteractive cfg then ae_getenv env envImpersonateServiceAccount else ac_targetSA cfg)"

lemma resolved_client:
  assumes "ResolveClient env ds opts events w = Some (Inr cos, w')"
  defines "cfg \<equiv> fold apply_auth_opt opts zero_config"
  shows "(\<not> ac_retryDisabled cfg \<longrightarrow> cos \<noteq> [] \<and> list_all option_retries cos)
    \<and> (ac_httpClient cfg = None \<longrightarrow> (effective_account env cfg \<noteq> '''' \<longrightarrow> IsValidEmail (effective_account env cfg))
         \<and> (ac_isDWD cfg \<longrightarrow> effective_account env cfg \<noteq> '''' \<and> IsValidEmail (ac_subjectEmail cfg)))"
proof (cases "ac_httpClient cfg")
  case (Some c)
  then show ?thesis using assms wrapped_retries [of cfg c] by (auto simp: ResolveClient_def Let_def)
next
  case None
  let ?c1 = "if ac_targetSA cfg = '''' \<and> \<not> ac_isInteractive cfg then cfg\<lparr>ac_targetSA := ae_getenv env envImpersonateServiceAccount\<rparr> else cfg"
  let ?c2 = "if ac_scopes ?c1 = [] then ?c1\<lparr>ac_scopes := ds\<rparr> else ?c1"
  have sel: "ac_targetSA ?c2 = effective_account env cfg" "ac_subjectEmail ?c2 = ac_subjectEmail cfg" "ac_isDWD ?c2 = ac_isDWD cfg"
    "ac_retryDisabled ?c2 = ac_retryDisabled cfg" "ac_isInteractive ?c2 = ac_isInteractive cfg"
    by (auto simp: effective_account_def)
  have run: "(if ac_isDWD ?c1 \<and> ac_targetSA ?c1 = '''' then Some (Inl ErrNoImpersonationAccount, w)
     else if ac_targetSA ?c2 \<noteq> '''' then Some (resolveImpersonationClient env ?c2 w)
     else if ac_isInteractive ?c2 then resolveInteractiveClient env ?c2 events w
     else if ac_retryDisabled ?c2 then Some (Inr [], w)
     else Some (retryingClientOptions env ?c2 (WithAuthScopes (ac_scopes ?c2)) w)) = Some (Inr cos, w')"
    using assms(1) None unfolding ResolveClient_def Let_def cfg_def by simp
  have dwd: "ac_isDWD cfg \<Longrightarrow> effective_account env cfg \<noteq> ''''"
    using run by (auto simp: effective_account_def split: if_splits)
  show ?thesis
  proof (cases "effective_account env cfg = ''''")
    case True
    then have nd: "\<not> ac_isDWD cfg" using dwd by auto
    have t: "ac_targetSA ?c2 = ''''" by (rule trans [OF sel(1) True])
    show ?thesis using run True None nd t interactive_options [of env ?c2 events w cos w'] retrying_options [of env ?c2 "WithAuthScopes (ac_scopes ?c2)" w cos w']
      unfolding sel(2-5) by (simp split: if_splits)
  next
    case False
    then have "resolveImpersonationClient env ?c2 w = (Inr cos, w')" using run unfolding sel by (auto split: if_splits)
    from impersonation_options [OF this] show ?thesis using False None unfolding sel by auto
  qed
qed

subsection \<open>Delegated access\<close>

text \<open>A retried operation that succeeds has succeeded in its last call.\<close>

lemma gcp_body_success: "gcp_body pt env ops cfg operation k a w = (Some (Inr v), w') \<Longrightarrow> \<exists>w1. operation w1 = (Inr v, w')"
  by (auto simp: gcp_body_def Let_def split: prod.splits option.splits sum.splits if_splits)

lemma retried_success: "WithRetryVal pt env ops operation opts w = (Some (Inr v), w') \<Longrightarrow> \<exists>w1. operation w1 = (Inr v, w')"
proof -
  have "gcp_loop pt env ops cfg operation k a w = (Some (Inr v), w') \<Longrightarrow> \<exists>w1. operation w1 = (Inr v, w')" for cfg k a w
  proof (induction k arbitrary: a w)
    case (Suc k)
    then show ?case by (auto split: prod.splits option.splits dest: gcp_body_success)
  qed (auto dest: gcp_body_success)
  then show "WithRetryVal pt env ops operation opts w = (Some (Inr v), w') \<Longrightarrow> \<exists>w1. operation w1 = (Inr v, w')"
    by (auto simp: WithRetryVal_def Let_def)
qed

lemma retried_returns: "fst (WithRetryVal pt env ops operation opts w) \<noteq> None"
proof -
  have "fst (gcp_loop pt env ops cfg operation k a w) \<noteq> None" for cfg k a w
  proof (induction k arbitrary: a w)
    case (Suc k)
    then show ?case by (auto split: prod.splits option.splits)
  qed (use gcp_body_0 in simp)
  then show ?thesis by (simp add: WithRetryVal_def Let_def)
qed

lemma validated_access: "ValidateAccess (Some d) w = (None, w') \<Longrightarrow> \<exists>w1. dd_getRoot d w1 = (None, w')"
proof -
  let ?f = "\<lambda>w. case get_root d w of (None, w') \<Rightarrow> (Inr (), w') | (Some e, w') \<Rightarrow> (Inl e, w')"
  assume "ValidateAccess (Some d) w = (None, w')"
  then obtain r where "WithRetryVal (dd_time d) (dd_env d) (dd_foreign d) ?f [] w = (r, w')" "\<nexists>e. r = Some (Inl e)"
    by (auto simp: ValidateAccess_def WithRetry_def split: prod.splits option.splits sum.splits)
  moreover have "r \<noteq> None" using calculation retried_returns [of "dd_time d" "dd_env d" "dd_foreign d" ?f "[]" w] by auto
  ultimately have "WithRetryVal (dd_time d) (dd_env d) (dd_foreign d) ?f [] w = (Some (Inr ()), w')"
    by (cases r) (auto split: sum.splits, metis old.unit.exhaust sum.exhaust)
  from retried_success [OF this] show ?thesis by (auto simp: get_root_def split: prod.splits option.splits)
qed

lemma about_user_Inr: "about_user d w = (Inr email, w') \<Longrightarrow> dd_about d w = (Inr (Some email), w')"
  by (auto simp: about_user_def split: prod.splits sum.splits option.splits)

text \<open>A request of anyone else to the port fails the flow, even after the right callback has arrived, when the select takes the error.\<close>

lemma stray_request_fails_consent:
  "s \<noteq> token \<Longrightarrow> code \<noteq> '''' \<Longrightarrow>
   consent_run token [Request token code, Request s code', TakeError] quiet_channels = Some (GotError errStateMismatch)"
  by (simp add: ServeHTTP_def quiet_channels_def offer_def)

text \<open>With \<open>WithoutRetry\<close> and no other mode, the scopes of the caller are lost.\<close>

lemma scopes_lost_without_retry:
  "ae_getenv env envImpersonateServiceAccount = '''' \<Longrightarrow> ResolveClient env ds [WithScopes ss, WithoutRetry] events w = Some (Inr [], w)"
  by (simp add: ResolveClient_def zero_config_def Let_def)

subsection \<open>Properties\<close>

text \<open>C28. The consent flow exchanges only the code of the first callback that carries its state token: whatever else is requested, fails or is chosen,
  a code that the flow takes is the one of the first request with this token and a code, and every code requested before it with another token is ignored.\<close>
theorem consent_takes_own_callback:
  assumes "consent_run token es quiet_channels = Some (GotCode c)"
  shows "\<exists>a b. es = a @ Request token c # b \<and> c \<noteq> '''' \<and> first_callback token a = None"
  using consent_got_code [OF assms] first_callback_split [of token es c] by (simp add: quiet_channels_def)

theorem consent_takes_own_callback_witness:
  "\<exists>a b. [Request ''forged'' ''x'', Request ''t'' ''c'', Request ''t'' ''d'', TakeCode] = a @ Request ''t'' ''c'' # b \<and> first_callback ''t'' a = None"
  using consent_takes_own_callback [of "''t''" "[Request ''forged'' ''x'', Request ''t'' ''c'', Request ''t'' ''d'', TakeCode]" "''c''"]
  by (auto simp: ServeHTTP_def quiet_channels_def offer_def)

text \<open>Without \<open>WithoutRetry\<close>, \<open>ResolveClient\<close> succeeds only with at least one option, and every option it returns is a client
  whose transport retries transient failures at least once, in all modes; without an injected client an account to impersonate, also the one of the environment,
  is a valid address, and delegation always has an account and a valid subject.\<close>
theorem resolved_client_retries_and_is_valid:
  assumes "ResolveClient env ds opts events w = Some (Inr cos, w')"
  shows "let cfg = fold apply_auth_opt opts zero_config in
    (\<not> ac_retryDisabled cfg \<longrightarrow> cos \<noteq> [] \<and> list_all option_retries cos)
    \<and> (ac_httpClient cfg = None \<longrightarrow> (effective_account env cfg \<noteq> '''' \<longrightarrow> IsValidEmail (effective_account env cfg))
         \<and> (ac_isDWD cfg \<longrightarrow> effective_account env cfg \<noteq> '''' \<and> IsValidEmail (ac_subjectEmail cfg)))"
  using resolved_client [OF assms] by (simp add: Let_def)

text \<open>A world in which everything works.\<close>

definition friendly_env :: "(string, string, string, string, 'x, nat) auth_env" where
  "friendly_env = \<lparr>ae_getenv = (\<lambda>k. if k = envImpersonateServiceAccount then ''sa@p'' else ''''), ae_homeDir = ''/home'', ae_joinPath = (\<lambda>a b. a @ ''/'' @ b),
     ae_dir = (\<lambda>p. p), ae_goos = ''linux'', ae_newCredentials = (\<lambda>t ss sub w. (Inr t, Suc w)), ae_newTransport = (\<lambda>t a w. (None, Suc w)),
     ae_pass = (\<lambda>k w. (Inr k, w)), ae_configFromJSON = (\<lambda>j ss. Inr j), ae_oauthClient = (\<lambda>c t. \<lparr>hc_Transport = None\<rparr>), ae_openFile = (\<lambda>p w. (Inr p, w)),
     ae_decodeToken = (\<lambda>c. Inr c), ae_mkdirAll = (\<lambda>p w. (None, w)), ae_createFile = (\<lambda>p w. (None, w)), ae_encodeToken = (\<lambda>p t w. (None, w)),
     ae_closeFile = (\<lambda>p w. (None, w)), ae_randomState = (\<lambda>w. (Inr ''s'', w)), ae_listen = (\<lambda>w. (Inr 80, w)), ae_authCodeURL = (\<lambda>c r s. ''https://'' @ r),
     ae_start = (\<lambda>c w. (None, w)), ae_exchange = (\<lambda>c r k w. (Inr k, w))\<rparr>"

theorem resolved_client_retries_and_is_valid_witness:
  "list_all option_retries [WithHTTPClient \<lparr>hc_Transport = Some (AuthTransport (WithAuthCredentials ''sa@p'') (RetryingTransport 4 DefaultTransport))\<rparr> :: (string, string) client_option]"
proof -
  have "ResolveClient (friendly_env :: (_, _, _, _, unit, _) auth_env) [''s''] [] [] 0
      = Some (Inr [WithHTTPClient \<lparr>hc_Transport = Some (AuthTransport (WithAuthCredentials ''sa@p'') (RetryingTransport 4 DefaultTransport))\<rparr>], 2)"
    by code_simp
  from resolved_client_retries_and_is_valid [OF this] show ?thesis by (simp add: Let_def zero_config_def)
qed

text \<open>\<open>ValidateAccessAs\<close> succeeds only when Drive has named the user of the credentials, this user is the expected one up to case, and afterwards the
  root folder of this user could be read; a missing service, an empty address, a reply without a user or another user fail.\<close>
theorem validated_as_expected:
  assumes "ValidateAccessAs equalFold v expected w = (None, w')"
  shows "\<exists>d email w1 w2 w3. v = Some d \<and> expected \<noteq> '''' \<and> dd_about d w1 = (Inr (Some email), w2) \<and> equalFold email expected
    \<and> ValidateAccess v w2 = (None, w') \<and> dd_getRoot d w3 = (None, w')"
proof -
  obtain d where v: "v = Some d" using assms by (cases v) (auto simp: ValidateAccessAs_def)
  obtain email w2 where r: "WithRetryVal (dd_time d) (dd_env d) (dd_foreign d) (about_user d) [] w = (Some (Inr email), w2)"
    and ok: "equalFold email expected" "ValidateAccess v w2 = (None, w')" "expected \<noteq> ''''"
    using assms v retried_returns [of "dd_time d" "dd_env d" "dd_foreign d" "about_user d" "[]" w]
    by (auto simp: ValidateAccessAs_def split: if_splits prod.splits option.splits sum.splits)
  from retried_success [OF r] obtain w1 where "dd_about d w1 = (Inr (Some email), w2)" by (auto dest: about_user_Inr)
  then show ?thesis using v ok validated_access [of d w2 w'] by blast
qed

text \<open>A Drive service whose calls succeed for one user.\<close>

definition drive_of :: "string \<Rightarrow> (int, unit) delegated_drive" where
  "drive_of email = \<lparr>dd_getRoot = (\<lambda>w. (None, w)), dd_about = (\<lambda>w. (Inr (Some email), w)), dd_time = (\<lambda>s. None),
     dd_env = \<lparr>poll_ctx = (\<lambda>w. (None, w)), time_now = (\<lambda>w. (0, w)), rand_int64n = (\<lambda>n w. (0, w)), wait_timer = (\<lambda>d w. (None, w))\<rparr>,
     dd_foreign = demo_foreign\<rparr>"

theorem validated_as_expected_witness:
  "\<exists>d email. Some (drive_of ''a@b'') = Some d \<and> dd_about d () = (Inr (Some email), ()) \<and> email = ''a@b''"
proof -
  have "ValidateAccessAs (=) (Some (drive_of ''a@b'')) ''a@b'' () = (None, ())"
    by (simp add: ValidateAccessAs_def ValidateAccess_def WithRetry_def WithRetryVal_def gcp_config_of_def Let_def gcp_body_def drive_of_def about_user_def get_root_def
        defaultMaxAttempts_def numeral_eq_Suc)
  from validated_as_expected [OF this] show ?thesis by auto
qed

end
