(* ===== verification/Google_Cloud.thy ===== *)
theory Google_Cloud
  imports Google_Auth Drive_Service
begin

section \<open>google/resourcemanager, google/serviceusage and google/client\<close>

text \<open>
  \<open>src/go/google/{resourcemanager,serviceusage}/service.go\<close> and \<open>src/go/google/client/client.go\<close>. The APIs are records of functions over
  the world. Both services poll with the same loop: a wait that the context can interrupt, then a check that may settle the result;
  \<open>poll_loop\<close> is an instance of the bounded loop of \<open>Retry\<close>. Logging is left out.
\<close>

subsection \<open>Polling\<close>

text \<open>One round: \<open>wait\<close> sleeps, \<open>check\<close> returns the result (None for success) once it is settled, \<open>k\<close> rounds are left after this one.\<close>

definition poll_body :: "('w \<Rightarrow> ctx_error option \<times> 'w) \<Rightarrow> (ctx_error \<Rightarrow> 'x err) \<Rightarrow> ('w \<Rightarrow> 'x err option option \<times> 'w) \<Rightarrow> 'x err
    \<Rightarrow> nat \<Rightarrow> nat \<Rightarrow> 'w \<Rightarrow> 'x err option option \<times> 'w" where
  "poll_body wait interrupted check timeout k a w =
     (case wait w of
        (Some c, w1) \<Rightarrow> (Some (Some (interrupted c)), w1)
      | (None, w1) \<Rightarrow>
         (case check w1 of
            (Some r, w2) \<Rightarrow> (Some r, w2)
          | (None, w2) \<Rightarrow> (if k = 0 then Some (Some timeout) else None, w2)))"

fun poll_loop :: "('w \<Rightarrow> ctx_error option \<times> 'w) \<Rightarrow> (ctx_error \<Rightarrow> 'x err) \<Rightarrow> ('w \<Rightarrow> 'x err option option \<times> 'w) \<Rightarrow> 'x err
    \<Rightarrow> nat \<Rightarrow> nat \<Rightarrow> 'w \<Rightarrow> 'x err option option \<times> 'w" where
  "poll_loop wait interrupted check timeout 0 a w = poll_body wait interrupted check timeout 0 a w"
| "poll_loop wait interrupted check timeout (Suc k) a w =
     (case poll_body wait interrupted check timeout (Suc k) a w of
        (Some r, w') \<Rightarrow> (Some r, w')
      | (None, w') \<Rightarrow> poll_loop wait interrupted check timeout k (Suc a) w')"

text \<open>\<open>for range n\<close> over the rounds; no round at all is a timeout.\<close>

definition poll :: "('w \<Rightarrow> ctx_error option \<times> 'w) \<Rightarrow> (ctx_error \<Rightarrow> 'x err) \<Rightarrow> ('w \<Rightarrow> 'x err option option \<times> 'w) \<Rightarrow> 'x err
    \<Rightarrow> int \<Rightarrow> 'w \<Rightarrow> 'x err option \<times> 'w" where
  "poll wait interrupted check timeout n w =
     (if n \<le> 0 then (Some timeout, w)
      else (case poll_loop wait interrupted check timeout (nat (n - 1)) 0 w of (Some r, w') \<Rightarrow> (r, w') | (None, w') \<Rightarrow> (Some timeout, w')))"

lemma poll_body_0: "fst (poll_body wait interrupted check timeout 0 a w) \<noteq> None"
  by (auto simp: poll_body_def split: prod.splits option.splits)

interpretation polling: attempt_loop "poll_body wait interrupted check timeout" "poll_loop wait interrupted check timeout"
  for wait interrupted check timeout
  by unfold_locales (auto simp: poll_body_0)

subsection \<open>resourcemanager\<close>

definition defaultPollInterval :: int where "defaultPollInterval = 2 * second"
definition rm_defaultMaxAttempts :: int where "rm_defaultMaxAttempts = 30"

definition ErrEmptyProjectID :: "'x err" where
  "ErrEmptyProjectID = sentinel ''resourcemanager.ErrEmptyProjectID'' ''project ID cannot be empty''"
definition ErrEmptyBillingAccountID :: "'x err" where
  "ErrEmptyBillingAccountID = sentinel ''resourcemanager.ErrEmptyBillingAccountID'' ''billing account ID cannot be empty''"
definition ErrProjectCreationTimeout :: "'x err" where
  "ErrProjectCreationTimeout = sentinel ''resourcemanager.ErrProjectCreationTimeout'' ''timeout waiting for project to become active''"

record project_request =
  pr_ProjectID :: string
  pr_Name :: string
  pr_FolderID :: string
  pr_OrgID :: string
  pr_Labels :: "(string \<times> string) list"

text \<open>The project that is sent, with the type and the id of its parent.\<close>

record crm_project =
  cp_ProjectId :: string
  cp_Name :: string
  cp_Labels :: "(string \<times> string) list"
  cp_Parent :: "(string \<times> string) option"

record billing_info =
  bi_Enabled :: bool
  bi_AccountName :: string

record ('x, 'w) rm_service =
  rm_getProject :: "string \<Rightarrow> 'w \<Rightarrow> 'x err option \<times> 'w"
  rm_createProject :: "crm_project \<Rightarrow> 'w \<Rightarrow> 'x err option \<times> 'w"
  rm_getBilling :: "string \<Rightarrow> 'w \<Rightarrow> ('x err + billing_info) \<times> 'w"
  rm_updateBilling :: "string \<Rightarrow> string \<Rightarrow> 'w \<Rightarrow> 'x err option \<times> 'w"
  rm_foreign :: "'x foreign"
  rm_wait :: "int \<Rightarrow> 'w \<Rightarrow> ctx_error option \<times> 'w"
  rm_pollInterval :: int
  rm_maxAttempts :: int

text \<open>The settings of a new service.\<close>

definition poll_settings :: "int \<Rightarrow> int \<Rightarrow> int \<Rightarrow> int \<times> int" where
  "poll_settings default_attempts interval attempts =
     (if interval \<le> 0 then defaultPollInterval else interval, if attempts \<le> 0 then default_attempts else attempts)"

definition isNotFound :: "'x foreign \<Rightarrow> 'x err \<Rightarrow> bool" where
  "isNotFound ops e = (case AsGoogleapi ops e of Some (_, g) \<Rightarrow> ga_Code g = 404 | None \<Rightarrow> False)"

definition CheckProjectExists :: "('x, 'w) rm_service \<Rightarrow> string \<Rightarrow> 'w \<Rightarrow> ('x err + bool) \<times> 'w" where
  "CheckProjectExists s projectID w =
     (if trim_space projectID = '''' then (Inl ErrEmptyProjectID, w)
      else (case rm_getProject s projectID w of
        (None, w') \<Rightarrow> (Inr True, w')
      | (Some e, w') \<Rightarrow>
          if isNotFound (rm_foreign s) e then (Inr False, w')
          else (Inl (wrapf (''resourcemanager: get project '' @ projectID @ '': '') e), w')))"

definition project_of :: "project_request \<Rightarrow> crm_project" where
  "project_of req =
     \<lparr>cp_ProjectId = pr_ProjectID req, cp_Name = (if pr_Name req = '''' then pr_ProjectID req else pr_Name req), cp_Labels = pr_Labels req,
      cp_Parent = (if pr_FolderID req \<noteq> '''' then Some (''folder'', pr_FolderID req)
        else if pr_OrgID req \<noteq> '''' then Some (''organization'', pr_OrgID req) else None)\<rparr>"

text \<open>A round of the wait: an error of the check counts as not yet.\<close>

definition project_active :: "('x, 'w) rm_service \<Rightarrow> string \<Rightarrow> 'w \<Rightarrow> 'x err option option \<times> 'w" where
  "project_active s projectID w =
     (case CheckProjectExists s projectID w of (Inr True, w') \<Rightarrow> (Some None, w') | (_, w') \<Rightarrow> (None, w'))"

definition CreateProject :: "('x, 'w) rm_service \<Rightarrow> project_request \<Rightarrow> 'w \<Rightarrow> 'x err option \<times> 'w" where
  "CreateProject s req w =
     (if trim_space (pr_ProjectID req) = '''' then (Some ErrEmptyProjectID, w)
      else (case rm_createProject s (project_of req) w of
        (Some e, w') \<Rightarrow> (Some (wrapf (''resourcemanager: create project '' @ pr_ProjectID req @ '': '') e), w')
      | (None, w') \<Rightarrow>
          poll (rm_wait s (rm_pollInterval s)) (\<lambda>c. wrapf ''resourcemanager: project creation interrupted: '' (ctx_err c))
            (project_active s (pr_ProjectID req))
            (errorf (err_text (ErrProjectCreationTimeout :: 'x err) @ '': project '' @ pr_ProjectID req @ '' after '' @ show_int (rm_maxAttempts s)
               @ '' attempts'') [ErrProjectCreationTimeout])
            (rm_maxAttempts s) w'))"

definition CheckBillingLinked :: "('x, 'w) rm_service \<Rightarrow> string \<Rightarrow> string \<Rightarrow> 'w \<Rightarrow> ('x err + bool) \<times> 'w" where
  "CheckBillingLinked s projectID billingAccountID w =
     (if trim_space projectID = '''' then (Inl ErrEmptyProjectID, w)
      else if trim_space billingAccountID = '''' then (Inl ErrEmptyBillingAccountID, w)
      else (case rm_getBilling s (''projects/'' @ projectID) w of
        (Inl e, w') \<Rightarrow> (Inl (wrapf (''resourcemanager: query billing info for '' @ projectID @ '': '') e), w')
      | (Inr info, w') \<Rightarrow> (Inr (bi_Enabled info \<and> bi_AccountName info = ''billingAccounts/'' @ billingAccountID), w')))"

definition LinkBilling :: "('x, 'w) rm_service \<Rightarrow> string \<Rightarrow> string \<Rightarrow> 'w \<Rightarrow> 'x err option \<times> 'w" where
  "LinkBilling s projectID billingAccountID w =
     (if trim_space projectID = '''' then (Some ErrEmptyProjectID, w)
      else if trim_space billingAccountID = '''' then (Some ErrEmptyBillingAccountID, w)
      else (case rm_updateBilling s (''projects/'' @ projectID) (''billingAccounts/'' @ billingAccountID) w of
        (Some e, w') \<Rightarrow> (Some (wrapf (''resourcemanager: link billing '' @ billingAccountID @ '' to '' @ projectID @ '': '') e), w')
      | (None, w') \<Rightarrow> (None, w')))"

subsection \<open>serviceusage\<close>

definition su_defaultMaxAttempts :: int where "su_defaultMaxAttempts = 60"

definition su_ErrEmptyProjectID :: "'x err" where
  "su_ErrEmptyProjectID = sentinel ''serviceusage.ErrEmptyProjectID'' ''project ID cannot be empty''"
definition ErrAPIEnablementTimeout :: "'x err" where
  "ErrAPIEnablementTimeout = sentinel ''serviceusage.ErrAPIEnablementTimeout'' ''timeout waiting for API enablement to complete''"
definition ErrAPIEnablementFailed :: "'x err" where
  "ErrAPIEnablementFailed = sentinel ''serviceusage.ErrAPIEnablementFailed'' ''api enablement failed''"

text \<open>An operation: its name, whether it is done and the message of its error. A service that is listed may lack its configuration.\<close>

record su_operation =
  op_Name :: string
  op_Done :: bool
  op_Error :: "string option"

record ('x, 'w) su_service =
  su_list :: "string \<Rightarrow> string \<Rightarrow> 'w \<Rightarrow> ('x err + string option list \<times> string) \<times> 'w"
  su_batchEnable :: "string \<Rightarrow> string list \<Rightarrow> 'w \<Rightarrow> ('x err + su_operation) \<times> 'w"
  su_getOperation :: "string \<Rightarrow> 'w \<Rightarrow> ('x err + su_operation) \<times> 'w"
  su_wait :: "int \<Rightarrow> 'w \<Rightarrow> ctx_error option \<times> 'w"
  su_pollInterval :: int
  su_maxAttempts :: int

definition enabled_names :: "string option list \<Rightarrow> string set" where
  "enabled_names svcs = set (List.map_filter (\<lambda>n. case n of Some m \<Rightarrow> if m \<noteq> '''' then Some m else None | None \<Rightarrow> None) svcs)"

text \<open>\<open>Pages\<close> follows the tokens; None when the server never stops.\<close>

definition CheckAPIsStatus :: "('x, 'w) su_service \<Rightarrow> string \<Rightarrow> string list \<Rightarrow> 'w \<Rightarrow> (('x err + (string \<rightharpoonup> bool)) \<times> 'w) option" where
  "CheckAPIsStatus s projectID targetAPIs w =
     (if trim_space projectID = '''' then Some (Inl su_ErrEmptyProjectID, w)
      else (case list_pages (su_list s (''projects/'' @ projectID)) '''' [] w of
        None \<Rightarrow> None
      | Some (Inl e, w') \<Rightarrow> Some (Inl (wrapf (''serviceusage: list enabled services for '' @ projectID @ '': '') e), w')
      | Some (Inr svcs, w') \<Rightarrow>
          Some (Inr (fold (\<lambda>api m. m(api \<mapsto> api \<in> enabled_names svcs)) targetAPIs Map.empty), w')))"

definition operation_settled :: "('x, 'w) su_service \<Rightarrow> string \<Rightarrow> 'w \<Rightarrow> 'x err option option \<times> 'w" where
  "operation_settled s name w =
     (case su_getOperation s name w of
        (Inl e, w') \<Rightarrow> (Some (Some (wrapf (''serviceusage: query operation status '' @ name @ '': '') e)), w')
      | (Inr st, w') \<Rightarrow>
          if op_Done st then
            (Some (case op_Error st of None \<Rightarrow> None
               | Some m \<Rightarrow> Some (errorf (err_text (ErrAPIEnablementFailed :: 'x err) @ '': '' @ m) [ErrAPIEnablementFailed])), w')
          else (None, w'))"

definition BatchEnableAPIs :: "('x, 'w) su_service \<Rightarrow> string \<Rightarrow> string list \<Rightarrow> 'w \<Rightarrow> 'x err option \<times> 'w" where
  "BatchEnableAPIs s projectID apis w =
     (if trim_space projectID = '''' then (Some su_ErrEmptyProjectID, w)
      else if apis = [] then (None, w)
      else (case su_batchEnable s (''projects/'' @ projectID) apis w of
        (Inl e, w') \<Rightarrow> (Some (wrapf (''serviceusage: batch enable APIs for '' @ projectID @ '': '') e), w')
      | (Inr op, w') \<Rightarrow>
          poll (su_wait s (su_pollInterval s)) (\<lambda>c. wrapf ''serviceusage: API enablement interrupted: '' (ctx_err c))
            (operation_settled s (op_Name op))
            (errorf (err_text (ErrAPIEnablementTimeout :: 'x err) @ '': operation '' @ op_Name op @ '' after '' @ show_int (su_maxAttempts s)
               @ '' attempts'') [ErrAPIEnablementTimeout])
            (su_maxAttempts s) w'))"

subsection \<open>client\<close>

text \<open>The scopes as the libraries name them.\<close>

definition DriveMetadataReadonlyScope :: string where "DriveMetadataReadonlyScope = ''https://www.googleapis.com/auth/drive.metadata.readonly''"
definition AdminDirectoryUserReadonlyScope :: string where "AdminDirectoryUserReadonlyScope = ''https://www.googleapis.com/auth/admin.directory.user.readonly''"
definition AdminReportsAuditReadonlyScope :: string where "AdminReportsAuditReadonlyScope = ''https://www.googleapis.com/auth/admin.reports.audit.readonly''"
definition CloudPlatformScope :: string where "CloudPlatformScope = ''https://www.googleapis.com/auth/cloud-platform''"
definition SpreadsheetsScope :: string where "SpreadsheetsScope = ''https://www.googleapis.com/auth/spreadsheets''"
definition DriveScope :: string where "DriveScope = ''https://www.googleapis.com/auth/drive''"

type_synonym ('k, 't, 's, 'x, 'w) constructor = "('k, 't) client_option list \<Rightarrow> 'w \<Rightarrow> ('x err + 's) \<times> 'w"

definition resolve_and_build :: "string list \<Rightarrow> string \<Rightarrow> ('k, 't, 'o, 'tok, 'x, 'w) auth_env \<Rightarrow> ('k, 't, 's, 'x, 'w) constructor \<Rightarrow> ('k, 't) auth_opt list
    \<Rightarrow> 'x consent_event list \<Rightarrow> 'w \<Rightarrow> (('x err + 's) \<times> 'w) option" where
  "resolve_and_build scopes what env build opts events w =
     (case ResolveClient env scopes opts events w of
        None \<Rightarrow> None
      | Some (Inl e, w') \<Rightarrow> Some (Inl (wrapf ''failed to resolve client: '' e), w')
      | Some (Inr clientOpts, w') \<Rightarrow>
         (case build clientOpts w' of
            (Inl e, w2) \<Rightarrow> Some (Inl (wrapf (''failed to create '' @ what @ '' service: '') e), w2)
          | (Inr srv, w2) \<Rightarrow> Some (Inr srv, w2)))"

definition NewDriveService :: "('k, 't, 'o, 'tok, 'x, 'w) auth_env \<Rightarrow> ('k, 't, 's, 'x, 'w) constructor \<Rightarrow> ('k, 't) auth_opt list
    \<Rightarrow> 'x consent_event list \<Rightarrow> 'w \<Rightarrow> (('x err + 's) \<times> 'w) option" where
  "NewDriveService = resolve_and_build [DriveMetadataReadonlyScope] ''drive''"

definition NewAdminService :: "('k, 't, 'o, 'tok, 'x, 'w) auth_env \<Rightarrow> ('k, 't, 's, 'x, 'w) constructor \<Rightarrow> ('k, 't) auth_opt list
    \<Rightarrow> 'x consent_event list \<Rightarrow> 'w \<Rightarrow> (('x err + 's) \<times> 'w) option" where
  "NewAdminService = resolve_and_build [AdminDirectoryUserReadonlyScope] ''admin''"

definition NewReportsService :: "('k, 't, 'o, 'tok, 'x, 'w) auth_env \<Rightarrow> ('k, 't, 's, 'x, 'w) constructor \<Rightarrow> ('k, 't) auth_opt list
    \<Rightarrow> 'x consent_event list \<Rightarrow> 'w \<Rightarrow> (('x err + 's) \<times> 'w) option" where
  "NewReportsService = resolve_and_build [AdminReportsAuditReadonlyScope] ''reports''"

definition NewResourceManagerService :: "('k, 't, 'o, 'tok, 'x, 'w) auth_env \<Rightarrow> ('k, 't, 's, 'x, 'w) constructor \<Rightarrow> ('k, 't) auth_opt list
    \<Rightarrow> 'x consent_event list \<Rightarrow> 'w \<Rightarrow> (('x err + 's) \<times> 'w) option" where
  "NewResourceManagerService = resolve_and_build [CloudPlatformScope] ''resourcemanager''"

definition NewServiceUsageService :: "('k, 't, 'o, 'tok, 'x, 'w) auth_env \<Rightarrow> ('k, 't, 's, 'x, 'w) constructor \<Rightarrow> ('k, 't) auth_opt list
    \<Rightarrow> 'x consent_event list \<Rightarrow> 'w \<Rightarrow> (('x err + 's) \<times> 'w) option" where
  "NewServiceUsageService = resolve_and_build [CloudPlatformScope] ''serviceusage''"

definition NewSheetsService :: "('k, 't, 'o, 'tok, 'x, 'w) auth_env \<Rightarrow> ('k, 't, 's, 'x, 'w) constructor \<Rightarrow> ('k, 't) auth_opt list
    \<Rightarrow> 'x consent_event list \<Rightarrow> 'w \<Rightarrow> (('x err + 's) \<times> 'w) option" where
  "NewSheetsService = resolve_and_build [SpreadsheetsScope, DriveScope] ''sheets''"

subsection \<open>What polling promises\<close>

lemma poll_outcome:
  assumes "0 < n"
  shows "\<exists>i w1. int i < n \<and> run_on (poll_body wait interrupted check timeout) i (nat (n - 1)) 0 w = Some w1
    \<and> (case wait w1 of
        (Some c, w2) \<Rightarrow> poll wait interrupted check timeout n w = (Some (interrupted c), w2)
      | (None, w2) \<Rightarrow> (case check w2 of
           (Some r, w3) \<Rightarrow> poll wait interrupted check timeout n w = (r, w3)
         | (None, w3) \<Rightarrow> int i = n - 1 \<and> poll wait interrupted check timeout n w = (Some timeout, w3)))"
proof -
  let ?k = "nat (n - 1)"
  obtain i w1 r w' where i: "i \<le> ?k" "run_on (poll_body wait interrupted check timeout) i ?k 0 w = Some w1"
    "poll_body wait interrupted check timeout (?k - i) (0 + i) w1 = (Some r, w')" "poll_loop wait interrupted check timeout ?k 0 w = (Some r, w')"
    using polling.loop_outcome [of ?k wait interrupted check timeout 0 w] by blast
  then have p: "poll wait interrupted check timeout n w = (r, w')" using assms by (simp add: poll_def)
  show ?thesis using i p assms
    by (intro exI [of _ i] exI [of _ w1]) (auto simp: poll_body_def split: prod.splits option.splits if_splits)
qed

lemma status_map: "fold (\<lambda>api m. m(api \<mapsto> f api)) apis m a = (if a \<in> set apis then Some (f a) else m a)"
  by (induction apis arbitrary: m) auto

lemma poll_cases:
  assumes "poll wait interrupted check timeout n w = (r, w')"
  shows "r = Some timeout \<or> (\<exists>c. r = Some (interrupted c)) \<or> (\<exists>w2. check w2 = (Some r, w'))"
proof (cases "0 < n")
  case True
  obtain i w1 where o: "case wait w1 of
        (Some c, w2) \<Rightarrow> poll wait interrupted check timeout n w = (Some (interrupted c), w2)
      | (None, w2) \<Rightarrow> (case check w2 of
           (Some r, w3) \<Rightarrow> poll wait interrupted check timeout n w = (r, w3)
         | (None, w3) \<Rightarrow> int i = n - 1 \<and> poll wait interrupted check timeout n w = (Some timeout, w3))"
    using poll_outcome [OF True, of wait interrupted check timeout w] by (elim exE conjE) (rule that)
  obtain c w2 where wt: "wait w1 = (c, w2)" by fastforce
  obtain d w3 where ch: "check w2 = (d, w3)" by fastforce
  show ?thesis using o assms wt ch by (cases c; cases d) auto
next
  case False
  then show ?thesis using assms by (simp add: poll_def)
qed

lemma poll_success: "poll wait interrupted check timeout n w = (None, w') \<Longrightarrow> \<exists>w2. check w2 = (Some None, w')"
  using poll_cases [of wait interrupted check timeout n w None w'] by simp

lemma poll_failure: "poll wait interrupted check timeout n w = (Some e, w') \<Longrightarrow>
    e = timeout \<or> (\<exists>c. e = interrupted c) \<or> (\<exists>w2. check w2 = (Some (Some e), w'))"
  using poll_cases [of wait interrupted check timeout n w "Some e" w'] by simp

lemma project_active_Some: "project_active s p w = (Some r, w') \<Longrightarrow> r = None \<and> rm_getProject s p w = (None, w')"
  by (auto simp: project_active_def CheckProjectExists_def split: prod.splits option.splits if_splits sum.splits)

lemma operation_settled_None: "operation_settled s nm w = (Some None, w') \<Longrightarrow> \<exists>st. su_getOperation s nm w = (Inr st, w') \<and> op_Done st \<and> op_Error st = None"
  by (auto simp: operation_settled_def split: prod.splits sum.splits if_splits option.splits)

text \<open>A wait that is never interrupted, and a check that settles only with success: a round that settles is enough.\<close>

definition poll_round :: "('w \<Rightarrow> ctx_error option \<times> 'w) \<Rightarrow> ('w \<Rightarrow> 'x err option option \<times> 'w) \<Rightarrow> 'w \<Rightarrow> 'w" where
  "poll_round wait check w = snd (check (snd (wait w)))"

lemma poll_loop_live:
  assumes "\<And>w. fst (wait w) = None" and "\<And>w r. fst (check w) = Some r \<Longrightarrow> r = None"
  shows "j \<le> k \<Longrightarrow> fst (check (snd (wait ((poll_round wait check ^^ j) w)))) \<noteq> None
    \<Longrightarrow> fst (poll_loop wait interrupted check timeout k a w) = Some None"
proof (induction k arbitrary: j a w)
  case 0
  obtain w1 where w1: "wait w = (None, w1)" using assms(1) [of w] by (cases "wait w") simp
  obtain r w2 where r: "check w1 = (r, w2)" by fastforce
  have "r \<noteq> None" using 0 w1 r by simp
  then obtain x where x: "r = Some x" by blast
  then have "x = None" using assms(2) [of w1 x] r by simp
  then show ?case using w1 r x by (simp add: poll_body_def)
next
  case (Suc k)
  obtain w1 where w1: "wait w = (None, w1)" using assms(1) [of w] by (cases "wait w") simp
  obtain r w2 where r: "check w1 = (r, w2)" by fastforce
  show ?case
  proof (cases r)
    case (Some x)
    then have "x = None" using assms(2) [of w1 x] r by simp
    then show ?thesis using w1 r Some by (simp add: poll_body_def)
  next
    case None
    have round: "poll_round wait check w = w2" using w1 r by (simp add: poll_round_def)
    obtain i where i: "j = Suc i" using None Suc.prems(2) w1 r by (cases j) simp_all
    have "fst (check (snd (wait ((poll_round wait check ^^ i) w2)))) \<noteq> None"
      using Suc.prems(2) by (simp add: i funpow_Suc_right round del: funpow.simps)
    then have "fst (poll_loop wait interrupted check timeout k (Suc a) w2) = Some None" using Suc.IH Suc.prems(1) i by simp
    then show ?thesis using w1 r None by (simp add: poll_body_def)
  qed
qed

lemma project_active_success: "fst (project_active s pid w) = Some r \<Longrightarrow> r = None"
  by (auto simp: project_active_def split: prod.splits sum.splits bool.splits)

lemma project_active_seen: "trim_space pid \<noteq> '''' \<Longrightarrow> fst (rm_getProject s pid w) = None \<Longrightarrow> fst (project_active s pid w) \<noteq> None"
  by (cases "rm_getProject s pid w") (simp add: project_active_def CheckProjectExists_def)

subsection \<open>Properties\<close>

text \<open>Both services report success only for what they have seen: \<open>CreateProject\<close> only after a read of the project that succeeded, as the last thing it did,
  and it fails only because the creation was refused, the context ended or every round passed; \<open>BatchEnableAPIs\<close> only when there was nothing to enable or its operation
  was read as done without an error.\<close>
theorem polling_reports_what_it_saw:
  shows "(CreateProject s req w = (None, w') \<longrightarrow> (\<exists>w1. rm_getProject s (pr_ProjectID req) w1 = (None, w')))
    \<and> (CreateProject s req w = (Some e, w') \<longrightarrow>
         trim_space (pr_ProjectID req) = '''' \<or> (\<exists>e'. rm_createProject s (project_of req) w = (Some e', w'))
         \<or> errors_Is e ''resourcemanager.ErrProjectCreationTimeout'' \<or> (\<exists>c. e = wrapf ''resourcemanager: project creation interrupted: '' (ctx_err c)))
    \<and> (BatchEnableAPIs u pid apis w = (None, w') \<longrightarrow>
         apis = [] \<or> (\<exists>op w1 w2 st. su_batchEnable u (''projects/'' @ pid) apis w = (Inr op, w1) \<and> su_getOperation u (op_Name op) w2 = (Inr st, w')
            \<and> op_Done st \<and> op_Error st = None))"
proof (intro conjI impI)
  assume "CreateProject s req w = (None, w')"
  then show "\<exists>w1. rm_getProject s (pr_ProjectID req) w1 = (None, w')"
    by (auto simp: CreateProject_def split: if_splits prod.splits option.splits dest!: poll_success project_active_Some)
next
  assume "CreateProject s req w = (Some e, w')"
  then show "trim_space (pr_ProjectID req) = '''' \<or> (\<exists>e'. rm_createProject s (project_of req) w = (Some e', w'))
         \<or> errors_Is e ''resourcemanager.ErrProjectCreationTimeout'' \<or> (\<exists>c. e = wrapf ''resourcemanager: project creation interrupted: '' (ctx_err c))"
    by (auto simp: CreateProject_def ErrProjectCreationTimeout_def split: if_splits prod.splits option.splits
        dest!: poll_failure project_active_Some)
next
  assume "BatchEnableAPIs u pid apis w = (None, w')"
  then show "apis = [] \<or> (\<exists>op w1 w2 st. su_batchEnable u (''projects/'' @ pid) apis w = (Inr op, w1) \<and> su_getOperation u (op_Name op) w2 = (Inr st, w')
            \<and> op_Done st \<and> op_Error st = None)"
    by (auto simp: BatchEnableAPIs_def split: if_splits prod.splits sum.splits dest!: poll_success operation_settled_None)
qed

text \<open>Services that settle in the second round.\<close>

definition slow_projects :: "(int, nat) rm_service" where
  "slow_projects = \<lparr>rm_getProject = (\<lambda>p w. if w < 2 then (Some (api_error 404), Suc w) else (None, w)), rm_createProject = (\<lambda>p w. (None, w)),
     rm_getBilling = (\<lambda>r w. (Inr \<lparr>bi_Enabled = True, bi_AccountName = ''''\<rparr>, w)), rm_updateBilling = (\<lambda>r a w. (None, w)), rm_foreign = demo_foreign,
     rm_wait = (\<lambda>d w. (None, Suc w)), rm_pollInterval = defaultPollInterval, rm_maxAttempts = 3\<rparr>"

theorem polling_reports_what_it_saw_witness:
  "\<exists>w1. rm_getProject slow_projects ''p'' w1 = (None, 3)"
proof -
  let ?req = "\<lparr>pr_ProjectID = ''p'', pr_Name = '''', pr_FolderID = '''', pr_OrgID = '''', pr_Labels = []\<rparr>"
  have "trim_space ''p'' = ''p''" by code_simp
  then have "CreateProject slow_projects ?req 0 = (None, 3)"
    by (simp add: CreateProject_def slow_projects_def poll_def numeral_eq_Suc poll_body_def project_active_def CheckProjectExists_def isNotFound_def)
  then show ?thesis using polling_reports_what_it_saw [of slow_projects ?req 0 3] by auto
qed

text \<open>A project that can be read ends the wait: when the creation is accepted, the context stays alive and the project can be read in round \<open>k\<close>,
  \<open>CreateProject\<close> succeeds, whatever errors the reads before it returned, and whatever the lifecycle state of the project, which no round looks at although the
  documentation promises an active one.\<close>
lemma readable_project_ends_the_wait:
  fixes s :: "('x, 'w) rm_service"
  assumes "trim_space (pr_ProjectID req) \<noteq> ''''" and "rm_createProject s (project_of req) w = (None, w1)"
    and "\<And>v. fst (rm_wait s (rm_pollInterval s) v) = None"
    and "int k < rm_maxAttempts s"
    and "fst (rm_getProject s (pr_ProjectID req)
           (snd (rm_wait s (rm_pollInterval s) ((poll_round (rm_wait s (rm_pollInterval s)) (project_active s (pr_ProjectID req)) ^^ k) w1)))) = None"
  shows "fst (CreateProject s req w) = None"
proof -
  let ?wait = "rm_wait s (rm_pollInterval s)" and ?check = "project_active s (pr_ProjectID req)"
  have "fst (poll_loop ?wait i ?check t (nat (rm_maxAttempts s - 1)) 0 w1) = Some None" for i and t :: "'x err"
    using assms(4) by (intro poll_loop_live [where j = k] assms(3) project_active_seen assms(1,5) project_active_success) auto
  then have "fst (poll ?wait i ?check t (rm_maxAttempts s) w1) = None" for i and t :: "'x err"
    using assms(4) by (auto simp: poll_def split: prod.split option.split) (metis fst_conv option.inject option.distinct(1))+
  then show ?thesis using assms(1,2) by (simp add: CreateProject_def)
qed

end
