(* ===== verification/Procrun.thy ===== *)
theory Procrun
  imports Coordination "HOL-Library.AList"
begin

section \<open>platform/procrun and platform/passstore: running commands\<close>

text \<open>
  \<open>src/go/platform/procrun/{procrun,lookpath_unix,lookpath_windows}.go\<close> and \<open>src/go/platform/passstore/passstore.go\<close>. The file system, the
  parent's environment and the execution of a command are functions over the world. Go maps are association lists with distinct keys;
  their order stands for the order in which Go happens to walk the map, and nothing below depends on it.
\<close>

definition ErrNotOnPath :: "'x err" where
  "ErrNotOnPath = sentinel ''procrun.ErrNotOnPath'' ''command not found on the fixed PATH''"
definition ErrNoOutput :: "'x err" where
  "ErrNoOutput = sentinel ''procrun.ErrNoOutput'' ''Call.Output is required''"
definition DefaultTailLines :: int where "DefaultTailLines = 20"

type_synonym env_map = "(string \<times> string) list"

record runner =
  rn_Path :: string
  rn_Env :: env_map
  rn_Scrub :: "string list"
  rn_TailLines :: int

record proc_call =
  pc_Name :: string
  pc_Args :: "string list"
  pc_Env :: env_map
  pc_Output :: string
  pc_Append :: bool

record exit_error =
  ee_Name :: string
  ee_Code :: int
  ee_Output :: string
  ee_Tail :: string

text \<open>An error of \<open>Run\<close>: a command that exited with a code, or anything else.\<close>

datatype 'x run_error = Exited exit_error | NotRun "'x err"

definition exit_error_text :: "string \<Rightarrow> exit_error \<Rightarrow> string" where
  "exit_error_text dash e =
     ee_Name e @ '' exited with code '' @ show_int (ee_Code e) @ (if ee_Output e \<noteq> '''' then dash @ ''output: '' @ ee_Output e else '''')"

definition ExitCodeOf :: "'x run_error option \<Rightarrow> int" where
  "ExitCodeOf r = (case r of Some (Exited e) \<Rightarrow> ee_Code e | _ \<Rightarrow> - 1)"

subsection \<open>Looking up a command\<close>

text \<open>A file: whether it is a directory, and its permission bits.\<close>

type_synonym file_stat = "string \<Rightarrow> (bool \<times> nat) option"

definition unix_findExecutable :: "file_stat \<Rightarrow> string \<Rightarrow> string \<Rightarrow> string option" where
  "unix_findExecutable stat dir name =
     (let path = path_Join dir name in
      case stat path of None \<Rightarrow> None
      | Some (is_dir, perm) \<Rightarrow> if is_dir \<or> and 73 perm = 0 then None else Some path)"

definition isFile :: "file_stat \<Rightarrow> string \<Rightarrow> bool" where
  "isFile stat path = (case stat path of None \<Rightarrow> False | Some (is_dir, _) \<Rightarrow> \<not> is_dir)"

definition defaultPathExt :: string where "defaultPathExt = ''.COM;.EXE;.BAT;.CMD''"

definition pathExts :: "string \<Rightarrow> string list" where
  "pathExts raw =
     map (\<lambda>ext. if has_prefix ext ''.'' then ext else ''.'' @ ext)
       (filter (\<lambda>ext. ext \<noteq> '''') (map trim_space (split_on (CHR '';'') (if raw = '''' then defaultPathExt else raw))))"

definition hasPathExt :: "(string \<Rightarrow> string \<Rightarrow> bool) \<Rightarrow> string \<Rightarrow> string list \<Rightarrow> bool" where
  "hasPathExt equalFold name exts = list_ex (\<lambda>ext. length name > length ext \<and> equalFold (drop (length name - length ext) name) ext) exts"

definition windows_findExecutable :: "(string \<Rightarrow> string \<Rightarrow> bool) \<Rightarrow> (string \<Rightarrow> string \<Rightarrow> string) \<Rightarrow> string \<Rightarrow> file_stat \<Rightarrow> string \<Rightarrow> string \<Rightarrow> string option" where
  "windows_findExecutable equalFold join pathext stat dir name =
     (let exts = pathExts pathext in
      if hasPathExt equalFold name exts then (if isFile stat (join dir name) then Some (join dir name) else None)
      else map_option (\<lambda>ext. join dir (name @ ext)) (List.find (\<lambda>ext. isFile stat (join dir (name @ ext))) exts))"

text \<open>The platform: its path separator, how it splits a list of directories, and the search in one of them.\<close>

record platform =
  pl_separator :: char
  pl_splitList :: "string \<Rightarrow> string list"
  pl_find :: "string \<Rightarrow> string \<Rightarrow> string option"

fun find_in :: "(string \<Rightarrow> string \<Rightarrow> string option) \<Rightarrow> string list \<Rightarrow> string \<Rightarrow> string option" where
  "find_in search [] name = None"
| "find_in search (dir # dirs) name =
     (if dir = '''' then find_in search dirs name
      else (case search dir name of Some p \<Rightarrow> Some p | None \<Rightarrow> find_in search dirs name))"

text \<open>\<open>parent\<close> is the lookup on the PATH of the parent.\<close>

definition LookPath :: "platform \<Rightarrow> (string \<Rightarrow> 'x err + string) \<Rightarrow> runner \<Rightarrow> string \<Rightarrow> 'x err + string" where
  "LookPath pl parent r name =
     (if pl_separator pl \<in> set name then Inr name
      else if rn_Path r = '''' then (case parent name of Inl e \<Rightarrow> Inl (wrapf (name @ '': '') e) | Inr p \<Rightarrow> Inr p)
      else (case find_in (pl_find pl) (pl_splitList pl (rn_Path r)) name of
        Some p \<Rightarrow> Inr p
      | None \<Rightarrow> Inl (errorf (name @ '': '' @ err_text (ErrNotOnPath :: 'x err) @ '' ('' @ rn_Path r @ '')'') [ErrNotOnPath])))"

subsection \<open>The environment of the child\<close>

definition scrubbed :: "runner \<Rightarrow> string \<Rightarrow> bool" where
  "scrubbed r name = list_ex (has_prefix name) (rn_Scrub r)"

text \<open>\<open>maps.Copy\<close>: the later map overrides.\<close>

definition maps_Copy :: "env_map \<Rightarrow> env_map \<Rightarrow> env_map" where
  "maps_Copy dst src = fold (\<lambda>(k, v) m. AList.update k v m) src dst"

definition fixed_env :: "runner \<Rightarrow> env_map \<Rightarrow> env_map" where
  "fixed_env r callEnv =
     (let fixed = maps_Copy (maps_Copy [] (rn_Env r)) callEnv
      in if rn_Path r \<noteq> '''' then AList.update ''PATH'' (rn_Path r) fixed else fixed)"

definition Environ :: "string list \<Rightarrow> runner \<Rightarrow> env_map \<Rightarrow> string list" where
  "Environ inherited r callEnv =
     (let fixed = fixed_env r callEnv in
      filter (\<lambda>kv. let k = fst (str_cut (CHR ''='') kv) in \<not> (map_of fixed k \<noteq> None \<or> scrubbed r k)) inherited
      @ map (\<lambda>(k, v). k @ ''='' @ v) fixed)"

subsection \<open>Running\<close>

text \<open>How an execution ends: with success, with an exit status, or not at all.\<close>

datatype 'x exec_result = ExecOk | ExecExit int | ExecFailed "'x err"

record ('x, 'w) proc_env =
  pe_platform :: platform
  pe_parentLook :: "string \<Rightarrow> 'x err + string"
  pe_inherited :: "string list"
  pe_openFile :: "string \<Rightarrow> bool \<Rightarrow> 'w \<Rightarrow> 'x err option \<times> 'w"
  pe_readFile :: "string \<Rightarrow> 'w \<Rightarrow> string option"
  pe_exec :: "string \<Rightarrow> string list \<Rightarrow> string list \<Rightarrow> string option \<Rightarrow> 'w \<Rightarrow> ('x exec_result \<times> string) \<times> 'w"

definition trim_newlines :: "string \<Rightarrow> string" where
  "trim_newlines s = rev (dropWhile (\<lambda>c. c = CHR 0x0A) (rev s))"

definition tail_text :: "('x, 'w) proc_env \<Rightarrow> string \<Rightarrow> int \<Rightarrow> 'w \<Rightarrow> string" where
  "tail_text pe path n w =
     (if path = '''' \<or> n \<le> 0 then ''''
      else (case pe_readFile pe path w of None \<Rightarrow> ''''
        | Some b \<Rightarrow>
            let lines = split_on (CHR 0x0A) (trim_newlines b) in
            join_with [CHR 0x0A] (if int (length lines) > n then drop (length lines - nat n) lines else lines)))"

definition tailLines :: "runner \<Rightarrow> int" where
  "tailLines r = (if rn_TailLines r = 0 then DefaultTailLines else rn_TailLines r)"

definition exitError :: "('x, 'w) proc_env \<Rightarrow> runner \<Rightarrow> proc_call \<Rightarrow> 'x exec_result \<Rightarrow> 'w \<Rightarrow> 'x run_error option" where
  "exitError pe r c res w =
     (case res of
        ExecOk \<Rightarrow> None
      | ExecExit code \<Rightarrow> Some (Exited \<lparr>ee_Name = pc_Name c, ee_Code = code, ee_Output = pc_Output c, ee_Tail = tail_text pe (pc_Output c) (tailLines r) w\<rparr>)
      | ExecFailed e \<Rightarrow> Some (NotRun (wrapf (pc_Name c @ '' could not run: '') e)))"

text \<open>The command: the resolved name, its arguments and its environment. Standard input is empty.\<close>

definition proc_command :: "('x, 'w) proc_env \<Rightarrow> runner \<Rightarrow> proc_call \<Rightarrow> 'x err + (string \<times> string list \<times> string list)" where
  "proc_command pe r c =
     (case LookPath (pe_platform pe) (pe_parentLook pe) r (pc_Name c) of
        Inl e \<Rightarrow> Inl e | Inr name \<Rightarrow> Inr (name, pc_Args c, Environ (pe_inherited pe) r (pc_Env c)))"

definition Run :: "('x, 'w) proc_env \<Rightarrow> runner \<Rightarrow> proc_call \<Rightarrow> 'w \<Rightarrow> 'x run_error option \<times> 'w" where
  "Run pe r c w =
     (if pc_Output c = '''' then (Some (NotRun (errorf (pc_Name c @ '': '' @ err_text (ErrNoOutput :: 'x err)) [ErrNoOutput])), w)
      else (case pe_openFile pe (pc_Output c) (pc_Append c) w of
        (Some e, w1) \<Rightarrow> (Some (NotRun (wrapf (''output file '' @ pc_Output c @ '': '') e)), w1)
      | (None, w1) \<Rightarrow>
         (case proc_command pe r c of
            Inl e \<Rightarrow> (Some (NotRun e), w1)
          | Inr (name, args, env) \<Rightarrow>
             (case pe_exec pe name args env (Some (pc_Output c)) w1 of ((res, _), w2) \<Rightarrow> (exitError pe r c res w2, w2)))))"

definition Capture :: "('x, 'w) proc_env \<Rightarrow> runner \<Rightarrow> proc_call \<Rightarrow> 'w \<Rightarrow> (string \<times> 'x run_error option) \<times> 'w" where
  "Capture pe r c w =
     (case proc_command pe r c of
        Inl e \<Rightarrow> (('''', Some (NotRun e)), w)
      | Inr (name, args, env) \<Rightarrow>
          (case pe_exec pe name args env None w of ((res, out), w2) \<Rightarrow> ((out, exitError pe r c res w2), w2)))"

subsection \<open>passstore\<close>

text \<open>\<open>pass\<close> is the command with its timeout; None is a panic.\<close>

definition Show :: "(string \<Rightarrow> 'w \<Rightarrow> ('x err + string) \<times> 'w) \<Rightarrow> string \<Rightarrow> 'w \<Rightarrow> ('x err + string) \<times> 'w" where
  "Show pass path w =
     (case pass path w of
        (Inl e, w') \<Rightarrow> (Inl (wrapf (''pass show '' @ path @ '': '') e), w')
      | (Inr out, w') \<Rightarrow> (Inr (trim_space out), w'))"

definition MustShow :: "(string \<Rightarrow> 'w \<Rightarrow> ('x err + string) \<times> 'w) \<Rightarrow> string \<Rightarrow> 'w \<Rightarrow> string option \<times> 'w" where
  "MustShow pass path w = (case Show pass path w of (Inl e, w') \<Rightarrow> (None, w') | (Inr v, w') \<Rightarrow> (Some v, w'))"

subsection \<open>What the child sees\<close>

text \<open>The value of a name in an environment: \<open>os/exec\<close> keeps the last entry of a name.\<close>

definition child_value :: "string list \<Rightarrow> string \<Rightarrow> string option" where
  "child_value env name =
     map_option (\<lambda>kv. fst (snd (str_cut (CHR ''='') kv)))
       (List.find (\<lambda>kv. fst (str_cut (CHR ''='') kv) = name \<and> snd (snd (str_cut (CHR ''='') kv))) (rev env))"

lemma str_cut_key: "CHR ''='' \<notin> set k \<Longrightarrow> str_cut (CHR ''='') (k @ ''='' @ v) = (k, v, True)"
  by (induction k) auto

lemma find_append: "List.find P (xs @ ys) = (case List.find P xs of Some x \<Rightarrow> Some x | None \<Rightarrow> List.find P ys)"
  by (induction xs) auto

lemma child_value_append: "child_value (xs @ ys) n = (case child_value ys n of Some v \<Rightarrow> Some v | None \<Rightarrow> child_value xs n)"
  by (simp add: child_value_def find_append split: option.splits)

lemma child_value_Nil [simp]: "child_value [] n = None"
  by (simp add: child_value_def)

lemma child_value_filter:
  "child_value (filter (\<lambda>kv. P (fst (str_cut (CHR ''='') kv))) xs) n = (if P n then child_value xs n else None)"
proof (induction xs rule: rev_induct)
  case (snoc x xs)
  then show ?case by (auto simp: child_value_append) (auto simp: child_value_def)
qed simp

lemma child_value_Environ:
  "child_value (Environ inherited r callEnv) n
     = (case child_value (map (\<lambda>(k, v). k @ ''='' @ v) (fixed_env r callEnv)) n of Some v \<Rightarrow> Some v
        | None \<Rightarrow> if \<not> (map_of (fixed_env r callEnv) n \<noteq> None \<or> scrubbed r n) then child_value inherited n else None)"
  unfolding Environ_def Let_def child_value_append
  by (simp only: child_value_filter [where P = "\<lambda>k. \<not> (map_of (fixed_env r callEnv) k \<noteq> None \<or> scrubbed r k)"])

lemma child_value_pairs:
  "distinct (map fst m) \<Longrightarrow> \<forall>k \<in> set (map fst m). CHR ''='' \<notin> set k \<Longrightarrow> child_value (map (\<lambda>(k, v). k @ ''='' @ v) m) n = map_of m n"
proof (induction m)
  case (Cons p m)
  obtain k v where p: "p = (k, v)" by fastforce
  have "child_value [k @ ''='' @ v] n = (if k = n then Some v else None)"
    using Cons.prems(2) p str_cut_key [of k v] by (cases "k = n") (simp_all add: child_value_def)
  moreover have "map_of m k = None" using Cons.prems(1) p by (simp add: map_of_eq_None_iff)
  moreover have "child_value (map (\<lambda>(k, v). k @ ''='' @ v) m) n = map_of m n" using Cons by simp
  moreover have "child_value (map (\<lambda>(k, v). k @ ''='' @ v) (p # m)) n
      = child_value ([k @ ''='' @ v] @ map (\<lambda>(k, v). k @ ''='' @ v) m) n" by (simp add: p)
  ultimately show ?case unfolding child_value_append by (cases "k = n") (simp_all add: p split: option.split)
qed simp

lemma maps_Copy_distinct: "distinct (map fst dst) \<Longrightarrow> distinct (map fst (maps_Copy dst src))"
  by (induction src arbitrary: dst) (auto simp: maps_Copy_def distinct_update)

lemma maps_Copy_of: "distinct (map fst src) \<Longrightarrow> map_of (maps_Copy dst src) n = (case map_of src n of Some v \<Rightarrow> Some v | None \<Rightarrow> map_of dst n)"
proof (induction src arbitrary: dst)
  case (Cons p src)
  obtain k v where p: "p = (k, v)" by fastforce
  have "maps_Copy dst (p # src) = maps_Copy (AList.update k v dst) src" by (simp add: maps_Copy_def p)
  moreover have "map_of src k = None" using Cons.prems p by (simp add: map_of_eq_None_iff)
  moreover have "map_of (maps_Copy (AList.update k v dst) src) n = (case map_of src n of Some x \<Rightarrow> Some x | None \<Rightarrow> map_of (AList.update k v dst) n)"
    using Cons.prems p by (intro Cons.IH) simp
  ultimately show ?case using p by (cases "n = k") (simp_all add: update_conv' split: option.split)
qed (simp add: maps_Copy_def)

lemma maps_Copy_keys: "set (map fst (maps_Copy dst src)) = set (map fst dst) \<union> set (map fst src)"
proof (induction src arbitrary: dst)
  case (Cons p src)
  obtain k v where p: "p = (k, v)" by fastforce
  have "maps_Copy dst (p # src) = maps_Copy (AList.update k v dst) src" by (simp add: maps_Copy_def p)
  then show ?case using Cons [of "AList.update k v dst"] p by (auto simp: dom_update)
qed (simp add: maps_Copy_def)

lemma fixed_env_distinct: "distinct (map fst (fixed_env r callEnv))"
  by (simp add: fixed_env_def Let_def maps_Copy_distinct distinct_update)

lemma fixed_env_of:
  "distinct (map fst (rn_Env r)) \<Longrightarrow> distinct (map fst callEnv) \<Longrightarrow>
   map_of (fixed_env r callEnv) n
     = (if n = ''PATH'' \<and> rn_Path r \<noteq> '''' then Some (rn_Path r)
        else case map_of callEnv n of Some v \<Rightarrow> Some v | None \<Rightarrow> map_of (rn_Env r) n)"
  by (simp add: fixed_env_def Let_def update_conv' maps_Copy_of split: option.split)

lemma fixed_env_keys: "set (map fst (fixed_env r callEnv)) \<subseteq> {''PATH''} \<union> set (map fst (rn_Env r)) \<union> set (map fst callEnv)"
  using maps_Copy_keys [of "maps_Copy [] (rn_Env r)" callEnv] maps_Copy_keys [of "[]" "rn_Env r"]
  by (auto simp: fixed_env_def Let_def dom_update)

subsection \<open>What a lookup finds\<close>

lemma find_in_Some: "find_in search dirs name = Some p \<Longrightarrow>
    \<exists>pre d post. dirs = pre @ d # post \<and> d \<noteq> '''' \<and> search d name = Some p \<and> list_all (\<lambda>e. e = '''' \<or> search e name = None) pre"
proof (induction dirs)
  case (Cons d ds)
  show ?case
  proof (cases "d \<noteq> '''' \<and> search d name \<noteq> None")
    case True
    then show ?thesis using Cons.prems by (intro exI [of _ "[]"] exI [of _ d] exI [of _ ds]) (auto split: option.splits)
  next
    case False
    then have "find_in search ds name = Some p" using Cons.prems by (auto split: if_splits option.splits)
    then obtain pre e post where "ds = pre @ e # post" "e \<noteq> ''''" "search e name = Some p" "list_all (\<lambda>e. e = '''' \<or> search e name = None) pre"
      using Cons.IH by blast
    then show ?thesis using False by (intro exI [of _ "d # pre"] exI [of _ e] exI [of _ post]) auto
  qed
qed simp

lemma LookPath_fixed:
  assumes "LookPath pl parent r name = Inr p" "pl_separator pl \<notin> set name" "rn_Path r \<noteq> ''''"
  shows "\<exists>pre d post. pl_splitList pl (rn_Path r) = pre @ d # post \<and> d \<noteq> '''' \<and> pl_find pl d name = Some p
    \<and> list_all (\<lambda>e. e = '''' \<or> pl_find pl e name = None) pre"
proof -
  have "find_in (pl_find pl) (pl_splitList pl (rn_Path r)) name = Some p" using assms by (auto simp: LookPath_def split: option.splits)
  then show ?thesis by (rule find_in_Some)
qed

text \<open>The output file is emptied before the command is looked up: it is lost also when the command does not exist.\<close>

lemma output_truncated_for_missing_command:
  "pc_Output c \<noteq> '''' \<Longrightarrow> pe_openFile pe (pc_Output c) (pc_Append c) w = (None, w1) \<Longrightarrow> proc_command pe r c = Inl e
   \<Longrightarrow> Run pe r c w = (Some (NotRun e), w1)"
  by (simp add: Run_def)

lemma tail_lines_bound: "0 < n \<Longrightarrow> length (if int (length xs) > n then drop (length xs - nat n) xs else xs) \<le> nat n"
  by (auto simp: nat_le_iff)

subsection \<open>Properties\<close>

text \<open>C29. The environment of a child is exactly what the runner decides: a name has the fixed PATH, else the value of the call, else of the runner, else
  the inherited one unless it carries a scrubbed prefix. No inherited variable overrides a fixed one, and a scrubbed one reaches the child only when it is set on
  purpose. With a fixed PATH, a plain name runs the first match on this PATH and never one found on the parent's.\<close>
theorem child_environment_is_fixed:
  assumes "distinct (map fst (rn_Env r))" "distinct (map fst callEnv)"
    and "\<forall>k \<in> set (map fst (rn_Env r) @ map fst callEnv). CHR ''='' \<notin> set k"
  shows "child_value (Environ inherited r callEnv) n
      = (if n = ''PATH'' \<and> rn_Path r \<noteq> '''' then Some (rn_Path r)
         else case map_of callEnv n of Some v \<Rightarrow> Some v
         | None \<Rightarrow> (case map_of (rn_Env r) n of Some v \<Rightarrow> Some v
           | None \<Rightarrow> if scrubbed r n then None else child_value inherited n))
    \<and> (pl_separator pl \<notin> set name \<and> rn_Path r \<noteq> '''' \<and> LookPath pl parent r name = Inr p \<longrightarrow>
         (\<exists>pre d post. pl_splitList pl (rn_Path r) = pre @ d # post \<and> d \<noteq> '''' \<and> pl_find pl d name = Some p
            \<and> list_all (\<lambda>e. e = '''' \<or> pl_find pl e name = None) pre))"
proof (rule conjI)
  let ?fixed = "fixed_env r callEnv"
  have "\<forall>k \<in> set (map fst ?fixed). CHR ''='' \<notin> set k" 
  proof
    fix k assume "k \<in> set (map fst ?fixed)"
    then have "k = ''PATH'' \<or> k \<in> set (map fst (rn_Env r) @ map fst callEnv)" using subsetD [OF fixed_env_keys [of r callEnv]] by simp
    then show "CHR ''='' \<notin> set k" using assms(3) by (elim disjE) simp_all
  qed
  then have pairs: "child_value (map (\<lambda>(k, v). k @ ''='' @ v) ?fixed) n = map_of ?fixed n" by (intro child_value_pairs fixed_env_distinct)
  have "child_value (Environ inherited r callEnv) n
      = (case map_of ?fixed n of Some v \<Rightarrow> Some v | None \<Rightarrow> if scrubbed r n then None else child_value inherited n)"
    unfolding child_value_Environ pairs by (cases "map_of ?fixed n") simp_all
  then show "child_value (Environ inherited r callEnv) n
      = (if n = ''PATH'' \<and> rn_Path r \<noteq> '''' then Some (rn_Path r)
         else case map_of callEnv n of Some v \<Rightarrow> Some v
         | None \<Rightarrow> (case map_of (rn_Env r) n of Some v \<Rightarrow> Some v
           | None \<Rightarrow> if scrubbed r n then None else child_value inherited n))"
    using fixed_env_of [OF assms(1,2), of n] by (simp split: option.split)
  show "pl_separator pl \<notin> set name \<and> rn_Path r \<noteq> '''' \<and> LookPath pl parent r name = Inr p \<longrightarrow>
         (\<exists>pre d post. pl_splitList pl (rn_Path r) = pre @ d # post \<and> d \<noteq> '''' \<and> pl_find pl d name = Some p
            \<and> list_all (\<lambda>e. e = '''' \<or> pl_find pl e name = None) pre)"
    using LookPath_fixed [of pl parent r name p] by simp
qed

theorem child_environment_is_fixed_witness:
  "child_value (Environ [''AWS_KEY=x'', ''PATH=/evil'', ''HOME=/h''] \<lparr>rn_Path = ''/bin'', rn_Env = [(''LC_ALL'', ''C'')], rn_Scrub = [''AWS_''], rn_TailLines = 0\<rparr>
     [(''TOKEN'', ''t'')]) ''AWS_KEY'' = None"
proof -
  let ?r = "\<lparr>rn_Path = ''/bin'', rn_Env = [(''LC_ALL'', ''C'')], rn_Scrub = [''AWS_''], rn_TailLines = 0\<rparr>"
  have "distinct (map fst (rn_Env ?r))" "distinct (map fst [(''TOKEN'', ''t'')])"
    "\<forall>k \<in> set (map fst (rn_Env ?r) @ map fst [(''TOKEN'', ''t'')]). CHR ''='' \<notin> set k" by simp_all
  from conjunct1 [OF child_environment_is_fixed [OF this], of "[''AWS_KEY=x'', ''PATH=/evil'', ''HOME=/h'']" "''AWS_KEY''"]
  show ?thesis by (simp add: scrubbed_def has_prefix_def)
qed

end
