(* ===== verification/Web.thy ===== *)
theory Web
  imports Apierr "HOL-Library.AList"
begin

section \<open>platform/web: requests and responses\<close>

text \<open>
  \<open>src/go/platform/web/web.go\<close>. The response writer is that of \<open>net/http\<close>: its headers, what it has sent, and its body. What the
  JSON encoder makes of a value is an argument; the JSON decoder is a scanner of one value and a conversion of it. A panic is a value of
  \<open>panic_value\<close>; log lines, the stack of a panic among them, are left out.
\<close>

subsection \<open>The writer of net/http\<close>

datatype 'x panic_value = PanicErr "'x err" | PanicText string

text \<open>\<open>hw_Sent\<close> is the status and the headers at the time they were sent; informational statuses are only listed.\<close>

record http_writer =
  hw_Header :: "(string \<times> string) list"
  hw_Info :: "int list"
  hw_Sent :: "(int \<times> (string \<times> string) list) option"
  hw_Body :: string

definition fresh_writer :: http_writer where
  "fresh_writer = \<lparr>hw_Header = [], hw_Info = [], hw_Sent = None, hw_Body = ''''\<rparr>"

definition header_Set :: "string \<Rightarrow> string \<Rightarrow> http_writer \<Rightarrow> http_writer" where
  "header_Set k v w = w\<lparr>hw_Header := AList.update k v (hw_Header w)\<rparr>"

text \<open>A status outside 100 to 999 panics, unless one was sent before: then the call is ignored.\<close>

definition http_WriteHeader :: "int \<Rightarrow> http_writer \<Rightarrow> 'x panic_value option \<times> http_writer" where
  "http_WriteHeader code w =
     (if hw_Sent w \<noteq> None then (None, w)
      else if code < 100 \<or> code > 999 then (Some (PanicText (''invalid WriteHeader code '' @ show_int code)), w)
      else if code \<le> 199 \<and> code \<noteq> 101 then (None, w\<lparr>hw_Info := hw_Info w @ [code]\<rparr>)
      else (None, w\<lparr>hw_Sent := Some (code, hw_Header w)\<rparr>))"

definition body_allowed :: "int \<Rightarrow> bool" where
  "body_allowed code \<longleftrightarrow> \<not> (100 \<le> code \<and> code \<le> 199) \<and> code \<noteq> 204 \<and> code \<noteq> 304"

text \<open>The first write sends the status 200 when none was sent; a status without a body drops what is written.\<close>

definition http_Write :: "string \<Rightarrow> http_writer \<Rightarrow> http_writer" where
  "http_Write b w =
     (let w1 = (if hw_Sent w = None then w\<lparr>hw_Sent := Some (200, hw_Header w)\<rparr> else w) in
      case hw_Sent w1 of
        Some (code, _) \<Rightarrow> if body_allowed code then w1\<lparr>hw_Body := hw_Body w1 @ b\<rparr> else w1
      | None \<Rightarrow> w1)"

text \<open>What the client gets at the end of the request: 200 when the handler sent nothing.\<close>

definition response_of :: "http_writer \<Rightarrow> int \<times> (string \<times> string) list \<times> string" where
  "response_of w = (case hw_Sent w of Some (code, h) \<Rightarrow> (code, h, hw_Body w) | None \<Rightarrow> (200, hw_Header w, hw_Body w))"

subsection \<open>JSON\<close>

definition DefaultMaxJSONSize :: int where "DefaultMaxJSONSize = 1024 * 1024"

definition ErrTrailingGarbage :: "'x err" where
  "ErrTrailingGarbage = sentinel ''web.ErrTrailingGarbage'' ''request body must only contain a single JSON object''"
definition ErrPanicRecovered :: "'x err" where
  "ErrPanicRecovered = sentinel ''web.ErrPanicRecovered'' ''API recovered from panic''"

text \<open>\<open>enc\<close> is what the encoder makes of the value: an error, which is logged, or the text it writes.\<close>

definition EncodeJSON :: "int \<Rightarrow> 'x err + string \<Rightarrow> http_writer \<Rightarrow> 'x panic_value option \<times> http_writer" where
  "EncodeJSON status enc w =
     (case http_WriteHeader status (header_Set ''Content-Type'' ''application/json'' w) of
        (Some p, w1) \<Rightarrow> (Some p, w1)
      | (None, w1) \<Rightarrow> (None, case enc of Inl e \<Rightarrow> w1 | Inr b \<Rightarrow> http_Write b w1))"

text \<open>One call of the decoder on what is left of the stream: a value and the rest, nothing but white space to the end, or a failure.
  \<open>over\<close> says that the stream goes on beyond the limit, where reading fails.\<close>

datatype ('j, 'x) json_scan = ScanValue 'j string | ScanEnd | ScanBad "'x err"

definition io_EOF :: "'x err" where "io_EOF = sentinel ''io.EOF'' ''EOF''"
definition max_bytes_error :: "'x err" where "max_bytes_error = sentinel ''http.MaxBytesError'' ''http: request body too large''"

definition DecodeJSON :: "(string \<Rightarrow> bool \<Rightarrow> ('j, 'x) json_scan) \<Rightarrow> ('j \<Rightarrow> 'x err + 'v) \<Rightarrow> int \<Rightarrow> string \<Rightarrow> 'x err + 'v" where
  "DecodeJSON scan fit maxSize body =
     (let limit = (if maxSize \<le> 0 then DefaultMaxJSONSize else maxSize);
          over = int (length body) > limit;
          failed = wrapf ''failed to decode JSON body: '' in
      case scan (take (nat limit) body) over of
        ScanEnd \<Rightarrow> Inl (failed (if over then max_bytes_error else io_EOF))
      | ScanBad e \<Rightarrow> Inl (failed e)
      | ScanValue j rest \<Rightarrow>
         (case fit j of
            Inl e \<Rightarrow> Inl (failed e)
          | Inr v \<Rightarrow> (case scan rest over of ScanEnd \<Rightarrow> if over then Inl ErrTrailingGarbage else Inr v | _ \<Rightarrow> Inl ErrTrailingGarbage)))"

subsection \<open>Errors\<close>

definition minHonouredStatus :: int where "minHonouredStatus = 300"
definition maxHonouredStatus :: int where "maxHonouredStatus = 599"

definition isHonouredStatus :: "int \<Rightarrow> bool" where
  "isHonouredStatus status \<longleftrightarrow> status \<ge> minHonouredStatus \<and> status \<le> maxHonouredStatus"

text \<open>\<open>errors.AsType[*apierr.StatusError]\<close>: the status and the wrapped error of the first such node.\<close>

definition as_status_error :: "'x err \<Rightarrow> (int \<times> 'x err option) option" where
  "as_status_error = errors_As (\<lambda>n. case err_kind n of
      StatusK s b \<Rightarrow> Some (s, case err_wrapped n of [] \<Rightarrow> None | e # _ \<Rightarrow> Some e) | _ \<Rightarrow> None)"

definition status_only_text :: "int \<Rightarrow> 'x err option \<Rightarrow> string" where
  "status_only_text s inner = (case inner of Some e \<Rightarrow> status_error_text s '''' e | None \<Rightarrow> ''%!s(<nil>): '' @ show_int s)"

text \<open>The sentinels in the order of the switch.\<close>

definition sentinel_statuses :: "(string \<times> int) list" where
  "sentinel_statuses = [(''apierr.ErrInvalidInput'', 400), (''apierr.ErrUnauthorized'', 401), (''apierr.ErrForbidden'', 403), (''apierr.ErrNotFound'', 404),
     (''apierr.ErrTimeout'', 408), (''apierr.ErrConflict'', 409), (''apierr.ErrRateLimited'', 429)]"

definition sentinel_status :: "'x err \<Rightarrow> int option" where
  "sentinel_status e = map_option snd (List.find (\<lambda>(nm, _). errors_Is e nm) sentinel_statuses)"

definition internal_message :: string where "internal_message = ''An internal server error occurred''"

definition error_reply :: "'x err \<Rightarrow> int \<times> string" where
  "error_reply e =
     (case as_status_error e of
        Some (s, inner) \<Rightarrow> if isHonouredStatus s then (s, status_only_text s inner) else (500, internal_message)
      | None \<Rightarrow> (case sentinel_status e of Some s \<Rightarrow> (s, err_text e) | None \<Rightarrow> (500, internal_message)))"

text \<open>\<open>enc\<close> encodes the object with the single key \<open>error\<close>.\<close>

definition WriteError :: "(string \<Rightarrow> string) \<Rightarrow> 'x err \<Rightarrow> http_writer \<Rightarrow> 'x panic_value option \<times> http_writer" where
  "WriteError enc e w = (case error_reply e of (status, msg) \<Rightarrow> EncodeJSON status (Inr (enc msg)) w)"

subsection \<open>Middlewares\<close>

type_synonym ('r, 'x, 'w) handler = "'r \<Rightarrow> http_writer \<Rightarrow> 'w \<Rightarrow> ('x panic_value option \<times> http_writer) \<times> 'w"

definition RecoveryMiddleware :: "(string \<Rightarrow> string) \<Rightarrow> ('r, 'x, 'w) handler \<Rightarrow> ('r, 'x, 'w) handler" where
  "RecoveryMiddleware enc next r rw w =
     (case next r rw w of
        ((None, rw1), w1) \<Rightarrow> ((None, rw1), w1)
      | ((Some p, rw1), w1) \<Rightarrow> (WriteError enc ErrServerError rw1, w1))"

definition ContentTypeJSONMiddleware :: "(string \<Rightarrow> string) \<Rightarrow> (string \<Rightarrow> string) \<Rightarrow> ('r \<Rightarrow> string) \<Rightarrow> ('r \<Rightarrow> string) \<Rightarrow> ('r, 'x, 'w) handler \<Rightarrow> ('r, 'x, 'w) handler" where
  "ContentTypeJSONMiddleware lower enc r_method content_type next r rw w =
     (if r_method r \<in> {''POST'', ''PUT'', ''PATCH''} \<and> content_type r \<noteq> '''' \<and> \<not> has_prefix (lower (content_type r)) ''application/json''
      then (EncodeJSON 415 (Inr (enc ''Content-Type must be application/json'')) rw, w)
      else next r rw w)"

definition NewRequestWithContext :: "(string \<Rightarrow> string \<Rightarrow> 'b \<Rightarrow> 'x err + 'q) \<Rightarrow> string \<Rightarrow> string \<Rightarrow> 'b \<Rightarrow> 'x err + 'q" where
  "NewRequestWithContext new_request r_method url body =
     (case new_request r_method url body of Inl e \<Rightarrow> Inl (wrapf ''failed to create http request: '' e) | Inr q \<Rightarrow> Inr q)"

subsection \<open>What reaches the client\<close>

lemma EncodeJSON_fresh: "hw_Sent w = None \<Longrightarrow> 200 \<le> s \<Longrightarrow> s \<le> 999 \<Longrightarrow>
    EncodeJSON s (Inr b) w = (None, w\<lparr>hw_Header := AList.update ''Content-Type'' ''application/json'' (hw_Header w),
      hw_Sent := Some (s, AList.update ''Content-Type'' ''application/json'' (hw_Header w)), hw_Body := hw_Body w @ (if body_allowed s then b else '''')\<rparr>)"
  by (simp add: EncodeJSON_def http_WriteHeader_def header_Set_def http_Write_def)

lemma EncodeJSON_sent: "hw_Sent w = Some (c, h) \<Longrightarrow>
    EncodeJSON s (Inr b) w = (None, w\<lparr>hw_Header := AList.update ''Content-Type'' ''application/json'' (hw_Header w),
      hw_Body := hw_Body w @ (if body_allowed c then b else '''')\<rparr>)"
  by (simp add: EncodeJSON_def http_WriteHeader_def header_Set_def http_Write_def)

lemma sentinel_status_range: "sentinel_status e = Some s \<Longrightarrow> s \<in> {400, 401, 403, 404, 408, 409, 429}"
  by (auto simp: sentinel_status_def sentinel_statuses_def split: if_splits)

lemma error_reply_range: "300 \<le> fst (error_reply e) \<and> fst (error_reply e) \<le> 599"
  using sentinel_status_range [of e]
  by (auto simp: error_reply_def isHonouredStatus_def minHonouredStatus_def maxHonouredStatus_def split: option.split)

lemma error_reply_message:
  "snd (error_reply e) = internal_message
   \<or> (\<exists>s inner. as_status_error e = Some (s, inner) \<and> snd (error_reply e) = status_only_text s inner)
   \<or> as_status_error e = None \<and> sentinel_status e \<noteq> None \<and> snd (error_reply e) = err_text e"
  by (auto simp: error_reply_def split: option.splits)

lemma as_status_error_wrapf [simp]: "as_status_error (wrapf m e) = as_status_error e"
  by (simp add: as_status_error_def)

lemma as_status_error_New [simp]: "as_status_error (NewStatusError s b e) = Some (s, Some e)"
  unfolding as_status_error_def by (rule errors_As_hit) (simp add: NewStatusError_def)

lemma as_status_error_sentinel [simp]: "as_status_error (sentinel n m) = None"
  by (simp add: as_status_error_def)

text \<open>A status error inside another one is not protected: its excerpt is part of the message of the outer one.\<close>

lemma nested_body_leaks:
  "error_reply (NewStatusError 502 '''' (NewStatusError 500 ''secret'' (ErrServerError :: 'x err)))
     = (502, err_text (ErrServerError :: 'x err) @ '': 500 secret: 502'')"
  by (simp add: error_reply_def isHonouredStatus_def minHonouredStatus_def maxHonouredStatus_def status_only_text_def status_error_text_def
      NewStatusError_def [of 500 "''secret''"]) code_simp

text \<open>A prefix that is no media type of its own passes too.\<close>

lemma json_prefix_passes: "lower ''application/jsonp'' = ''application/jsonp'' \<Longrightarrow>
    ContentTypeJSONMiddleware lower enc (\<lambda>_. ''POST'') (\<lambda>_. ''application/jsonp'') next r rw w = next r rw w"
  by (simp add: ContentTypeJSONMiddleware_def has_prefix_def)

lemma DefaultMaxJSONSize_num: "DefaultMaxJSONSize = 1048576"
  by (simp add: DefaultMaxJSONSize_def)

lemma internal_error_reply [simp]: "error_reply (ErrServerError :: 'x err) = (500, internal_message)"
  by (simp add: error_reply_def sentinel_status_def sentinel_statuses_def go_defs)

lemma WriteError_never_panics [simp]: "fst (WriteError enc e w) = None"
proof (cases "hw_Sent w")
  case None
  then show ?thesis using error_reply_range [of e] by (cases "error_reply e") (simp add: WriteError_def EncodeJSON_fresh)
next
  case (Some ch)
  then show ?thesis by (cases ch, cases "error_reply e") (simp add: WriteError_def EncodeJSON_sent)
qed

lemma WriteError_fresh: "hw_Sent w = None \<Longrightarrow> error_reply e = (s, msg) \<Longrightarrow>
    WriteError enc e w = (None, w\<lparr>hw_Header := AList.update ''Content-Type'' ''application/json'' (hw_Header w),
      hw_Sent := Some (s, AList.update ''Content-Type'' ''application/json'' (hw_Header w)),
      hw_Body := hw_Body w @ (if body_allowed s then enc msg else '''')\<rparr>)"
  using error_reply_range [of e] by (simp add: WriteError_def EncodeJSON_fresh)

lemma error_reply_status_error: "as_status_error e = Some a \<Longrightarrow> as_status_error e' = Some a \<Longrightarrow> error_reply e = error_reply e'"
  by (simp add: error_reply_def)

subsection \<open>Properties\<close>

lemma WriteError_response:
  assumes "hw_Sent w = None" and "error_reply e = (s, msg)"
  shows "response_of (snd (WriteError enc e w))
    = (s, AList.update ''Content-Type'' ''application/json'' (hw_Header w), hw_Body w @ (if body_allowed s then enc msg else ''''))"
  using WriteError_fresh [OF assms] by (simp add: response_of_def)

lemma error_reply_upstream:
  "300 \<le> st \<Longrightarrow> st \<le> 599 \<Longrightarrow> error_reply (wrapf m (NewStatusError st b e)) = (st, err_text e @ '': '' @ show_int st)"
  by (simp add: error_reply_def isHonouredStatus_def minHonouredStatus_def maxHonouredStatus_def status_only_text_def status_error_text_def)



text \<open>C31. A body is accepted exactly when it is no longer than the limit and is one value that fits, followed by nothing but white space; there is always a limit,
  and a body beyond it is refused wherever its value ends.\<close>
theorem accepted_body_is_one_value_within_limit:
  "DecodeJSON scan fit maxSize body = Inr v \<longleftrightarrow>
     int (length body) \<le> (if maxSize \<le> 0 then 1048576 else maxSize)
     \<and> (\<exists>j rest. scan body False = ScanValue j rest \<and> fit j = Inr v \<and> scan rest False = ScanEnd)"
proof -
  define limit where "limit = (if maxSize \<le> 0 then (1048576 :: int) else maxSize)"
  have D: "DecodeJSON scan fit maxSize body =
     (case scan (take (nat limit) body) (int (length body) > limit) of
        ScanEnd \<Rightarrow> Inl (wrapf ''failed to decode JSON body: '' (if int (length body) > limit then max_bytes_error else io_EOF))
      | ScanBad e \<Rightarrow> Inl (wrapf ''failed to decode JSON body: '' e)
      | ScanValue j rest \<Rightarrow>
         (case fit j of
            Inl e \<Rightarrow> Inl (wrapf ''failed to decode JSON body: '' e)
          | Inr v \<Rightarrow> (case scan rest (int (length body) > limit) of
               ScanEnd \<Rightarrow> if int (length body) > limit then Inl ErrTrailingGarbage else Inr v | _ \<Rightarrow> Inl ErrTrailingGarbage)))"
    by (simp only: limit_def DecodeJSON_def Let_def DefaultMaxJSONSize_num)
  show ?thesis
  proof (cases "int (length body) \<le> limit")
    case True
    then have "take (nat limit) body = body" "\<not> int (length body) > limit" by auto
    then show ?thesis using True unfolding D limit_def [symmetric]
      by (cases "scan body False") (simp_all split: sum.split json_scan.split)
  next
    case False
    then show ?thesis unfolding D limit_def [symmetric] by (simp split: sum.split json_scan.split)
  qed
qed

text \<open>C32. Behind \<open>RecoveryMiddleware\<close> no handler panics. A handler that panics before it has sent anything is answered with 500 and the general message; one that
  panics after it began to answer keeps its status, and the error object is appended to what it wrote.\<close>
theorem panics_are_answered:
  "fst (fst (RecoveryMiddleware enc next r rw w)) = None
   \<and> (case next r rw w of
        ((None, rw1), w1) \<Rightarrow> RecoveryMiddleware enc next r rw w = ((None, rw1), w1)
      | ((Some p, rw1), w1) \<Rightarrow>
          (case hw_Sent rw1 of
             None \<Rightarrow> response_of (snd (fst (RecoveryMiddleware enc next r rw w)))
               = (500, AList.update ''Content-Type'' ''application/json'' (hw_Header rw1), hw_Body rw1 @ enc internal_message)
           | Some (code, h) \<Rightarrow> response_of (snd (fst (RecoveryMiddleware enc next r rw w)))
               = (code, h, hw_Body rw1 @ (if body_allowed code then enc internal_message else ''''))))"
proof -
  obtain o1 rw1 w1 where n: "next r rw w = ((o1, rw1), w1)" by (cases "next r rw w") auto
  show ?thesis
  proof (cases o1)
    case (Some p)
    then show ?thesis
    proof (cases "hw_Sent rw1")
      case None
      then show ?thesis using n Some
        by (simp add: RecoveryMiddleware_def response_of_def body_allowed_def WriteError_fresh [OF None internal_error_reply])
    next
      case (Some ch)
      then show ?thesis using n \<open>o1 = Some p\<close> 
        by (cases ch) (simp add: RecoveryMiddleware_def response_of_def WriteError_def EncodeJSON_sent)
    qed
  qed (use n in \<open>simp add: RecoveryMiddleware_def\<close>)
qed

end
