(* ===== verification/Addon.thy ===== *)
theory Addon
  imports Web Go_Float
begin

section \<open>The Workspace add-on: time entries from notes\<close>

text \<open>
  \<open>src/blueprints/google-addon/go/{handler,timeentry}.go\<close>, over the requests and responses of \<open>Web\<close>. The JSON codecs, the formatting verbs
  \<open>%q\<close> and \<open>%.2f\<close>, the environment and the Gemini endpoint are parameters; texts outside ASCII are their UTF-8 bytes. Log lines and the
  timeout of the HTTP client are left out: a timeout is an error of the endpoint.
\<close>

subsection \<open>Events and cards\<close>

text \<open>The string inputs of a form, None for a missing object, and the parameters of an event.\<close>

record addon_event =
  ev_HostApp :: string
  ev_FormInputs :: "(string \<rightharpoonup> string list) option"
  ev_Parameters :: "string \<rightharpoonup> string"

definition FormInputValue :: "addon_event \<Rightarrow> string \<Rightarrow> string" where
  "FormInputValue e fieldName =
     (case ev_FormInputs e of
        None \<Rightarrow> ''''
      | Some inputs \<Rightarrow> (case inputs fieldName of None \<Rightarrow> '''' | Some [] \<Rightarrow> '''' | Some (v # _) \<Rightarrow> v))"

record text_input =
  ti_Name :: string
  ti_Label :: string
  ti_Value :: string
  ti_Multiline :: bool
  ti_HintText :: string

text \<open>A button: its text, and the function and parameters of its action.\<close>

record button =
  bt_Text :: string
  bt_Action :: "(string \<times> (string \<times> string) list) option"

datatype widget = TextParagraph string | TextInput text_input | ButtonList "button list"

record card_header =
  ch_Title :: string
  ch_Subtitle :: string
  ch_ImageURL :: string

record card_section =
  cs_Header :: string
  cs_Collapsible :: bool
  cs_Widgets :: "widget list"

record card =
  cd_Header :: "card_header option"
  cd_Sections :: "card_section list"

datatype navigation = PushCard card | UpdateCard card

type_synonym card_response = "navigation list"

subsection \<open>timeentry.go\<close>

record time_entry =
  te_Client :: string
  te_Project :: string
  te_DurationHours :: float64
  te_Title :: string
  te_Summary :: string

definition Sanitize :: "time_entry \<Rightarrow> time_entry" where
  "Sanitize t0 =
     (let t1 = (if te_Client t0 = '''' then t0\<lparr>te_Client := ''General''\<rparr> else t0);
          t2 = (if te_Project t1 = '''' then t1\<lparr>te_Project := ''Work''\<rparr> else t1);
          t3 = (if fle (te_DurationHours t2) (Fin 0) then t2\<lparr>te_DurationHours := Fin 1\<rparr> else t2)
      in if te_Title t3 = '''' then t3\<lparr>te_Title := ''['' @ te_Client t3 @ ''] '' @ te_Project t3\<rparr> else t3)"

subsection \<open>The environment\<close>

record gemini_request =
  gq_URL :: string
  gq_Headers :: "(string \<times> string) list"
  gq_Body :: string

record gemini_reply =
  gr_StatusCode :: int
  gr_Text :: string

record addon_request =
  aq_Method :: string
  aq_Body :: string

text \<open>\<open>ad_decodeReply\<close> gives the texts of the parts of every candidate, \<open>ad_do\<close> sends a request.\<close>

record ('j, 'x, 'w) addon_env =
  ad_scan :: "string \<Rightarrow> bool \<Rightarrow> ('j, 'x) json_scan"
  ad_fit :: "'j \<Rightarrow> 'x err + addon_event"
  ad_encError :: "string \<Rightarrow> string"
  ad_encCard :: "card_response \<Rightarrow> 'x err + string"
  ad_getenv :: "string \<Rightarrow> string"
  ad_quote :: "string \<Rightarrow> string"
  ad_fmt2 :: "float64 \<Rightarrow> string"
  ad_marshal :: "string \<Rightarrow> 'x err + string"
  ad_newRequest :: "string \<Rightarrow> 'x err option"
  ad_do :: "gemini_request \<Rightarrow> 'w \<Rightarrow> ('x err + gemini_reply) \<times> 'w"
  ad_decodeReply :: "string \<Rightarrow> 'x err + string list list"
  ad_decodeEntry :: "string \<Rightarrow> 'x err + time_entry"

text \<open>\<open>http.Error\<close>.\<close>

definition http_Error :: "string \<Rightarrow> int \<Rightarrow> http_writer \<Rightarrow> 'x panic_value option \<times> http_writer" where
  "http_Error msg code w =
     (let w1 = header_Set ''X-Content-Type-Options'' ''nosniff'' (header_Set ''Content-Type'' ''text/plain; charset=utf-8''
                 (w\<lparr>hw_Header := AList.delete ''Content-Length'' (hw_Header w)\<rparr>)) in
      case http_WriteHeader code w1 of
        (Some p, w2) \<Rightarrow> (Some p, w2)
      | (None, w2) \<Rightarrow> (None, http_Write (msg @ [CHR 0x0A]) w2))"

subsection \<open>Gemini\<close>

definition geminiEndpoint :: string where
  "geminiEndpoint = ''https://generativelanguage.googleapis.com/v1beta/models/gemini-1.5-flash:generateContent''"

definition newline :: string where "newline = [CHR 0x0A]"
definition dquote :: string where "dquote = [CHR 0x22]"

definition gemini_prompt :: "(string \<Rightarrow> string) \<Rightarrow> string \<Rightarrow> string" where
  "gemini_prompt quote note =
     ''You are an expert time-tracking assistant.'' @ newline
     @ ''Analyze this work note and extract:'' @ newline
     @ ''- client (string)'' @ newline
     @ ''- project (string)'' @ newline
     @ ''- duration_hours (float, e.g. 0.5, 1.0, 1.5, default to 1.0)'' @ newline
     @ ''- title (string, e.g. '' @ dquote @ ''[Client] Task'' @ dquote @ '')'' @ newline
     @ ''- summary (string, 1-2 sentence timesheet description)'' @ newline @ newline
     @ ''Work note: '' @ quote note"

definition gemini_call :: "string \<Rightarrow> string \<Rightarrow> string \<Rightarrow> gemini_request" where
  "gemini_call endpoint apiKey body =
     \<lparr>gq_URL = endpoint, gq_Headers = [(''Content-Type'', ''application/json''), (''X-Goog-Api-Key'', apiKey)], gq_Body = body\<rparr>"

text \<open>What an answer of the endpoint yields.\<close>

definition gemini_entry :: "('j, 'x, 'w) addon_env \<Rightarrow> gemini_reply \<Rightarrow> 'x err + time_entry" where
  "gemini_entry env resp =
     (if gr_StatusCode resp \<noteq> 200 then Inl (errorf (''gemini API returned status '' @ show_int (gr_StatusCode resp) @ '': '' @ gr_Text resp) [])
      else (case ad_decodeReply env (gr_Text resp) of
        Inl e \<Rightarrow> Inl (wrapf ''failed to decode gemini response: '' e)
      | Inr [] \<Rightarrow> Inl (errorf ''empty response from gemini'' [])
      | Inr ([] # _) \<Rightarrow> Inl (errorf ''empty response from gemini'' [])
      | Inr ((rawJSON # _) # _) \<Rightarrow>
         (case ad_decodeEntry env rawJSON of
            Inl e \<Rightarrow> Inl (wrapf ''failed to parse structured time entry JSON: '' e)
          | Inr entry \<Rightarrow> Inr entry)))"

definition callGeminiExtractAt :: "('j, 'x, 'w) addon_env \<Rightarrow> string \<Rightarrow> string \<Rightarrow> string \<Rightarrow> 'w \<Rightarrow> ('x err + time_entry) \<times> 'w" where
  "callGeminiExtractAt env endpoint note apiKey w =
     (case ad_marshal env (gemini_prompt (ad_quote env) note) of
        Inl e \<Rightarrow> (Inl (wrapf ''failed to marshal request: '' e), w)
      | Inr body \<Rightarrow>
         (case ad_newRequest env endpoint of
            Some e \<Rightarrow> (Inl (wrapf ''failed to create http request: '' e), w)
          | None \<Rightarrow>
             (case ad_do env (gemini_call endpoint apiKey body) w of
                (Inl e, w') \<Rightarrow> (Inl (wrapf ''gemini request failed: '' e), w')
              | (Inr resp, w') \<Rightarrow> (gemini_entry env resp, w'))))"

definition callGeminiExtract :: "('j, 'x, 'w) addon_env \<Rightarrow> string \<Rightarrow> string \<Rightarrow> 'w \<Rightarrow> ('x err + time_entry) \<times> 'w" where
  "callGeminiExtract env note apiKey w = callGeminiExtractAt env geminiEndpoint note apiKey w"

subsection \<open>The handlers\<close>

definition memo_sign :: string where "memo_sign = [CHR 0xF0, CHR 0x9F, CHR 0x93, CHR 0x9D]"
definition sparkles :: string where "sparkles = [CHR 0xE2, CHR 0x9C, CHR 0xA8]"

definition homepage_card :: card where
  "homepage_card =
     \<lparr>cd_Header = Some \<lparr>ch_Title = ''AI Time Tracker (Go)'', ch_Subtitle = ''Powered by Alexandria & Gemini Flash'',
        ch_ImageURL = ''https://www.gstatic.com/images/icons/material/system/1x/schedule_black_24dp.png''\<rparr>,
      cd_Sections = [\<lparr>cs_Header = '''', cs_Collapsible = False, cs_Widgets =
        [TextParagraph (memo_sign @ '' <b>Describe your work in plain English:</b><br>Our Go backend will structure your time log with Gemini AI.''),
         TextInput \<lparr>ti_Name = ''work_note'', ti_Label = ''Work Note'', ti_Value = '''', ti_Multiline = True,
           ti_HintText = ''e.g. Spent 2 hours reviewing PRs and deploying Cloud Run for Acme''\<rparr>,
         ButtonList [\<lparr>bt_Text = sparkles @ '' Analyze & Structure with AI'', bt_Action = Some (''onAnalyzeNote'', [(''action'', ''analyze'')])\<rparr>]]\<rparr>]\<rparr>"

definition handleHomepage :: "('j, 'x, 'w) addon_env \<Rightarrow> http_writer \<Rightarrow> 'x panic_value option \<times> http_writer" where
  "handleHomepage env rw = EncodeJSON 200 (ad_encCard env [PushCard homepage_card]) rw"

definition text_field :: "string \<Rightarrow> string \<Rightarrow> bool \<Rightarrow> string \<Rightarrow> widget" where
  "text_field name label multiline v = TextInput \<lparr>ti_Name = name, ti_Label = label, ti_Value = v, ti_Multiline = multiline, ti_HintText = ''''\<rparr>"

definition confirm_card :: "(float64 \<Rightarrow> string) \<Rightarrow> time_entry \<Rightarrow> card" where
  "confirm_card fmt2 entry =
     \<lparr>cd_Header = Some \<lparr>ch_Title = ''Confirm Time Entry'', ch_Subtitle = te_Title entry, ch_ImageURL = ''''\<rparr>,
      cd_Sections = [\<lparr>cs_Header = '''', cs_Collapsible = False, cs_Widgets =
        [text_field ''entry_title'' ''Event Title'' False (te_Title entry),
         text_field ''entry_duration'' ''Duration (Hours)'' False (fmt2 (te_DurationHours entry)),
         text_field ''entry_summary'' ''Description / Notes'' True (te_Summary entry),
         TextParagraph (''Client: <b>'' @ te_Client entry @ ''</b> | Project: <b>'' @ te_Project entry @ ''</b>'')]\<rparr>]\<rparr>"

definition handleAnalyzeNote :: "('j, 'x, 'w) addon_env \<Rightarrow> addon_event \<Rightarrow> http_writer \<Rightarrow> 'w \<Rightarrow> ('x panic_value option \<times> http_writer) \<times> 'w" where
  "handleAnalyzeNote env event rw w =
     (let note = FormInputValue event ''work_note''; apiKey = ad_getenv env ''GEMINI_API_KEY'' in
      if note = '''' then (handleHomepage env rw, w)
      else if apiKey = '''' then (http_Error ''GEMINI_API_KEY not configured'' 500 rw, w)
      else (case callGeminiExtract env note apiKey w of
        (Inl e, w') \<Rightarrow> (http_Error (''AI extraction failed: '' @ err_text e) 500 rw, w')
      | (Inr entry, w') \<Rightarrow> (EncodeJSON 200 (ad_encCard env [PushCard (confirm_card (ad_fmt2 env) (Sanitize entry))]) rw, w')))"

definition HandleCalendarTrigger :: "('j, 'x, 'w) addon_env \<Rightarrow> (addon_request, 'x, 'w) handler" where
  "HandleCalendarTrigger env r rw w =
     (if aq_Method r \<noteq> ''POST'' then (http_Error ''Method not allowed'' 405 rw, w)
      else (case DecodeJSON (ad_scan env) (ad_fit env) DefaultMaxJSONSize (aq_Body r) of
        Inl e \<Rightarrow> (WriteError (ad_encError env) e rw, w)
      | Inr event \<Rightarrow>
          if ev_Parameters event ''action'' = Some ''analyze'' then handleAnalyzeNote env event rw w
          else (handleHomepage env rw, w)))"

subsection \<open>Sanitised entries\<close>

lemma Sanitize_complete:
  "te_Client (Sanitize t) \<noteq> '''' \<and> te_Project (Sanitize t) \<noteq> '''' \<and> te_Title (Sanitize t) \<noteq> '''' \<and> \<not> fle (te_DurationHours (Sanitize t)) (Fin 0)"
  by (simp add: Sanitize_def Let_def)

lemma Sanitize_idem: "Sanitize (Sanitize t) = Sanitize t"
  using Sanitize_complete [of t] by (subst Sanitize_def) (simp add: Let_def)

subsection \<open>Answers\<close>

text \<open>What the client has got from a writer that had sent nothing: status, headers and the whole body, without a panic and without informational answers.\<close>

definition answers :: "http_writer \<Rightarrow> 'x panic_value option \<times> http_writer \<Rightarrow> int \<times> (string \<times> string) list \<times> string \<Rightarrow> bool" where
  "answers rw res resp \<longleftrightarrow> fst res = None \<and> hw_Sent (snd res) \<noteq> None \<and> response_of (snd res) = resp \<and> hw_Info (snd res) = hw_Info rw"

text \<open>The answer with a text, that of an object, and that of an encoder that may fail after the status has been sent.\<close>

definition text_answer :: "http_writer \<Rightarrow> int \<Rightarrow> string \<Rightarrow> int \<times> (string \<times> string) list \<times> string" where
  "text_answer rw code msg =
     (code, AList.update ''X-Content-Type-Options'' ''nosniff'' (AList.update ''Content-Type'' ''text/plain; charset=utf-8''
        (AList.delete ''Content-Length'' (hw_Header rw))), hw_Body rw @ msg @ newline)"

definition json_answer :: "http_writer \<Rightarrow> int \<Rightarrow> string \<Rightarrow> int \<times> (string \<times> string) list \<times> string" where
  "json_answer rw code b = (code, AList.update ''Content-Type'' ''application/json'' (hw_Header rw), hw_Body rw @ b)"

definition card_answer :: "('j, 'x, 'w) addon_env \<Rightarrow> http_writer \<Rightarrow> card \<Rightarrow> int \<times> (string \<times> string) list \<times> string" where
  "card_answer env rw cd = json_answer rw 200 (case ad_encCard env [PushCard cd] of Inl e \<Rightarrow> '''' | Inr b \<Rightarrow> b)"

lemma http_Error_answers:
  "hw_Sent rw = None \<Longrightarrow> 200 \<le> code \<Longrightarrow> code \<le> 999 \<Longrightarrow> body_allowed code \<Longrightarrow> answers rw (http_Error msg code rw) (text_answer rw code msg)"
  by (simp add: http_Error_def http_WriteHeader_def header_Set_def http_Write_def answers_def text_answer_def response_of_def newline_def)

lemma card_answers: "hw_Sent rw = None \<Longrightarrow> answers rw (EncodeJSON 200 (ad_encCard env [PushCard cd]) rw) (card_answer env rw cd)"
  by (simp add: EncodeJSON_def http_WriteHeader_def header_Set_def http_Write_def answers_def card_answer_def json_answer_def response_of_def
      body_allowed_def Let_def split: sum.split)

lemma WriteError_answers:
  "hw_Sent rw = None \<Longrightarrow> error_reply e = (code, msg) \<Longrightarrow> body_allowed code \<Longrightarrow> answers rw (WriteError enc e rw) (json_answer rw code (enc msg))"
  by (simp add: WriteError_fresh answers_def json_answer_def response_of_def)

text \<open>An error that the classification of \<open>WriteError\<close> does not know, as those of the JSON decoder and of the size limit.\<close>

definition plain_error :: "'x err \<Rightarrow> bool" where
  "plain_error e \<longleftrightarrow> as_status_error e = None \<and> sentinel_status e = None"

lemma plain_error_500: "plain_error e \<Longrightarrow> error_reply e = (500, internal_message)"
  by (simp add: plain_error_def error_reply_def)

lemma plain_wrapf [simp]: "plain_error (wrapf m e) = plain_error e"
  by (simp add: plain_error_def sentinel_status_def)

lemma plain_sentinel: "nm \<notin> fst ` set sentinel_statuses \<Longrightarrow> plain_error (sentinel nm m)"
  by (force simp: plain_error_def sentinel_status_def find_None_iff)

lemma plain_decode_error:
  assumes "\<And>s b e. scan s b = ScanBad e \<Longrightarrow> plain_error e" and "\<And>j e. fit j = Inl e \<Longrightarrow> plain_error e"
    and "DecodeJSON scan fit n body = Inl e"
  shows "plain_error e"
proof -
  have own: "plain_error io_EOF" "plain_error max_bytes_error" "plain_error ErrTrailingGarbage"
    by (simp_all add: io_EOF_def max_bytes_error_def ErrTrailingGarbage_def plain_sentinel sentinel_statuses_def)
  show ?thesis using assms(3) own
    by (auto simp: DecodeJSON_def Let_def split: json_scan.splits sum.splits if_splits dest: assms(1,2))
qed

text \<open>The answer to every request: an error of the method or of the body, the homepage, or the outcome of the analysis of the note.\<close>

definition analysis_answer :: "('j, 'x, 'w) addon_env \<Rightarrow> http_writer \<Rightarrow> 'x err + time_entry \<Rightarrow> int \<times> (string \<times> string) list \<times> string" where
  "analysis_answer env rw res =
     (case res of Inl e \<Rightarrow> text_answer rw 500 (''AI extraction failed: '' @ err_text e)
      | Inr entry \<Rightarrow> card_answer env rw (confirm_card (ad_fmt2 env) (Sanitize entry)))"

definition trigger_answer :: "('j, 'x, 'w) addon_env \<Rightarrow> addon_request \<Rightarrow> http_writer \<Rightarrow> 'w \<Rightarrow> (int \<times> (string \<times> string) list \<times> string) \<times> 'w" where
  "trigger_answer env r rw w =
     (if aq_Method r \<noteq> ''POST'' then (text_answer rw 405 ''Method not allowed'', w)
      else (case DecodeJSON (ad_scan env) (ad_fit env) DefaultMaxJSONSize (aq_Body r) of
        Inl e \<Rightarrow> (json_answer rw 500 (ad_encError env ''An internal server error occurred''), w)
      | Inr ev \<Rightarrow>
          let note = FormInputValue ev ''work_note''; key = ad_getenv env ''GEMINI_API_KEY'' in
          if ev_Parameters ev ''action'' \<noteq> Some ''analyze'' \<or> note = '''' then (card_answer env rw homepage_card, w)
          else if key = '''' then (text_answer rw 500 ''GEMINI_API_KEY not configured'', w)
          else (let res = callGeminiExtract env note key w in (analysis_answer env rw (fst res), snd res))))"

lemma handleHomepage_answers: "hw_Sent rw = None \<Longrightarrow> answers rw (handleHomepage env rw) (card_answer env rw homepage_card)"
  by (simp add: handleHomepage_def card_answers)

lemma handleAnalyzeNote_answers:
  assumes "hw_Sent rw = None"
  shows "answers rw (fst (handleAnalyzeNote env ev rw w))
      (if FormInputValue ev ''work_note'' = '''' then card_answer env rw homepage_card
       else if ad_getenv env ''GEMINI_API_KEY'' = '''' then text_answer rw 500 ''GEMINI_API_KEY not configured''
       else analysis_answer env rw (fst (callGeminiExtract env (FormInputValue ev ''work_note'') (ad_getenv env ''GEMINI_API_KEY'') w)))
    \<and> snd (handleAnalyzeNote env ev rw w) =
      (if FormInputValue ev ''work_note'' = '''' \<or> ad_getenv env ''GEMINI_API_KEY'' = '''' then w
       else snd (callGeminiExtract env (FormInputValue ev ''work_note'') (ad_getenv env ''GEMINI_API_KEY'') w))"
  by (cases "callGeminiExtract env (FormInputValue ev ''work_note'') (ad_getenv env ''GEMINI_API_KEY'') w")
     (auto simp: handleAnalyzeNote_def Let_def analysis_answer_def handleHomepage_answers card_answers http_Error_answers assms body_allowed_def split: sum.split)

subsection \<open>The key\<close>

definition with_key :: "string \<Rightarrow> ('j, 'x, 'w) addon_env \<Rightarrow> ('j, 'x, 'w) addon_env" where
  "with_key k env = env\<lparr>ad_getenv := (ad_getenv env)(''GEMINI_API_KEY'' := k)\<rparr>"

lemma with_key_sel [simp]:
  "ad_scan (with_key k env) = ad_scan env" "ad_fit (with_key k env) = ad_fit env" "ad_encError (with_key k env) = ad_encError env"
  "ad_encCard (with_key k env) = ad_encCard env" "ad_quote (with_key k env) = ad_quote env" "ad_fmt2 (with_key k env) = ad_fmt2 env"
  "ad_marshal (with_key k env) = ad_marshal env" "ad_newRequest (with_key k env) = ad_newRequest env" "ad_do (with_key k env) = ad_do env"
  "ad_decodeReply (with_key k env) = ad_decodeReply env" "ad_decodeEntry (with_key k env) = ad_decodeEntry env"
  "ad_getenv (with_key k env) ''GEMINI_API_KEY'' = k"
  by (simp_all add: with_key_def)

lemma handleHomepage_with_key [simp]: "handleHomepage (with_key k env) rw = handleHomepage env rw"
  by (simp add: handleHomepage_def)

lemma gemini_entry_with_key: "gemini_entry (with_key k env) resp = gemini_entry env resp"
  by (simp add: gemini_entry_def split: sum.split list.split)

text \<open>
  Two requests that differ only in the value of the header that carries the credential. The service and the HTTP library are known to us by what they document:
  a transport failure is an error with the URL, and a service does not repeat a credential; so requests alike up to the credential are answered alike.
\<close>

definition credential_header :: string where "credential_header = ''X-Goog-Api-Key''"

definition alike_but_credential :: "string \<Rightarrow> string \<Rightarrow> gemini_request \<Rightarrow> gemini_request \<Rightarrow> bool" where
  "alike_but_credential k k' q q' \<longleftrightarrow> gq_URL q = gq_URL q' \<and> gq_Body q = gq_Body q'
     \<and> filter (\<lambda>h. fst h \<noteq> credential_header) (gq_Headers q) = filter (\<lambda>h. fst h \<noteq> credential_header) (gq_Headers q')
     \<and> map snd (filter (\<lambda>h. fst h = credential_header) (gq_Headers q)) = [k]
     \<and> map snd (filter (\<lambda>h. fst h = credential_header) (gq_Headers q')) = [k']"

definition hides_credentials :: "string \<Rightarrow> string \<Rightarrow> (gemini_request \<Rightarrow> 'w \<Rightarrow> ('x err + gemini_reply) \<times> 'w) \<Rightarrow> bool" where
  "hides_credentials k k' http \<longleftrightarrow> (\<forall>q q' w. alike_but_credential k k' q q' \<longrightarrow> fst (http q w) = fst (http q' w))"

lemma gemini_calls_alike: "alike_but_credential k k' (gemini_call url k body) (gemini_call url k' body)"
  by (simp add: alike_but_credential_def gemini_call_def credential_header_def)

lemma callGeminiExtract_with_key:
  assumes "hides_credentials k k' (ad_do env)"
  shows "fst (callGeminiExtract (with_key k env) note k w) = fst (callGeminiExtract (with_key k' env) note k' w)"
proof (cases "ad_marshal env (gemini_prompt (ad_quote env) note)")
  case (Inr body)
  have "fst (ad_do env (gemini_call geminiEndpoint k body) w) = fst (ad_do env (gemini_call geminiEndpoint k' body) w)"
    using assms gemini_calls_alike unfolding hides_credentials_def by blast
  then show ?thesis using Inr
    by (cases "ad_do env (gemini_call geminiEndpoint k body) w"; cases "ad_do env (gemini_call geminiEndpoint k' body) w")
       (auto simp: callGeminiExtract_def callGeminiExtractAt_def gemini_entry_with_key split: sum.split option.split)
qed (simp add: callGeminiExtract_def callGeminiExtractAt_def)

subsection \<open>Properties\<close>

text \<open>C33. Every request gets exactly one answer, given in full with status, headers and body, nothing before or after it: another method than POST gets 405; a body
  that cannot be decoded gets 500, although it is the fault of the client; the homepage card is the answer unless the action asks for the analysis of a note that is
  there; that one fails with 500 without a key or without an entry from the endpoint and gives the confirmation card otherwise. The endpoint is called only then, and the
  world changes in no other way.\<close>
theorem every_request_is_answered:
  fixes env :: "('j, 'x, 'w) addon_env"
  assumes "hw_Sent rw = None"
    and "\<And>s b e. ad_scan env s b = ScanBad e \<Longrightarrow> plain_error e" and "\<And>j e. ad_fit env j = Inl e \<Longrightarrow> plain_error e"
  shows "answers rw (fst (HandleCalendarTrigger env r rw w)) (fst (trigger_answer env r rw w))
    \<and> snd (HandleCalendarTrigger env r rw w) = snd (trigger_answer env r rw w)"
proof (cases "aq_Method r = ''POST''")
  case False
  then show ?thesis by (simp add: HandleCalendarTrigger_def trigger_answer_def http_Error_answers assms(1) body_allowed_def)
next
  case True
  show ?thesis
  proof (cases "DecodeJSON (ad_scan env) (ad_fit env) DefaultMaxJSONSize (aq_Body r)")
    case (Inl e)
    then have "plain_error e" using plain_decode_error assms(2,3) by blast
    then have "answers rw (WriteError (ad_encError env) e rw) (json_answer rw 500 (ad_encError env internal_message))"
      using WriteError_answers [OF assms(1) plain_error_500] by (simp add: body_allowed_def)
    then show ?thesis using True Inl by (simp add: HandleCalendarTrigger_def trigger_answer_def internal_message_def)
  next
    case (Inr ev)
    then show ?thesis using True handleAnalyzeNote_answers [OF assms(1), of env ev w] handleHomepage_answers [OF assms(1), of env]
      by (auto simp: HandleCalendarTrigger_def trigger_answer_def Let_def split: if_splits)
  qed
qed

text \<open>C34. The API key reaches the client in no way. The only assumption is on the service and the HTTP library, whatever request they get: two requests that differ
  in nothing but the value of the credential header, \<open>k\<close> in one and \<open>k'\<close> in the other, have the same outcome, errors of the connection included. Then the
  handler's answers to every request are the same for both keys, headers, bodies and failure messages; so the key travels in that header and nowhere else.\<close>
theorem key_never_reaches_client:
  fixes env :: "('j, 'x, 'w) addon_env"
  assumes "\<And>q q' w. alike_but_credential k k' q q' \<Longrightarrow> fst (ad_do env q w) = fst (ad_do env q' w)" and "k \<noteq> ''''" "k' \<noteq> ''''"
  shows "fst (HandleCalendarTrigger (with_key k env) r rw w) = fst (HandleCalendarTrigger (with_key k' env) r rw w)"
proof -
  have "hides_credentials k k' (ad_do env)" using assms(1) by (simp add: hides_credentials_def)
  then have same: "fst (callGeminiExtract (with_key k env) nt k w) = fst (callGeminiExtract (with_key k' env) nt k' w)" for nt
    by (rule callGeminiExtract_with_key)
  have "fst (handleAnalyzeNote (with_key k env) ev rw w) = fst (handleAnalyzeNote (with_key k' env) ev rw w)" for ev
    using assms(2,3) same [of "FormInputValue ev ''work_note''"]
    by (cases "callGeminiExtract (with_key k env) (FormInputValue ev ''work_note'') k w"; cases "callGeminiExtract (with_key k' env) (FormInputValue ev ''work_note'') k' w")
       (auto simp: handleAnalyzeNote_def Let_def split: sum.split)
  then show ?thesis by (simp add: HandleCalendarTrigger_def split: sum.split)
qed

text \<open>An add-on whose decoder takes every body for the same event, and whose endpoint gives a fixed entry or refuses the connection.\<close>

definition note_event :: addon_event where
  "note_event = \<lparr>ev_HostApp = ''CALENDAR'', ev_FormInputs = Some [''work_note'' \<mapsto> [''2h review'']], ev_Parameters = [''action'' \<mapsto> ''analyze'']\<rparr>"

definition demo_addon :: "bool \<Rightarrow> (addon_event, unit, nat) addon_env" where
  "demo_addon up = \<lparr>ad_scan = (\<lambda>s b. if s = '''' then ScanEnd else ScanValue note_event ''''), ad_fit = Inr, ad_encError = id, ad_encCard = (\<lambda>c. Inr ''card''),
     ad_getenv = (\<lambda>k. ''key''), ad_quote = id, ad_fmt2 = (\<lambda>d. ''1.00''), ad_marshal = Inr, ad_newRequest = (\<lambda>u. None),
     ad_do = (\<lambda>q w. (if up then Inr \<lparr>gr_StatusCode = 200, gr_Text = ''e''\<rparr> else Inl (errorf (''dial '' @ gq_URL q) []), Suc w)),
     ad_decodeReply = (\<lambda>t. Inr [[t]]), ad_decodeEntry = (\<lambda>t. Inr \<lparr>te_Client = '''', te_Project = '''', te_DurationHours = Fin 0, te_Title = '''', te_Summary = ''''\<rparr>)\<rparr>"

theorem every_request_is_answered_witness:
  "answers fresh_writer (fst (HandleCalendarTrigger (demo_addon True) \<lparr>aq_Method = ''POST'', aq_Body = ''{}''\<rparr> fresh_writer 0))
     (200, [(''Content-Type'', ''application/json'')], ''card'')
   \<and> answers fresh_writer (fst (HandleCalendarTrigger (demo_addon True) \<lparr>aq_Method = ''GET'', aq_Body = ''''\<rparr> fresh_writer 0))
     (405, [(''Content-Type'', ''text/plain; charset=utf-8''), (''X-Content-Type-Options'', ''nosniff'')], ''Method not allowed'' @ newline)"
proof -
  have all: "answers fresh_writer (fst (HandleCalendarTrigger (demo_addon True) r fresh_writer 0)) (fst (trigger_answer (demo_addon True) r fresh_writer 0))" for r
    by (rule every_request_is_answered [THEN conjunct1]) (auto simp: fresh_writer_def demo_addon_def split: if_splits)
  have "DecodeJSON (ad_scan (demo_addon True)) (ad_fit (demo_addon True)) DefaultMaxJSONSize ''{}'' = Inr note_event"
    by (simp add: DecodeJSON_def demo_addon_def DefaultMaxJSONSize_num)
  moreover have "fst (callGeminiExtract (demo_addon True) (FormInputValue note_event ''work_note'') (ad_getenv (demo_addon True) ''GEMINI_API_KEY'') 0)
      = Inr \<lparr>te_Client = '''', te_Project = '''', te_DurationHours = Fin 0, te_Title = '''', te_Summary = ''''\<rparr>"
    by (simp add: callGeminiExtract_def callGeminiExtractAt_def gemini_entry_def demo_addon_def)
  moreover have "ad_encCard (demo_addon True) c = Inr ''card''" "ad_getenv (demo_addon True) kk = ''key''" for c kk by (simp_all add: demo_addon_def)
  moreover have "FormInputValue note_event ''work_note'' \<noteq> ''''" "ev_Parameters note_event ''action'' = Some ''analyze''"
    by (simp_all add: note_event_def FormInputValue_def)
  ultimately have "fst (trigger_answer (demo_addon True) \<lparr>aq_Method = ''POST'', aq_Body = ''{}''\<rparr> fresh_writer 0) = (200, [(''Content-Type'', ''application/json'')], ''card'')"
    by (simp add: trigger_answer_def Let_def analysis_answer_def card_answer_def json_answer_def fresh_writer_def split: prod.split)
  moreover have "fst (trigger_answer (demo_addon True) \<lparr>aq_Method = ''GET'', aq_Body = ''''\<rparr> fresh_writer 0)
      = (405, [(''Content-Type'', ''text/plain; charset=utf-8''), (''X-Content-Type-Options'', ''nosniff'')], ''Method not allowed'' @ newline)"
    by (simp add: trigger_answer_def text_answer_def fresh_writer_def)
  ultimately show ?thesis using all by metis
qed

theorem key_never_reaches_client_witness:
  "fst (HandleCalendarTrigger (with_key ''k1'' (demo_addon False)) \<lparr>aq_Method = ''POST'', aq_Body = ''{}''\<rparr> fresh_writer 0)
     = fst (HandleCalendarTrigger (with_key ''k2'' (demo_addon False)) \<lparr>aq_Method = ''POST'', aq_Body = ''{}''\<rparr> fresh_writer 0)"
  by (rule key_never_reaches_client) (simp_all add: demo_addon_def alike_but_credential_def)

end
