(* ===== verification/Iac_Core.thy ===== *)
theory Iac_Core
  imports Governance Go_Errors Go_Float
begin

section \<open>iac/pulumi/gcpinfra: the building blocks of a deployment\<close>

text \<open>
  \<open>src/go/iac/pulumi/gcpinfra/\<close>: each block validates its configuration and registers resources with the Pulumi engine. A program is a
  function over what has been registered and exported so far; the engine may refuse a resource, and a missing required configuration value
  panics. The outputs of a resource are not known while the program runs: they are symbolic values that name the resource and the field. A
  resource carries its type and logical name (together its URN), its arguments, whether it is protected, the resources it waits for and the arguments
  whose changes are left to others.
\<close>

subsection \<open>Programs\<close>

datatype pval =
    PStr string | PInt int | PBool bool | PFloat float64
  | POut string string string
  | PCat "pval list" | PList "pval list" | PMap "(string \<times> pval) list"
  | PSecret pval

record resource =
  rs_Type :: string
  rs_Name :: string
  rs_Args :: "(string \<times> pval) list"
  rs_Protect :: "bool option"
  rs_DependsOn :: "(string \<times> string) list"
  rs_IgnoreChanges :: "string list"

definition urn :: "resource \<Rightarrow> string \<times> string" where
  "urn r = (rs_Type r, rs_Name r)"

record deploy_state =
  dp_Resources :: "resource list"
  dp_Exports :: "(string \<times> pval) list"

datatype ('a, 'x) outcome = Ret 'a | Fails "'x err" | Panics string

type_synonym ('a, 'x) deploy = "deploy_state \<Rightarrow> ('a, 'x) outcome \<times> deploy_state"
type_synonym 'x engine = "deploy_state \<Rightarrow> resource \<Rightarrow> 'x err option"

definition ret :: "'a \<Rightarrow> ('a, 'x) deploy" where
  "ret a s = (Ret a, s)"

definition fails :: "'x err \<Rightarrow> ('a, 'x) deploy" where
  "fails e s = (Fails e, s)"

definition panics :: "string \<Rightarrow> ('a, 'x) deploy" where
  "panics m s = (Panics m, s)"

definition andThen :: "('a, 'x) deploy \<Rightarrow> ('a \<Rightarrow> ('b, 'x) deploy) \<Rightarrow> ('b, 'x) deploy" where
  "andThen m f s = (case m s of (Ret a, s') \<Rightarrow> f a s' | (Fails e, s') \<Rightarrow> (Fails e, s') | (Panics p, s') \<Rightarrow> (Panics p, s'))"

text \<open>\<open>if err != nil { return fmt.Errorf("...: %w", err) }\<close>.\<close>

definition wrapping :: "string \<Rightarrow> ('a, 'x) deploy \<Rightarrow> ('a, 'x) deploy" where
  "wrapping msg m s = (case m s of (Fails e, s') \<Rightarrow> (Fails (wrapf msg e), s') | r \<Rightarrow> r)"

definition require_ok :: "'x err option \<Rightarrow> (unit, 'x) deploy" where
  "require_ok oe = (case oe of None \<Rightarrow> ret () | Some e \<Rightarrow> fails e)"

fun each :: "('a \<Rightarrow> ('b, 'x) deploy) \<Rightarrow> 'a list \<Rightarrow> ('b list, 'x) deploy" where
  "each f [] = ret []"
| "each f (x # xs) = andThen (f x) (\<lambda>y. andThen (each f xs) (\<lambda>ys. ret (y # ys)))"

definition register :: "'x engine \<Rightarrow> resource \<Rightarrow> (unit, 'x) deploy" where
  "register eng r s = (case eng s r of Some e \<Rightarrow> (Fails e, s) | None \<Rightarrow> (Ret (), s\<lparr>dp_Resources := dp_Resources s @ [r]\<rparr>))"

definition export :: "string \<Rightarrow> pval \<Rightarrow> (unit, 'x) deploy" where
  "export k v s = (Ret (), s\<lparr>dp_Exports := dp_Exports s @ [(k, v)]\<rparr>)"

text \<open>A resource without a protect option inherits it.\<close>

definition plain :: "string \<Rightarrow> string \<Rightarrow> (string \<times> pval) list \<Rightarrow> (string \<times> string) list \<Rightarrow> resource" where
  "plain ty nm args deps = \<lparr>rs_Type = ty, rs_Name = nm, rs_Args = args, rs_Protect = None, rs_DependsOn = deps, rs_IgnoreChanges = []\<rparr>"

definition guarded :: "string \<Rightarrow> string \<Rightarrow> (string \<times> pval) list \<Rightarrow> (string \<times> string) list \<Rightarrow> bool \<Rightarrow> resource" where
  "guarded ty nm args deps p = \<lparr>rs_Type = ty, rs_Name = nm, rs_Args = args, rs_Protect = Some p, rs_DependsOn = deps, rs_IgnoreChanges = []\<rparr>"

subsection \<open>lifecycle and names\<close>

text \<open>An option of a block; None is a nil option.\<close>

datatype lifecycle_option = Ephemeral

definition IsEphemeral :: "lifecycle_option option list \<Rightarrow> bool" where
  "IsEphemeral opts = list_ex (\<lambda>opt. opt = Some Ephemeral) opts"

definition Protect :: "lifecycle_option option list \<Rightarrow> bool" where
  "Protect opts = (\<not> IsEphemeral opts)"

definition deletion_policy :: "lifecycle_option option list \<Rightarrow> pval" where
  "deletion_policy opts = PStr (if IsEphemeral opts then ''DELETE'' else ''PREVENT'')"

fun duplicate_in :: "string set \<Rightarrow> string list \<Rightarrow> string option" where
  "duplicate_in seen [] = None"
| "duplicate_in seen (k # ks) = (if k \<in> seen then Some k else duplicate_in (insert k seen) ks)"

definition Duplicate :: "('a \<Rightarrow> string) \<Rightarrow> 'a list \<Rightarrow> string option" where
  "Duplicate key items = duplicate_in {} (map key items)"

subsection \<open>projects\<close>

record project_config =
  pj_Name :: string
  pj_FolderID :: string
  pj_BillingAccount :: string
  pj_APIs :: "string list"

fun apis_error :: "string set \<Rightarrow> string list \<Rightarrow> 'x err option" where
  "apis_error seen [] = None"
| "apis_error seen (api # apis) =
     (if api = '''' then Some (sentinel ''projects.ErrEmptyAPI'' ''projects: API name must not be empty'')
      else if api \<in> seen then Some (errorf (''projects: duplicate API '' @ go_quote api) [sentinel ''projects.ErrDuplicateAPI'' ''projects: duplicate API''])
      else apis_error (insert api seen) apis)"

definition project_Validate :: "project_config \<Rightarrow> 'x err option" where
  "project_Validate c =
     (if pj_Name c = '''' then Some (sentinel ''projects.ErrNameRequired'' ''projects: Name is required'')
      else if pj_FolderID c = '''' then Some (sentinel ''projects.ErrFolderIDRequired'' ''projects: FolderID is required'')
      else if pj_BillingAccount c = '''' then Some (sentinel ''projects.ErrBillingAccountRequired'' ''projects: BillingAccount is required'')
      else apis_error {} (pj_APIs c))"

definition project_type :: string where "project_type = ''organizations.Project''"
definition service_type :: string where "service_type = ''projects.Service''"

definition project_resource :: "project_config \<Rightarrow> lifecycle_option option list \<Rightarrow> resource" where
  "project_resource c opts =
     guarded project_type (pj_Name c)
       [(''Name'', PStr (pj_Name c)), (''ProjectId'', PStr (pj_Name c)), (''FolderId'', PStr (pj_FolderID c)), (''BillingAccount'', PStr (pj_BillingAccount c)),
        (''DeletionPolicy'', deletion_policy opts), (''AutoCreateNetwork'', PBool False)] [] (Protect opts)"

definition service_resource :: "project_config \<Rightarrow> string \<Rightarrow> resource" where
  "service_resource c api =
     plain service_type (pj_Name c @ ''-'' @ api)
       [(''Project'', POut project_type (pj_Name c) ''ProjectId''), (''Service'', PStr api), (''DisableDependentServices'', PBool False), (''DisableOnDestroy'', PBool False)]
       [(project_type, pj_Name c)]"

text \<open>The id and the number of the project.\<close>

definition projects_Apply :: "'x engine \<Rightarrow> project_config \<Rightarrow> lifecycle_option option list \<Rightarrow> (pval \<times> pval, 'x) deploy" where
  "projects_Apply eng c opts =
     andThen (require_ok (project_Validate c)) (\<lambda>_.
     andThen (wrapping (''create project '' @ pj_Name c @ '': '') (register eng (project_resource c opts))) (\<lambda>_.
     andThen (each (\<lambda>api. wrapping (''enable API '' @ api @ '' on '' @ pj_Name c @ '': '') (register eng (service_resource c api))) (pj_APIs c)) (\<lambda>_.
     ret (POut project_type (pj_Name c) ''ProjectId'', POut project_type (pj_Name c) ''Number''))))"

subsection \<open>folders\<close>

definition ErrInvalidParent :: "'x err" where
  "ErrInvalidParent = sentinel ''folders.ErrInvalidParent'' (''folders: parent must start with '' @ go_quote ''organizations/'' @ '' or '' @ go_quote ''folders/'')"

definition ParseScope :: "string \<Rightarrow> 'x err + scope" where
  "ParseScope parent =
     (if has_prefix parent ''organizations/'' then Inr Organization
      else if has_prefix parent ''folders/'' then Inr Container
      else Inl (errorf (err_text (ErrInvalidParent :: 'x err) @ '', got '' @ go_quote parent) [ErrInvalidParent]))"

definition trim_prefix :: "string \<Rightarrow> string \<Rightarrow> string" where
  "trim_prefix s p = (if has_prefix s p then drop (length p) s else s)"

definition folders_OrgID :: "string \<Rightarrow> string" where
  "folders_OrgID parent = trim_prefix parent ''organizations/''"

fun hierarchy_err :: "hierarchy_error \<Rightarrow> 'x err" where
  "hierarchy_err ErrParentRequired = sentinel ''hierarchy.ErrParentRequired'' ''hierarchy: Parent is required''"
| "hierarchy_err ErrRootNameRequired = sentinel ''hierarchy.ErrRootNameRequired'' ''hierarchy: RootName is required''"
| "hierarchy_err ErrEmptyChild = sentinel ''hierarchy.ErrEmptyChild'' ''hierarchy: child name must not be empty''"
| "hierarchy_err (ErrDuplicateChild c) = errorf (''hierarchy: duplicate child '' @ go_quote c) [sentinel ''hierarchy.ErrDuplicateChild'' ''hierarchy: duplicate child'']"
| "hierarchy_err ErrNoChildren = sentinel ''hierarchy.ErrNoChildren'' ''hierarchy: at least one child is required''"

definition folder_type :: string where "folder_type = ''organizations.Folder''"

definition folder_resource :: "pval \<Rightarrow> string \<Rightarrow> lifecycle_option option list \<Rightarrow> resource" where
  "folder_resource parent name opts =
     guarded folder_type name [(''Parent'', parent), (''DisplayName'', PStr name), (''DeletionProtection'', PBool (\<not> IsEphemeral opts))] [] (Protect opts)"

definition ErrDuplicateFolder :: "'x err" where
  "ErrDuplicateFolder = sentinel ''folders.ErrDuplicateFolder'' ''folders: duplicate folder name''"

text \<open>The id of the root folder, and the ids of the children by name.\<close>

definition folders_Apply :: "'x engine \<Rightarrow> hierarchy_config \<Rightarrow> lifecycle_option option list \<Rightarrow> (pval \<times> (string \<times> pval) list, 'x) deploy" where
  "folders_Apply eng c opts =
     andThen (wrapping ''folders: '' (require_ok (map_option hierarchy_err (ValidateBase c)))) (\<lambda>_.
     andThen (wrapping ''folders: '' (require_ok (map_option hierarchy_err (ValidateChildren c)))) (\<lambda>_.
     andThen (require_ok (if RootName c \<in> set (Children c)
        then Some (errorf (err_text (ErrDuplicateFolder :: 'x err) @ '' '' @ go_quote (RootName c) @ '': a child cannot share the root folder'' @ [CHR 0x27] @ ''s name'') [ErrDuplicateFolder])
        else None)) (\<lambda>_.
     andThen (case ParseScope (Parent c) of Inl e \<Rightarrow> fails e | Inr _ \<Rightarrow> ret ()) (\<lambda>_.
     andThen (wrapping (''create '' @ RootName c @ '' folder: '') (register eng (folder_resource (PStr (Parent c)) (RootName c) opts))) (\<lambda>_.
     andThen (each (\<lambda>child. andThen (wrapping (''create '' @ child @ '' folder: '')
          (register eng (folder_resource (POut folder_type (RootName c) ''Name'') child opts))) (\<lambda>_. ret (child, POut folder_type child ''FolderId'')))
        (Children c)) (\<lambda>ids.
     ret (POut folder_type (RootName c) ''FolderId'', ids)))))))"

subsection \<open>tagkeys\<close>

fun dimension_err :: "dimension_error \<Rightarrow> 'x err" where
  "dimension_err ErrShortNameRequired = sentinel ''classification.ErrShortNameRequired'' ''classification: ShortName is required''"
| "dimension_err ErrDescriptionRequired = sentinel ''classification.ErrDescriptionRequired'' ''classification: Description is required''"
| "dimension_err ErrNoDimensions = sentinel ''classification.ErrNoDimensions'' ''classification: at least one dimension is required''"
| "dimension_err (ErrDuplicateShortName n) = errorf (''classification: duplicate ShortName '' @ go_quote n)
     [sentinel ''classification.ErrDuplicateShortName'' ''classification: duplicate ShortName'']"

definition tagkey_type :: string where "tagkey_type = ''tags.TagKey''"

definition tagkey_resource :: "string \<Rightarrow> dimension \<Rightarrow> lifecycle_option option list \<Rightarrow> resource" where
  "tagkey_resource orgID d opts =
     guarded tagkey_type (ShortName d)
       [(''Parent'', PStr (''organizations/'' @ orgID)), (''ShortName'', PStr (ShortName d)), (''Description'', PStr (Description d))] [] (Protect opts)"

definition tagkeys_Apply :: "'x engine \<Rightarrow> string \<Rightarrow> dimension list \<Rightarrow> lifecycle_option option list \<Rightarrow> ((string \<times> pval) list, 'x) deploy" where
  "tagkeys_Apply eng orgID dims opts =
     andThen (require_ok (if orgID = '''' then Some (sentinel ''tagkeys.ErrOrgIDRequired'' ''tagkeys: orgID is required'') else None)) (\<lambda>_.
     andThen (wrapping ''tagkeys: '' (require_ok (map_option dimension_err (ValidateAll dims)))) (\<lambda>_.
     each (\<lambda>d. andThen (wrapping (''create '' @ ShortName d @ '' tag key: '') (register eng (tagkey_resource orgID d opts))) (\<lambda>_. ret (ShortName d, POut tagkey_type (ShortName d) ''id''))) dims))"

end
