(* ===== verification/Iac_Blocks.thy ===== *)
theory Iac_Blocks
  imports Iac_Core
begin

section \<open>iac/pulumi/gcpinfra: access, data, delivery and monitoring blocks\<close>

text \<open>
  \<open>src/go/iac/pulumi/gcpinfra/{iambindings,registries,secrets,serviceaccounts,triggers,connections,budgets,uptimechecks,logsinks,datasets}/\<close>,
  in the style of \<open>Iac_Core\<close>. A required field that is missing is the sentinel of the package.
\<close>

text \<open>The first field that is empty, with its sentinel and message.\<close>

fun first_missing :: "(string \<times> string \<times> string) list \<Rightarrow> 'x err option" where
  "first_missing [] = None"
| "first_missing ((v, nm, msg) # rest) = (if v = '''' then Some (sentinel nm msg) else first_missing rest)"

subsection \<open>iambindings\<close>

record binding =
  bn_Name :: string
  bn_ProjectID :: string
  bn_Role :: string
  bn_Member :: string

definition binding_Validate :: "binding \<Rightarrow> 'x err option" where
  "binding_Validate b = first_missing
     [(bn_Name b, ''iambindings.ErrNameRequired'', ''iambindings: Name is required''),
      (bn_ProjectID b, ''iambindings.ErrProjectIDRequired'', ''iambindings: ProjectID is required''),
      (bn_Role b, ''iambindings.ErrRoleRequired'', ''iambindings: Role is required''),
      (bn_Member b, ''iambindings.ErrMemberRequired'', ''iambindings: Member is required'')]"

definition iam_type :: string where "iam_type = ''projects.IAMMember''"
definition sa_iam_type :: string where "sa_iam_type = ''serviceaccount.IAMMember''"

definition bindings_Apply :: "'x engine \<Rightarrow> binding list \<Rightarrow> (unit, 'x) deploy" where
  "bindings_Apply eng bs =
     andThen (each (\<lambda>b. andThen (require_ok (binding_Validate b)) (\<lambda>_. wrapping (''create IAM binding '' @ bn_Name b @ '': '')
        (register eng (plain iam_type (bn_Name b) [(''Project'', PStr (bn_ProjectID b)), (''Role'', PStr (bn_Role b)), (''Member'', PStr (bn_Member b))] [])))) bs)
       (\<lambda>_. ret ())"

record dynamic_binding =
  dy_Name :: string
  dy_Target :: pval
  dy_Role :: string
  dy_Member :: pval

text \<open>Both return the URNs of what they created; the target is a project, or a service account for the second.\<close>

definition ApplyDynamic :: "'x engine \<Rightarrow> dynamic_binding list \<Rightarrow> ((string \<times> string) list, 'x) deploy" where
  "ApplyDynamic eng bs =
     each (\<lambda>b. andThen (wrapping (''create IAM binding '' @ dy_Name b @ '': '')
        (register eng (plain iam_type (dy_Name b) [(''Project'', dy_Target b), (''Role'', PStr (dy_Role b)), (''Member'', dy_Member b)] [])))
        (\<lambda>_. ret (iam_type, dy_Name b))) bs"

definition ApplySAIam :: "'x engine \<Rightarrow> dynamic_binding list \<Rightarrow> ((string \<times> string) list, 'x) deploy" where
  "ApplySAIam eng bs =
     each (\<lambda>b. andThen (wrapping (''create SA IAM binding '' @ dy_Name b @ '': '')
        (register eng (plain sa_iam_type (dy_Name b) [(''ServiceAccountId'', dy_Target b), (''Role'', PStr (dy_Role b)), (''Member'', dy_Member b)] [])))
        (\<lambda>_. ret (sa_iam_type, dy_Name b))) bs"

subsection \<open>registries\<close>

record registry_config =
  rg_ID :: string
  rg_Description :: string
  rg_Format :: string
  rg_Location :: string

definition registry_Validate :: "registry_config \<Rightarrow> 'x err option" where
  "registry_Validate c = first_missing
     [(rg_ID c, ''registries.ErrIDRequired'', ''registries: ID is required''),
      (rg_Format c, ''registries.ErrFormatRequired'', ''registries: Format is required''),
      (rg_Location c, ''registries.ErrLocationRequired'', ''registries: Location is required'')]"

definition registry_type :: string where "registry_type = ''artifactregistry.Repository''"
definition registry_iam_type :: string where "registry_iam_type = ''artifactregistry.RepositoryIamMember''"

definition registry_resource :: "pval \<Rightarrow> registry_config \<Rightarrow> (string \<times> string) list \<Rightarrow> lifecycle_option option list \<Rightarrow> resource" where
  "registry_resource projectID c deps opts =
     guarded registry_type (rg_ID c)
       [(''Project'', projectID), (''Location'', PStr (rg_Location c)), (''RepositoryId'', PStr (rg_ID c)), (''Format'', PStr (rg_Format c)),
        (''Description'', PStr (rg_Description c)), (''DeletionPolicy'', deletion_policy opts)] deps (Protect opts)"

text \<open>The id and the name of the repository.\<close>

definition registries_Apply :: "'x engine \<Rightarrow> pval \<Rightarrow> registry_config \<Rightarrow> (string \<times> string) list \<Rightarrow> lifecycle_option option list \<Rightarrow> (pval \<times> pval, 'x) deploy" where
  "registries_Apply eng projectID c deps opts =
     andThen (require_ok (registry_Validate c)) (\<lambda>_.
     andThen (wrapping (''create registry '' @ rg_ID c @ '': '') (register eng (registry_resource projectID c deps opts))) (\<lambda>_.
     ret (POut registry_type (rg_ID c) ''id'', POut registry_type (rg_ID c) ''Name'')))"

definition registry_grant :: "string \<Rightarrow> string \<Rightarrow> pval \<Rightarrow> string \<Rightarrow> pval \<Rightarrow> pval \<Rightarrow> resource" where
  "registry_grant role name projectID location repoName member =
     plain registry_iam_type name [(''Project'', projectID), (''Location'', PStr location), (''Repository'', repoName), (''Role'', PStr role), (''Member'', member)] []"

definition GrantReader :: "'x engine \<Rightarrow> string \<Rightarrow> pval \<Rightarrow> string \<Rightarrow> pval \<Rightarrow> pval \<Rightarrow> (unit, 'x) deploy" where
  "GrantReader eng name projectID location repoName member =
     wrapping (''grant AR reader '' @ name @ '': '') (register eng (registry_grant ''roles/artifactregistry.reader'' name projectID location repoName member))"

definition GrantWriter :: "'x engine \<Rightarrow> string \<Rightarrow> pval \<Rightarrow> string \<Rightarrow> pval \<Rightarrow> pval \<Rightarrow> (unit, 'x) deploy" where
  "GrantWriter eng name projectID location repoName member =
     wrapping (''grant AR writer '' @ name @ '': '') (register eng (registry_grant ''roles/artifactregistry.writer'' name projectID location repoName member))"

subsection \<open>secrets\<close>

record secret =
  sc_Name :: string
  sc_Value :: string

definition secret_Validate :: "secret \<Rightarrow> 'x err option" where
  "secret_Validate s = first_missing
     [(sc_Name s, ''secrets.ErrNameRequired'', ''secrets: Name is required''), (sc_Value s, ''secrets.ErrValueRequired'', ''secrets: Value is required'')]"

fun secrets_error :: "string set \<Rightarrow> secret list \<Rightarrow> 'x err option" where
  "secrets_error seen [] = None"
| "secrets_error seen (s # ss) =
     (case secret_Validate s of Some e \<Rightarrow> Some e
      | None \<Rightarrow> if sc_Name s \<in> seen then Some (errorf (''secrets: duplicate Name '' @ go_quote (sc_Name s)) [sentinel ''secrets.ErrDuplicateName'' ''secrets: duplicate Name''])
          else secrets_error (insert (sc_Name s) seen) ss)"

definition secrets_ValidateAll :: "secret list \<Rightarrow> 'x err option" where
  "secrets_ValidateAll ss =
     (if ss = [] then Some (sentinel ''secrets.ErrNoSecrets'' ''secrets: at least one secret is required'') else secrets_error {} ss)"

definition secret_type :: string where "secret_type = ''secretmanager.Secret''"
definition secret_version_type :: string where "secret_version_type = ''secretmanager.SecretVersion''"

definition secret_resource :: "pval \<Rightarrow> string \<Rightarrow> (string \<times> string) list \<Rightarrow> lifecycle_option option list \<Rightarrow> resource" where
  "secret_resource projectID name deps opts =
     guarded secret_type name
       [(''Project'', projectID), (''SecretId'', PStr name), (''Replication'', PMap [(''Auto'', PMap [])]), (''DeletionPolicy'', deletion_policy opts),
        (''DeletionProtection'', PBool (\<not> IsEphemeral opts))] deps (Protect opts)"

definition secret_version_resource :: "secret \<Rightarrow> resource" where
  "secret_version_resource s =
     plain secret_version_type (sc_Name s @ ''-v1'') [(''Secret'', POut secret_type (sc_Name s) ''id''), (''SecretData'', PSecret (PStr (sc_Value s)))] []"

text \<open>\<open>pulumi.ToSecret\<close> of a string is a string output, so the type assertion of the code always succeeds.\<close>

definition secrets_Apply :: "'x engine \<Rightarrow> pval \<Rightarrow> secret list \<Rightarrow> (string \<times> string) list \<Rightarrow> lifecycle_option option list \<Rightarrow> (unit, 'x) deploy" where
  "secrets_Apply eng projectID ss deps opts =
     andThen (require_ok (secrets_ValidateAll ss)) (\<lambda>_.
     andThen (each (\<lambda>s.
        andThen (wrapping (''create secret '' @ sc_Name s @ '': '') (register eng (secret_resource projectID (sc_Name s) deps opts))) (\<lambda>_.
        wrapping (''create secret version '' @ sc_Name s @ '': '') (register eng (secret_version_resource s)))) ss) (\<lambda>_. ret ()))"

subsection \<open>serviceaccounts\<close>

record account =
  sa_ID :: string
  sa_DisplayName :: string

definition account_Validate :: "account \<Rightarrow> 'x err option" where
  "account_Validate a = first_missing
     [(sa_ID a, ''serviceaccounts.ErrIDRequired'', ''serviceaccounts: ID is required''),
      (sa_DisplayName a, ''serviceaccounts.ErrDisplayNameRequired'', ''serviceaccounts: DisplayName is required'')]"

definition account_type :: string where "account_type = ''serviceaccount.Account''"

text \<open>The map from ids to emails, in the order of the accounts; an account that is listed twice has one entry.\<close>

definition serviceaccounts_Apply :: "'x engine \<Rightarrow> pval \<Rightarrow> account list \<Rightarrow> (string \<times> string) list \<Rightarrow> ((string \<times> pval) list, 'x) deploy" where
  "serviceaccounts_Apply eng projectID accounts deps =
     andThen (each (\<lambda>a. andThen (require_ok (account_Validate a)) (\<lambda>_.
        andThen (wrapping (''create SA '' @ sa_ID a @ '': '') (register eng (plain account_type (sa_ID a)
          [(''Project'', projectID), (''AccountId'', PStr (sa_ID a)), (''DisplayName'', PStr (sa_DisplayName a))] deps))) (\<lambda>_.
        ret (sa_ID a, POut account_type (sa_ID a) ''Email'')))) accounts) (\<lambda>emails. ret (remdups emails))"

subsection \<open>triggers\<close>

record trigger_config =
  tr_Name :: string
  tr_TagPattern :: string
  tr_ConfigFile :: string
  tr_Substitutions :: "(string \<times> string) list"
  tr_RequireApproval :: bool

definition trigger_Validate :: "trigger_config \<Rightarrow> 'x err option" where
  "trigger_Validate c = first_missing
     [(tr_Name c, ''triggers.ErrNameRequired'', ''triggers: Name is required''),
      (tr_TagPattern c, ''triggers.ErrTagPatternRequired'', ''triggers: TagPattern is required''),
      (tr_ConfigFile c, ''triggers.ErrConfigFileRequired'', ''triggers: ConfigFile is required'')]"

definition trigger_type :: string where "trigger_type = ''cloudbuild.Trigger''"

definition triggers_Apply :: "'x engine \<Rightarrow> pval \<Rightarrow> string \<Rightarrow> pval \<Rightarrow> pval \<Rightarrow> trigger_config \<Rightarrow> (string \<times> string) list \<Rightarrow> (unit, 'x) deploy" where
  "triggers_Apply eng projectID region repoID triggerSA c deps =
     andThen (require_ok (trigger_Validate c)) (\<lambda>_.
     wrapping (''create trigger '' @ tr_Name c @ '': '') (register eng (plain trigger_type (tr_Name c)
       ([(''Project'', projectID), (''Location'', PStr region), (''Name'', PStr (tr_Name c)),
         (''RepositoryEventConfig'', PMap [(''Repository'', repoID), (''Push'', PMap [(''Tag'', PStr (tr_TagPattern c))])]),
         (''Filename'', PStr (tr_ConfigFile c)), (''ServiceAccount'', triggerSA), (''Substitutions'', PMap (map (\<lambda>(k, v). (k, PStr v)) (tr_Substitutions c)))]
        @ (if tr_RequireApproval c then [(''ApprovalConfig'', PMap [(''ApprovalRequired'', PBool True)])] else [])) deps)))"

subsection \<open>connections\<close>

record connection_config =
  cn_Name :: string
  cn_Provider :: string
  cn_Region :: string
  cn_AppInstallationID :: int
  cn_OAuthSecretVersion :: string

definition connection_Validate :: "connection_config \<Rightarrow> 'x err option" where
  "connection_Validate c = first_missing
     [(cn_Name c, ''connections.ErrNameRequired'', ''connections: Name is required''),
      (cn_Provider c, ''connections.ErrProviderRequired'', ''connections: Provider is required''),
      (cn_Region c, ''connections.ErrRegionRequired'', ''connections: Region is required'')]"

definition connection_type :: string where "connection_type = ''cloudbuildv2.Connection''"
definition repository_type :: string where "repository_type = ''cloudbuildv2.Repository''"

definition ErrUnsupportedProvider :: "'x err" where
  "ErrUnsupportedProvider = sentinel ''connections.ErrUnsupportedProvider'' ''connections: unsupported provider''"

text \<open>\<open>dash\<close> is the dash of the message.\<close>

definition connections_Apply :: "'x engine \<Rightarrow> string \<Rightarrow> pval \<Rightarrow> connection_config \<Rightarrow> (string \<times> string) list \<Rightarrow> (pval, 'x) deploy" where
  "connections_Apply eng dash projectID c deps =
     andThen (require_ok (connection_Validate c)) (\<lambda>_.
     if cn_Provider c \<noteq> ''github'' then
       fails (errorf (err_text (ErrUnsupportedProvider :: 'x err) @ '': '' @ go_quote (cn_Provider c) @ dash @ ''supported: github'') [ErrUnsupportedProvider])
     else
       andThen (wrapping (''create connection '' @ cn_Name c @ '': '') (register eng (plain connection_type (cn_Name c)
         [(''Project'', projectID), (''Location'', PStr (cn_Region c)), (''Name'', PStr (cn_Name c)),
          (''GithubConfig'', PMap ([(''AppInstallationId'', PInt (cn_AppInstallationID c))]
            @ (if cn_OAuthSecretVersion c \<noteq> '''' then [(''AuthorizerCredential'', PMap [(''OauthTokenSecretVersion'', PStr (cn_OAuthSecretVersion c))])] else [])))] deps)))
       (\<lambda>_. ret (POut connection_type (cn_Name c) ''Name'')))"

record repo_link =
  rl_Name :: string
  rl_RemoteURI :: string

definition repo_link_Validate :: "repo_link \<Rightarrow> 'x err option" where
  "repo_link_Validate r = first_missing
     [(rl_Name r, ''connections.ErrRepoLinkNameRequired'', ''connections: RepoLink Name is required''),
      (rl_RemoteURI r, ''connections.ErrRepoLinkRemoteURIRequired'', ''connections: RepoLink RemoteURI is required'')]"

definition LinkRepo :: "'x engine \<Rightarrow> pval \<Rightarrow> pval \<Rightarrow> string \<Rightarrow> repo_link \<Rightarrow> (pval, 'x) deploy" where
  "LinkRepo eng projectID connName region repo =
     andThen (require_ok (repo_link_Validate repo)) (\<lambda>_.
     andThen (wrapping (''link repo '' @ rl_Name repo @ '': '') (register eng (plain repository_type (rl_Name repo)
       [(''Project'', projectID), (''Location'', PStr region), (''Name'', PStr (rl_Name repo)), (''ParentConnection'', connName), (''RemoteUri'', PStr (rl_RemoteURI repo))] [])))
     (\<lambda>_. ret (POut repository_type (rl_Name repo) ''id'')))"

end
