(* ===== verification/Iac_Monitoring.thy ===== *)
theory Iac_Monitoring
  imports Iac_Blocks
begin

section \<open>iac/pulumi/gcpinfra: budgets, uptime checks, log sinks and datasets\<close>

text \<open>\<open>src/go/iac/pulumi/gcpinfra/{budgets,uptimechecks,logsinks,datasets}/\<close>.\<close>

subsection \<open>budgets\<close>

record budget_config =
  bu_DisplayName :: string
  bu_Amount :: int
  bu_Currency :: string
  bu_BillingAccount :: string
  bu_Scope :: string
  bu_Thresholds :: "float64 list"
  bu_AlertEmails :: "string list"

definition budget_Validate :: "budget_config \<Rightarrow> 'x err option" where
  "budget_Validate c =
     (if bu_DisplayName c = '''' then Some (sentinel ''budgets.ErrDisplayNameRequired'' ''budgets: DisplayName is required'')
      else if bu_Amount c \<le> 0 then Some (sentinel ''budgets.ErrAmountNotPositive'' ''budgets: Amount must be positive'')
      else if bu_BillingAccount c = '''' then Some (sentinel ''budgets.ErrBillingAccountRequired'' ''budgets: BillingAccount is required'')
      else if bu_Scope c = '''' then Some (sentinel ''budgets.ErrScopeRequired'' ''budgets: Scope is required'')
      else if bu_Thresholds c = [] then Some (sentinel ''budgets.ErrThresholdsRequired'' ''budgets: at least one threshold is required'')
      else if bu_AlertEmails c = [] then Some (sentinel ''budgets.ErrAlertEmailsRequired'' ''budgets: at least one alert email is required'')
      else (case Duplicate id (bu_AlertEmails c) of
        Some email \<Rightarrow> Some (errorf (''budgets: duplicate alert email '' @ go_quote email) [sentinel ''budgets.ErrDuplicateAlertEmail'' ''budgets: duplicate alert email''])
      | None \<Rightarrow> None))"

definition channel_type :: string where "channel_type = ''monitoring.NotificationChannel''"
definition budget_type :: string where "budget_type = ''billing.Budget''"

definition email_channel :: "string \<Rightarrow> pval \<Rightarrow> string \<Rightarrow> string \<Rightarrow> (string \<times> string) list \<Rightarrow> resource" where
  "email_channel name projectID display email deps =
     plain channel_type name [(''Project'', projectID), (''DisplayName'', PStr (display @ email)), (''Type'', PStr ''email''),
       (''Labels'', PMap [(''email_address'', PStr email)])] deps"

definition budget_resource :: "budget_config \<Rightarrow> pval list \<Rightarrow> (string \<times> string) list \<Rightarrow> resource" where
  "budget_resource c channelIDs deps =
     plain budget_type (bu_DisplayName c)
       [(''BillingAccount'', PStr (bu_BillingAccount c)), (''DisplayName'', PStr (bu_DisplayName c)),
        (''Amount'', PMap [(''SpecifiedAmount'', PMap [(''CurrencyCode'', PStr (if bu_Currency c = '''' then ''USD'' else bu_Currency c)),
           (''Units'', PStr (show_int (bu_Amount c)))])]),
        (''ThresholdRules'', PList (map (\<lambda>t. PMap [(''ThresholdPercent'', PFloat t)]) (bu_Thresholds c))),
        (''AllUpdatesRule'', PMap [(''MonitoringNotificationChannels'', PList channelIDs), (''DisableDefaultIamRecipients'', PBool True)]),
        (''BudgetFilter'', PMap [(''ResourceAncestors'', PList [PStr (bu_Scope c)])])] deps"

definition budgets_Apply :: "'x engine \<Rightarrow> pval \<Rightarrow> budget_config \<Rightarrow> (string \<times> string) list \<Rightarrow> (unit, 'x) deploy" where
  "budgets_Apply eng projectID c deps =
     andThen (require_ok (budget_Validate c)) (\<lambda>_.
     andThen (each (\<lambda>email. andThen (wrapping (''create notification channel for '' @ email @ '': '')
          (register eng (email_channel (''alert-'' @ email) projectID ''Budget alert: '' email deps)))
          (\<lambda>_. ret (POut channel_type (''alert-'' @ email) ''id''))) (bu_AlertEmails c)) (\<lambda>channelIDs.
     wrapping (''create budget '' @ bu_DisplayName c @ '': '') (register eng (budget_resource c channelIDs deps))))"

subsection \<open>uptimechecks\<close>

definition statusClassEnum :: "string \<Rightarrow> string option" where
  "statusClassEnum friendly =
     map_of [(''1xx'', ''STATUS_CLASS_1XX''), (''2xx'', ''STATUS_CLASS_2XX''), (''3xx'', ''STATUS_CLASS_3XX''), (''4xx'', ''STATUS_CLASS_4XX''),
       (''5xx'', ''STATUS_CLASS_5XX''), (''any'', ''STATUS_CLASS_ANY'')] friendly"

definition validPeriod :: "string \<Rightarrow> bool" where
  "validPeriod p \<longleftrightarrow> p \<in> {''60s'', ''300s'', ''600s'', ''900s''}"

record uptime_config =
  ut_DisplayName :: string
  ut_Path :: string
  ut_Port :: int
  ut_Classes :: "string list"
  ut_Period :: string
  ut_Timeout :: string

definition ErrStatusClassInvalid :: "'x err" where
  "ErrStatusClassInvalid = sentinel ''uptimechecks.ErrStatusClassInvalid'' ''uptimechecks: AcceptedStatusClasses entries must be one of 1xx, 2xx, 3xx, 4xx, 5xx, any''"

definition uptime_Validate :: "uptime_config \<Rightarrow> 'x err option" where
  "uptime_Validate c =
     (if ut_DisplayName c = '''' then Some (sentinel ''uptimechecks.ErrDisplayNameRequired'' ''uptimechecks: DisplayName is required'')
      else if ut_Port c < 0 \<or> ut_Port c > 65535 then Some (sentinel ''uptimechecks.ErrPortOutOfRange'' ''uptimechecks: Port must be between 1 and 65535'')
      else if ut_Period c \<noteq> '''' \<and> \<not> validPeriod (ut_Period c) then
        Some (sentinel ''uptimechecks.ErrPeriodInvalid'' ''uptimechecks: Period must be one of 60s, 300s, 600s, 900s'')
      else (case List.find (\<lambda>sc. statusClassEnum sc = None) (ut_Classes c) of
        Some sc \<Rightarrow> Some (errorf (err_text (ErrStatusClassInvalid :: 'x err) @ '': '' @ go_quote sc) [ErrStatusClassInvalid])
      | None \<Rightarrow> None))"

definition orString :: "string \<Rightarrow> string \<Rightarrow> string" where
  "orString v fallback = (if v = '''' then fallback else v)"

record resolved_uptime =
  ru_displayName :: string
  ru_path :: string
  ru_port :: int
  ru_period :: string
  ru_timeout :: string
  ru_statusClasses :: "string list"

definition resolved :: "uptime_config \<Rightarrow> resolved_uptime" where
  "resolved c = \<lparr>ru_displayName = ut_DisplayName c, ru_path = orString (ut_Path c) ''/'', ru_port = (if ut_Port c = 0 then 443 else ut_Port c),
     ru_period = orString (ut_Period c) ''60s'', ru_timeout = orString (ut_Timeout c) ''10s'',
     ru_statusClasses = map (\<lambda>sc. case statusClassEnum sc of Some e \<Rightarrow> e | None \<Rightarrow> '''') (if ut_Classes c = [] then [''2xx''] else ut_Classes c)\<rparr>"

definition uptime_type :: string where "uptime_type = ''monitoring.UptimeCheckConfig''"
definition alert_type :: string where "alert_type = ''monitoring.AlertPolicy''"

definition uptime_resource :: "resolved_uptime \<Rightarrow> pval \<Rightarrow> pval \<Rightarrow> (string \<times> string) list \<Rightarrow> resource" where
  "uptime_resource r projectID host deps =
     plain uptime_type (ru_displayName r)
       [(''Project'', projectID), (''DisplayName'', PStr (ru_displayName r)), (''Timeout'', PStr (ru_timeout r)), (''Period'', PStr (ru_period r)),
        (''HttpCheck'', PMap [(''Path'', PStr (ru_path r)), (''Port'', PInt (ru_port r)), (''UseSsl'', PBool True), (''ValidateSsl'', PBool True),
           (''RequestMethod'', PStr ''GET''), (''AcceptedResponseStatusCodes'', PList (map (\<lambda>sc. PMap [(''StatusClass'', PStr sc)]) (ru_statusClasses r)))]),
        (''MonitoredResource'', PMap [(''Type'', PStr ''uptime_url''), (''Labels'', PMap [(''project_id'', projectID), (''host'', host)])])] deps"

definition alert_filter :: "string \<Rightarrow> pval" where
  "alert_filter name = PCat [PStr (''metric.type='' @ go_quote ''monitoring.googleapis.com/uptime_check/check_passed'' @ '' AND resource.type='' @ go_quote ''uptime_url''
       @ '' AND metric.labels.check_id='' @ [CHR 0x22]), POut uptime_type name ''UptimeCheckId'', PStr [CHR 0x22]]"

definition alert_resource :: "resolved_uptime \<Rightarrow> pval \<Rightarrow> pval list \<Rightarrow> resource" where
  "alert_resource r projectID channelIDs =
     plain alert_type (ru_displayName r @ ''-failing'')
       [(''Project'', projectID), (''DisplayName'', PStr (ru_displayName r @ '' failing'')), (''Combiner'', PStr ''OR''), (''NotificationChannels'', PList channelIDs),
        (''Conditions'', PList [PMap [(''DisplayName'', PStr (ru_displayName r @ '' check failing'')),
          (''ConditionThreshold'', PMap [(''Filter'', alert_filter (ru_displayName r)), (''Comparison'', PStr ''COMPARISON_GT''), (''ThresholdValue'', PFloat (Fin 1)),
             (''Duration'', PStr ''60s''),
             (''Aggregations'', PList [PMap [(''AlignmentPeriod'', PStr ''1200s''), (''PerSeriesAligner'', PStr ''ALIGN_NEXT_OLDER''),
               (''CrossSeriesReducer'', PStr ''REDUCE_COUNT_FALSE''), (''GroupByFields'', PList [PStr ''resource.label.host''])]]),
             (''Trigger'', PMap [(''Count'', PInt 1)])])]])] [(uptime_type, ru_displayName r)]"

definition uptime_Apply :: "'x engine \<Rightarrow> pval \<Rightarrow> uptime_config \<Rightarrow> pval \<Rightarrow> pval list \<Rightarrow> (string \<times> string) list \<Rightarrow> (unit, 'x) deploy" where
  "uptime_Apply eng projectID c host channelIDs deps =
     andThen (require_ok (uptime_Validate c)) (\<lambda>_.
     andThen (wrapping (''create uptime check '' @ ut_DisplayName c @ '': '') (register eng (uptime_resource (resolved c) projectID host deps))) (\<lambda>_.
     wrapping (''create alert policy for '' @ ut_DisplayName c @ '': '') (register eng (alert_resource (resolved c) projectID channelIDs))))"

subsection \<open>logsinks and datasets\<close>

record sink_config =
  sk_Name :: string
  sk_OrgID :: string
  sk_Filter :: string
  sk_IncludeChildren :: bool

definition sink_Validate :: "sink_config \<Rightarrow> 'x err option" where
  "sink_Validate c = first_missing
     [(sk_Name c, ''logsinks.ErrNameRequired'', ''logsinks: Name is required''), (sk_OrgID c, ''logsinks.ErrOrgIDRequired'', ''logsinks: OrgID is required'')]"

definition sink_type :: string where "sink_type = ''logging.OrganizationSink''"

definition sink_resource :: "sink_config \<Rightarrow> pval \<Rightarrow> resource" where
  "sink_resource c destination =
     plain sink_type (sk_Name c) [(''OrgId'', PStr (sk_OrgID c)), (''Name'', PStr (sk_Name c)), (''Destination'', destination), (''Filter'', PStr (sk_Filter c)),
       (''IncludeChildren'', PBool (sk_IncludeChildren c))] []"

definition logsinks_Apply :: "'x engine \<Rightarrow> sink_config \<Rightarrow> pval \<Rightarrow> (pval, 'x) deploy" where
  "logsinks_Apply eng c destination =
     andThen (require_ok (sink_Validate c)) (\<lambda>_.
     andThen (wrapping (''create log sink '' @ sk_Name c @ '': '') (register eng (sink_resource c destination))) (\<lambda>_.
     ret (POut sink_type (sk_Name c) ''WriterIdentity'')))"

record dataset_config =
  da_ID :: string
  da_FriendlyName :: string
  da_Description :: string
  da_Location :: string
  da_Labels :: "(string \<times> string) list"

definition dataset_Validate :: "dataset_config \<Rightarrow> 'x err option" where
  "dataset_Validate c = first_missing
     [(da_ID c, ''datasets.ErrIDRequired'', ''datasets: ID is required''), (da_FriendlyName c, ''datasets.ErrFriendlyNameRequired'', ''datasets: FriendlyName is required''),
      (da_Location c, ''datasets.ErrLocationRequired'', ''datasets: Location is required'')]"

definition dataset_type :: string where "dataset_type = ''bigquery.Dataset''"

definition dataset_resource :: "dataset_config \<Rightarrow> pval \<Rightarrow> (string \<times> string) list \<Rightarrow> lifecycle_option option list \<Rightarrow> resource" where
  "dataset_resource c projectID deps opts =
     guarded dataset_type (da_ID c)
       [(''Project'', projectID), (''DatasetId'', PStr (da_ID c)), (''FriendlyName'', PStr (da_FriendlyName c)), (''Description'', PStr (da_Description c)),
        (''Location'', PStr (da_Location c)), (''Labels'', PMap (map (\<lambda>(k, v). (k, PStr v)) (da_Labels c))), (''DeleteContentsOnDestroy'', PBool (IsEphemeral opts))]
       deps (Protect opts)"

definition datasets_Apply :: "'x engine \<Rightarrow> pval \<Rightarrow> dataset_config \<Rightarrow> (string \<times> string) list \<Rightarrow> lifecycle_option option list \<Rightarrow> (pval, 'x) deploy" where
  "datasets_Apply eng projectID c deps opts =
     andThen (require_ok (dataset_Validate c)) (\<lambda>_.
     andThen (wrapping (''create dataset '' @ da_ID c @ '': '') (register eng (dataset_resource c projectID deps opts))) (\<lambda>_.
     ret (POut dataset_type (da_ID c) ''DatasetId'')))"

end
