(* ===== verification/Iac_Programs.thy ===== *)
theory Iac_Programs
  imports Iac_Monitoring
begin

section \<open>iac: the programs of an organisation\<close>

text \<open>
  \<open>src/go/iac/{identity,delivery,observability,finops,workloads,governance}/\<close>: each program reads its configuration and composes the blocks of
  \<open>Iac_Core\<close>, \<open>Iac_Blocks\<close> and \<open>Iac_Monitoring\<close>. The configuration is a map from keys to raw values; the JSON decoders of its objects, the
  outputs of other stacks and the secret store are parameters. Exports are listed in the order in which they are made; where Go walks a map
  to make them, in the order of the configuration.
\<close>

subsection \<open>Configuration and stack references\<close>

datatype stack_value = SString string | SMap "string \<rightharpoonup> stack_value" | SOther

text \<open>\<open>ie_outputs\<close> is an output of a stack, None when it is missing, nil or cannot be read.\<close>

record 'x iac_env =
  ie_engine :: "'x engine"
  ie_config :: "string \<rightharpoonup> string"
  ie_outputs :: "string \<Rightarrow> string \<Rightarrow> stack_value option"
  ie_int :: "string \<Rightarrow> int option"
  ie_strings :: "string \<Rightarrow> 'x err + string list"
  ie_floats :: "string \<Rightarrow> 'x err + float64 list"
  ie_dash :: string

definition cfg_Get :: "'x iac_env \<Rightarrow> string \<Rightarrow> string" where
  "cfg_Get env key = (case ie_config env key of Some v \<Rightarrow> v | None \<Rightarrow> '''')"

definition cfg_Require :: "'x iac_env \<Rightarrow> string \<Rightarrow> (string, 'x) deploy" where
  "cfg_Require env key = (case ie_config env key of Some v \<Rightarrow> ret v | None \<Rightarrow> panics (''missing required configuration variable '' @ key))"

definition cfg_GetInt :: "'x iac_env \<Rightarrow> string \<Rightarrow> int" where
  "cfg_GetInt env key = (case ie_config env key of Some v \<Rightarrow> (case ie_int env v of Some i \<Rightarrow> i | None \<Rightarrow> 0) | None \<Rightarrow> 0)"

definition cfg_RequireInt :: "'x iac_env \<Rightarrow> string \<Rightarrow> (int, 'x) deploy" where
  "cfg_RequireInt env key = andThen (cfg_Require env key) (\<lambda>v. case ie_int env v of Some i \<Rightarrow> ret i | None \<Rightarrow> panics (''not an integer: '' @ key))"

definition cfg_RequireObject :: "'x iac_env \<Rightarrow> (string \<Rightarrow> 'x err + 'a) \<Rightarrow> string \<Rightarrow> ('a, 'x) deploy" where
  "cfg_RequireObject env decode key = andThen (cfg_Require env key) (\<lambda>v. case decode v of Inr a \<Rightarrow> ret a | Inl e \<Rightarrow> panics (err_text e))"

text \<open>An absent key leaves the default, a malformed one is fatal.\<close>

definition optionalObject :: "'x iac_env \<Rightarrow> (string \<Rightarrow> 'x err + 'a) \<Rightarrow> string \<Rightarrow> 'a \<Rightarrow> ('a, 'x) deploy" where
  "optionalObject env decode key dflt =
     (case ie_config env key of
        None \<Rightarrow> ret dflt
      | Some v \<Rightarrow> (case decode v of Inr a \<Rightarrow> ret a | Inl e \<Rightarrow> fails (wrapf (''config key '' @ go_quote key @ '': '') e)))"

definition stack_ref_type :: string where "stack_ref_type = ''pulumi.StackReference''"

definition NewStackReference :: "'x iac_env \<Rightarrow> string \<Rightarrow> (unit, 'x) deploy" where
  "NewStackReference env name = register (ie_engine env) (plain stack_ref_type name [] [])"

text \<open>An error that the program ignores.\<close>

definition attempt :: "('a, 'x) deploy \<Rightarrow> ('a option, 'x) deploy" where
  "attempt m s = (case m s of (Ret a, s') \<Rightarrow> (Ret (Some a), s') | (Fails e, s') \<Rightarrow> (Ret None, s') | (Panics p, s') \<Rightarrow> (Panics p, s'))"

subsection \<open>Placement\<close>

text \<open>Where a project lands and who pays; the organisation only where a program has one.\<close>

record placement =
  pl_folderID :: string
  pl_billingAccount :: string
  pl_orgID :: string

definition stack_string :: "stack_value option \<Rightarrow> string" where
  "stack_string v = (case v of Some (SString s) \<Rightarrow> s | _ \<Rightarrow> '''')"

definition folder_from_map :: "string \<Rightarrow> (string \<Rightarrow> stack_value option) \<Rightarrow> string" where
  "folder_from_map folder outs = (case outs ''folderIds'' of Some (SMap m) \<Rightarrow> stack_string (m folder) | _ \<Rightarrow> '''')"

definition defaultGovernanceFolder :: string where "defaultGovernanceFolder = ''shared''"

definition governance_folder :: "'x iac_env \<Rightarrow> string" where
  "governance_folder env = orString (cfg_Get env ''governanceFolder'') defaultGovernanceFolder"

definition root_folder :: "(string \<Rightarrow> stack_value option) \<Rightarrow> string" where
  "root_folder outs = stack_string (outs ''rootFolderId'')"

text \<open>\<open>folder\<close> finds the folder among the outputs, \<open>org\<close> says whether the program needs the organisation.\<close>

definition fill_placement :: "((string \<Rightarrow> stack_value option) \<Rightarrow> string) \<Rightarrow> bool \<Rightarrow> (string \<Rightarrow> stack_value option) \<Rightarrow> placement \<Rightarrow> placement" where
  "fill_placement folder org outs p =
     \<lparr>pl_folderID = (if pl_folderID p = '''' then folder outs else pl_folderID p),
      pl_billingAccount = (if pl_billingAccount p = '''' then stack_string (outs ''billingAccount'') else pl_billingAccount p),
      pl_orgID = (if org \<and> pl_orgID p = '''' then stack_string (outs ''orgId'') else pl_orgID p)\<rparr>"

text \<open>How a program reads a stack: \<open>reader\<close> takes and returns what it has read before.\<close>

type_synonym ('c, 'x) stack_reader = "'c \<Rightarrow> string \<Rightarrow> ('c, 'x) deploy"

definition fresh_reader :: "'x iac_env \<Rightarrow> (unit, 'x) stack_reader" where
  "fresh_reader env c name = NewStackReference env name"

definition fromGovernanceStack :: "'x iac_env \<Rightarrow> ('c, 'x) stack_reader \<Rightarrow> ((string \<Rightarrow> stack_value option) \<Rightarrow> string) \<Rightarrow> bool \<Rightarrow> 'c \<Rightarrow> placement
    \<Rightarrow> (placement \<times> 'c, 'x) deploy" where
  "fromGovernanceStack env reader folder org c p =
     (let govRef = cfg_Get env ''governanceStack'' in
      if govRef = '''' then ret (p, c)
      else andThen (attempt (reader c govRef)) (\<lambda>r. case r of
        None \<Rightarrow> ret (p, c)
      | Some c' \<Rightarrow> ret (fill_placement folder org (ie_outputs env govRef) p, c')))"

definition or_require :: "'x iac_env \<Rightarrow> string \<Rightarrow> string \<Rightarrow> (string, 'x) deploy" where
  "or_require env v key = (if v = '''' then cfg_Require env key else ret v)"

definition no_placement :: placement where "no_placement = \<lparr>pl_folderID = '''', pl_billingAccount = '''', pl_orgID = ''''\<rparr>"

text \<open>\<open>gov\<close> is the program's \<open>fromGovernanceStack\<close>.\<close>

definition resolvePlacement :: "'x iac_env \<Rightarrow> ('c \<Rightarrow> placement \<Rightarrow> (placement \<times> 'c, 'x) deploy) \<Rightarrow> bool \<Rightarrow> placement option \<Rightarrow> 'c
    \<Rightarrow> (placement \<times> 'c, 'x) deploy" where
  "resolvePlacement env gov org params c =
     (let p0 = (case params of None \<Rightarrow> no_placement | Some p \<Rightarrow> p) in
      andThen (if pl_folderID p0 = '''' \<or> pl_billingAccount p0 = '''' \<or> org \<and> pl_orgID p0 = ''''
               then gov c p0 else ret (p0, c)) (\<lambda>(p, c').
      andThen (or_require env (pl_folderID p) ''folderID'') (\<lambda>f.
      andThen (or_require env (pl_billingAccount p) ''billingAccount'') (\<lambda>b.
      andThen (if org then or_require env (pl_orgID p) ''orgID'' else ret (pl_orgID p)) (\<lambda>g.
      ret (\<lparr>pl_folderID = f, pl_billingAccount = b, pl_orgID = g\<rparr>, c'))))))"

definition program_project :: "'x iac_env \<Rightarrow> string \<Rightarrow> placement \<Rightarrow> string list \<Rightarrow> (pval \<times> pval, 'x) deploy" where
  "program_project env name p apis =
     projects_Apply (ie_engine env) \<lparr>pj_Name = name, pj_FolderID = pl_folderID p, pj_BillingAccount = pl_billingAccount p, pj_APIs = apis\<rparr> []"

subsection \<open>identity\<close>

text \<open>\<open>resolver\<close> gives a secret by its reference, the decoders the secrets by name and reference, and the accounts.\<close>

record 'x identity_inputs =
  id_resolver :: "string \<Rightarrow> 'x err + string"
  id_secretDefs :: "string \<Rightarrow> 'x err + (string \<times> string) list"
  id_accounts :: "string \<Rightarrow> 'x err + account list"

definition PassResolver :: "(string \<Rightarrow> 'x err + string) \<Rightarrow> string \<Rightarrow> 'x err + string" where
  "PassResolver pass ref = (case pass ref of Inl e \<Rightarrow> Inl (wrapf (''pass show '' @ ref @ '': '') e) | Inr out \<Rightarrow> Inr (trim_space out))"

definition resolve_secret :: "'x identity_inputs \<Rightarrow> string \<times> string \<Rightarrow> (secret, 'x) deploy" where
  "resolve_secret inp d =
     (case id_resolver inp (snd d) of
        Inl e \<Rightarrow> fails (wrapf (''resolve secret '' @ fst d @ '': '') e) | Inr v \<Rightarrow> ret \<lparr>sc_Name = fst d, sc_Value = v\<rparr>)"

definition applySecrets :: "'x iac_env \<Rightarrow> 'x identity_inputs \<Rightarrow> pval \<Rightarrow> (unit, 'x) deploy" where
  "applySecrets env inp projectID =
     andThen (optionalObject env (id_secretDefs inp) ''secrets'' []) (\<lambda>defs.
     if defs = [] then ret ()
     else andThen (each (resolve_secret inp) defs) (\<lambda>ss.
       wrapping ''identity secrets: '' (secrets_Apply (ie_engine env) projectID ss [] [])))"

definition consumer_binding :: "string \<Rightarrow> nat \<times> string \<Rightarrow> binding" where
  "consumer_binding projectName isa =
     \<lparr>bn_Name = ''consumer-accessor-'' @ show_nat (fst isa), bn_ProjectID = projectName, bn_Role = ''roles/secretmanager.secretAccessor'',
      bn_Member = ''serviceAccount:'' @ snd isa\<rparr>"

definition applyConsumerAccess :: "'x iac_env \<Rightarrow> string \<Rightarrow> (unit, 'x) deploy" where
  "applyConsumerAccess env projectName =
     andThen (cfg_RequireObject env (ie_strings env) ''consumerSAs'') (\<lambda>sas.
     wrapping ''consumer access: '' (bindings_Apply (ie_engine env) (map (consumer_binding projectName) (enumerate 0 sas))))"

definition impersonator_roles :: "(string \<times> string) list" where
  "impersonator_roles = [(''user'', ''roles/iam.serviceAccountUser''), (''token'', ''roles/iam.serviceAccountTokenCreator''),
     (''oidc'', ''roles/iam.serviceAccountOpenIdTokenCreator'')]"

definition impersonator_bindings :: "string \<Rightarrow> string list \<Rightarrow> account list \<Rightarrow> dynamic_binding list" where
  "impersonator_bindings projectName impersonators accounts =
     concat (map (\<lambda>(i, imp). concat (map (\<lambda>acct. map (\<lambda>(suffix, role).
        \<lparr>dy_Name = ''impersonate-'' @ sa_ID acct @ ''-'' @ show_nat i @ ''-'' @ suffix,
         dy_Target = PStr (''projects/'' @ projectName @ ''/serviceAccounts/'' @ sa_ID acct @ ''@'' @ projectName @ ''.iam.gserviceaccount.com''),
         dy_Role = role, dy_Member = PStr imp\<rparr>) impersonator_roles) accounts)) (enumerate 0 impersonators))"

definition applyImpersonators :: "'x iac_env \<Rightarrow> string \<Rightarrow> account list \<Rightarrow> (unit, 'x) deploy" where
  "applyImpersonators env projectName accounts =
     andThen (optionalObject env (ie_strings env) ''impersonators'' []) (\<lambda>imps.
     if imps = [] then ret ()
     else andThen (wrapping ''impersonator bindings: '' (ApplySAIam (ie_engine env) (impersonator_bindings projectName imps accounts))) (\<lambda>_. ret ()))"

definition applyServiceAccounts :: "'x iac_env \<Rightarrow> 'x identity_inputs \<Rightarrow> pval \<Rightarrow> string \<Rightarrow> (unit, 'x) deploy" where
  "applyServiceAccounts env inp projectID projectName =
     andThen (optionalObject env (id_accounts inp) ''serviceAccounts'' []) (\<lambda>accounts.
     if accounts = [] then ret ()
     else andThen (wrapping ''identity service accounts: '' (serviceaccounts_Apply (ie_engine env) projectID accounts [])) (\<lambda>emails.
       andThen (each (\<lambda>(i, email). export (i @ ''-email'') email) emails) (\<lambda>_. applyImpersonators env projectName accounts)))"

definition identity_fromGovernanceStack :: "'x iac_env \<Rightarrow> unit \<Rightarrow> placement \<Rightarrow> (placement \<times> unit, 'x) deploy" where
  "identity_fromGovernanceStack env = fromGovernanceStack env (fresh_reader env) (folder_from_map (governance_folder env)) False"

definition identity_resolvePlacement :: "'x iac_env \<Rightarrow> placement option \<Rightarrow> (placement \<times> unit, 'x) deploy" where
  "identity_resolvePlacement env params = resolvePlacement env (identity_fromGovernanceStack env) False params ()"

definition identity_Apply :: "'x iac_env \<Rightarrow> 'x identity_inputs \<Rightarrow> placement option \<Rightarrow> (unit, 'x) deploy" where
  "identity_Apply env inp params =
     andThen (cfg_Require env ''projectName'') (\<lambda>projectName.
     andThen (identity_resolvePlacement env params) (\<lambda>(place, _).
     andThen (wrapping ''identity project: '' (program_project env projectName place [''secretmanager.googleapis.com'', ''iam.googleapis.com''])) (\<lambda>(projectID, _).
     andThen (applySecrets env inp projectID) (\<lambda>_.
     andThen (applyConsumerAccess env projectName) (\<lambda>_.
     andThen (applyServiceAccounts env inp projectID projectName) (\<lambda>_.
     export ''projectId'' projectID))))))"

subsection \<open>finops\<close>

definition defaultRegion :: string where "defaultRegion = ''europe-west4''"
definition defaultCurrency :: string where "defaultCurrency = ''EUR''"

definition region_of :: "'x iac_env \<Rightarrow> string" where
  "region_of env = orString (cfg_Get env ''region'') defaultRegion"

definition default_thresholds :: "float64 list" where
  "default_thresholds = [Fin (1 / 2), Fin (3 / 4), round64 (9 / 10), Fin 1]"

definition applyBudget :: "'x iac_env \<Rightarrow> string \<Rightarrow> placement \<Rightarrow> pval \<Rightarrow> (unit, 'x) deploy" where
  "applyBudget env projectName place projectID =
     andThen (cfg_RequireInt env ''monthlyBudget'') (\<lambda>monthlyBudget.
     andThen (cfg_RequireObject env (ie_strings env) ''alertEmails'') (\<lambda>emails.
     andThen (optionalObject env (ie_floats env) ''thresholds'' []) (\<lambda>custom.
     let currency = orString (cfg_Get env ''currency'') defaultCurrency in
     wrapping ''budget: '' (budgets_Apply (ie_engine env) projectID
       \<lparr>bu_DisplayName = projectName @ '': '' @ show_int monthlyBudget @ '' '' @ currency @ ''/month'', bu_Amount = monthlyBudget, bu_Currency = currency,
        bu_BillingAccount = pl_billingAccount place, bu_Scope = ''organizations/'' @ pl_orgID place,
        bu_Thresholds = (if custom \<noteq> [] then custom else default_thresholds), bu_AlertEmails = emails\<rparr> []))))"

definition finops_fromGovernanceStack :: "'x iac_env \<Rightarrow> unit \<Rightarrow> placement \<Rightarrow> (placement \<times> unit, 'x) deploy" where
  "finops_fromGovernanceStack env = fromGovernanceStack env (fresh_reader env) root_folder True"

definition finops_resolvePlacement :: "'x iac_env \<Rightarrow> placement option \<Rightarrow> (placement \<times> unit, 'x) deploy" where
  "finops_resolvePlacement env params = resolvePlacement env (finops_fromGovernanceStack env) True params ()"

definition finops_Apply :: "'x iac_env \<Rightarrow> placement option \<Rightarrow> (unit, 'x) deploy" where
  "finops_Apply env params =
     andThen (cfg_Require env ''projectName'') (\<lambda>projectName.
     andThen (finops_resolvePlacement env params) (\<lambda>(place, _).
     andThen (wrapping ''finops project: '' (program_project env projectName place
       [''bigquery.googleapis.com'', ''monitoring.googleapis.com'', ''billingbudgets.googleapis.com''])) (\<lambda>(projectID, _).
     andThen (wrapping ''billing dataset: '' (datasets_Apply (ie_engine env) projectID
       \<lparr>da_ID = ''billing_export'', da_FriendlyName = ''Billing Export'', da_Description = ''GCP billing data'' @ ie_dash env @ ''enable export in Cloud Console'',
        da_Location = region_of env, da_Labels = []\<rparr> [] [])) (\<lambda>datasetID.
     andThen (applyBudget env projectName place projectID) (\<lambda>_.
     andThen (export ''projectId'' projectID) (\<lambda>_.
     export ''billingDatasetId'' datasetID))))))"

subsection \<open>workloads\<close>

record workload_project =
  wp_Name :: string
  wp_Concerns :: "string list"
  wp_APIs :: "string list"

definition applyProject :: "'x iac_env \<Rightarrow> placement \<Rightarrow> string \<Rightarrow> workload_project \<Rightarrow> (unit, 'x) deploy" where
  "applyProject env place deliveryProjectNumber pc =
     andThen (wrapping (''project '' @ wp_Name pc @ '': '') (program_project env (wp_Name pc) place (wp_APIs pc))) (\<lambda>(projectID, projectNumber).
     andThen (each (\<lambda>concern. andThen (export (concern @ ''ProjectId'') projectID) (\<lambda>_. export (concern @ ''ProjectNumber'') projectNumber)) (wp_Concerns pc)) (\<lambda>_.
     if deliveryProjectNumber = '''' then ret ()
     else wrapping (''grant deploy to '' @ wp_Name pc @ '': '') (bindings_Apply (ie_engine env)
       [\<lparr>bn_Name = wp_Name pc @ ''-delivery-run-deployer'', bn_ProjectID = wp_Name pc, bn_Role = ''roles/run.developer'',
         bn_Member = ''serviceAccount:'' @ deliveryProjectNumber @ ''-compute@developer.gserviceaccount.com''\<rparr>])))"

definition workloads_fromGovernanceStack :: "'x iac_env \<Rightarrow> string \<Rightarrow> unit \<Rightarrow> placement \<Rightarrow> (placement \<times> unit, 'x) deploy" where
  "workloads_fromGovernanceStack env environmentFolder = fromGovernanceStack env (fresh_reader env) (folder_from_map environmentFolder) False"

definition workloads_resolvePlacement :: "'x iac_env \<Rightarrow> string \<Rightarrow> placement option \<Rightarrow> (placement \<times> unit, 'x) deploy" where
  "workloads_resolvePlacement env environmentFolder params = resolvePlacement env (workloads_fromGovernanceStack env environmentFolder) False params ()"

definition workloads_Apply :: "'x iac_env \<Rightarrow> (string \<Rightarrow> 'x err + workload_project list) \<Rightarrow> placement option \<Rightarrow> (unit, 'x) deploy" where
  "workloads_Apply env decode params =
     andThen (cfg_Require env ''environmentFolder'') (\<lambda>environmentFolder.
     andThen (cfg_RequireObject env decode ''projects'') (\<lambda>pcs.
     andThen (workloads_resolvePlacement env environmentFolder params) (\<lambda>(place, _).
     andThen (each (applyProject env place (cfg_Get env ''deliveryProjectNumber'')) pcs) (\<lambda>_. ret ()))))"

subsection \<open>governance\<close>

fun tier_violation_text :: "tier_violation \<Rightarrow> string" where
  "tier_violation_text StarterChildren = ''Starter tier does not support environment folders''"
| "tier_violation_text StarterDimensions = ''Starter tier does not support classification''"
| "tier_violation_text StarterBilling = ''Starter tier does not support billing export''"
| "tier_violation_text StandardNoChildren = ''Standard tier requires at least one environment''"
| "tier_violation_text StandardDimensions = ''Standard tier does not support classification''"
| "tier_violation_text StandardBilling = ''Standard tier does not support billing export''"
| "tier_violation_text EnterpriseScope = ''Enterprise tier requires Organization scope''"
| "tier_violation_text EnterpriseNoChildren = ''Enterprise tier requires at least one environment''"

fun plan_err :: "plan_error \<Rightarrow> 'x err" where
  "plan_err (PlanHierarchy e) = wrapf ''plan: '' (hierarchy_err e)"
| "plan_err (PlanDimension e) = wrapf ''plan: '' (dimension_err e)"
| "plan_err (ErrTierViolation v) = errorf (''plan: tier violation: '' @ tier_violation_text v) [sentinel ''plan.ErrTierViolation'' ''plan: tier violation'']"
| "plan_err ErrScopeOrgIDRequired = errorf ''plan: scope violation: OrgID is required for Organization scope'' [sentinel ''plan.ErrScopeViolation'' ''plan: scope violation'']"
| "plan_err ErrScopeOrgIDForbidden = errorf ''plan: scope violation: OrgID must be empty for Container scope'' [sentinel ''plan.ErrScopeViolation'' ''plan: scope violation'']"
| "plan_err (ErrUnknownTier t) = errorf (''plan: unknown tier '' @ go_quote t) [sentinel ''plan.ErrUnknownTier'' ''plan: unknown tier'']"

definition of_plan :: "plan_error + plan \<Rightarrow> (plan, 'x) deploy" where
  "of_plan r = (case r of Inl e \<Rightarrow> fails (plan_err e) | Inr p \<Rightarrow> ret p)"

definition enterprisePlan :: "'x iac_env \<Rightarrow> (string \<Rightarrow> 'x err + dimension list) \<Rightarrow> string \<Rightarrow> string \<Rightarrow> string \<Rightarrow> (plan, 'x) deploy" where
  "enterprisePlan env decode parent rootFolder orgID =
     andThen (cfg_RequireObject env (ie_strings env) ''environments'') (\<lambda>children.
     andThen (optionalObject env decode ''tagKeys'' []) (\<lambda>dims.
     wrapping ''enterprise plan: '' (of_plan (NewEnterprise parent rootFolder children dims (cfg_Get env ''billingAccount'') orgID))))"

text \<open>The scope decides whether the organisation is passed on; any tier that is not starter or enterprise is standard.\<close>

definition tier_plan :: "'x iac_env \<Rightarrow> (string \<Rightarrow> 'x err + dimension list) \<Rightarrow> scope \<Rightarrow> string \<Rightarrow> string \<Rightarrow> (plan, 'x) deploy" where
  "tier_plan env decode s parent rootFolder =
     (let orgID = (if SupportsOrgExport s then folders_OrgID parent else ''''); tierName = cfg_Get env ''tier'' in
      if tierName = ''starter'' then of_plan (NewStarter s parent rootFolder orgID)
      else if tierName = ''enterprise'' then enterprisePlan env decode parent rootFolder orgID
      else andThen (cfg_RequireObject env (ie_strings env) ''environments'') (\<lambda>children. of_plan (NewStandard s parent rootFolder children orgID)))"

definition export_tags :: "(string \<times> pval) list \<Rightarrow> (unit, 'x) deploy" where
  "export_tags tags =
     andThen (each (\<lambda>name. case map_of tags name of Some v \<Rightarrow> export (TagKeyID name) v | None \<Rightarrow> ret ()) (sort (map fst tags))) (\<lambda>_. ret ())"

definition governance_Apply :: "'x iac_env \<Rightarrow> (string \<Rightarrow> 'x err + dimension list) \<Rightarrow> (unit, 'x) deploy" where
  "governance_Apply env decode =
     andThen (cfg_Require env ''parent'') (\<lambda>parent.
     andThen (cfg_Require env ''rootFolder'') (\<lambda>rootFolder.
     andThen (wrapping ''governance: '' (case ParseScope parent of Inl e \<Rightarrow> fails e | Inr s \<Rightarrow> ret s)) (\<lambda>s.
     andThen (wrapping ''governance: '' (tier_plan env decode s parent rootFolder)) (\<lambda>p.
     andThen (wrapping ''governance: '' (folders_Apply (ie_engine env) (Hierarchy p) [])) (\<lambda>(rootID, ids).
     andThen (if SupportsClassification (Scope p) \<and> Dimensions p \<noteq> []
       then andThen (wrapping ''governance: '' (tagkeys_Apply (ie_engine env) (OrgID p) (Dimensions p) [])) export_tags else ret ()) (\<lambda>_.
     andThen (if BillingAccount p \<noteq> '''' then export ''billingAccount'' (PStr (BillingAccount p)) else ret ()) (\<lambda>_.
     andThen (export ''rootFolderId'' rootID) (\<lambda>_.
     andThen (export ''folderIds'' (PMap ids)) (\<lambda>_.
     if SupportsOrgExport (Scope p) then export ''orgId'' (PStr (OrgID p)) else ret ())))))))))"

subsection \<open>delivery\<close>

record delivery_repo =
  rp_Name :: string
  rp_RemoteURI :: string
  rp_Triggers :: "trigger_config list"

text \<open>A project as its id and number, a registry as its id and name.\<close>

type_synonym project_outputs = "pval \<times> pval"

definition compute_sa :: "project_outputs \<Rightarrow> pval" where
  "compute_sa proj = PCat [PStr ''serviceAccount:'', snd proj, PStr ''-compute@developer.gserviceaccount.com'']"

definition applyBuildWriterGrants :: "'x iac_env \<Rightarrow> string \<Rightarrow> project_outputs \<Rightarrow> pval \<times> pval \<Rightarrow> (unit, 'x) deploy" where
  "applyBuildWriterGrants env region proj ar =
     (let buildSA = cfg_Get env ''buildServiceAccount'' in
      if buildSA \<noteq> '''' then
        wrapping ''build writer grant: '' (GrantWriter (ie_engine env) ''build-ar-writer'' (fst proj) region (snd ar) (PStr (''serviceAccount:'' @ buildSA)))
      else
        andThen (wrapping ''build writer grant: '' (GrantWriter (ie_engine env) ''build-ar-writer'' (fst proj) region (snd ar)
          (PCat [PStr ''serviceAccount:'', snd proj, PStr ''@cloudbuild.gserviceaccount.com'']))) (\<lambda>_.
        wrapping ''compute build writer grant: '' (GrantWriter (ie_engine env) ''build-ar-writer-compute'' (fst proj) region (snd ar) (compute_sa proj))))"

definition applyRegistry :: "'x iac_env \<Rightarrow> string \<Rightarrow> project_outputs \<Rightarrow> (pval \<times> pval, 'x) deploy" where
  "applyRegistry env region proj =
     andThen (cfg_Require env ''registryId'') (\<lambda>arID.
     andThen (wrapping ''registry: '' (registries_Apply (ie_engine env) (fst proj)
       \<lparr>rg_ID = arID, rg_Description = orString (cfg_Get env ''registryDescription'') ''Container images'', rg_Format = ''DOCKER'', rg_Location = region\<rparr> [] [])) (\<lambda>ar.
     andThen (applyBuildWriterGrants env region proj ar) (\<lambda>_. ret ar)))"

text \<open>\<open>strings.LastIndex\<close>, as the part before the last occurrence.\<close>

fun before_last :: "string \<Rightarrow> string \<Rightarrow> string option" where
  "before_last sep [] = (if sep = '''' then Some '''' else None)"
| "before_last sep (c # s) =
     (case before_last sep s of Some b \<Rightarrow> Some (c # b) | None \<Rightarrow> if has_prefix (c # s) sep then Some '''' else None)"

definition secret_id :: "string \<Rightarrow> string" where
  "secret_id oauthSecret = (case before_last ''/versions/'' oauthSecret of Some b \<Rightarrow> b | None \<Rightarrow> oauthSecret)"

definition secret_iam_type :: string where "secret_iam_type = ''secretmanager.SecretIamMember''"

definition applySecretAccessor :: "'x iac_env \<Rightarrow> string \<Rightarrow> project_outputs \<Rightarrow> (unit, 'x) deploy" where
  "applySecretAccessor env oauthSecret proj =
     wrapping ''oauth secret accessor: '' (register (ie_engine env) (plain secret_iam_type ''github-oauth-secret-accessor''
       [(''Project'', fst proj), (''SecretId'', PStr (secret_id oauthSecret)), (''Role'', PStr ''roles/secretmanager.secretAccessor''), (''Member'', compute_sa proj)] []))"

definition applyRepo :: "'x iac_env \<Rightarrow> string \<Rightarrow> project_outputs \<Rightarrow> pval \<Rightarrow> delivery_repo \<Rightarrow> (unit, 'x) deploy" where
  "applyRepo env region proj connName repo =
     andThen (wrapping (''link repo '' @ rp_Name repo @ '': '') (LinkRepo (ie_engine env) (fst proj) connName region \<lparr>rl_Name = rp_Name repo, rl_RemoteURI = rp_RemoteURI repo\<rparr>)) (\<lambda>repoID.
     andThen (each (\<lambda>t. wrapping (''trigger '' @ tr_Name t @ '': '') (triggers_Apply (ie_engine env) (fst proj) region repoID
         (PCat [PStr ''projects/'', fst proj, PStr ''/serviceAccounts/'', snd proj, PStr ''-compute@developer.gserviceaccount.com'']) t [])) (rp_Triggers repo)) (\<lambda>_. ret ()))"

definition applyRepos :: "'x iac_env \<Rightarrow> (string \<Rightarrow> 'x err + delivery_repo list) \<Rightarrow> string \<Rightarrow> project_outputs \<Rightarrow> pval \<Rightarrow> (unit, 'x) deploy" where
  "applyRepos env decode region proj connName =
     andThen (optionalObject env decode ''repositories'' []) (\<lambda>repos.
     andThen (each (applyRepo env region proj connName) repos) (\<lambda>_. ret ()))"

text \<open>True when the program stops here.\<close>

definition applyGitHub :: "'x iac_env \<Rightarrow> (string \<Rightarrow> 'x err + delivery_repo list) \<Rightarrow> string \<Rightarrow> project_outputs \<Rightarrow> pval \<times> pval \<Rightarrow> (bool, 'x) deploy" where
  "applyGitHub env decode region proj ar =
     (let connectionName = orString (cfg_Get env ''githubConnectionName'') ''github''; appID = cfg_GetInt env ''githubAppInstallationId'';
          oauthSecret = cfg_Get env ''githubOAuthSecretVersion'' in
      if appID = 0 \<or> oauthSecret = '''' then
        andThen (export ''nextStep'' (PStr (''GitHub connection not configured'' @ ie_dash env @ ''set githubAppInstallationId and githubOAuthSecretVersion''))) (\<lambda>_.
        andThen (export ''projectId'' (fst proj)) (\<lambda>_.
        andThen (export ''dockerRepoId'' (fst ar)) (\<lambda>_. ret True)))
      else
        andThen (wrapping ''github connection: '' (connections_Apply (ie_engine env) (ie_dash env) (fst proj)
          \<lparr>cn_Name = connectionName, cn_Provider = ''github'', cn_Region = region, cn_AppInstallationID = appID, cn_OAuthSecretVersion = oauthSecret\<rparr> [])) (\<lambda>connName.
        andThen (applySecretAccessor env oauthSecret proj) (\<lambda>_.
        andThen (applyRepos env decode region proj connName) (\<lambda>_. ret False))))"

definition applyConsumerGrants :: "'x iac_env \<Rightarrow> string \<Rightarrow> project_outputs \<Rightarrow> pval \<times> pval \<Rightarrow> (unit, 'x) deploy" where
  "applyConsumerGrants env region proj ar =
     andThen (optionalObject env (ie_strings env) ''consumerWorkloadStacks'' []) (\<lambda>stacks.
     andThen (each (\<lambda>(i, stackRef).
        andThen (wrapping (''workload stack ref '' @ stackRef @ '': '') (NewStackReference env stackRef)) (\<lambda>_.
        wrapping (''consumer grant '' @ show_nat i @ '': '') (GrantReader (ie_engine env) (''ar-consumer-'' @ show_nat i) (fst proj) region (snd ar)
          (PCat [PStr ''serviceAccount:service-'', POut stack_ref_type stackRef ''computeProjectNumber'', PStr ''@serverless-robot-prod.iam.gserviceaccount.com'']))))
        (enumerate 0 stacks)) (\<lambda>_. ret ()))"

definition delivery_fromGovernanceStack :: "'x iac_env \<Rightarrow> unit \<Rightarrow> placement \<Rightarrow> (placement \<times> unit, 'x) deploy" where
  "delivery_fromGovernanceStack env = fromGovernanceStack env (fresh_reader env) (folder_from_map (governance_folder env)) False"

definition delivery_resolvePlacement :: "'x iac_env \<Rightarrow> placement option \<Rightarrow> (placement \<times> unit, 'x) deploy" where
  "delivery_resolvePlacement env params = resolvePlacement env (delivery_fromGovernanceStack env) False params ()"

definition delivery_Apply :: "'x iac_env \<Rightarrow> (string \<Rightarrow> 'x err + delivery_repo list) \<Rightarrow> placement option \<Rightarrow> (unit, 'x) deploy" where
  "delivery_Apply env decode params =
     andThen (cfg_Require env ''projectName'') (\<lambda>projectName.
     andThen (delivery_resolvePlacement env params) (\<lambda>(place, _).
     andThen (wrapping ''delivery project: '' (program_project env projectName place
       [''cloudbuild.googleapis.com'', ''artifactregistry.googleapis.com'', ''secretmanager.googleapis.com'', ''iam.googleapis.com'', ''compute.googleapis.com''])) (\<lambda>proj.
     andThen (applyRegistry env (region_of env) proj) (\<lambda>ar.
     andThen (applyGitHub env decode (region_of env) proj ar) (\<lambda>stop.
     if stop then ret ()
     else andThen (applyConsumerGrants env (region_of env) proj ar) (\<lambda>_.
       andThen (export ''projectId'' (fst proj)) (\<lambda>_. export ''dockerRepoId'' (fst ar))))))))"

end
