(* ===== verification/Iac_Observability.thy ===== *)
theory Iac_Observability
  imports Iac_Programs
begin

section \<open>iac/observability: the log sink and the uptime checks\<close>

text \<open>
  \<open>src/go/iac/observability/observability.go\<close>. The names of log streams come from the configuration and end up in a filter expression of an
  organisation-wide sink. Every stack reference of a run goes through one cache, here the list of the names read so far.
\<close>

subsection \<open>The sink filter\<close>

definition defaultSinkLogNames :: "string list" where
  "defaultSinkLogNames = [''cloudaudit.googleapis.com'']"

definition sink_char :: "char \<Rightarrow> bool" where
  "sink_char c \<longleftrightarrow> (of_char c :: nat) \<in> {65..90} \<union> {97..122} \<union> {48..57} \<union> {37, 45, 46, 47, 95}"

text \<open>A match of \<open>^[A-Za-z0-9._/%-]+$\<close>.\<close>

definition sink_match :: "string \<Rightarrow> bool" where
  "sink_match s \<longleftrightarrow> s \<noteq> '''' \<and> list_all sink_char s"

definition sinkLogNameCharset :: string where "sinkLogNameCharset = ''^[A-Za-z0-9._/%-]+$''"

definition ErrInvalidSinkLogName :: "'x err" where
  "ErrInvalidSinkLogName = sentinel ''observability.ErrInvalidSinkLogName'' ''observability: invalid sinkExtraLogNames entry''"

definition hex_digit_value :: "char \<Rightarrow> nat option" where
  "hex_digit_value c =
     (let n = of_char c :: nat in
      if 48 \<le> n \<and> n \<le> 57 then Some (n - 48)
      else if 97 \<le> n \<and> n \<le> 102 then Some (n - 87)
      else if 65 \<le> n \<and> n \<le> 70 then Some (n - 55)
      else None)"

text \<open>\<open>url.PathUnescape\<close>: None for a malformed escape.\<close>

fun path_unescape :: "string \<Rightarrow> string option" where
  "path_unescape [] = Some []"
| "path_unescape (c # s) =
     (if c = CHR ''%'' then
        (case s of
           a # b # rest \<Rightarrow>
             (case (hex_digit_value a, hex_digit_value b) of
                (Some x, Some y) \<Rightarrow> map_option (\<lambda>r. char_of (16 * x + y) # r) (path_unescape rest)
              | _ \<Rightarrow> None)
         | _ \<Rightarrow> None)
      else map_option (\<lambda>r. c # r) (path_unescape s))"

text \<open>\<open>escape_error\<close> is the error of \<open>PathUnescape\<close>.\<close>

definition validateSinkLogName :: "(string \<Rightarrow> 'x err) \<Rightarrow> string \<Rightarrow> 'x err option" where
  "validateSinkLogName escape_error name =
     (if \<not> sink_match name then
        Some (errorf (err_text (ErrInvalidSinkLogName :: 'x err) @ '': '' @ go_quote name @ '' must match '' @ sinkLogNameCharset) [ErrInvalidSinkLogName])
      else (case path_unescape name of
        None \<Rightarrow> Some (errorf (err_text (ErrInvalidSinkLogName :: 'x err) @ '': '' @ go_quote name @ '' is not validly percent-encoded: '' @ err_text (escape_error name))
            [ErrInvalidSinkLogName, escape_error name])
      | Some decoded \<Rightarrow>
          if \<not> sink_match decoded then
            Some (errorf (err_text (ErrInvalidSinkLogName :: 'x err) @ '': '' @ go_quote name @ '' decodes to '' @ go_quote decoded
              @ '', which must also match '' @ sinkLogNameCharset) [ErrInvalidSinkLogName])
          else None))"

definition validate_names :: "(string \<Rightarrow> 'x err) \<Rightarrow> string list \<Rightarrow> 'x err option" where
  "validate_names escape_error names =
     (case List.find (\<lambda>n. validateSinkLogName escape_error n \<noteq> None) names of None \<Rightarrow> None | Some n \<Rightarrow> validateSinkLogName escape_error n)"

definition sinkLogNamesFromConfig :: "'x iac_env \<Rightarrow> (string \<Rightarrow> 'x err) \<Rightarrow> (string list, 'x) deploy" where
  "sinkLogNamesFromConfig env escape_error =
     (if cfg_Get env ''sinkExtraLogNames'' = '''' then ret defaultSinkLogNames
      else (case ie_strings env (cfg_Get env ''sinkExtraLogNames'') of
        Inl e \<Rightarrow> fails (wrapf ''parse sinkExtraLogNames: '' e)
      | Inr extra \<Rightarrow>
         (case validate_names escape_error extra of
            Some e \<Rightarrow> fails (wrapf ''sinkExtraLogNames: '' e)
          | None \<Rightarrow> ret (defaultSinkLogNames @ extra))))"

definition quote_mark :: string where "quote_mark = [CHR 0x22]"

definition sink_clause :: "string \<Rightarrow> string" where
  "sink_clause name = ''logName:'' @ quote_mark @ ''logs/'' @ name @ quote_mark"

definition sinkFilter :: "string list \<Rightarrow> string" where
  "sinkFilter logNames = join_with '' OR '' (map sink_clause logNames)"

subsection \<open>Stack references\<close>

definition stackReferenceFor :: "'x iac_env \<Rightarrow> (string list, 'x) stack_reader" where
  "stackReferenceFor env refs name =
     (if name \<in> set refs then ret refs
      else andThen (wrapping (''stack ref '' @ go_quote name @ '': '') (NewStackReference env name)) (\<lambda>_. ret (name # refs)))"

subsection \<open>Monitoring\<close>

record uptime_target =
  tg_DisplayName :: string
  tg_StackRef :: string
  tg_URLOutputKey :: string
  tg_StatusClasses :: "string list"

definition defaultURLOutputKey :: string where "defaultURLOutputKey = ''frontendUrl''"

definition hostFromURL :: "string \<Rightarrow> string" where
  "hostFromURL u =
     (let v = trim_prefix (trim_prefix u ''https://'') ''http://'' in
      if has_suffix v ''/'' then butlast v else v)"

text \<open>The host is the output of the stack after \<open>hostFromURL\<close>.\<close>

definition target_host :: "uptime_target \<Rightarrow> pval" where
  "target_host t = POut stack_ref_type (tg_StackRef t) (''hostFromURL('' @ orString (tg_URLOutputKey t) defaultURLOutputKey @ '')'')"

definition applyUptimeTarget :: "'x iac_env \<Rightarrow> pval \<Rightarrow> pval list \<Rightarrow> uptime_target \<Rightarrow> (unit, 'x) deploy" where
  "applyUptimeTarget env projectID channelIDs t =
     wrapping (''uptime check '' @ go_quote (tg_DisplayName t) @ '': '') (uptime_Apply (ie_engine env) projectID
       \<lparr>ut_DisplayName = tg_DisplayName t, ut_Path = '''', ut_Port = 0, ut_Classes = (if tg_StatusClasses t = [] then [''2xx'', ''3xx''] else tg_StatusClasses t),
        ut_Period = '''', ut_Timeout = ''''\<rparr> (target_host t) channelIDs [])"

fun monitor_targets :: "'x iac_env \<Rightarrow> pval \<Rightarrow> pval list \<Rightarrow> string list \<Rightarrow> uptime_target list \<Rightarrow> (unit, 'x) deploy" where
  "monitor_targets env projectID channelIDs refs [] = ret ()"
| "monitor_targets env projectID channelIDs refs (t # ts) =
     andThen (wrapping (''uptime target '' @ go_quote (tg_DisplayName t) @ '': '') (stackReferenceFor env refs (tg_StackRef t))) (\<lambda>refs'.
     andThen (applyUptimeTarget env projectID channelIDs t) (\<lambda>_. monitor_targets env projectID channelIDs refs' ts))"

definition uptimeTargetsFromConfig :: "'x iac_env \<Rightarrow> (string \<Rightarrow> 'x err + uptime_target list) \<Rightarrow> (uptime_target list, 'x) deploy" where
  "uptimeTargetsFromConfig env decode =
     (if cfg_Get env ''uptimeTargets'' = '''' then ret []
      else (case decode (cfg_Get env ''uptimeTargets'') of Inl e \<Rightarrow> fails (wrapf ''parse uptimeTargets: '' e) | Inr ts \<Rightarrow> ret ts))"

definition applyMonitoring :: "'x iac_env \<Rightarrow> (string \<Rightarrow> 'x err + uptime_target list) \<Rightarrow> pval \<Rightarrow> string list \<Rightarrow> (unit, 'x) deploy" where
  "applyMonitoring env decode projectID refs =
     (let email = cfg_Get env ''alertEmail'' in
      andThen (if email = '''' then ret []
        else andThen (wrapping ''ops email channel: '' (register (ie_engine env) (email_channel ''ops-email'' projectID ''Observability ops alerts: '' email [])))
          (\<lambda>_. ret [POut channel_type ''ops-email'' ''id''])) (\<lambda>channelIDs.
      andThen (uptimeTargetsFromConfig env decode) (\<lambda>targets.
      monitor_targets env projectID channelIDs refs targets)))"

definition observability_fromGovernanceStack :: "'x iac_env \<Rightarrow> string list \<Rightarrow> placement \<Rightarrow> (placement \<times> string list, 'x) deploy" where
  "observability_fromGovernanceStack env = fromGovernanceStack env (stackReferenceFor env) (folder_from_map (governance_folder env)) True"

definition observability_resolvePlacement :: "'x iac_env \<Rightarrow> placement option \<Rightarrow> (placement \<times> string list, 'x) deploy" where
  "observability_resolvePlacement env params = resolvePlacement env (observability_fromGovernanceStack env) True params []"

definition observability_Apply :: "'x iac_env \<Rightarrow> (string \<Rightarrow> 'x err) \<Rightarrow> (string \<Rightarrow> 'x err + uptime_target list) \<Rightarrow> placement option \<Rightarrow> (unit, 'x) deploy" where
  "observability_Apply env escape_error decode params =
     andThen (cfg_Require env ''projectName'') (\<lambda>projectName.
     andThen (observability_resolvePlacement env params) (\<lambda>(place, refs).
     andThen (wrapping ''observability project: '' (program_project env projectName place
       [''bigquery.googleapis.com'', ''logging.googleapis.com'', ''monitoring.googleapis.com''])) (\<lambda>(projectID, _).
     andThen (wrapping ''log dataset: '' (datasets_Apply (ie_engine env) projectID
       \<lparr>da_ID = ''org_logs'', da_FriendlyName = ''Org-wide Audit Logs'', da_Description = ''Aggregated audit and activity logs from all GCP projects'',
        da_Location = region_of env, da_Labels = []\<rparr> [] [])) (\<lambda>datasetID.
     andThen (sinkLogNamesFromConfig env escape_error) (\<lambda>names.
     andThen (wrapping ''org log sink: '' (logsinks_Apply (ie_engine env)
       \<lparr>sk_Name = ''org-audit-to-bigquery'', sk_OrgID = pl_orgID place, sk_Filter = sinkFilter names, sk_IncludeChildren = True\<rparr>
       (PCat [PStr ''bigquery.googleapis.com/projects/'', projectID, PStr ''/datasets/'', datasetID]))) (\<lambda>writer.
     andThen (applyMonitoring env decode projectID refs) (\<lambda>_.
     andThen (export ''projectId'' projectID) (\<lambda>_.
     andThen (export ''logDatasetId'' datasetID) (\<lambda>_.
     export ''sinkWriterIdentity'' writer)))))))))"

subsection \<open>What a filter matches\<close>

text \<open>How a reader of the filter takes it apart: clauses between the words OR, each a quoted text after \<open>logName:\<close>; within quotes
  everything up to the next mark is the text.\<close>

definition read_clause :: "string \<Rightarrow> (string \<times> string) option" where
  "read_clause s =
     (if has_prefix s (''logName:'' @ quote_mark @ ''logs/'') then
        (let t = drop 14 s in if CHR 0x22 \<in> set t then Some (takeWhile (\<lambda>c. c \<noteq> CHR 0x22) t, tl (dropWhile (\<lambda>c. c \<noteq> CHR 0x22) t)) else None)
      else None)"

fun read_filter :: "nat \<Rightarrow> string \<Rightarrow> string list option" where
  "read_filter 0 s = None"
| "read_filter (Suc n) s =
     (case read_clause s of
        None \<Rightarrow> None
      | Some (name, rest) \<Rightarrow>
          if rest = '''' then Some [name]
          else if has_prefix rest '' OR '' then map_option (\<lambda>ns. name # ns) (read_filter n (drop 4 rest))
          else None)"

lemma up_to_mark: "c \<notin> set xs \<Longrightarrow> takeWhile (\<lambda>x. x \<noteq> c) (xs @ c # ys) = xs \<and> dropWhile (\<lambda>x. x \<noteq> c) (xs @ c # ys) = c # ys"
  by (induction xs) auto

lemma read_clause_sink: "CHR 0x22 \<notin> set name \<Longrightarrow> read_clause (sink_clause name @ rest) = Some (name, rest)"
  by (simp add: read_clause_def sink_clause_def quote_mark_def has_prefix_def up_to_mark)

lemma read_sinkFilter:
  "names \<noteq> [] \<Longrightarrow> \<forall>n \<in> set names. CHR 0x22 \<notin> set n \<Longrightarrow> length names \<le> k \<Longrightarrow> read_filter k (sinkFilter names) = Some names"
proof (induction names arbitrary: k)
  case (Cons n ns)
  then obtain j where k: "k = Suc j" by (cases k) auto
  show ?case
  proof (cases ns)
    case Nil
    then show ?thesis using Cons.prems k read_clause_sink [of n "''''"] by (simp add: sinkFilter_def)
  next
    case (Cons m ms)
    have f: "sinkFilter (n # ns) = sink_clause n @ '' OR '' @ sinkFilter ns" by (simp add: sinkFilter_def Cons)
    have "read_filter j (sinkFilter ns) = Some ns" using Cons.IH [of j] Cons.prems k Cons by simp
    then show ?thesis using Cons.prems k unfolding f by (simp add: read_clause_sink has_prefix_def)
  qed
qed simp

lemma path_unescape_plain: "CHR ''%'' \<notin> set t \<Longrightarrow> path_unescape t = Some t"
  by (induction t) auto

lemma path_unescape_append: "path_unescape a = Some a' \<Longrightarrow> path_unescape (a @ b) = map_option (\<lambda>r. a' @ r) (path_unescape b)"
proof (induction a arbitrary: a' rule: path_unescape.induct)
  case 1
  then show ?case by (cases "path_unescape b") simp_all
next
  case (2 c s)
  show ?case
  proof (cases "c = CHR ''%''")
    case True
    then obtain x y rest where s: "s = x # y # rest" using 2(3) by (auto split: list.splits)
    then obtain i j where ij: "hex_digit_value x = Some i" "hex_digit_value y = Some j" using 2(3) True by (auto split: option.splits)
    then obtain r where r: "path_unescape rest = Some r" "a' = char_of (16 * i + j) # r" using 2(3) True s by auto
    have "path_unescape (rest @ b) = map_option (\<lambda>u. r @ u) (path_unescape b)" using 2(1) True s ij r(1) by blast
    then show ?thesis using True s ij r(2) by (cases "path_unescape b") simp_all
  next
    case False
    then obtain r where r: "path_unescape s = Some r" "a' = c # r" using 2(3) by auto
    have "path_unescape (s @ b) = map_option (\<lambda>u. r @ u) (path_unescape b)" using 2(2) False r(1) by blast
    then show ?thesis using False r(2) by (cases "path_unescape b") simp_all
  qed
qed

lemma sink_char_no_mark: "list_all sink_char s \<Longrightarrow> CHR 0x22 \<notin> set s"
proof
  assume "list_all sink_char s" "CHR 0x22 \<in> set s"
  then have "sink_char (CHR 0x22)" by (simp add: list_all_iff)
  then show False by (simp add: sink_char_def)
qed

lemma valid_name:
  "validateSinkLogName esc n = None \<Longrightarrow> CHR 0x22 \<notin> set n \<and> (\<exists>d. path_unescape n = Some d \<and> CHR 0x22 \<notin> set d)"
  by (auto simp: validateSinkLogName_def sink_match_def dest: sink_char_no_mark split: if_splits option.splits)

lemma path_unescape_clause: "path_unescape n = Some d \<Longrightarrow> path_unescape (sink_clause n) = Some (sink_clause d)"
  using path_unescape_append [OF path_unescape_plain, of "''logName:'' @ quote_mark @ ''logs/''" "n @ quote_mark"]
    path_unescape_append [of n d quote_mark] path_unescape_plain [of quote_mark]
  by (simp add: sink_clause_def quote_mark_def)

lemma path_unescape_filter:
  "list_all2 (\<lambda>n d. path_unescape n = Some d) ns ds \<Longrightarrow> path_unescape (sinkFilter ns) = Some (sinkFilter ds)"
proof (induction rule: list_all2_induct)
  case (Cons n ns d ds)
  show ?case
  proof (cases ns)
    case Nil
    then show ?thesis using Cons path_unescape_clause [of n d] by (simp add: sinkFilter_def)
  next
    case (Cons m ms)
    then obtain e es where ds: "ds = e # es" using \<open>list_all2 _ ns ds\<close> by (cases ds) auto
    have f: "sinkFilter (n # ns) = sink_clause n @ '' OR '' @ sinkFilter ns" "sinkFilter (d # ds) = sink_clause d @ '' OR '' @ sinkFilter ds"
      by (simp_all add: sinkFilter_def Cons ds)
    have "path_unescape ('' OR '' @ sinkFilter ns) = Some ('' OR '' @ sinkFilter ds)"
      using path_unescape_append [OF path_unescape_plain, of "'' OR ''" "sinkFilter ns"] \<open>path_unescape (sinkFilter ns) = Some (sinkFilter ds)\<close> by simp
    then show ?thesis unfolding f using path_unescape_append [OF path_unescape_clause [OF \<open>path_unescape n = Some d\<close>]] by simp
  qed
qed (simp add: sinkFilter_def)

lemma configured_names:
  assumes "fst (sinkLogNamesFromConfig env esc s) = Ret names"
  shows "\<exists>extra. names = ''cloudaudit.googleapis.com'' # extra \<and> (\<forall>n \<in> set extra. validateSinkLogName esc n = None)"
  using assms by (auto simp: sinkLogNamesFromConfig_def validate_names_def defaultSinkLogNames_def ret_def fails_def find_None_iff find_Some_iff
      split: if_splits sum.splits option.splits)

subsection \<open>Properties\<close>

text \<open>C36. The filter of the organisation-wide sink selects log names and nothing else: audit logs are always among them, a reader of the filter gets back exactly
  the configured names, and a layer that percent-decodes the filter first gets one decoded name for each of them and still no other syntax.\<close>
theorem sink_filter_is_only_log_names:
  assumes "fst (sinkLogNamesFromConfig env esc s) = Ret names"
  shows "hd names = ''cloudaudit.googleapis.com'' \<and> read_filter (length names) (sinkFilter names) = Some names
    \<and> (\<exists>ds. list_all2 (\<lambda>n d. path_unescape n = Some d) names ds \<and> path_unescape (sinkFilter names) = Some (sinkFilter ds)
         \<and> read_filter (length ds) (sinkFilter ds) = Some ds)"
proof -
  obtain extra where names: "names = ''cloudaudit.googleapis.com'' # extra" and ok: "\<forall>n \<in> set extra. validateSinkLogName esc n = None"
    using configured_names [OF assms] by blast
  have own: "path_unescape ''cloudaudit.googleapis.com'' = Some ''cloudaudit.googleapis.com''" by (rule path_unescape_plain) simp
  have each_name: "CHR 0x22 \<notin> set n \<and> (\<exists>d. path_unescape n = Some d \<and> CHR 0x22 \<notin> set d)" if "n \<in> set names" for n
    using that ok valid_name own by (auto simp: names)
  define ds where "ds = map (\<lambda>n. the (path_unescape n)) names"
  have "list_all2 (\<lambda>n d. path_unescape n = Some d) names ds"
    using each_name by (auto simp: ds_def list_all2_map2 list.rel_refl_strong list_all2_conv_all_nth) (metis nth_mem option.sel)
  moreover have "\<forall>d \<in> set ds. CHR 0x22 \<notin> set d" using each_name by (auto simp: ds_def) (metis option.sel)
  moreover have "ds \<noteq> []" "names \<noteq> []" by (simp_all add: ds_def names)
  ultimately show ?thesis using each_name read_sinkFilter [of names "length names"] read_sinkFilter [of ds "length ds"] path_unescape_filter [of names ds]
    by (intro conjI exI [of _ ds]) (auto simp: names)
qed

text \<open>A configuration with one more log stream.\<close>

definition demo_iac :: "(string \<rightharpoonup> string) \<Rightarrow> unit iac_env" where
  "demo_iac cfg = \<lparr>ie_engine = (\<lambda>s r. None), ie_config = cfg, ie_outputs = (\<lambda>st k. None), ie_int = (\<lambda>v. Some 1), ie_strings = (\<lambda>v. Inr [v]),
     ie_floats = (\<lambda>v. Inr []), ie_dash = '' - ''\<rparr>"

theorem sink_filter_is_only_log_names_witness:
  "read_filter 2 (sinkFilter [''cloudaudit.googleapis.com'', ''run%2Fstdout'']) = Some [''cloudaudit.googleapis.com'', ''run%2Fstdout'']"
proof -
  have "validateSinkLogName (\<lambda>n. sentinel n n :: unit err) ''run%2Fstdout'' = None"
    by (simp add: validateSinkLogName_def sink_match_def sink_char_def hex_digit_value_def)
  then have "fst (sinkLogNamesFromConfig (demo_iac [''sinkExtraLogNames'' \<mapsto> ''run%2Fstdout'']) (\<lambda>n. sentinel n n) s) = Ret [''cloudaudit.googleapis.com'', ''run%2Fstdout'']" for s
    by (simp add: sinkLogNamesFromConfig_def validate_names_def cfg_Get_def demo_iac_def ret_def defaultSinkLogNames_def)
  from sink_filter_is_only_log_names [OF this] show ?thesis by (simp add: numeral_2_eq_2)
qed

end
