(* ===== verification/Iac_Safety.thy ===== *)
theory Iac_Safety
  imports Iac_Observability
begin

section \<open>iac: what the programs register\<close>

text \<open>
  Invariants of the programs of \<open>Iac_Programs\<close> and \<open>Iac_Observability\<close> over everything they register: data is protected, no stack is
  referenced twice by the observability program.
\<close>

subsection \<open>Only resources of a kind\<close>

named_theorems adds_rules

definition adds :: "(resource \<Rightarrow> bool) \<Rightarrow> ('a, 'x) deploy \<Rightarrow> bool" where
  "adds P m \<longleftrightarrow> (\<forall>s. \<exists>rs. dp_Resources (snd (m s)) = dp_Resources s @ rs \<and> list_all P rs)"

lemma addsI: "(\<And>s. \<exists>rs. dp_Resources (snd (m s)) = dp_Resources s @ rs \<and> list_all P rs) \<Longrightarrow> adds P m"
  by (simp add: adds_def)

lemma addsD: "adds P m \<Longrightarrow> \<exists>rs. dp_Resources (snd (m s)) = dp_Resources s @ rs \<and> list_all P rs"
  by (simp add: adds_def)

lemma adds_simple [adds_rules]: "adds P (ret a)" "adds P (fails e)" "adds P (panics msg)" "adds P (export k v)"
  by (auto simp: adds_def ret_def fails_def panics_def export_def)

lemma adds_register [adds_rules]: "P r \<Longrightarrow> adds P (register eng r)"
  by (auto simp: adds_def register_def split: option.split)

lemma adds_andThen [adds_rules]:
  assumes "adds P m" "\<And>a. adds P (f a)"
  shows "adds P (andThen m f)"
proof (rule addsI)
  fix s
  obtain rs where rs: "dp_Resources (snd (m s)) = dp_Resources s @ rs" "list_all P rs" using addsD [OF assms(1)] by blast
  show "\<exists>rs. dp_Resources (snd (andThen m f s)) = dp_Resources s @ rs \<and> list_all P rs"
  proof (cases "m s")
    case (Pair r s')
    then show ?thesis using rs
    proof (cases r)
      case (Ret a)
      obtain rs' where "dp_Resources (snd (f a s')) = dp_Resources s' @ rs'" "list_all P rs'" using addsD [OF assms(2)] by blast
      then show ?thesis using rs Pair Ret by (intro exI [of _ "rs @ rs'"]) (simp add: andThen_def)
    qed (auto simp: andThen_def Pair)
  qed
qed

lemma adds_same_state: "adds P m \<Longrightarrow> (\<And>s. snd (m' s) = snd (m s)) \<Longrightarrow> adds P m'"
  by (simp add: adds_def)

lemma adds_wrapping [adds_rules]: "adds P m \<Longrightarrow> adds P (wrapping msg m)"
  by (erule adds_same_state) (simp add: wrapping_def split: prod.split outcome.split)

lemma adds_attempt [adds_rules]: "adds P m \<Longrightarrow> adds P (attempt m)"
  by (erule adds_same_state) (simp add: attempt_def split: prod.split outcome.split)

lemma adds_each [adds_rules]: "(\<And>x. adds P (f x)) \<Longrightarrow> adds P (each f xs)"
  by (induction xs) (auto intro!: adds_simple adds_andThen)

lemma adds_if [adds_rules]: "(b \<Longrightarrow> adds P m) \<Longrightarrow> (\<not> b \<Longrightarrow> adds P m') \<Longrightarrow> adds P (if b then m else m')"
  by simp

lemma adds_cases [adds_rules]:
  "(\<And>x. oe = Some x \<Longrightarrow> adds P (f x)) \<Longrightarrow> (oe = None \<Longrightarrow> adds P m) \<Longrightarrow> adds P (case oe of None \<Rightarrow> m | Some x \<Rightarrow> f x)"
  "(\<And>x. su = Inl x \<Longrightarrow> adds P (g x)) \<Longrightarrow> (\<And>x. su = Inr x \<Longrightarrow> adds P (h x)) \<Longrightarrow> adds P (case su of Inl x \<Rightarrow> g x | Inr x \<Rightarrow> h x)"
  "(\<And>x y. pr = (x, y) \<Longrightarrow> adds P (k x y)) \<Longrightarrow> adds P (case pr of (x, y) \<Rightarrow> k x y)"
  by (auto split: option.split sum.split prod.split)

lemma adds_let [adds_rules]: "(\<And>x. adds P (f x)) \<Longrightarrow> adds P (let x = v in f x)"
  by simp

lemma adds_require_ok [adds_rules]: "adds P (require_ok oe)"
  by (auto simp: require_ok_def intro!: adds_rules)

text \<open>The blocks register what their configuration says.\<close>

lemma adds_blocks [adds_rules]:
  "P (project_resource pc opts) \<Longrightarrow> (\<And>api. P (service_resource pc api)) \<Longrightarrow> adds P (projects_Apply eng pc opts)"
  "(\<And>f n. P (folder_resource f n opts)) \<Longrightarrow> adds P (folders_Apply eng hc opts)"
  "(\<And>n args. P (plain iam_type n args [])) \<Longrightarrow> adds P (bindings_Apply eng bs)"
  "(\<And>n args. P (plain sa_iam_type n args [])) \<Longrightarrow> adds P (ApplySAIam eng ds)"
  "(\<And>role n proj loc repo mem. P (registry_grant role n proj loc repo mem)) \<Longrightarrow> adds P (GrantReader eng n1 proj1 loc1 repo1 mem1)"
  "(\<And>role n proj loc repo mem. P (registry_grant role n proj loc repo mem)) \<Longrightarrow> adds P (GrantWriter eng n1 proj1 loc1 repo1 mem1)"
  "(\<And>n. P (secret_resource projectID n deps opts)) \<Longrightarrow> (\<And>x. P (secret_version_resource x)) \<Longrightarrow> adds P (secrets_Apply eng projectID ss deps opts)"
  "(\<And>n args. P (plain account_type n args deps)) \<Longrightarrow> adds P (serviceaccounts_Apply eng projectID accounts deps)"
  "(\<And>n args. P (plain trigger_type n args deps)) \<Longrightarrow> adds P (triggers_Apply eng projectID region repoID sa tc deps)"
  "(\<And>n args. P (plain connection_type n args deps)) \<Longrightarrow> adds P (connections_Apply eng dash projectID cc deps)"
  "(\<And>n args. P (plain repository_type n args [])) \<Longrightarrow> adds P (LinkRepo eng projectID connName region repo2)"
  "(\<And>n args. P (plain channel_type n args deps)) \<Longrightarrow> (\<And>n args. P (plain budget_type n args deps)) \<Longrightarrow> adds P (budgets_Apply eng projectID bc deps)"
  "(\<And>n args. P (plain uptime_type n args deps)) \<Longrightarrow> (\<And>n args d. P (plain alert_type n args d)) \<Longrightarrow> adds P (uptime_Apply eng projectID uc host chans deps)"
  "(\<And>n args. P (plain sink_type n args [])) \<Longrightarrow> adds P (logsinks_Apply eng skc dest)"
  "P (registry_resource projectID rc deps opts) \<Longrightarrow> adds P (registries_Apply eng projectID rc deps opts)"
  "(\<And>d. P (tagkey_resource orgID d opts)) \<Longrightarrow> adds P (tagkeys_Apply eng orgID dims opts)"
  "P (dataset_resource dc projectID deps opts) \<Longrightarrow> adds P (datasets_Apply eng projectID dc deps opts)"
  by (auto simp: projects_Apply_def folders_Apply_def bindings_Apply_def ApplySAIam_def GrantReader_def GrantWriter_def secrets_Apply_def serviceaccounts_Apply_def
      triggers_Apply_def connections_Apply_def LinkRepo_def budgets_Apply_def uptime_Apply_def logsinks_Apply_def datasets_Apply_def
      registries_Apply_def tagkeys_Apply_def email_channel_def budget_resource_def uptime_resource_def alert_resource_def sink_resource_def intro!: adds_rules)

lemma adds_config [adds_rules]:
  "adds P (cfg_Require env key)" "adds P (cfg_RequireInt env key)" "adds P (cfg_RequireObject env dec key)" "adds P (optionalObject env dec2 key dflt)"
  "adds P (or_require env v key)" "adds P (of_plan r)" "adds P (export_tags tags)" "adds P (sinkLogNamesFromConfig env esc)"
  "adds P (uptimeTargetsFromConfig env targetsDec)" "adds P (resolve_secret inp d)"
  by (auto simp: cfg_Require_def cfg_RequireInt_def cfg_RequireObject_def optionalObject_def or_require_def of_plan_def export_tags_def sinkLogNamesFromConfig_def
      uptimeTargetsFromConfig_def resolve_secret_def intro!: adds_rules)

lemma adds_reader [adds_rules]:
  "(\<And>n args. P (plain stack_ref_type n args [])) \<Longrightarrow> adds P (NewStackReference env name)"
  "(\<And>n args. P (plain stack_ref_type n args [])) \<Longrightarrow> adds P (fresh_reader env c name)"
  "(\<And>n args. P (plain stack_ref_type n args [])) \<Longrightarrow> adds P (stackReferenceFor env refs name)"
  by (auto simp: NewStackReference_def fresh_reader_def stackReferenceFor_def intro!: adds_rules)

lemma adds_placement [adds_rules]:
  "(\<And>c n. adds P (reader c n)) \<Longrightarrow> adds P (resolvePlacement env (fromGovernanceStack env reader folder org) org' params c)"
  by (auto simp: resolvePlacement_def fromGovernanceStack_def Let_def intro!: adds_rules split: option.split)

text \<open>What the programs register, for a property of every block they use.\<close>

definition block_resources_ok :: "(resource \<Rightarrow> bool) \<Rightarrow> bool" where
  "block_resources_ok P \<longleftrightarrow>
     (\<forall>pc. P (project_resource pc [])) \<and> (\<forall>pc api. P (service_resource pc api)) \<and> (\<forall>f n. P (folder_resource f n []))
     \<and> (\<forall>org d. P (tagkey_resource org d [])) \<and> (\<forall>pr rc deps. P (registry_resource pr rc deps [])) \<and> (\<forall>pr dc deps. P (dataset_resource dc pr deps []))
     \<and> (\<forall>pr n deps. P (secret_resource pr n deps [])) \<and> (\<forall>x. P (secret_version_resource x))
     \<and> (\<forall>role n proj loc repo mem. P (registry_grant role n proj loc repo mem))
     \<and> (\<forall>ty n args deps. ty \<in> {iam_type, sa_iam_type, account_type, trigger_type, connection_type, repository_type, channel_type, budget_type, uptime_type, alert_type,
          sink_type, secret_iam_type} \<longrightarrow> P (plain ty n args deps))"

lemma block_resource:
  assumes "block_resources_ok P"
  shows "P (project_resource pc [])" "P (service_resource pc api)" "P (folder_resource f n [])" "P (tagkey_resource org d [])" "P (registry_resource pr rc deps [])"
    "P (dataset_resource dc pr deps [])" "P (secret_resource pr n deps [])" "P (secret_version_resource x)" "P (registry_grant role n proj loc repo mem)"
    "P (plain iam_type n args deps)" "P (plain sa_iam_type n args deps)" "P (plain account_type n args deps)" "P (plain trigger_type n args deps)"
    "P (plain connection_type n args deps)" "P (plain repository_type n args deps)" "P (plain channel_type n args deps)" "P (plain budget_type n args deps)"
    "P (plain uptime_type n args deps)" "P (plain alert_type n args deps)" "P (plain sink_type n args deps)" "P (plain secret_iam_type n args deps)"
  using assms by (auto simp: block_resources_ok_def)

lemma adds_parts:
  assumes "block_resources_ok P"
  shows "adds P (program_project env name place apis)" "adds P (applySecrets env inp projectID)" "adds P (applyConsumerAccess env projectName)"
    "adds P (applyServiceAccounts env inp projectID projectName)" "adds P (applyBudget env projectName place projectID)" "adds P (applyProject env place number wp)"
    "adds P (tier_plan env dims sc parent rootFolder)" "adds P (applyRegistry env region proj)" "adds P (applyGitHub env repos region proj ar)"
    "adds P (applyUptimeTarget env projectID chans t)"
  by (auto simp: program_project_def applySecrets_def applyConsumerAccess_def applyServiceAccounts_def applyImpersonators_def applyBudget_def applyProject_def
      tier_plan_def enterprisePlan_def applyRegistry_def applyBuildWriterGrants_def applyGitHub_def applySecretAccessor_def applyRepos_def applyRepo_def applyUptimeTarget_def
      intro!: adds_rules block_resource [OF assms])

lemma adds_monitoring:
  assumes "block_resources_ok P" "\<And>n args. P (plain stack_ref_type n args [])"
  shows "adds P (monitor_targets env projectID chans refs ts)"
  by (induction ts arbitrary: refs) (auto intro!: adds_rules adds_parts [OF assms(1)] assms(2))

lemmas placement_defs = identity_resolvePlacement_def finops_resolvePlacement_def workloads_resolvePlacement_def delivery_resolvePlacement_def
  observability_resolvePlacement_def identity_fromGovernanceStack_def finops_fromGovernanceStack_def workloads_fromGovernanceStack_def
  delivery_fromGovernanceStack_def observability_fromGovernanceStack_def

lemma adds_programs:
  assumes "block_resources_ok P" "\<And>n args. P (plain stack_ref_type n args [])"
  shows "adds P (identity_Apply env inp params)" "adds P (finops_Apply env params)" "adds P (workloads_Apply env wps params)" "adds P (governance_Apply env dims)"
    "adds P (delivery_Apply env repos params)" "adds P (observability_Apply env esc targets params)"
  by (auto simp: identity_Apply_def finops_Apply_def workloads_Apply_def governance_Apply_def delivery_Apply_def observability_Apply_def applyConsumerGrants_def
      applyMonitoring_def email_channel_def Let_def placement_defs
      intro!: adds_rules adds_parts [OF assms(1)] block_resource [OF assms(1)] adds_monitoring [OF assms] assms(2))

subsection \<open>Protected data\<close>

text \<open>
  The table of \<open>src/go/iac/pulumi/gcpinfra/README.md\<close> for the types that the programs use: the types that hold data, which Pulumi's own protection
  covers, and the provider's guard for each of them that has one; the provider has none for a tag key.
\<close>

definition data_types :: "string list" where
  "data_types = [project_type, folder_type, tagkey_type, registry_type, dataset_type, secret_type]"

definition provider_guards :: "(string \<times> (string \<times> pval) list) list" where
  "provider_guards =
     [(project_type, [(''DeletionPolicy'', PStr ''PREVENT'')]), (folder_type, [(''DeletionProtection'', PBool True)]),
      (registry_type, [(''DeletionPolicy'', PStr ''PREVENT'')]), (dataset_type, [(''DeleteContentsOnDestroy'', PBool False)]),
      (secret_type, [(''DeletionPolicy'', PStr ''PREVENT''), (''DeletionProtection'', PBool True)])]"

text \<open>A resource that holds data is protected by Pulumi, and by the provider where it has a guard for the type.\<close>

definition guard_ok :: "resource \<Rightarrow> bool" where
  "guard_ok r \<longleftrightarrow> (rs_Type r \<in> set data_types \<longrightarrow> rs_Protect r = Some True)
     \<and> (case map_of provider_guards (rs_Type r) of None \<Rightarrow> True | Some gs \<Rightarrow> list_all (\<lambda>(k, v). map_of (rs_Args r) k = Some v) gs)"

lemmas type_defs = project_type_def service_type_def folder_type_def tagkey_type_def registry_type_def registry_iam_type_def secret_type_def secret_version_type_def
  dataset_type_def iam_type_def sa_iam_type_def account_type_def trigger_type_def connection_type_def repository_type_def channel_type_def budget_type_def
  uptime_type_def alert_type_def sink_type_def secret_iam_type_def stack_ref_type_def

lemma not_ephemeral [simp]: "\<not> IsEphemeral []" "Protect []" "deletion_policy [] = PStr ''PREVENT''"
  by (simp_all add: IsEphemeral_def Protect_def deletion_policy_def)

lemma guard_ok_plain: "ty \<notin> set data_types \<Longrightarrow> map_of provider_guards ty = None \<Longrightarrow> guard_ok (plain ty n args deps)"
  by (simp add: guard_ok_def plain_def)

lemma blocks_guarded: "block_resources_ok guard_ok"
  unfolding block_resources_ok_def
  by (auto simp: guard_ok_def project_resource_def service_resource_def folder_resource_def tagkey_resource_def registry_resource_def dataset_resource_def
      secret_resource_def secret_version_resource_def registry_grant_def guarded_def plain_def data_types_def provider_guards_def type_defs)

lemma stack_ref_guarded: "guard_ok (plain stack_ref_type n args deps)"
  by (rule guard_ok_plain) (simp_all add: data_types_def provider_guards_def type_defs)

definition empty_deployment :: deploy_state where
  "empty_deployment = \<lparr>dp_Resources = [], dp_Exports = []\<rparr>"

lemma adds_from_empty: "adds P m \<Longrightarrow> list_all P (dp_Resources (snd (m empty_deployment)))"
  using addsD [of P m empty_deployment] by (auto simp: empty_deployment_def)

subsection \<open>Stack references\<close>

definition refs_of :: "deploy_state \<Rightarrow> string list" where
  "refs_of s = map rs_Name (filter (\<lambda>r. rs_Type r = stack_ref_type) (dp_Resources s))"

text \<open>The cache covers every reference that was registered, and none was registered twice.\<close>

definition cached :: "string list \<Rightarrow> deploy_state \<Rightarrow> bool" where
  "cached refs s \<longleftrightarrow> distinct (refs_of s) \<and> set (refs_of s) \<subseteq> set refs"

definition keeps :: "(deploy_state \<Rightarrow> bool) \<Rightarrow> ('a, 'x) deploy \<Rightarrow> ('a \<Rightarrow> deploy_state \<Rightarrow> bool) \<Rightarrow> bool" where
  "keeps I m Q \<longleftrightarrow> (\<forall>s. I s \<longrightarrow> (case m s of (Ret a, s') \<Rightarrow> Q a s' | (_, s') \<Rightarrow> distinct (refs_of s')))"

lemma keepsI: "(\<And>s. I s \<Longrightarrow> (case m s of (Ret a, s') \<Rightarrow> Q a s' | (_, s') \<Rightarrow> distinct (refs_of s'))) \<Longrightarrow> keeps I m Q"
  by (simp add: keeps_def)

lemma keepsD: "keeps I m Q \<Longrightarrow> I s \<Longrightarrow> (case m s of (Ret a, s') \<Rightarrow> Q a s' | (_, s') \<Rightarrow> distinct (refs_of s'))"
  by (simp add: keeps_def)

lemma keeps_andThen: "keeps I m Q \<Longrightarrow> (\<And>a. keeps (Q a) (f a) R) \<Longrightarrow> keeps I (andThen m f) R"
proof (rule keepsI)
  fix s assume m: "keeps I m Q" and f: "\<And>a. keeps (Q a) (f a) R" and "I s"
  obtain r s' where ms: "m s = (r, s')" by fastforce
  have 1: "case (r, s') of (Ret a, s') \<Rightarrow> Q a s' | (_, s') \<Rightarrow> distinct (refs_of s')" using keepsD [OF m \<open>I s\<close>] ms by simp
  show "case andThen m f s of (Ret a, s') \<Rightarrow> R a s' | (_, s') \<Rightarrow> distinct (refs_of s')"
  proof (cases r)
    case (Ret a)
    then have "Q a s'" using 1 by simp
    from keepsD [OF f this] show ?thesis using ms Ret by (simp add: andThen_def)
  qed (use 1 ms in \<open>simp_all add: andThen_def\<close>)
qed

definition not_ref :: "resource \<Rightarrow> bool" where
  "not_ref r \<longleftrightarrow> rs_Type r \<noteq> stack_ref_type"

lemma keeps_adds: "adds not_ref m \<Longrightarrow> keeps (cached refs) m (\<lambda>a. cached refs)"
  unfolding keeps_def
proof (intro allI impI)
  fix s assume m: "adds not_ref m" and c: "cached refs s"
  obtain rs where rs: "dp_Resources (snd (m s)) = dp_Resources s @ rs" "list_all not_ref rs" using addsD [OF m] by blast
  have "filter (\<lambda>r. rs_Type r = stack_ref_type) rs = []" using rs(2) by (simp add: filter_empty_conv list_all_iff not_ref_def)
  then have "refs_of (snd (m s)) = refs_of s" using rs(1) by (simp add: refs_of_def)
  then show "case m s of (Ret a, s') \<Rightarrow> cached refs s' | (_, s') \<Rightarrow> distinct (refs_of s')"
    using c by (cases "m s") (auto simp: cached_def split: outcome.split)
qed

lemma keeps_reader: "keeps (cached refs) (stackReferenceFor env refs name) (\<lambda>refs'. cached refs')"
  by (auto simp: keeps_def stackReferenceFor_def andThen_def wrapping_def NewStackReference_def register_def ret_def plain_def cached_def refs_of_def
      split: prod.splits outcome.splits option.splits)

lemma keeps_wrapping: "keeps I m Q \<Longrightarrow> keeps I (wrapping msg m) Q"
proof (rule keepsI)
  fix s assume "keeps I m Q" "I s"
  then show "case wrapping msg m s of (Ret a, s') \<Rightarrow> Q a s' | (_, s') \<Rightarrow> distinct (refs_of s')"
    using keepsD [of I m Q s] by (cases "m s"; cases "fst (m s)") (simp_all add: wrapping_def)
qed

lemma keeps_ret: "(\<And>s. I s \<Longrightarrow> Q a s) \<Longrightarrow> keeps I (ret a) Q"
  by (simp add: keeps_def ret_def)

lemma keeps_attempt: "keeps (cached refs) (attempt (stackReferenceFor env refs name)) (\<lambda>r. cached (case r of None \<Rightarrow> refs | Some refs' \<Rightarrow> refs'))"
  by (auto simp: keeps_def attempt_def stackReferenceFor_def andThen_def wrapping_def NewStackReference_def register_def ret_def plain_def cached_def refs_of_def
      split: prod.splits outcome.splits option.splits)

lemma keeps_governance: "keeps (cached c) (fromGovernanceStack env (stackReferenceFor env) folder org c p) (\<lambda>(p', c'). cached c')"
proof -
  have "keeps (cached (case r of None \<Rightarrow> c | Some c' \<Rightarrow> c'))
      (case r of None \<Rightarrow> ret (p, c) | Some c' \<Rightarrow> ret (fill_placement folder org (ie_outputs env (cfg_Get env ''governanceStack'')) p, c')) (\<lambda>(p', c'). cached c')" for r
    by (cases r) (auto intro: keeps_ret)
  then show ?thesis unfolding fromGovernanceStack_def Let_def by (auto intro: keeps_ret keeps_andThen [OF keeps_attempt])
qed

lemma keeps_placement: "keeps (cached c) (resolvePlacement env (fromGovernanceStack env (stackReferenceFor env) folder org) org params c) (\<lambda>(p, c'). cached c')"
proof -
  have tail: "keeps (cached c') (andThen (or_require env (pl_folderID p) ''folderID'') (\<lambda>f. andThen (or_require env (pl_billingAccount p) ''billingAccount'') (\<lambda>b.
      andThen (if org then or_require env (pl_orgID p) ''orgID'' else ret (pl_orgID p)) (\<lambda>g. ret (\<lparr>pl_folderID = f, pl_billingAccount = b, pl_orgID = g\<rparr>, c')))))
      (\<lambda>(p, c'). cached c')" for p c'
    by (intro keeps_andThen [OF keeps_adds] adds_config adds_if adds_simple) (auto intro: keeps_ret)
  have "keeps (cached c) (if b then fromGovernanceStack env (stackReferenceFor env) folder org c q else ret (q, c)) (\<lambda>(p, c'). cached c')" for b q
    using keeps_governance by (auto intro: keeps_ret)
  then show ?thesis unfolding resolvePlacement_def Let_def
    by (rule keeps_andThen) (auto intro: tail)
qed

lemma blocks_no_ref: "block_resources_ok not_ref"
  unfolding block_resources_ok_def
  by (auto simp: not_ref_def project_resource_def service_resource_def folder_resource_def tagkey_resource_def registry_resource_def dataset_resource_def
      secret_resource_def secret_version_resource_def registry_grant_def guarded_def plain_def type_defs)

lemma keeps_monitoring: "keeps (cached refs) (monitor_targets env projectID chans refs ts) (\<lambda>_ s. distinct (refs_of s))"
proof (induction ts arbitrary: refs)
  case (Cons t ts)
  have "keeps (cached refs') (andThen (applyUptimeTarget env projectID chans t) (\<lambda>_. monitor_targets env projectID chans refs' ts)) (\<lambda>_ s. distinct (refs_of s))" for refs'
    by (rule keeps_andThen [OF keeps_adds Cons.IH]) (rule adds_parts [OF blocks_no_ref])
  then show ?case by (auto intro: keeps_andThen [OF keeps_wrapping [OF keeps_reader]])
qed (auto intro!: keeps_ret simp: cached_def)

lemma keeps_weaken: "keeps I m Q \<Longrightarrow> (\<And>a s. Q a s \<Longrightarrow> R a s) \<Longrightarrow> keeps I m R"
  by (rule keepsI) (drule (1) keepsD, auto split: prod.splits outcome.splits)

lemma keeps_export: "keeps (\<lambda>s. distinct (refs_of s)) (export k v) (\<lambda>_ s. distinct (refs_of s))"
  by (simp add: keeps_def export_def refs_of_def)

lemma keeps_applyMonitoring: "keeps (cached refs) (applyMonitoring env dec projectID refs) (\<lambda>_ s. distinct (refs_of s))"
  unfolding applyMonitoring_def Let_def email_channel_def
  by (intro keeps_andThen [OF keeps_adds] keeps_monitoring adds_if adds_andThen adds_simple adds_wrapping adds_register adds_config block_resource [OF blocks_no_ref])

lemma observability_refs: "keeps (cached []) (observability_Apply env esc targets params) (\<lambda>_ s. distinct (refs_of s))"
proof -
  have exports: "keeps (\<lambda>s. distinct (refs_of s)) (andThen (export k1 v1) (\<lambda>_. andThen (export k2 v2) (\<lambda>_. export k3 v3))) (\<lambda>_ s. distinct (refs_of s))" for k1 k2 k3 v1 v2 v3
    by (intro keeps_andThen [OF keeps_export] keeps_export)
  show ?thesis unfolding observability_Apply_def placement_defs
    apply (rule keeps_andThen [OF keeps_adds], rule adds_config)
    apply (rule keeps_andThen [OF keeps_placement], clarsimp)
    apply (rule keeps_andThen [OF keeps_adds], intro adds_wrapping adds_parts [OF blocks_no_ref], clarsimp)
    apply (rule keeps_andThen [OF keeps_adds], intro adds_wrapping adds_blocks block_resource [OF blocks_no_ref])
    apply (rule keeps_andThen [OF keeps_adds], rule adds_config)
    apply (rule keeps_andThen [OF keeps_adds], intro adds_wrapping adds_blocks block_resource [OF blocks_no_ref])
    apply (rule keeps_andThen [OF keeps_applyMonitoring exports])
    done
qed

subsection \<open>Properties\<close>

text \<open>C37. No program can lose data by a mistaken deploy: whatever the configuration and the engine do, every project, folder, tag key, registry, data set and
  secret that one of the six programs registers is protected by Pulumi, and every project, folder, registry, data set and secret also carries the provider's
  own guard for its type. A tag key has Pulumi's protection only: the provider offers no guard for it.\<close>
theorem programs_protect_data:
  "list_all guard_ok (dp_Resources (snd (identity_Apply env1 inp p1 empty_deployment)))
   \<and> list_all guard_ok (dp_Resources (snd (finops_Apply env2 p2 empty_deployment)))
   \<and> list_all guard_ok (dp_Resources (snd (workloads_Apply env3 wps p3 empty_deployment)))
   \<and> list_all guard_ok (dp_Resources (snd (governance_Apply env4 dims empty_deployment)))
   \<and> list_all guard_ok (dp_Resources (snd (delivery_Apply env5 repos p5 empty_deployment)))
   \<and> list_all guard_ok (dp_Resources (snd (observability_Apply env6 esc targets p6 empty_deployment)))"
  by (intro conjI adds_from_empty adds_programs blocks_guarded stack_ref_guarded)

text \<open>C38. The observability program references each stack at most once, however many targets and the placement name it: a second reference of one
  name would be a duplicate URN, which the engine rejects.\<close>
theorem stack_references_registered_once:
  "distinct (refs_of (snd (observability_Apply env esc targets params empty_deployment)))"
proof -
  have "cached [] empty_deployment" by (simp add: cached_def refs_of_def empty_deployment_def)
  then show ?thesis using keepsD [OF observability_refs, of empty_deployment env esc targets params]
    by (cases "observability_Apply env esc targets params empty_deployment") (auto split: outcome.splits)
qed

end
