(* ===== verification/Iac_Secrecy.thy ===== *)
theory Iac_Secrecy
  imports Iac_Safety
begin

section \<open>iac: the values of the secrets\<close>

text \<open>
  What an observer learns of a secret that \<open>src/go/iac/identity/identity.go\<close> resolves and \<open>gcpinfra/secrets/apply.go\<close> writes: nothing. Two runs of
  the program on secrets of different values return the same, export the same and register the same resources, but for what is inside a
  \<open>pulumi.ToSecret\<close>.
\<close>

subsection \<open>What is visible\<close>

primrec mask :: "pval \<Rightarrow> pval" where
  "mask (PStr s) = PStr s"
| "mask (PInt i) = PInt i"
| "mask (PBool b) = PBool b"
| "mask (PFloat f) = PFloat f"
| "mask (POut t n f) = POut t n f"
| "mask (PCat vs) = PCat (map mask vs)"
| "mask (PList vs) = PList (map mask vs)"
| "mask (PMap kvs) = PMap (map (map_prod (\<lambda>k. k) mask) kvs)"
| "mask (PSecret v) = PSecret (PStr '''')"

definition mask_args :: "(string \<times> pval) list \<Rightarrow> (string \<times> pval) list" where
  "mask_args kvs = map (\<lambda>(k, v). (k, mask v)) kvs"

definition mask_resource :: "resource \<Rightarrow> resource" where
  "mask_resource r = r\<lparr>rs_Args := mask_args (rs_Args r)\<rparr>"

definition mask_state :: "deploy_state \<Rightarrow> deploy_state" where
  "mask_state s = \<lparr>dp_Resources = map mask_resource (dp_Resources s), dp_Exports = mask_args (dp_Exports s)\<rparr>"

text \<open>An engine that does not decide by the value of a secret.\<close>

definition engine_blind :: "'x engine \<Rightarrow> bool" where
  "engine_blind eng \<longleftrightarrow> (\<forall>s r s' r'. mask_state s = mask_state s' \<longrightarrow> mask_resource r = mask_resource r' \<longrightarrow> eng s r = eng s' r')"

fun same_outcome :: "('a \<Rightarrow> 'b \<Rightarrow> bool) \<Rightarrow> ('a, 'x) outcome \<Rightarrow> ('b, 'x) outcome \<Rightarrow> bool" where
  "same_outcome R (Ret a) (Ret b) = R a b"
| "same_outcome R (Fails e) (Fails e') = (e = e')"
| "same_outcome R (Panics p) (Panics p') = (p = p')"
| "same_outcome R _ _ = False"

subsection \<open>Two runs side by side\<close>

named_theorems blind_rules

definition blind :: "('a \<Rightarrow> 'b \<Rightarrow> bool) \<Rightarrow> ('a, 'x) deploy \<Rightarrow> ('b, 'x) deploy \<Rightarrow> bool" where
  "blind R m m' \<longleftrightarrow> (\<forall>s s'. mask_state s = mask_state s' \<longrightarrow>
     same_outcome R (fst (m s)) (fst (m' s')) \<and> mask_state (snd (m s)) = mask_state (snd (m' s')))"

lemma blindD: "blind R m m' \<Longrightarrow> mask_state s = mask_state s' \<Longrightarrow>
    same_outcome R (fst (m s)) (fst (m' s')) \<and> mask_state (snd (m s)) = mask_state (snd (m' s'))"
  by (simp add: blind_def)

lemma blind_simple [blind_rules]:
  "R a b \<Longrightarrow> blind R (ret a) (ret b)" "blind R (fails e) (fails e)" "blind R (panics p) (panics p)" "blind (=) (export k v) (export k v)"
  by (simp_all add: blind_def ret_def fails_def panics_def export_def mask_state_def mask_args_def)

lemma mask_state_add:
  "mask_state (s\<lparr>dp_Resources := dp_Resources s @ [r]\<rparr>) = (mask_state s)\<lparr>dp_Resources := dp_Resources (mask_state s) @ [mask_resource r]\<rparr>"
  by (simp add: mask_state_def)

lemma blind_register [blind_rules]:
  "engine_blind eng \<Longrightarrow> mask_resource r = mask_resource r' \<Longrightarrow> blind (=) (register eng r) (register eng r')"
  unfolding blind_def
proof (intro allI impI)
  fix s s' assume eng: "engine_blind eng" and r: "mask_resource r = mask_resource r'" and s: "mask_state s = mask_state s'"
  have "eng s r = eng s' r'" using eng r s unfolding engine_blind_def by blast
  then show "same_outcome (=) (fst (register eng r s)) (fst (register eng r' s')) \<and> mask_state (snd (register eng r s)) = mask_state (snd (register eng r' s'))"
  proof (cases "eng s' r'")
    case None
    then show ?thesis using \<open>eng s r = eng s' r'\<close> unfolding register_def by (simp add: mask_state_add r s)
  next
    case (Some e)
    then show ?thesis using \<open>eng s r = eng s' r'\<close> unfolding register_def by (simp add: s)
  qed
qed

lemma blind_andThen:
  assumes m: "blind R m m'" and f: "\<And>a b. R a b \<Longrightarrow> blind S (f a) (g b)"
  shows "blind S (andThen m f) (andThen m' g)"
  unfolding blind_def
proof (intro allI impI)
  fix s s' assume s: "mask_state s = mask_state s'"
  obtain r t r' t' where p: "m s = (r, t)" "m' s' = (r', t')" by fastforce
  have 1: "same_outcome R r r'" "mask_state t = mask_state t'" using blindD [OF m s] p by simp_all
  show "same_outcome S (fst (andThen m f s)) (fst (andThen m' g s')) \<and> mask_state (snd (andThen m f s)) = mask_state (snd (andThen m' g s'))"
    using 1 blindD [OF f 1(2)] by (cases r; cases r') (simp_all add: andThen_def p)
qed

lemma blind_andThen_same [blind_rules]: "blind (=) m m' \<Longrightarrow> (\<And>a. blind S (f a) (g a)) \<Longrightarrow> blind S (andThen m f) (andThen m' g)"
  by (rule blind_andThen [of "(=)"]) simp_all

lemma blind_wrapping [blind_rules]: "blind R m m' \<Longrightarrow> blind R (wrapping msg m) (wrapping msg m')"
  unfolding blind_def
proof (intro allI impI)
  fix s s' assume m: "\<forall>s s'. mask_state s = mask_state s' \<longrightarrow> same_outcome R (fst (m s)) (fst (m' s')) \<and> mask_state (snd (m s)) = mask_state (snd (m' s'))"
    and s: "mask_state s = mask_state s'"
  obtain r t r' t' where p: "m s = (r, t)" "m' s' = (r', t')" by fastforce
  show "same_outcome R (fst (wrapping msg m s)) (fst (wrapping msg m' s')) \<and> mask_state (snd (wrapping msg m s)) = mask_state (snd (wrapping msg m' s'))"
    using m [rule_format, OF s] by (cases r; cases r') (simp_all add: wrapping_def p)
qed

lemma blind_weaken: "blind R m m' \<Longrightarrow> (\<And>a b. R a b \<Longrightarrow> S a b) \<Longrightarrow> blind S m m'"
proof -
  assume m: "blind R m m'" and RS: "\<And>a b. R a b \<Longrightarrow> S a b"
  have weaker: "same_outcome R x y \<Longrightarrow> same_outcome S x y" for x y
    using RS by (cases x; cases y) simp_all
  show ?thesis unfolding blind_def
    by (intro allI impI conjI) (auto intro!: weaker dest: blindD [OF m])
qed

lemma blind_attempt [blind_rules]: "blind (=) m m' \<Longrightarrow> blind (=) (attempt m) (attempt m')"
  unfolding blind_def
proof (intro allI impI)
  fix s s' assume m: "\<forall>s s'. mask_state s = mask_state s' \<longrightarrow> same_outcome (=) (fst (m s)) (fst (m' s')) \<and> mask_state (snd (m s)) = mask_state (snd (m' s'))"
    and s: "mask_state s = mask_state s'"
  obtain r t r' t' where p: "m s = (r, t)" "m' s' = (r', t')" by fastforce
  show "same_outcome (=) (fst (attempt m s)) (fst (attempt m' s')) \<and> mask_state (snd (attempt m s)) = mask_state (snd (attempt m' s'))"
    using m [rule_format, OF s] by (cases r; cases r') (simp_all add: attempt_def p)
qed

lemma blind_each: "list_all2 P xs ys \<Longrightarrow> (\<And>x y. P x y \<Longrightarrow> blind R (f x) (g y)) \<Longrightarrow> blind (list_all2 R) (each f xs) (each g ys)"
proof (induction rule: list_all2_induct)
  case (Cons x xs y ys)
  show ?case unfolding each.simps
    by (rule blind_andThen [OF Cons.prems [OF Cons.hyps(1)]], rule blind_andThen [OF Cons.IH [OF Cons.prems]]) (auto intro: blind_simple(1))
qed (simp add: blind_rules)

lemma blind_each_same [blind_rules]: "(\<And>x. blind (=) (f x) (g x)) \<Longrightarrow> blind (=) (each f xs) (each g xs)"
  using blind_each [of "(=)" xs xs "(=)" f g] by (simp add: list.rel_eq)

lemma blind_if [blind_rules]: "(b \<Longrightarrow> blind R m n) \<Longrightarrow> (\<not> b \<Longrightarrow> blind R m' n') \<Longrightarrow> blind R (if b then m else m') (if b then n else n')"
  by simp

lemma blind_cases [blind_rules]:
  "(\<And>x. oe = Some x \<Longrightarrow> blind R (f x) (f' x)) \<Longrightarrow> (oe = None \<Longrightarrow> blind R m m') \<Longrightarrow>
     blind R (case oe of None \<Rightarrow> m | Some x \<Rightarrow> f x) (case oe of None \<Rightarrow> m' | Some x \<Rightarrow> f' x)"
  "(\<And>x. su = Inl x \<Longrightarrow> blind R (g x) (g' x)) \<Longrightarrow> (\<And>x. su = Inr x \<Longrightarrow> blind R (h x) (h' x)) \<Longrightarrow>
     blind R (case su of Inl x \<Rightarrow> g x | Inr x \<Rightarrow> h x) (case su of Inl x \<Rightarrow> g' x | Inr x \<Rightarrow> h' x)"
  "(\<And>x y. pr = (x, y) \<Longrightarrow> blind R (k x y) (k' x y)) \<Longrightarrow> blind R (case pr of (x, y) \<Rightarrow> k x y) (case pr of (x, y) \<Rightarrow> k' x y)"
  by (auto split: option.split sum.split prod.split)

text \<open>The parts of the program that never see a secret.\<close>

lemma blind_config [blind_rules]:
  "blind (=) (require_ok oe) (require_ok oe)" "blind (=) (cfg_Require env key) (cfg_Require env key)"
  "blind (=) (optionalObject env dec2 key dflt) (optionalObject env dec2 key dflt)"
  unfolding require_ok_def cfg_Require_def optionalObject_def by (intro blind_rules refl)+

lemma blind_require [blind_rules]:
  "blind (=) (cfg_RequireObject env dec key) (cfg_RequireObject env dec key)" "blind (=) (or_require env v key) (or_require env v key)"
  unfolding cfg_RequireObject_def or_require_def by (intro blind_rules refl)+

lemma blind_blocks:
  assumes eng: "engine_blind (ie_engine env)"
  shows "blind (=) (program_project env name place apis) (program_project env name place apis)"
    "blind (=) (applyConsumerAccess env projectName) (applyConsumerAccess env projectName)"
    "blind (=) (resolvePlacement env (fromGovernanceStack env (fresh_reader env) folder org) org' params ()) (resolvePlacement env (fromGovernanceStack env (fresh_reader env) folder org) org' params ())"
    "blind (=) (serviceaccounts_Apply (ie_engine env) projectID accounts deps) (serviceaccounts_Apply (ie_engine env) projectID accounts deps)"
    "blind (=) (applyImpersonators env projectName accounts) (applyImpersonators env projectName accounts)"
  unfolding program_project_def projects_Apply_def applyConsumerAccess_def bindings_Apply_def resolvePlacement_def fromGovernanceStack_def fresh_reader_def
      NewStackReference_def serviceaccounts_Apply_def applyImpersonators_def ApplySAIam_def Let_def
  by (intro blind_rules refl eng)+

subsection \<open>The parts that do\<close>

lemma resolver_only: "id_accounts (inp\<lparr>id_resolver := r\<rparr>) = id_accounts inp" "id_secretDefs (inp\<lparr>id_resolver := r\<rparr>) = id_secretDefs inp"
  by simp_all


text \<open>An empty value is refused, so whether a value is empty can be seen.\<close>

definition alike :: "string \<Rightarrow> string \<Rightarrow> bool" where
  "alike v v' \<longleftrightarrow> (v = '''') = (v' = '''')"

definition alike_secret :: "secret \<Rightarrow> secret \<Rightarrow> bool" where
  "alike_secret a b \<longleftrightarrow> sc_Name a = sc_Name b \<and> alike (sc_Value a) (sc_Value b)"

lemma alike_secrets_error: "list_all2 alike_secret ss ts \<Longrightarrow> secrets_error seen ss = secrets_error seen ts"
  by (induction arbitrary: seen rule: list_all2_induct) (auto simp: alike_secret_def alike_def secret_Validate_def split: option.split)

lemma alike_secrets_ValidateAll: "list_all2 alike_secret ss ts \<Longrightarrow> secrets_ValidateAll ss = secrets_ValidateAll ts"
  using alike_secrets_error by (auto simp: secrets_ValidateAll_def)

lemma mask_secret_version: "alike_secret a b \<Longrightarrow> mask_resource (secret_version_resource a) = mask_resource (secret_version_resource b)"
  by (simp add: alike_secret_def secret_version_resource_def plain_def mask_resource_def mask_args_def)

lemma blind_secrets_Apply:
  assumes eng: "engine_blind eng" and ss: "list_all2 alike_secret ss ts"
  shows "blind (=) (secrets_Apply eng projectID ss deps opts) (secrets_Apply eng projectID ts deps opts)"
proof -
  have one: "blind (\<lambda>_ _. True)
      (andThen (wrapping (''create secret '' @ sc_Name a @ '': '') (register eng (secret_resource projectID (sc_Name a) deps opts)))
        (\<lambda>_. wrapping (''create secret version '' @ sc_Name a @ '': '') (register eng (secret_version_resource a))))
      (andThen (wrapping (''create secret '' @ sc_Name b @ '': '') (register eng (secret_resource projectID (sc_Name b) deps opts)))
        (\<lambda>_. wrapping (''create secret version '' @ sc_Name b @ '': '') (register eng (secret_version_resource b))))" if ab: "alike_secret a b" for a b
  proof -
    have "blind (=) (register eng (secret_version_resource a)) (register eng (secret_version_resource b))"
      by (rule blind_register [OF eng mask_secret_version [OF ab]])
    then have "blind (\<lambda>_ _. True) (register eng (secret_version_resource a)) (register eng (secret_version_resource b))"
      by (rule blind_weaken) simp
    moreover have "sc_Name b = sc_Name a" using ab by (simp add: alike_secret_def)
    ultimately show ?thesis by (auto intro!: blind_andThen_same blind_wrapping blind_register [OF eng])
  qed
  show ?thesis unfolding secrets_Apply_def alike_secrets_ValidateAll [OF ss]
    by (rule blind_andThen_same [OF blind_config(1) blind_andThen [OF blind_each [OF ss one] blind_simple(1)]]) simp_all
qed

definition agree :: "(string \<Rightarrow> 'x err + string) \<Rightarrow> (string \<Rightarrow> 'x err + string) \<Rightarrow> bool" where
  "agree f g \<longleftrightarrow> (\<forall>ref. rel_sum (=) alike (f ref) (g ref))"

lemma blind_resolve:
  assumes "agree r r'"
  shows "blind alike_secret (resolve_secret (inp\<lparr>id_resolver := r\<rparr>) d) (resolve_secret (inp\<lparr>id_resolver := r'\<rparr>) d)"
proof -
  have "rel_sum (=) alike (r (snd d)) (r' (snd d))" using assms by (simp add: agree_def)
  then show ?thesis by (cases rule: rel_sum.cases) (auto simp: resolve_secret_def alike_secret_def intro!: blind_simple)
qed

lemma blind_applySecrets:
  assumes "engine_blind (ie_engine env)" "agree r r'"
  shows "blind (=) (applySecrets env (inp\<lparr>id_resolver := r\<rparr>) projectID) (applySecrets env (inp\<lparr>id_resolver := r'\<rparr>) projectID)"
proof -
  have "blind (list_all2 alike_secret) (each (resolve_secret (inp\<lparr>id_resolver := r\<rparr>)) defs) (each (resolve_secret (inp\<lparr>id_resolver := r'\<rparr>)) defs)" for defs
    by (rule blind_each [of "(=)"]) (auto simp: list.rel_eq intro: blind_resolve [OF assms(2)])
  then have "blind (=)
      (andThen (each (resolve_secret (inp\<lparr>id_resolver := r\<rparr>)) defs) (\<lambda>ss. wrapping ''identity secrets: '' (secrets_Apply (ie_engine env) projectID ss [] [])))
      (andThen (each (resolve_secret (inp\<lparr>id_resolver := r'\<rparr>)) defs) (\<lambda>ss. wrapping ''identity secrets: '' (secrets_Apply (ie_engine env) projectID ss [] [])))" for defs
    by (rule blind_andThen) (intro blind_wrapping blind_secrets_Apply assms(1))
  then show ?thesis unfolding applySecrets_def resolver_only by (intro blind_andThen_same [OF blind_config(3)] blind_if blind_simple refl)
qed

lemma blind_identity:
  assumes "engine_blind (ie_engine env)" "agree r r'"
  shows "blind (=) (identity_Apply env (inp\<lparr>id_resolver := r\<rparr>) params) (identity_Apply env (inp\<lparr>id_resolver := r'\<rparr>) params)"
proof -
  have accounts: "blind (=) (applyServiceAccounts env (inp\<lparr>id_resolver := r\<rparr>) projectID name) (applyServiceAccounts env (inp\<lparr>id_resolver := r'\<rparr>) projectID name)"
    for projectID name
    unfolding applyServiceAccounts_def resolver_only by (intro blind_rules blind_blocks refl assms(1))+
  show ?thesis unfolding identity_Apply_def placement_defs
    by (intro blind_rules blind_blocks blind_applySecrets accounts refl assms)+
qed

subsection \<open>Properties\<close>

text \<open>C39. The value of a secret cannot be read off a deployment: two runs of the identity program whose stores answer alike (the same errors, and values that are
  both empty or both not) return the same, export the same and register the same resources in the same order, up to what stands inside a secret
  output. The engine is assumed not to decide by a secret value.\<close>
theorem secret_values_stay_secret:
  assumes "engine_blind (ie_engine env)" "agree (PassResolver pass) (PassResolver pass')"
  shows "fst (identity_Apply env (inp\<lparr>id_resolver := PassResolver pass\<rparr>) params empty_deployment)
       = fst (identity_Apply env (inp\<lparr>id_resolver := PassResolver pass'\<rparr>) params empty_deployment)
    \<and> mask_state (snd (identity_Apply env (inp\<lparr>id_resolver := PassResolver pass\<rparr>) params empty_deployment))
       = mask_state (snd (identity_Apply env (inp\<lparr>id_resolver := PassResolver pass'\<rparr>) params empty_deployment))"
proof -
  have same: "same_outcome (=) a b \<Longrightarrow> a = b" for a b :: "('c, 'd) outcome" by (cases a; cases b) simp_all
  show ?thesis using blindD [OF blind_identity [OF assms], of empty_deployment empty_deployment inp params] same by blast
qed

text \<open>Two stores with different tokens, under a configuration with one secret.\<close>

definition demo_identity :: "unit identity_inputs" where
  "demo_identity = \<lparr>id_resolver = (\<lambda>r. Inr r), id_secretDefs = (\<lambda>v. Inr [(v, ''ops/token'')]), id_accounts = (\<lambda>v. Inr [])\<rparr>"

definition demo_identity_env :: "unit iac_env" where
  "demo_identity_env = demo_iac [''projectName'' \<mapsto> ''ids'', ''consumerSAs'' \<mapsto> ''run@x'', ''secrets'' \<mapsto> ''token'']"

definition demo_identity_run :: "string \<Rightarrow> (unit, unit) outcome \<times> deploy_state" where
  "demo_identity_run token =
     identity_Apply demo_identity_env (demo_identity\<lparr>id_resolver := PassResolver (\<lambda>ref. Inr token)\<rparr>)
       (Some \<lparr>pl_folderID = ''folders/1'', pl_billingAccount = ''B'', pl_orgID = ''''\<rparr>) empty_deployment"

lemma demo_identity_versions:
  "fst (demo_identity_run ''hush'') = Ret ()"
  "filter (\<lambda>r. rs_Type r = secret_version_type) (dp_Resources (snd (demo_identity_run ''hush''))) = [secret_version_resource \<lparr>sc_Name = ''token'', sc_Value = ''hush''\<rparr>]"
  by (code_simp, code_simp)

theorem secret_values_stay_secret_witness:
  "mask_state (snd (demo_identity_run ''hush'')) = mask_state (snd (demo_identity_run ''sesame'')) \<and> fst (demo_identity_run ''hush'') = fst (demo_identity_run ''sesame'')
   \<and> secret_version_resource \<lparr>sc_Name = ''token'', sc_Value = ''hush''\<rparr> \<in> set (dp_Resources (snd (demo_identity_run ''hush'')))"
proof -
  have "engine_blind (ie_engine demo_identity_env)" by (simp add: engine_blind_def demo_identity_env_def demo_iac_def)
  moreover have "agree (PassResolver (\<lambda>ref. Inr ''hush'') :: string \<Rightarrow> unit err + string) (PassResolver (\<lambda>ref. Inr ''sesame''))"
    by (simp add: agree_def PassResolver_def alike_def, code_simp)
  ultimately show ?thesis
    using secret_values_stay_secret [of demo_identity_env "\<lambda>ref. Inr ''hush''" "\<lambda>ref. Inr ''sesame''" demo_identity
        "Some \<lparr>pl_folderID = ''folders/1'', pl_billingAccount = ''B'', pl_orgID = ''''\<rparr>"] demo_identity_versions(2)
    unfolding demo_identity_run_def by (auto dest: filter_eq_ConsD)
qed

end
