(* ===== verification/Iac_Data.thy ===== *)
theory Iac_Data
  imports Iac_Blocks
begin

section \<open>iac/pulumi/gcpinfra: documents and tables\<close>

text \<open>
  \<open>src/go/iac/pulumi/gcpinfra/{firestore,tables}/\<close>: a database with its documents, and tables with rows or with an external source. The documents and
  the tables of a call are keyed by their Pulumi name, and a call checks all of them before it creates the first.
\<close>

subsection \<open>Checks of a list\<close>

fun first_invalid :: "('a \<Rightarrow> 'x err option) \<Rightarrow> 'a list \<Rightarrow> 'x err option" where
  "first_invalid v [] = None"
| "first_invalid v (c # cs) = (case v c of Some e \<Rightarrow> Some e | None \<Rightarrow> first_invalid v cs)"

definition duplicate_error :: "'x err \<Rightarrow> ('a \<Rightarrow> string) \<Rightarrow> 'a list \<Rightarrow> 'x err option" where
  "duplicate_error e key cs = map_option (\<lambda>k. errorf (err_text e @ '' '' @ go_quote k) [e]) (Duplicate key cs)"

definition string_labels :: "(string \<times> string) list \<Rightarrow> pval" where
  "string_labels ls = PMap (map (\<lambda>(k, v). (k, PStr v)) ls)"

subsection \<open>firestore\<close>

definition DeleteProtectionEnabled :: string where "DeleteProtectionEnabled = ''DELETE_PROTECTION_ENABLED''"
definition DeleteProtectionDisabled :: string where "DeleteProtectionDisabled = ''DELETE_PROTECTION_DISABLED''"

definition ErrInvalidDeleteProtection :: "'x err" where
  "ErrInvalidDeleteProtection = sentinel ''firestore.ErrInvalidDeleteProtection''
     ''firestore: DeleteProtection must be DELETE_PROTECTION_ENABLED or DELETE_PROTECTION_DISABLED''"

record database_config =
  fd_Name :: string
  fd_Region :: string
  fd_DeleteProtection :: string

definition database_Validate :: "database_config \<Rightarrow> 'x err option" where
  "database_Validate c =
     (if fd_Name c = '''' then Some (sentinel ''firestore.ErrNameRequired'' ''firestore: Name is required'')
      else if fd_Region c = '''' then Some (sentinel ''firestore.ErrRegionRequired'' ''firestore: Region is required'')
      else if fd_DeleteProtection c \<in> {'''', DeleteProtectionEnabled, DeleteProtectionDisabled} then None
      else Some (errorf (err_text (ErrInvalidDeleteProtection :: 'x err) @ '', got '' @ go_quote (fd_DeleteProtection c)) [ErrInvalidDeleteProtection]))"

record document_config =
  fc_Collection :: string
  fc_DocumentID :: string
  fc_Fields :: string

definition document_Validate :: "document_config \<Rightarrow> 'x err option" where
  "document_Validate c = first_missing
     [(fc_Collection c, ''firestore.ErrCollectionRequired'', ''firestore: document Collection is required''),
      (fc_DocumentID c, ''firestore.ErrDocumentIDRequired'', ''firestore: document DocumentID is required''),
      (fc_Fields c, ''firestore.ErrFieldsRequired'', ''firestore: document Fields is required'')]"

definition database_type :: string where "database_type = ''firestore.Database''"
definition document_type :: string where "document_type = ''firestore.Document''"

text \<open>A configured state wins over the one that follows from the stack.\<close>

definition delete_protection :: "database_config \<Rightarrow> lifecycle_option option list \<Rightarrow> string" where
  "delete_protection c opts =
     (if fd_DeleteProtection c \<noteq> '''' then fd_DeleteProtection c
      else if IsEphemeral opts then DeleteProtectionDisabled else DeleteProtectionEnabled)"

definition database_resource :: "pval \<Rightarrow> database_config \<Rightarrow> (string \<times> string) list \<Rightarrow> lifecycle_option option list \<Rightarrow> resource" where
  "database_resource projectID c deps opts =
     guarded database_type (''firestore-'' @ fd_Name c)
       [(''Project'', projectID), (''Name'', PStr (fd_Name c)), (''LocationId'', PStr (fd_Region c)), (''Type'', PStr ''FIRESTORE_NATIVE''),
        (''DatabaseEdition'', PStr ''ENTERPRISE''), (''DeleteProtectionState'', PStr (delete_protection c opts)), (''DeletionPolicy'', deletion_policy opts),
        (''PointInTimeRecoveryEnablement'', PStr ''POINT_IN_TIME_RECOVERY_ENABLED''), (''FirestoreDataAccessMode'', PStr ''DATA_ACCESS_MODE_ENABLED'')]
       deps (Protect opts)"

definition ApplyDatabase :: "'x engine \<Rightarrow> pval \<Rightarrow> database_config \<Rightarrow> (string \<times> string) list \<Rightarrow> lifecycle_option option list \<Rightarrow> (pval, 'x) deploy" where
  "ApplyDatabase eng projectID c deps opts =
     andThen (require_ok (database_Validate c)) (\<lambda>_.
     andThen (wrapping (''create firestore database '' @ fd_Name c @ '': '') (register eng (database_resource projectID c deps opts))) (\<lambda>_.
     ret (POut database_type (''firestore-'' @ fd_Name c) ''Name'')))"

definition document_resource :: "pval \<Rightarrow> string \<Rightarrow> (string \<times> string) list \<Rightarrow> lifecycle_option option list \<Rightarrow> document_config \<Rightarrow> resource" where
  "document_resource projectID dbName deps opts doc =
     (guarded document_type (''doc-'' @ fc_DocumentID doc)
       [(''Project'', projectID), (''Database'', PStr dbName), (''Collection'', PStr (fc_Collection doc)), (''DocumentId'', PStr (fc_DocumentID doc)),
        (''Fields'', PStr (fc_Fields doc))] deps (Protect opts))\<lparr>rs_IgnoreChanges := [''fields'']\<rparr>"

definition ErrDuplicateDocumentID :: "'x err" where
  "ErrDuplicateDocumentID = sentinel ''firestore.ErrDuplicateDocumentID'' ''firestore: duplicate document DocumentID''"

definition ApplyDocuments :: "'x engine \<Rightarrow> pval \<Rightarrow> string \<Rightarrow> document_config list \<Rightarrow> (string \<times> string) list \<Rightarrow> lifecycle_option option list \<Rightarrow> (unit, 'x) deploy" where
  "ApplyDocuments eng projectID dbName docs deps opts =
     andThen (require_ok (first_invalid document_Validate docs)) (\<lambda>_.
     andThen (require_ok (duplicate_error ErrDuplicateDocumentID fc_DocumentID docs)) (\<lambda>_.
     andThen (each (\<lambda>doc. wrapping (''seed document '' @ fc_Collection doc @ ''/'' @ fc_DocumentID doc @ '': '')
       (register eng (document_resource projectID dbName deps opts doc))) docs) (\<lambda>_. ret ())))"

subsection \<open>tables\<close>

record table_config =
  tb_Name :: string
  tb_Schema :: string
  tb_PartitionField :: string
  tb_DeletionProtection :: bool
  tb_Labels :: "(string \<times> string) list"

definition table_Validate :: "table_config \<Rightarrow> 'x err option" where
  "table_Validate c = first_missing
     [(tb_Name c, ''tables.ErrNameRequired'', ''tables: Name is required''), (tb_Schema c, ''tables.ErrSchemaRequired'', ''tables: Schema is required'')]"

record external_config =
  ex_Name :: string
  ex_Schema :: string
  ex_SourceFormat :: string
  ex_SourceURIs :: "string list"
  ex_SheetRange :: string
  ex_SkipLeadingRows :: int
  ex_DeletionProtection :: bool
  ex_Labels :: "(string \<times> string) list"

definition external_Validate :: "external_config \<Rightarrow> 'x err option" where
  "external_Validate c =
     (if ex_Name c = '''' then Some (sentinel ''tables.ErrExternalNameRequired'' ''tables: external Name is required'')
      else if ex_SourceFormat c = '''' then Some (sentinel ''tables.ErrSourceFormatRequired'' ''tables: external SourceFormat is required'')
      else if ex_SourceURIs c = [] then Some (sentinel ''tables.ErrSourceURIsRequired'' ''tables: external SourceURIs is required'')
      else None)"

definition table_type :: string where "table_type = ''bigquery.Table''"

definition table_resource :: "pval \<Rightarrow> pval \<Rightarrow> (string \<times> string) list \<Rightarrow> lifecycle_option option list \<Rightarrow> table_config \<Rightarrow> resource" where
  "table_resource projectID datasetID deps opts t =
     guarded table_type (tb_Name t)
       ([(''Project'', projectID), (''DatasetId'', datasetID), (''TableId'', PStr (tb_Name t)), (''Schema'', PStr (tb_Schema t)),
         (''DeletionProtection'', PBool (\<not> IsEphemeral opts \<or> tb_DeletionProtection t)), (''Labels'', string_labels (tb_Labels t))]
        @ (if tb_PartitionField t \<noteq> '''' then [(''TimePartitioning'', PMap [(''Type'', PStr ''DAY''), (''Field'', PStr (tb_PartitionField t))])] else []))
       deps (Protect opts)"

definition ErrDuplicateName :: "'x err" where
  "ErrDuplicateName = sentinel ''tables.ErrDuplicateName'' ''tables: duplicate table name''"

definition tables_Apply :: "'x engine \<Rightarrow> pval \<Rightarrow> pval \<Rightarrow> table_config list \<Rightarrow> (string \<times> string) list \<Rightarrow> lifecycle_option option list \<Rightarrow> (unit, 'x) deploy" where
  "tables_Apply eng projectID datasetID tt deps opts =
     andThen (require_ok (first_invalid table_Validate tt)) (\<lambda>_.
     andThen (require_ok (duplicate_error ErrDuplicateName tb_Name tt)) (\<lambda>_.
     andThen (each (\<lambda>t. wrapping (''create table '' @ tb_Name t @ '': '') (register eng (table_resource projectID datasetID deps opts t))) tt) (\<lambda>_. ret ())))"

definition external_data :: "external_config \<Rightarrow> pval" where
  "external_data t = PMap
     ([(''Autodetect'', PBool False), (''SourceFormat'', PStr (ex_SourceFormat t)), (''SourceUris'', PList (map PStr (ex_SourceURIs t))), (''Compression'', PStr ''NONE'')]
      @ (if ex_SourceFormat t = ''GOOGLE_SHEETS''
         then [(''GoogleSheetsOptions'', PMap [(''Range'', PStr (ex_SheetRange t)), (''SkipLeadingRows'', PInt (ex_SkipLeadingRows t))])] else []))"

text \<open>No rows of its own, so only the provider protects it.\<close>

definition external_resource :: "pval \<Rightarrow> pval \<Rightarrow> (string \<times> string) list \<Rightarrow> lifecycle_option option list \<Rightarrow> external_config \<Rightarrow> resource" where
  "external_resource projectID datasetID deps opts t =
     plain table_type (ex_Name t)
       ([(''Project'', projectID), (''DatasetId'', datasetID), (''TableId'', PStr (ex_Name t)),
         (''DeletionProtection'', PBool (\<not> IsEphemeral opts \<or> ex_DeletionProtection t)), (''Labels'', string_labels (ex_Labels t)),
         (''ExternalDataConfiguration'', external_data t)]
        @ (if ex_Schema t \<noteq> '''' then [(''Schema'', PStr (ex_Schema t))] else [])) deps"

definition ErrDuplicateExternalName :: "'x err" where
  "ErrDuplicateExternalName = sentinel ''tables.ErrDuplicateExternalName'' ''tables: duplicate external table name''"

definition ApplyExternal :: "'x engine \<Rightarrow> pval \<Rightarrow> pval \<Rightarrow> external_config list \<Rightarrow> (string \<times> string) list \<Rightarrow> lifecycle_option option list \<Rightarrow> (unit, 'x) deploy" where
  "ApplyExternal eng projectID datasetID tt deps opts =
     andThen (require_ok (first_invalid external_Validate tt)) (\<lambda>_.
     andThen (require_ok (duplicate_error ErrDuplicateExternalName ex_Name tt)) (\<lambda>_.
     andThen (each (\<lambda>t. wrapping (''create external table '' @ ex_Name t @ '': '') (register eng (external_resource projectID datasetID deps opts t))) tt) (\<lambda>_. ret ())))"

subsection \<open>Checked before anything is created\<close>

lemma duplicate_in_none: "duplicate_in seen ks = None \<longleftrightarrow> distinct ks \<and> set ks \<inter> seen = {}"
  by (induction ks arbitrary: seen) auto

lemma duplicate_error_none: "duplicate_error e key cs = None \<longleftrightarrow> distinct (map key cs)"
  by (simp add: duplicate_error_def Duplicate_def duplicate_in_none)

text \<open>What \<open>each\<close> has registered when it ends, in whichever way.\<close>

lemma each_register_prefix:
  "\<exists>n \<le> length cs. dp_Resources (snd (each (\<lambda>c. wrapping (msg c) (register eng (res c))) cs s)) = dp_Resources s @ map res (take n cs)"
proof (induction cs arbitrary: s)
  case (Cons c cs)
  show ?case
  proof (cases "eng s (res c)")
    case (Some e)
    then have "dp_Resources (snd (each (\<lambda>c. wrapping (msg c) (register eng (res c))) (c # cs) s)) = dp_Resources s @ map res (take 0 (c # cs))"
      by (simp add: andThen_def wrapping_def register_def)
    then show ?thesis by blast
  next
    case None
    obtain n where n: "n \<le> length cs" "dp_Resources (snd (each (\<lambda>c. wrapping (msg c) (register eng (res c))) cs (s\<lparr>dp_Resources := dp_Resources s @ [res c]\<rparr>)))
        = dp_Resources (s\<lparr>dp_Resources := dp_Resources s @ [res c]\<rparr>) @ map res (take n cs)" using Cons.IH by blast
    then have "dp_Resources (snd (each (\<lambda>c. wrapping (msg c) (register eng (res c))) (c # cs) s)) = dp_Resources s @ map res (take (Suc n) (c # cs))"
      using None by (auto simp: andThen_def wrapping_def register_def ret_def split: prod.splits outcome.splits)
    then show ?thesis using n(1) by (intro exI [of _ "Suc n"]) simp
  qed
qed (simp add: ret_def)

text \<open>What the three calls promise: an error of the checks leaves everything as it was; past them the resources of a prefix of the list are
  registered, and no two entries of the list share a name.\<close>

locale checked_first =
  fixes apply_all :: "'c list \<Rightarrow> (unit, 'x) deploy" and check :: "'c list \<Rightarrow> 'x err option" and key :: "'c \<Rightarrow> string" and msg :: "'c \<Rightarrow> string"
    and res :: "'c \<Rightarrow> resource" and eng :: "'x engine"
  assumes apply_all: "apply_all cs = andThen (require_ok (check cs)) (\<lambda>_. andThen (each (\<lambda>c. wrapping (msg c) (register eng (res c))) cs) (\<lambda>_. ret ()))"
    and check_names: "check cs = None \<Longrightarrow> distinct (map key cs)"
    and own_urn: "urn (res c) = urn (res d) \<Longrightarrow> key c = key d"
begin

lemma rejected: "check cs = Some e \<Longrightarrow> apply_all cs s = (Fails e, s)"
  by (simp add: apply_all andThen_def require_ok_def fails_def)

lemma accepted_urns: "check cs = None \<Longrightarrow> distinct (map (\<lambda>c. urn (res c)) cs)"
proof -
  assume "check cs = None"
  then have "distinct cs" "inj_on key (set cs)" using check_names by (simp_all add: distinct_map)
  moreover have "inj_on (\<lambda>c. urn (res c)) (set cs)"
    by (rule inj_onI, rule inj_onD [OF \<open>inj_on key (set cs)\<close>], rule own_urn) simp_all
  ultimately show ?thesis by (simp add: distinct_map)
qed

lemma accepted: "check cs = None \<Longrightarrow> \<exists>n \<le> length cs. dp_Resources (snd (apply_all cs s)) = dp_Resources s @ map res (take n cs)"
  using each_register_prefix [of cs msg eng res s]
  by (auto simp: apply_all andThen_def require_ok_def ret_def split: prod.split outcome.split)

lemma all_or_prefix:
  "(\<exists>e. check cs = Some e \<and> apply_all cs s = (Fails e, s))
   \<or> check cs = None \<and> distinct (map (\<lambda>c. urn (res c)) cs) \<and> (\<exists>n \<le> length cs. dp_Resources (snd (apply_all cs s)) = dp_Resources s @ map res (take n cs))"
proof (cases "check cs")
  case None
  then show ?thesis using accepted accepted_urns by blast
next
  case (Some e)
  then show ?thesis using rejected by blast
qed

end

lemma two_checks: "andThen (require_ok a) (\<lambda>_. andThen (require_ok b) f) = andThen (require_ok (case a of None \<Rightarrow> b | Some e \<Rightarrow> Some e)) f"
  by (rule ext) (simp add: andThen_def require_ok_def ret_def fails_def split: option.split)

definition documents_check :: "document_config list \<Rightarrow> 'x err option" where
  "documents_check docs = (case first_invalid document_Validate docs of None \<Rightarrow> duplicate_error ErrDuplicateDocumentID fc_DocumentID docs | Some e \<Rightarrow> Some e)"

definition tables_check :: "table_config list \<Rightarrow> 'x err option" where
  "tables_check tt = (case first_invalid table_Validate tt of None \<Rightarrow> duplicate_error ErrDuplicateName tb_Name tt | Some e \<Rightarrow> Some e)"

definition external_check :: "external_config list \<Rightarrow> 'x err option" where
  "external_check tt = (case first_invalid external_Validate tt of None \<Rightarrow> duplicate_error ErrDuplicateExternalName ex_Name tt | Some e \<Rightarrow> Some e)"

interpretation documents: checked_first "\<lambda>docs. ApplyDocuments eng projectID dbName docs deps opts" documents_check fc_DocumentID
  "\<lambda>doc. ''seed document '' @ fc_Collection doc @ ''/'' @ fc_DocumentID doc @ '': ''" "document_resource projectID dbName deps opts" eng
  for eng :: "'x engine" and projectID dbName deps opts
  by unfold_locales (auto simp: ApplyDocuments_def two_checks documents_check_def duplicate_error_none urn_def document_resource_def guarded_def split: option.splits)

interpretation tables: checked_first "\<lambda>tt. tables_Apply eng projectID datasetID tt deps opts" tables_check tb_Name
  "\<lambda>t. ''create table '' @ tb_Name t @ '': ''" "table_resource projectID datasetID deps opts" eng
  for eng :: "'x engine" and projectID datasetID deps opts
  by unfold_locales (auto simp: tables_Apply_def two_checks tables_check_def duplicate_error_none urn_def table_resource_def guarded_def split: option.splits)

interpretation externals: checked_first "\<lambda>tt. ApplyExternal eng projectID datasetID tt deps opts" external_check ex_Name
  "\<lambda>t. ''create external table '' @ ex_Name t @ '': ''" "external_resource projectID datasetID deps opts" eng
  for eng :: "'x engine" and projectID datasetID deps opts
  by unfold_locales (auto simp: ApplyExternal_def two_checks external_check_def duplicate_error_none urn_def external_resource_def plain_def split: option.splits)

subsection \<open>Properties\<close>

text \<open>C40. Documents, tables and external tables are checked as a whole before the first is created: a call either leaves the deployment untouched with the error of the check,
  or the check has passed, the names of its entries are distinct resources and what it has registered is an initial part of them, in order, whatever the engine does.\<close>
theorem keyed_blocks_check_first:
  fixes eng :: "'x engine"
  shows "((\<exists>e. documents_check docs = Some e \<and> ApplyDocuments eng p db docs deps opts s = (Fails e, s))
     \<or> documents_check docs = (None :: 'x err option) \<and> distinct (map (\<lambda>d. urn (document_resource p db deps opts d)) docs)
       \<and> (\<exists>n \<le> length docs. dp_Resources (snd (ApplyDocuments eng p db docs deps opts s)) = dp_Resources s @ map (document_resource p db deps opts) (take n docs)))
   \<and> ((\<exists>e. tables_check tt = Some e \<and> tables_Apply eng p ds tt deps opts s = (Fails e, s))
     \<or> tables_check tt = (None :: 'x err option) \<and> distinct (map (\<lambda>t. urn (table_resource p ds deps opts t)) tt)
       \<and> (\<exists>n \<le> length tt. dp_Resources (snd (tables_Apply eng p ds tt deps opts s)) = dp_Resources s @ map (table_resource p ds deps opts) (take n tt)))
   \<and> ((\<exists>e. external_check xs = Some e \<and> ApplyExternal eng p ds xs deps opts s = (Fails e, s))
     \<or> external_check xs = (None :: 'x err option) \<and> distinct (map (\<lambda>t. urn (external_resource p ds deps opts t)) xs)
       \<and> (\<exists>n \<le> length xs. dp_Resources (snd (ApplyExternal eng p ds xs deps opts s)) = dp_Resources s @ map (external_resource p ds deps opts) (take n xs)))"
  by (intro conjI documents.all_or_prefix tables.all_or_prefix externals.all_or_prefix)

end
