(* ===== verification/Iac_Services.thy ===== *)
theory Iac_Services
  imports Iac_Data Iac_Monitoring
begin

section \<open>iac/pulumi/gcpinfra: services, schedules and Dataform\<close>

text \<open>
  \<open>src/go/iac/pulumi/gcpinfra/{cloudrun,scheduler,dataform}/\<close>: Cloud Run services and jobs, also with several containers, the jobs of Cloud Scheduler
  and Dataform repositories with their release and workflow configurations. A nil input is None.
\<close>

subsection \<open>cloudrun: one container\<close>

record env_var =
  ev_Name :: string
  ev_Value :: pval

record service_config =
  sv_Name :: string
  sv_Region :: string
  sv_Image :: string
  sv_Memory :: string
  sv_CPU :: string

definition service_Validate :: "service_config \<Rightarrow> 'x err option" where
  "service_Validate c = first_missing
     [(sv_Name c, ''cloudrun.ErrServiceNameRequired'', ''cloudrun: service Name is required''),
      (sv_Region c, ''cloudrun.ErrServiceRegionRequired'', ''cloudrun: service Region is required''),
      (sv_Image c, ''cloudrun.ErrServiceImageRequired'', ''cloudrun: service Image is required'')]"

record job_config =
  jb_Name :: string
  jb_Region :: string
  jb_Image :: string
  jb_MaxRetries :: int
  jb_Memory :: string
  jb_CPU :: string

definition job_Validate :: "job_config \<Rightarrow> 'x err option" where
  "job_Validate c = first_missing
     [(jb_Name c, ''cloudrun.ErrJobNameRequired'', ''cloudrun: job Name is required''),
      (jb_Region c, ''cloudrun.ErrJobRegionRequired'', ''cloudrun: job Region is required''),
      (jb_Image c, ''cloudrun.ErrJobImageRequired'', ''cloudrun: job Image is required'')]"

definition run_service_type :: string where "run_service_type = ''cloudrunv2.Service''"
definition run_job_type :: string where "run_job_type = ''cloudrunv2.Job''"
definition run_iam_type :: string where "run_iam_type = ''cloudrunv2.ServiceIamMember''"
definition defaultMemory :: string where "defaultMemory = ''512Mi''"

definition env_args :: "env_var list \<Rightarrow> pval" where
  "env_args envs = PList (map (\<lambda>e. PMap [(''Name'', PStr (ev_Name e)), (''Value'', ev_Value e)]) envs)"

definition resource_limits :: "string \<Rightarrow> string \<Rightarrow> pval" where
  "resource_limits memory cpu =
     PMap [(''Limits'', PMap ([(''memory'', PStr (orString memory defaultMemory))] @ (if cpu \<noteq> '''' then [(''cpu'', PStr cpu)] else [])))]"

definition container_args :: "string \<Rightarrow> env_var list \<Rightarrow> string \<Rightarrow> string \<Rightarrow> (string \<times> pval) list" where
  "container_args img envs memory cpu = [(''Image'', PStr img), (''Envs'', env_args envs), (''Resources'', resource_limits memory cpu)]"

definition ignore_clients :: "string list" where
  "ignore_clients = [''client'', ''clientVersion'']"

definition service_args :: "pval \<Rightarrow> service_config \<Rightarrow> pval \<Rightarrow> env_var list \<Rightarrow> (string \<times> pval) list" where
  "service_args projectID c sa envs =
     [(''Project'', projectID), (''Location'', PStr (sv_Region c)), (''Name'', PStr (sv_Name c)),
      (''Template'', PMap [(''ServiceAccount'', sa), (''Containers'', PList [PMap (container_args (sv_Image c) envs (sv_Memory c) (sv_CPU c))])])]"

text \<open>The name and the address of the service.\<close>

definition ApplyService :: "'x engine \<Rightarrow> pval \<Rightarrow> service_config \<Rightarrow> pval \<Rightarrow> env_var list \<Rightarrow> (string \<times> string) list \<Rightarrow> (pval \<times> pval, 'x) deploy" where
  "ApplyService eng projectID c sa envs deps =
     andThen (wrapping ''validate config: '' (require_ok (service_Validate c))) (\<lambda>_.
     andThen (wrapping (''create cloud run service '' @ sv_Name c @ '': '') (register eng
       ((plain run_service_type (sv_Name c) (service_args projectID c sa envs) deps)\<lparr>rs_IgnoreChanges := ignore_clients @ [''template.containers[0].image'']\<rparr>))) (\<lambda>_.
     ret (POut run_service_type (sv_Name c) ''Name'', POut run_service_type (sv_Name c) ''Uri'')))"

definition job_args :: "pval \<Rightarrow> job_config \<Rightarrow> pval \<Rightarrow> env_var list \<Rightarrow> (string \<times> pval) list" where
  "job_args projectID c sa envs =
     [(''Project'', projectID), (''Location'', PStr (jb_Region c)), (''Name'', PStr (jb_Name c)),
      (''Template'', PMap [(''Template'', PMap [(''ServiceAccount'', sa),
         (''Containers'', PList [PMap (container_args (jb_Image c) envs (jb_Memory c) (jb_CPU c))]), (''MaxRetries'', PInt (jb_MaxRetries c))])])]"

definition ApplyJob :: "'x engine \<Rightarrow> pval \<Rightarrow> job_config \<Rightarrow> pval \<Rightarrow> env_var list \<Rightarrow> (string \<times> string) list \<Rightarrow> (pval, 'x) deploy" where
  "ApplyJob eng projectID c sa envs deps =
     andThen (wrapping ''validate config: '' (require_ok (job_Validate c))) (\<lambda>_.
     andThen (wrapping (''create cloud run job '' @ jb_Name c @ '': '') (register eng
       ((plain run_job_type (jb_Name c) (job_args projectID c sa envs) deps)\<lparr>rs_IgnoreChanges := ignore_clients @ [''template.template.containers[0].image'']\<rparr>))) (\<lambda>_.
     ret (POut run_job_type (jb_Name c) ''Name'')))"

definition GrantInvoker :: "'x engine \<Rightarrow> string \<Rightarrow> pval \<Rightarrow> string \<Rightarrow> pval \<Rightarrow> pval \<Rightarrow> (unit, 'x) deploy" where
  "GrantInvoker eng name projectID location serviceName member =
     wrapping (''grant invoker '' @ name @ '': '') (register eng (plain run_iam_type name
       [(''Project'', projectID), (''Location'', PStr location), (''Name'', serviceName), (''Role'', PStr ''roles/run.invoker''), (''Member'', member)] []))"

subsection \<open>cloudrun: sidecars\<close>

record container =
  ct_Name :: string
  ct_Image :: string
  ct_Port :: int
  ct_Memory :: string
  ct_CPU :: string
  ct_Envs :: "env_var list"
  ct_DependsOn :: "string list"

record sidecar_config =
  sd_Name :: string
  sd_Region :: string
  sd_Containers :: "container list"
  sd_IAPEnabled :: bool
  sd_MaxInstances :: int

text \<open>The loop over the containers: the first error, or the number of those that declare a port.\<close>

fun count_ingress :: "nat \<Rightarrow> container list \<Rightarrow> 'x err + nat" where
  "count_ingress ingress [] = Inr ingress"
| "count_ingress ingress (c # cs) =
     (if ct_Name c = '''' then Inl (sentinel ''cloudrun.ErrSidecarContainerNameRequired'' ''cloudrun: container Name is required'')
      else if ct_Image c = '''' then Inl (sentinel ''cloudrun.ErrSidecarContainerImageRequired'' ''cloudrun: container Image is required'')
      else count_ingress (if ct_Port c > 0 then ingress + 1 else ingress) cs)"

definition sidecar_Validate :: "sidecar_config \<Rightarrow> 'x err option" where
  "sidecar_Validate c =
     (if sd_Name c = '''' then Some (sentinel ''cloudrun.ErrServiceNameRequired'' ''cloudrun: service Name is required'')
      else if sd_Region c = '''' then Some (sentinel ''cloudrun.ErrServiceRegionRequired'' ''cloudrun: service Region is required'')
      else if sd_Containers c = [] then Some (sentinel ''cloudrun.ErrSidecarContainersRequired'' ''cloudrun: at least one container is required'')
      else (case count_ingress 0 (sd_Containers c) of
        Inl e \<Rightarrow> Some e
      | Inr n \<Rightarrow> if n \<noteq> 1 then Some (sentinel ''cloudrun.ErrSidecarIngressPortRequired'' ''cloudrun: exactly one container must declare Port'') else None))"

definition sidecarContainerArgs :: "container \<Rightarrow> pval" where
  "sidecarContainerArgs c = PMap
     ((''Name'', PStr (ct_Name c)) # container_args (ct_Image c) (ct_Envs c) (ct_Memory c) (ct_CPU c)
      @ (if ct_Port c > 0 then [(''Ports'', PMap [(''Name'', PStr ''http1''), (''ContainerPort'', PInt (ct_Port c))])] else [])
      @ (if ct_DependsOn c \<noteq> [] then [(''DependsOns'', PList (map PStr (ct_DependsOn c)))] else []))"

definition image_path :: "nat \<Rightarrow> string" where
  "image_path i = ''template.containers['' @ show_nat i @ ''].image''"

definition sidecar_ignores :: "sidecar_config \<Rightarrow> string list" where
  "sidecar_ignores c = ignore_clients @ map image_path [0..<length (sd_Containers c)]"

definition sidecar_args :: "pval \<Rightarrow> sidecar_config \<Rightarrow> pval option \<Rightarrow> (string \<times> pval) list" where
  "sidecar_args projectID c sa =
     [(''Project'', projectID), (''Location'', PStr (sd_Region c)), (''Name'', PStr (sd_Name c)),
      (''Template'', PMap ([(''Containers'', PList (map sidecarContainerArgs (sd_Containers c)))]
        @ (case sa of None \<Rightarrow> [] | Some v \<Rightarrow> [(''ServiceAccount'', v)])
        @ (if sd_MaxInstances c > 0 then [(''Scaling'', PMap [(''MaxInstanceCount'', PInt (sd_MaxInstances c))])] else [])))]
     @ (if sd_IAPEnabled c then [(''IapEnabled'', PBool True)] else [])"

definition ApplySidecarService :: "'x engine \<Rightarrow> pval \<Rightarrow> sidecar_config \<Rightarrow> pval option \<Rightarrow> (string \<times> string) list \<Rightarrow> (pval \<times> pval, 'x) deploy" where
  "ApplySidecarService eng projectID c sa deps =
     andThen (wrapping ''validate config: '' (require_ok (sidecar_Validate c))) (\<lambda>_.
     andThen (wrapping (''create cloud run sidecar service '' @ sd_Name c @ '': '') (register eng
       ((plain run_service_type (sd_Name c) (sidecar_args projectID c sa) deps)\<lparr>rs_IgnoreChanges := sidecar_ignores c\<rparr>))) (\<lambda>_.
     ret (POut run_service_type (sd_Name c) ''Name'', POut run_service_type (sd_Name c) ''Uri'')))"

subsection \<open>scheduler\<close>

record scheduler_config =
  sj_Name :: string
  sj_Region :: string
  sj_Schedule :: string
  sj_TimeZone :: string
  sj_Paused :: bool
  sj_HTTPMethod :: string

definition scheduler_Validate :: "scheduler_config \<Rightarrow> 'x err option" where
  "scheduler_Validate c = first_missing
     [(sj_Name c, ''scheduler.ErrNameRequired'', ''scheduler: Name is required''), (sj_Region c, ''scheduler.ErrRegionRequired'', ''scheduler: Region is required''),
      (sj_Schedule c, ''scheduler.ErrScheduleRequired'', ''scheduler: Schedule is required''),
      (sj_TimeZone c, ''scheduler.ErrTimeZoneRequired'', ''scheduler: TimeZone is required'')]"

definition scheduler_type :: string where "scheduler_type = ''cloudscheduler.Job''"

definition scheduler_Apply :: "'x engine \<Rightarrow> pval \<Rightarrow> scheduler_config \<Rightarrow> pval \<Rightarrow> pval \<Rightarrow> (string \<times> string) list \<Rightarrow> (unit, 'x) deploy" where
  "scheduler_Apply eng projectID c targetURI oauthSAEmail deps =
     andThen (require_ok (scheduler_Validate c)) (\<lambda>_.
     wrapping (''create scheduler job '' @ sj_Name c @ '': '') (register eng (plain scheduler_type (sj_Name c)
       [(''Project'', projectID), (''Region'', PStr (sj_Region c)), (''Name'', PStr (sj_Name c)), (''Schedule'', PStr (sj_Schedule c)),
        (''TimeZone'', PStr (sj_TimeZone c)), (''Paused'', PBool (sj_Paused c)),
        (''HttpTarget'', PMap [(''Uri'', targetURI), (''HttpMethod'', PStr (orString (sj_HTTPMethod c) ''POST'')),
          (''OauthToken'', PMap [(''ServiceAccountEmail'', oauthSAEmail)])])] deps)))"

subsection \<open>dataform\<close>

record dataform_repo =
  dr_Name :: string
  dr_DisplayName :: string
  dr_Region :: string
  dr_GitURL :: string
  dr_DefaultBranch :: string
  dr_TokenSecretVersion :: string
  dr_ForceDelete :: bool
  dr_Labels :: "(string \<times> string) list"

definition dataform_Validate :: "dataform_repo \<Rightarrow> 'x err option" where
  "dataform_Validate c = first_missing
     [(dr_Name c, ''dataform.ErrNameRequired'', ''dataform: Name is required''), (dr_Region c, ''dataform.ErrRegionRequired'', ''dataform: Region is required''),
      (dr_GitURL c, ''dataform.ErrGitURLRequired'', ''dataform: GitURL is required''),
      (dr_DefaultBranch c, ''dataform.ErrDefaultBranchRequired'', ''dataform: DefaultBranch is required''),
      (dr_TokenSecretVersion c, ''dataform.ErrTokenSecretVersionRequired'', ''dataform: TokenSecretVersion is required'')]"

record release_config =
  rc_Name :: string
  rc_GitCommitish :: string
  rc_DefaultDatabase :: "pval option"
  rc_Vars :: "(string \<times> pval) list"
  rc_CronSchedule :: string
  rc_TimeZone :: string

definition ErrReleaseTimeZoneRequired :: "'x err" where
  "ErrReleaseTimeZoneRequired = sentinel ''dataform.ErrReleaseTimeZoneRequired'' ''dataform: release has CronSchedule but no TimeZone''"

definition release_Validate :: "release_config \<Rightarrow> 'x err option" where
  "release_Validate c =
     (case first_missing [(rc_Name c, ''dataform.ErrReleaseNameRequired'', ''dataform: release Name is required''),
        (rc_GitCommitish c, ''dataform.ErrReleaseGitCommitishRequired'', ''dataform: release GitCommitish is required'')] of
      Some e \<Rightarrow> Some e
    | None \<Rightarrow> if rc_CronSchedule c \<noteq> '''' \<and> rc_TimeZone c = ''''
        then Some (errorf (err_text (ErrReleaseTimeZoneRequired :: 'x err) @ '': '' @ rc_Name c) [ErrReleaseTimeZoneRequired]) else None)"

record workflow_config =
  wc_Name :: string
  wc_ReleaseConfigName :: string
  wc_CronSchedule :: string
  wc_TimeZone :: string
  wc_IncludedTags :: "string list"
  wc_IncludeTransitiveDeps :: bool

definition ErrWorkflowTimeZoneRequired :: "'x err" where
  "ErrWorkflowTimeZoneRequired = sentinel ''dataform.ErrWorkflowTimeZoneRequired'' ''dataform: workflow has CronSchedule but no TimeZone''"

definition workflow_Validate :: "workflow_config \<Rightarrow> 'x err option" where
  "workflow_Validate c =
     (case first_missing [(wc_Name c, ''dataform.ErrWorkflowNameRequired'', ''dataform: workflow Name is required''),
        (wc_ReleaseConfigName c, ''dataform.ErrWorkflowReleaseConfigRequired'', ''dataform: workflow ReleaseConfigName is required'')] of
      Some e \<Rightarrow> Some e
    | None \<Rightarrow> if wc_CronSchedule c \<noteq> '''' \<and> wc_TimeZone c = ''''
        then Some (errorf (err_text (ErrWorkflowTimeZoneRequired :: 'x err) @ '': '' @ wc_Name c) [ErrWorkflowTimeZoneRequired]) else None)"

definition dataform_type :: string where "dataform_type = ''dataform.Repository''"
definition release_type :: string where "release_type = ''dataform.RepositoryReleaseConfig''"
definition workflow_type :: string where "workflow_type = ''dataform.RepositoryWorkflowConfig''"
definition service_identity_type :: string where "service_identity_type = ''projects.ServiceIdentity''"

definition cron_args :: "string \<Rightarrow> string \<Rightarrow> (string \<times> pval) list" where
  "cron_args cron tz = (if cron \<noteq> '''' then [(''CronSchedule'', PStr cron), (''TimeZone'', PStr tz)] else [])"

definition repo_name :: "dataform_repo \<Rightarrow> pval" where
  "repo_name repo = POut dataform_type (dr_Name repo) ''Name''"

definition release_resource :: "pval \<Rightarrow> dataform_repo \<Rightarrow> release_config \<Rightarrow> resource" where
  "release_resource projectID repo rc =
     plain release_type (dr_Name repo @ ''-release-'' @ rc_Name rc)
       ([(''Project'', projectID), (''Region'', PStr (dr_Region repo)), (''Repository'', repo_name repo), (''Name'', PStr (rc_Name rc)),
         (''GitCommitish'', PStr (rc_GitCommitish rc)),
         (''CodeCompilationConfig'', PMap ((case rc_DefaultDatabase rc of None \<Rightarrow> [] | Some v \<Rightarrow> [(''DefaultDatabase'', v)]) @ [(''Vars'', PMap (rc_Vars rc))]))]
        @ cron_args (rc_CronSchedule rc) (rc_TimeZone rc)) [(dataform_type, dr_Name repo)]"

definition applyReleases :: "'x engine \<Rightarrow> pval \<Rightarrow> dataform_repo \<Rightarrow> release_config list \<Rightarrow> (unit, 'x) deploy" where
  "applyReleases eng projectID repo releases =
     andThen (each (\<lambda>rc. andThen (require_ok (release_Validate rc)) (\<lambda>_.
       wrapping (''create release config '' @ rc_Name rc @ '': '') (register eng (release_resource projectID repo rc)))) releases) (\<lambda>_. ret ())"

definition invocation_args :: "workflow_config \<Rightarrow> pval \<Rightarrow> pval" where
  "invocation_args wc sa = PMap ((''ServiceAccount'', sa) #
     (if wc_IncludedTags wc \<noteq> [] then (''IncludedTags'', PList (map PStr (wc_IncludedTags wc))) #
        (if wc_IncludeTransitiveDeps wc then [(''TransitiveDependenciesIncluded'', PBool True)] else []) else []))"

definition workflow_resource :: "pval \<Rightarrow> dataform_repo \<Rightarrow> pval \<Rightarrow> workflow_config \<Rightarrow> resource" where
  "workflow_resource projectID repo sa wc =
     plain workflow_type (dr_Name repo @ ''-workflow-'' @ wc_Name wc)
       ([(''Project'', projectID), (''Region'', PStr (dr_Region repo)), (''Repository'', repo_name repo), (''Name'', PStr (wc_Name wc)),
         (''ReleaseConfig'', PCat [PStr ''projects/'', projectID, PStr (''/locations/'' @ dr_Region repo @ ''/repositories/''), repo_name repo,
            PStr (''/releaseConfigs/'' @ wc_ReleaseConfigName wc)]),
         (''InvocationConfig'', invocation_args wc sa)]
        @ cron_args (wc_CronSchedule wc) (wc_TimeZone wc)) [(dataform_type, dr_Name repo)]"

definition applyWorkflows :: "'x engine \<Rightarrow> pval \<Rightarrow> dataform_repo \<Rightarrow> pval \<Rightarrow> workflow_config list \<Rightarrow> (unit, 'x) deploy" where
  "applyWorkflows eng projectID repo sa workflows =
     andThen (each (\<lambda>wc. andThen (require_ok (workflow_Validate wc)) (\<lambda>_.
       wrapping (''create workflow config '' @ wc_Name wc @ '': '') (register eng (workflow_resource projectID repo sa wc)))) workflows) (\<lambda>_. ret ())"

definition dataform_resource :: "pval \<Rightarrow> dataform_repo \<Rightarrow> pval \<Rightarrow> (string \<times> string) list \<Rightarrow> resource" where
  "dataform_resource projectID repo sa deps =
     plain dataform_type (dr_Name repo)
       ([(''Project'', projectID), (''Region'', PStr (dr_Region repo)), (''Name'', PStr (dr_Name repo)), (''DisplayName'', PStr (dr_DisplayName repo)),
         (''ServiceAccount'', sa), (''Labels'', string_labels (dr_Labels repo)),
         (''GitRemoteSettings'', PMap [(''Url'', PStr (dr_GitURL repo)), (''DefaultBranch'', PStr (dr_DefaultBranch repo)),
            (''AuthenticationTokenSecretVersion'', PStr (dr_TokenSecretVersion repo))])]
        @ (if dr_ForceDelete repo then [(''DeletionPolicy'', PStr ''FORCE'')] else [])) deps"

definition dataform_Apply :: "'x engine \<Rightarrow> pval \<Rightarrow> dataform_repo \<Rightarrow> pval \<Rightarrow> release_config list \<Rightarrow> workflow_config list \<Rightarrow> (string \<times> string) list \<Rightarrow> (pval, 'x) deploy" where
  "dataform_Apply eng projectID repo sa releases workflows deps =
     andThen (require_ok (dataform_Validate repo)) (\<lambda>_.
     andThen (wrapping (''create dataform repository '' @ dr_Name repo @ '': '') (register eng (dataform_resource projectID repo sa deps))) (\<lambda>_.
     andThen (applyReleases eng projectID repo releases) (\<lambda>_.
     andThen (applyWorkflows eng projectID repo sa workflows) (\<lambda>_.
     ret (repo_name repo)))))"

definition EnsureP4SA :: "'x engine \<Rightarrow> string \<Rightarrow> pval \<Rightarrow> (pval, 'x) deploy" where
  "EnsureP4SA eng name projectID =
     andThen (wrapping ''create dataform P4SA: '' (register eng (plain service_identity_type name
       [(''Project'', projectID), (''Service'', PStr ''dataform.googleapis.com'')] []))) (\<lambda>_. ret (POut service_identity_type name ''Email''))"

subsection \<open>Which container is reached\<close>

definition template_containers :: "resource \<Rightarrow> pval list" where
  "template_containers r =
     (case map_of (rs_Args r) ''Template'' of
        Some (PMap t) \<Rightarrow> (case map_of t ''Containers'' of Some (PList cs) \<Rightarrow> cs | _ \<Rightarrow> [])
      | _ \<Rightarrow> [])"

fun declares_port :: "pval \<Rightarrow> bool" where
  "declares_port (PMap kvs) = (map_of kvs ''Ports'' \<noteq> None)"
| "declares_port _ = False"

lemma declares_port_args: "declares_port (sidecarContainerArgs c) \<longleftrightarrow> ct_Port c > 0"
  by (simp add: sidecarContainerArgs_def container_args_def)

lemma count_ingress_ok: "count_ingress n cs = Inr m \<Longrightarrow> m = n + length (filter (\<lambda>c. ct_Port c > 0) cs)"
  by (induction n cs rule: count_ingress.induct) (auto split: if_splits)

lemma sidecar_valid: "sidecar_Validate c = None \<Longrightarrow> length (filter (\<lambda>c. ct_Port c > 0) (sd_Containers c)) = 1"
  by (auto simp: sidecar_Validate_def dest!: count_ingress_ok split: if_splits sum.splits)

lemma sidecar_containers: "template_containers (plain ty n (sidecar_args projectID c sa) deps\<lparr>rs_IgnoreChanges := ig\<rparr>) = map sidecarContainerArgs (sd_Containers c)"
  by (simp add: template_containers_def plain_def sidecar_args_def)

lemma ApplySidecarService_ok:
  fixes eng :: "'x engine"
  assumes "fst (ApplySidecarService eng projectID c sa deps s) = Ret out"
  shows "sidecar_Validate c = (None :: 'x err option)"
    "dp_Resources (snd (ApplySidecarService eng projectID c sa deps s)) =
       dp_Resources s @ [(plain run_service_type (sd_Name c) (sidecar_args projectID c sa) deps)\<lparr>rs_IgnoreChanges := sidecar_ignores c\<rparr>]"
  using assms by (auto simp: ApplySidecarService_def andThen_def wrapping_def require_ok_def ret_def fails_def register_def
      split: option.splits prod.splits outcome.splits)

subsection \<open>Properties\<close>

text \<open>A service with sidecars has one door: whenever it is created, exactly one of its containers declares a port in the registered template, and for
  every container, at its place in the template, a change of the image is left to the pipeline that deploys it.\<close>
theorem sidecar_service_has_one_ingress:
  assumes "fst (ApplySidecarService eng projectID c sa deps s) = Ret out"
  shows "\<exists>r. dp_Resources (snd (ApplySidecarService eng projectID c sa deps s)) = dp_Resources s @ [r]
    \<and> length (template_containers r) = length (sd_Containers c) \<and> length (filter declares_port (template_containers r)) = 1
    \<and> list_all (\<lambda>i. image_path i \<in> set (rs_IgnoreChanges r)) [0..<length (template_containers r)]"
  using sidecar_valid [OF ApplySidecarService_ok(1) [OF assms]]
  by (simp add: ApplySidecarService_ok(2) [OF assms] sidecar_containers filter_map o_def declares_port_args sidecar_ignores_def list_all_iff)

definition demo_sidecar :: sidecar_config where
  "demo_sidecar = \<lparr>sd_Name = ''web'', sd_Region = ''europe-west4'',
     sd_Containers = [\<lparr>ct_Name = ''app'', ct_Image = ''a:1'', ct_Port = 8080, ct_Memory = '''', ct_CPU = '''', ct_Envs = [], ct_DependsOn = [''proxy'']\<rparr>,
       \<lparr>ct_Name = ''proxy'', ct_Image = ''p:1'', ct_Port = 0, ct_Memory = '''', ct_CPU = '''', ct_Envs = [], ct_DependsOn = []\<rparr>],
     sd_IAPEnabled = True, sd_MaxInstances = 0\<rparr>"

theorem sidecar_service_has_one_ingress_witness:
  "\<exists>r. dp_Resources (snd (ApplySidecarService (\<lambda>s r. None :: unit err option) (PStr ''p'') demo_sidecar None [] \<lparr>dp_Resources = [], dp_Exports = []\<rparr>)) = [r]
     \<and> length (filter declares_port (template_containers r)) = 1 \<and> image_path 1 \<in> set (rs_IgnoreChanges r)"
proof -
  have "fst (ApplySidecarService (\<lambda>s r. None :: unit err option) (PStr ''p'') demo_sidecar None [] \<lparr>dp_Resources = [], dp_Exports = []\<rparr>)
      = Ret (POut run_service_type ''web'' ''Name'', POut run_service_type ''web'' ''Uri'')"
    by (simp add: ApplySidecarService_def andThen_def wrapping_def require_ok_def ret_def register_def sidecar_Validate_def demo_sidecar_def)
  moreover have "length (sd_Containers demo_sidecar) = 2" by (simp add: demo_sidecar_def)
  ultimately show ?thesis using sidecar_service_has_one_ingress
      [of "\<lambda>s r. None :: unit err option" "PStr ''p''" demo_sidecar None "[]" "\<lparr>dp_Resources = [], dp_Exports = []\<rparr>"] by (auto simp: list_all_iff)
qed

end
