(* ===== verification/Audit_Reader.thy ===== *)
theory Audit_Reader
  imports Audit_Log
begin

section \<open>observability/audit: the streaming reader\<close>

text \<open>
  \<open>src/go/observability/audit/reader.go\<close>: entries read line by line through a \<open>bufio.Scanner\<close>, which drops the line ends and gives up on a line of
  64 KiB. \<open>fail\<close> is the error with which the underlying reader ends, None for the end of the file.
\<close>

subsection \<open>bufio.Scanner\<close>

definition maxTokenSize :: nat where "maxTokenSize = 65536"

definition ErrTooLong :: "'x err" where
  "ErrTooLong = sentinel ''bufio.ErrTooLong'' ''bufio.Scanner: token too long''"

definition drop_cr :: "string \<Rightarrow> string" where
  "drop_cr l = (if l \<noteq> '''' \<and> last l = CHR 0x0D then butlast l else l)"

text \<open>The lines between the newlines; the last one counts when it is not empty. With them, the error of the scanner.\<close>

fun scan_tokens :: "'x err option \<Rightarrow> string list \<Rightarrow> string list \<times> 'x err option" where
  "scan_tokens fail [] = ([], fail)"
| "scan_tokens fail (l # ls) =
     (if length l \<ge> maxTokenSize then ([], Some ErrTooLong)
      else if ls = [] then (if l = '''' then [] else [drop_cr l], fail)
      else (case scan_tokens fail ls of (ts, e) \<Rightarrow> (drop_cr l # ts, e)))"

subsection \<open>The reader\<close>

definition ErrInvalidJSONLine :: "'x err" where
  "ErrInvalidJSONLine = sentinel ''audit.ErrInvalidJSONLine'' ''invalid JSON line in audit stream''"

definition io_EOF :: "'x err" where
  "io_EOF = sentinel ''io.EOF'' ''EOF''"

text \<open>What the scanner has yet to give, the number of lines it gave, and the error it ends with.\<close>

record 'x reader =
  rd_lines :: "string list"
  rd_lineNum :: int
  rd_err :: "'x err option"

definition NewReader :: "string \<Rightarrow> 'x err option \<Rightarrow> 'x reader" where
  "NewReader data fail = (case scan_tokens fail (split_on (CHR 0x0A) data) of (ts, e) \<Rightarrow> \<lparr>rd_lines = ts, rd_lineNum = 0, rd_err = e\<rparr>)"

fun read_lines :: "(string \<Rightarrow> 'x err + entry) \<Rightarrow> 'x err option \<Rightarrow> string list \<Rightarrow> int \<Rightarrow> ('x err + entry) \<times> string list \<times> int" where
  "read_lines unmarshal scan_err [] n =
     (Inl (case scan_err of Some e \<Rightarrow> wrapf ''read audit stream: '' e | None \<Rightarrow> io_EOF), [], n)"
| "read_lines unmarshal scan_err (l # ls) n =
     (if l = '''' then read_lines unmarshal scan_err ls (n + 1)
      else (case unmarshal l of
          Inl e \<Rightarrow> (Inl (errorf (err_text (ErrInvalidJSONLine :: 'x err) @ '' at line '' @ show_int (n + 1) @ '': '' @ err_text e) [ErrInvalidJSONLine, e]), ls, n + 1)
        | Inr entry \<Rightarrow> (Inr entry, ls, n + 1)))"

definition Reader_Read :: "(string \<Rightarrow> 'x err + entry) \<Rightarrow> 'x reader \<Rightarrow> ('x err + entry) \<times> 'x reader" where
  "Reader_Read unmarshal r = (case read_lines unmarshal (rd_err r) (rd_lines r) (rd_lineNum r) of
     (res, ls, n) \<Rightarrow> (res, r\<lparr>rd_lines := ls, rd_lineNum := n\<rparr>))"

lemma read_lines_shorter: "read_lines unmarshal se ls n = (Inr entry, ls', n') \<Longrightarrow> length ls' < length ls"
  by (induction unmarshal se ls n rule: read_lines.induct) (auto split: if_splits sum.splits)

lemma Reader_Read_shorter: "Reader_Read unmarshal r = (Inr entry, r') \<Longrightarrow> length (rd_lines r') < length (rd_lines r)"
  by (auto simp: Reader_Read_def dest: read_lines_shorter split: prod.splits)

text \<open>Every round consumes a line, so the loop ends.\<close>

function ReadAll :: "(string \<Rightarrow> 'x err + entry) \<Rightarrow> 'x reader \<Rightarrow> entry list \<Rightarrow> ('x err + entry list) \<times> 'x reader" where
  "ReadAll unmarshal r entries =
     (case Reader_Read unmarshal r of
        (Inl e, r') \<Rightarrow> if errors_Is e ''io.EOF'' then (Inr entries, r') else (Inl e, r')
      | (Inr entry, r') \<Rightarrow> ReadAll unmarshal r' (entries @ [entry]))"
  by pat_completeness auto
termination
  by (relation "measure (\<lambda>(u, r, es). length (rd_lines r))") (auto dest: Reader_Read_shorter [OF sym])

declare ReadAll.simps [simp del]

definition ReadEntries :: "(string \<Rightarrow> 'x err + entry) \<Rightarrow> string \<Rightarrow> 'x err option \<Rightarrow> 'x err + entry list" where
  "ReadEntries unmarshal data fail = fst (ReadAll unmarshal (NewReader data fail) [])"

subsection \<open>What is read\<close>

lemma ReadAll_step:
  assumes "rd_lines r = l # ls" "l \<noteq> ''''" "unmarshal l = Inr e"
  shows "ReadAll unmarshal r es = ReadAll unmarshal (r\<lparr>rd_lines := ls, rd_lineNum := rd_lineNum r + 1\<rparr>) (es @ [e])"
  by (subst ReadAll.simps) (simp add: Reader_Read_def assms)

lemma ReadAll_end: "rd_lines r = [] \<Longrightarrow> rd_err r = None \<Longrightarrow> fst (ReadAll unmarshal r es) = Inr es"
  by (subst ReadAll.simps) (simp add: Reader_Read_def io_EOF_def)

lemma ReadAll_entries:
  "list_all2 (\<lambda>l e. l \<noteq> '''' \<and> unmarshal l = Inr e) ls xs \<Longrightarrow> rd_lines r = ls \<Longrightarrow> rd_err r = None \<Longrightarrow> fst (ReadAll unmarshal r es) = Inr (es @ xs)"
proof (induction arbitrary: r es rule: list_all2_induct)
  case Nil
  then show ?case by (simp add: ReadAll_end)
next
  case (Cons l ls e xs)
  then show ?case using ReadAll_step [where r = r and l = l and ls = ls and e = e and es = es and unmarshal = unmarshal] by simp
qed

definition scannable :: "string \<Rightarrow> bool" where
  "scannable l \<longleftrightarrow> l \<noteq> '''' \<and> CHR 0x0A \<notin> set l \<and> last l \<noteq> CHR 0x0D \<and> length l < maxTokenSize"

lemma scan_lines_text:
  "list_all scannable ls \<Longrightarrow> scan_tokens fail (split_on (CHR 0x0A) (concat (map (\<lambda>l. l @ [CHR 0x0A]) ls))) = (ls, fail)"
proof (induction ls)
  case (Cons l ls)
  then show ?case
    using split_on_append_sep [of "CHR 0x0A" l "concat (map (\<lambda>l. l @ [CHR 0x0A]) ls)"] by (simp add: scannable_def drop_cr_def)
qed (simp add: maxTokenSize_def)

lemma ReadEntries_lines:
  assumes "list_all scannable ls" "list_all2 (\<lambda>l e. unmarshal l = Inr e) ls xs"
  shows "ReadEntries unmarshal (concat (map (\<lambda>l. l @ [CHR 0x0A]) ls)) None = Inr xs"
proof -
  have "list_all2 (\<lambda>l e. l \<noteq> '''' \<and> unmarshal l = Inr e) ls xs"
    using assms by (auto simp: list_all2_conv_all_nth list_all_length scannable_def)
  from ReadAll_entries [OF this, of "NewReader (concat (map (\<lambda>l. l @ [CHR 0x0A]) ls)) None" "[]"] show ?thesis
    by (simp add: ReadEntries_def NewReader_def scan_lines_text [OF assms(1)])
qed

text \<open>A line that is no entry ends the reading with an error that says so.\<close>

lemma ReadAll_bad_line:
  assumes "rd_lines r = l # ls" "l \<noteq> ''''" "unmarshal l = Inl e" "\<not> errors_Is e ''io.EOF''"
  shows "\<exists>err. fst (ReadAll unmarshal r es) = Inl err \<and> errors_Is err ''audit.ErrInvalidJSONLine''"
  using assms by (subst ReadAll.simps) (simp add: Reader_Read_def ErrInvalidJSONLine_def)

text \<open>A line of 64 KiB, which the writer logs like any other and the scorecard counts, ends the reading of a log with an error, and with it all that was read
  before.\<close>

lemma ReadAll_failed_scan:
  "list_all2 (\<lambda>l e. l \<noteq> [] \<and> unmarshal l = Inr e) ls xs \<Longrightarrow> rd_lines r = ls \<Longrightarrow> rd_err r = Some err \<Longrightarrow> \<not> errors_Is err ''io.EOF''
   \<Longrightarrow> fst (ReadAll unmarshal r es) = Inl (wrapf ''read audit stream: '' err)"
proof (induction arbitrary: r es rule: list_all2_induct)
  case Nil
  then show ?case by (subst ReadAll.simps) (simp add: Reader_Read_def)
next
  case (Cons l ls e xs)
  then show ?case using ReadAll_step [where r = r and l = l and ls = ls and e = e and es = es and unmarshal = unmarshal] by simp
qed

lemma scan_long_line:
  assumes "list_all scannable ls" "length l \<ge> maxTokenSize"
  shows "scan_tokens fail (ls @ l # rest) = (ls, Some ErrTooLong)"
  using assms by (induction ls) (auto simp: scannable_def drop_cr_def)

theorem long_entry_hides_the_log:
  fixes unmarshal :: "string \<Rightarrow> 'x err + entry"
  assumes "list_all scannable ls" "list_all2 (\<lambda>l e. unmarshal l = Inr e) ls xs" and "length l \<ge> maxTokenSize" "CHR 0x0A \<notin> set l"
  shows "ReadEntries unmarshal (concat (map (\<lambda>l. l @ [CHR 0x0A]) ls) @ l @ CHR 0x0A # rest) None = Inl (wrapf ''read audit stream: '' ErrTooLong)"
proof -
  let ?data = "concat (map (\<lambda>l. l @ [CHR 0x0A]) ls) @ l @ CHR 0x0A # rest"
  have "split_on (CHR 0x0A) ?data = ls @ l # split_on (CHR 0x0A) rest"
    using assms(1,4)
  proof (induction ls)
    case (Cons k ks)
    then show ?case by (simp add: scannable_def split_on_append_sep)
  qed (simp add: split_on_append_sep)
  then have "(NewReader ?data None :: 'x reader) = \<lparr>rd_lines = ls, rd_lineNum = 0, rd_err = Some ErrTooLong\<rparr>"
    by (simp add: NewReader_def scan_long_line [OF assms(1,3)])
  moreover have "list_all2 (\<lambda>l e. l \<noteq> [] \<and> unmarshal l = Inr e) ls xs"
    using assms(1,2) by (auto simp: list_all2_conv_all_nth list_all_length scannable_def)
  ultimately show ?thesis by (simp add: ReadEntries_def ReadAll_failed_scan ErrTooLong_def)
qed

subsection \<open>Written and read\<close>

definition stamped :: "go_time \<times> entry \<Rightarrow> entry" where
  "stamped te = (snd te)\<lparr>en_Time := fst te\<rparr>"

text \<open>What the writer stamps on an entry can be formatted, and the JSON library writes it on one line of less than 64 KiB that it reads back.\<close>

definition codec_ok :: "(entry_json \<Rightarrow> 'x err + string) \<Rightarrow> (string \<Rightarrow> 'x err + entry_json) \<Rightarrow> go_time \<times> entry \<Rightarrow> bool" where
  "codec_ok encode decode te \<longleftrightarrow> (IsZero (fst te) \<or> formattable (fst te)) \<and>
     (case encode (entry_wire (stamped te)) of Inl e \<Rightarrow> False | Inr b \<Rightarrow> scannable b \<and> decode b = Inr (entry_wire (stamped te)))"

lemma line_of_codec:
  assumes "codec_ok encode decode te"
  obtains b where "line_of (MarshalJSON encode) te = b @ [CHR 0x0A]" "scannable b"
    "UnmarshalJSON decode lenient b = Inr (snd te\<lparr>en_Time := stamp_read (fst te)\<rparr>)"
proof -
  obtain b where b: "encode (entry_wire (stamped te)) = Inr b" "scannable b" "decode b = Inr (entry_wire (stamped te))"
    using assms by (auto simp: codec_ok_def split: sum.splits)
  have "UnmarshalJSON decode lenient b = Inr (stamped te\<lparr>en_Time := stamp_read (en_Time (stamped te))\<rparr>)"
    using b(3) assms by (intro UnmarshalJSON_wire) (auto simp: codec_ok_def stamped_def)
  then show ?thesis using b that by (simp add: line_of_def MarshalJSON_def stamped_def)
qed

lemma lines_of_codec:
  assumes "list_all (codec_ok encode decode) tes"
  shows "ReadEntries (UnmarshalJSON decode lenient) (concat (map (line_of (MarshalJSON encode)) tes)) None
    = Inr (map (\<lambda>te. snd te\<lparr>en_Time := stamp_read (fst te)\<rparr>) tes)"
proof -
  have "\<exists>ls. map (line_of (MarshalJSON encode)) tes = map (\<lambda>l. l @ [CHR 0x0A]) ls \<and> list_all scannable ls
      \<and> list_all2 (\<lambda>l e. UnmarshalJSON decode lenient l = Inr e) ls (map (\<lambda>te. snd te\<lparr>en_Time := stamp_read (fst te)\<rparr>) tes)"
    using assms
  proof (induction tes)
    case (Cons te tes)
    then obtain ls where IH: "map (line_of (MarshalJSON encode)) tes = map (\<lambda>l. l @ [CHR 0x0A]) ls" "list_all scannable ls"
        "list_all2 (\<lambda>l e. UnmarshalJSON decode lenient l = Inr e) ls (map (\<lambda>te. snd te\<lparr>en_Time := stamp_read (fst te)\<rparr>) tes)" by auto
    obtain b where "line_of (MarshalJSON encode) te = b @ [CHR 0x0A]" "scannable b"
        "UnmarshalJSON decode lenient b = Inr (snd te\<lparr>en_Time := stamp_read (fst te)\<rparr>)"
      using line_of_codec [of encode decode te lenient] Cons.prems by auto
    then show ?case using IH by (intro exI [of _ "b # ls"]) simp
  qed simp
  then obtain ls where ls: "map (line_of (MarshalJSON encode)) tes = map (\<lambda>l. l @ [CHR 0x0A]) ls" "list_all scannable ls"
      "list_all2 (\<lambda>l e. UnmarshalJSON decode lenient l = Inr e) ls (map (\<lambda>te. snd te\<lparr>en_Time := stamp_read (fst te)\<rparr>) tes)" by blast
  show ?thesis unfolding ls(1) by (rule ReadEntries_lines [OF ls(2,3)])
qed

subsection \<open>Properties\<close>

text \<open>C22. What the file writer logs, the reader reads, under three conditions: no operation of the file system fails; the time of every entry is the zero time or one that
  RFC 3339 can write; and the JSON line of every entry is decoded to what was encoded, and is shorter than the 64 KiB token limit of the reader and without a line
  break. Then, after any sequence of calls of Log on a new log, with rotations as they come, reading the backup and then the log gives the most recent entries, all of
  them from some entry on and the last one always among them, each with its actor, action and resource and the writer's time to the second. Beyond the limit it
  does not hold: one line of 64 KiB, which the writer accepts, makes the reader fail on the whole log (theorem \<open>long_entry_hides_the_log\<close>).\<close>
theorem logged_entries_are_read_back:
  assumes "NewFileWriter (no_audit_faults :: 'x audit_faults) p maxSize Map.empty = (Inr w, dk)"
    and "list_all (codec_ok encode decode) tes" and "run_logs (MarshalJSON encode) tes w dk = (w', dk')"
  shows "\<exists>k. (tes = [] \<or> k < length tes)
    \<and> ReadEntries (UnmarshalJSON decode lenient) (content (backup_path p) dk' @ content p dk') None
        = Inr (map (\<lambda>te. snd te\<lparr>en_Time := stamp_read (fst te)\<rparr>) (drop k tes))"
proof -
  have start: "log_state [] 0 0 p w dk"
    using assms(1) by (auto simp: NewFileWriter_def no_audit_faults_def Let_def touch_def content_def log_state_def)
  have ok: "list_all (\<lambda>te. line_of (MarshalJSON encode) te \<noteq> []) tes"
    using assms(2) by (auto simp: list_all_iff elim!: line_of_codec)
  obtain k j where st: "log_state (map (line_of (MarshalJSON encode)) tes) k j p w' dk'" and j: "tes = [] \<or> j < length tes"
    using run_logs_state [OF start _ ok assms(3)] by auto
  have "list_all (codec_ok encode decode) (drop k tes)" using assms(2) by (auto simp: list_all_iff dest: in_set_dropD)
  moreover have "k \<le> j" using st by (simp add: log_state_def)
  ultimately show ?thesis using lines_of_codec log_contents [OF st] j by (intro exI [of _ k]) auto
qed

theorem logged_entries_are_read_back_witness:
  "\<exists>w dk w' dk' k. NewFileWriter (no_audit_faults :: unit audit_faults) ''log'' (Some 3) Map.empty = (Inr w, dk)
     \<and> run_logs (MarshalJSON demo_encode) [(demo_moment, demo_entry), (zero_time, demo_entry)] w dk = (w', dk') \<and> k < 2
     \<and> ReadEntries (UnmarshalJSON demo_decode (\<lambda>s. Inl (sentinel s s))) (content (backup_path ''log'') dk' @ content ''log'' dk') None
        = Inr (map (\<lambda>te. snd te\<lparr>en_Time := stamp_read (fst te)\<rparr>) (drop k [(demo_moment, demo_entry), (zero_time, demo_entry)]))"
proof -
  let ?tes = "[(demo_moment, demo_entry), (zero_time, demo_entry)]"
  obtain w dk where new: "NewFileWriter (no_audit_faults :: unit audit_faults) ''log'' (Some 3) Map.empty = (Inr w, dk)"
    by (simp add: NewFileWriter_def no_audit_faults_def Let_def)
  obtain w' dk' where run: "run_logs (MarshalJSON demo_encode) ?tes w dk = (w', dk')" by fastforce
  have nz: "\<not> IsZero demo_moment" "IsZero zero_time" by (simp_all add: IsZero_def demo_moment_def zero_time_def)
  have "codec_ok demo_encode demo_decode (demo_moment, demo_entry)" "codec_ok demo_encode demo_decode (zero_time, demo_entry)"
    by (simp_all add: codec_ok_def demo_moment_text stamped_def entry_wire_def nz demo_entry_def demo_encode_def demo_decode_def scannable_def maxTokenSize_def)
  then have ok: "list_all (codec_ok demo_encode demo_decode) ?tes" by simp
  obtain k where k: "?tes = [] \<or> k < length ?tes" and read: "ReadEntries (UnmarshalJSON demo_decode (\<lambda>s. Inl (sentinel s s)))
      (content (backup_path ''log'') dk' @ content ''log'' dk') None = Inr (map (\<lambda>te. snd te\<lparr>en_Time := stamp_read (fst te)\<rparr>) (drop k ?tes))"
    using logged_entries_are_read_back [OF new ok run, of "\<lambda>s. Inl (sentinel s s)"] by blast
  have "k < 2" using k by simp
  then show ?thesis using new run read by blast
qed

end
