(* ===== verification/Filelock_Reports.thy ===== *)
theory Filelock_Reports
  imports Filelock
begin

section \<open>platform/coordination/filelock: what is told about a window\<close>

text \<open>
  \<open>src/go/platform/coordination/filelock/filelock.go\<close>: the public \<open>Holder\<close>, the text for whoever gave up waiting, the errors of a reclaim that could not
  be finished, and \<open>fsyncDir\<close>. The state they describe is the directory of theory Filelock.
\<close>

definition ReclaimedSuffix :: string where "ReclaimedSuffix = ''.reclaimed''"

text \<open>The store: its directory, the purpose of its records, and the options read on every Acquire.\<close>

record fl_store =
  st_Dir :: string
  st_Purpose :: string
  st_Options :: fl_options

definition store_Holder :: "(string \<Rightarrow> holder option) \<Rightarrow> char \<Rightarrow> fl_store \<Rightarrow> string \<Rightarrow> filesys \<Rightarrow> 'x err + holder \<times> bool" where
  "store_Holder parse_holder path_sep s subject fs =
     (case LockPath path_sep (st_Dir s) subject of
        Inl e \<Rightarrow> Inl e
      | Inr path \<Rightarrow> (case readHolder parse_holder LockF fs of None \<Rightarrow> Inr (zero_holder, False) | Some (h, r) \<Rightarrow> Inr (h, True)))"

definition occupant :: "(string \<Rightarrow> holder option) \<Rightarrow> fname \<Rightarrow> filesys \<Rightarrow> string" where
  "occupant parse_holder nm fs =
     (case readHolder parse_holder nm fs of
        None \<Rightarrow> ''nobody (the window was free at the last look)''
      | Some (h, r) \<Rightarrow>
          if h_PID h = 0 \<and> h_Host h = [] then ''an unreadable record (present, but not parseable as a holder)'' else Holder_String h)"

text \<open>The end of a wait of \<open>Acquire\<close> by its context.\<close>

definition gave_up :: "(string \<Rightarrow> holder option) \<Rightarrow> string \<Rightarrow> 'x err \<Rightarrow> int \<Rightarrow> filesys \<Rightarrow> 'x err" where
  "gave_up parse_holder path ctx_error waited fs =
     errorf (''enter '' @ path @ '': '' @ err_text ctx_error @ '' after '' @ Duration_String (Duration_Round waited millisecond) @ '' behind ''
       @ occupant parse_holder LockF fs) [ctx_error]"

subsection \<open>A reclaim that could not be finished\<close>

definition reserveTomb_error :: "string \<Rightarrow> 'x err \<Rightarrow> 'x err option \<Rightarrow> 'x err" where
  "reserveTomb_error tomb e_create e_close =
     (case e_close of None \<Rightarrow> wrapf ''reserve set-aside name: '' e_create | Some e \<Rightarrow> wrapf (''reserve set-aside name '' @ tomb @ '': '') e)"

text \<open>The set-aside name could not be reserved, or the record could not be renamed onto it.\<close>

definition takeAside_stale :: "string \<Rightarrow> holder \<Rightarrow> 'x err \<Rightarrow> 'x err" where
  "takeAside_stale path judged e =
     errorf (''reclaim '' @ path @ '' held by '' @ Holder_String judged @ '': '' @ err_text (ErrStaleLock :: 'x err) @ '': '' @ err_text e) [ErrStaleLock, e]"

definition takeAside_lost :: "string \<Rightarrow> holder \<Rightarrow> string \<Rightarrow> 'x err \<Rightarrow> 'x err" where
  "takeAside_lost path judged tomb e =
     wrapf (''reclaim '' @ path @ '' held by '' @ Holder_String judged @ '': record set aside at '' @ tomb @ '': '') e"

definition takeAside_overlap :: "(string \<Rightarrow> holder option) \<Rightarrow> string \<Rightarrow> nat \<Rightarrow> string \<Rightarrow> filesys \<Rightarrow> 'x err \<Rightarrow> 'x err" where
  "takeAside_overlap parse_holder path k tomb fs e =
     wrapf (''reclaim '' @ path @ '': set aside a LIVE record ('' @ occupant parse_holder (TombF k) fs
       @ '') and another claim landed before it could be restored'' @ [CHR 0x20, CHR 0xE2, CHR 0x80, CHR 0x94, CHR 0x20]
       @ ''two callers are inside this window and the fence is the only witness; the moved record is preserved at '' @ tomb @ '': '') e"

text \<open>\<open>fsyncDir\<close> from the outcomes of its calls: opening the directory, syncing and closing it.\<close>

definition fsyncDir :: "bool \<Rightarrow> string \<Rightarrow> 'x err option \<Rightarrow> 'x err option \<Rightarrow> 'x err option \<Rightarrow> 'x err option" where
  "fsyncDir windows d e_open e_sync e_close =
     (if windows then None
      else (case e_open of
          Some e \<Rightarrow> Some (wrapf (''open dir '' @ d @ '': '') e)
        | None \<Rightarrow> (case (if e_sync = None then e_close else e_sync) of
            Some e \<Rightarrow> Some (wrapf (''fsync dir '' @ d @ '': '') e)
          | None \<Rightarrow> None)))"

subsection \<open>What the reports say\<close>

lemma fsyncDir_none: "fsyncDir windows d a b c = None \<longleftrightarrow> windows \<or> a = None \<and> b = None \<and> c = None"
  by (auto simp: fsyncDir_def split: option.splits)

lemma takeAside_stale_is: "errors_Is (takeAside_stale path h e) ''coordination.ErrStaleLock''"
  by (simp add: takeAside_stale_def ErrStaleLock_def)

text \<open>A claim whose record does not parse is held, by nobody that could be named, and reclaim never touches it.\<close>

lemma unreadable_record_is_a_claim:
  assumes "dir fs LockF = Some i" "inodes fs i = Some nd" "parse_holder (i_content nd) = None"
    and "LockPath path_sep (st_Dir s) subject = (Inr p :: 'x err + string)"
  shows "store_Holder parse_holder path_sep s subject fs = (Inr (zero_holder, True) :: 'x err + holder \<times> bool)"
    "occupant parse_holder LockF fs = ''an unreadable record (present, but not parseable as a holder)''"
    "judge parse_holder opts now fs = None"
  using assms by (simp_all add: store_Holder_def occupant_def judge_def readHolder_def zero_holder_def Holder_Age_def IsZero_def zero_time_def)

text \<open>A record without a time of its own ages by its file; whoever is inside is described by it.\<close>

lemma undated_record_ages:
  assumes "dir fs LockF = Some i" "inodes fs i = Some nd" "parse_holder (i_content nd) = Some h" "IsZero (h_Since h)"
    and "i_mtime nd \<noteq> 0" "StaleAfter opts > 0"
  shows "judge parse_holder opts now fs = None \<longleftrightarrow> time_sub now (i_mtime nd) \<le> StaleAfter opts"
  using assms by (simp add: judge_def readHolder_def Holder_Age_def IsZero_def)

end
