(* ===== verification/Gate_Report.thy ===== *)
theory Gate_Report
  imports Gate Go_Time
begin

section \<open>governance/gate: a report as JSON and as text\<close>

text \<open>
  \<open>src/go/governance/gate/gate.go\<close>: \<open>Report.MarshalJSON\<close> and \<open>Report.Summary\<close>. The JSON value that the struct tags prescribe is a tree with the
  members in their order; writing the tree as text is the parameter \<open>encode\<close>. \<open>in_zone\<close> reads the clock in the location of the process. The results of a report
  that \<open>Evaluate\<close> made are never a nil slice, so they are always an array.
\<close>

datatype json = JString string | JNumber int | JArray "json list" | JObject "(string \<times> json) list"

text \<open>A result has no method of its own: its duration is the integer of a \<open>time.Duration\<close>, and empty texts and lists are omitted.\<close>

definition result_json :: "gate_result \<Rightarrow> json" where
  "result_json r = JObject ([(''rule_name'', JString (gr_RuleName r)), (''status'', JString (gr_Status r))]
     @ (if gr_Reason r = [] then [] else [(''reason'', JString (gr_Reason r))])
     @ (if gr_Evidence r = [] then [] else [(''evidence'', JArray (map JString (gr_Evidence r)))])
     @ [(''duration_ms'', JNumber (gr_Duration r))])"

definition Milliseconds :: "int \<Rightarrow> int" where
  "Milliseconds d = (if d < 0 then - (- d div 10 ^ 6) else d div 10 ^ 6)"

record report_json =
  rj_GateName :: string
  rj_EvaluatedAt :: string
  rj_Policy :: string
  rj_Verdict :: string
  rj_TotalRules :: nat
  rj_PassedRules :: nat
  rj_FailedRules :: nat
  rj_AnomalyRules :: nat
  rj_SkippedRules :: nat
  rj_Results :: "gate_result list"
  rj_DurationMs :: int

definition report_members :: "report_json \<Rightarrow> json" where
  "report_members w = JObject
     [(''gate_name'', JString (rj_GateName w)), (''evaluated_at'', JString (rj_EvaluatedAt w)), (''policy'', JString (rj_Policy w)),
      (''verdict'', JString (rj_Verdict w)), (''total_rules'', JNumber (int (rj_TotalRules w))), (''passed_rules'', JNumber (int (rj_PassedRules w))),
      (''failed_rules'', JNumber (int (rj_FailedRules w))), (''anomaly_rules'', JNumber (int (rj_AnomalyRules w))),
      (''skipped_rules'', JNumber (int (rj_SkippedRules w))), (''results'', JArray (map result_json (rj_Results w))), (''duration_ms'', JNumber (rj_DurationMs w))]"

definition report_MarshalJSON :: "(int \<Rightarrow> go_time) \<Rightarrow> (json \<Rightarrow> 'x err + string) \<Rightarrow> report \<Rightarrow> 'x err + string" where
  "report_MarshalJSON in_zone encode r =
     (let wire = \<lparr>rj_GateName = rp_GateName r, rj_EvaluatedAt = Format_RFC3339 (in_zone (rp_EvaluatedAt r)), rj_Policy = rp_Policy r,
          rj_Verdict = rp_Verdict r, rj_TotalRules = rp_TotalRules r, rj_PassedRules = rp_PassedRules r, rj_FailedRules = rp_FailedRules r,
          rj_AnomalyRules = rp_AnomalyRules r, rj_SkippedRules = rp_SkippedRules r, rj_Results = rp_Results r, rj_DurationMs = Milliseconds (rp_Duration r)\<rparr>
      in case encode (report_members wire) of Inl e \<Rightarrow> Inl (wrapf ''gate: marshal report: '' e) | Inr data \<Rightarrow> Inr data)"

definition newline :: string where "newline = [CHR 0x0A]"

definition result_text :: "gate_result \<Rightarrow> string" where
  "result_text res = ''  ['' @ gr_Status res @ ''] '' @ gr_RuleName res @ (if gr_Reason res = [] then [] else '' - '' @ gr_Reason res) @ newline
     @ concat (map (\<lambda>ev. ''      '' @ ev @ newline) (gr_Evidence res))"

definition Summary :: "report \<Rightarrow> string" where
  "Summary r =
     ''Gate '' @ go_quote (rp_GateName r) @ '': '' @ rp_Verdict r @ '' ('' @ show_nat (rp_TotalRules r) @ '' total, '' @ show_nat (rp_PassedRules r)
     @ '' passed, '' @ show_nat (rp_FailedRules r) @ '' failed, '' @ show_nat (rp_AnomalyRules r) @ '' anomalies, '' @ show_nat (rp_SkippedRules r)
     @ '' skipped in '' @ Duration_String (rp_Duration r) @ '')'' @ newline @ concat (map result_text (rp_Results r))"

subsection \<open>What a reader of the JSON sees\<close>

fun json_member :: "string \<Rightarrow> json \<Rightarrow> json option" where
  "json_member k (JObject ms) = map_of ms k"
| "json_member k v = None"

lemma Milliseconds_less: "\<bar>Milliseconds d\<bar> * 10 ^ 6 \<le> \<bar>d\<bar>"
  by (auto simp: Milliseconds_def)

text \<open>Under one key, the report gives milliseconds and its results give nanoseconds: unless all rules took no time, the values under \<open>duration_ms\<close> of the
  results exceed those they are read as.\<close>

theorem durations_in_two_units:
  "json_member ''duration_ms'' (result_json res) = Some (JNumber (gr_Duration res))"
  "json_member ''duration_ms'' (report_members w) = Some (JNumber (rj_DurationMs w))"
  "gr_Duration res > 0 \<Longrightarrow> Milliseconds (gr_Duration res) < gr_Duration res"
proof -
  show "json_member ''duration_ms'' (result_json res) = Some (JNumber (gr_Duration res))" by (simp add: result_json_def)
  show "json_member ''duration_ms'' (report_members w) = Some (JNumber (rj_DurationMs w))" by (simp add: report_members_def)
  assume "gr_Duration res > 0"
  then show "Milliseconds (gr_Duration res) < gr_Duration res" using Milliseconds_less [of "gr_Duration res"] by (simp add: Milliseconds_def)
qed

text \<open>The text has a line for the gate, one for each result and one for each piece of evidence, when none of them holds a line end.\<close>

lemma newline_count [simp]: "count_list newline (CHR 0x0A) = 1"
  by (simp add: newline_def)

lemma count_list_concat: "count_list (concat xss) x = sum_list (map (\<lambda>xs. count_list xs x) xss)"
  by (induction xss) simp_all

lemma no_line_end: "CHR 0x0A \<notin> set s \<Longrightarrow> count_list s (CHR 0x0A) = 0"
  by (simp add: count_list_0_iff)

definition one_line :: "gate_result \<Rightarrow> bool" where
  "one_line r \<longleftrightarrow> CHR 0x0A \<notin> set (gr_Status r @ gr_RuleName r @ gr_Reason r @ concat (gr_Evidence r))"

lemma result_text_lines:
  assumes "one_line r" shows "count_list (result_text r) (CHR 0x0A) = 1 + length (gr_Evidence r)"
proof -
  have "count_list (concat (map (\<lambda>ev. ''      '' @ ev @ newline) evs)) (CHR 0x0A) = length evs" if "CHR 0x0A \<notin> set (concat evs)" for evs
    using that by (induction evs) (simp_all add: no_line_end)
  then show ?thesis using assms by (simp add: result_text_def one_line_def no_line_end)
qed

end
