(* ===== verification/Datadiff_Report.thy ===== *)
theory Datadiff_Report
  imports Datadiff Gcpenv
begin

section \<open>dataquality/datadiff: what is printed\<close>

text \<open>
  \<open>src/go/dataquality/datadiff/format.go\<close>: \<open>BillingProject\<close>, and \<open>PrintResult\<close> and \<open>PrintCost\<close> as the lines they write. The verb \<open>%.nf\<close> rounds the
  exact value of the number half to even; a negative zero, which the model of floating point does not have, would show its sign.
\<close>

definition BillingProject :: "(string \<Rightarrow> string) \<Rightarrow> string \<Rightarrow> target \<Rightarrow> string" where
  "BillingProject getenv explicit fallback =
     (if explicit \<noteq> [] then explicit else if FromEnv getenv \<noteq> [] then FromEnv getenv else tg_Project fallback)"

definition fixed_text :: "nat \<Rightarrow> rat \<Rightarrow> string" where
  "fixed_text prec x =
     (let n = nat (round_half_even (\<bar>x\<bar> * 10 ^ prec)); ds = show_nat (n mod 10 ^ prec) in
      (if x < 0 then ''-'' else []) @ show_nat (n div 10 ^ prec) @ (if prec = 0 then [] else ''.'' @ replicate (prec - length ds) (CHR ''0'') @ ds))"

fun float_text :: "nat \<Rightarrow> float64 \<Rightarrow> string" where
  "float_text prec NaN = ''NaN''"
| "float_text prec PosInf = ''+Inf''"
| "float_text prec NegInf = ''-Inf''"
| "float_text prec (Fin x) = fixed_text prec x"

text \<open>The marks at the start of a line, in UTF-8.\<close>

definition tick :: string where "tick = [CHR 0xE2, CHR 0x9C, CHR 0x85]"
definition cross :: string where "cross = [CHR 0xE2, CHR 0x9D, CHR 0x8C]"
definition arrow :: string where "arrow = [CHR 0xE2, CHR 0x86, CHR 0x92]"
definition party :: string where "party = [CHR 0xF0, CHR 0x9F, CHR 0x8E, CHR 0x89]"
definition warning :: string where "warning = [CHR 0xE2, CHR 0x9A, CHR 0xA0, CHR 0xEF, CHR 0xB8, CHR 0x8F]"
definition chart :: string where "chart = [CHR 0xF0, CHR 0x9F, CHR 0x93, CHR 0x8A]"

definition schema_lines :: "schema_result \<Rightarrow> string list" where
  "schema_lines s =
     (if sc_Match s then [tick @ '' Schema: MATCH'']
      else (cross @ '' Schema: MISMATCH'')
        # map (\<lambda>c. ''   left-only:  '' @ c_Name c @ '' ('' @ c_DataType c @ '')'') (sc_LeftOnly s)
        @ map (\<lambda>c. ''   right-only: '' @ c_Name c @ '' ('' @ c_DataType c @ '')'') (sc_RightOnly s)
        @ map (\<lambda>d. ''   type-diff:  '' @ td_Name d @ '' ('' @ td_LeftType d @ '' '' @ arrow @ '' '' @ td_RightType d @ '')'') (sc_TypeDiffs s))"

definition volume_line :: "volume_result \<Rightarrow> string" where
  "volume_line v =
     (if vr_Match v then tick @ '' Volume: MATCH ('' @ show_int (vr_LeftCount v) @ '' rows)''
      else cross @ '' Volume: MISMATCH (left='' @ show_int (vr_LeftCount v) @ '', right='' @ show_int (vr_RightCount v)
        @ '', delta='' @ show_int (wrap64 (vr_RightCount v - vr_LeftCount v)) @ '')'')"

definition content_lines :: "'v content_result \<Rightarrow> string list" where
  "content_lines c =
     (if cr_Match c then [tick @ '' Content: MATCH ('' @ show_int (cr_Matched c) @ '' rows identical)'']
      else (cross @ '' Content: MISMATCH (matched='' @ show_int (cr_Matched c) @ '', left-only='' @ show_int (cr_LeftOnly c)
          @ '', right-only='' @ show_int (cr_RightOnly c) @ '', differed='' @ show_int (cr_Differed c) @ '')'')
        # map (\<lambda>d. ''   '' @ rd_Side d @ '': key='' @ rd_Key d) (cr_Diffs c))"

definition stats_lines :: "stats_result \<Rightarrow> string list" where
  "stats_lines s =
     (if st_Match s then [tick @ '' Stats: MATCH'']
      else (cross @ '' Stats: MISMATCH'')
        # map (\<lambda>d. ''   '' @ sd_Column d @ ''.'' @ sd_Field d @ '': left='' @ float_text 4 (sd_Left d) @ '' right='' @ float_text 4 (sd_Right d)
            @ '' delta='' @ float_text 4 (sd_Delta d)) (st_Diffs s))"

definition all_pass :: string where "all_pass = party @ '' ALL LAYERS PASS''"
definition not_pass :: string where "not_pass = warning @ ''  COMPARISON FAILED''"

definition PrintResult :: "'v diff_result \<Rightarrow> string list" where
  "PrintResult r = schema_lines (dr_Schema r) @ [volume_line (dr_Volume r)] @ content_lines (dr_Content r) @ stats_lines (dr_Stats r)
     @ [[], if result_Pass r then all_pass else not_pass]"

fun fmul :: "float64 \<Rightarrow> float64 \<Rightarrow> float64" where
  "fmul (Fin x) (Fin y) = round64 (x * y)"
| "fmul _ _ = NaN"

definition PrintCost :: "int \<Rightarrow> string" where
  "PrintCost bytes =
     (let b = float_of_int bytes; mb = fdiv b (Fin (10 ^ 6)); cost = fmul (fdiv b (Fin (10 ^ 12))) (Fin (25 / 4)) in
      chart @ '' Bytes processed: '' @ float_text 2 mb @ '' MB ($'' @ float_text 4 cost @ '' on-demand)'')"

subsection \<open>What the report says\<close>

lemma report_ends_with_verdict: "last (PrintResult r) = all_pass \<longleftrightarrow> result_Pass r"
  by (simp add: PrintResult_def all_pass_def not_pass_def party_def warning_def)

text \<open>A layer has its tick exactly when it matched, and the report ends with a pass exactly when the first three have one.\<close>

definition ticked :: "string list \<Rightarrow> bool" where
  "ticked ls \<longleftrightarrow> has_prefix (hd ls) tick"

lemma layer_ticks:
  "ticked (schema_lines s) \<longleftrightarrow> sc_Match s" "ticked [volume_line v] \<longleftrightarrow> vr_Match v" "ticked (content_lines c) \<longleftrightarrow> cr_Match c" "ticked (stats_lines t) \<longleftrightarrow> st_Match t"
  by (simp_all add: ticked_def schema_lines_def volume_line_def content_lines_def stats_lines_def tick_def cross_def has_prefix_def)

theorem verdict_ignores_statistics:
  "last (PrintResult r) = all_pass \<longleftrightarrow>
     ticked (schema_lines (dr_Schema r)) \<and> ticked [volume_line (dr_Volume r)] \<and> ticked (content_lines (dr_Content r))"
  by (simp add: report_ends_with_verdict layer_ticks result_Pass_def)

text \<open>A report can name a mismatch of the statistics and end with the words that all layers pass.\<close>

theorem passes_with_stats_mismatch:
  "result_Pass r \<Longrightarrow> \<not> st_Match (dr_Stats r) \<Longrightarrow> {cross @ '' Stats: MISMATCH'', all_pass} \<subseteq> set (PrintResult r)"
  by (simp add: PrintResult_def stats_lines_def)

lemma fixed_text_demo: "fixed_text 4 (1 / 8) = ''0.1250''"
proof -
  have "round_half_even (\<bar>1 / 8\<bar> * 10 ^ 4) = 1250" by (simp add: round_half_even_def Let_def)
  moreover have "show_nat 1250 = ''1250''" "show_nat 0 = ''0''" by (simp_all add: show_nat.simps digit_char_def char_of_def bit_0)
  ultimately show ?thesis by (simp add: fixed_text_def Let_def)
qed

end
