(* ===== verification/Slog_Test.thy ===== *)
theory Slog_Test
  imports Slog_Handler Go_Float
begin

section \<open>slog-gcp/sloggcptest: log lines in tests\<close>

text \<open>
  \<open>src/go/slog-gcp/sloggcptest/sloggcptest.go\<close>: the buffer that captures a log, the logger that writes to it, the parser of its lines and the assertions on
  them. \<open>json.Unmarshal\<close> into a map is the parameter \<open>unmarshal\<close>, None for an error; an assertion gives the message of \<open>t.Errorf\<close>, None when it holds.
  The mutex makes each operation of the buffer one step.
\<close>

subsection \<open>The buffer\<close>

definition buffer_Write :: "string \<Rightarrow> string \<Rightarrow> nat \<times> string" where
  "buffer_Write p buf = (length p, buf @ p)"

definition buffer_String :: "string \<Rightarrow> string" where "buffer_String buf = buf"
definition buffer_Reset :: "string \<Rightarrow> string" where "buffer_Reset buf = []"
definition buffer_Bytes :: "string \<Rightarrow> string" where "buffer_Bytes buf = buf"

text \<open>\<open>NewTestLogger\<close>: the JSON handler at the default level, without the source position.\<close>

definition NewTestLogger :: "('v json_handler, 'c) slog_handler option \<times> string" where
  "NewTestLogger = (fst (NewHandler (\<lambda>w. ([], w)) (Some ((json_new (FixedLevel 0))\<lparr>jh_addSource := False\<rparr>)) None ''test-project'' [WithEventID False] ()), [])"

subsection \<open>Entries\<close>

datatype json_any = JNil | JBool bool | JFloat float64 | JText string | JSlice "json_any list" | JMap "(string \<times> json_any) list"

type_synonym json_entry_map = "string \<rightharpoonup> json_any"

definition LogEntries :: "(string \<Rightarrow> json_entry_map option) \<Rightarrow> string \<Rightarrow> json_entry_map list" where
  "LogEntries unmarshal buf =
     concat (map (\<lambda>line. if line = [] then [] else (case unmarshal line of None \<Rightarrow> [] | Some entry \<Rightarrow> [entry])) (split_on (CHR 0x0A) (trim_space buf)))"

definition has_text :: "string \<Rightarrow> (string \<Rightarrow> bool) \<Rightarrow> json_entry_map \<Rightarrow> bool" where
  "has_text key p entry = (case entry key of Some (JText v) \<Rightarrow> p v | _ \<Rightarrow> False)"

definition AssertLogContains :: "json_entry_map list \<Rightarrow> string \<Rightarrow> string \<Rightarrow> string option" where
  "AssertLogContains entries key want =
     (if list_ex (has_text key (\<lambda>v. v = want)) entries then None else Some (''no log entry with '' @ key @ ''='' @ go_quote want))"

definition AssertLogLevel :: "json_entry_map list \<Rightarrow> string \<Rightarrow> string option" where
  "AssertLogLevel entries want = AssertLogContains entries ''severity'' want"

definition AssertLogCount :: "json_entry_map list \<Rightarrow> int \<Rightarrow> string option" where
  "AssertLogCount entries want =
     (if int (length entries) \<noteq> want then Some (''got '' @ show_int (int (length entries)) @ '' log entries, want '' @ show_int want) else None)"

definition AssertLogContainsSubstring :: "json_entry_map list \<Rightarrow> string \<Rightarrow> string \<Rightarrow> string option" where
  "AssertLogContainsSubstring entries key want =
     (if list_ex (has_text key (\<lambda>v. str_contains v want)) entries then None
      else Some (''no log entry with '' @ key @ '' containing '' @ go_quote want))"

text \<open>A value that a test wants: one of the types of a decoded value, or of another type \<open>'o\<close> with its text.\<close>

datatype 'o wanted = WantSame json_any | WantOther 'o

text \<open>Go's \<open>==\<close> on two interface values: of different types they differ; two maps or two slices cannot be compared, which panics (None).\<close>

fun any_equal :: "json_any \<Rightarrow> 'o wanted \<Rightarrow> bool option" where
  "any_equal v (WantOther w) = Some False"
| "any_equal (JSlice xs) (WantSame (JSlice ys)) = None"
| "any_equal (JMap m) (WantSame (JMap k)) = None"
| "any_equal (JFloat x) (WantSame (JFloat y)) = Some (feq x y)"
| "any_equal v (WantSame w) = Some (v = w)"

text \<open>The loop stops at the first entry that has the value; \<open>show\<close> is the verb \<open>%v\<close>. None is a panic.\<close>

fun AssertLogField :: "('o wanted \<Rightarrow> string) \<Rightarrow> json_entry_map list \<Rightarrow> string \<Rightarrow> 'o wanted \<Rightarrow> string option option" where
  "AssertLogField show_any [] key want = Some (Some (''no log entry with '' @ key @ ''='' @ show_any want))"
| "AssertLogField show_any (entry # es) key want =
     (case entry key of
        None \<Rightarrow> AssertLogField show_any es key want
      | Some v \<Rightarrow> (case any_equal v want of None \<Rightarrow> None | Some True \<Rightarrow> Some None | Some False \<Rightarrow> AssertLogField show_any es key want))"

subsection \<open>What the helpers see\<close>

text \<open>Lines of a log that are written one by one are the entries that the parser gives back.\<close>

definition log_line :: "string \<Rightarrow> bool" where
  "log_line l \<longleftrightarrow> l \<noteq> [] \<and> CHR 0x0A \<notin> set l \<and> \<not> is_space (hd l) \<and> \<not> is_space (last l)"

lemma lines_as_join:
  "ls \<noteq> [] \<Longrightarrow> concat (map (\<lambda>l. l @ [CHR 0x0A]) ls) = join_with [CHR 0x0A] ls @ [CHR 0x0A]"
  by (induction "[CHR 0x0A]" ls rule: join_with.induct) auto

lemma join_lines_ends:
  "ls \<noteq> [] \<Longrightarrow> list_all log_line ls \<Longrightarrow>
     join_with [CHR 0x0A] ls \<noteq> [] \<and> \<not> is_space (hd (join_with [CHR 0x0A] ls)) \<and> \<not> is_space (last (join_with [CHR 0x0A] ls))"
  by (induction "[CHR 0x0A]" ls rule: join_with.induct) (auto simp: log_line_def)

lemma trim_final_newline:
  assumes "s \<noteq> []" "\<not> is_space (hd s)" "\<not> is_space (last s)"
  shows "trim_space (s @ [CHR 0x0A]) = s"
proof -
  have "dropWhile is_space (s @ [CHR 0x0A]) = s @ [CHR 0x0A]" using assms(1,2) by (intro dropWhile_hd_not) simp
  moreover have "dropWhile is_space (rev (s @ [CHR 0x0A])) = rev s" using assms(1,3) by (simp add: is_space_def dropWhile_hd_not hd_rev)
  ultimately show ?thesis by (simp add: trim_space_def)
qed

theorem log_entries_of_lines:
  assumes "list_all log_line ls"
  shows "LogEntries unmarshal (concat (map (\<lambda>l. l @ [CHR 0x0A]) ls)) = List.map_filter unmarshal ls"
proof (cases "ls = []")
  case True
  then show ?thesis by (simp add: LogEntries_def trim_space_def map_filter_simps)
next
  case False
  have "split_on (CHR 0x0A) (join_with [CHR 0x0A] ls) = ls"
    using assms by (intro split_on_join_with [OF False]) (auto simp: list_all_iff log_line_def)
  then have "LogEntries unmarshal (concat (map (\<lambda>l. l @ [CHR 0x0A]) ls))
      = concat (map (\<lambda>line. if line = [] then [] else (case unmarshal line of None \<Rightarrow> [] | Some entry \<Rightarrow> [entry])) ls)"
    unfolding LogEntries_def lines_as_join [OF False] using trim_final_newline join_lines_ends [OF False assms] by simp
  also have "\<dots> = List.map_filter unmarshal ls"
    using assms by (induction ls) (auto simp: map_filter_simps log_line_def split: option.split)
  finally show ?thesis .
qed

text \<open>Logging never makes an assertion fail that held: a buffer only grows, and an entry once found stays.\<close>

lemma contains_keeps: "AssertLogContains es key want = None \<Longrightarrow> AssertLogContains (es @ fs) key want = None"
  by (simp add: AssertLogContains_def split: if_splits)

lemma field_keeps: "AssertLogField sh es key want = Some None \<Longrightarrow> AssertLogField sh (es @ fs) key want = Some None"
  by (induction es) (auto split: option.splits bool.splits)

text \<open>A number in JSON is a \<open>float64\<close>, so that an assertion with an integer of Go never holds; one with a map panics at the first entry that has a map there.\<close>

lemma field_other_type: "AssertLogField sh es key (WantOther w) = Some (Some (''no log entry with '' @ key @ ''='' @ sh (WantOther w)))"
  by (induction es) (auto split: option.split)

lemma field_map_panics: "entry key = Some (JMap m) \<Longrightarrow> AssertLogField sh (entry # es) key (WantSame (JMap k)) = None"
  by simp

text \<open>The test logger adds no field of its own to a record.\<close>

lemma test_logger_plain:
  assumes "fst (NewTestLogger :: ('v json_handler, 'c) slog_handler option \<times> string) = Some h"
  shows "fst (sh_Handle json_ops handle pid h ctx r seq w) = handle (sh_inner h) r w"
  using assms by (auto simp: NewTestLogger_def NewHandler_def WithEventID_def sh_Handle_def reservedAttrs_def)

end
