(* ===== verification/Google_Constructors.thy ===== *)
theory Google_Constructors
  imports Google_Cloud Sheets_Service
begin

section \<open>google: the constructors of the services\<close>

text \<open>
  \<open>New\<close> of \<open>src/go/google/{resourcemanager,serviceusage}/service.go\<close> and of \<open>src/go/google/workspace/{sheets,drive}/service.go\<close>. Building the
  client of an API from options is a callback over the outside world; a client of an API is the record of its calls. The logger, which is replaced when it
  is nil, is left out as all log lines are.
\<close>

record poll_config =
  pc_PollInterval :: int
  pc_MaxAttempts :: int

record ('x, 'w) crm_api =
  crm_get :: "string \<Rightarrow> 'w \<Rightarrow> 'x err option \<times> 'w"
  crm_create :: "crm_project \<Rightarrow> 'w \<Rightarrow> 'x err option \<times> 'w"

record ('x, 'w) billing_api =
  bil_get :: "string \<Rightarrow> 'w \<Rightarrow> ('x err + billing_info) \<times> 'w"
  bil_update :: "string \<Rightarrow> string \<Rightarrow> 'w \<Rightarrow> 'x err option \<times> 'w"

record ('x, 'w) usage_api =
  us_list :: "string \<Rightarrow> string \<Rightarrow> 'w \<Rightarrow> ('x err + string option list \<times> string) \<times> 'w"
  us_enable :: "string \<Rightarrow> string list \<Rightarrow> 'w \<Rightarrow> ('x err + su_operation) \<times> 'w"
  us_operation :: "string \<Rightarrow> 'w \<Rightarrow> ('x err + su_operation) \<times> 'w"

type_synonym ('o, 'a, 'x, 'w) client_maker = "'o \<Rightarrow> 'w \<Rightarrow> ('x err + 'a) \<times> 'w"

definition rm_New :: "'x foreign \<Rightarrow> (int \<Rightarrow> 'w \<Rightarrow> ctx_error option \<times> 'w) \<Rightarrow> ('o, ('x, 'w) crm_api, 'x, 'w) client_maker
    \<Rightarrow> ('o, ('x, 'w) billing_api, 'x, 'w) client_maker \<Rightarrow> poll_config \<Rightarrow> ('o, ('x, 'w) rm_service, 'x, 'w) client_maker" where
  "rm_New ops wait_fn crm_NewService billing_NewService cfg clientOpts w =
     (case poll_settings rm_defaultMaxAttempts (pc_PollInterval cfg) (pc_MaxAttempts cfg) of (pollInterval, maxAttempts) \<Rightarrow>
      (case crm_NewService clientOpts w of
         (Inl e, w1) \<Rightarrow> (Inl (wrapf ''resourcemanager: create CRM client: '' e), w1)
       | (Inr crm, w1) \<Rightarrow> (case billing_NewService clientOpts w1 of
            (Inl e, w2) \<Rightarrow> (Inl (wrapf ''resourcemanager: create billing client: '' e), w2)
          | (Inr billing, w2) \<Rightarrow>
              (Inr \<lparr>rm_getProject = crm_get crm, rm_createProject = crm_create crm, rm_getBilling = bil_get billing, rm_updateBilling = bil_update billing,
                 rm_foreign = ops, rm_wait = wait_fn, rm_pollInterval = pollInterval, rm_maxAttempts = maxAttempts\<rparr>, w2))))"

definition su_New :: "(int \<Rightarrow> 'w \<Rightarrow> ctx_error option \<times> 'w) \<Rightarrow> ('o, ('x, 'w) usage_api, 'x, 'w) client_maker \<Rightarrow> poll_config
    \<Rightarrow> ('o, ('x, 'w) su_service, 'x, 'w) client_maker" where
  "su_New wait_fn usage_NewService cfg clientOpts w =
     (case poll_settings su_defaultMaxAttempts (pc_PollInterval cfg) (pc_MaxAttempts cfg) of (pollInterval, maxAttempts) \<Rightarrow>
      (case usage_NewService clientOpts w of
         (Inl e, w1) \<Rightarrow> (Inl (wrapf ''serviceusage: create client: '' e), w1)
       | (Inr usage, w1) \<Rightarrow>
           (Inr \<lparr>su_list = us_list usage, su_batchEnable = us_enable usage, su_getOperation = us_operation usage, su_wait = wait_fn,
              su_pollInterval = pollInterval, su_maxAttempts = maxAttempts\<rparr>, w1)))"

text \<open>The Sheets service goes on without Drive, the Drive service does not.\<close>

definition sheets_New :: "('o, 'a, 'x, 'w) client_maker \<Rightarrow> ('o, 'd, 'x, 'w) client_maker \<Rightarrow> ('o, 'a \<times> 'd option, 'x, 'w) client_maker" where
  "sheets_New sheets_NewService drive_NewService clientOpts w =
     (case sheets_NewService clientOpts w of
        (Inl e, w1) \<Rightarrow> (Inl (wrapf ''sheets: create sheets service: '' e), w1)
      | (Inr ss, w1) \<Rightarrow> (case drive_NewService clientOpts w1 of (Inl e, w2) \<Rightarrow> (Inr (ss, None), w2) | (Inr ds, w2) \<Rightarrow> (Inr (ss, Some ds), w2)))"

definition sheets_NewWithClients :: "'a \<Rightarrow> 'd option \<Rightarrow> 'a \<times> 'd option" where
  "sheets_NewWithClients sheetsSvc driveSvc = (sheetsSvc, driveSvc)"

definition drive_New :: "('o, 'd, 'x, 'w) client_maker \<Rightarrow> ('o, 'd, 'x, 'w) client_maker" where
  "drive_New drive_NewService clientOpts w =
     (case drive_NewService clientOpts w of (Inl e, w1) \<Rightarrow> (Inl (wrapf ''drive: create service: '' e), w1) | (Inr svc, w1) \<Rightarrow> (Inr svc, w1))"

text \<open>What the API client of the modelled operations is, for a service that \<open>New\<close> built: only whether Drive is there can change it.\<close>

definition with_drive :: "'a \<times> 'd option \<Rightarrow> ('o, 'x, 'w) client \<Rightarrow> ('o, 'x, 'w) client" where
  "with_drive s cl = cl\<lparr>cl_drive := (snd s \<noteq> None)\<rparr>"

subsection \<open>What a new service does\<close>

text \<open>A service always polls, at least once and at a positive interval.\<close>

lemma poll_settings_positive: "0 < d \<Longrightarrow> poll_settings d i a = (i', a') \<Longrightarrow> 0 < i' \<and> 0 < a'"
  by (auto simp: poll_settings_def defaultPollInterval_def second_def split: if_splits)

theorem new_services_poll:
  "rm_New ops wait_fn mk_crm mk_billing cfg opts w = (Inr s, w') \<Longrightarrow> 0 < rm_pollInterval s \<and> 0 < rm_maxAttempts s"
  "su_New wait_fn mk_usage cfg opts w = (Inr u, w') \<Longrightarrow> 0 < su_pollInterval u \<and> 0 < su_maxAttempts u"
proof -
  assume s: "rm_New ops wait_fn mk_crm mk_billing cfg opts w = (Inr s, w')"
  obtain i a where p: "poll_settings rm_defaultMaxAttempts (pc_PollInterval cfg) (pc_MaxAttempts cfg) = (i, a)" by fastforce
  from s have "rm_pollInterval s = i \<and> rm_maxAttempts s = a" unfolding rm_New_def p by (auto split: prod.splits sum.splits)
  then show "0 < rm_pollInterval s \<and> 0 < rm_maxAttempts s" using poll_settings_positive [OF _ p] by (simp add: rm_defaultMaxAttempts_def)
next
  assume u: "su_New wait_fn mk_usage cfg opts w = (Inr u, w')"
  obtain i a where p: "poll_settings su_defaultMaxAttempts (pc_PollInterval cfg) (pc_MaxAttempts cfg) = (i, a)" by fastforce
  from u have "su_pollInterval u = i \<and> su_maxAttempts u = a" unfolding su_New_def p by (auto split: prod.splits sum.splits)
  then show "0 < su_pollInterval u \<and> 0 < su_maxAttempts u" using poll_settings_positive [OF _ p] by (simp add: su_defaultMaxAttempts_def)
qed

text \<open>A failing Drive client never keeps a Sheets service from being built.\<close>

lemma sheets_New_without_drive:
  "mk_sheets opts w = (Inr ss, w1) \<Longrightarrow> \<exists>d w2. sheets_New mk_sheets mk_drive opts w = (Inr (ss, d), w2)"
  by (auto simp: sheets_New_def split: prod.split sum.split)

end
