(* ===== verification/Search_Index.thy ===== *)
theory Search_Index
  imports Privacy_Filter Go_Time Go_Float Go_Errors
begin

section \<open>discovery/search: the index and its contract\<close>

text \<open>
  \<open>src/go/discovery/search/{types,ports}.go\<close> and the contract test of \<open>src/go/discovery/search/searchtest/contract.go\<close>. An index is a record of
  operations over a state; no implementation is part of the repository. A subtest ends at its first fatal message; the result of the test is
  the list of all messages.
\<close>

definition KindCode :: string where "KindCode = ''code''"
definition KindDoc :: string where "KindDoc = ''doc''"
definition KindMemory :: string where "KindMemory = ''memory''"
definition KindEtching :: string where "KindEtching = ''etching''"
definition KindArtifact :: string where "KindArtifact = ''artifact''"
definition KindProto :: string where "KindProto = ''proto''"
definition KindConfig :: string where "KindConfig = ''config''"

record query =
  qu_Text :: string
  qu_Kinds :: "string list"
  qu_Workspaces :: "string list"
  qu_Limit :: int

record search_result =
  sr_Document :: document
  sr_Score :: float64
  sr_Snippets :: "string list"

record content =
  ct_URL :: string
  ct_Title :: string
  ct_Body :: string
  ct_FetchedAt :: go_time

record ('s, 'x) index_ops =
  ix_Index :: "document \<Rightarrow> 's \<Rightarrow> 'x err option \<times> 's"
  ix_BatchIndex :: "document list \<Rightarrow> 's \<Rightarrow> 'x err option \<times> 's"
  ix_Search :: "query \<Rightarrow> 's \<Rightarrow> ('x err + search_result list) \<times> 's"
  ix_Delete :: "string \<Rightarrow> 's \<Rightarrow> 'x err option \<times> 's"
  ix_Count :: "'s \<Rightarrow> ('x err + int) \<times> 's"

subsection \<open>The contract test\<close>

definition blank :: document where
  "blank = \<lparr>doc_ID = [], doc_Kind = [], doc_Source = [], doc_Path = [], doc_Language = [], doc_Title = [], doc_Content = [], doc_Metadata = Map.empty, doc_UpdatedAt = 0\<rparr>"

definition any_query :: query where "any_query = \<lparr>qu_Text = [], qu_Kinds = [], qu_Workspaces = [], qu_Limit = 0\<rparr>"

definition contract_doc :: document where
  "contract_doc = blank\<lparr>doc_ID := ''contract:1'', doc_Kind := KindDoc, doc_Source := ''test'', doc_Title := ''Contract Test Document'',
     doc_Content := ''This validates the Index port contract.''\<rparr>"

definition test_index_and_search :: "('s, 'x) index_ops \<Rightarrow> 's \<Rightarrow> string list" where
  "test_index_and_search idx s =
     (case ix_Index idx contract_doc s of
        (Some e, s1) \<Rightarrow> [''Index: '' @ err_text e]
      | (None, s1) \<Rightarrow> (case fst (ix_Search idx (any_query\<lparr>qu_Text := ''contract'', qu_Limit := 5\<rparr>) s1) of
          Inl e \<Rightarrow> [''Search: '' @ err_text e]
        | Inr results \<Rightarrow> if results = [] then [''Search should find indexed document''] else []))"

definition batch_docs :: "document list" where
  "batch_docs = [blank\<lparr>doc_ID := ''batch:1'', doc_Content := ''first document about testing''\<rparr>,
     blank\<lparr>doc_ID := ''batch:2'', doc_Content := ''second document about testing''\<rparr>]"

definition test_batch_and_count :: "('s, 'x) index_ops \<Rightarrow> 's \<Rightarrow> string list" where
  "test_batch_and_count idx s =
     (case ix_BatchIndex idx batch_docs s of
        (Some e, s1) \<Rightarrow> [''BatchIndex: '' @ err_text e]
      | (None, s1) \<Rightarrow> (case fst (ix_Count idx s1) of
          Inl e \<Rightarrow> [''Count: '' @ err_text e]
        | Inr n \<Rightarrow> if n \<noteq> - 1 \<and> n < 2 then [''Count should be >= 2 or -1, got '' @ show_int n] else []))"

definition test_delete :: "('s, 'x) index_ops \<Rightarrow> 's \<Rightarrow> string list" where
  "test_delete idx s =
     (case ix_Index idx (blank\<lparr>doc_ID := ''del:1'', doc_Content := ''to delete''\<rparr>) s of (_, s1) \<Rightarrow>
      (case fst (ix_Delete idx ''del:1'' s1) of Some e \<Rightarrow> [''Delete: '' @ err_text e] | None \<Rightarrow> []))"

definition test_empty_search :: "('s, 'x) index_ops \<Rightarrow> 's \<Rightarrow> string list" where
  "test_empty_search idx s =
     (case fst (ix_Search idx (any_query\<lparr>qu_Text := ''xyznonexistent999'', qu_Limit := 5\<rparr>) s) of
        Inl e \<Rightarrow> [''Search should not error on empty: '' @ err_text e]
      | Inr results \<Rightarrow> if results \<noteq> [] then [''expected 0 results, got '' @ show_nat (length results)] else [])"

definition kind_docs :: "document list" where
  "kind_docs = [blank\<lparr>doc_ID := ''kf:1'', doc_Kind := KindCode, doc_Content := ''func contract test code''\<rparr>,
     blank\<lparr>doc_ID := ''kf:2'', doc_Kind := KindDoc, doc_Content := ''contract test documentation''\<rparr>]"

text \<open>Results that come with an error are none.\<close>

definition test_kind_filter :: "('s, 'x) index_ops \<Rightarrow> 's \<Rightarrow> string list" where
  "test_kind_filter idx s =
     (case ix_BatchIndex idx kind_docs s of (_, s1) \<Rightarrow>
      (case fst (ix_Search idx (any_query\<lparr>qu_Text := ''contract'', qu_Kinds := [KindCode]\<rparr>) s1) of
         Inl e \<Rightarrow> []
       | Inr results \<Rightarrow> map (\<lambda>r. ''kind filter violated: got '' @ doc_Kind (sr_Document r) @ '', want code'')
           (filter (\<lambda>r. doc_Kind (sr_Document r) \<noteq> KindCode) results)))"

definition IndexContractTest :: "('s, 'x) index_ops \<Rightarrow> 's \<Rightarrow> string list" where
  "IndexContractTest idx new =
     test_index_and_search idx new @ test_batch_and_count idx new @ test_delete idx new @ test_empty_search idx new @ test_kind_filter idx new"

subsection \<open>What the contract asks of an index\<close>

text \<open>An index as a finite map from ids to documents: \<open>docs_of\<close> reads the map of a state that is \<open>ok\<close>, \<open>hits\<close> says which documents a text finds; a
  query gives documents of the map that it may give, and one at least when there is one.\<close>

definition wanted_by :: "(string \<Rightarrow> document \<Rightarrow> bool) \<Rightarrow> query \<Rightarrow> document \<Rightarrow> bool" where
  "wanted_by hits q d \<longleftrightarrow> hits (qu_Text q) d \<and> (qu_Kinds q = [] \<or> doc_Kind d \<in> set (qu_Kinds q))"

definition put_all :: "document list \<Rightarrow> (string \<rightharpoonup> document) \<Rightarrow> (string \<rightharpoonup> document)" where
  "put_all ds m = foldl (\<lambda>m d. m(doc_ID d \<mapsto> d)) m ds"

definition updates :: "('s \<Rightarrow> bool) \<Rightarrow> ('s \<Rightarrow> 'm) \<Rightarrow> ('s \<Rightarrow> 'x err option \<times> 's) \<Rightarrow> ('m \<Rightarrow> 'm) \<Rightarrow> bool" where
  "updates ok docs_of f g \<longleftrightarrow> (\<forall>s. ok s \<longrightarrow> (case f s of (e, s') \<Rightarrow> e = None \<and> ok s' \<and> docs_of s' = g (docs_of s)))"

definition answers :: "(string \<rightharpoonup> document) \<Rightarrow> (document \<Rightarrow> bool) \<Rightarrow> search_result list \<Rightarrow> bool" where
  "answers m p rs \<longleftrightarrow> (\<forall>r \<in> set rs. sr_Document r \<in> ran m \<and> p (sr_Document r)) \<and> ((\<exists>d \<in> ran m. p d) \<longrightarrow> rs \<noteq> [])"

definition map_index :: "('s \<Rightarrow> bool) \<Rightarrow> ('s \<Rightarrow> (string \<rightharpoonup> document)) \<Rightarrow> (string \<Rightarrow> document \<Rightarrow> bool) \<Rightarrow> ('s, 'x) index_ops \<Rightarrow> bool" where
  "map_index ok docs_of hits idx \<longleftrightarrow>
     (\<forall>d. updates ok docs_of (ix_Index idx d) (\<lambda>m. m(doc_ID d \<mapsto> d)))
     \<and> (\<forall>ds. updates ok docs_of (ix_BatchIndex idx ds) (put_all ds))
     \<and> (\<forall>i. updates ok docs_of (ix_Delete idx i) (\<lambda>m. m(i := None)))
     \<and> (\<forall>s. ok s \<longrightarrow> fst (ix_Count idx s) = Inr (int (card (dom (docs_of s)))))
     \<and> (\<forall>q s. ok s \<longrightarrow> qu_Workspaces q = [] \<longrightarrow> (\<exists>rs. fst (ix_Search idx q s) = Inr rs \<and> answers (docs_of s) (wanted_by hits q) rs))"

lemma updatesD: "updates ok docs_of f g \<Longrightarrow> ok s \<Longrightarrow> \<exists>s'. f s = (None, s') \<and> ok s' \<and> docs_of s' = g (docs_of s)"
  unfolding updates_def by (cases "f s") auto

text \<open>Any index that is such a map, from an empty start, passes the test, if a word of the content finds a document.\<close>

theorem map_index_passes:
  assumes idx: "map_index ok docs_of hits idx" and new: "ok new" "docs_of new = Map.empty"
    and word: "hits ''contract'' contract_doc"
  shows "IndexContractTest idx new = []"
proof -
  have found: "\<exists>rs. fst (ix_Search idx q s) = Inr rs \<and> answers (docs_of s) (wanted_by hits q) rs" if "ok s" "qu_Workspaces q = []" for q s
    using idx that unfolding map_index_def by blast
  have put: "updates ok docs_of (ix_Index idx d) (\<lambda>m. m(doc_ID d \<mapsto> d))" "updates ok docs_of (ix_BatchIndex idx ds) (put_all ds)"
    "updates ok docs_of (ix_Delete idx i) (\<lambda>m. m(i := None))" for d ds i using idx by (simp_all add: map_index_def)
  have "test_index_and_search idx new = []"
  proof -
    obtain s1 where s1: "ix_Index idx contract_doc new = (None, s1)" "ok s1" "docs_of s1 = (docs_of new)(doc_ID contract_doc \<mapsto> contract_doc)"
      using updatesD [OF put(1) new(1)] by blast
    then have "contract_doc \<in> ran (docs_of s1)" by (auto intro: ranI)
    then show ?thesis using found [of s1 "any_query\<lparr>qu_Text := ''contract'', qu_Limit := 5\<rparr>"] s1 word
      by (auto simp: test_index_and_search_def any_query_def wanted_by_def answers_def)
  qed
  moreover have "test_batch_and_count idx new = []"
  proof -
    obtain s1 where s1: "ix_BatchIndex idx batch_docs new = (None, s1)" "ok s1" "docs_of s1 = put_all batch_docs (docs_of new)"
      using updatesD [OF put(2) new(1)] by blast
    have "dom (put_all batch_docs Map.empty) = {''batch:1'', ''batch:2''}" by (auto simp: put_all_def batch_docs_def)
    then have "card (dom (docs_of s1)) = 2" using s1(3) new(2) by simp
    moreover have "fst (ix_Count idx s1) = Inr (int (card (dom (docs_of s1))))" using idx s1(2) unfolding map_index_def by blast
    ultimately show ?thesis using s1(1) by (simp add: test_batch_and_count_def)
  qed
  moreover have "test_delete idx new = []"
  proof -
    obtain s1 where s1: "ix_Index idx (blank\<lparr>doc_ID := ''del:1'', doc_Content := ''to delete''\<rparr>) new = (None, s1)" "ok s1"
      using updatesD [OF put(1) new(1)] by blast
    obtain s2 where "ix_Delete idx ''del:1'' s1 = (None, s2)" using updatesD [OF put(3) s1(2)] by blast
    then show ?thesis using s1(1) by (simp add: test_delete_def)
  qed
  moreover have "test_empty_search idx new = []"
    using found [of new "any_query\<lparr>qu_Text := ''xyznonexistent999'', qu_Limit := 5\<rparr>"] new
    by (auto simp: test_empty_search_def any_query_def neq_Nil_conv answers_def)
  moreover have "test_kind_filter idx new = []"
  proof -
    obtain s1 where s1: "ix_BatchIndex idx kind_docs new = (None, s1)" "ok s1" using updatesD [OF put(2) new(1)] by blast
    then show ?thesis using found [of s1 "any_query\<lparr>qu_Text := ''contract'', qu_Kinds := [KindCode]\<rparr>"]
      by (auto simp: test_kind_filter_def any_query_def wanted_by_def filter_empty_conv answers_def)
  qed
  ultimately show ?thesis by (simp add: IndexContractTest_def)
qed

text \<open>An index in memory, which finds what holds the text.\<close>

definition memory_search :: "query \<Rightarrow> document list \<Rightarrow> search_result list" where
  "memory_search q ds = map (\<lambda>d. \<lparr>sr_Document = d, sr_Score = Fin 1, sr_Snippets = []\<rparr>)
     (filter (wanted_by (\<lambda>t d. str_contains (doc_Content d) t) q) ds)"

definition memory_index :: "(document list, unit) index_ops" where
  "memory_index =
     \<lparr>ix_Index = (\<lambda>d ds. (None, d # filter (\<lambda>e. doc_ID e \<noteq> doc_ID d) ds)),
      ix_BatchIndex = (\<lambda>ns ds. (None, foldl (\<lambda>ds d. d # filter (\<lambda>e. doc_ID e \<noteq> doc_ID d) ds) ds ns)),
      ix_Search = (\<lambda>q ds. (Inr (memory_search q ds), ds)),
      ix_Delete = (\<lambda>i ds. (None, filter (\<lambda>e. doc_ID e \<noteq> i) ds)),
      ix_Count = (\<lambda>ds. (Inr (int (length ds)), ds))\<rparr>"

lemma memory_index_is_map:
  "map_index (\<lambda>ds. distinct (map doc_ID ds)) (\<lambda>ds. map_of (map (\<lambda>d. (doc_ID d, d)) ds)) (\<lambda>t d. str_contains (doc_Content d) t) memory_index"
proof -
  let ?ok = "\<lambda>ds. distinct (map doc_ID ds)" and ?m = "\<lambda>ds. map_of (map (\<lambda>d. (doc_ID d, d)) ds)"
  have del: "?m (filter (\<lambda>e. doc_ID e \<noteq> i) ds) = (?m ds)(i := None)" for i ds by (induction ds) auto
  have ok_del: "?ok ds \<Longrightarrow> ?ok (filter (\<lambda>e. doc_ID e \<noteq> i) ds)" for i ds by (induction ds) auto
  have put: "?ok ds \<Longrightarrow> ?ok (d # filter (\<lambda>e. doc_ID e \<noteq> doc_ID d) ds) \<and> ?m (d # filter (\<lambda>e. doc_ID e \<noteq> doc_ID d) ds) = (?m ds)(doc_ID d \<mapsto> d)" for d ds
    using ok_del [of ds "doc_ID d"] by (auto simp: del)
  have all: "?ok ds \<Longrightarrow> ?ok (foldl (\<lambda>ds d. d # filter (\<lambda>e. doc_ID e \<noteq> doc_ID d) ds) ds ns)
      \<and> ?m (foldl (\<lambda>ds d. d # filter (\<lambda>e. doc_ID e \<noteq> doc_ID d) ds) ds ns) = put_all ns (?m ds)" for ns ds
  proof (induction ns arbitrary: ds)
    case (Cons n ns)
    note p = put [OF Cons.prems, of n]
    show ?case using Cons.IH [OF conjunct1 [OF p]] unfolding conjunct2 [OF p] by (simp only: foldl.simps put_all_def)
  qed (simp add: put_all_def)
  have rn: "ran (?m ds) = set ds" if "?ok ds" for ds
    using that ran_distinct [of "map (\<lambda>d. (doc_ID d, d)) ds"] by (simp add: comp_def image_image)
  have cd: "card (dom (?m ds)) = length ds" if "?ok ds" for ds
    using distinct_card [OF that] by (simp add: dom_map_of_conv_image_fst image_image)
  have "answers (?m ds) (wanted_by (\<lambda>t d. str_contains (doc_Content d) t) q) (memory_search q ds)" if "?ok ds" for q ds
    unfolding answers_def rn [OF that] by (auto simp: memory_search_def filter_empty_conv)
  then show ?thesis unfolding map_index_def updates_def
    using put all ok_del by (simp add: memory_index_def del cd) blast
qed

lemma contract_has_word: "str_contains (doc_Content contract_doc) ''contract''"
  unfolding str_contains_def contract_doc_def by code_simp

lemma memory_index_passes: "IndexContractTest memory_index [] = []"
  using map_index_passes [OF memory_index_is_map _ _ contract_has_word, of "[]"] by simp

text \<open>The test also passes an index that never deletes: it does not look for the document after Delete.\<close>

lemma undeleting_index_passes: "IndexContractTest (memory_index\<lparr>ix_Delete := (\<lambda>i ds. (None, ds))\<rparr>) [] = []"
  by code_simp

end
