(* ===== verification/Filelock_Progress.thy ===== *)
theory Filelock_Progress
  imports Filelock
begin

section \<open>platform/coordination/filelock: an abandoned window is taken over\<close>

text \<open>
  What a caller of \<open>Acquire\<close> can do by itself in theory Filelock's step relation, while nobody else moves: enter a free window, and, with \<open>StaleAfter\<close>
  set, enter one whose holder is gone.
\<close>

definition own_steps :: "(string \<Rightarrow> holder option) \<Rightarrow> fl_options \<Rightarrow> nat \<Rightarrow> fl_state \<Rightarrow> fl_state \<Rightarrow> bool" where
  "own_steps parse_holder opts c = (\<lambda>s s'. fl_step parse_holder opts s c s')\<^sup>*\<^sup>*"

lemma own_refl: "own_steps p opts c s s"
  by (simp add: own_steps_def)

lemma own_step: "own_steps p opts c s s1 \<Longrightarrow> fl_step p opts s1 c s2 \<Longrightarrow> own_steps p opts c s s2"
  unfolding own_steps_def by (rule rtranclp.rtrancl_into_rtrancl)

lemma own_trans: "own_steps p opts c s s1 \<Longrightarrow> own_steps p opts c s1 s2 \<Longrightarrow> own_steps p opts c s s2"
  unfolding own_steps_def by (rule rtranclp_trans)

subsection \<open>Names and inodes are finite\<close>

definition few_names :: "fl_state \<Rightarrow> bool" where
  "few_names s \<longleftrightarrow> finite (dom (dir (fl_fs s)))"

lemma few_names_step: "fl_step p opts s c s' \<Longrightarrow> few_names s \<Longrightarrow> few_names s'"
  by (induction rule: fl_step.induct) (auto simp: few_names_def fs_link_Some fs_rename_Some elim!: reclaim_step.cases)

lemma few_names_run: "fl_run p opts s n s' \<Longrightarrow> few_names s \<Longrightarrow> few_names s'"
  by (induction rule: fl_run.induct) (auto dest: few_names_step)

lemma few_names_start: "few_names fl_start"
  by (simp add: few_names_def fl_start_def)

lemma free_inode: "finite (dom (dir f)) \<Longrightarrow> \<exists>i. fresh_inode i f"
  using ex_new_if_finite [OF infinite_UNIV_nat finite_ran] by (auto simp: fresh_inode_def)

lemma free_tomb:
  assumes "finite (dom (dir f))" shows "\<exists>k. dir f (TombF k) = None"
proof (rule ccontr)
  assume "\<nexists>k. dir f (TombF k) = None"
  then have "range TombF \<subseteq> dom (dir f)" by auto
  moreover have "infinite (range TombF)" using finite_imageD [of TombF UNIV] by (auto simp: inj_on_def)
  ultimately show False using assms finite_subset by blast
qed

lemma next_fence_frame:
  "dir f' FenceF = dir f FenceF \<Longrightarrow> (\<And>j. dir f FenceF = Some j \<Longrightarrow> inodes f' j = inodes f j) \<Longrightarrow> next_fence f' = next_fence f"
  by (simp add: next_fence_def split: option.split)

lemma fresh_differs: "fresh_inode i f \<Longrightarrow> dir f nm = Some j \<Longrightarrow> j \<noteq> i"
  by (auto simp: fresh_inode_def ran_def)

subsection \<open>Entering a free window\<close>

lemma enters_free_window:
  assumes pc: "fl_pcs s c = Idle" and free: "dir (fl_fs s) LockF = None" and n: "next_fence (fl_fs s) = Some n" and fin: "few_names s"
  shows "\<exists>s' r. own_steps p opts c s s' \<and> fl_pcs s' c = Held r n \<and> fl_handed s' = (c, n) # fl_handed s"
proof -
  let ?f = "fl_fs s"
  obtain i where i: "fresh_inode i ?f" using fin free_inode by (auto simp: few_names_def)
  let ?r = "\<lparr>rec_ino = i, rec_raw = []\<rparr>"
  define f1 where "f1 = fs_create (TempF c) i [] (fl_now s) ?f"
  define f2 where "f2 = f1\<lparr>dir := (dir f1)(LockF \<mapsto> i)\<rparr>"
  define f3 where "f3 = fs_remove (TempF c) f2"
  define s1 where "s1 = set_pc c (Staged ?r) (s\<lparr>fl_fs := f1\<rparr>)"
  define s2 where "s2 = set_pc c (Linked ?r) (s1\<lparr>fl_fs := f2\<rparr>)"
  define s3 where "s3 = set_pc c (Unstaged ?r) (s2\<lparr>fl_fs := f3\<rparr>)"
  have 1: "fl_step p opts s c s1" unfolding s1_def f1_def by (rule fl_step.stage [OF pc i])
  have "fs_link (TempF c) LockF (fl_fs s1) = Some f2"
    by (simp add: fs_link_Some s1_def f2_def f1_def free)
  then have 2: "fl_step p opts s1 c s2" unfolding s2_def by (intro fl_step.link) (simp_all add: s1_def)
  have fs2: "fl_fs s2 = f2" "fl_pcs s2 c = Linked ?r" by (simp_all add: s2_def)
  have 3: "fl_step p opts s2 c s3" unfolding s3_def f3_def fs2(1) [symmetric] by (rule fl_step.unstage [OF fs2(2)])
  define s4 where "s4 = set_pc c (Entered ?r) s3"
  have 4: "fl_step p opts s3 c s4" unfolding s4_def by (rule fl_step.claimed) (simp add: s3_def)
  have fs4: "fl_fs s4 = f3" "fl_pcs s4 c = Entered ?r" by (simp_all add: s4_def s3_def)
  have "next_fence f3 = next_fence ?f"
    by (rule next_fence_frame) (auto simp: f3_def f2_def f1_def dest: fresh_differs [OF i])
  then have "next_fence (fl_fs s4) = Some n" using n fs4 by simp
  define s5 where "s5 = set_pc c (FenceRead ?r n) s4"
  have 5: "fl_step p opts s4 c s5" unfolding s5_def by (rule fl_step.fence_read [OF fs4(2)]) fact
  have "finite (dom (dir f3))" using fin by (simp add: f3_def f2_def f1_def few_names_def)
  then obtain j where j: "fresh_inode j (fl_fs s5)" using free_inode by (auto simp: s5_def fs4)
  define f6 where "f6 = fs_create (TempF c) j (fence_text n) (fl_now s5) (fl_fs s5)"
  define s6 where "s6 = set_pc c (FenceStaged ?r n) (s5\<lparr>fl_fs := f6\<rparr>)"
  have 6: "fl_step p opts s5 c s6" unfolding s6_def f6_def by (rule fl_step.fence_stage [OF _ j]) (simp add: s5_def)
  obtain f7 where "fs_rename (TempF c) FenceF (fl_fs s6) = Some f7" by (simp add: fs_rename_Some s6_def f6_def)
  then have 7: "fl_step p opts s6 c (set_pc c (FenceRenamed ?r n) (s6\<lparr>fl_fs := f7\<rparr>))" by (intro fl_step.fence_rename) (simp_all add: s6_def)
  define s7 where "s7 = set_pc c (FenceRenamed ?r n) (s6\<lparr>fl_fs := f7\<rparr>)"
  have 8: "fl_step p opts s7 c (set_pc c (Held ?r n) (s7\<lparr>fl_handed := (c, n) # fl_handed s7\<rparr>))"
    by (rule fl_step.acquired) (simp add: s7_def)
  have "own_steps p opts c s (set_pc c (Held ?r n) (s7\<lparr>fl_handed := (c, n) # fl_handed s7\<rparr>))"
    by (intro own_step [OF _ 8] own_step [OF _ 7 [folded s7_def]] own_step [OF _ 6] own_step [OF _ 5] own_step [OF _ 4] own_step [OF _ 3] own_step [OF _ 2] own_step [OF _ 1] own_refl)
  moreover have "fl_handed s7 = fl_handed s" by (simp add: s7_def s6_def s5_def s4_def s3_def s2_def s1_def)
  ultimately show ?thesis by (intro exI conjI) (assumption, simp_all)
qed

subsection \<open>Taking an abandoned record aside\<close>

lemma judgeD:
  assumes "judge p opts now f = Some r"
  obtains i nd where "dir f LockF = Some i" "inodes f i = Some nd" "r = \<lparr>rec_ino = i, rec_raw = i_content nd\<rparr>"
  using assms by (auto simp: judge_def readHolder_def Let_def split: if_splits option.splits)

lemma clears_abandoned_record:
  assumes pc: "fl_pcs s c = Contended" and stale: "judge p opts (fl_now s) (fl_fs s) = Some r" and fin: "few_names s"
  shows "\<exists>s'. own_steps p opts c s s' \<and> fl_pcs s' c = Idle \<and> dir (fl_fs s') LockF = None \<and> next_fence (fl_fs s') = next_fence (fl_fs s)
    \<and> few_names s' \<and> fl_handed s' = fl_handed s"
proof -
  let ?f = "fl_fs s"
  obtain i nd where lock: "dir ?f LockF = Some i" "inodes ?f i = Some nd" "r = \<lparr>rec_ino = i, rec_raw = i_content nd\<rparr>" by (rule judgeD [OF stale])
  obtain j where j: "fresh_inode j ?f" using fin free_inode by (auto simp: few_names_def)
  obtain k where k: "dir ?f (TombF k) = None" using fin free_tomb by (auto simp: few_names_def)
  have ij: "i \<noteq> j" using fresh_differs [OF j lock(1)] .
  define s1 where "s1 = set_pc c (Judged r) s"
  have 1: "fl_step p opts s c s1" unfolding s1_def by (intro fl_step.reclaim reclaim_step.judged pc stale)
  define f2 where "f2 = fs_create (TombF k) j [] (fl_now s1) (fl_fs s1)"
  define s2 where "s2 = set_pc c (TombReady r k) (s1\<lparr>fl_fs := f2\<rparr>)"
  have 2: "fl_step p opts s1 c s2"
    unfolding s2_def f2_def by (rule fl_step.reclaim, rule reclaim_step.tomb) (use j k in \<open>simp_all add: s1_def\<close>)
  define f3 where "f3 = f2\<lparr>dir := (dir f2)(TombF k \<mapsto> i, LockF := None)\<rparr>"
  define s3 where "s3 = set_pc c (Moved r k) (s2\<lparr>fl_fs := f3\<rparr>)"
  have 3: "fl_step p opts s2 c s3"
    unfolding s3_def by (rule fl_step.reclaim, rule reclaim_step.set_aside) (simp_all add: s2_def fs_rename_Some f3_def f2_def s1_def lock)
  define s4 where "s4 = set_pc c (TombRubbish k) s3"
  have "rec_same r (TombF k) f3" using ij lock by (simp add: rec_same_def f3_def f2_def s1_def)
  then have 4: "fl_step p opts s3 c s4"
    unfolding s4_def by (intro fl_step.reclaim reclaim_step.moved_judged) (simp_all add: s3_def)
  define s5 where "s5 = set_pc c Polling (s4\<lparr>fl_fs := fs_remove (TombF k) (fl_fs s4)\<rparr>)"
  have 5: "fl_step p opts s4 c s5"
    unfolding s5_def by (intro fl_step.reclaim reclaim_step.tomb_removed) (simp add: s4_def)
  have 6: "fl_step p opts s5 c (set_pc c Idle s5)" by (rule fl_step.poll) (simp add: s5_def)
  have own: "own_steps p opts c s (set_pc c Idle s5)"
    by (intro own_step [OF _ 6] own_step [OF _ 5] own_step [OF _ 4] own_step [OF _ 3] own_step [OF _ 2] own_step [OF _ 1] own_refl)
  have fs5: "dir (fl_fs s5) = (dir ?f)(LockF := None)" "inodes (fl_fs s5) = (inodes ?f)(j \<mapsto> \<lparr>i_content = [], i_mtime = fl_now s1\<rparr>)"
    using k by (auto simp: s5_def s4_def s3_def f3_def f2_def s1_def)
  have "next_fence (fl_fs s5) = next_fence ?f" by (rule next_fence_frame) (auto simp: fs5 dest: fresh_differs [OF j])
  moreover have "few_names s5" using fin by (simp add: few_names_def fs5)
  moreover have "fl_handed s5 = fl_handed s" by (simp add: s5_def s4_def s3_def s2_def s1_def)
  ultimately show ?thesis using own by (intro exI [of _ "set_pc c Idle s5"]) (simp add: fs5 few_names_def)
qed

subsection \<open>Properties\<close>

text \<open>C2. With a reclaim age set, a window that its holder left behind does not block for ever: in every state that callers and crashes can lead to, a caller
  that found the window taken, and reads in it a record that is older than the age, can by its own steps alone, while nobody else moves, set that record aside,
  claim the window and be handed the next fence, as long as the counter can be read. A window that is free is entered in the same way.\<close>
theorem abandoned_window_is_taken_over:
  assumes "fl_run parse_holder opts fl_start n s" and "next_fence (fl_fs s) = Some fence"
    and "fl_pcs s c = Contended \<and> 0 < StaleAfter opts \<and> readHolder parse_holder LockF (fl_fs s) = Some (h, judged) \<and> StaleAfter opts < Holder_Age (fl_now s) h
      \<or> fl_pcs s c = Idle \<and> dir (fl_fs s) LockF = None"
  shows "\<exists>s' r. own_steps parse_holder opts c s s' \<and> fl_pcs s' c = Held r fence \<and> fl_handed s' = (c, fence) # fl_handed s"
proof -
  have few: "few_names s" by (rule few_names_run [OF assms(1) few_names_start])
  obtain s1 where s1: "own_steps parse_holder opts c s s1" "fl_pcs s1 c = Idle" "dir (fl_fs s1) LockF = None" "next_fence (fl_fs s1) = Some fence" "few_names s1"
      "fl_handed s1 = fl_handed s"
  proof (cases "fl_pcs s c = Idle")
    case True
    then show ?thesis using that [of s] assms(2,3) few own_refl by auto
  next
    case False
    then have "fl_pcs s c = Contended" "judge parse_holder opts (fl_now s) (fl_fs s) = Some judged" using assms(3) by (auto simp: judge_def)
    from clears_abandoned_record [OF this few] show ?thesis using that assms(2) by fastforce
  qed
  from enters_free_window [OF s1(2-5)] obtain s' r where "own_steps parse_holder opts c s1 s'" "fl_pcs s' c = Held r fence" "fl_handed s' = (c, fence) # fl_handed s1"
    by blast
  then show ?thesis using own_trans [OF s1(1)] s1(6) by (intro exI [of _ s'] exI [of _ r]) simp
qed

text \<open>Caller 7 linked its record and died; caller 8 finds it 99 nanoseconds old, where 5 are allowed.\<close>

definition demo_stale :: fl_options where
  "demo_stale = \<lparr>PollMin = 0, PollMax = 0, StaleAfter = 5\<rparr>"

definition demo_parse :: "string \<Rightarrow> holder option" where
  "demo_parse raw = Some \<lparr>h_PID = 7, h_Host = ''a'', h_Since = \<lparr>tm_nano = 1, tm_offset = 0\<rparr>, h_Purpose = []\<rparr>"

theorem abandoned_window_is_taken_over_witness:
  "\<exists>s s' r r'. fl_run demo_parse demo_stale fl_start 6 s \<and> fl_pcs s 7 = Linked r \<and> own_steps demo_parse demo_stale 8 s s' \<and> fl_pcs s' 8 = Held r' 1"
proof -
  let ?step = "fl_step demo_parse demo_stale" and ?r = "\<lparr>rec_ino = 0, rec_raw = ''x''\<rparr>" and ?q = "\<lparr>rec_ino = 1, rec_raw = ''y''\<rparr>"
  define s1 where "s1 = set_pc 7 (Staged ?r) (fl_start\<lparr>fl_fs := fs_create (TempF 7) 0 ''x'' (fl_now fl_start) (fl_fs fl_start)\<rparr>)"
  define s2 where "s2 = set_pc 7 (Linked ?r) (s1\<lparr>fl_fs := fl_fs s1\<lparr>dir := (dir (fl_fs s1))(LockF \<mapsto> 0)\<rparr>\<rparr>)"
  define s3 where "s3 = s2\<lparr>fl_now := 100\<rparr>"
  define s4 where "s4 = set_pc 8 (Staged ?q) (s3\<lparr>fl_fs := fs_create (TempF 8) 1 ''y'' (fl_now s3) (fl_fs s3)\<rparr>)"
  define s5 where "s5 = set_pc 8 Refused s4"
  define s6 where "s6 = set_pc 8 Contended (s5\<lparr>fl_fs := fs_remove (TempF 8) (fl_fs s5)\<rparr>)"
  have 1: "?step fl_start 7 s1" unfolding s1_def by (rule fl_step.stage) (simp_all add: fl_start_def fresh_inode_def)
  have 2: "?step s1 7 s2" unfolding s2_def by (rule fl_step.link) (simp_all add: s1_def fs_link_Some fl_start_def)
  have 3: "?step s2 7 s3" unfolding s3_def by (rule fl_step.tick) (simp add: s2_def s1_def fl_start_def)
  have 4: "?step s3 8 s4" unfolding s4_def
    by (rule fl_step.stage) (simp_all add: s3_def s2_def s1_def fl_start_def fresh_inode_def ran_def)
  have 5: "?step s4 8 s5" unfolding s5_def by (rule fl_step.link_refused) (simp add: s4_def)
  have 6: "?step s5 8 s6" unfolding s6_def by (rule fl_step.refused_unstage) (simp add: s5_def)
  have run: "fl_run demo_parse demo_stale fl_start 6 s6"
    using fl_run.step [OF fl_run.step [OF fl_run.step [OF fl_run.step [OF fl_run.step [OF fl_run.step [OF fl_run.start 1] 2] 3] 4] 5] 6]
    by (simp add: numeral_eq_Suc)
  have dirs: "dir (fl_fs s6) LockF = Some 0" "dir (fl_fs s6) FenceF = None" "inodes (fl_fs s6) 0 = Some \<lparr>i_content = ''x'', i_mtime = 0\<rparr>"
    "fl_now s6 = 100" "fl_pcs s6 8 = Contended" "fl_pcs s6 7 = Linked ?r"
    by (simp_all add: s6_def s5_def s4_def s3_def s2_def s1_def fl_start_def)
  have holder: "readHolder demo_parse LockF (fl_fs s6) = Some (the (demo_parse []), ?r)" "StaleAfter demo_stale < Holder_Age (fl_now s6) (the (demo_parse []))"
    by (simp_all add: demo_stale_def readHolder_def dirs demo_parse_def Holder_Age_def IsZero_def time_sub_def)
  then obtain s' r' where "own_steps demo_parse demo_stale 8 s6 s'" "fl_pcs s' 8 = Held r' 1"
    using abandoned_window_is_taken_over [OF run, of 1 8 "the (demo_parse [])" ?r] dirs by (auto simp: next_fence_def demo_stale_def)
  then show ?thesis using run dirs(6) by blast
qed

subsection \<open>Fences under reclaim\<close>

lemma other_callers_stay: "fl_step p opts s c s' \<Longrightarrow> d \<noteq> c \<Longrightarrow> fl_pcs s' d = fl_pcs s d"
  by (induction rule: fl_step.induct) (auto elim!: reclaim_step.cases)

lemma own_others: "own_steps p opts c s s' \<Longrightarrow> d \<noteq> c \<Longrightarrow> fl_pcs s' d = fl_pcs s d"
  unfolding own_steps_def by (induction rule: rtranclp_induct) (auto dest: other_callers_stay)

lemma own_run: "own_steps p opts c s s' \<Longrightarrow> fl_run p opts s0 n s \<Longrightarrow> \<exists>m. fl_run p opts s0 m s'"
  unfolding own_steps_def by (induction rule: rtranclp_induct) (auto intro: fl_run.step)

text \<open>A caller that has read the counter always finishes with the fence it read, unless a call fails.\<close>

lemma finishes_with_read_fence:
  assumes "fl_pcs s c = FenceRead r n" "few_names s"
  shows "\<exists>s'. own_steps p opts c s s' \<and> fl_pcs s' c = Held r n"
proof -
  obtain j where j: "fresh_inode j (fl_fs s)" using assms(2) free_inode by (auto simp: few_names_def)
  define f1 where "f1 = fs_create (TempF c) j (fence_text n) (fl_now s) (fl_fs s)"
  define s1 where "s1 = set_pc c (FenceStaged r n) (s\<lparr>fl_fs := f1\<rparr>)"
  have 1: "fl_step p opts s c s1" unfolding s1_def f1_def by (rule fl_step.fence_stage [OF assms(1) j])
  obtain f2 where "fs_rename (TempF c) FenceF (fl_fs s1) = Some f2" by (simp add: fs_rename_Some s1_def f1_def)
  then have 2: "fl_step p opts s1 c (set_pc c (FenceRenamed r n) (s1\<lparr>fl_fs := f2\<rparr>))" by (intro fl_step.fence_rename) (simp_all add: s1_def)
  define s2 where "s2 = set_pc c (FenceRenamed r n) (s1\<lparr>fl_fs := f2\<rparr>)"
  have 3: "fl_step p opts s2 c (set_pc c (Held r n) (s2\<lparr>fl_handed := (c, n) # fl_handed s2\<rparr>))" by (rule fl_step.acquired) (simp add: s2_def)
  have "own_steps p opts c s (set_pc c (Held r n) (s2\<lparr>fl_handed := (c, n) # fl_handed s2\<rparr>))"
    by (intro own_step [OF _ 3] own_step [OF _ 2 [folded s2_def]] own_step [OF _ 1] own_refl)
  then show ?thesis by (intro exI conjI) (assumption, simp)
qed

text \<open>Caller 7 claimed the window and read the counter; after its record is too old, caller 8 contends.\<close>

lemma slow_holder_and_contender:
  "\<exists>s r. fl_run demo_parse demo_stale fl_start 9 s \<and> fl_pcs s 7 = FenceRead r 1 \<and> fl_pcs s 8 = Contended
     \<and> judge demo_parse demo_stale (fl_now s) (fl_fs s) = Some r \<and> next_fence (fl_fs s) = Some 1"
proof -
  let ?step = "fl_step demo_parse demo_stale" and ?r = "\<lparr>rec_ino = 0, rec_raw = ''x''\<rparr>" and ?q = "\<lparr>rec_ino = 1, rec_raw = ''y''\<rparr>"
  define s1 where "s1 = set_pc 7 (Staged ?r) (fl_start\<lparr>fl_fs := fs_create (TempF 7) 0 ''x'' (fl_now fl_start) (fl_fs fl_start)\<rparr>)"
  define s2 where "s2 = set_pc 7 (Linked ?r) (s1\<lparr>fl_fs := fl_fs s1\<lparr>dir := (dir (fl_fs s1))(LockF \<mapsto> 0)\<rparr>\<rparr>)"
  define s3 where "s3 = set_pc 7 (Unstaged ?r) (s2\<lparr>fl_fs := fs_remove (TempF 7) (fl_fs s2)\<rparr>)"
  define s4 where "s4 = set_pc 7 (Entered ?r) s3"
  define s5 where "s5 = set_pc 7 (FenceRead ?r 1) s4"
  define s6 where "s6 = s5\<lparr>fl_now := 100\<rparr>"
  define s7 where "s7 = set_pc 8 (Staged ?q) (s6\<lparr>fl_fs := fs_create (TempF 8) 1 ''y'' (fl_now s6) (fl_fs s6)\<rparr>)"
  define s8 where "s8 = set_pc 8 Refused s7"
  define s9 where "s9 = set_pc 8 Contended (s8\<lparr>fl_fs := fs_remove (TempF 8) (fl_fs s8)\<rparr>)"
  have 1: "?step fl_start 7 s1" unfolding s1_def by (rule fl_step.stage) (simp_all add: fl_start_def fresh_inode_def)
  have 2: "?step s1 7 s2" unfolding s2_def by (rule fl_step.link) (simp_all add: s1_def fs_link_Some fl_start_def)
  have 3: "?step s2 7 s3" unfolding s3_def by (rule fl_step.unstage) (simp add: s2_def)
  have 4: "?step s3 7 s4" unfolding s4_def by (rule fl_step.claimed) (simp add: s3_def)
  have 5: "?step s4 7 s5" unfolding s5_def
    by (rule fl_step.fence_read) (simp_all add: s4_def s3_def s2_def s1_def fl_start_def next_fence_def)
  have 6: "?step s5 7 s6" unfolding s6_def by (rule fl_step.tick) (simp add: s5_def s4_def s3_def s2_def s1_def fl_start_def)
  have 7: "?step s6 8 s7" unfolding s7_def
    by (rule fl_step.stage) (simp_all add: s6_def s5_def s4_def s3_def s2_def s1_def fl_start_def fresh_inode_def ran_def)
  have 8: "?step s7 8 s8" unfolding s8_def by (rule fl_step.link_refused) (simp add: s7_def)
  have 9: "?step s8 8 s9" unfolding s9_def by (rule fl_step.refused_unstage) (simp add: s8_def)
  have own: "fl_run demo_parse demo_stale fl_start 9 s9"
    using fl_run.step [OF fl_run.step [OF fl_run.step [OF fl_run.step [OF fl_run.step [OF fl_run.step [OF fl_run.step [OF fl_run.step
      [OF fl_run.step [OF fl_run.start 1] 2] 3] 4] 5] 6] 7] 8] 9] by (simp add: numeral_eq_Suc)
  have dirs: "dir (fl_fs s9) LockF = Some 0" "dir (fl_fs s9) FenceF = None" "inodes (fl_fs s9) 0 = Some \<lparr>i_content = ''x'', i_mtime = 0\<rparr>"
    "fl_now s9 = 100" "fl_pcs s9 8 = Contended" "fl_pcs s9 7 = FenceRead ?r 1"
    by (simp_all add: s9_def s8_def s7_def s6_def s5_def s4_def s3_def s2_def s1_def fl_start_def)
  have stale: "judge demo_parse demo_stale (fl_now s9) (fl_fs s9) = Some ?r"
    by (simp add: judge_def demo_stale_def readHolder_def dirs demo_parse_def Holder_Age_def IsZero_def time_sub_def)
  show ?thesis using own stale dirs by (intro exI [of _ s9] exI [of _ ?r]) (simp add: next_fence_def)
qed

text \<open>A window that is reclaimed from a caller between its claim and its fence gives two callers the same fence: the slow one has read the counter, the next one
  reads it too, and both are handed its successor. So a fence may repeat when a reclaim age is set, and the two callers inside cannot be told apart by it.\<close>

theorem fences_repeat_under_reclaim:
  "\<exists>n s r r'. fl_run demo_parse demo_stale fl_start n s \<and> fl_pcs s 7 = Held r 1 \<and> fl_pcs s 8 = Held r' 1"
proof -
  obtain s9 r where run: "fl_run demo_parse demo_stale fl_start 9 s9" and slow: "fl_pcs s9 7 = FenceRead r 1" and cont: "fl_pcs s9 8 = Contended"
    and stale: "judge demo_parse demo_stale (fl_now s9) (fl_fs s9) = Some r" and fence: "next_fence (fl_fs s9) = Some 1"
    using slow_holder_and_contender by blast
  obtain t1 where t1: "own_steps demo_parse demo_stale 8 s9 t1" "fl_pcs t1 8 = Idle" "dir (fl_fs t1) LockF = None" "next_fence (fl_fs t1) = Some 1" "few_names t1"
    using clears_abandoned_record [OF cont stale few_names_run [OF run few_names_start]] fence by auto
  obtain t2 r' where t2: "own_steps demo_parse demo_stale 8 t1 t2" "fl_pcs t2 8 = Held r' 1"
    using enters_free_window [OF t1(2-5)] by blast
  have both: "own_steps demo_parse demo_stale 8 s9 t2" by (rule own_trans [OF t1(1) t2(1)])
  obtain n2 where n2: "fl_run demo_parse demo_stale fl_start n2 t2" using own_run [OF both run] by blast
  have "fl_pcs t2 7 = FenceRead r 1" using own_others [OF both, of 7] slow by simp
  from finishes_with_read_fence [OF this few_names_run [OF n2 few_names_start]]
  obtain t3 where t3: "own_steps demo_parse demo_stale 7 t2 t3" "fl_pcs t3 7 = Held r 1" by blast
  moreover have "fl_pcs t3 8 = Held r' 1" using own_others [OF t3(1), of 8] t2(2) by simp
  ultimately show ?thesis using own_run [OF t3(1) n2] by blast
qed

end
