(* ===== verification/Spec2Isabelle.thy ===== *)
theory Spec2Isabelle
  imports Prelude Go_Errors Apierr Governance Invariant_Checks Gate Retry Retry_Transport Retry_Gcp Ttl_Cache Workflow_Engine Batch_Buffer Async_Runner Coordination Filelock Runstate Datadiff_Sets Go_Float Datadiff Privacy_Filter Audit_Log Buildstamp
    Sheets_Table Sheets_Batches Sheets_Format Sheets_Service Sheets_Trace Drive_Service Gcpenv Slog_Attrs Slog_Handler Google_Auth Google_Cloud Procrun Web Addon Pulumi_Runner Iac_Core Iac_Blocks Iac_Monitoring Iac_Programs Iac_Observability Iac_Safety Iac_Secrecy Iac_Data Iac_Services Go_Time Audit_Entry Audit_Reader Filelock_Reports Gate_Report Retry_Transport_Copy Datadiff_Report Slog_Test Google_Constructors Search_Index Filelock_Progress
begin

text \<open>
  \<^bold>\<open>The alexandria Go libraries.\<close> The repository is a collection of small Go modules that other programs
  are built from: error classification and retries (\<open>go/platform/apierr\<close>, \<open>go/platform/retry\<close>,
  \<open>go/retry\<close>, \<open>go/retry/gcp\<close>), governance of organisation plans and policy gates (\<open>go/governance\<close>),
  concurrency and coordination building blocks (\<open>go/platform/cache\<close>, \<open>workflow\<close>, \<open>async\<close>,
  \<open>coordination\<close>, \<open>runstate\<close>), data comparison (\<open>go/dataquality/datadiff\<close>), adapters to Google
  services, logging, web and process plumbing, and infrastructure programs (\<open>go/iac\<close>). This development models the modules that carry logic of their own and proves what makes
  them correct.

  \<^bold>\<open>Conventions.\<close> Go strings are byte strings (\<open>string\<close>), \<open>int\<close>, \<open>int64\<close> and \<open>time.Duration\<close> are \<open>int\<close> with
  the wrap to 64 bits written out (\<open>wrap64\<close>) wherever the code can overflow, \<open>uint32\<close> codes are words, a
  struct is a record, an iota enum a datatype with a constructor for values out of range, an error a
  tree (\<open>'x err\<close>: kind, text, wrapped errors) on which \<open>errors.Is\<close> and \<open>errors.As\<close> are functions. A
  function that can fail returns a sum. Callbacks, clocks, random numbers and contexts are functions
  that thread a world \<open>'w\<close>. Concurrent code is an inductive step relation, one step per critical
  section or system call. Code outside the repository (json, http.ParseTime, the Google clients) is
  a parameter with its documented behaviour as a named hypothesis.

  \<^bold>\<open>Theories, in the order of their dependencies.\<close>
  \<^item> \<open>Prelude\<close>, \<open>Go_Errors\<close>, \<open>Go_Float\<close>, \<open>Go_Time\<close>: int64 arithmetic, strings, numbers in text, errors, float64, and
    the calendar with RFC 3339 texts, which read back, and the text of durations.
  \<^item> \<open>Apierr\<close> (\<open>platform/apierr/apierr.go\<close>): the maps of HTTP and gRPC codes to sentinels and the two
    retryability tables; the tables agree with the maps but for gRPC ABORTED.
  \<^item> \<open>Governance\<close> (\<open>governance/{scope,hierarchy,classification,plan,exports}\<close>): all validators; they
    accept exactly the plans of a declarative specification.
  \<^item> \<open>Invariant_Checks\<close> (\<open>governance/invariant\<close>) and \<open>Gate\<close> (\<open>governance/gate\<close>): builders only degrade
    (locale \<open>degrading\<close>), reports partition their results, verdicts follow the policy and fail closed.
    \<open>Gate_Report\<close> is a report as JSON and as text.
  \<^item> \<open>Retry\<close>, \<open>Retry_Transport\<close>, \<open>Retry_Gcp\<close>: the backoff in int64 arithmetic, the retry loops as
    instances of one bounded loop (locale \<open>attempt_loop\<close>): every loop returns after at most the allowed
    attempts with the result of its deciding iteration; bounds of every delay; the classification.
    \<open>Retry_Transport_Copy\<close> is the older transport, translated by itself: it behaves as the newer one but for a text, its own
    sentinel errors and a nil function.
  \<^item> \<open>Ttl_Cache\<close> (\<open>platform/cache\<close>): refinement of a last-write map, and its interleavings.
  \<^item> \<open>Workflow_Engine\<close> (\<open>platform/workflow\<close>), \<open>Batch_Buffer\<close> and \<open>Async_Runner\<close> (\<open>platform/async\<close>): shape of
    results, conservation of items over interleaved callers up to the delivery of every batch, bound on running tasks, life
    cycle of a task.
  \<^item> \<open>Coordination\<close>, \<open>Filelock\<close>, \<open>Runstate\<close> (\<open>platform/coordination\<close>, \<open>platform/runstate\<close>): the contract of
    exclusive windows (locale \<open>exclusion\<close>), provided by the waiting file lock and by the refusing lock;
    fences increase; leases are saved atomically and refine a map. \<open>Filelock_Progress\<close>: with a reclaim age, an abandoned
    window is taken over, and then fences may repeat. \<open>Filelock_Reports\<close>: what is told about a window.
  \<^item> \<open>Datadiff_Sets\<close>, \<open>Datadiff\<close> (\<open>dataquality/datadiff\<close>): set, map, three-way, schema and statistics
    comparison against their set-theoretic meaning, and the layered comparison. \<open>Datadiff_Report\<close>: the lines that are printed.
  \<^item> \<open>Privacy_Filter\<close> (\<open>discovery/privacyfilter\<close>), \<open>Search_Index\<close> (\<open>discovery/search\<close>), \<open>Buildstamp\<close>
    (\<open>platform/buildstamp\<close>), \<open>Gcpenv\<close> (\<open>platform/gcpenv\<close>): what may enter the index; the contract test of an index, which
    every finite map of documents passes; stamps that read back; the project of a process.
  \<^item> \<open>Audit_Entry\<close>, \<open>Audit_Log\<close>, \<open>Audit_Reader\<close> (\<open>observability/audit\<close>): the JSON and protobuf forms of entries and
    scorecards, the rotating file log with its I/O failures, and the reader of its lines; together, what is logged is what is
    read, to the second.
  \<^item> \<open>Sheets_Table\<close>, \<open>Sheets_Batches\<close>, \<open>Sheets_Format\<close>, \<open>Sheets_Service\<close>, \<open>Sheets_Trace\<close>
    (\<open>google/workspace/sheets\<close>): cells and tables, value updates, formatting requests, and the service over a
    spreadsheet; the calls a synchronisation makes, in order, and that no tab of its own is deleted. \<open>Drive_Service\<close>
    (\<open>google/workspace/drive\<close>): queries, memberships, scans with their paging loops.
  \<^item> \<open>Slog_Attrs\<close>, \<open>Slog_Handler\<close> (\<open>slog-gcp\<close>): severities, trace headers, request and error fields, and the
    handler with groups and reserved keys. \<open>Slog_Test\<close> (\<open>slog-gcp/sloggcptest\<close>): the assertions on log lines.
  \<^item> \<open>Google_Auth\<close>, \<open>Google_Cloud\<close> (\<open>google/auth\<close>, \<open>resourcemanager\<close>, \<open>serviceusage\<close>, \<open>client\<close>): credentials,
    the consent flow and delegation; projects and operations polled until they settle. \<open>Google_Constructors\<close>: the services as
    their constructors build them.
  \<^item> \<open>Procrun\<close> (\<open>platform/procrun\<close>, \<open>passstore\<close>), \<open>Web\<close> (\<open>platform/web\<close>), \<open>Addon\<close>
    (\<open>blueprints/google-addon\<close>), \<open>Pulumi_Runner\<close> (\<open>iac/pulumi/runner\<close>): child processes and their environment; JSON
    bodies, error responses and recovery; the add-on's handler; the Pulumi command line and its redaction.
  \<^item> \<open>Iac_Core\<close>, \<open>Iac_Blocks\<close>, \<open>Iac_Monitoring\<close>, \<open>Iac_Data\<close>, \<open>Iac_Services\<close> (\<open>iac/pulumi/gcpinfra\<close>): a
    deployment program as a function over what is registered and exported, and the building blocks. \<open>Iac_Programs\<close>,
    \<open>Iac_Observability\<close> (\<open>iac/{identity,finops,workloads,governance,delivery,observability}\<close>): the programs whole.
    \<open>Iac_Safety\<close> and \<open>Iac_Secrecy\<close> hold what is true of everything they register: data is protected, stacks are
    referenced once, and the value of a secret has no influence outside secret outputs. Locale \<open>checked_first\<close> is
    the contract of the blocks that check a whole list before they create anything.

  \<^bold>\<open>Bounds.\<close> No model uses fuel to stand for a result: the loops of the code are bounded by slices or by attempt
  counts, and the recursions follow them. The paging loops that the code does not bound are \<open>partial_function (option)\<close>
  in \<open>Drive_Service\<close>, and that they return is proved from what the
  service promises. The theorem on the file lock bounds runs by \<open>2^64\<close> steps, the range of the counter.

  \<^bold>\<open>Not modelled.\<close> Generated protobuf and Connect code (\<open>go/contracts\<close>), which has no logic of its own; the interfaces of
  content sources and fetchers, which have no implementation here; accessors of raw clients and the options that set a logger, and all
  log lines; the wiring of main packages; see the manifest for each.
\<close>

end
